(* ===== verification/Prelude.thy ===== *)
theory Prelude
  imports Main "HOL-Library.Word"
begin

unbundle bit_operations_syntax

text \<open>
  Shared vocabulary of the development: the errors of \<^verbatim>\<open>src/base/error.hpp\<close> and of the
  standard library as a datatype, results as sums, sequencing of fallible steps, and the
  generic facts on positional numerals and lists that several components use.
\<close>

section \<open>Errors and results\<close>

text \<open>
  The constructors down to \<open>RpcError\<close> are the exception classes derived from
  \<^verbatim>\<open>base::Error\<close>. The remaining ones stand for what leaves the normal control flow in
  another way: a failed \<^verbatim>\<open>ASSERT\<close> (process exit in a debug build), the standard exceptions
  that checked 256-bit integers, containers and \<^verbatim>\<open>std::optional::value\<close> throw, the exception of the JSON
  library, an unset \<^verbatim>\<open>std::optional\<close> that is dereferenced, and a read outside an array.
\<close>

datatype error =
    BaseError | InvalidArgument | InaccessibleFile | SystemCallFailed | ParsingError
  | DatabaseError | CryptoError | LogicError | RuntimeError | ValueNotFound
  | UseOfUninitializedValue | KeyNotFound | ClosedSession | SendOnClosedConnection | VmError | RpcError
  | AssertionFailed | StdOverflowError | StdRangeError | StdLengthError | StdOutOfRange | StdRuntimeError
  | StdBadOptionalAccess | JsonException | EmptyOptional | OutOfBounds

type_synonym 'a res = "error + 'a"

text \<open>What \<^verbatim>\<open>catch (const base::Error&)\<close> catches.\<close>

fun is_base_error :: "error \<Rightarrow> bool" where
  "is_base_error AssertionFailed = False"
| "is_base_error StdOverflowError = False"
| "is_base_error StdRangeError = False"
| "is_base_error StdLengthError = False"
| "is_base_error StdOutOfRange = False"
| "is_base_error StdRuntimeError = False"
| "is_base_error StdBadOptionalAccess = False"
| "is_base_error JsonException = False"
| "is_base_error EmptyOptional = False"
| "is_base_error OutOfBounds = False"
| "is_base_error _ = True"

text \<open>What \<^verbatim>\<open>catch (const std::exception&)\<close> catches: all exceptions, but no failed assertion and no undefined behaviour.\<close>

fun is_std_exception :: "error \<Rightarrow> bool" where
  "is_std_exception AssertionFailed = False"
| "is_std_exception EmptyOptional = False"
| "is_std_exception OutOfBounds = False"
| "is_std_exception _ = True"

definition rbind :: "'a res \<Rightarrow> ('a \<Rightarrow> 'b res) \<Rightarrow> 'b res" where
  "rbind r f = (case r of Inl e \<Rightarrow> Inl e | Inr x \<Rightarrow> f x)"

definition assert_that :: "bool \<Rightarrow> 'a res \<Rightarrow> 'a res" where
  "assert_that c r = (if c then r else Inl AssertionFailed)"

named_theorems res_simps
named_theorems codec_simps

lemma rbind_Inr [simp, res_simps]: "rbind (Inr x) f = f x"
  by (simp add: rbind_def)

lemma rbind_Inl [simp, res_simps]: "rbind (Inl e) f = Inl e"
  by (simp add: rbind_def)

lemma rbind_eq_Inr: "rbind r f = Inr y \<longleftrightarrow> (\<exists>x. r = Inr x \<and> f x = Inr y)"
  by (cases r) auto

lemma rbind_eq_Inl: "rbind r f = Inl e \<longleftrightarrow> r = Inl e \<or> (\<exists>x. r = Inr x \<and> f x = Inl e)"
  by (cases r) auto

lemma rbind_split:
  "P (rbind r f) \<longleftrightarrow> (\<forall>e. r = Inl e \<longrightarrow> P (Inl e)) \<and> (\<forall>x. r = Inr x \<longrightarrow> P (f x))"
  by (cases r) auto

lemma rbind_cong [fundef_cong]:
  "r = r' \<Longrightarrow> (\<And>x. r' = Inr x \<Longrightarrow> f x = f' x) \<Longrightarrow> rbind r f = rbind r' f'"
  by (cases r') auto

lemma assert_that_True [simp]: "assert_that True r = r"
  by (simp add: assert_that_def)

lemma assert_that_False [simp]: "assert_that False r = Inl AssertionFailed"
  by (simp add: assert_that_def)

lemma assert_that_eq_Inr: "assert_that c r = Inr x \<longleftrightarrow> c \<and> r = Inr x"
  by (simp add: assert_that_def)

lemma not_Inl_iff: "(\<forall>e. r \<noteq> Inl e) \<longleftrightarrow> (\<exists>x. r = Inr x)"
  by (cases r) auto

section \<open>Positional numerals\<close>

text \<open>Little-endian value of a digit list, and the big-endian digits without leading zeros.\<close>

fun val_le :: "nat \<Rightarrow> nat list \<Rightarrow> nat" where
  "val_le B [] = 0"
| "val_le B (d # ds) = d + B * val_le B ds"

definition val_be :: "nat \<Rightarrow> nat list \<Rightarrow> nat" where
  "val_be B ds = val_le B (rev ds)"

function digits_be :: "nat \<Rightarrow> nat \<Rightarrow> nat list" where
  "digits_be B n = (if n = 0 \<or> B < 2 then [] else digits_be B (n div B) @ [n mod B])"
  by pat_completeness auto
termination
  by (relation "measure (\<lambda>(B, n). n)") auto

declare digits_be.simps [simp del]

lemma digits_be_0 [simp]: "digits_be B 0 = []"
  by (simp add: digits_be.simps)

lemma val_le_append: "val_le B (xs @ ys) = val_le B xs + B ^ length xs * val_le B ys"
  by (induction xs) (auto simp: algebra_simps)

lemma val_be_Nil [simp]: "val_be B [] = 0"
  by (simp add: val_be_def)

lemma val_be_append: "val_be B (xs @ ys) = val_be B xs * B ^ length ys + val_be B ys"
  by (simp add: val_be_def val_le_append algebra_simps)

lemma val_be_snoc [simp]: "val_be B (ds @ [d]) = val_be B ds * B + d"
  by (simp add: val_be_append) (simp add: val_be_def)

lemma val_be_Cons: "val_be B (d # ds) = d * B ^ length ds + val_be B ds"
  using val_be_append [of B "[d]" ds] by (simp add: val_be_def)

lemma val_le_bound: "0 < B \<Longrightarrow> \<forall>d\<in>set ds. d < B \<Longrightarrow> val_le B ds < B ^ length ds"
proof (induction ds)
  case (Cons d ds)
  then have "d + B * val_le B ds < B * (1 + val_le B ds)" and "1 + val_le B ds \<le> B ^ length ds"
    by (auto simp: algebra_simps)
  then show ?case
    using mult_le_mono2 [of "1 + val_le B ds" "B ^ length ds" B] by simp
qed simp

lemma val_be_bound: "0 < B \<Longrightarrow> \<forall>d\<in>set ds. d < B \<Longrightarrow> val_be B ds < B ^ length ds"
  using val_le_bound [of B "rev ds"] by (simp add: val_be_def)

lemma val_le_zeros: "\<forall>d\<in>set ds. d = 0 \<Longrightarrow> val_le B ds = 0"
  by (induction ds) auto

lemma val_le_eq_0_iff: "0 < B \<Longrightarrow> val_le B ds = 0 \<longleftrightarrow> (\<forall>d\<in>set ds. d = 0)"
  by (induction ds) auto

lemma val_be_eq_0_iff: "0 < B \<Longrightarrow> val_be B ds = 0 \<longleftrightarrow> (\<forall>d\<in>set ds. d = 0)"
  by (simp add: val_be_def val_le_eq_0_iff)

lemma val_be_digits_be: "2 \<le> B \<Longrightarrow> val_be B (digits_be B n) = n"
proof (induction B n rule: digits_be.induct)
  case (1 B n)
  then show ?case by (cases "n = 0") (simp_all add: digits_be.simps [of B n])
qed

lemma digits_be_less: "d \<in> set (digits_be B n) \<Longrightarrow> d < B"
proof (induction B n rule: digits_be.induct)
  case (1 B n)
  then show ?case
    by (cases "n = 0 \<or> B < 2") (auto simp: digits_be.simps [of B n])
qed

lemma length_digits_be: "n < B ^ k \<Longrightarrow> length (digits_be B n) \<le> k"
proof (induction B n arbitrary: k rule: digits_be.induct)
  case (1 B n)
  show ?case
  proof (cases "n = 0 \<or> B < 2")
    case False
    with 1(2) obtain j where k: "k = Suc j" by (cases k) auto
    with False 1(2) have "n div B < B ^ j" by (simp add: div_less_iff_less_mult mult.commute)
    with 1(1) False k show ?thesis by (simp add: digits_be.simps [of B n])
  qed (simp add: digits_be.simps)
qed

text \<open>Dropping the leading zeros of any big-endian digit list gives the digits of its value.\<close>

lemma digits_be_val_be:
  assumes B: "2 \<le> B" and "\<forall>d\<in>set ds. d < B"
  shows "digits_be B (val_be B ds) = dropWhile (\<lambda>d. d = 0) ds"
  using assms(2)
proof (induction ds rule: rev_induct)
  case Nil
  then show ?case by (simp add: digits_be.simps)
next
  case (snoc d ds)
  then have IH: "digits_be B (val_be B ds) = dropWhile (\<lambda>d. d = 0) ds" and d: "d < B"
    by auto
  show ?case
  proof (cases "val_be B ds = 0")
    case True
    with B have "\<forall>x\<in>set ds. x = 0" by (simp add: val_be_eq_0_iff)
    with True d B show ?thesis
      by (auto simp: dropWhile_append digits_be.simps)
  next
    case False
    with B have "\<exists>x\<in>set ds. x \<noteq> 0" by (simp add: val_be_eq_0_iff)
    with False d B IH show ?thesis
      by (subst digits_be.simps) (auto simp: dropWhile_append)
  qed
qed

lemma digits_be_unique:
  "2 \<le> B \<Longrightarrow> \<forall>d\<in>set ds. d < B \<Longrightarrow> ds = [] \<or> hd ds \<noteq> 0 \<Longrightarrow> digits_be B (val_be B ds) = ds"
  by (cases ds) (auto simp: digits_be_val_be)

lemma hd_digits_be: "digits_be B n \<noteq> [] \<Longrightarrow> hd (digits_be B n) \<noteq> 0"
proof (induction B n rule: digits_be.induct)
  case (1 B n)
  then have n: "n \<noteq> 0" "\<not> B < 2" by (auto simp: digits_be.simps split: if_splits)
  show ?case
  proof (cases "digits_be B (n div B) = []")
    case True
    then have "n div B = 0 \<or> B < 2" by (metis digits_be.simps snoc_eq_iff_butlast)
    with n True show ?thesis
      by (auto simp: digits_be.simps [of B n] div_eq_0_iff)
  next
    case False
    with 1 n show ?thesis by (simp add: digits_be.simps [of B n])
  qed
qed

section \<open>Lists\<close>

lemma takeWhile_eq_replicate:
  "takeWhile (\<lambda>x. x = c) xs = replicate (length (takeWhile (\<lambda>x. x = c) xs)) c"
  by (induction xs) auto

end
