(* ===== verification/Pools.thy ===== *)
theory Pools
  imports Prelude
begin

text \<open>
  The class templates of \<^verbatim>\<open>src/base/utility.hpp\<close> and \<^verbatim>\<open>utility.tpp\<close>: \<^verbatim>\<open>Observable\<close>, the list of callbacks
  behind every event of the core and the chain, and \<^verbatim>\<open>OwningPool\<close>, a map from addresses to the
  objects it keeps alive. Callbacks act on a state \<open>'s\<close> and may throw. The mutex of a pool is not
  modelled: it is held while the callbacks of a pool run, so they cannot use the same pool.
\<close>

section \<open>Observable\<close>

record ('a, 's) observable =
  obs_observers :: "(('a \<Rightarrow> 's \<Rightarrow> 's res) \<times> 64 word) list"
  obs_next_id :: "64 word"

definition mk_Observable :: "('a, 's) observable" where
  "mk_Observable = \<lparr>obs_observers = [], obs_next_id = 0\<rparr>"

definition subscribe :: "('a \<Rightarrow> 's \<Rightarrow> 's res) \<Rightarrow> ('a, 's) observable \<Rightarrow> 64 word \<times> ('a, 's) observable" where
  "subscribe callback ob =
     (obs_next_id ob, ob\<lparr>obs_observers := obs_observers ob @ [(callback, obs_next_id ob)], obs_next_id := obs_next_id ob + 1\<rparr>)"

definition unsubscribe :: "64 word \<Rightarrow> ('a, 's) observable \<Rightarrow> ('a, 's) observable res" where
  "unsubscribe i ob =
     (case dropWhile (\<lambda>e. snd e \<noteq> i) (obs_observers ob) of
        [] \<Rightarrow> Inl InvalidArgument
      | e # rest \<Rightarrow> Inr (ob\<lparr>obs_observers := takeWhile (\<lambda>e. snd e \<noteq> i) (obs_observers ob) @ rest\<rparr>))"

fun notify_all :: "(('a \<Rightarrow> 's \<Rightarrow> 's res) \<times> 64 word) list \<Rightarrow> 'a \<Rightarrow> 's \<Rightarrow> 's res" where
  "notify_all [] args s = Inr s"
| "notify_all ((callback, i) # es) args s = rbind (callback args s) (notify_all es args)"

definition notify :: "'a \<Rightarrow> ('a, 's) observable \<Rightarrow> 's \<Rightarrow> 's res" where
  "notify args ob = notify_all (obs_observers ob) args"

section \<open>OwningPool\<close>

text \<open>The entries in the order of their addresses, the order in which a \<^verbatim>\<open>std::map\<close> is traversed.\<close>

type_synonym 'a owning_pool = "(nat \<times> 'a) list"

definition own :: "nat \<Rightarrow> 'a \<Rightarrow> 'a owning_pool \<Rightarrow> bool \<times> 'a owning_pool" where
  "own p v pool = (if p \<in> fst ` set pool then (False, pool) else (True, insort_key fst (p, v) pool))"

definition isOwning :: "nat \<Rightarrow> 'a owning_pool \<Rightarrow> bool" where
  "isOwning p pool \<longleftrightarrow> p \<in> fst ` set pool"

definition disown :: "nat \<Rightarrow> 'a owning_pool \<Rightarrow> 'a owning_pool res" where
  "disown p pool = (if p \<notin> fst ` set pool then Inl ValueNotFound else Inr (filter (\<lambda>e. fst e \<noteq> p) pool))"

text \<open>Both branches of the code return \<^verbatim>\<open>false\<close>.\<close>

definition tryDisown :: "nat \<Rightarrow> 'a owning_pool \<Rightarrow> bool \<times> 'a owning_pool" where
  "tryDisown p pool = (if p \<notin> fst ` set pool then (False, pool) else (False, filter (\<lambda>e. fst e \<noteq> p) pool))"

fun forEach :: "('a \<Rightarrow> 's \<Rightarrow> ('a \<times> 's) res) \<Rightarrow> 'a owning_pool \<Rightarrow> 's \<Rightarrow> ('a owning_pool \<times> 's) res" where
  "forEach f [] s = Inr ([], s)"
| "forEach f ((p, v) # pool) s =
     rbind (f v s) (\<lambda>(v, s). rbind (forEach f pool s) (\<lambda>(pool, s). Inr ((p, v) # pool, s)))"

fun disownIf :: "('a \<Rightarrow> 's \<Rightarrow> (bool \<times> 'a \<times> 's) res) \<Rightarrow> 'a owning_pool \<Rightarrow> 's \<Rightarrow> ('a owning_pool \<times> 's) res" where
  "disownIf f [] s = Inr ([], s)"
| "disownIf f ((p, v) # pool) s =
     rbind (f v s) (\<lambda>(erase, v, s).
     rbind (disownIf f pool s) (\<lambda>(pool, s). Inr (if erase then pool else (p, v) # pool, s)))"

definition pool_clear :: "'a owning_pool \<Rightarrow> 'a owning_pool" where
  "pool_clear pool = []"

section \<open>Subscriptions\<close>

definition observers_ok :: "('a, 's) observable \<Rightarrow> bool" where
  "observers_ok ob \<longleftrightarrow> distinct (map snd (obs_observers ob)) \<and> (\<forall>e\<in>set (obs_observers ob). snd e < obs_next_id ob)"

lemma notify_all_append: "notify_all (xs @ ys) args s = rbind (notify_all xs args s) (notify_all ys args)"
  by (induction xs args s rule: notify_all.induct) (simp_all add: rbind_def split: sum.splits)

lemma notify_subscribed:
  "notify args (snd (subscribe cb ob)) s = rbind (notify args ob s) (cb args)"
  by (simp add: notify_def subscribe_def notify_all_append rbind_def split: sum.splits)

lemma observers_ok_new: "observers_ok mk_Observable"
  by (simp add: observers_ok_def mk_Observable_def)

lemma less_Suc_word:
  assumes "n + 1 \<noteq> (0 :: 64 word)" and "x \<le> n"
  shows "x < n + 1"
proof -
  have "unat (n + 1) = Suc (unat n)" using unatSuc [of n] assms(1) by (simp add: add.commute)
  then show ?thesis using assms(2) by (simp add: word_less_nat_alt word_le_nat_alt)
qed

text \<open>The number of the last subscription must not wrap around, which takes \<open>2 ^ 64\<close> subscriptions.\<close>

lemma subscribe_ok:
  assumes "observers_ok ob" and "obs_next_id ob + 1 \<noteq> 0"
  shows "observers_ok (snd (subscribe cb ob))"
  using assms less_Suc_word [OF assms(2)] by (auto simp: observers_ok_def subscribe_def)

lemma erase_first:
  assumes "distinct (map snd (xs @ (cb, i) # ys))"
  shows "takeWhile (\<lambda>e. snd e \<noteq> i) (xs @ (cb, i) # ys) = xs" and "dropWhile (\<lambda>e. snd e \<noteq> i) (xs @ (cb, i) # ys) = (cb, i) # ys"
  using assms by (induction xs) auto

text \<open>Removing a subscription removes its callback and keeps the order of the others.\<close>

lemma unsubscribe_entry:
  assumes "observers_ok ob" and "obs_observers ob = xs @ (cb, i) # ys"
  shows "unsubscribe i ob = Inr (ob\<lparr>obs_observers := xs @ ys\<rparr>)" and "observers_ok (ob\<lparr>obs_observers := xs @ ys\<rparr>)"
  using assms erase_first [of xs cb i ys] by (auto simp: unsubscribe_def observers_ok_def)

lemma unsubscribe_unknown: "i \<notin> snd ` set (obs_observers ob) \<Longrightarrow> unsubscribe i ob = Inl InvalidArgument"
proof -
  assume "i \<notin> snd ` set (obs_observers ob)"
  then have "dropWhile (\<lambda>e. snd e \<noteq> i) (obs_observers ob) = []" by (auto simp: dropWhile_eq_Nil_conv)
  then show ?thesis unfolding unsubscribe_def by (simp only: list.case)
qed

section \<open>The contract of a pool\<close>

text \<open>
  A pool is a map from addresses to objects: \<open>owned\<close> reads it, \<open>put\<close> and \<open>delete\<close> change one entry, and
  \<open>drop_if\<close> removes the entries that a callback selects.
\<close>

locale object_pool =
  fixes owned :: "'p \<Rightarrow> nat \<Rightarrow> 'a option" and put :: "nat \<Rightarrow> 'a \<Rightarrow> 'p \<Rightarrow> bool \<times> 'p" and delete :: "nat \<Rightarrow> 'p \<Rightarrow> 'p res"
    and pool_ok :: "'p \<Rightarrow> bool"
  assumes put_new: "pool_ok pool \<Longrightarrow> owned pool p = None \<Longrightarrow>
      fst (put p v pool) \<and> pool_ok (snd (put p v pool)) \<and> owned (snd (put p v pool)) = (owned pool)(p \<mapsto> v)"
    and put_known: "owned pool p = Some w \<Longrightarrow> put p v pool = (False, pool)"
    and delete_unknown: "owned pool p = None \<Longrightarrow> delete p pool = Inl ValueNotFound"
    and delete_known: "pool_ok pool \<Longrightarrow> owned pool p = Some w \<Longrightarrow>
      \<exists>pool'. delete p pool = Inr pool' \<and> pool_ok pool' \<and> owned pool' = (owned pool)(p := None)"
begin

lemma put_delete:
  assumes "pool_ok pool" and "owned pool p = None"
  shows "\<exists>pool'. delete p (snd (put p v pool)) = Inr pool' \<and> pool_ok pool' \<and> owned pool' = owned pool"
  using put_new [OF assms, of v] delete_known [of "snd (put p v pool)" p v] assms(2) by (auto simp: fun_upd_idem)

lemma put_twice: "pool_ok pool \<Longrightarrow> owned pool p = None \<Longrightarrow> fst (put p w (snd (put p v pool))) = False"
  using put_new [of pool p v] put_known [of "snd (put p v pool)" p v w] by simp

end

definition sorted_pool :: "'a owning_pool \<Rightarrow> bool" where
  "sorted_pool pool \<longleftrightarrow> sorted (map fst pool) \<and> distinct (map fst pool)"

lemma set_insort_entry [simp]: "set (insort_key fst x pool) = insert x (set pool)"
  by (induction pool) auto

lemma sorted_pool_own: "sorted_pool pool \<Longrightarrow> sorted_pool (snd (own p v pool))"
proof -
  assume "sorted_pool pool"
  moreover have "p \<notin> fst ` set pool \<Longrightarrow> distinct (map fst pool) \<Longrightarrow> distinct (map fst (insort_key fst (p, v) pool))"
    by (induction pool) auto
  ultimately show ?thesis by (simp add: sorted_pool_def own_def sorted_insort_key)
qed

lemma map_of_insort: "p \<notin> fst ` set pool \<Longrightarrow> map_of (insort_key fst (p, v) pool) = (map_of pool)(p \<mapsto> v)"
  by (induction pool) (auto simp: fun_eq_iff)

lemma map_of_filter_neq: "map_of (filter (\<lambda>e. fst e \<noteq> p) pool) = (map_of pool)(p := None)"
  by (induction pool) (auto simp: fun_eq_iff)

interpretation owning: object_pool map_of own disown sorted_pool
proof
  fix pool :: "'a owning_pool" and p v w
  assume "map_of pool p = None"
  then have new: "p \<notin> fst ` set pool" by (simp add: map_of_eq_None_iff)
  then show "disown p pool = Inl ValueNotFound" by (simp add: disown_def)
  assume "sorted_pool pool"
  then show "fst (own p v pool) \<and> sorted_pool (snd (own p v pool)) \<and> map_of (snd (own p v pool)) = (map_of pool)(p \<mapsto> v)"
    using new sorted_pool_own [of pool p v] by (simp add: own_def map_of_insort)
next
  fix pool :: "'a owning_pool" and p v w
  assume "map_of pool p = Some w"
  then have known: "p \<in> fst ` set pool" by (force dest: map_of_SomeD)
  then show "own p v pool = (False, pool)" by (simp add: own_def)
  assume "sorted_pool pool"
  then have "sorted_pool (filter (\<lambda>e. fst e \<noteq> p) pool)"
    by (simp add: sorted_pool_def sorted_filter distinct_map_filter)
  then show "\<exists>pool'. disown p pool = Inr pool' \<and> sorted_pool pool' \<and> map_of pool' = (map_of pool)(p := None)"
    using known by (simp add: disown_def map_of_filter_neq)
qed

end
