(* ===== verification/Bytes.thy ===== *)
theory Bytes
  imports Prelude
begin

text \<open>
  Byte strings: the classes \<^verbatim>\<open>Bytes\<close> and \<^verbatim>\<open>FixedBytes<S>\<close> of \<^verbatim>\<open>src/base/bytes.{hpp,cpp,tpp}\<close> as
  lists of 8-bit words (a \<open>FixedBytes<S>\<close> is a list of length \<open>S\<close>, checked by its
  constructor), their lexicographic order, and the hexadecimal and base58 codecs with the
  loops of the source. The main results are the round trips of the two codecs and that the
  lexicographic order on equally long byte strings is the order of their big-endian values.
\<close>

type_synonym byte = "8 word"
type_synonym bytes = "byte list"

section \<open>Operations\<close>

definition bytes_at :: "bytes \<Rightarrow> nat \<Rightarrow> byte res" where
  "bytes_at raw index = assert_that (index < length raw) (Inr (raw ! index))"

definition takePart :: "bytes \<Rightarrow> nat \<Rightarrow> nat \<Rightarrow> bytes res" where
  "takePart raw begin_index one_past_end_index =
     assert_that (begin_index < one_past_end_index)
      (assert_that (one_past_end_index \<le> length raw)
        (Inr (take (one_past_end_index - begin_index) (drop begin_index raw))))"

definition bytes_resize :: "bytes \<Rightarrow> nat \<Rightarrow> bytes" where
  "bytes_resize raw new_size = take new_size raw @ replicate (new_size - length raw) 0"

definition bytes_of_size :: "nat \<Rightarrow> bytes" where
  "bytes_of_size n = replicate n 0"

text \<open>A write through the reference that \<^verbatim>\<open>operator[]\<close> returns\<close>

definition bytes_set :: "bytes \<Rightarrow> nat \<Rightarrow> byte \<Rightarrow> bytes res" where
  "bytes_set raw index b = assert_that (index < length raw) (Inr (raw[index := b]))"

definition append_byte :: "bytes \<Rightarrow> byte \<Rightarrow> bytes" where
  "append_byte raw b = raw @ [b]"

definition append_bytes :: "bytes \<Rightarrow> bytes \<Rightarrow> bytes" where
  "append_bytes raw bs = raw @ bs"

text \<open>The array of the given length in front of a longer memory\<close>

primrec append_array :: "bytes \<Rightarrow> bytes \<Rightarrow> nat \<Rightarrow> bytes" where
  "append_array raw memory 0 = raw"
| "append_array raw memory (Suc n) = append_byte (append_array raw memory n) (memory ! n)"

definition bytes_clear :: "bytes \<Rightarrow> bytes" where
  "bytes_clear raw = []"

definition bytes_isEmpty :: "bytes \<Rightarrow> bool" where
  "bytes_isEmpty raw \<longleftrightarrow> raw = []"

definition bytes_plus :: "bytes \<Rightarrow> bytes \<Rightarrow> bytes" where
  "bytes_plus a b = (let ret = a in append_bytes ret b)"

definition fixed_bytes :: "nat \<Rightarrow> bytes \<Rightarrow> bytes res" where
  "fixed_bytes S bs = (if S \<noteq> length bs then Inl InvalidArgument else Inr bs)"

definition string_to_bytes :: "string \<Rightarrow> bytes" where
  "string_to_bytes s = map of_char s"

definition bytes_to_string :: "bytes \<Rightarrow> string" where
  "bytes_to_string raw = map (\<lambda>b. char_of (unat b)) raw"

fun bytes_less :: "bytes \<Rightarrow> bytes \<Rightarrow> bool" where
  "bytes_less xs [] = False"
| "bytes_less [] (y # ys) = True"
| "bytes_less (x # xs) (y # ys) = (if x < y then True else if y < x then False else bytes_less xs ys)"

definition bytes_le :: "bytes \<Rightarrow> bytes \<Rightarrow> bool" where
  "bytes_le a b = (\<not> bytes_less b a)"

definition bytes_greater :: "bytes \<Rightarrow> bytes \<Rightarrow> bool" where
  "bytes_greater a b = bytes_less b a"

definition bytes_ge :: "bytes \<Rightarrow> bytes \<Rightarrow> bool" where
  "bytes_ge a b = (\<not> bytes_less a b)"

definition fixed_bytes_of_string :: "nat \<Rightarrow> string \<Rightarrow> bytes res" where
  "fixed_bytes_of_string S str = (if S \<noteq> length str then Inl InvalidArgument else Inr (string_to_bytes str))"

definition nat_of_bytes :: "bytes \<Rightarrow> nat" where
  "nat_of_bytes bs = val_be 256 (map unat bs)"

section \<open>Hexadecimal\<close>

definition HEX_DIGITS :: string where
  "HEX_DIGITS = ''0123456789abcdef''"

definition hexToInt :: "char \<Rightarrow> nat res" where
  "hexToInt hex =
     (let c = (of_char hex :: nat) in
      if 48 \<le> c \<and> c \<le> 57 then Inr (c - 48)
      else if 97 \<le> c \<and> c \<le> 102 then Inr (c - 97 + 10)
      else if 65 \<le> c \<and> c \<le> 70 then Inr (c - 65 + 10)
      else Inl InvalidArgument)"

definition toHex :: "bytes \<Rightarrow> string" where
  "toHex bs = concat (map (\<lambda>c. [HEX_DIGITS ! unat (drop_bit 4 c), HEX_DIGITS ! unat (c AND 0xF)]) bs)"

fun fromHex_loop :: "string \<Rightarrow> bytes res" where
  "fromHex_loop (h # l # rest) =
     rbind (hexToInt h) (\<lambda>high_part.
     rbind (hexToInt l) (\<lambda>low_part.
     rbind (fromHex_loop rest) (\<lambda>bs.
     Inr (of_nat (high_part * 16 + low_part) # bs))))"
| "fromHex_loop _ = Inr []"

definition fromHex :: "string \<Rightarrow> bytes res" where
  "fromHex hex_view = (if length hex_view mod 2 \<noteq> 0 then Inl InvalidArgument else fromHex_loop hex_view)"

section \<open>Base58\<close>

definition pszBase58 :: string where
  "pszBase58 = ''123456789ABCDEFGHJKLMNPQRSTUVWXYZabcdefghijkmnopqrstuvwxyz''"

definition mapBase58 :: "int list" where
  "mapBase58 = [
     -1,-1,-1,-1,-1,-1,-1,-1, -1,-1,-1,-1,-1,-1,-1,-1,
     -1,-1,-1,-1,-1,-1,-1,-1, -1,-1,-1,-1,-1,-1,-1,-1,
     -1,-1,-1,-1,-1,-1,-1,-1, -1,-1,-1,-1,-1,-1,-1,-1,
     -1, 0, 1, 2, 3, 4, 5, 6,  7, 8,-1,-1,-1,-1,-1,-1,
     -1, 9,10,11,12,13,14,15, 16,-1,17,18,19,20,21,-1,
     22,23,24,25,26,27,28,29, 30,31,32,-1,-1,-1,-1,-1,
     -1,33,34,35,36,37,38,39, 40,41,42,43,-1,44,45,46,
     47,48,49,50,51,52,53,54, 55,56,57,-1,-1,-1,-1,-1,
     -1,-1,-1,-1,-1,-1,-1,-1, -1,-1,-1,-1,-1,-1,-1,-1,
     -1,-1,-1,-1,-1,-1,-1,-1, -1,-1,-1,-1,-1,-1,-1,-1,
     -1,-1,-1,-1,-1,-1,-1,-1, -1,-1,-1,-1,-1,-1,-1,-1,
     -1,-1,-1,-1,-1,-1,-1,-1, -1,-1,-1,-1,-1,-1,-1,-1,
     -1,-1,-1,-1,-1,-1,-1,-1, -1,-1,-1,-1,-1,-1,-1,-1,
     -1,-1,-1,-1,-1,-1,-1,-1, -1,-1,-1,-1,-1,-1,-1,-1,
     -1,-1,-1,-1,-1,-1,-1,-1, -1,-1,-1,-1,-1,-1,-1,-1,
     -1,-1,-1,-1,-1,-1,-1,-1, -1,-1,-1,-1,-1,-1,-1,-1]"

text \<open>
  The inner loop of both directions, over the buffer in \<^verbatim>\<open>rbegin\<close> to \<^verbatim>\<open>rend\<close> order: it
  multiplies the number in the buffer by \<open>mul\<close>, adds the carry and stops when the carry is
  used up and the \<open>len\<close> digits in use were visited. It returns the buffer, the carry and \<open>i\<close>.
\<close>

fun radix_loop :: "nat \<Rightarrow> nat \<Rightarrow> nat \<Rightarrow> nat \<Rightarrow> nat \<Rightarrow> nat list \<Rightarrow> nat list \<times> nat \<times> nat" where
  "radix_loop mul base carry i len [] = ([], carry, i)"
| "radix_loop mul base carry i len (d # ds) =
     (if carry \<noteq> 0 \<or> i < len then
        (let c = carry + mul * d;
             (ds', carry', i') = radix_loop mul base (c div base) (i + 1) len ds
         in (c mod base # ds', carry', i'))
      else (d # ds, carry, i))"

fun base58Encode_loop :: "nat list \<Rightarrow> nat list \<times> nat \<Rightarrow> nat list \<times> nat" where
  "base58Encode_loop [] st = st"
| "base58Encode_loop (b # bs) (b58, len) =
     (let (b58', carry, i) = radix_loop 256 58 b 0 len b58 in base58Encode_loop bs (b58', i))"

definition base58Encode :: "bytes \<Rightarrow> string" where
  "base58Encode bytes =
     (let zeroes_count = length (takeWhile (\<lambda>b. b = 0) bytes);
          (b58, len) = base58Encode_loop (map unat (drop zeroes_count bytes))
                         (replicate (length bytes * 138 div 100 + 1) 0, 0);
          digits = dropWhile (\<lambda>d. d = 0) (drop (length b58 - len) (rev b58))
      in replicate zeroes_count (CHR ''1'') @ map (\<lambda>d. pszBase58 ! d) digits)"

text \<open>
  The table is indexed with the character as a signed byte, so a character from 128 on reads
  before the table.
\<close>

definition base58_digit :: "char \<Rightarrow> nat res" where
  "base58_digit c =
     (let i = (of_char c :: nat) in
      if 128 \<le> i then Inl OutOfBounds
      else if mapBase58 ! i = -1 then Inl InvalidArgument
      else Inr (nat (mapBase58 ! i)))"

fun base58Decode_loop :: "string \<Rightarrow> nat list \<times> nat \<Rightarrow> (nat list \<times> nat) res" where
  "base58Decode_loop [] st = Inr st"
| "base58Decode_loop (c # cs) (b256, len) =
     rbind (base58_digit c) (\<lambda>carry.
       (let (b256', carry', i) = radix_loop 58 256 carry 0 len b256 in base58Decode_loop cs (b256', i)))"

text \<open>
  The loop over the leading \<^verbatim>\<open>'1'\<close> characters has no bound check: it stops at the terminating
  null character that follows every string the program passes here.
\<close>

definition base58Decode :: "string \<Rightarrow> bytes res" where
  "base58Decode base58 =
     (let zeroes_count = length (takeWhile (\<lambda>c. c = CHR ''1'') base58);
          rest = drop zeroes_count base58
      in rbind (base58Decode_loop rest (replicate (length rest * 733 div 1000 + 1) 0, 0)) (\<lambda>(b256, len).
           Inr (replicate zeroes_count 0 @ map of_nat (drop (length b256 - len) (rev b256)))))"

section \<open>Facts on bytes and their order\<close>

lemma unat_byte_less [simp]: "unat (b :: byte) < 256"
  using unsigned_less [of b, where ?'a = nat] by simp

lemma nat_of_bytes_bound: "nat_of_bytes bs < 256 ^ length bs"
  unfolding nat_of_bytes_def using val_be_bound [of 256 "map unat bs"] by auto

lemma nat_of_bytes_Cons: "nat_of_bytes (b # bs) = unat b * 256 ^ length bs + nat_of_bytes bs"
  by (simp add: nat_of_bytes_def val_be_Cons)

lemma bytes_less_iff_nat_of_bytes:
  "length a = length b \<Longrightarrow> bytes_less a b \<longleftrightarrow> nat_of_bytes a < nat_of_bytes b"
proof (induction a b rule: bytes_less.induct)
  case (3 x xs y ys)
  then have len: "length xs = length ys" and
    IH: "\<not> x < y \<Longrightarrow> \<not> y < x \<Longrightarrow> bytes_less xs ys = (nat_of_bytes xs < nat_of_bytes ys)"
    by auto
  let ?M = "256 ^ length ys :: nat"
  have bx: "nat_of_bytes xs < ?M" and bby: "nat_of_bytes ys < ?M"
    using nat_of_bytes_bound [of xs] nat_of_bytes_bound [of ys] len by auto
  have *: "u * ?M + p < v * ?M + q" if "u < v" "p < ?M" for u v p q :: nat
  proof -
    have "u * ?M + p < (u + 1) * ?M" using that(2) by simp
    also have "\<dots> \<le> v * ?M" using that(1) by (intro mult_le_mono1) simp
    finally show ?thesis by simp
  qed
  consider "unat x < unat y" | "unat y < unat x" | "x = y"
    using unat_eq_nat_uint by (metis linorder_neqE_nat word_unat_eq_iff)
  then show ?case
  proof cases
    case 1
    then show ?thesis using * [OF 1 bx, of "nat_of_bytes ys"] len
      by (simp add: nat_of_bytes_Cons word_less_nat_alt)
  next
    case 2
    then show ?thesis using * [OF 2 bby, of "nat_of_bytes xs"] len
      by (simp add: nat_of_bytes_Cons word_less_nat_alt)
  next
    case 3
    then show ?thesis using IH len by (simp add: nat_of_bytes_Cons)
  qed
qed auto

lemma bytes_le_iff_nat_of_bytes:
  "length a = length b \<Longrightarrow> bytes_le a b \<longleftrightarrow> nat_of_bytes a \<le> nat_of_bytes b"
  by (auto simp: bytes_le_def bytes_less_iff_nat_of_bytes not_less)

text \<open>The comparison operators are those of one linear order.\<close>

lemma bytes_less_linear: "bytes_less a b \<or> a = b \<or> bytes_less b a"
  by (induction a b rule: bytes_less.induct) (auto, metis list.exhaust bytes_less.simps(2))

lemma bytes_less_asym: "bytes_less a b \<Longrightarrow> \<not> bytes_less b a"
  by (induction a b rule: bytes_less.induct) (auto split: if_splits)

lemma bytes_le_ge: "bytes_le a b \<longleftrightarrow> bytes_less a b \<or> a = b" "bytes_ge a b \<longleftrightarrow> bytes_greater a b \<or> a = b"
  using bytes_less_linear bytes_less_asym unfolding bytes_le_def bytes_ge_def bytes_greater_def by metis+

lemma append_array_take: "n \<le> length memory \<Longrightarrow> append_array raw memory n = raw @ take n memory"
  by (induction n) (simp_all add: append_byte_def take_Suc_conv_app_nth)

lemma map_of_nat_unat [simp]: "map (\<lambda>b. of_nat (unat b)) (bs :: bytes) = bs"
  by (simp add: map_idI)

lemma unat_of_char [simp]: "unat (of_char c :: byte) = of_char c"
  by (subst of_nat_of_char [symmetric]) (simp add: unat_of_nat)

lemma bytes_to_string_to_bytes [simp]: "bytes_to_string (string_to_bytes s) = s"
  by (simp add: bytes_to_string_def string_to_bytes_def comp_def)

lemma string_to_bytes_to_string [simp]: "string_to_bytes (bytes_to_string bs) = bs"
proof -
  have "of_char (char_of (unat b)) = b" for b :: byte
    by (rule word_unat_eq_iff [THEN iffD2]) simp
  then show ?thesis by (simp add: bytes_to_string_def string_to_bytes_def comp_def)
qed

lemma length_string_to_bytes [simp]: "length (string_to_bytes s) = length s"
  by (simp add: string_to_bytes_def)

section \<open>Hexadecimal round trip\<close>

lemma hexToInt_HEX_DIGITS: "d < 16 \<Longrightarrow> hexToInt (HEX_DIGITS ! d) = Inr d"
proof -
  have "\<forall>d<16. hexToInt (HEX_DIGITS ! d) = Inr d" by code_simp
  then show "d < 16 \<Longrightarrow> hexToInt (HEX_DIGITS ! d) = Inr d" by blast
qed

lemma nibbles: 
  fixes c :: byte
  shows "unat (drop_bit 4 c) < 16" "unat (c AND 0xF) < 16"
    "unat (drop_bit 4 c) * 16 + unat (c AND 0xF) = unat c"
proof -
  have high: "unat (drop_bit 4 c) = unat c div 16"
    by (subst unat_drop_bit_eq) (simp add: drop_bit_eq_div)
  have "c AND 0xF = take_bit 4 c" by (simp add: take_bit_eq_mask mask_eq_exp_minus_1)
  then have low: "unat (c AND 0xF) = unat c mod 16"
    by (simp only: unsigned_take_bit_eq) (simp add: take_bit_eq_mod)
  show "unat (drop_bit 4 c) < 16" unfolding high by (rule less_mult_imp_div_less) simp
  show "unat (c AND 0xF) < 16" by (simp add: low)
  show "unat (drop_bit 4 c) * 16 + unat (c AND 0xF) = unat c" by (simp add: high low)
qed

lemma length_toHex [simp]: "length (toHex bs) = 2 * length bs"
  by (induction bs) (auto simp: toHex_def)

lemma fromHex_loop_toHex: "fromHex_loop (toHex bs) = Inr bs"
proof (induction bs)
  case (Cons b bs)
  then show ?case using nibbles [of b]
    by (simp add: toHex_def hexToInt_HEX_DIGITS del: of_nat_add of_nat_mult)
qed (simp add: toHex_def)

lemma fromHex_toHex [simp]: "fromHex (toHex bs) = Inr bs"
  by (simp add: fromHex_def fromHex_loop_toHex)

lemma hexToInt_less: "hexToInt c = Inr d \<Longrightarrow> d < 16"
  by (auto simp: hexToInt_def Let_def split: if_splits)

lemma fromHex_loop_length: "fromHex_loop s = Inr bs \<Longrightarrow> length bs = length s div 2"
  by (induction s arbitrary: bs rule: fromHex_loop.induct) (auto simp: rbind_eq_Inr)

section \<open>The radix conversion loop\<close>

definition radix_inv :: "nat \<Rightarrow> nat list \<Rightarrow> nat \<Rightarrow> bool" where
  "radix_inv base buf len \<longleftrightarrow>
     (\<forall>d\<in>set buf. d < base) \<and> (\<forall>d\<in>set (drop len buf). d = 0) \<and> len \<le> length buf \<and>
     (0 < len \<longrightarrow> buf ! (len - 1) \<noteq> 0)"

lemma radix_loop_length: "length (fst (radix_loop mul base carry i len ds)) = length ds"
  by (induction mul base carry i len ds rule: radix_loop.induct) (auto simp: Let_def split: prod.splits)

lemma radix_loop_digits:
  "0 < base \<Longrightarrow> \<forall>d\<in>set ds. d < base \<Longrightarrow> \<forall>d\<in>set (fst (radix_loop mul base carry i len ds)). d < base"
  by (induction mul base carry i len ds rule: radix_loop.induct) (auto simp: Let_def split: prod.splits)

lemma radix_loop_stepE:
  assumes "radix_loop mul base carry i len (d # ds) = (ds', c', i')" and "carry \<noteq> 0 \<or> i < len"
  obtains es where "radix_loop mul base ((carry + mul * d) div base) (i + 1) len ds = (es, c', i')"
    and "ds' = (carry + mul * d) mod base # es"
  using assms by (auto simp: Let_def split: prod.splits)

lemma radix_zeros_step:
  assumes "\<forall>x\<in>set (drop (len - i) (d # ds)). x = 0"
  shows "\<forall>x\<in>set (drop (len - (i + 1)) ds). x = (0 :: nat)"
proof (cases "i < len")
  case True
  then have "len - i = Suc (len - (i + 1))" by simp
  with assms show ?thesis by simp
qed (use assms in auto)

lemma radix_loop_value:
  assumes "radix_loop mul base carry i len ds = (ds', c', i')" and "0 < base"
    and "\<forall>d\<in>set (drop (len - i) ds). d = 0"
  shows "val_le base ds' + base ^ length ds * c' = carry + mul * val_le base ds"
  using assms
proof (induction ds arbitrary: carry i ds')
  case (Cons d ds)
  show ?case
  proof (cases "carry \<noteq> 0 \<or> i < len")
    case True
    let ?c = "carry + mul * d"
    obtain es where rec: "radix_loop mul base (?c div base) (i + 1) len ds = (es, c', i')"
      and ds': "ds' = ?c mod base # es"
      by (rule radix_loop_stepE [OF Cons.prems(1) True])
    have IH: "val_le base es + base ^ length ds * c' = ?c div base + mul * val_le base ds"
      by (rule Cons.IH [OF rec \<open>0 < base\<close> radix_zeros_step [OF Cons.prems(3)]])
    have "val_le base ds' + base ^ length (d # ds) * c'
        = ?c mod base + base * (val_le base es + base ^ length ds * c')"
      by (simp add: ds' algebra_simps)
    also have "\<dots> = ?c + base * (mul * val_le base ds)"
      by (simp only: IH distrib_left) simp
    finally show ?thesis by (simp add: algebra_simps)
  next
    case False
    with Cons.prems(3) have "val_le base (d # ds) = 0" by (intro val_le_zeros) auto
    with False Cons.prems(1) show ?thesis by auto
  qed
qed simp

lemma radix_loop_ge: "radix_loop mul base carry i len ds = (ds', c', i') \<Longrightarrow> i \<le> i'"
proof (induction ds arbitrary: carry i ds')
  case (Cons d ds)
  show ?case
  proof (cases "carry \<noteq> 0 \<or> i < len")
    case True
    with Cons.prems obtain es where
      "radix_loop mul base ((carry + mul * d) div base) (i + 1) len ds = (es, c', i')"
      by (rule radix_loop_stepE)
    from Cons.IH [OF this] show ?thesis by simp
  qed (use Cons.prems in auto)
qed simp

lemma radix_loop_stop: "radix_loop mul base carry i len ds = (ds', c', i) \<Longrightarrow> c' = carry"
proof (cases ds)
  case (Cons d es)
  assume run: "radix_loop mul base carry i len ds = (ds', c', i)"
  show ?thesis
  proof (cases "carry \<noteq> 0 \<or> i < len")
    case True
    from run [unfolded Cons] True obtain fs where
      "radix_loop mul base ((carry + mul * d) div base) (i + 1) len es = (fs, c', i)"
      by (rule radix_loop_stepE)
    from radix_loop_ge [OF this] show ?thesis by simp
  qed (use run Cons in auto)
qed simp

lemma radix_loop_frontier:
  assumes "radix_loop mul base carry i len ds = (ds', 0, i')"
    and "\<forall>d\<in>set (drop (len - i) ds). d = 0" and "len \<le> i + length ds"
  shows "len \<le> i' \<and> i' \<le> i + length ds \<and> (\<forall>d\<in>set (drop (i' - i) ds'). d = 0)
    \<and> (i < i' \<longrightarrow> len < i' \<longrightarrow> ds' ! (i' - i - 1) \<noteq> 0)"
  using assms
proof (induction ds arbitrary: carry i ds')
  case (Cons d ds)
  show ?case
  proof (cases "carry \<noteq> 0 \<or> i < len")
    case True
    let ?c = "carry + mul * d"
    obtain es where rec: "radix_loop mul base (?c div base) (i + 1) len ds = (es, 0, i')"
      and ds': "ds' = ?c mod base # es"
      by (rule radix_loop_stepE [OF Cons.prems(1) True])
    have IH: "len \<le> i' \<and> i' \<le> i + 1 + length ds \<and> (\<forall>d\<in>set (drop (i' - (i + 1)) es). d = 0)
        \<and> (i + 1 < i' \<longrightarrow> len < i' \<longrightarrow> es ! (i' - (i + 1) - 1) \<noteq> 0)"
      by (rule Cons.IH [OF rec radix_zeros_step [OF Cons.prems(2)]]) (use Cons.prems(3) in simp)
    have ge: "i + 1 \<le> i'" by (rule radix_loop_ge [OF rec])
    then have idx: "i' - i = Suc (i' - (i + 1))" by simp
    have top: "ds' ! (i' - i - 1) \<noteq> 0" if "len < i'"
    proof (cases "i + 1 < i'")
      case True
      then have "i' - i - 1 = Suc (i' - (i + 1) - 1)" by simp
      with IH True that show ?thesis by (simp add: ds')
    next
      case False
      with ge have i': "i' = i + 1" by simp
      with that True Cons.prems(2) have d: "d = 0" "carry \<noteq> 0" by auto
      from radix_loop_stop [OF rec [unfolded i']] have "?c div base = 0" by simp
      with d have "?c mod base \<noteq> 0" using div_mult_mod_eq [of ?c base] by (metis add.right_neutral mult_0 mult_0_right)
      then show ?thesis by (simp add: ds' i')
    qed
    show ?thesis using IH idx top ge by (auto simp: ds')
  qed (use Cons.prems in auto)
qed simp

lemma val_le_zeros_from:
  assumes "0 < B" and "\<forall>d\<in>set ds. d < B" and "\<forall>d\<in>set (drop n ds). d = 0"
  shows "val_le B ds < B ^ n"
proof -
  have "val_le B ds = val_le B (take n ds)"
    using val_le_append [of B "take n ds" "drop n ds"] val_le_zeros [OF assms(3)] by simp
  also have "\<dots> < B ^ length (take n ds)"
    using assms(1,2) by (intro val_le_bound) (auto dest: in_set_takeD)
  also have "\<dots> \<le> B ^ n" using assms(1) by (intro power_increasing) auto
  finally show ?thesis .
qed

lemma val_le_nonzero_at:
  assumes "n < length ds" and "ds ! n \<noteq> 0"
  shows "B ^ n \<le> val_le B ds"
proof -
  have "val_le B ds = val_le B (take n ds) + B ^ n * (ds ! n + B * val_le B (drop (Suc n) ds))"
    using val_le_append [of B "take n ds" "drop n ds"] Cons_nth_drop_Suc [OF assms(1)] assms(1)
    by (metis append_take_drop_id length_take min.absorb4 val_le.simps(2))
  moreover have "1 \<le> ds ! n + B * val_le B (drop (Suc n) ds)" using assms(2) by simp
  then have "B ^ n * 1 \<le> B ^ n * (ds ! n + B * val_le B (drop (Suc n) ds))"
    by (rule mult_le_mono2)
  ultimately show ?thesis by linarith
qed

text \<open>One round of an outer loop: the buffer holds \<open>mul\<close> times the old value plus the digit.\<close>

lemma radix_loop_round:
  assumes run: "radix_loop mul base c 0 len buf = (buf', c', len')" and B: "0 < base" "0 < mul"
    and inv: "radix_inv base buf len" and fits: "mul * val_le base buf + c < base ^ length buf"
  shows "val_le base buf' = mul * val_le base buf + c \<and> length buf' = length buf \<and> radix_inv base buf' len'"
proof -
  have zeros: "\<forall>d\<in>set (drop (len - 0) buf). d = 0" using inv by (simp add: radix_inv_def)
  have val: "val_le base buf' + base ^ length buf * c' = c + mul * val_le base buf"
    by (rule radix_loop_value [OF run B(1) zeros])
  with fits have "base ^ length buf * c' < base ^ length buf * 1" by linarith
  then have c': "c' = 0" by (simp only: nat_mult_less_cancel_disj) simp
  have v: "val_le base buf' = mul * val_le base buf + c" using val c' by simp
  have len_eq: "length buf' = length buf" using radix_loop_length [of mul base c 0 len buf] run by simp
  have fr: "len \<le> len' \<and> len' \<le> 0 + length buf \<and> (\<forall>d\<in>set (drop (len' - 0) buf'). d = 0)
      \<and> (0 < len' \<longrightarrow> len < len' \<longrightarrow> buf' ! (len' - 0 - 1) \<noteq> 0)"
    by (rule radix_loop_frontier [OF run [unfolded c'] zeros]) (use inv in \<open>simp add: radix_inv_def\<close>)
  have less: "\<forall>d\<in>set buf'. d < base"
    using radix_loop_digits [OF B(1), of buf mul c 0 len] run inv by (simp add: radix_inv_def)
  have "buf' ! (len' - 1) \<noteq> 0" if l: "0 < len'" "len' = len"
  proof
    assume z: "buf' ! (len' - 1) = 0"
    have "drop (len' - 1) buf' = buf' ! (len' - 1) # drop len' buf'"
      using Cons_nth_drop_Suc [of "len' - 1" buf'] fr l len_eq by force
    with z fr have "\<forall>d\<in>set (drop (len' - 1) buf'). d = 0" by simp
    then have "val_le base buf' < base ^ (len' - 1)" by (rule val_le_zeros_from [OF B(1) less])
    also have "\<dots> \<le> val_le base buf"
      using inv l by (intro val_le_nonzero_at) (auto simp: radix_inv_def)
    also have "\<dots> \<le> mul * val_le base buf + c" using B(2) by (simp add: trans_le_add1)
    finally show False using v by simp
  qed
  then show ?thesis using fr less len_eq v by (auto simp: radix_inv_def)
qed

lemma radix_inv_zeros: "0 < base \<Longrightarrow> radix_inv base (replicate n 0) 0"
  by (simp add: radix_inv_def)

text \<open>The part of the buffer in use, read from its most significant digit.\<close>

lemma radix_inv_digits:
  assumes "radix_inv base buf len" and "2 \<le> base"
  shows "drop (length buf - len) (rev buf) = digits_be base (val_le base buf)"
    and "dropWhile (\<lambda>d. d = 0) (drop (length buf - len) (rev buf)) = digits_be base (val_le base buf)"
proof -
  let ?top = "rev (take len buf)"
  have eq: "drop (length buf - len) (rev buf) = ?top" by (simp add: rev_take)
  have "val_le base buf = val_le base (take len buf)"
    using val_le_append [of base "take len buf" "drop len buf"] assms(1) val_le_zeros
    by (metis add.right_neutral append_take_drop_id mult_0_right radix_inv_def)
  then have val: "val_le base buf = val_be base ?top" by (simp add: val_be_def)
  have "?top = [] \<or> hd ?top \<noteq> 0"
  proof (cases "len = 0")
    case False
    with assms(1) have "take len buf \<noteq> []" and "length (take len buf) = len" by (auto simp: radix_inv_def)
    with assms(1) False show ?thesis by (simp add: radix_inv_def hd_rev last_conv_nth)
  qed simp
  moreover have "\<forall>d\<in>set ?top. d < base" using assms(1) by (auto simp: radix_inv_def dest: in_set_takeD)
  ultimately have digits: "digits_be base (val_be base ?top) = ?top"
    by (intro digits_be_unique [OF assms(2)])
  then show "drop (length buf - len) (rev buf) = digits_be base (val_le base buf)"
    by (simp add: eq val)
  then show "dropWhile (\<lambda>d. d = 0) (drop (length buf - len) (rev buf)) = digits_be base (val_le base buf)"
    using hd_digits_be [of base "val_le base buf"] by (cases "digits_be base (val_le base buf)") auto
qed

section \<open>Base58 computes the base-58 digits of the big-endian value\<close>

lemma base58Encode_loop_value:
  assumes "base58Encode_loop bs (buf, len) = (buf', len')" and "radix_inv 58 buf len"
    and "\<forall>b\<in>set bs. b < 256"
    and "(val_le 58 buf + 1) * 256 ^ length bs \<le> 58 ^ length buf"
  shows "val_le 58 buf' = val_le 58 buf * 256 ^ length bs + val_be 256 bs \<and>
    length buf' = length buf \<and> radix_inv 58 buf' len'"
  using assms
proof (induction bs arbitrary: buf len)
  case (Cons b bs)
  obtain buf1 c1 len1 where r: "radix_loop 256 58 b 0 len buf = (buf1, c1, len1)" by (metis prod_cases3)
  have run: "base58Encode_loop bs (buf1, len1) = (buf', len')" using Cons.prems(1) r by simp
  have b: "256 * val_le 58 buf + b < (val_le 58 buf + 1) * 256" using Cons.prems(3) by simp
  have step: "(val_le 58 buf + 1) * 256 * 256 ^ length bs \<le> 58 ^ length buf"
    using Cons.prems(4) by (simp only: mult.assoc list.size power_Suc add_0_right power_add) (simp add: algebra_simps)
  have "(val_le 58 buf + 1) * 256 * 1 \<le> (val_le 58 buf + 1) * 256 * 256 ^ length bs"
    by (intro mult_le_mono2) simp
  with step b have "256 * val_le 58 buf + b < 58 ^ length buf" by linarith
  then have r1: "val_le 58 buf1 = 256 * val_le 58 buf + b \<and> length buf1 = length buf \<and> radix_inv 58 buf1 len1"
    by (intro radix_loop_round [OF r]) (use Cons.prems(2) in auto)
  have "(val_le 58 buf1 + 1) * 256 ^ length bs \<le> (val_le 58 buf + 1) * 256 * 256 ^ length bs"
    using r1 b by (intro mult_le_mono1) simp
  also have "\<dots> \<le> 58 ^ length buf1" using step r1 by simp
  finally have "val_le 58 buf' = val_le 58 buf1 * 256 ^ length bs + val_be 256 bs \<and>
    length buf' = length buf1 \<and> radix_inv 58 buf' len'"
    by (intro Cons.IH [OF run]) (use r1 Cons.prems(3) in auto)
  with r1 show ?case by (simp add: val_be_Cons algebra_simps)
qed simp

text \<open>The buffer sizes \<open>n * 138 / 100 + 1\<close> and \<open>n * 733 / 1000 + 1\<close> are large enough.\<close>

lemma radix_capacity:
  fixes p q p' q' a b :: nat
  assumes "b ^ q' \<le> a ^ p'" and "p' * q \<le> p * q'" and "0 < a" and "0 < q" and "0 < q'"
  shows "b ^ n \<le> a ^ (n * p div q + 1)"
proof -
  have "n * p' * q \<le> n * p * q'" using assms(2) by (metis mult.assoc mult_le_mono2)
  also have "\<dots> \<le> (n * p div q + 1) * q * q'"
    using assms(4) by (intro mult_le_mono1) (simp add: dividend_less_div_times less_imp_le)
  also have "\<dots> = (n * p div q + 1) * q' * q" by (simp only: mult.assoc mult.commute [of q])
  finally have e: "n * p' \<le> (n * p div q + 1) * q'" using assms(4) by simp
  have "(b ^ n) ^ q' = (b ^ q') ^ n" by (simp add: mult.commute flip: power_mult)
  also have "\<dots> \<le> (a ^ p') ^ n" using assms(1) by (rule power_mono) simp
  also have "\<dots> = a ^ (n * p')" by (simp add: mult.commute flip: power_mult)
  also have "\<dots> \<le> a ^ ((n * p div q + 1) * q')" using assms(3) e by (intro power_increasing) auto
  also have "\<dots> = (a ^ (n * p div q + 1)) ^ q'" by (simp only: power_mult)
  finally show ?thesis using assms(5) by (simp add: power_mono_iff)
qed

lemma base58Encode_digits:
  "base58Encode bs = replicate (length (takeWhile (\<lambda>b. b = 0) bs)) (CHR ''1'') @
     map (\<lambda>d. pszBase58 ! d) (digits_be 58 (nat_of_bytes bs))"
proof -
  let ?z = "length (takeWhile (\<lambda>b. b = 0) bs)"
  let ?ds = "map unat (drop ?z bs)" and ?n = "length bs * 138 div 100 + 1"
  obtain buf len where run: "base58Encode_loop ?ds (replicate ?n 0, 0) = (buf, len)" by (metis surj_pair)
  have "256 ^ length ?ds \<le> (256 :: nat) ^ length bs" by (intro power_increasing) auto
  also have "\<dots> \<le> 58 ^ ?n" by (rule radix_capacity [of 256 100 58 138]) simp_all
  finally have cap: "(val_le 58 (replicate ?n 0) + 1) * 256 ^ length ?ds \<le> 58 ^ length (replicate ?n (0::nat))"
    by (simp add: val_le_zeros)
  have "val_le 58 buf = val_le 58 (replicate ?n 0) * 256 ^ length ?ds + val_be 256 ?ds \<and>
      length buf = length (replicate ?n (0::nat)) \<and> radix_inv 58 buf len"
    by (rule base58Encode_loop_value [OF run radix_inv_zeros _ cap]) auto
  then have val: "val_le 58 buf = val_be 256 ?ds" and inv: "radix_inv 58 buf len"
    by (auto simp: val_le_zeros)
  have "map unat bs = replicate ?z 0 @ ?ds"
  proof -
    have "bs = replicate ?z 0 @ drop ?z bs"
      by (subst takeWhile_eq_replicate [symmetric], subst dropWhile_eq_drop [symmetric])
        (rule takeWhile_dropWhile_id [symmetric])
    then have "map unat bs = map unat (replicate ?z 0 @ drop ?z bs)" by simp
    then show ?thesis by (simp add: map_replicate_const)
  qed
  then have "nat_of_bytes bs = val_be 256 ?ds"
    by (simp add: nat_of_bytes_def val_be_append) (simp add: val_be_def val_le_zeros)
  then show ?thesis
    using radix_inv_digits(2) [OF inv] by (simp only: base58Encode_def run Let_def prod.case val)
qed

lemma base58Decode_loop_value:
  assumes "\<forall>c\<in>set cs. \<exists>d<58. base58_digit c = Inr d" and "radix_inv 256 buf len"
    and "(val_le 256 buf + 1) * 58 ^ length cs \<le> 256 ^ length buf"
  shows "\<exists>buf' len'. base58Decode_loop cs (buf, len) = Inr (buf', len') \<and>
    val_le 256 buf' = val_le 256 buf * 58 ^ length cs + val_be 58 (map (\<lambda>c. projr (base58_digit c)) cs) \<and>
    length buf' = length buf \<and> radix_inv 256 buf' len'"
  using assms
proof (induction cs arbitrary: buf len)
  case (Cons c cs)
  obtain d where d: "base58_digit c = Inr d" "d < 58" using Cons.prems(1) by auto
  obtain buf1 c1 len1 where r: "radix_loop 58 256 d 0 len buf = (buf1, c1, len1)" by (metis prod_cases3)
  have b: "58 * val_le 256 buf + d < (val_le 256 buf + 1) * 58" using d(2) by simp
  have step: "(val_le 256 buf + 1) * 58 * 58 ^ length cs \<le> 256 ^ length buf"
    using Cons.prems(3) by (simp only: mult.assoc list.size power_Suc add_0_right power_add) (simp add: algebra_simps)
  have "(val_le 256 buf + 1) * 58 * 1 \<le> (val_le 256 buf + 1) * 58 * 58 ^ length cs"
    by (intro mult_le_mono2) simp
  with step b have "58 * val_le 256 buf + d < 256 ^ length buf" by linarith
  then have r1: "val_le 256 buf1 = 58 * val_le 256 buf + d \<and> length buf1 = length buf \<and> radix_inv 256 buf1 len1"
    by (intro radix_loop_round [OF r]) (use Cons.prems(2) in auto)
  have "(val_le 256 buf1 + 1) * 58 ^ length cs \<le> (val_le 256 buf + 1) * 58 * 58 ^ length cs"
    using r1 b by (intro mult_le_mono1) simp
  also have "\<dots> \<le> 256 ^ length buf1" using step r1 by simp
  finally have "\<exists>buf' len'. base58Decode_loop cs (buf1, len1) = Inr (buf', len') \<and>
    val_le 256 buf' = val_le 256 buf1 * 58 ^ length cs + val_be 58 (map (\<lambda>c. projr (base58_digit c)) cs) \<and>
    length buf' = length buf1 \<and> radix_inv 256 buf' len'"
    by (intro Cons.IH) (use r1 Cons.prems(1) in auto)
  then show ?case using r1 by (auto simp: d r val_be_Cons algebra_simps)
qed simp

lemma base58_tables:
  shows map_base58_digit_psz: "map base58_digit pszBase58 = map Inr [0..<58]"
    and mapBase58_inverse: "list_all (\<lambda>(i, v). v = -1 \<or> (0 \<le> v \<and> nat v < 58 \<and> of_char (pszBase58 ! nat v) = i))
      (zip [0..<256] mapBase58)"
    and length_base58_tables: "length pszBase58 = 58" "length mapBase58 = 256"
  by (simp_all add: base58_digit_def mapBase58_def pszBase58_def upt_conv_Cons)

lemma base58_digit_psz: "d < 58 \<Longrightarrow> base58_digit (pszBase58 ! d) = Inr d"
  using map_base58_digit_psz length_base58_tables(1) by (metis diff_zero length_map length_upt nth_map nth_upt add_0)

lemma psz_base58_digit: "base58_digit c = Inr d \<Longrightarrow> d < 58 \<and> pszBase58 ! d = c"
proof -
  assume c: "base58_digit c = Inr d"
  let ?i = "of_char c :: nat"
  have i: "?i < 128" "mapBase58 ! ?i \<noteq> -1" "d = nat (mapBase58 ! ?i)"
    using c by (auto simp: base58_digit_def Let_def split: if_splits)
  have "zip [0..<256] mapBase58 ! ?i = (?i, mapBase58 ! ?i)"
    using i by (simp add: length_base58_tables)
  moreover have "?i < length (zip [0..<256] mapBase58)" using i by (simp add: length_base58_tables)
  ultimately have "case (?i, mapBase58 ! ?i) of (i, v) \<Rightarrow>
      v = -1 \<or> (0 \<le> v \<and> nat v < 58 \<and> of_char (pszBase58 ! nat v) = i)"
    using mapBase58_inverse [unfolded list_all_length, rule_format, of ?i] by simp
  then show ?thesis using i by auto
qed

lemma base58Decode_digits:
  assumes "\<forall>c\<in>set s. \<exists>d. base58_digit c = Inr d"
  shows "base58Decode s = Inr (replicate (length (takeWhile (\<lambda>c. c = CHR ''1'') s)) 0 @
     map of_nat (digits_be 256 (val_be 58 (map (\<lambda>c. projr (base58_digit c)) s))))"
proof -
  let ?z = "length (takeWhile (\<lambda>c. c = CHR ''1'') s)" and ?dig = "\<lambda>c. projr (base58_digit c)"
  let ?rest = "drop ?z s" and ?n = "length (drop (length (takeWhile (\<lambda>c. c = CHR ''1'') s)) s) * 733 div 1000 + 1"
  have "58 ^ length ?rest \<le> (256 :: nat) ^ ?n"
    by (rule radix_capacity [of 58 71 256 52]) simp_all
  then have cap: "(val_le 256 (replicate ?n 0) + 1) * 58 ^ length ?rest \<le> 256 ^ length (replicate ?n (0::nat))"
    by (simp add: val_le_zeros)
  have valid: "\<forall>c\<in>set ?rest. \<exists>d<58. base58_digit c = Inr d"
    using assms by (meson in_set_dropD psz_base58_digit)
  obtain buf len where run: "base58Decode_loop ?rest (replicate ?n 0, 0) = Inr (buf, len)"
    and "val_le 256 buf = val_le 256 (replicate ?n 0) * 58 ^ length ?rest + val_be 58 (map ?dig ?rest)"
    and inv: "radix_inv 256 buf len"
    using base58Decode_loop_value [OF valid radix_inv_zeros cap] by auto
  then have val: "val_le 256 buf = val_be 58 (map ?dig ?rest)" by (simp add: val_le_zeros)
  have "s = replicate ?z (CHR ''1'') @ ?rest"
    by (subst takeWhile_eq_replicate [symmetric], subst dropWhile_eq_drop [symmetric])
      (rule takeWhile_dropWhile_id [symmetric])
  then have "map ?dig s = map ?dig (replicate ?z (CHR ''1'') @ ?rest)" by simp
  then have "map ?dig s = replicate ?z 0 @ map ?dig ?rest"
    using base58_digit_psz [of 0] by (simp add: map_replicate_const pszBase58_def)
  then have "val_be 58 (map ?dig s) = val_be 58 (map ?dig ?rest)"
    by (simp add: val_be_append) (simp add: val_be_def val_le_zeros)
  then show ?thesis
    using radix_inv_digits(1) [OF inv]
    by (simp only: base58Decode_def run Let_def prod.case val rbind_Inr)
qed

lemma base58Decode_Encode [simp]: "base58Decode (base58Encode bs) = Inr bs"
proof -
  let ?z = "length (takeWhile (\<lambda>b. b = 0) bs)" and ?ds = "digits_be 58 (nat_of_bytes bs)"
  let ?s = "replicate ?z (CHR ''1'') @ map (\<lambda>d. pszBase58 ! d) ?ds"
  have one: "pszBase58 ! 0 = CHR ''1''" by (simp add: pszBase58_def)
  have dig: "base58_digit (pszBase58 ! d) = Inr d" if "d \<in> set ?ds" for d
    using digits_be_less [OF that] by (rule base58_digit_psz)
  have "\<forall>c\<in>set ?s. \<exists>d. base58_digit c = Inr d"
    using dig base58_digit_psz [of 0] one by auto
  note dec = base58Decode_digits [OF this]
  have "takeWhile (\<lambda>c. c = CHR ''1'') (map (\<lambda>d. pszBase58 ! d) ?ds) = []"
  proof (cases ?ds)
    case (Cons d ds)
    then have "d \<noteq> 0" using hd_digits_be [of 58 "nat_of_bytes bs"] by simp
    moreover have "base58_digit (pszBase58 ! d) = Inr d" using dig Cons by simp
    ultimately have "pszBase58 ! d \<noteq> CHR ''1''" using base58_digit_psz [of 0] one by auto
    then show ?thesis by (simp add: Cons)
  qed simp
  then have z: "takeWhile (\<lambda>c. c = CHR ''1'') ?s = replicate ?z (CHR ''1'')"
    by (subst takeWhile_append2) auto
  have "map (\<lambda>c. projr (base58_digit c)) ?s = replicate ?z 0 @ ?ds"
    using dig base58_digit_psz [of 0] one by (simp add: map_replicate_const map_idI)
  then have v: "val_be 58 (map (\<lambda>c. projr (base58_digit c)) ?s) = nat_of_bytes bs"
    by (simp only: val_be_append val_be_digits_be) (simp add: val_be_def val_le_zeros val_be_digits_be [unfolded val_be_def])
  have "digits_be 256 (nat_of_bytes bs) = map unat (dropWhile (\<lambda>b. b = 0) bs)"
    unfolding nat_of_bytes_def
    by (subst digits_be_val_be) (auto simp: dropWhile_map comp_def unsigned_eq_0_iff)
  then have "replicate ?z 0 @ map of_nat (digits_be 256 (nat_of_bytes bs)) = bs"
    by (simp add: comp_def takeWhile_eq_replicate [symmetric])
  then show ?thesis by (simp only: base58Encode_digits dec z v length_replicate)
qed

lemma base58Decode_loop_valid:
  "base58Decode_loop cs st = Inr st' \<Longrightarrow> \<forall>c\<in>set cs. \<exists>d. base58_digit c = Inr d"
proof (induction cs st rule: base58Decode_loop.induct)
  case (2 c cs buf len)
  then show ?case by (cases "base58_digit c") (auto simp: Let_def split: prod.splits)
qed simp

lemma base58Decode_valid:
  assumes "base58Decode s = Inr bs"
  shows "\<forall>c\<in>set s. \<exists>d. base58_digit c = Inr d"
proof
  fix c assume c: "c \<in> set s"
  let ?z = "length (takeWhile (\<lambda>c. c = CHR ''1'') s)"
  have rest: "\<forall>c\<in>set (drop ?z s). \<exists>d. base58_digit c = Inr d"
    using assms by (auto simp: base58Decode_def Let_def rbind_eq_Inr dest: base58Decode_loop_valid)
  show "\<exists>d. base58_digit c = Inr d"
  proof (cases "c = CHR ''1''")
    case True
    then show ?thesis using base58_digit_psz [of 0] by (simp add: pszBase58_def)
  next
    case False
    have "set s = set (takeWhile (\<lambda>c. c = CHR ''1'') s) \<union> set (dropWhile (\<lambda>c. c = CHR ''1'') s)"
      by (metis set_append takeWhile_dropWhile_id)
    with c False have "c \<in> set (dropWhile (\<lambda>c. c = CHR ''1'') s)" by (auto dest: set_takeWhileD)
    then show ?thesis using rest by (simp add: dropWhile_eq_drop)
  qed
qed

lemma base58Encode_Decode:
  assumes "base58Decode s = Inr bs"
  shows "base58Encode bs = s"
proof -
  let ?z = "length (takeWhile (\<lambda>c. c = CHR ''1'') s)" and ?digs = "map (\<lambda>c. projr (base58_digit c)) s"
  let ?v = "val_be 58 ?digs"
  note valid = base58Decode_valid [OF assms]
  have bs: "bs = replicate ?z 0 @ map of_nat (digits_be 256 ?v)"
    using base58Decode_digits [OF valid] assms by simp
  have unat_digits: "map unat (map of_nat (digits_be 256 ?v) :: bytes) = digits_be 256 ?v"
    using digits_be_less [of _ 256 ?v] by (auto simp: comp_def unat_of_nat intro!: map_idI)
  have nat: "nat_of_bytes bs = ?v"
    unfolding nat_of_bytes_def bs map_append unat_digits val_be_append
    by (simp add: val_be_digits_be) (simp add: val_be_def val_le_zeros)
  have psz: "pszBase58 ! projr (base58_digit c) = c \<and> projr (base58_digit c) < 58" if "c \<in> set s" for c
    using valid psz_base58_digit that by fastforce
  have zero: "projr (base58_digit c) = 0 \<longleftrightarrow> c = CHR ''1''" if "c \<in> set s" for c
    using psz [OF that] base58_digit_psz [of 0] by (auto simp: pszBase58_def)
  have "digits_be 58 ?v = dropWhile (\<lambda>d. d = 0) ?digs"
    using psz by (intro digits_be_val_be) auto
  also have "\<dots> = map (\<lambda>c. projr (base58_digit c)) (dropWhile (\<lambda>c. c = CHR ''1'') s)"
    using zero by (simp add: dropWhile_map comp_def cong: dropWhile_cong)
  finally have "map (\<lambda>d. pszBase58 ! d) (digits_be 58 ?v) = dropWhile (\<lambda>c. c = CHR ''1'') s"
    using psz by (auto intro!: map_idI dest: set_dropWhileD)
  moreover have "takeWhile (\<lambda>b. b = 0) bs = replicate ?z 0"
  proof -
    have "takeWhile (\<lambda>b. b = 0) (map of_nat (digits_be 256 ?v) :: bytes) = []"
    proof (cases "digits_be 256 ?v")
      case (Cons d ds)
      then have "d \<noteq> 0" "d < 256" using hd_digits_be [of 256 ?v] digits_be_less [of d 256 ?v] by auto
      then have "(of_nat d :: byte) \<noteq> 0" by (simp add: word_unat_eq_iff unat_of_nat)
      then show ?thesis by (simp add: Cons)
    qed simp
    then show ?thesis unfolding bs by (subst takeWhile_append2) auto
  qed
  ultimately show ?thesis
    by (simp add: base58Encode_digits nat takeWhile_eq_replicate [symmetric])
qed

section \<open>Properties\<close>

text \<open>
  C28: base58 decoding and encoding are inverse to each other: a string decodes to a byte string
  exactly if it is the encoding of that byte string. In particular every byte string, with any
  number of leading zero bytes, survives the round trip, and no two strings decode alike.
\<close>

theorem base58_decode_iff: "base58Decode s = Inr bs \<longleftrightarrow> s = base58Encode bs"
  using base58Encode_Decode by auto

text \<open>
  Hexadecimal printing has two digits per byte and reading gives the bytes back.
\<close>

theorem hex_roundtrip: "fromHex (toHex bs) = Inr bs \<and> length (toHex bs) = 2 * length bs"
  by simp

end
