(* ===== verification/Serialization.thy ===== *)
theory Serialization
  imports Bytes
begin

text \<open>
  The archives of \<^verbatim>\<open>src/base/serialization.{hpp,cpp,tpp}\<close>. An output archive is the byte string
  written so far; an input archive is a byte string with a read index. The interface between
  a type and the archives is the locale \<open>codec\<close>: writing appends, and reading what was written
  gives the value back and leaves the index behind it. Every serializable type of the program
  is shown to be a codec; the vector and pair formats inherit the law from their elements.
\<close>

section \<open>Archives\<close>

record iarchive =
  ia_bytes :: bytes
  ia_index :: nat

type_synonym oarchive = bytes
type_synonym 'a serializer = "'a \<Rightarrow> oarchive \<Rightarrow> oarchive"
type_synonym 'a deserializer = "iarchive \<Rightarrow> ('a \<times> iarchive) res"

definition toBytes :: "'a serializer \<Rightarrow> 'a \<Rightarrow> bytes" where
  "toBytes ser value = ser value []"

definition fromBytes :: "'a deserializer \<Rightarrow> bytes \<Rightarrow> 'a res" where
  "fromBytes deser bs = rbind (deser \<lparr>ia_bytes = bs, ia_index = 0\<rparr>) (\<lambda>(t, ia). Inr t)"

section \<open>Integers\<close>

text \<open>
  The bytes of an unsigned integer in the memory of a host, least significant first on a
  little-endian one, and Boost's conversion between the big-endian and the native order.
\<close>

fun le_bytes :: "nat \<Rightarrow> nat \<Rightarrow> bytes" where
  "le_bytes 0 v = []"
| "le_bytes (Suc n) v = of_nat (v mod 256) # le_bytes n (v div 256)"

definition nat_of_le :: "bytes \<Rightarrow> nat" where
  "nat_of_le bs = val_le 256 (map unat bs)"

definition to_memory :: "bool \<Rightarrow> nat \<Rightarrow> nat \<Rightarrow> bytes" where
  "to_memory little n v = (if little then le_bytes n v else rev (le_bytes n v))"

definition from_memory :: "bool \<Rightarrow> bytes \<Rightarrow> nat" where
  "from_memory little bs = nat_of_le (if little then bs else rev bs)"

definition bigToNative :: "bool \<Rightarrow> nat \<Rightarrow> nat \<Rightarrow> nat" where
  "bigToNative little n v = (if little then nat_of_le (rev (le_bytes n v)) else v)"

definition nativeToBig :: "bool \<Rightarrow> nat \<Rightarrow> nat \<Rightarrow> nat" where
  "nativeToBig little n v = (if little then nat_of_le (rev (le_bytes n v)) else v)"

definition serialize_int_on :: "bool \<Rightarrow> nat \<Rightarrow> nat serializer" where
  "serialize_int_on little n v oa =
     (if n \<noteq> 1 then oa @ to_memory little n (bigToNative little n v) else oa @ [of_nat v])"

definition deserialize_int_on :: "bool \<Rightarrow> nat \<Rightarrow> nat deserializer" where
  "deserialize_int_on little n ia =
     (let idx = (if ia_index ia + n > length (ia_bytes ia) then ia_index ia + 120 else ia_index ia)
      in assert_that (idx + n \<le> length (ia_bytes ia))
          (let v = from_memory little (take n (drop idx (ia_bytes ia)));
               v' = (if n \<noteq> 1 then nativeToBig little n v else v)
           in Inr (v', ia\<lparr>ia_index := idx + n\<rparr>)))"

text \<open>The node runs on little-endian hosts; \<open>serialize_int_on_big_endian\<close> shows that this is immaterial.\<close>

definition serialize_int :: "nat \<Rightarrow> nat serializer" where
  "serialize_int = serialize_int_on True"

definition deserialize_int :: "nat \<Rightarrow> nat deserializer" where
  "deserialize_int = deserialize_int_on True"

definition serialize_byte :: "byte serializer" where
  "serialize_byte v = serialize_int 1 (unat v)"

definition serialize_u16 :: "16 word serializer" where
  "serialize_u16 v = serialize_int 2 (unat v)"

definition serialize_u32 :: "32 word serializer" where
  "serialize_u32 v = serialize_int 4 (unat v)"

definition serialize_u64 :: "64 word serializer" where
  "serialize_u64 v = serialize_int 8 (unat v)"

definition deserialize_word :: "nat \<Rightarrow> 'w::len word deserializer" where
  "deserialize_word n ia = rbind (deserialize_int n ia) (\<lambda>(v, ia). Inr (of_nat v, ia))"

definition deserialize_byte :: "byte deserializer" where
  "deserialize_byte = deserialize_word 1"

definition deserialize_u16 :: "16 word deserializer" where
  "deserialize_u16 = deserialize_word 2"

definition deserialize_u32 :: "32 word deserializer" where
  "deserialize_u32 = deserialize_word 4"

definition deserialize_u64 :: "64 word deserializer" where
  "deserialize_u64 = deserialize_word 8"

definition serialize_bool :: "bool serializer" where
  "serialize_bool b = serialize_byte (if b then 1 else 0)"

definition deserialize_bool :: "bool deserializer" where
  "deserialize_bool ia = rbind (deserialize_byte ia) (\<lambda>(v, ia). Inr (v \<noteq> 0, ia))"

section \<open>Containers\<close>

fun deserialize_n :: "'a deserializer \<Rightarrow> nat \<Rightarrow> 'a list deserializer" where
  "deserialize_n deser 0 ia = Inr ([], ia)"
| "deserialize_n deser (Suc n) ia =
     rbind (deser ia) (\<lambda>(x, ia). rbind (deserialize_n deser n ia) (\<lambda>(xs, ia). Inr (x # xs, ia)))"

definition serialize_vector :: "'a serializer \<Rightarrow> 'a list serializer" where
  "serialize_vector ser v oa = fold ser v (serialize_u64 (of_nat (length v)) oa)"

definition deserialize_vector :: "'a deserializer \<Rightarrow> 'a list deserializer" where
  "deserialize_vector deser ia =
     rbind (deserialize_u64 ia) (\<lambda>(size, ia). deserialize_n deser (unat size) ia)"

definition serialize_fixed :: "bytes serializer" where
  "serialize_fixed fb oa = fold serialize_byte fb oa"

definition deserialize_fixed :: "nat \<Rightarrow> bytes deserializer" where
  "deserialize_fixed S ia = deserialize_n deserialize_byte S ia"

text \<open>\<^verbatim>\<open>base::Bytes bytes(size)\<close> throws when the size is above what a vector can hold.\<close>

definition serialize_bytes :: "bytes serializer" where
  "serialize_bytes bs oa = fold serialize_byte bs (serialize_u64 (of_nat (length bs)) oa)"

definition deserialize_bytes :: "bytes deserializer" where
  "deserialize_bytes ia =
     rbind (deserialize_u64 ia) (\<lambda>(size, ia).
       if unat size > 2 ^ 63 - 1 then Inl StdLengthError
       else deserialize_n deserialize_byte (unat size) ia)"

definition serialize_string :: "string serializer" where
  "serialize_string str = serialize_bytes (string_to_bytes str)"

definition deserialize_string :: "string deserializer" where
  "deserialize_string ia = rbind (deserialize_bytes ia) (\<lambda>(bs, ia). Inr (bytes_to_string bs, ia))"

definition serialize_pair :: "'a serializer \<Rightarrow> 'b serializer \<Rightarrow> ('a \<times> 'b) serializer" where
  "serialize_pair ser1 ser2 p oa = ser2 (snd p) (ser1 (fst p) oa)"

definition deserialize_pair :: "'a deserializer \<Rightarrow> 'b deserializer \<Rightarrow> ('a \<times> 'b) deserializer" where
  "deserialize_pair deser1 deser2 ia =
     rbind (deser1 ia) (\<lambda>(u, ia). rbind (deser2 ia) (\<lambda>(v, ia). Inr ((u, v), ia)))"

definition serialize_optional :: "'a serializer \<Rightarrow> 'a option serializer" where
  "serialize_optional ser v oa =
     (case v of Some x \<Rightarrow> ser x (serialize_bool True oa) | None \<Rightarrow> serialize_bool False oa)"

definition deserialize_optional :: "'a deserializer \<Rightarrow> 'a option deserializer" where
  "deserialize_optional deser ia =
     rbind (deserialize_bool ia) (\<lambda>(do_we_have_a_value, ia).
       if do_we_have_a_value then rbind (deser ia) (\<lambda>(t, ia). Inr (Some t, ia)) else Inr (None, ia))"

section \<open>The interface of a serializable type\<close>

text \<open>An input archive whose first part was read and whose second part was not.\<close>

definition arch :: "bytes \<Rightarrow> bytes \<Rightarrow> iarchive" where
  "arch pre post = \<lparr>ia_bytes = pre @ post, ia_index = length pre\<rparr>"

locale codec =
  fixes wf :: "'a \<Rightarrow> bool"
    and ser :: "'a serializer"
    and deser :: "'a deserializer"
  assumes ser_append: "ser x oa = oa @ ser x []"
    and deser_ser: "wf x \<Longrightarrow> deser (arch pre (ser x [] @ post)) = Inr (x, arch (pre @ ser x []) post)"
begin

lemma ser_out: "NO_MATCH [] oa \<Longrightarrow> ser x oa = oa @ ser x []"
  by (rule ser_append)

lemma deser_ser_end: "wf x \<Longrightarrow> deser (arch pre (ser x [])) = Inr (x, arch (pre @ ser x []) [])"
  using deser_ser [of x pre "[]"] by simp

lemma roundtrip: "wf x \<Longrightarrow> fromBytes deser (toBytes ser x) = Inr x"
  using deser_ser_end [of x "[]"] by (simp add: fromBytes_def toBytes_def arch_def)

lemma prefix_free:
  assumes "wf x" and "wf y" and eq: "ser x [] @ p = ser y [] @ q"
  shows "x = y \<and> p = q"
proof -
  have "deser (arch [] (ser x [] @ p)) = Inr (x, arch (ser x []) p)"
    using deser_ser [OF assms(1), of "[]" p] by simp
  moreover have "deser (arch [] (ser x [] @ p)) = Inr (y, arch (ser y []) q)"
    using deser_ser [OF assms(2), of "[]" q] eq by simp
  ultimately have "x = y" by simp
  with eq show ?thesis by simp
qed

lemma toBytes_inject: "wf x \<Longrightarrow> wf y \<Longrightarrow> toBytes ser x = toBytes ser y \<longleftrightarrow> x = y"
  using prefix_free [of x y "[]" "[]"] by (auto simp: toBytes_def)

lemma fold_ser: "fold ser xs oa = oa @ concat (map (\<lambda>x. ser x []) xs)"
proof (induction xs arbitrary: oa)
  case (Cons x xs)
  then show ?case using ser_append [of x oa] by (simp add: Cons.IH [of "ser x oa"])
qed simp

lemma deserialize_n_concat:
  "list_all wf xs \<Longrightarrow> deserialize_n deser (length xs) (arch pre (concat (map (\<lambda>x. ser x []) xs) @ post)) =
     Inr (xs, arch (pre @ concat (map (\<lambda>x. ser x []) xs)) post)"
  by (induction xs arbitrary: pre) (simp_all add: deser_ser)

end

section \<open>The wire format of integers\<close>

lemma length_le_bytes [simp]: "length (le_bytes n v) = n"
  by (induction n v rule: le_bytes.induct) auto

lemma nat_of_le_le_bytes: "nat_of_le (le_bytes n v) = v mod 256 ^ n"
  by (induction n v rule: le_bytes.induct)
    (auto simp: nat_of_le_def unat_of_nat mod_mult2_eq)

lemma le_bytes_nat_of_le: "le_bytes (length bs) (nat_of_le bs) = bs"
proof (induction bs)
  case (Cons b bs)
  have "(unat b + 256 * m) mod 256 = unat b" "(unat b + 256 * m) div 256 = m" for m
    by simp_all
  with Cons show ?case by (simp add: nat_of_le_def)
qed (simp add: nat_of_le_def)

text \<open>Whatever the host's byte order, the bytes written are the big-endian ones.\<close>

lemma serialize_int_on_big_endian:
  assumes "v < 256 ^ n"
  shows "serialize_int_on little n v oa = oa @ rev (le_bytes n v)"
proof (cases "n = 1")
  case True
  with assms show ?thesis by (simp add: serialize_int_on_def)
next
  case False
  then show ?thesis
    using le_bytes_nat_of_le [of "rev (le_bytes n v)"]
    by (simp add: serialize_int_on_def to_memory_def bigToNative_def)
qed

lemma nat_of_bytes_rev_le_bytes: "v < 256 ^ n \<Longrightarrow> nat_of_bytes (rev (le_bytes n v)) = v"
  using nat_of_le_le_bytes [of n v]
  by (simp add: nat_of_bytes_def nat_of_le_def val_be_def rev_map [symmetric])

lemma deserialize_int_on_big_endian:
  assumes "length bs = n"
  shows "deserialize_int_on little n (arch pre (bs @ post)) = Inr (nat_of_bytes bs, arch (pre @ bs) post)"
proof -
  have be: "nat_of_le (rev bs) = nat_of_bytes bs"
    by (simp add: nat_of_bytes_def nat_of_le_def val_be_def rev_map)
  have "rev (le_bytes n (nat_of_le bs)) = rev bs" using le_bytes_nat_of_le [of bs] assms by simp
  moreover have "n = Suc 0 \<Longrightarrow> nat_of_le bs = nat_of_bytes bs"
    using assms by (cases bs) (auto simp: nat_of_bytes_def nat_of_le_def val_be_def)
  ultimately show ?thesis using assms be
    by (simp add: deserialize_int_on_def arch_def from_memory_def nativeToBig_def Let_def)
qed

lemma serialize_int_append: "serialize_int n v oa = oa @ serialize_int n v []"
  by (simp add: serialize_int_def serialize_int_on_def)

lemma deserialize_serialize_int:
  assumes "v < 256 ^ n"
  shows "deserialize_int n (arch pre (serialize_int n v [] @ post)) = Inr (v, arch (pre @ serialize_int n v []) post)"
  using deserialize_int_on_big_endian [of "rev (le_bytes n v)" n True pre post]
    serialize_int_on_big_endian [OF assms, of True "[]"] nat_of_bytes_rev_le_bytes [OF assms]
  by (simp add: serialize_int_def deserialize_int_def)

lemma codec_word:
  assumes "LENGTH('w::len) = 8 * n"
  shows "codec (\<lambda>_. True) (\<lambda>v :: 'w word. serialize_int n (unat v)) (deserialize_word n)"
proof
  fix x :: "'w word" and oa pre post
  show "serialize_int n (unat x) oa = oa @ serialize_int n (unat x) []" by (rule serialize_int_append)
  have "unat x < 256 ^ n"
    using unsigned_less [of x, where ?'a = nat] by (simp add: assms power_mult)
  from deserialize_serialize_int [OF this]
  show "deserialize_word n (arch pre (serialize_int n (unat x) [] @ post))
      = Inr (x, arch (pre @ serialize_int n (unat x) []) post)"
    by (simp add: deserialize_word_def)
qed

interpretation u8: codec "\<lambda>_. True" serialize_byte deserialize_byte
  using codec_word [where ?'w = 8 and n = 1] by (simp add: serialize_byte_def [abs_def] deserialize_byte_def)

interpretation u16: codec "\<lambda>_. True" serialize_u16 deserialize_u16
  using codec_word [where ?'w = 16 and n = 2] by (simp add: serialize_u16_def [abs_def] deserialize_u16_def)

interpretation u32: codec "\<lambda>_. True" serialize_u32 deserialize_u32
  using codec_word [where ?'w = 32 and n = 4] by (simp add: serialize_u32_def [abs_def] deserialize_u32_def)

interpretation u64: codec "\<lambda>_. True" serialize_u64 deserialize_u64
  using codec_word [where ?'w = 64 and n = 8] by (simp add: serialize_u64_def [abs_def] deserialize_u64_def)

lemma serialize_byte_single: "serialize_byte b [] = [b]"
  by (simp add: serialize_byte_def serialize_int_def serialize_int_on_def)

section \<open>The containers are codecs\<close>

context codec
begin

lemma codec_vector:
  "codec (\<lambda>xs. length xs < 2 ^ 64 \<and> list_all wf xs) (serialize_vector ser) (deserialize_vector deser)"
proof
  fix xs oa
  show "serialize_vector ser xs oa = oa @ serialize_vector ser xs []"
    by (simp add: serialize_vector_def fold_ser u64.ser_append [of _ oa])
next
  fix xs pre post
  assume "length xs < 2 ^ 64 \<and> list_all wf xs"
  then show "deserialize_vector deser (arch pre (serialize_vector ser xs [] @ post))
      = Inr (xs, arch (pre @ serialize_vector ser xs []) post)"
    by (simp add: serialize_vector_def deserialize_vector_def fold_ser u64.deser_ser unat_of_nat
        deserialize_n_concat)
qed

lemma codec_optional:
  "codec (\<lambda>v. case v of Some x \<Rightarrow> wf x | None \<Rightarrow> True) (serialize_optional ser) (deserialize_optional deser)"
proof
  fix v oa
  show "serialize_optional ser v oa = oa @ serialize_optional ser v []"
    by (simp add: serialize_optional_def serialize_bool_def u8.ser_append [of _ oa]
        ser_append [of _ "oa @ _"] ser_append [of _ "serialize_byte _ []"] split: option.split)
next
  fix v pre post
  assume "case v of Some x \<Rightarrow> wf x | None \<Rightarrow> True"
  then show "deserialize_optional deser (arch pre (serialize_optional ser v [] @ post))
      = Inr (v, arch (pre @ serialize_optional ser v []) post)"
    by (cases v) (simp_all add: serialize_optional_def deserialize_optional_def serialize_bool_def
        deserialize_bool_def ser_append [of _ "serialize_byte _ []"] u8.deser_ser deser_ser)
qed

end

lemma codec_pair:
  assumes "codec wf1 ser1 deser1" and "codec wf2 ser2 deser2"
  shows "codec (\<lambda>p. wf1 (fst p) \<and> wf2 (snd p)) (serialize_pair ser1 ser2) (deserialize_pair deser1 deser2)"
proof
  fix p oa
  show "serialize_pair ser1 ser2 p oa = oa @ serialize_pair ser1 ser2 p []"
    by (simp add: serialize_pair_def codec.ser_out [OF assms(1)] codec.ser_out [OF assms(2)])
next
  fix p pre post
  assume "wf1 (fst p) \<and> wf2 (snd p)"
  then show "deserialize_pair deser1 deser2 (arch pre (serialize_pair ser1 ser2 p [] @ post))
      = Inr (p, arch (pre @ serialize_pair ser1 ser2 p []) post)"
    by (simp add: serialize_pair_def deserialize_pair_def codec.ser_out [OF assms(2)]
        codec.deser_ser [OF assms(1)] codec.deser_ser [OF assms(2)])
qed

lemma concat_serialize_byte: "concat (map (\<lambda>b. serialize_byte b []) bs) = bs"
  by (induction bs) (auto simp: serialize_byte_single)

lemma serialize_fixed_eq: "serialize_fixed fb oa = oa @ fb"
  by (simp add: serialize_fixed_def u8.fold_ser concat_serialize_byte)

lemma deserialize_bytes_n:
  "deserialize_n deserialize_byte (length bs) (arch pre (bs @ post)) = Inr (bs, arch (pre @ bs) post)"
  using u8.deserialize_n_concat [of bs pre post] by (simp add: concat_serialize_byte list_all_iff)

lemma codec_fixed: "codec (\<lambda>fb. length fb = S) serialize_fixed (deserialize_fixed S)"
  using deserialize_bytes_n by unfold_locales (auto simp: serialize_fixed_eq deserialize_fixed_def)

interpretation bytes_io: codec "\<lambda>bs. length bs < 2 ^ 63" serialize_bytes deserialize_bytes
proof
  fix bs oa
  show "serialize_bytes bs oa = oa @ serialize_bytes bs []"
    by (simp add: serialize_bytes_def u8.fold_ser u64.ser_append [of _ oa])
next
  fix bs pre post :: bytes
  assume "length bs < 2 ^ 63"
  then have "unat (of_nat (length bs) :: 64 word) = length bs" and "\<not> length bs > 2 ^ 63 - 1"
    by (simp_all add: unat_of_nat)
  then show "deserialize_bytes (arch pre (serialize_bytes bs [] @ post))
      = Inr (bs, arch (pre @ serialize_bytes bs []) post)"
    using deserialize_bytes_n [of bs "pre @ serialize_u64 (of_nat (length bs)) []" post]
    by (simp add: serialize_bytes_def deserialize_bytes_def u8.fold_ser u64.deser_ser concat_serialize_byte)
qed

interpretation string_io: codec "\<lambda>s. length s < 2 ^ 63" serialize_string deserialize_string
  by unfold_locales
    (auto simp: serialize_string_def deserialize_string_def bytes_io.deser_ser intro: bytes_io.ser_append)

section \<open>Properties\<close>

text \<open>
  Integers travel in big-endian order whatever the byte order of the host that writes them
  or of the host that reads them, and the value comes back with the index behind it.
\<close>

theorem integers_cross_hosts:
  assumes "v < 256 ^ n"
  shows "deserialize_int_on little' n (arch pre (serialize_int_on little n v [] @ post))
    = Inr (v, arch (pre @ serialize_int_on little n v []) post)"
  using deserialize_int_on_big_endian [of "rev (le_bytes n v)" n little' pre post]
    serialize_int_on_big_endian [OF assms, of little "[]"] nat_of_bytes_rev_le_bytes [OF assms] by simp

theorem integers_cross_hosts_witness:
  "(0x1234 :: nat) < 256 ^ 2 \<and> deserialize_int_on False 2 (arch [7] (serialize_int_on True 2 0x1234 [] @ [9]))
     = Inr (0x1234, arch ([7] @ serialize_int_on True 2 0x1234 []) [9])"
  using integers_cross_hosts [of "0x1234" 2 False "[7]" True "[9]"] by simp

end
