(* ===== verification/Crypto.thy ===== *)
theory Crypto
  imports Serialization
begin

text \<open>
  The cryptographic types of \<^verbatim>\<open>src/base/hash.cpp\<close> and \<^verbatim>\<open>src/base/crypto.cpp\<close> and the 256-bit integers of
  \<^verbatim>\<open>src/base/big_integer.hpp\<close>. What OpenSSL, libsecp256k1 and Boost.Multiprecision compute is not
  part of the repository: the record \<open>ext\<close> holds one function per library call the sources
  make, every definition that depends on one takes it as an argument, and the predicates
  \<open>hash_ok\<close>, \<open>big_ok\<close>, \<open>base64_ok\<close> and \<open>secp_ok\<close> state the documented behaviour the program relies on.
\<close>

section \<open>The libraries\<close>

record ext =
  SHA256 :: "bytes \<Rightarrow> bytes"
  RIPEMD160 :: "bytes \<Rightarrow> bytes"
  bio_base64 :: "bytes \<Rightarrow> string"
  bio_base64_read :: "string \<Rightarrow> bytes option"
  big_str :: "nat \<Rightarrow> string"
  big_parse :: "string \<Rightarrow> nat res"
  ec_seckey_verify :: "bytes \<Rightarrow> bool"
  ec_pubkey_create :: "bytes \<Rightarrow> bytes option"
  ecdsa_sign_recoverable :: "bytes \<Rightarrow> bytes \<Rightarrow> (bytes \<times> nat) option"
  ecdsa_parse_compact :: "bytes \<Rightarrow> nat \<Rightarrow> bool"
  ecdsa_recover :: "bytes \<Rightarrow> nat \<Rightarrow> bytes \<Rightarrow> bytes option"

definition hash_ok :: "ext \<Rightarrow> bool" where
  "hash_ok X \<longleftrightarrow> (\<forall>d. length (SHA256 X d) = 32) \<and> (\<forall>d. length (RIPEMD160 X d) = 20)"

text \<open>\<^verbatim>\<open>std::to_string\<close> of an unsigned integer.\<close>

definition std_to_string :: "nat \<Rightarrow> string" where
  "std_to_string n = (if n = 0 then ''0'' else map (\<lambda>d. char_of (48 + d)) (digits_be 10 n))"

text \<open>The 256-bit unsigned integers print in base ten and read back what they print.\<close>

definition big_ok :: "ext \<Rightarrow> bool" where
  "big_ok X \<longleftrightarrow> (\<forall>n < 2 ^ 256. big_str X n = std_to_string n \<and> big_parse X (std_to_string n) = Inr n)
     \<and> (\<forall>s n. big_parse X s = Inr n \<longrightarrow> n < 2 ^ 256)"

text \<open>Reading base64 text gives the bytes it was made from.\<close>

definition base64_ok :: "ext \<Rightarrow> bool" where
  "base64_ok X \<longleftrightarrow> (\<forall>bs. bs \<noteq> [] \<longrightarrow> bio_base64 X bs \<noteq> [] \<and> bio_base64_read X (bio_base64 X bs) = Some bs)"

text \<open>
  A signature made with a valid key parses, its recovery id is one of four, and recovering
  from it gives the public key of that key; keys and signatures have their documented sizes.
\<close>

definition secp_ok :: "ext \<Rightarrow> bool" where
  "secp_ok X \<longleftrightarrow>
     (\<forall>key pub. ec_pubkey_create X key = Some pub \<longrightarrow> length pub = 65)
   \<and> (\<forall>hash key sig rid. ecdsa_sign_recoverable X hash key = Some (sig, rid) \<longrightarrow>
        length sig = 64 \<and> rid < 4 \<and> ecdsa_parse_compact X sig rid \<and>
        ecdsa_recover X sig rid hash = ec_pubkey_create X key \<and> ec_pubkey_create X key \<noteq> None)
   \<and> (\<forall>sig rid hash pub. ecdsa_recover X sig rid hash = Some pub \<longrightarrow> length pub = 65)"

section \<open>SHA-256 values\<close>

type_synonym sha256 = bytes

definition sha256_of :: "bytes \<Rightarrow> sha256 res" where
  "sha256_of data = rbind (fixed_bytes 32 data) (\<lambda>bs. if length bs \<noteq> 32 then Inl InvalidArgument else Inr bs)"

definition sha256_null :: sha256 where
  "sha256_null = replicate 32 0"

definition sha256_toHex :: "sha256 \<Rightarrow> string" where
  "sha256_toHex h = toHex h"

definition sha256_fromHex :: "string \<Rightarrow> sha256 res" where
  "sha256_fromHex hex_view = rbind (fromHex hex_view) sha256_of"

definition sha256_less :: "sha256 \<Rightarrow> sha256 \<Rightarrow> bool" where
  "sha256_less a b = bytes_less a b"

definition sha256_compute :: "ext \<Rightarrow> bytes \<Rightarrow> sha256" where
  "sha256_compute X data = SHA256 X data"

definition serialize_sha256 :: "sha256 serializer" where
  "serialize_sha256 h = serialize_fixed h"

definition deserialize_sha256 :: "sha256 deserializer" where
  "deserialize_sha256 ia = deserialize_fixed 32 ia"

definition ripemd160_compute :: "ext \<Rightarrow> bytes \<Rightarrow> bytes" where
  "ripemd160_compute X data = RIPEMD160 X data"

section \<open>Checked 256-bit integers\<close>

text \<open>
  \<^verbatim>\<open>Uint256\<close> is Boost's checked unsigned type: a result outside the range throws, it never
  wraps. The value is a natural number below \<open>2 ^ 256\<close>.
\<close>

definition u256_add :: "nat \<Rightarrow> nat \<Rightarrow> nat res" where
  "u256_add a b = (if a + b < 2 ^ 256 then Inr (a + b) else Inl StdOverflowError)"

definition u256_sub :: "nat \<Rightarrow> nat \<Rightarrow> nat res" where
  "u256_sub a b = (if b \<le> a then Inr (a - b) else Inl StdRangeError)"

definition u256_mul :: "nat \<Rightarrow> nat \<Rightarrow> nat res" where
  "u256_mul a b = (if a * b < 2 ^ 256 then Inr (a * b) else Inl StdOverflowError)"

definition serialize_big :: "ext \<Rightarrow> nat serializer" where
  "serialize_big X n = serialize_string (big_str X n)"

definition deserialize_big :: "ext \<Rightarrow> nat deserializer" where
  "deserialize_big X ia = rbind (deserialize_string ia) (\<lambda>(s, ia). rbind (big_parse X s) (\<lambda>n. Inr (n, ia)))"

definition base64Encode :: "ext \<Rightarrow> bytes \<Rightarrow> string" where
  "base64Encode X bs = (if bs = [] then [] else bio_base64 X bs)"

definition base64Decode :: "ext \<Rightarrow> string \<Rightarrow> bytes res" where
  "base64Decode X base64 =
     (if length base64 = 0 then Inr []
      else case bio_base64_read X base64 of None \<Rightarrow> Inl CryptoError | Some bs \<Rightarrow> Inr bs)"

section \<open>Secp256k1 keys\<close>

definition secp_key :: "ext \<Rightarrow> bytes \<Rightarrow> bytes res" where
  "secp_key X private_key_bytes =
     (if ec_seckey_verify X private_key_bytes then Inr private_key_bytes else Inl CryptoError)"

definition secp_toPublicKey :: "ext \<Rightarrow> bytes \<Rightarrow> bytes res" where
  "secp_toPublicKey X key =
     (case ec_pubkey_create X key of None \<Rightarrow> Inl CryptoError | Some output \<Rightarrow> Inr output)"

definition secp_sign :: "ext \<Rightarrow> bytes \<Rightarrow> bytes \<Rightarrow> bytes res" where
  "secp_sign X key bytes_to_sign =
     (let hash = sha256_compute X bytes_to_sign in
      case ecdsa_sign_recoverable X hash key of
        None \<Rightarrow> Inl CryptoError
      | Some (serialized_recoverable_signature, rec_id) \<Rightarrow>
          fixed_bytes 65 (serialized_recoverable_signature @ [of_nat rec_id]))"

definition decodeSignatureToPublicKey :: "ext \<Rightarrow> bytes \<Rightarrow> bytes \<Rightarrow> bytes res" where
  "decodeSignatureToPublicKey X signature bytes_to_check =
     (let hash = sha256_compute X bytes_to_check;
          rec_id = unat (signature ! (length signature - 1));
          sig_data = take 64 signature
      in if \<not> ecdsa_parse_compact X sig_data rec_id then Inl CryptoError
         else case ecdsa_recover X sig_data rec_id hash of
                None \<Rightarrow> Inl CryptoError
              | Some output \<Rightarrow> Inr output)"

section \<open>Facts\<close>

lemma length_sha256_compute [simp]: "hash_ok X \<Longrightarrow> length (sha256_compute X d) = 32"
  by (simp add: hash_ok_def sha256_compute_def)

lemma length_ripemd160_compute [simp]: "hash_ok X \<Longrightarrow> length (ripemd160_compute X d) = 20"
  by (simp add: hash_ok_def ripemd160_compute_def)

interpretation sha256_io: codec "\<lambda>h. length h = 32" serialize_sha256 deserialize_sha256
  using codec_fixed [of 32] by (simp add: serialize_sha256_def [abs_def] deserialize_sha256_def [abs_def])

lemma sha256_fromHex_toHex: "length h = 32 \<Longrightarrow> sha256_fromHex (sha256_toHex h) = Inr h"
  by (simp add: sha256_fromHex_def sha256_toHex_def sha256_of_def fixed_bytes_def)

lemma sha256_of_eq: "sha256_of data = (if length data = 32 then Inr data else Inl InvalidArgument)"
  by (simp add: sha256_of_def fixed_bytes_def)

lemma length_std_to_string: "n < 10 ^ k \<Longrightarrow> 0 < k \<Longrightarrow> length (std_to_string n) \<le> k"
  using length_digits_be [of n 10 k] by (simp add: std_to_string_def)

lemma codec_big:
  assumes "big_ok X"
  shows "codec (\<lambda>n. n < 2 ^ 256) (serialize_big X) (deserialize_big X)"
proof
  fix n oa
  show "serialize_big X n oa = oa @ serialize_big X n []"
    unfolding serialize_big_def by (rule string_io.ser_append)
next
  fix n pre post
  assume "n < (2 :: nat) ^ 256"
  with assms have str: "big_str X n = std_to_string n" and parse: "big_parse X (big_str X n) = Inr n"
    unfolding big_ok_def by auto
  have "n < 10 ^ 78" using \<open>n < 2 ^ 256\<close> by (rule less_trans) simp
  then have "length (big_str X n) < 2 ^ 63" using length_std_to_string [of n 78] str by simp
  from string_io.deser_ser [OF this] parse
  show "deserialize_big X (arch pre (serialize_big X n [] @ post)) = Inr (n, arch (pre @ serialize_big X n []) post)"
    by (simp add: serialize_big_def deserialize_big_def)
qed

lemma decode_sign:
  assumes "secp_ok X" and "secp_sign X key msg = Inr sig"
  shows "decodeSignatureToPublicKey X sig msg = secp_toPublicKey X key
    \<and> (\<exists>pub. secp_toPublicKey X key = Inr pub \<and> length pub = 65) \<and> length sig = 65"
proof -
  from assms(2) obtain s rid where s: "ecdsa_sign_recoverable X (sha256_compute X msg) key = Some (s, rid)"
    and sig: "sig = s @ [of_nat rid]" "length sig = 65"
    by (auto simp: secp_sign_def fixed_bytes_def Let_def split: option.splits if_splits)
  from assms(1) s have len: "length s = 64" "rid < 4" "ecdsa_parse_compact X s rid"
    and rec: "ecdsa_recover X s rid (sha256_compute X msg) = ec_pubkey_create X key" "ec_pubkey_create X key \<noteq> None"
    unfolding secp_ok_def by blast+
  from rec(2) obtain pub where pub: "ec_pubkey_create X key = Some pub" by blast
  with assms(1) have lpub: "length pub = 65" unfolding secp_ok_def by blast
  from len(2) have "unat (of_nat rid :: byte) = rid" by (simp add: unat_of_nat)
  moreover have "take 64 sig = s" and "sig ! (length sig - 1) = of_nat rid"
    using sig len(1) by (simp_all add: nth_append)
  ultimately have "decodeSignatureToPublicKey X sig msg = Inr pub"
    using len(3) rec(1) pub by (simp add: decodeSignatureToPublicKey_def Let_def)
  with lpub sig(2) pub show ?thesis by (simp add: secp_toPublicKey_def)
qed

lemma base64_roundtrip [simp]: "base64_ok X \<Longrightarrow> base64Decode X (base64Encode X bs) = Inr bs"
  unfolding base64_ok_def by (cases "bs = []") (simp_all add: base64Decode_def base64Encode_def)

lemma std_to_string_inject: "std_to_string m = std_to_string n \<longleftrightarrow> m = n"
proof
  assume eq: "std_to_string m = std_to_string n"
  define dig where "dig k = (if k = 0 then [0] else digits_be 10 k)" for k
  have val: "val_be 10 (dig k) = k" for k by (cases "k = 0") (simp add: dig_def val_be_def, simp add: dig_def val_be_digits_be)
  have small: "\<forall>d\<in>set (dig k). d < 10" for k by (auto simp: dig_def dest: digits_be_less)
  have str: "map of_char (std_to_string k) = map ((+) 48) (dig k)" for k
    using small [of k] by (auto simp: std_to_string_def dig_def split: if_splits)
  from eq have "map ((+) 48) (dig m) = map ((+) (48 :: nat)) (dig n)" by (metis str)
  then have "dig m = dig n" by (simp add: inj_map_eq_map)
  with val show "m = n" by metis
qed simp

text \<open>\<^verbatim>\<open>std::atoi\<close> on a string of digits; it stops at the first other character.\<close>

definition std_atoi :: "string \<Rightarrow> nat" where
  "std_atoi s = val_be 10 (map (\<lambda>c. of_char c - 48) (takeWhile (\<lambda>c. 48 \<le> (of_char c :: nat) \<and> of_char c \<le> (57 :: nat)) s))"

lemma std_atoi_to_string: "std_atoi (std_to_string n) = n"
proof (cases "n = 0")
  case True
  then show ?thesis by (simp add: std_atoi_def std_to_string_def val_be_def)
next
  case False
  have small: "d < 10" if "d \<in> set (digits_be 10 n)" for d using that by (rule digits_be_less)
  have dig: "of_char (char_of (48 + d) :: char) = 48 + d" if "d < 10" for d :: nat using that by simp
  have "takeWhile (\<lambda>c. 48 \<le> (of_char c :: nat) \<and> of_char c \<le> (57 :: nat)) (std_to_string n) = std_to_string n"
    using False small dig by (fastforce simp: std_to_string_def takeWhile_eq_all_conv)
  moreover have "map (\<lambda>c. of_char c - 48) (std_to_string n) = digits_be 10 n"
    using False small by (auto simp: std_to_string_def dig intro!: map_idI dest!: small)
  ultimately show ?thesis unfolding std_atoi_def by (simp only: val_be_digits_be)
qed

section \<open>A concrete library for the examples\<close>

text \<open>
  Functions with the documented sizes and round trips, for evaluating the model: the digests
  pad or cut their input, keys are their own public keys, a signature carries its key.
\<close>

definition fit :: "nat \<Rightarrow> bytes \<Rightarrow> bytes" where
  "fit n bs = take n (bs @ replicate n 0)"

definition demo_ext :: ext where
  "demo_ext = \<lparr>SHA256 = fit 32, RIPEMD160 = fit 20, bio_base64 = toHex,
     bio_base64_read = (\<lambda>s. case fromHex s of Inr bs \<Rightarrow> Some bs | Inl _ \<Rightarrow> None), big_str = std_to_string,
     big_parse = (\<lambda>s. if std_atoi s < 2 ^ 256 then Inr (std_atoi s) else Inl StdRuntimeError),
     ec_seckey_verify = (\<lambda>key. length key = 32), ec_pubkey_create = (\<lambda>key. Some (fit 65 (fit 32 key))),
     ecdsa_sign_recoverable = (\<lambda>hash key. Some (fit 64 (fit 32 key), 0)), ecdsa_parse_compact = (\<lambda>sig rid. True),
     ecdsa_recover = (\<lambda>sig rid hash. Some (fit 65 (fit 32 sig)))\<rparr>"

lemma length_fit [simp]: "length (fit n bs) = n"
  by (simp add: fit_def)

lemma fit_fit: "m \<le> n \<Longrightarrow> fit m (fit n bs) = fit m bs"
  by (simp add: fit_def take_replicate min_def)

lemma demo_ext_ok: "hash_ok demo_ext" "big_ok demo_ext" "secp_ok demo_ext"
  by (auto simp: hash_ok_def big_ok_def secp_ok_def demo_ext_def std_atoi_to_string fit_fit split: if_splits)

lemma demo_base64: "base64_ok demo_ext"
proof -
  have "toHex bs \<noteq> []" if "bs \<noteq> []" for bs :: bytes using that length_toHex [of bs] by fastforce
  then show ?thesis by (simp add: base64_ok_def demo_ext_def)
qed

end
