(* ===== verification/Address.thy ===== *)
theory Address
  imports Crypto
begin

text \<open>
  The class \<^verbatim>\<open>Address\<close> of \<^verbatim>\<open>src/core/address.{hpp,cpp}\<close>: twenty bytes, printed in base58, derived from
  a public key by SHA-256 and RIPEMD-160. Ordered maps are keyed by addresses compared through
  their printed form; that this is a strict total order rests on the base58 round trip.
\<close>

type_synonym address = bytes

definition LENGTH_IN_BYTES :: nat where
  "LENGTH_IN_BYTES = 20"

definition wf_address :: "address \<Rightarrow> bool" where
  "wf_address a \<longleftrightarrow> length a = LENGTH_IN_BYTES"

definition address_of_public_key :: "ext \<Rightarrow> bytes \<Rightarrow> address" where
  "address_of_public_key X sign =
     (let sha = sha256_compute X sign; ripemd = ripemd160_compute X sha in ripemd)"

definition address_of_bytes :: "bytes \<Rightarrow> address res" where
  "address_of_bytes raw_address = fixed_bytes LENGTH_IN_BYTES raw_address"

definition address_of_string :: "string \<Rightarrow> address res" where
  "address_of_string base58_address = rbind (base58Decode base58_address) (fixed_bytes LENGTH_IN_BYTES)"

definition address_null :: address where
  "address_null = replicate LENGTH_IN_BYTES 0"

definition address_isNull :: "address \<Rightarrow> bool" where
  "address_isNull a = (a = address_null)"

definition address_toString :: "address \<Rightarrow> string" where
  "address_toString a = base58Encode a"

text \<open>\<^verbatim>\<open>std::string\<close> compares its characters as unsigned bytes.\<close>

definition string_less :: "string \<Rightarrow> string \<Rightarrow> bool" where
  "string_less s t = bytes_less (string_to_bytes s) (string_to_bytes t)"

definition address_less :: "address \<Rightarrow> address \<Rightarrow> bool" where
  "address_less a b = string_less (address_toString a) (address_toString b)"

definition serialize_address :: "address serializer" where
  "serialize_address a = serialize_fixed a"

definition deserialize_address :: "address deserializer" where
  "deserialize_address ia = deserialize_fixed LENGTH_IN_BYTES ia"

section \<open>Facts\<close>

lemma wf_address_null [simp]: "wf_address address_null"
  by (simp add: wf_address_def address_null_def)

lemma wf_address_of_public_key [simp]: "hash_ok X \<Longrightarrow> wf_address (address_of_public_key X pub)"
  by (simp add: wf_address_def address_of_public_key_def LENGTH_IN_BYTES_def)

lemma address_of_bytes_wf: "address_of_bytes raw = Inr a \<longleftrightarrow> a = raw \<and> wf_address raw"
  by (auto simp: address_of_bytes_def fixed_bytes_def wf_address_def)

lemma address_of_string_toString: "wf_address a \<Longrightarrow> address_of_string (address_toString a) = Inr a"
  by (simp add: address_of_string_def address_toString_def fixed_bytes_def wf_address_def)

lemma address_of_string_wf: "address_of_string s = Inr a \<Longrightarrow> wf_address a"
  by (auto simp: address_of_string_def fixed_bytes_def wf_address_def rbind_eq_Inr split: if_splits)

interpretation address_io: codec wf_address serialize_address deserialize_address
  using codec_fixed [of LENGTH_IN_BYTES]
  by (simp add: serialize_address_def [abs_def] deserialize_address_def [abs_def] wf_address_def [abs_def])

section \<open>The order of map keys\<close>

text \<open>What \<^verbatim>\<open>std::map\<close> requires of its comparison, and that equivalent keys are equal.\<close>

locale map_key_order =
  fixes less :: "'k \<Rightarrow> 'k \<Rightarrow> bool"
  assumes irrefl: "\<not> less a a"
    and trans: "less a b \<Longrightarrow> less b c \<Longrightarrow> less a c"
    and total: "less a b \<or> a = b \<or> less b a"
begin

lemma asym: "less a b \<Longrightarrow> \<not> less b a"
  using irrefl trans by blast

lemma equivalent_keys_equal: "\<not> less a b \<and> \<not> less b a \<longleftrightarrow> a = b"
  using irrefl total by blast

end

lemma bytes_less_irrefl: "\<not> bytes_less a a"
  by (induction a) auto

lemma bytes_less_total: "bytes_less a b \<or> a = b \<or> bytes_less b a"
  by (induction a b rule: bytes_less.induct) (auto simp: neq_Nil_conv, metis bytes_less.simps(2) neq_Nil_conv)

lemma bytes_less_trans: "bytes_less a b \<Longrightarrow> bytes_less b c \<Longrightarrow> bytes_less a c"
proof (induction a b arbitrary: c rule: bytes_less.induct)
  case (3 x xs y ys)
  then show ?case by (cases c) (auto split: if_splits dest: less_trans)
next
  case (2 y ys)
  then show ?case by (cases c) auto
qed auto

interpretation bytes_order: map_key_order bytes_less
  using bytes_less_irrefl bytes_less_trans bytes_less_total by unfold_locales blast+

lemma base58Encode_inject: "base58Encode a = base58Encode b \<longleftrightarrow> a = b"
  by (metis base58Decode_Encode sum.inject(2))

lemma string_to_bytes_inject: "string_to_bytes s = string_to_bytes t \<longleftrightarrow> s = t"
  by (metis bytes_to_string_to_bytes)

interpretation address_order: map_key_order address_less
proof
  fix a b c
  show "\<not> address_less a a"
    by (simp add: address_less_def string_less_def bytes_order.irrefl)
  show "address_less a b \<Longrightarrow> address_less b c \<Longrightarrow> address_less a c"
    unfolding address_less_def string_less_def by (rule bytes_order.trans)
  show "address_less a b \<or> a = b \<or> address_less b a"
    using bytes_order.total [of "string_to_bytes (base58Encode a)" "string_to_bytes (base58Encode b)"]
    by (simp add: address_less_def string_less_def address_toString_def string_to_bytes_inject base58Encode_inject)
qed

section \<open>Properties\<close>

text \<open>
  Comparing addresses through their base58 text is a strict total order in which only equal
  addresses are equivalent, as \<^verbatim>\<open>std::map\<close> keyed by addresses requires.
\<close>

theorem address_less_strict_total:
  "\<not> address_less a a \<and> (address_less a b \<and> address_less b c \<longrightarrow> address_less a c)
   \<and> (\<not> address_less a b \<and> \<not> address_less b a \<longleftrightarrow> a = b)"
  using address_order.irrefl address_order.trans address_order.equivalent_keys_equal by blast

theorem address_less_strict_total_witness:
  "\<not> address_less [2] [1] \<and> address_less [1] [2]"
  using address_less_strict_total [of "[1]" "[2]" "[2]"] by (simp add: address_less_def string_less_def
      address_toString_def base58Encode_def string_to_bytes_def pszBase58_def)

end
