(* ===== verification/Time.thy ===== *)
theory Time
  imports Serialization Complex_Main
begin

text \<open>
  The class \<^verbatim>\<open>Time\<close> of \<^verbatim>\<open>src/base/time.{hpp,cpp}\<close>: whole seconds since the epoch in 32 bits.
  The operations that read a clock take its value as an argument; the seconds of a \<^verbatim>\<open>Timer\<close> are rational.
\<close>

type_synonym time = "32 word"

text \<open>\<^verbatim>\<open>Time(std::chrono::time_point)\<close>: the cast keeps the low 32 bits of the second count.\<close>

definition time_of_seconds :: "int \<Rightarrow> time" where
  "time_of_seconds secs = of_int secs"

text \<open>
  A point of time is a number of nanoseconds since the epoch, as the clocks of the GNU library count; casts
  between durations round towards zero.
\<close>

definition duration_cast :: "int \<Rightarrow> int \<Rightarrow> int" where
  "duration_cast unit ns = (if ns < 0 then - (- ns div unit) else ns div unit)"

definition time_of_time_point :: "int \<Rightarrow> time" where
  "time_of_time_point ns = time_of_seconds (duration_cast (10 ^ 9) ns)"

definition toTimePoint :: "time \<Rightarrow> int" where
  "toTimePoint t = uint t * 10 ^ 9"

definition time_now :: "int \<Rightarrow> time" where
  "time_now clock = time_of_time_point clock"

definition time_le :: "time \<Rightarrow> time \<Rightarrow> bool" where
  "time_le a b = (\<not> a > b)"

definition time_ge :: "time \<Rightarrow> time \<Rightarrow> bool" where
  "time_ge a b = (\<not> a < b)"

definition time_minus :: "time \<Rightarrow> time \<Rightarrow> time res" where
  "time_minus a b = (if a < b then Inl LogicError else Inr (a - b))"

text \<open>The timer: the point of time of its last start; an elapsed time is an unsigned number of 64 bits.\<close>

record timer =
  timer_start_time :: int

definition timer_start :: "int \<Rightarrow> timer \<Rightarrow> timer" where
  "timer_start clock t = t\<lparr>timer_start_time := clock\<rparr>"

definition elapsedMillis :: "int \<Rightarrow> timer \<Rightarrow> 64 word" where
  "elapsedMillis clock t = of_int (duration_cast (10 ^ 6) (clock - timer_start_time t))"

definition elapsedSeconds :: "int \<Rightarrow> timer \<Rightarrow> rat" where
  "elapsedSeconds clock t = of_int (uint (elapsedMillis clock t)) / 1000"

definition serialize_time :: "time serializer" where
  "serialize_time t = serialize_u32 t"

definition deserialize_time :: "time deserializer" where
  "deserialize_time ia = rbind (deserialize_u32 ia) (\<lambda>(timestamp, ia). Inr (timestamp, ia))"

interpretation time_io: codec "\<lambda>_. True" serialize_time deserialize_time
  by unfold_locales
    (auto simp: serialize_time_def deserialize_time_def u32.deser_ser intro: u32.ser_append)

text \<open>The difference is exact: no wrap-around is ever observed.\<close>

lemma time_minus_exact:
  "time_minus a b = (if unat a < unat b then Inl LogicError else Inr (of_nat (unat a - unat b)))"
  by (auto simp: time_minus_def word_less_nat_alt of_nat_diff not_less)

lemma time_of_seconds_exact: "0 \<le> s \<Longrightarrow> s < 2 ^ 32 \<Longrightarrow> uint (time_of_seconds s) = s"
  by (simp add: time_of_seconds_def uint_word_of_int)

lemma unat_time_minus: "time_minus a b = Inr c \<Longrightarrow> unat c = unat a - unat b \<and> unat b \<le> unat a"
  by (auto simp: time_minus_def word_less_nat_alt not_less word_le_nat_alt unat_sub split: if_splits)

text \<open>A time survives the way through a point of time.\<close>

lemma time_point_roundtrip: "time_of_time_point (toTimePoint t) = t"
  by (simp add: time_of_time_point_def toTimePoint_def duration_cast_def time_of_seconds_def)

lemma elapsedMillis_exact:
  assumes "0 \<le> d" and "d < 2 ^ 63"
  shows "uint (elapsedMillis (clock + d) (timer_start clock t)) = d div 10 ^ 6"
proof -
  have "d div 10 ^ 6 < 2 ^ 64" using assms by simp
  then show ?thesis using assms by (simp add: elapsedMillis_def timer_start_def duration_cast_def uint_word_of_int)
qed

end
