(* ===== verification/Transaction.thy ===== *)
theory Transaction
  imports Address Time
begin

text \<open>
  Transactions, their builder and their status: \<^verbatim>\<open>src/core/transaction.{hpp,cpp}\<close> with the integer
  types of \<^verbatim>\<open>src/core/types.hpp\<close>. The facts are the codec law, that a signature made by the sender's
  key is accepted and binds the sender, and what equality and the transaction hash identify.
\<close>

type_synonym balance = nat
type_synonym fee = "64 word"

section \<open>Transactions\<close>

record transaction =
  tx_from :: address
  tx_to :: address
  tx_amount :: balance
  tx_fee :: fee
  tx_timestamp :: time
  tx_data :: bytes
  tx_sign :: bytes

definition Sign_empty :: bytes where
  "Sign_empty = replicate 65 0"

definition mk_Transaction ::
  "address \<Rightarrow> address \<Rightarrow> balance \<Rightarrow> fee \<Rightarrow> time \<Rightarrow> bytes \<Rightarrow> bytes \<Rightarrow> transaction res" where
  "mk_Transaction from to amount fee timestamp data sign =
     (if amount = 0 \<and> fee = 0 then Inl LogicError
      else Inr \<lparr>tx_from = from, tx_to = to, tx_amount = amount, tx_fee = fee,
                tx_timestamp = timestamp, tx_data = data, tx_sign = sign\<rparr>)"

definition tx_eq :: "transaction \<Rightarrow> transaction \<Rightarrow> bool" where
  "tx_eq a b \<longleftrightarrow> tx_amount a = tx_amount b \<and> tx_from a = tx_from b \<and> tx_to a = tx_to b
     \<and> tx_timestamp a = tx_timestamp b \<and> tx_fee a = tx_fee b \<and> tx_data a = tx_data b"

definition concatenated_data :: "ext \<Rightarrow> transaction \<Rightarrow> string" where
  "concatenated_data X tx =
     base58Encode (tx_from tx) @ base58Encode (tx_to tx) @ big_str X (tx_amount tx) @
     std_to_string (unat (tx_fee tx)) @ std_to_string (unat (tx_timestamp tx)) @ base64Encode X (tx_data tx)"

definition hashOfTransaction :: "ext \<Rightarrow> transaction \<Rightarrow> sha256" where
  "hashOfTransaction X tx = sha256_compute X (string_to_bytes (concatenated_data X tx))"

definition sign_transaction :: "ext \<Rightarrow> bytes \<Rightarrow> transaction \<Rightarrow> transaction res" where
  "sign_transaction X key tx =
     rbind (secp_sign X key (hashOfTransaction X tx)) (\<lambda>s. Inr (tx\<lparr>tx_sign := s\<rparr>))"

definition checkSign :: "ext \<Rightarrow> transaction \<Rightarrow> bool res" where
  "checkSign X tx =
     (if tx_sign tx = [] then Inr False
      else case decodeSignatureToPublicKey X (tx_sign tx) (hashOfTransaction X tx) of
             Inr pub \<Rightarrow> Inr (tx_from tx = address_of_public_key X pub)
           | Inl e \<Rightarrow> if e = CryptoError then Inr False else Inl e)"

definition serialize_tx :: "ext \<Rightarrow> transaction serializer" where
  "serialize_tx X tx oa =
     serialize_fixed (tx_sign tx) (serialize_bytes (tx_data tx) (serialize_time (tx_timestamp tx)
       (serialize_u64 (tx_fee tx) (serialize_big X (tx_amount tx) (serialize_address (tx_to tx)
         (serialize_address (tx_from tx) oa))))))"

definition deserialize_tx :: "ext \<Rightarrow> transaction deserializer" where
  "deserialize_tx X ia =
     rbind (deserialize_address ia) (\<lambda>(from, ia).
     rbind (deserialize_address ia) (\<lambda>(to, ia).
     rbind (deserialize_big X ia) (\<lambda>(amount, ia).
     rbind (deserialize_u64 ia) (\<lambda>(fee, ia).
     rbind (deserialize_time ia) (\<lambda>(timestamp, ia).
     rbind (deserialize_bytes ia) (\<lambda>(data, ia).
     rbind (deserialize_fixed 65 ia) (\<lambda>(sign, ia).
     rbind (mk_Transaction from to amount fee timestamp data sign) (\<lambda>tx. Inr (tx, ia)))))))))"

section \<open>The builder\<close>

record tx_builder =
  b_from :: "address option"
  b_to :: "address option"
  b_amount :: "balance option"
  b_timestamp :: "time option"
  b_fee :: "fee option"
  b_data :: "bytes option"
  b_sign :: "bytes option"

definition empty_builder :: tx_builder where
  "empty_builder = \<lparr>b_from = None, b_to = None, b_amount = None, b_timestamp = None,
     b_fee = None, b_data = None, b_sign = None\<rparr>"

definition setFrom :: "address \<Rightarrow> tx_builder \<Rightarrow> tx_builder" where
  "setFrom from b = b\<lparr>b_from := Some from\<rparr>"

definition setTo :: "address \<Rightarrow> tx_builder \<Rightarrow> tx_builder" where
  "setTo to b = b\<lparr>b_to := Some to\<rparr>"

definition setAmount :: "balance \<Rightarrow> tx_builder \<Rightarrow> tx_builder" where
  "setAmount amount b = b\<lparr>b_amount := Some amount\<rparr>"

definition setTimestamp :: "time \<Rightarrow> tx_builder \<Rightarrow> tx_builder" where
  "setTimestamp timestamp b = b\<lparr>b_timestamp := Some timestamp\<rparr>"

definition setFee :: "fee \<Rightarrow> tx_builder \<Rightarrow> tx_builder" where
  "setFee fee b = b\<lparr>b_fee := Some fee\<rparr>"

definition setSign :: "bytes \<Rightarrow> tx_builder \<Rightarrow> tx_builder" where
  "setSign sign b = b\<lparr>b_sign := Some sign\<rparr>"

definition setData :: "bytes \<Rightarrow> tx_builder \<Rightarrow> tx_builder" where
  "setData data b = b\<lparr>b_data := Some data\<rparr>"

definition build_tx :: "tx_builder \<Rightarrow> transaction res" where
  "build_tx b =
     (case (b_from b, b_to b, b_amount b, b_fee b, b_timestamp b, b_data b) of
        (Some from, Some to, Some amount, Some fee, Some timestamp, Some data) \<Rightarrow>
          mk_Transaction from to amount fee timestamp data
            (case b_sign b of Some sign \<Rightarrow> sign | None \<Rightarrow> Sign_empty)
      | _ \<Rightarrow> Inl AssertionFailed)"

definition invalidTransaction :: transaction where
  "invalidTransaction = \<lparr>tx_from = address_null, tx_to = address_null, tx_amount = 0, tx_fee = 1,
     tx_timestamp = 0, tx_data = [], tx_sign = Sign_empty\<rparr>"

section \<open>Status\<close>

datatype status_code = Success | Pending | BadQueryForm | BadSign | NotEnoughBalance | Revert | Failed

datatype action_type = None_action | Transfer | ContractCall | ContractCreation

record tx_status =
  st_status :: status_code
  st_action :: action_type
  st_fee_left :: fee
  st_message :: string

definition mk_TransactionStatus :: "status_code \<Rightarrow> action_type \<Rightarrow> fee \<Rightarrow> string \<Rightarrow> tx_status" where
  "mk_TransactionStatus status type fee_left message =
     \<lparr>st_status = status, st_action = type, st_fee_left = fee_left, st_message = message\<rparr>"

definition status_bool :: "tx_status \<Rightarrow> bool" where
  "status_bool s \<longleftrightarrow> st_status s = Success"

section \<open>Facts\<close>

definition wf_tx :: "transaction \<Rightarrow> bool" where
  "wf_tx tx \<longleftrightarrow> wf_address (tx_from tx) \<and> wf_address (tx_to tx) \<and> tx_amount tx < 2 ^ 256
     \<and> length (tx_data tx) < 2 ^ 63 \<and> length (tx_sign tx) = 65 \<and> \<not> (tx_amount tx = 0 \<and> tx_fee tx = 0)"

lemmas tx_field_out = address_io.ser_out u64.ser_out time_io.ser_out bytes_io.ser_out
  codec.ser_out [OF codec_fixed]

lemma mk_Transaction_fields:
  "mk_Transaction (tx_from tx) (tx_to tx) (tx_amount tx) (tx_fee tx) (tx_timestamp tx) (tx_data tx) (tx_sign tx)
     = (if tx_amount tx = 0 \<and> tx_fee tx = 0 then Inl LogicError else Inr tx)"
  by (simp add: mk_Transaction_def)

lemma codec_tx:
  assumes "big_ok X"
  shows "codec wf_tx (serialize_tx X) (deserialize_tx X)"
proof
  note big = codec.ser_out [OF codec_big [OF assms]] codec.deser_ser [OF codec_big [OF assms]]
  fix tx oa
  show "serialize_tx X tx oa = oa @ serialize_tx X tx []"
    by (simp add: serialize_tx_def tx_field_out big)
  fix pre post
  assume "wf_tx tx"
  then show "deserialize_tx X (arch pre (serialize_tx X tx [] @ post)) = Inr (tx, arch (pre @ serialize_tx X tx []) post)"
    by (simp add: wf_tx_def serialize_tx_def deserialize_tx_def tx_field_out big address_io.deser_ser
        u64.deser_ser time_io.deser_ser bytes_io.deser_ser codec.deser_ser [OF codec_fixed] mk_Transaction_fields)
qed

lemma wf_invalidTransaction [simp]: "wf_tx invalidTransaction"
  by (simp add: wf_tx_def invalidTransaction_def Sign_empty_def)

lemma tx_eq_refl [simp]: "tx_eq t t"
  by (simp add: tx_eq_def)

lemma tx_eq_sym: "tx_eq a b \<Longrightarrow> tx_eq b a"
  by (simp add: tx_eq_def)

lemma tx_eq_trans: "tx_eq a b \<Longrightarrow> tx_eq b c \<Longrightarrow> tx_eq a c"
  by (simp add: tx_eq_def)

lemma tx_eq_iff: "tx_eq a b \<longleftrightarrow> b = a\<lparr>tx_sign := tx_sign b\<rparr>"
  by (cases a; cases b) (auto simp: tx_eq_def)

lemma tx_eq_same_sign: "tx_eq a b \<Longrightarrow> tx_sign a = tx_sign b \<Longrightarrow> a = b"
  by (cases a; cases b) (simp add: tx_eq_def)

lemma hashOfTransaction_cong: "tx_eq a b \<Longrightarrow> hashOfTransaction X a = hashOfTransaction X b"
  by (simp add: tx_eq_def hashOfTransaction_def concatenated_data_def)

lemma checkSign_sign:
  assumes "secp_ok X" and "secp_toPublicKey X key = Inr pub"
    and "sign_transaction X key tx = Inr tx'"
  shows "tx_eq tx tx' \<and> checkSign X tx' = Inr (tx_from tx = address_of_public_key X pub)"
proof -
  from assms(3) obtain s where s: "secp_sign X key (hashOfTransaction X tx) = Inr s" and tx': "tx' = tx\<lparr>tx_sign := s\<rparr>"
    by (auto simp: sign_transaction_def rbind_eq_Inr)
  have eq: "tx_eq tx tx'" by (simp add: tx' tx_eq_def)
  from decode_sign [OF assms(1) s] have "decodeSignatureToPublicKey X s (hashOfTransaction X tx) = Inr pub"
    and "s \<noteq> []" using assms(2) by auto
  with eq show ?thesis
    using hashOfTransaction_cong [OF eq, of X] by (simp add: checkSign_def tx')
qed

lemma checkSign_total: "\<exists>b. checkSign X tx = Inr b"
  by (auto simp: checkSign_def decodeSignatureToPublicKey_def Let_def split: option.splits sum.splits if_splits)

lemma build_tx_eq_Inr:
  "build_tx b = Inr tx \<longleftrightarrow>
     b_from b = Some (tx_from tx) \<and> b_to b = Some (tx_to tx) \<and> b_amount b = Some (tx_amount tx)
     \<and> b_fee b = Some (tx_fee tx) \<and> b_timestamp b = Some (tx_timestamp tx) \<and> b_data b = Some (tx_data tx)
     \<and> tx_sign tx = (case b_sign b of Some sign \<Rightarrow> sign | None \<Rightarrow> Sign_empty)
     \<and> \<not> (tx_amount tx = 0 \<and> tx_fee tx = 0)"
  by (cases tx) (auto simp: build_tx_def mk_Transaction_def split: option.splits if_splits)

section \<open>Properties\<close>

text \<open>
  A well-formed transaction survives serialization, and the bytes determine the transaction.
\<close>

theorem transaction_roundtrip:
  assumes "big_ok X" and "wf_tx tx"
  shows "fromBytes (deserialize_tx X) (toBytes (serialize_tx X) tx) = Inr tx"
  by (rule codec.roundtrip [OF codec_tx [OF assms(1)] assms(2)])

theorem transaction_roundtrip_witness:
  "big_ok demo_ext \<and> wf_tx invalidTransaction
   \<and> fromBytes (deserialize_tx demo_ext) (toBytes (serialize_tx demo_ext) invalidTransaction) = Inr invalidTransaction"
  using transaction_roundtrip [OF demo_ext_ok(2) wf_invalidTransaction] demo_ext_ok(2) by simp

text \<open>
  C27: a transaction signed with a key is accepted exactly if its sender is the address of that
  key, and signing changes nothing but the signature.
\<close>

theorem signed_transaction_accepted:
  assumes "secp_ok X" and "secp_toPublicKey X key = Inr pub" and "sign_transaction X key tx = Inr tx'"
  shows "tx_eq tx tx' \<and> checkSign X tx' = Inr (tx_from tx = address_of_public_key X pub)"
  by (rule checkSign_sign [OF assms])

theorem signed_transaction_accepted_witness:
  "\<exists>tx'. sign_transaction demo_ext (replicate 32 1) (invalidTransaction\<lparr>tx_from := replicate 20 1\<rparr>) = Inr tx'
     \<and> checkSign demo_ext tx' = Inr True"
proof -
  let ?tx = "invalidTransaction\<lparr>tx_from := replicate 20 1\<rparr>" and ?key = "replicate 32 1 :: bytes"
  have pub: "secp_toPublicKey demo_ext ?key = Inr (fit 65 (fit 32 ?key))"
    by (simp add: secp_toPublicKey_def demo_ext_def)
  have sg: "sign_transaction demo_ext ?key ?tx = Inr (?tx\<lparr>tx_sign := fit 64 (fit 32 ?key) @ [0]\<rparr>)"
    by (simp add: sign_transaction_def secp_sign_def demo_ext_def fixed_bytes_def)
  have "address_of_public_key demo_ext (fit 65 (fit 32 ?key)) = replicate 20 1"
    by (simp add: address_of_public_key_def sha256_compute_def ripemd160_compute_def demo_ext_def fit_def)
  then show ?thesis
    using signed_transaction_accepted [OF demo_ext_ok(3) pub sg] sg by (simp add: invalidTransaction_def)
qed

text \<open>
  The text that is hashed and signed joins the decimal fields without separators, so two
  different transactions can have the same hash: an amount of 1 with fee 23 and an amount of 12
  with fee 3 print alike.
\<close>

theorem transaction_hash_ambiguous:
  assumes "big_ok X"
  shows "hashOfTransaction X (tx\<lparr>tx_amount := 1, tx_fee := 23\<rparr>) = hashOfTransaction X (tx\<lparr>tx_amount := 12, tx_fee := 3\<rparr>)
    \<and> \<not> tx_eq (tx\<lparr>tx_amount := 1, tx_fee := 23\<rparr>) (tx\<lparr>tx_amount := 12, tx_fee := 3\<rparr>)"
proof -
  have "big_str X 1 = std_to_string 1" "big_str X 12 = std_to_string 12"
    using assms by (simp_all add: big_ok_def)
  moreover have "std_to_string 1 @ std_to_string 23 = std_to_string 12 @ std_to_string 3"
    by (simp add: std_to_string_def digits_be.simps)
  ultimately show ?thesis
    by (simp add: hashOfTransaction_def concatenated_data_def tx_eq_def) (metis append_assoc)
qed

theorem transaction_hash_ambiguous_witness:
  "hashOfTransaction demo_ext (invalidTransaction\<lparr>tx_amount := 1, tx_fee := 23\<rparr>)
     = hashOfTransaction demo_ext (invalidTransaction\<lparr>tx_amount := 12, tx_fee := 3\<rparr>)"
  using transaction_hash_ambiguous [OF demo_ext_ok(2), of invalidTransaction] by simp

end
