(* ===== verification/TransactionsSet.thy ===== *)
theory TransactionsSet
  imports Transaction "HOL-Library.Multiset"
begin

text \<open>
  \<^verbatim>\<open>TransactionsSet\<close> of \<^verbatim>\<open>src/core/transactions_set.{hpp,cpp}\<close>: a vector kept free of repetitions,
  from which an element is removed by overwriting it with the last one. The locale \<open>tx_pool\<close> is
  what the node relies on when it keeps its pending transactions in one; it is interpreted on
  the operations below. \<open>calcCost\<close> is the per-sender cost table that block checking uses.
\<close>

type_synonym txset = "transaction list"

section \<open>Operations\<close>

definition txset_find :: "txset \<Rightarrow> transaction \<Rightarrow> bool" where
  "txset_find txs tx = list_ex (\<lambda>t. tx_eq t tx) txs"

definition txset_find_hash :: "ext \<Rightarrow> txset \<Rightarrow> sha256 \<Rightarrow> transaction option" where
  "txset_find_hash X txs hash = List.find (\<lambda>t. hashOfTransaction X t = hash) txs"

definition txset_add :: "transaction \<Rightarrow> txset \<Rightarrow> txset" where
  "txset_add tx txs = (if \<not> txset_find txs tx then txs @ [tx] else txs)"

definition txset_remove :: "transaction \<Rightarrow> txset \<Rightarrow> txset" where
  "txset_remove tx txs =
     (let i = length (takeWhile (\<lambda>t. \<not> tx_eq t tx) txs) in
      if i = length txs then txs
      else let last_vector_element = length txs - 1;
               txs' = (if last_vector_element \<noteq> i then txs[i := txs ! last_vector_element] else txs)
           in butlast txs')"

definition txset_remove_set :: "txset \<Rightarrow> txset \<Rightarrow> txset" where
  "txset_remove_set other txs = fold txset_remove other txs"

definition txset_isEmpty :: "txset \<Rightarrow> bool" where
  "txset_isEmpty txs = (txs = [])"

definition txset_eq :: "txset \<Rightarrow> txset \<Rightarrow> bool" where
  "txset_eq a b = list_all2 tx_eq a b"

text \<open>
  \<^verbatim>\<open>std::nth_element\<close> leaves the choice among the admissible arrangements to the library, so it is
  an argument; \<open>nth_element_ok\<close> is its contract for the comparison \<^verbatim>\<open>a.getFee() > b.getFee()\<close>.
\<close>

type_synonym nth_element = "nat \<Rightarrow> transaction list \<Rightarrow> transaction list"

definition nth_element_ok :: "nth_element \<Rightarrow> bool" where
  "nth_element_ok nth_element \<longleftrightarrow> (\<forall>n txs. n \<le> length txs \<longrightarrow> mset (nth_element n txs) = mset txs \<and>
     (\<forall>a\<in>set (take n (nth_element n txs)). \<forall>b\<in>set (drop n (nth_element n txs)). \<not> tx_fee b > tx_fee a))"

definition selectBestByFee :: "nth_element \<Rightarrow> nat \<Rightarrow> txset \<Rightarrow> txset res" where
  "selectBestByFee nth_element n txs =
     (if n > length txs then Inl InvalidArgument else Inr (take n (nth_element n txs)))"

definition serialize_txset :: "ext \<Rightarrow> txset serializer" where
  "serialize_txset X = serialize_vector (serialize_tx X)"

definition deserialize_txset :: "ext \<Rightarrow> txset deserializer" where
  "deserialize_txset X ia = deserialize_vector (deserialize_tx X) ia"

text \<open>\<^verbatim>\<open>std::map::insert\<close> does nothing when the key is present.\<close>

definition std_map_insert :: "'k \<Rightarrow> 'v \<Rightarrow> ('k \<rightharpoonup> 'v) \<Rightarrow> ('k \<rightharpoonup> 'v)" where
  "std_map_insert k v m = (case m k of Some _ \<Rightarrow> m | None \<Rightarrow> m(k \<mapsto> v))"

definition tx_cost :: "transaction \<Rightarrow> balance res" where
  "tx_cost tx = u256_add (tx_amount tx) (unat (tx_fee tx))"

fun calcCost_loop :: "txset \<Rightarrow> (address \<rightharpoonup> balance) \<Rightarrow> (address \<rightharpoonup> balance) res" where
  "calcCost_loop [] result = Inr result"
| "calcCost_loop (tx # txs) result =
     rbind (tx_cost tx) (\<lambda>c. calcCost_loop txs (std_map_insert (tx_from tx) c result))"

definition calcCost :: "txset \<Rightarrow> (address \<rightharpoonup> balance) res" where
  "calcCost txs = calcCost_loop txs (\<lambda>_. None)"

section \<open>The interface of a pool\<close>

definition no_dups :: "txset \<Rightarrow> bool" where
  "no_dups txs \<longleftrightarrow> sorted_wrt (\<lambda>a b. \<not> tx_eq a b) txs"

locale tx_pool =
  fixes inv :: "'s \<Rightarrow> bool"
    and mem :: "'s \<Rightarrow> 't \<Rightarrow> bool"
    and add :: "'t \<Rightarrow> 's \<Rightarrow> 's"
    and remove :: "'t \<Rightarrow> 's \<Rightarrow> 's"
    and same :: "'t \<Rightarrow> 't \<Rightarrow> bool"
  assumes inv_add: "inv s \<Longrightarrow> inv (add t s)"
    and inv_remove: "inv s \<Longrightarrow> inv (remove t s)"
    and mem_add: "inv s \<Longrightarrow> mem (add t s) u \<longleftrightarrow> same t u \<or> mem s u"
    and mem_remove: "inv s \<Longrightarrow> mem (remove t s) u \<longleftrightarrow> \<not> same t u \<and> mem s u"
begin

lemma inv_remove_all: "inv s \<Longrightarrow> inv (fold remove ts s)"
  by (induction ts arbitrary: s) (auto intro: inv_remove)

lemma mem_remove_all: "inv s \<Longrightarrow> mem (fold remove ts s) u \<longleftrightarrow> mem s u \<and> \<not> list_ex (\<lambda>t. same t u) ts"
  by (induction ts arbitrary: s) (auto simp: inv_remove mem_remove)

lemma inv_add_all: "inv s \<Longrightarrow> inv (fold add ts s)"
  by (induction ts arbitrary: s) (auto intro: inv_add)

lemma mem_add_all: "inv s \<Longrightarrow> mem (fold add ts s) u \<longleftrightarrow> mem s u \<or> list_ex (\<lambda>t. same t u) ts"
  by (induction ts arbitrary: s) (auto simp: inv_add mem_add)

end

section \<open>The vector implements the pool\<close>

lemma txset_find_cong: "tx_eq t u \<Longrightarrow> txset_find txs t \<longleftrightarrow> txset_find txs u"
  unfolding txset_find_def list_ex_iff by (meson tx_eq_sym tx_eq_trans)

lemma txset_find_mset: "mset a = mset b \<Longrightarrow> txset_find a t \<longleftrightarrow> txset_find b t"
  unfolding txset_find_def list_ex_iff by (metis mset_eq_setD)

lemma no_dups_append:
  "no_dups (a @ b) \<longleftrightarrow> no_dups a \<and> no_dups b \<and> (\<forall>x\<in>set a. \<forall>y\<in>set b. \<not> tx_eq x y)"
  by (simp add: no_dups_def sorted_wrt_append)

lemma no_dups_mset: "mset a = mset b \<Longrightarrow> no_dups a \<Longrightarrow> no_dups b"
proof (induction a arbitrary: b)
  case (Cons x a)
  then obtain p q where b: "b = p @ x # q" by (metis list.set_intros(1) mset_eq_setD split_list)
  with Cons.prems have "mset a = mset (p @ q)" by simp
  moreover from Cons.prems have "no_dups a" and "\<forall>y\<in>set a. \<not> tx_eq x y" by (auto simp: no_dups_def)
  moreover from \<open>mset a = mset (p @ q)\<close> have "set a = set p \<union> set q" by (metis mset_eq_setD set_append)
  ultimately have "no_dups (p @ q)" and "\<forall>y\<in>set p \<union> set q. \<not> tx_eq x y"
    using Cons.IH by auto
  then show ?case unfolding b no_dups_def sorted_wrt_append by (auto dest: tx_eq_sym)
qed simp

text \<open>Removal drops the first equal element; the order of the others may change.\<close>

lemma mset_txset_remove:
  "txs = a @ x # b \<Longrightarrow> tx_eq x tx \<Longrightarrow> \<forall>t\<in>set a. \<not> tx_eq t tx \<Longrightarrow> mset (txset_remove tx txs) = mset (a @ b)"
proof -
  assume *: "txs = a @ x # b" "tx_eq x tx" "\<forall>t\<in>set a. \<not> tx_eq t tx"
  then have i: "takeWhile (\<lambda>t. \<not> tx_eq t tx) txs = a" by (simp add: takeWhile_append2)
  show ?thesis
  proof (cases b rule: rev_cases)
    case Nil
    with * i show ?thesis by (simp add: txset_remove_def)
  next
    case (snoc b' y)
    with * i have "txset_remove tx txs = a @ y # b'"
      by (simp add: txset_remove_def Let_def nth_append list_update_append butlast_append)
    with snoc show ?thesis by simp
  qed
qed

lemma txset_remove_absent: "\<not> txset_find txs tx \<Longrightarrow> txset_remove tx txs = txs"
proof -
  assume "\<not> txset_find txs tx"
  then have "takeWhile (\<lambda>t. \<not> tx_eq t tx) txs = txs"
    unfolding txset_find_def list_ex_iff takeWhile_eq_all_conv by blast
  then show ?thesis by (simp only: txset_remove_def Let_def simp_thms if_True)
qed

lemma txset_find_split:
  "txset_find txs tx \<Longrightarrow> \<exists>a x b. txs = a @ x # b \<and> tx_eq x tx \<and> (\<forall>t\<in>set a. \<not> tx_eq t tx)"
  unfolding txset_find_def list_ex_iff using split_list_first_prop [of txs "\<lambda>t. tx_eq t tx"] by blast

lemma no_dups_txset_remove: "no_dups txs \<Longrightarrow> no_dups (txset_remove tx txs)"
proof (cases "txset_find txs tx")
  case True
  assume nd: "no_dups txs"
  from txset_find_split [OF True] obtain a x b
    where s: "txs = a @ x # b" "tx_eq x tx" "\<forall>t\<in>set a. \<not> tx_eq t tx" by blast
  from nd s have "no_dups (a @ b)" by (auto simp: no_dups_append) (simp add: no_dups_def)
  then show ?thesis using no_dups_mset [OF mset_txset_remove [OF s, symmetric]] by simp
qed (simp add: txset_remove_absent)

lemma txset_find_remove:
  assumes nd: "no_dups txs"
  shows "txset_find (txset_remove tx txs) u \<longleftrightarrow> \<not> tx_eq tx u \<and> txset_find txs u"
proof (cases "txset_find txs tx")
  case True
  from txset_find_split [OF True] obtain a x b
    where s: "txs = a @ x # b" "tx_eq x tx" "\<forall>t\<in>set a. \<not> tx_eq t tx" by blast
  have "txset_find (txset_remove tx txs) u \<longleftrightarrow> txset_find (a @ b) u"
    by (rule txset_find_mset [OF mset_txset_remove [OF s]])
  also have "\<dots> \<longleftrightarrow> \<not> tx_eq tx u \<and> txset_find txs u"
  proof -
    have "\<forall>t\<in>set (a @ b). \<not> tx_eq t x"
      using nd unfolding s(1) no_dups_def sorted_wrt_append by (auto dest: tx_eq_sym)
    then have "tx_eq tx u \<Longrightarrow> \<not> txset_find (a @ b) u"
      using s(2) unfolding txset_find_def list_ex_iff by (meson tx_eq_sym tx_eq_trans)
    moreover have "txset_find txs u \<longleftrightarrow> tx_eq x u \<or> txset_find (a @ b) u"
      by (auto simp: s(1) txset_find_def)
    moreover have "tx_eq x u \<longleftrightarrow> tx_eq tx u" using s(2) by (meson tx_eq_sym tx_eq_trans)
    ultimately show ?thesis by blast
  qed
  finally show ?thesis .
next
  case False
  then show ?thesis by (auto simp: txset_remove_absent dest: txset_find_cong)
qed

interpretation pool: tx_pool no_dups txset_find txset_add txset_remove tx_eq
proof
  fix s t u
  assume inv: "no_dups s"
  show "no_dups (txset_add t s)"
    using inv by (auto simp: txset_add_def no_dups_append txset_find_def list_ex_iff) (simp add: no_dups_def)
  show "no_dups (txset_remove t s)" using inv by (rule no_dups_txset_remove)
  show "txset_find (txset_add t s) u \<longleftrightarrow> tx_eq t u \<or> txset_find s u"
    using txset_find_cong [of t u s] by (auto simp: txset_add_def) (auto simp: txset_find_def)
  show "txset_find (txset_remove t s) u \<longleftrightarrow> \<not> tx_eq t u \<and> txset_find s u"
    using inv by (rule txset_find_remove)
qed

section \<open>Selection, cost and the wire format\<close>

lemma selectBestByFee_best:
  assumes "nth_element_ok nthe" and "n \<le> length txs"
  obtains sel rest where "selectBestByFee nthe n txs = Inr sel" and "length sel = n"
    and "mset sel + mset rest = mset txs" and "\<forall>a\<in>set sel. \<forall>b\<in>set rest. tx_fee b \<le> tx_fee a"
proof
  let ?p = "nthe n txs"
  have p: "mset ?p = mset txs" "\<forall>a\<in>set (take n ?p). \<forall>b\<in>set (drop n ?p). \<not> tx_fee b > tx_fee a"
    using assms unfolding nth_element_ok_def by blast+
  show "selectBestByFee nthe n txs = Inr (take n ?p)" using assms by (simp add: selectBestByFee_def)
  show "length (take n ?p) = n" using assms(2) mset_eq_length [OF p(1)] by simp
  show "mset (take n ?p) + mset (drop n ?p) = mset txs"
    using p(1) by (metis append_take_drop_id mset_append)
  show "\<forall>a\<in>set (take n ?p). \<forall>b\<in>set (drop n ?p). tx_fee b \<le> tx_fee a" using p(2) by (simp add: not_less)
qed

lemma no_dups_selectBestByFee:
  assumes "nth_element_ok nthe" and "no_dups txs" and "selectBestByFee nthe n txs = Inr sel"
  shows "no_dups sel"
proof -
  from assms(3) have n: "n \<le> length txs" and sel: "sel = take n (nthe n txs)"
    by (auto simp: selectBestByFee_def split: if_splits)
  have "mset txs = mset (nthe n txs)" using assms(1) n unfolding nth_element_ok_def by metis
  from no_dups_mset [OF this assms(2)] have "no_dups (take n (nthe n txs) @ drop n (nthe n txs))" by simp
  then show ?thesis unfolding sel no_dups_append by blast
qed

text \<open>Sorting by descending fee is one admissible arrangement.\<close>

definition nth_element_sort :: nth_element where
  "nth_element_sort n txs = sort_key (\<lambda>t. - int (unat (tx_fee t))) txs"

lemma nth_element_ok_sort: "nth_element_ok nth_element_sort"
  unfolding nth_element_ok_def
proof (intro allI impI conjI ballI)
  fix n txs a b
  show "mset (nth_element_sort n txs) = mset txs" by (simp add: nth_element_sort_def)
  let ?s = "nth_element_sort n txs" and ?k = "\<lambda>t. - int (unat (tx_fee t))"
  assume ab: "a \<in> set (take n ?s)" "b \<in> set (drop n ?s)"
  have "sorted (map ?k ?s)" by (simp add: nth_element_sort_def)
  then have "sorted (map ?k (take n ?s) @ map ?k (drop n ?s))"
    by (metis append_take_drop_id map_append)
  with ab have "?k a \<le> ?k b" unfolding sorted_append by auto
  then have "unat (tx_fee b) \<le> unat (tx_fee a)" by linarith
  then show "\<not> tx_fee b > tx_fee a" by (simp add: word_less_nat_alt not_less)
qed

lemma tx_cost_Inr: "tx_cost tx = Inr c \<longleftrightarrow> c = tx_amount tx + unat (tx_fee tx) \<and> c < 2 ^ 256"
  by (auto simp: tx_cost_def u256_add_def)

lemma calcCost_loop_first:
  "calcCost_loop txs m = Inr m' \<Longrightarrow>
     m' a = (case m a of Some c \<Rightarrow> Some c
             | None \<Rightarrow> map_option (\<lambda>t. tx_amount t + unat (tx_fee t)) (List.find (\<lambda>t. tx_from t = a) txs))"
  by (induction txs m arbitrary: m' rule: calcCost_loop.induct)
    (auto simp: rbind_eq_Inr tx_cost_Inr std_map_insert_def split: option.splits if_splits)

lemma calcCost_first:
  "calcCost txs = Inr m \<Longrightarrow>
     m a = map_option (\<lambda>t. tx_amount t + unat (tx_fee t)) (List.find (\<lambda>t. tx_from t = a) txs)"
  using calcCost_loop_first [of txs "\<lambda>_. None" m a] by (simp add: calcCost_def)

lemma calcCost_loop_total:
  "\<forall>t\<in>set txs. tx_amount t + unat (tx_fee t) < 2 ^ 256 \<Longrightarrow> \<exists>m'. calcCost_loop txs m = Inr m'"
  by (induction txs m rule: calcCost_loop.induct) (auto simp: tx_cost_def u256_add_def)

lemma codec_txset:
  "big_ok X \<Longrightarrow> codec (\<lambda>txs. length txs < 2 ^ 64 \<and> list_all wf_tx txs) (serialize_txset X) (deserialize_txset X)"
  using codec.codec_vector [OF codec_tx] by (simp add: serialize_txset_def deserialize_txset_def [abs_def])

section \<open>Properties\<close>

text \<open>
  C25: the pool of transactions: adding makes a transaction found and keeps the others, removing
  makes it and nothing else not found, and neither ever introduces a repetition.
\<close>

theorem pool_operations:
  assumes "no_dups txs"
  shows "no_dups (txset_add t txs) \<and> no_dups (txset_remove t txs)
    \<and> (txset_find (txset_add t txs) u \<longleftrightarrow> tx_eq t u \<or> txset_find txs u)
    \<and> (txset_find (txset_remove_set ts txs) u \<longleftrightarrow> txset_find txs u \<and> \<not> list_ex (\<lambda>t. tx_eq t u) ts)"
  using pool.inv_add [OF assms] pool.inv_remove [OF assms] pool.mem_add [OF assms] pool.mem_remove_all [OF assms]
  by (simp add: txset_remove_set_def)

theorem pool_operations_witness:
  "no_dups [invalidTransaction] \<and> \<not> txset_find (txset_remove_set [invalidTransaction] [invalidTransaction]) invalidTransaction"
  using pool_operations [of "[invalidTransaction]" _ invalidTransaction "[invalidTransaction]"] by (simp add: no_dups_def)

text \<open>
  Selecting the best transactions by fee returns exactly the requested number, takes them
  from the set without repeating any, and leaves none behind with a higher fee; asking for more
  than there are is an error.
\<close>

theorem selectBestByFee_correct:
  assumes "nth_element_ok nthe"
  shows "case selectBestByFee nthe n txs of
      Inl e \<Rightarrow> e = InvalidArgument \<and> length txs < n
    | Inr sel \<Rightarrow> length sel = n \<and> (\<exists>rest. mset sel + mset rest = mset txs
        \<and> (\<forall>a\<in>set sel. \<forall>b\<in>set rest. tx_fee b \<le> tx_fee a))"
proof (cases "n \<le> length txs")
  case True
  then obtain sel rest where "selectBestByFee nthe n txs = Inr sel" "length sel = n"
    "mset sel + mset rest = mset txs" "\<forall>a\<in>set sel. \<forall>b\<in>set rest. tx_fee b \<le> tx_fee a"
    using selectBestByFee_best [OF assms] by blast
  then show ?thesis by auto
qed (simp add: selectBestByFee_def)

theorem selectBestByFee_correct_witness:
  "case selectBestByFee nth_element_sort 1 [invalidTransaction, invalidTransaction\<lparr>tx_fee := 5\<rparr>] of
      Inl e \<Rightarrow> False | Inr sel \<Rightarrow> sel = [invalidTransaction\<lparr>tx_fee := 5\<rparr>] \<and> length sel = 1"
  using selectBestByFee_correct [OF nth_element_ok_sort, of "[invalidTransaction, invalidTransaction\<lparr>tx_fee := 5\<rparr>]" 1]
  by (simp add: selectBestByFee_def nth_element_sort_def invalidTransaction_def)

text \<open>
  The cost table counts only the first transaction of each sender: every later transaction
  of the same sender leaves it unchanged.
\<close>

theorem calcCost_counts_first_only:
  assumes "tx_from t = tx_from u" and "calcCost (t # txs) = Inr m" and "calcCost (t # u # txs) = Inr m'"
  shows "m' = m \<and> m (tx_from t) = Some (tx_amount t + unat (tx_fee t))"
proof
  show "m' = m"
  proof
    fix a
    show "m' a = m a" using calcCost_first [OF assms(2), of a] calcCost_first [OF assms(3), of a] assms(1) by auto
  qed
  show "m (tx_from t) = Some (tx_amount t + unat (tx_fee t))" using calcCost_first [OF assms(2), of "tx_from t"] by simp
qed

theorem calcCost_counts_first_only_witness:
  "\<exists>m. calcCost [invalidTransaction, invalidTransaction\<lparr>tx_amount := 10\<rparr>] = Inr m \<and> m address_null = Some 1"
  using calcCost_counts_first_only [of invalidTransaction "invalidTransaction\<lparr>tx_amount := 10\<rparr>" "[]"]
  by (simp add: calcCost_def tx_cost_def u256_add_def std_map_insert_def invalidTransaction_def)

end
