(* ===== verification/Block.thy ===== *)
theory Block
  imports TransactionsSet
begin

text \<open>
  Blocks and their builder: \<^verbatim>\<open>src/core/block.{hpp,cpp}\<close>. A \<^verbatim>\<open>MutableBlock\<close> has the six fields of the
  wire format; an \<^verbatim>\<open>ImmutableBlock\<close> extends it by the hash of its own serialization, computed by
  the constructor. \<^verbatim>\<open>BlockFieldsView\<close>, which reads the common fields of either class, is the
  polymorphism of the extensible record.
\<close>

type_synonym depth = "64 word"
type_synonym nonce = "64 word"

section \<open>Blocks\<close>

record mblock =
  blk_depth :: depth
  blk_nonce :: nonce
  blk_prev_block_hash :: sha256
  blk_timestamp :: time
  blk_coinbase :: address
  blk_txs :: txset

record iblock = mblock +
  blk_this_block_hash :: sha256

definition serialize_mblock :: "ext \<Rightarrow> 'z mblock_scheme \<Rightarrow> oarchive \<Rightarrow> oarchive" where
  "serialize_mblock X b oa =
     serialize_txset X (blk_txs b) (serialize_address (blk_coinbase b) (serialize_time (blk_timestamp b)
       (serialize_sha256 (blk_prev_block_hash b) (serialize_u64 (blk_nonce b) (serialize_u64 (blk_depth b) oa)))))"

definition mk_MutableBlock :: "depth \<Rightarrow> nonce \<Rightarrow> sha256 \<Rightarrow> time \<Rightarrow> address \<Rightarrow> txset \<Rightarrow> mblock" where
  "mk_MutableBlock depth nonce prev_block_hash timestamp coinbase txs =
     \<lparr>blk_depth = depth, blk_nonce = nonce, blk_prev_block_hash = prev_block_hash,
      blk_timestamp = timestamp, blk_coinbase = coinbase, blk_txs = txs\<rparr>"

definition computeThisBlockHash :: "ext \<Rightarrow> 'z mblock_scheme \<Rightarrow> sha256" where
  "computeThisBlockHash X b = sha256_compute X (serialize_mblock X b [])"

definition mk_ImmutableBlock :: "ext \<Rightarrow> depth \<Rightarrow> nonce \<Rightarrow> sha256 \<Rightarrow> time \<Rightarrow> address \<Rightarrow> txset \<Rightarrow> iblock" where
  "mk_ImmutableBlock X depth nonce prev_block_hash timestamp coinbase txs =
     mblock.extend (mk_MutableBlock depth nonce prev_block_hash timestamp coinbase txs)
       \<lparr>blk_this_block_hash = computeThisBlockHash X
          (mk_MutableBlock depth nonce prev_block_hash timestamp coinbase txs)\<rparr>"

definition serialize_iblock :: "ext \<Rightarrow> iblock serializer" where
  "serialize_iblock X b = serialize_mblock X b"

definition deserialize_mblock :: "ext \<Rightarrow> mblock deserializer" where
  "deserialize_mblock X ia =
     rbind (deserialize_u64 ia) (\<lambda>(depth, ia).
     rbind (deserialize_u64 ia) (\<lambda>(nonce, ia).
     rbind (deserialize_sha256 ia) (\<lambda>(prev_block_hash, ia).
     rbind (deserialize_time ia) (\<lambda>(timestamp, ia).
     rbind (deserialize_address ia) (\<lambda>(coinbase, ia).
     rbind (deserialize_txset X ia) (\<lambda>(txs, ia).
     Inr (mk_MutableBlock depth nonce prev_block_hash timestamp coinbase txs, ia)))))))"

definition deserialize_iblock :: "ext \<Rightarrow> iblock deserializer" where
  "deserialize_iblock X ia =
     rbind (deserialize_u64 ia) (\<lambda>(depth, ia).
     rbind (deserialize_u64 ia) (\<lambda>(nonce, ia).
     rbind (deserialize_sha256 ia) (\<lambda>(prev_block_hash, ia).
     rbind (deserialize_time ia) (\<lambda>(timestamp, ia).
     rbind (deserialize_address ia) (\<lambda>(coinbase, ia).
     rbind (deserialize_txset X ia) (\<lambda>(txs, ia).
     Inr (mk_ImmutableBlock X depth nonce prev_block_hash timestamp coinbase txs, ia)))))))"

definition block_eq :: "'z mblock_scheme \<Rightarrow> 'z mblock_scheme \<Rightarrow> bool" where
  "block_eq a b \<longleftrightarrow> blk_depth a = blk_depth b \<and> blk_nonce a = blk_nonce b
     \<and> blk_prev_block_hash a = blk_prev_block_hash b \<and> blk_timestamp a = blk_timestamp b
     \<and> blk_coinbase a = blk_coinbase b \<and> txset_eq (blk_txs a) (blk_txs b)"

definition mblock_setNonce :: "nonce \<Rightarrow> mblock \<Rightarrow> mblock" where
  "mblock_setNonce nonce b = b\<lparr>blk_nonce := nonce\<rparr>"

definition mblock_setDepth :: "depth \<Rightarrow> mblock \<Rightarrow> mblock" where
  "mblock_setDepth depth b = b\<lparr>blk_depth := depth\<rparr>"

definition mblock_setPrevBlockHash :: "sha256 \<Rightarrow> mblock \<Rightarrow> mblock" where
  "mblock_setPrevBlockHash prev_block_hash b = b\<lparr>blk_prev_block_hash := prev_block_hash\<rparr>"

definition mblock_setTimestamp :: "time \<Rightarrow> mblock \<Rightarrow> mblock" where
  "mblock_setTimestamp timestamp b = b\<lparr>blk_timestamp := timestamp\<rparr>"

definition mblock_setTransactions :: "txset \<Rightarrow> mblock \<Rightarrow> mblock" where
  "mblock_setTransactions txs b = b\<lparr>blk_txs := txs\<rparr>"

definition mblock_addTransaction :: "transaction \<Rightarrow> mblock \<Rightarrow> mblock" where
  "mblock_addTransaction tx b = b\<lparr>blk_txs := txset_add tx (blk_txs b)\<rparr>"

section \<open>The builder\<close>

record block_builder =
  bb_depth :: "depth option"
  bb_nonce :: "nonce option"
  bb_prev_block_hash :: "sha256 option"
  bb_timestamp :: "time option"
  bb_coinbase :: "address option"
  bb_txs :: "txset option"

definition builder_null :: block_builder where
  "builder_null = \<lparr>bb_depth = None, bb_nonce = None, bb_prev_block_hash = None, bb_timestamp = None,
     bb_coinbase = None, bb_txs = None\<rparr>"

definition bb_setDepth :: "depth \<Rightarrow> block_builder \<Rightarrow> block_builder" where
  "bb_setDepth depth b = b\<lparr>bb_depth := Some depth\<rparr>"

definition bb_setNonce :: "nonce \<Rightarrow> block_builder \<Rightarrow> block_builder" where
  "bb_setNonce nonce b = b\<lparr>bb_nonce := Some nonce\<rparr>"

definition bb_setPrevBlockHash :: "sha256 \<Rightarrow> block_builder \<Rightarrow> block_builder" where
  "bb_setPrevBlockHash hash b = b\<lparr>bb_prev_block_hash := Some hash\<rparr>"

definition bb_setTimestamp :: "time \<Rightarrow> block_builder \<Rightarrow> block_builder" where
  "bb_setTimestamp timestamp b = b\<lparr>bb_timestamp := Some timestamp\<rparr>"

definition bb_setCoinbase :: "address \<Rightarrow> block_builder \<Rightarrow> block_builder" where
  "bb_setCoinbase address b = b\<lparr>bb_coinbase := Some address\<rparr>"

definition bb_setTransactionsSet :: "txset \<Rightarrow> block_builder \<Rightarrow> block_builder" where
  "bb_setTransactionsSet txs b = b\<lparr>bb_txs := Some txs\<rparr>"

definition initFromBlock :: "'z mblock_scheme \<Rightarrow> block_builder \<Rightarrow> block_builder" where
  "initFromBlock b bb =
     bb_setTransactionsSet (blk_txs b) (bb_setCoinbase (blk_coinbase b) (bb_setTimestamp (blk_timestamp b)
       (bb_setPrevBlockHash (blk_prev_block_hash b) (bb_setNonce (blk_nonce b) (bb_setDepth (blk_depth b) bb)))))"

definition raiseIfNotEverythingIsSet :: "block_builder \<Rightarrow> unit res" where
  "raiseIfNotEverythingIsSet b =
     (if \<not> (bb_depth b \<noteq> None \<and> bb_nonce b \<noteq> None \<and> bb_prev_block_hash b \<noteq> None \<and>
            bb_timestamp b \<noteq> None \<and> bb_coinbase b \<noteq> None \<and> bb_txs b \<noteq> None)
      then Inl UseOfUninitializedValue else Inr ())"

definition buildMutable :: "block_builder \<Rightarrow> mblock res" where
  "buildMutable b = rbind (raiseIfNotEverythingIsSet b) (\<lambda>_.
     Inr (mk_MutableBlock (the (bb_depth b)) (the (bb_nonce b)) (the (bb_prev_block_hash b))
            (the (bb_timestamp b)) (the (bb_coinbase b)) (the (bb_txs b))))"

definition buildImmutable :: "ext \<Rightarrow> block_builder \<Rightarrow> iblock res" where
  "buildImmutable X b = rbind (raiseIfNotEverythingIsSet b) (\<lambda>_.
     Inr (mk_ImmutableBlock X (the (bb_depth b)) (the (bb_nonce b)) (the (bb_prev_block_hash b))
            (the (bb_timestamp b)) (the (bb_coinbase b)) (the (bb_txs b))))"

section \<open>Well-formed blocks\<close>

definition wf_mblock :: "'z mblock_scheme \<Rightarrow> bool" where
  "wf_mblock b \<longleftrightarrow> length (blk_prev_block_hash b) = 32 \<and> wf_address (blk_coinbase b)
     \<and> length (blk_txs b) < 2 ^ 64 \<and> list_all wf_tx (blk_txs b)"

text \<open>The class invariant of an immutable block: the cached hash is the hash of the fields.\<close>

definition wf_iblock :: "ext \<Rightarrow> iblock \<Rightarrow> bool" where
  "wf_iblock X b \<longleftrightarrow> wf_mblock b \<and> blk_this_block_hash b = computeThisBlockHash X b"

lemma serialize_mblock_truncate: "serialize_mblock X (mblock.truncate b) oa = serialize_mblock X b oa"
  by (simp add: serialize_mblock_def mblock.truncate_def)

lemma mk_MutableBlock_fields:
  "mk_MutableBlock (blk_depth b) (blk_nonce b) (blk_prev_block_hash b) (blk_timestamp b)
     (blk_coinbase b) (blk_txs b) = mblock.truncate b"
  by (simp add: mk_MutableBlock_def mblock.truncate_def)

lemma computeThisBlockHash_truncate:
  "computeThisBlockHash X (mblock.truncate b) = computeThisBlockHash X b"
  by (simp add: computeThisBlockHash_def serialize_mblock_truncate)

lemma mk_ImmutableBlock_sel [simp]:
  "blk_depth (mk_ImmutableBlock X d n p t c txs) = d"
  "blk_nonce (mk_ImmutableBlock X d n p t c txs) = n"
  "blk_prev_block_hash (mk_ImmutableBlock X d n p t c txs) = p"
  "blk_timestamp (mk_ImmutableBlock X d n p t c txs) = t"
  "blk_coinbase (mk_ImmutableBlock X d n p t c txs) = c"
  "blk_txs (mk_ImmutableBlock X d n p t c txs) = txs"
  "blk_this_block_hash (mk_ImmutableBlock X d n p t c txs) = computeThisBlockHash X (mk_MutableBlock d n p t c txs)"
  by (simp_all add: mk_ImmutableBlock_def mk_MutableBlock_def mblock.extend_def)

lemma computeThisBlockHash_fields:
  "computeThisBlockHash X (mk_ImmutableBlock X d n p t c txs) = computeThisBlockHash X (mk_MutableBlock d n p t c txs)"
  by (simp add: computeThisBlockHash_def serialize_mblock_def mk_MutableBlock_def)

lemma mk_ImmutableBlock_fields:
  "blk_this_block_hash b = computeThisBlockHash X b \<Longrightarrow>
   mk_ImmutableBlock X (blk_depth b) (blk_nonce b) (blk_prev_block_hash b) (blk_timestamp b)
     (blk_coinbase b) (blk_txs b) = b"
  by (rule iblock.equality)
    (simp_all add: mk_MutableBlock_fields computeThisBlockHash_truncate)

lemma length_blk_hash: "hash_ok X \<Longrightarrow> wf_iblock X b \<Longrightarrow> length (blk_this_block_hash b) = 32"
  by (simp add: wf_iblock_def computeThisBlockHash_def)

lemmas block_field_out = u64.ser_out sha256_io.ser_out time_io.ser_out address_io.ser_out
lemmas block_field_in = u64.deser_ser sha256_io.deser_ser time_io.deser_ser address_io.deser_ser

lemma serialize_mblock_append:
  assumes "big_ok X"
  shows "serialize_mblock X b oa = oa @ serialize_mblock X b []"
  by (simp add: serialize_mblock_def block_field_out codec.ser_out [OF codec_txset [OF assms]])

lemma codec_mblock:
  assumes "big_ok X"
  shows "codec wf_mblock (serialize_mblock X) (deserialize_mblock X)"
proof
  fix b oa
  show "serialize_mblock X b oa = oa @ serialize_mblock X b []" by (rule serialize_mblock_append [OF assms])
next
  note txs = codec.ser_out [OF codec_txset [OF assms]] codec.deser_ser [OF codec_txset [OF assms]]
  fix b :: mblock and pre post
  assume "wf_mblock b"
  then show "deserialize_mblock X (arch pre (serialize_mblock X b [] @ post))
      = Inr (b, arch (pre @ serialize_mblock X b []) post)"
    by (simp add: wf_mblock_def serialize_mblock_def deserialize_mblock_def block_field_out block_field_in txs
        mk_MutableBlock_def)
qed

lemma codec_iblock:
  assumes "big_ok X"
  shows "codec (wf_iblock X) (serialize_iblock X) (deserialize_iblock X)"
proof
  fix b oa
  show "serialize_iblock X b oa = oa @ serialize_iblock X b []"
    unfolding serialize_iblock_def by (rule serialize_mblock_append [OF assms])
next
  note txs = codec.ser_out [OF codec_txset [OF assms]] codec.deser_ser [OF codec_txset [OF assms]]
  fix b :: iblock and pre post
  assume "wf_iblock X b"
  then show "deserialize_iblock X (arch pre (serialize_iblock X b [] @ post))
      = Inr (b, arch (pre @ serialize_iblock X b []) post)"
    by (simp add: wf_iblock_def wf_mblock_def serialize_iblock_def serialize_mblock_def deserialize_iblock_def
        block_field_out block_field_in txs mk_ImmutableBlock_fields)
qed

lemma wf_iblock_mk:
  "wf_iblock X (mk_ImmutableBlock X d n p t c txs) \<longleftrightarrow>
     length p = 32 \<and> wf_address c \<and> length txs < 2 ^ 64 \<and> list_all wf_tx txs"
  by (simp add: wf_iblock_def wf_mblock_def computeThisBlockHash_fields)

text \<open>Copying a block through a builder gives the block back.\<close>

lemma buildMutable_initFromBlock: "buildMutable (initFromBlock b bb) = Inr (mblock.truncate b)"
  by (simp add: buildMutable_def raiseIfNotEverythingIsSet_def initFromBlock_def bb_setDepth_def bb_setNonce_def
      bb_setPrevBlockHash_def bb_setTimestamp_def bb_setCoinbase_def bb_setTransactionsSet_def mk_MutableBlock_fields)

lemma buildImmutable_initFromBlock: "wf_iblock X b \<Longrightarrow> buildImmutable X (initFromBlock b bb) = Inr b"
  by (simp add: buildImmutable_def raiseIfNotEverythingIsSet_def initFromBlock_def bb_setDepth_def bb_setNonce_def
      bb_setPrevBlockHash_def bb_setTimestamp_def bb_setCoinbase_def bb_setTransactionsSet_def
      wf_iblock_def mk_ImmutableBlock_fields)

lemma block_eq_hash:
  "block_eq a b \<Longrightarrow> map tx_sign (blk_txs a) = map tx_sign (blk_txs b) \<Longrightarrow>
     computeThisBlockHash X a = computeThisBlockHash X b"
proof -
  assume eq: "block_eq a b" and sg: "map tx_sign (blk_txs a) = map tx_sign (blk_txs b)"
  have "list_all2 tx_eq (blk_txs a) (blk_txs b)" using eq by (simp add: block_eq_def txset_eq_def)
  then have "blk_txs a = blk_txs b" using sg
    by (induction rule: list_all2_induct) (auto dest: tx_eq_same_sign)
  with eq show ?thesis by (simp add: block_eq_def computeThisBlockHash_def serialize_mblock_def)
qed

section \<open>Properties\<close>

text \<open>
  A block that its constructor produced from well-formed fields survives serialization with
  its hash: the reader recomputes the same hash from the same bytes.
\<close>

theorem block_roundtrip:
  assumes "big_ok X" and "length p = 32" and "wf_address c" and "length txs < 2 ^ 64" and "list_all wf_tx txs"
  shows "fromBytes (deserialize_iblock X) (toBytes (serialize_iblock X) (mk_ImmutableBlock X d n p t c txs))
    = Inr (mk_ImmutableBlock X d n p t c txs)"
  by (rule codec.roundtrip [OF codec_iblock [OF assms(1)]]) (use assms(2-) in \<open>simp add: wf_iblock_mk\<close>)

theorem block_roundtrip_witness:
  "fromBytes (deserialize_iblock demo_ext) (toBytes (serialize_iblock demo_ext)
     (mk_ImmutableBlock demo_ext 1 7 sha256_null 9 address_null [invalidTransaction]))
   = Inr (mk_ImmutableBlock demo_ext 1 7 sha256_null 9 address_null [invalidTransaction])"
  using block_roundtrip [OF demo_ext_ok(2), of sha256_null address_null "[invalidTransaction]" 1 7 9]
  by (simp add: sha256_null_def)

end
