(* ===== verification/Consensus.thy ===== *)
theory Consensus
  imports Complex_Main Block
begin

text \<open>
  Proof of work: the classes \<^verbatim>\<open>Complexity\<close> and \<^verbatim>\<open>Consensus\<close> of \<^verbatim>\<open>src/core/consensus.{hpp,cpp}\<close> with the
  constants of \<^verbatim>\<open>src/base/config.hpp\<close>. The target is a 256-bit number kept together with its 32
  big-endian bytes; a block is accepted when the bytes of its hash are not above them. The
  retargeting arithmetic on \<^verbatim>\<open>double\<close> is done in the rationals: with the constants at hand the only
  quotients that round half-way are 80/120 and 180/120, for which the doubles round alike.
\<close>

section \<open>Constants\<close>

definition BC_MAX_TRANSACTIONS_IN_BLOCK :: nat where
  "BC_MAX_TRANSACTIONS_IN_BLOCK = 100"

definition BC_TARGET_BLOCKS_PER_MINUTE :: nat where
  "BC_TARGET_BLOCKS_PER_MINUTE = 1"

definition BC_DIFFICULTY_RECALCULATION_RATE :: nat where
  "BC_DIFFICULTY_RECALCULATION_RATE = 2"

definition BC_EMISSION_VALUE :: nat where
  "BC_EMISSION_VALUE = 1000"

section \<open>Complexity\<close>

record complexity =
  cx_densed :: nat
  cx_comparer :: bytes

text \<open>The loop writes the base-256 digits from the last byte on; index 0 means a write before the array.\<close>

function calcComparer_loop :: "nat \<Rightarrow> nat \<Rightarrow> bytes \<Rightarrow> bytes res" where
  "calcComparer_loop d index ret =
     (if d > 0 then
        (if index = 0 then Inl OutOfBounds
         else calcComparer_loop (d div 256) (index - 1) (ret[index - 1 := of_nat (d mod 256)]))
      else Inr ret)"
  by pat_completeness auto
termination
  by (relation "measure (\<lambda>(d, index, ret). d)") auto

declare calcComparer_loop.simps [simp del]

definition calcComparer :: "nat \<Rightarrow> bytes res" where
  "calcComparer densed = calcComparer_loop densed 32 (replicate 32 0)"

definition mk_Complexity :: "nat \<Rightarrow> complexity res" where
  "mk_Complexity densed = rbind (calcComparer densed) (\<lambda>c. Inr \<lparr>cx_densed = densed, cx_comparer = c\<rparr>)"

definition complexity_minimal :: "complexity res" where
  "complexity_minimal = rbind (u256_add (2 ^ 252) (2 ^ 251)) mk_Complexity"

section \<open>Consensus\<close>

record consensus =
  con_last_blocks :: "iblock list"
  con_complexity :: complexity

definition mk_Consensus :: "consensus res" where
  "mk_Consensus = rbind (mk_Complexity (2 ^ 256 - 1)) (\<lambda>c. Inr \<lparr>con_last_blocks = [], con_complexity = c\<rparr>)"

definition checkBlock :: "consensus \<Rightarrow> iblock \<Rightarrow> bool" where
  "checkBlock c block = bytes_le (blk_this_block_hash block) (cx_comparer (con_complexity c))"

text \<open>\<^verbatim>\<open>std::round\<close> of a non-negative number: halves are rounded up.\<close>

definition std_round :: "rat \<Rightarrow> nat" where
  "std_round x = nat \<lfloor>x + 1 / 2\<rfloor>"

definition std_clamp :: "nat \<Rightarrow> nat \<Rightarrow> nat \<Rightarrow> nat" where
  "std_clamp v lo hi = (if v < lo then lo else if hi < v then hi else v)"

definition TARGET :: nat where
  "TARGET = BC_DIFFICULTY_RECALCULATION_RATE * 60 div BC_TARGET_BLOCKS_PER_MINUTE"

text \<open>The new target for a measured interval: division of 256-bit integers by zero throws.\<close>

definition retarget :: "nat \<Rightarrow> nat \<Rightarrow> nat res" where
  "retarget elapsed densed =
     (let r = rat_of_nat elapsed / rat_of_nat TARGET; rate = BC_DIFFICULTY_RECALCULATION_RATE in
      if r < 1 then
        (let r' = max r (1 / rat_of_nat rate);
             m = std_clamp (std_round (1 / r')) 1 rate
         in Inr (densed div m))
      else if densed = 0 then Inl StdOverflowError
      else
        (let r' = min r (rat_of_nat rate);
             limit = min ((2 ^ 256 - 1) div densed) rate;
             mult = std_clamp (std_round r') 0 limit
         in u256_mul densed mult))"

definition skips_recalculation :: "depth \<Rightarrow> bool" where
  "skips_recalculation depth \<longleftrightarrow> depth \<noteq> 0 \<and> (depth - 1) mod of_nat BC_DIFFICULTY_RECALCULATION_RATE \<noteq> 0"

definition applyBlock :: "consensus \<Rightarrow> iblock \<Rightarrow> consensus res" where
  "applyBlock c block =
     (let blocks = con_last_blocks c @ [block]; rate = BC_DIFFICULTY_RECALCULATION_RATE in
      if length blocks < rate then Inr (c\<lparr>con_last_blocks := blocks\<rparr>)
      else
        (let blocks' = (if length blocks > rate then tl blocks else blocks);
             c' = c\<lparr>con_last_blocks := blocks'\<rparr>
         in if skips_recalculation (blk_depth block) then Inr c'
            else rbind (time_minus (blk_timestamp block) (blk_timestamp (hd blocks'))) (\<lambda>elapsed.
                   assert_that (elapsed \<noteq> 0)
                    (rbind (retarget (unat elapsed) (cx_densed (con_complexity c))) (\<lambda>densed.
                     rbind (mk_Complexity densed) (\<lambda>cx. Inr (c'\<lparr>con_complexity := cx\<rparr>)))))))"

section \<open>The bytes of the target\<close>

lemma calcComparer_loop_value:
  assumes "d < 256 ^ index" and "index \<le> length ret" and "\<forall>i<index. ret ! i = 0"
  shows "\<exists>ret'. calcComparer_loop d index ret = Inr ret' \<and> length ret' = length ret \<and>
           drop index ret' = drop index ret \<and> nat_of_bytes (take index ret') = d"
  using assms
proof (induction d index ret rule: calcComparer_loop.induct)
  case (1 d index ret)
  show ?case
  proof (cases "d = 0")
    case True
    have "take index ret = replicate index 0"
      using 1(3,4) by (auto simp: list_eq_iff_nth_eq)
    moreover have "nat_of_bytes (replicate index 0) = 0"
      by (simp add: nat_of_bytes_def val_be_eq_0_iff)
    ultimately show ?thesis using True by (simp add: calcComparer_loop.simps)
  next
    case False
    with 1(2) obtain i where i: "index = Suc i" by (cases index) auto
    let ?ret = "ret[i := of_nat (d mod 256)]"
    have "d div 256 < 256 ^ i" using 1(2) by (simp add: i div_less_iff_less_mult mult.commute)
    then obtain ret' where r: "calcComparer_loop (d div 256) i ?ret = Inr ret'" "length ret' = length ret"
      "drop i ret' = drop i ?ret" "nat_of_bytes (take i ret') = d div 256"
      using 1(1) False 1(3,4) i by auto
    have len: "i < length ret" using 1(3) i by simp
    have "ret' ! i = of_nat (d mod 256)"
      using r(3) len r(2) by (metis Cons_nth_drop_Suc length_list_update list.inject nth_list_update_eq)
    then have "take (Suc i) ret' = take i ret' @ [of_nat (d mod 256)]"
      using len r(2) by (simp add: take_Suc_conv_app_nth)
    then have "nat_of_bytes (take (Suc i) ret') = d"
      using r(4) by (simp add: nat_of_bytes_def unat_of_nat)
    moreover have "drop (Suc i) ret' = drop (Suc i) ret"
      using r(3) by (metis drop_Suc drop_update_cancel lessI tl_drop)
    ultimately show ?thesis
      using r(1,2) False i by (simp add: calcComparer_loop.simps [of d])
  qed
qed

lemma mk_Complexity_value:
  assumes "d < 2 ^ 256"
  shows "\<exists>c. mk_Complexity d = Inr \<lparr>cx_densed = d, cx_comparer = c\<rparr> \<and> length c = 32 \<and> nat_of_bytes c = d"
proof -
  have "d < 256 ^ 32" using assms by simp
  from calcComparer_loop_value [OF this, of "replicate 32 0"]
  show ?thesis by (auto simp: mk_Complexity_def calcComparer_def)
qed

definition wf_complexity :: "complexity \<Rightarrow> bool" where
  "wf_complexity c \<longleftrightarrow> cx_densed c < 2 ^ 256 \<and> length (cx_comparer c) = 32 \<and> nat_of_bytes (cx_comparer c) = cx_densed c"

lemma wf_mk_Complexity: "d < 2 ^ 256 \<Longrightarrow> \<exists>c. mk_Complexity d = Inr c \<and> wf_complexity c \<and> cx_densed c = d"
  using mk_Complexity_value [of d] by (auto simp: wf_complexity_def)

lemma checkBlock_numeric:
  assumes "wf_complexity (con_complexity c)" and "length (blk_this_block_hash b) = 32"
  shows "checkBlock c b \<longleftrightarrow> nat_of_bytes (blk_this_block_hash b) \<le> cx_densed (con_complexity c)"
  using assms by (simp add: checkBlock_def wf_complexity_def bytes_le_iff_nat_of_bytes)

section \<open>Retargeting\<close>

lemma std_clamp_bounds: "lo \<le> hi \<Longrightarrow> lo \<le> std_clamp v lo hi \<and> std_clamp v lo hi \<le> hi"
  by (simp add: std_clamp_def)

lemma std_clamp_id: "lo \<le> v \<Longrightarrow> v \<le> hi \<Longrightarrow> std_clamp v lo hi = v"
  by (simp add: std_clamp_def)

lemma TARGET_eq [simp]: "TARGET = 120"
  by (simp add: TARGET_def BC_DIFFICULTY_RECALCULATION_RATE_def BC_TARGET_BLOCKS_PER_MINUTE_def)

lemma std_round_le: "x \<le> of_nat n \<Longrightarrow> std_round x \<le> n"
  unfolding std_round_def by (simp add: floor_le_iff nat_le_iff)

lemma std_round_ge: "of_nat n \<le> x \<Longrightarrow> n \<le> std_round x"
  unfolding std_round_def by (simp add: le_nat_iff le_floor_iff)

text \<open>The three regimes: quicker than 80 seconds halves the target, slower than 180 doubles it.\<close>

lemma std_round_2: "3 / 2 \<le> x \<Longrightarrow> x \<le> 2 \<Longrightarrow> std_round x = 2"
  unfolding std_round_def by (simp add: floor_eq_iff nat_eq_iff)

lemma std_round_1: "1 \<le> x \<Longrightarrow> x < 3 / 2 \<Longrightarrow> std_round x = 1"
  unfolding std_round_def by (simp add: floor_eq_iff nat_eq_iff)

lemma retarget_fast:
  assumes "0 < e" "e \<le> 80"
  shows "retarget e d = Inr (d div 2)"
proof -
  have r: "rat_of_nat e / 120 < 1" using assms by simp
  let ?r = "max (rat_of_nat e / 120) (1 / 2)"
  have "?r \<le> 2 / 3" and "1 / 2 \<le> ?r" using assms by auto
  then have "3 / 2 \<le> 1 / ?r" and "1 / ?r \<le> 2" by (simp_all add: field_simps)
  then have "std_round (1 / ?r) = 2" by (rule std_round_2)
  with r show ?thesis
    by (simp add: retarget_def Let_def BC_DIFFICULTY_RECALCULATION_RATE_def std_clamp_def)
qed

lemma retarget_keep_low:
  assumes "80 < e" "e < 120"
  shows "retarget e d = Inr d"
proof -
  have r: "rat_of_nat e / 120 < 1" using assms by simp
  let ?r = "max (rat_of_nat e / 120) (1 / 2)"
  have "2 / 3 < ?r" and "?r < 1" using assms by auto
  then have "1 \<le> 1 / ?r" and "1 / ?r < 3 / 2" by (simp_all add: field_simps)
  then have "std_round (1 / ?r) = 1" by (rule std_round_1)
  with r show ?thesis
    by (simp add: retarget_def Let_def BC_DIFFICULTY_RECALCULATION_RATE_def std_clamp_def)
qed

lemma target_room: "0 < d \<Longrightarrow> d < 2 ^ 256 \<Longrightarrow> 1 \<le> (2 ^ 256 - 1) div (d :: nat)"
  by (simp add: Suc_le_eq div_greater_zero_iff)

lemma retarget_keep_high:
  assumes "120 \<le> e" "e < 180" "0 < d" "d < 2 ^ 256"
  shows "retarget e d = Inr d"
proof -
  have "\<not> rat_of_nat e / 120 < 1" using assms by simp
  moreover have "min (rat_of_nat e / 120) 2 = rat_of_nat e / 120" using assms by simp
  moreover have "std_round (rat_of_nat e / 120) = 1" using assms by (intro std_round_1) auto
  moreover have "std_clamp 1 0 (min ((2 ^ 256 - 1) div d) 2) = 1"
    using target_room [OF assms(3,4)] by (intro std_clamp_id) auto
  ultimately show ?thesis using assms(3,4)
    by (simp add: retarget_def Let_def BC_DIFFICULTY_RECALCULATION_RATE_def u256_mul_def)
qed

lemma retarget_slow:
  assumes "180 \<le> e" "0 < d" "d < 2 ^ 256"
  shows "retarget e d = Inr (if 2 * d < 2 ^ 256 then 2 * d else d)"
proof -
  have "\<not> rat_of_nat e / 120 < 1" using assms by simp
  moreover have "std_round (min (rat_of_nat e / 120) 2) = 2"
    using assms by (intro std_round_2) auto
  moreover have "std_clamp 2 0 (min ((2 ^ 256 - 1) div d) 2) = (if 2 * d < 2 ^ 256 then 2 else 1)"
  proof (cases "2 * d < 2 ^ 256")
    case True
    then have "2 \<le> (2 ^ 256 - 1) div d" using assms(2) by (simp add: less_eq_div_iff_mult_less_eq)
    with True show ?thesis by (simp add: std_clamp_def)
  next
    case False
    then have "(2 ^ 256 - 1) div d < 2" using assms(2) by (simp add: div_less_iff_less_mult)
    with target_room [OF assms(2,3)] False show ?thesis by (simp add: std_clamp_def)
  qed
  ultimately show ?thesis using assms
    by (simp add: retarget_def Let_def BC_DIFFICULTY_RECALCULATION_RATE_def u256_mul_def mult.commute)
qed

lemma retarget_bounds:
  assumes "0 < e" "0 < d" "d < 2 ^ 256"
  shows "\<exists>d'. retarget e d = Inr d' \<and> d div 2 \<le> d' \<and> d' \<le> 2 * d \<and> d' < 2 ^ 256"
proof -
  consider "e \<le> 80" | "80 < e \<and> e < 120" | "120 \<le> e \<and> e < 180" | "180 \<le> e" by linarith
  then show ?thesis
    using assms retarget_fast [of e d] retarget_keep_low [of e d] retarget_keep_high [of e d] retarget_slow [of e d]
    by cases auto
qed

section \<open>Properties\<close>

text \<open>
  C19: proof of work: the byte-wise comparison of a 32-byte block hash with the target is the
  comparison of the two 256-bit numbers, for every target the constructor accepts.
\<close>

theorem proof_of_work_numeric:
  assumes "d < 2 ^ 256" and "length (blk_this_block_hash b) = 32"
  shows "\<exists>cx. mk_Complexity d = Inr cx
    \<and> (checkBlock \<lparr>con_last_blocks = bs, con_complexity = cx\<rparr> b \<longleftrightarrow> nat_of_bytes (blk_this_block_hash b) \<le> d)"
proof -
  obtain cx where "mk_Complexity d = Inr cx" "wf_complexity cx" "cx_densed cx = d"
    using wf_mk_Complexity [OF assms(1)] by blast
  then show ?thesis using checkBlock_numeric [of "\<lparr>con_last_blocks = bs, con_complexity = cx\<rparr>" b] assms(2) by simp
qed

theorem proof_of_work_numeric_witness:
  "\<exists>cx. mk_Complexity 5 = Inr cx \<and> checkBlock \<lparr>con_last_blocks = [], con_complexity = cx\<rparr>
     ((mk_ImmutableBlock demo_ext 0 0 sha256_null 0 address_null [])\<lparr>blk_this_block_hash := sha256_null\<rparr>)"
proof -
  let ?b = "(mk_ImmutableBlock demo_ext 0 0 sha256_null 0 address_null [])\<lparr>blk_this_block_hash := sha256_null\<rparr>"
  have "nat_of_bytes (blk_this_block_hash ?b) = 0" by (simp add: sha256_null_def nat_of_bytes_def val_be_eq_0_iff)
  then show ?thesis using proof_of_work_numeric [of 5 ?b "[]"] by (auto simp: sha256_null_def)
qed

text \<open>
  C21: retargeting: for a positive elapsed time and a positive target below 2^256 the new target
  exists, the difficulty changes at most by a factor of two, and the target stays in range. It
  halves up to 80 seconds, doubles from 180 seconds on if there is room, and else stays.
\<close>

theorem retarget_regimes:
  assumes "0 < elapsed" and "0 < d" and "d < 2 ^ 256"
  shows "retarget elapsed d = Inr (if elapsed \<le> 80 then d div 2 else if elapsed < 180 then d
           else if 2 * d < 2 ^ 256 then 2 * d else d)"
proof -
  consider "elapsed \<le> 80" | "80 < elapsed \<and> elapsed < 120" | "120 \<le> elapsed \<and> elapsed < 180" | "180 \<le> elapsed"
    by linarith
  then show ?thesis
    using assms retarget_fast [of elapsed d] retarget_keep_low [of elapsed d] retarget_keep_high [of elapsed d]
      retarget_slow [of elapsed d]
    by cases auto
qed

theorem retarget_regimes_witness: "retarget 60 1000 = Inr 500 \<and> retarget 100 1000 = Inr 1000 \<and> retarget 500 1000 = Inr 2000"
  using retarget_regimes [of 60 1000] retarget_regimes [of 100 1000] retarget_regimes [of 500 1000] by simp

end
