(* ===== verification/Blockchain.thy ===== *)
theory Blockchain
  imports Consensus
begin

text \<open>
  The chain of blocks: class \<^verbatim>\<open>Blockchain\<close> of \<^verbatim>\<open>src/core/blockchain.{hpp,cpp}\<close>. The hash table of blocks is
  an association list in insertion order (the iteration order of \<^verbatim>\<open>unordered_map\<close> is unspecified and
  no result below depends on it), the depth index a map. The abstract specification is a list of
  blocks with the consensus state: \<open>chain_add\<close> on lists, and \<open>tryAddBlock_refines\<close> says that the
  hash table, the depth index and the two hash fields implement it. The locks are not
  modelled: every operation runs under the mutex of the object.
\<close>

section \<open>State and operations\<close>

record blockchain =
  bc_blocks :: "(sha256 \<times> iblock) list"
  bc_blocks_by_depth :: "depth \<rightharpoonup> sha256"
  bc_genesis_block_hash :: sha256
  bc_top_level_block_hash :: sha256
  bc_consensus :: consensus

datatype addition_result = ADDED | ALREADY_IN_BLOCKCHAIN | INVALID_PARENT_HASH | INVALID_DEPTH
  | OLD_TIMESTAMP | FUTURE_TIMESTAMP | INVALID_TRANSACTIONS_NUMBER | INVALID_TRANSACTIONS | CONSENSUS_ERROR

text \<open>\<^verbatim>\<open>std::unordered_map::insert\<close> keeps an element that is already there.\<close>

definition umap_insert :: "'k \<Rightarrow> 'v \<Rightarrow> ('k \<times> 'v) list \<Rightarrow> ('k \<times> 'v) list" where
  "umap_insert k v m = (case map_of m k of Some _ \<Rightarrow> m | None \<Rightarrow> m @ [(k, v)])"

definition addGenesisBlock :: "iblock \<Rightarrow> blockchain \<Rightarrow> blockchain res" where
  "addGenesisBlock block bc =
     (let hash = blk_this_block_hash block in
      if bc_blocks bc \<noteq> [] then Inl LogicError
      else Inr (bc\<lparr>bc_blocks := umap_insert hash block (bc_blocks bc),
                   bc_blocks_by_depth := std_map_insert 0 hash (bc_blocks_by_depth bc),
                   bc_genesis_block_hash := hash, bc_top_level_block_hash := hash\<rparr>))"

definition mk_Blockchain :: "iblock \<Rightarrow> blockchain res" where
  "mk_Blockchain genesis_block =
     rbind mk_Consensus (\<lambda>c. addGenesisBlock genesis_block
       \<lparr>bc_blocks = [], bc_blocks_by_depth = (\<lambda>_. None), bc_genesis_block_hash = sha256_null,
        bc_top_level_block_hash = sha256_null, bc_consensus = c\<rparr>)"

definition getTopBlock :: "blockchain \<Rightarrow> iblock res" where
  "getTopBlock bc =
     (case map_of (bc_blocks bc) (bc_top_level_block_hash bc) of None \<Rightarrow> Inl AssertionFailed | Some b \<Rightarrow> Inr b)"

definition findBlock :: "blockchain \<Rightarrow> sha256 \<Rightarrow> iblock option" where
  "findBlock bc block_hash = map_of (bc_blocks bc) block_hash"

definition findBlockHashByDepth :: "blockchain \<Rightarrow> depth \<Rightarrow> sha256 option" where
  "findBlockHashByDepth bc depth = bc_blocks_by_depth bc depth"

fun findTransaction_loop :: "ext \<Rightarrow> (sha256 \<times> iblock) list \<Rightarrow> sha256 \<Rightarrow> transaction option" where
  "findTransaction_loop X [] tx_hash = None"
| "findTransaction_loop X (block # blocks) tx_hash =
     (case List.find (\<lambda>tx. hashOfTransaction X tx = tx_hash) (blk_txs (snd block)) of
        Some tx \<Rightarrow> Some tx
      | None \<Rightarrow> findTransaction_loop X blocks tx_hash)"

definition findTransaction :: "ext \<Rightarrow> blockchain \<Rightarrow> sha256 \<Rightarrow> transaction option" where
  "findTransaction X bc tx_hash = findTransaction_loop X (bc_blocks bc) tx_hash"

definition getGenesisBlock :: "blockchain \<Rightarrow> iblock res" where
  "getGenesisBlock bc =
     (case findBlock bc (bc_genesis_block_hash bc) of None \<Rightarrow> Inl AssertionFailed | Some b \<Rightarrow> Inr b)"

definition getTopBlockHash :: "blockchain \<Rightarrow> sha256" where
  "getTopBlockHash bc = bc_top_level_block_hash bc"

definition getTopBlockAndComplexity :: "blockchain \<Rightarrow> (iblock \<times> complexity) res" where
  "getTopBlockAndComplexity bc =
     rbind (getTopBlock bc) (\<lambda>b. Inr (b, con_complexity (bc_consensus bc)))"

definition checkConsensus :: "blockchain \<Rightarrow> iblock \<Rightarrow> bool" where
  "checkConsensus bc block = checkBlock (bc_consensus bc) block"

definition SECONDS_IN_DAY :: "32 word" where
  "SECONDS_IN_DAY = 24 * 60 * 60"

definition tryAddBlock :: "time \<Rightarrow> iblock \<Rightarrow> blockchain \<Rightarrow> (addition_result \<times> blockchain) res" where
  "tryAddBlock now block bc =
     (let hash = blk_this_block_hash block in
      if bc_blocks bc \<noteq> [] \<and> map_of (bc_blocks bc) hash \<noteq> None then Inr (ALREADY_IN_BLOCKCHAIN, bc)
      else if bc_blocks bc \<noteq> [] \<and> bc_top_level_block_hash bc \<noteq> blk_prev_block_hash block
        then Inr (INVALID_PARENT_HASH, bc)
      else if length (bc_blocks bc) \<noteq> unat (blk_depth block) then Inr (INVALID_DEPTH, bc)
      else if \<not> checkConsensus bc block then Inr (CONSENSUS_ERROR, bc)
      else if bc_top_level_block_hash bc \<noteq> blk_prev_block_hash block then Inr (INVALID_PARENT_HASH, bc)
      else if length (blk_txs block) = 0 \<or> length (blk_txs block) > BC_MAX_TRANSACTIONS_IN_BLOCK
        then Inr (INVALID_TRANSACTIONS_NUMBER, bc)
      else rbind (getTopBlock bc) (\<lambda>top_block.
        if time_ge (blk_timestamp top_block) (blk_timestamp block) then Inr (OLD_TIMESTAMP, bc)
        else if blk_timestamp block > now + SECONDS_IN_DAY then Inr (FUTURE_TIMESTAMP, bc)
        else rbind (applyBlock (bc_consensus bc) block) (\<lambda>consensus.
          Inr (ADDED, bc\<lparr>bc_consensus := consensus,
            bc_blocks := umap_insert hash block (bc_blocks bc),
            bc_blocks_by_depth := std_map_insert (blk_depth block) hash (bc_blocks_by_depth bc),
            bc_top_level_block_hash := hash\<rparr>))))"

section \<open>The abstract chain\<close>

text \<open>What a block must satisfy to go on top of a chain, in the order the code tests it.\<close>

definition chain_add ::
  "time \<Rightarrow> iblock \<Rightarrow> iblock list \<times> consensus \<Rightarrow> (addition_result \<times> iblock list \<times> consensus) res" where
  "chain_add now b = (\<lambda>(bs, c).
     if blk_this_block_hash b \<in> blk_this_block_hash ` set bs then Inr (ALREADY_IN_BLOCKCHAIN, bs, c)
     else if blk_prev_block_hash b \<noteq> blk_this_block_hash (last bs) then Inr (INVALID_PARENT_HASH, bs, c)
     else if unat (blk_depth b) \<noteq> length bs then Inr (INVALID_DEPTH, bs, c)
     else if \<not> checkBlock c b then Inr (CONSENSUS_ERROR, bs, c)
     else if \<not> (1 \<le> length (blk_txs b) \<and> length (blk_txs b) \<le> BC_MAX_TRANSACTIONS_IN_BLOCK)
       then Inr (INVALID_TRANSACTIONS_NUMBER, bs, c)
     else if blk_timestamp b \<le> blk_timestamp (last bs) then Inr (OLD_TIMESTAMP, bs, c)
     else if blk_timestamp b > now + SECONDS_IN_DAY then Inr (FUTURE_TIMESTAMP, bs, c)
     else rbind (applyBlock c b) (\<lambda>c'. Inr (ADDED, bs @ [b], c')))"

text \<open>The concrete state that represents a chain.\<close>

definition mk_bc :: "iblock list \<times> consensus \<Rightarrow> blockchain" where
  "mk_bc = (\<lambda>(bs, c).
     \<lparr>bc_blocks = map (\<lambda>b. (blk_this_block_hash b, b)) bs,
      bc_blocks_by_depth = (\<lambda>d. if unat d < length bs then Some (blk_this_block_hash (bs ! unat d)) else None),
      bc_genesis_block_hash = blk_this_block_hash (hd bs),
      bc_top_level_block_hash = blk_this_block_hash (last bs),
      bc_consensus = c\<rparr>)"

text \<open>Acceptance of a block on top of a chain in a consensus state, without the clock.\<close>

definition acceptable :: "iblock list \<Rightarrow> consensus \<Rightarrow> iblock \<Rightarrow> bool" where
  "acceptable bs c b \<longleftrightarrow> blk_this_block_hash b \<notin> blk_this_block_hash ` set bs
     \<and> blk_prev_block_hash b = blk_this_block_hash (last bs) \<and> unat (blk_depth b) = length bs
     \<and> checkBlock c b \<and> 1 \<le> length (blk_txs b) \<and> length (blk_txs b) \<le> BC_MAX_TRANSACTIONS_IN_BLOCK
     \<and> blk_timestamp (last bs) < blk_timestamp b"

inductive valid_chain :: "iblock list \<Rightarrow> consensus \<Rightarrow> bool" where
  valid_genesis: "mk_Consensus = Inr c \<Longrightarrow> valid_chain [g] c"
| valid_snoc: "valid_chain bs c \<Longrightarrow> acceptable bs c b \<Longrightarrow> applyBlock c b = Inr c' \<Longrightarrow> valid_chain (bs @ [b]) c'"

inductive_cases valid_chain_snocE: "valid_chain (bs @ [b]) c"

section \<open>The hash table implements the chain\<close>

lemma map_of_hashes:
  "distinct (map blk_this_block_hash bs) \<Longrightarrow> b \<in> set bs \<Longrightarrow>
     map_of (map (\<lambda>b. (blk_this_block_hash b, b)) bs) (blk_this_block_hash b) = Some b"
  by (rule map_of_is_SomeI) (auto simp: comp_def)

lemma map_of_hashes_None:
  "map_of (map (\<lambda>b. (blk_this_block_hash b, b)) bs) h = None \<longleftrightarrow> h \<notin> blk_this_block_hash ` set bs"
  by (simp add: map_of_eq_None_iff image_image)

lemma mk_bc_append:
  assumes "bs \<noteq> []" and "unat (blk_depth b) = length bs" and "blk_this_block_hash b \<notin> blk_this_block_hash ` set bs"
  shows "(mk_bc (bs, c))\<lparr>bc_consensus := c',
            bc_blocks := umap_insert (blk_this_block_hash b) b (bc_blocks (mk_bc (bs, c))),
            bc_blocks_by_depth := std_map_insert (blk_depth b) (blk_this_block_hash b) (bc_blocks_by_depth (mk_bc (bs, c))),
            bc_top_level_block_hash := blk_this_block_hash b\<rparr> = mk_bc (bs @ [b], c')"
proof -
  have "unat d < Suc (length bs) \<longleftrightarrow> unat d < length bs \<or> d = blk_depth b" for d
    using assms(2) by (auto simp: less_Suc_eq word_unat_eq_iff)
  then show ?thesis using assms map_of_hashes_None [of bs "blk_this_block_hash b"]
    by (auto simp: mk_bc_def umap_insert_def std_map_insert_def nth_append fun_eq_iff)
qed

theorem tryAddBlock_refines:
  assumes "bs \<noteq> []" and "distinct (map blk_this_block_hash bs)"
  shows "tryAddBlock now b (mk_bc (bs, c)) =
    rbind (chain_add now b (bs, c)) (\<lambda>(r, bs', c'). Inr (r, mk_bc (bs', c')))"
proof -
  have top: "getTopBlock (mk_bc (bs, c)) = Inr (last bs)"
    using map_of_hashes [OF assms(2), of "last bs"] assms(1) by (simp add: getTopBlock_def mk_bc_def)
  have found: "map_of (bc_blocks (mk_bc (bs, c))) (blk_this_block_hash b) \<noteq> None
      \<longleftrightarrow> blk_this_block_hash b \<in> blk_this_block_hash ` set bs"
    using map_of_hashes_None [of bs "blk_this_block_hash b"] by (simp add: mk_bc_def)
  have sel: "bc_blocks (mk_bc (bs, c)) \<noteq> []" "length (bc_blocks (mk_bc (bs, c))) = length bs"
      "bc_top_level_block_hash (mk_bc (bs, c)) = blk_this_block_hash (last bs)" "bc_consensus (mk_bc (bs, c)) = c"
    using assms(1) by (simp_all add: mk_bc_def)
  show ?thesis
  proof (cases "blk_this_block_hash b \<in> blk_this_block_hash ` set bs \<or> unat (blk_depth b) \<noteq> length bs")
    case True
    then show ?thesis
      unfolding tryAddBlock_def chain_add_def checkConsensus_def found sel top Let_def
      by (cases "blk_this_block_hash b \<in> blk_this_block_hash ` set bs") (simp_all add: sel(1))
  next
    case False
    then have "blk_this_block_hash b \<notin> blk_this_block_hash ` set bs" "unat (blk_depth b) = length bs" by auto
    note app = mk_bc_append [OF assms(1) this(2,1), of c]
    from False show ?thesis
      unfolding tryAddBlock_def chain_add_def checkConsensus_def found sel top Let_def app
      by (auto simp: sel(1) time_ge_def not_less Suc_le_eq split: rbind_split)
  qed
qed

lemma mk_Blockchain_eq: "mk_Blockchain g = rbind mk_Consensus (\<lambda>c. Inr (mk_bc ([g], c)))"
proof -
  have "unat (d :: depth) < Suc 0 \<longleftrightarrow> d = 0" for d by (simp add: unat_eq_0)
  then have "addGenesisBlock g \<lparr>bc_blocks = [], bc_blocks_by_depth = (\<lambda>_. None), bc_genesis_block_hash = sha256_null,
      bc_top_level_block_hash = sha256_null, bc_consensus = c\<rparr> = Inr (mk_bc ([g], c))" for c
    by (auto simp: addGenesisBlock_def mk_bc_def umap_insert_def std_map_insert_def Let_def fun_eq_iff)
  then show ?thesis by (simp add: mk_Blockchain_def)
qed

lemma chain_add_ADDED:
  "chain_add now b (bs, c) = Inr (r, bs', c') \<Longrightarrow>
     (if r = ADDED then acceptable bs c b \<and> applyBlock c b = Inr c' \<and> bs' = bs @ [b]
        \<and> blk_timestamp b \<le> now + SECONDS_IN_DAY
      else bs' = bs \<and> c' = c)"
  by (auto simp: chain_add_def acceptable_def rbind_eq_Inr not_le not_less split: if_splits)

lemma acceptable_chain_add:
  "acceptable bs c b \<Longrightarrow> blk_timestamp b \<le> now + SECONDS_IN_DAY \<Longrightarrow>
     chain_add now b (bs, c) = rbind (applyBlock c b) (\<lambda>c'. Inr (ADDED, bs @ [b], c'))"
  by (auto simp: chain_add_def acceptable_def)

section \<open>Valid chains\<close>

lemma valid_chain_nonempty [simp]: "valid_chain bs c \<Longrightarrow> bs \<noteq> []"
  by (induction rule: valid_chain.induct) auto

lemma valid_chain_distinct: "valid_chain bs c \<Longrightarrow> distinct (map blk_this_block_hash bs)"
  by (induction rule: valid_chain.induct) (auto simp: acceptable_def)

lemma valid_chain_deterministic: "valid_chain bs c \<Longrightarrow> valid_chain bs c' \<Longrightarrow> c = c'"
proof (induction arbitrary: c' rule: valid_chain.induct)
  case (valid_genesis c g)
  from valid_genesis.prems have "mk_Consensus = Inr c'"
    by (cases rule: valid_chain.cases) (auto dest: valid_chain_nonempty)
  with valid_genesis.hyps show ?case by (metis sum.inject(2))
next
  case (valid_snoc bs c b d)
  have "bs \<noteq> []" using valid_snoc.hyps(1) by simp
  from valid_snoc.prems obtain c2 where "valid_chain bs c2" and "applyBlock c2 b = Inr c'"
    by (rule valid_chain_snocE) (use \<open>bs \<noteq> []\<close> in auto)
  with valid_snoc.IH valid_snoc.hyps(3) show ?case by force
qed

text \<open>Parent hashes, depths, timestamps and transaction counts along a valid chain.\<close>

definition linked :: "iblock list \<Rightarrow> nat \<Rightarrow> bool" where
  "linked bs i \<longleftrightarrow> blk_prev_block_hash (bs ! Suc i) = blk_this_block_hash (bs ! i)
     \<and> unat (blk_depth (bs ! Suc i)) = Suc i \<and> blk_timestamp (bs ! i) < blk_timestamp (bs ! Suc i)
     \<and> 1 \<le> length (blk_txs (bs ! Suc i)) \<and> length (blk_txs (bs ! Suc i)) \<le> BC_MAX_TRANSACTIONS_IN_BLOCK"

lemma valid_chain_linked: "valid_chain bs c \<Longrightarrow> Suc i < length bs \<Longrightarrow> linked bs i"
proof (induction rule: valid_chain.induct)
  case (valid_snoc bs c b c')
  have "bs \<noteq> []" using valid_snoc.hyps(1) by simp
  show ?case
  proof (cases "Suc i < length bs")
    case True
    with valid_snoc show ?thesis by (simp add: linked_def nth_append)
  next
    case False
    with valid_snoc.prems have i: "length bs = Suc i" by simp
    then have "last bs = bs ! i" using \<open>bs \<noteq> []\<close> by (simp add: last_conv_nth)
    with valid_snoc.hyps(2) i show ?thesis by (simp add: linked_def acceptable_def nth_append)
  qed
qed simp

lemma valid_chain_timestamps: "valid_chain bs c \<Longrightarrow> i < j \<Longrightarrow> j < length bs \<Longrightarrow> blk_timestamp (bs ! i) < blk_timestamp (bs ! j)"
proof (induction j)
  case (Suc j)
  then have "blk_timestamp (bs ! j) < blk_timestamp (bs ! Suc j)"
    using valid_chain_linked [of bs c j] by (simp add: linked_def)
  with Suc show ?case by (cases "i = j") (auto dest: less_trans)
qed simp

section \<open>The consensus state of a valid chain\<close>

lemma applyBlock_last_blocks:
  "applyBlock c b = Inr c' \<Longrightarrow> length (con_last_blocks c) \<le> 2 \<Longrightarrow>
     con_last_blocks c' = (let bs = con_last_blocks c @ [b] in drop (length bs - 2) bs)"
  by (auto simp: applyBlock_def Let_def BC_DIFFICULTY_RECALCULATION_RATE_def rbind_eq_Inr assert_that_eq_Inr
      drop_Suc length_Suc_conv numeral_2_eq_2 le_Suc_eq split: if_splits)

lemma valid_chain_last_blocks:
  "valid_chain bs c \<Longrightarrow> con_last_blocks c = drop (length (tl bs) - 2) (tl bs)"
proof (induction rule: valid_chain.induct)
  case (valid_genesis c g)
  then show ?case by (auto simp: mk_Consensus_def rbind_eq_Inr)
next
  case (valid_snoc bs c b c')
  then have "bs \<noteq> []" by simp
  then obtain x xs where bs: "bs = x # xs" by (cases bs) auto
  have len: "length (con_last_blocks c) \<le> 2" by (simp add: valid_snoc.IH)
  show ?case
    unfolding applyBlock_last_blocks [OF valid_snoc.hyps(3) len] valid_snoc.IH bs
    by (cases "length xs \<le> 1") (auto simp: Let_def Suc_diff_Suc numeral_2_eq_2 not_le)
qed

text \<open>The first block of the window has an earlier timestamp than any acceptable block.\<close>

lemma valid_chain_window:
  assumes "valid_chain bs c" and "acceptable bs c b" and "x \<in> set (con_last_blocks c)"
  shows "blk_timestamp x < blk_timestamp b"
proof -
  have "x \<in> set (tl bs)" using assms(1,3) by (auto simp: valid_chain_last_blocks dest: in_set_dropD)
  then have "x \<in> set bs" by (rule list.set_sel(2) [rotated]) (use assms(1) in simp)
  then obtain i where i: "i < length bs" "x = bs ! i" by (auto simp: in_set_conv_nth)
  have "bs \<noteq> []" using assms(1) by simp
  have "i = length bs - 1 \<or> i < length bs - 1" using i(1) by linarith
  then have "blk_timestamp x \<le> blk_timestamp (last bs)"
    using valid_chain_timestamps [OF assms(1), of i "length bs - 1"] i \<open>bs \<noteq> []\<close>
    by (auto simp: last_conv_nth less_imp_le)
  with assms(2) show ?thesis by (auto simp: acceptable_def intro: le_less_trans)
qed

lemma mk_Consensus_wf:
  "\<exists>c. mk_Consensus = Inr c \<and> wf_complexity (con_complexity c) \<and> cx_densed (con_complexity c) = 2 ^ 256 - 1"
  using wf_mk_Complexity [of "2 ^ 256 - 1"] by (auto simp: mk_Consensus_def)

text \<open>Applying an acceptable block: never an assertion failure, only division by a zero target.\<close>

lemma applyBlock_ok:
  assumes "wf_complexity (con_complexity c)" and "0 < cx_densed (con_complexity c)"
    and "length (con_last_blocks c) \<le> 2"
    and "\<forall>x\<in>set (con_last_blocks c). blk_timestamp x < blk_timestamp b"
  shows "\<exists>c'. applyBlock c b = Inr c' \<and> wf_complexity (con_complexity c')
    \<and> cx_densed (con_complexity c) div 2 \<le> cx_densed (con_complexity c')
    \<and> cx_densed (con_complexity c') \<le> 2 * cx_densed (con_complexity c)"
proof (cases "length (con_last_blocks c) = 0 \<or> skips_recalculation (blk_depth b)")
  case True
  then show ?thesis using assms
    by (auto simp: applyBlock_def Let_def BC_DIFFICULTY_RECALCULATION_RATE_def)
next
  case False
  let ?bs = "con_last_blocks c @ [b]"
  let ?bs' = "if length ?bs > 2 then tl ?bs else ?bs"
  let ?d = "cx_densed (con_complexity c)"
  have ne: "con_last_blocks c \<noteq> []" using False by auto
  have front: "blk_timestamp (hd ?bs') < blk_timestamp b"
  proof -
    from ne obtain x xs where xs: "con_last_blocks c = x # xs" by (cases "con_last_blocks c") auto
    then show ?thesis using assms(4) by (cases xs) auto
  qed
  define e where "e = blk_timestamp b - blk_timestamp (hd ?bs')"
  have e: "time_minus (blk_timestamp b) (blk_timestamp (hd ?bs')) = Inr e"
    using front by (simp add: time_minus_def e_def)
  have "e \<noteq> 0" using front by (simp add: e_def)
  then have "0 < unat e" by (simp add: unat_gt_0)
  then obtain d' where d': "retarget (unat e) ?d = Inr d'" "?d div 2 \<le> d'" "d' \<le> 2 * ?d" "d' < 2 ^ 256"
    using retarget_bounds [of "unat e" ?d] assms(1,2) by (auto simp: wf_complexity_def)
  obtain cx where cx: "mk_Complexity d' = Inr cx" "wf_complexity cx" "cx_densed cx = d'"
    using wf_mk_Complexity [OF d'(4)] by blast
  have "\<not> skips_recalculation (blk_depth b)" using False by blast
  then have "applyBlock c b = Inr (c\<lparr>con_last_blocks := ?bs', con_complexity := cx\<rparr>)"
    using e \<open>e \<noteq> 0\<close> d'(1) cx(1) ne
    by (simp add: applyBlock_def Let_def BC_DIFFICULTY_RECALCULATION_RATE_def)
  with cx d' show ?thesis by simp
qed

lemma valid_chain_wf: "valid_chain bs c \<Longrightarrow> wf_complexity (con_complexity c)"
proof (induction rule: valid_chain.induct)
  case (valid_genesis c g)
  then show ?case using mk_Consensus_wf by (metis sum.inject(2))
next
  case (valid_snoc bs c b c')
  let ?d = "cx_densed (con_complexity c)"
  have len: "length (con_last_blocks c) \<le> 2" using valid_chain_last_blocks [OF valid_snoc.hyps(1)] by simp
  show ?case
  proof (cases "?d = 0")
    case False
    then show ?thesis
      using applyBlock_ok [of c b] valid_snoc len valid_chain_window [OF valid_snoc.hyps(1,2)] by auto
  next
    case True
    have "retarget e ?d = Inr d' \<Longrightarrow> d' < 2 ^ 256" for e d'
      using True by (auto simp: retarget_def Let_def split: if_splits)
    then show ?thesis using valid_snoc.hyps(3) valid_snoc.IH wf_mk_Complexity
      by (fastforce simp: applyBlock_def Let_def rbind_eq_Inr assert_that_eq_Inr split: if_splits)
  qed
qed

text \<open>A block whose hash is not zero is only accepted under a positive target.\<close>

lemma acceptable_positive_target:
  assumes "valid_chain bs c" and "acceptable bs c b" and "length (blk_this_block_hash b) = 32"
    and "blk_this_block_hash b \<noteq> sha256_null"
  shows "0 < cx_densed (con_complexity c)"
proof -
  have "nat_of_bytes (blk_this_block_hash b) \<le> cx_densed (con_complexity c)"
    using assms(2) checkBlock_numeric [OF valid_chain_wf [OF assms(1)] assms(3)] by (simp add: acceptable_def)
  moreover have "nat_of_bytes (blk_this_block_hash b) \<noteq> 0"
  proof
    assume "nat_of_bytes (blk_this_block_hash b) = 0"
    then have "\<forall>x\<in>set (blk_this_block_hash b). x = 0"
      by (simp add: nat_of_bytes_def val_be_eq_0_iff unat_eq_0)
    then show False using assms(3,4) by (simp add: sha256_null_def replicate_eqI)
  qed
  ultimately show ?thesis by simp
qed

lemma chain_add_total:
  assumes "valid_chain bs c" and "length (blk_this_block_hash b) = 32" and "blk_this_block_hash b \<noteq> sha256_null"
  shows "\<exists>r bs' c'. chain_add now b (bs, c) = Inr (r, bs', c') \<and> valid_chain bs' c'
    \<and> (if r = ADDED then bs' = bs @ [b] \<and> acceptable bs c b else bs' = bs \<and> c' = c)"
proof (cases "acceptable bs c b \<and> blk_timestamp b \<le> now + SECONDS_IN_DAY")
  case True
  have "0 < cx_densed (con_complexity c)" using acceptable_positive_target assms True by blast
  moreover have "length (con_last_blocks c) \<le> 2" using valid_chain_last_blocks [OF assms(1)] by simp
  ultimately obtain c' where "applyBlock c b = Inr c'"
    using applyBlock_ok [of c b] valid_chain_wf [OF assms(1)] valid_chain_window [OF assms(1)] True by blast
  with True assms(1) show ?thesis by (auto simp: acceptable_chain_add intro: valid_snoc)
next
  case False
  have "\<exists>r. chain_add now b (bs, c) = Inr (r, bs, c) \<and> r \<noteq> ADDED"
    using False unfolding chain_add_def acceptable_def by (auto simp: not_le not_less)
  with assms(1) show ?thesis by auto
qed

section \<open>Reachable states\<close>

inductive bc_reachable :: "iblock \<Rightarrow> blockchain \<Rightarrow> bool" for g where
  bc_start: "mk_Blockchain g = Inr bc \<Longrightarrow> bc_reachable g bc"
| bc_add: "bc_reachable g bc \<Longrightarrow> tryAddBlock now b bc = Inr (r, bc') \<Longrightarrow> bc_reachable g bc'"

lemma chain_add_valid:
  "valid_chain bs c \<Longrightarrow> chain_add now b (bs, c) = Inr (r, bs', c') \<Longrightarrow> valid_chain bs' c' \<and> hd bs' = hd bs"
  using chain_add_ADDED [of now b bs c r bs' c'] valid_snoc by (cases "r = ADDED") auto

lemma bc_reachable_repr:
  "bc_reachable g bc \<Longrightarrow> \<exists>bs c. bc = mk_bc (bs, c) \<and> valid_chain bs c \<and> hd bs = g"
proof (induction rule: bc_reachable.induct)
  case (bc_start bc)
  then obtain c where "mk_Consensus = Inr c" "bc = mk_bc ([g], c)" by (auto simp: mk_Blockchain_eq rbind_eq_Inr)
  then show ?case using valid_genesis by fastforce
next
  case (bc_add bc now b r bc')
  then obtain bs c where bc: "bc = mk_bc (bs, c)" "valid_chain bs c" "hd bs = g" by blast
  then have "tryAddBlock now b bc = rbind (chain_add now b (bs, c)) (\<lambda>(r, bs', c'). Inr (r, mk_bc (bs', c')))"
    using tryAddBlock_refines valid_chain_distinct by simp
  with bc_add.hyps(2) obtain bs' c' where "chain_add now b (bs, c) = Inr (r, bs', c')" "bc' = mk_bc (bs', c')"
    by (auto simp: rbind_eq_Inr)
  then show ?case using chain_add_valid bc by blast
qed

lemma mk_Blockchain_total: "\<exists>bc. mk_Blockchain g = Inr bc"
proof -
  obtain c where c: "mk_Consensus = Inr c" using mk_Consensus_wf by blast
  show ?thesis by (simp add: mk_Blockchain_eq c)
qed

lemma findBlock_mk_bc:
  assumes "distinct (map blk_this_block_hash bs)"
  shows "findBlock (mk_bc (bs, c)) h = Some b \<longleftrightarrow> b \<in> set bs \<and> blk_this_block_hash b = h"
  using map_of_hashes [OF assms] by (auto simp: findBlock_def mk_bc_def dest!: map_of_SomeD)

lemma findTransaction_mk_bc:
  "findTransaction X (mk_bc (bs, c)) h = None \<longleftrightarrow> (\<forall>b\<in>set bs. \<forall>tx\<in>set (blk_txs b). hashOfTransaction X tx \<noteq> h)"
proof -
  have "findTransaction_loop X (map (\<lambda>b. (blk_this_block_hash b, b)) bs) h = None
      \<longleftrightarrow> (\<forall>b\<in>set bs. \<forall>tx\<in>set (blk_txs b). hashOfTransaction X tx \<noteq> h)"
    by (induction bs) (auto simp: find_None_iff find_Some_iff split: option.split dest: nth_mem)
  then show ?thesis by (simp add: findTransaction_def mk_bc_def)
qed

section \<open>Properties\<close>

text \<open>
  C2: adding a block to the hash table, the depth index and the two hash fields behaves exactly
  as adding it to a list of blocks: same answer, same error, and the new concrete state is the
  one that represents the new list.
\<close>

theorem blockchain_refines_list:
  assumes "bs \<noteq> []" and "distinct (map blk_this_block_hash bs)"
  shows "tryAddBlock now b (mk_bc (bs, c)) =
    rbind (chain_add now b (bs, c)) (\<lambda>(r, bs', c'). Inr (r, mk_bc (bs', c')))"
  by (rule tryAddBlock_refines [OF assms])

theorem blockchain_refines_list_witness:
  "\<exists>g. \<forall>c. tryAddBlock 0 g (mk_bc ([g], c)) = Inr (ALREADY_IN_BLOCKCHAIN, mk_bc ([g], c))"
proof -
  let ?g = "mk_ImmutableBlock demo_ext 0 0 sha256_null 0 address_null []"
  have "tryAddBlock 0 ?g (mk_bc ([?g], c)) = Inr (ALREADY_IN_BLOCKCHAIN, mk_bc ([?g], c))" for c
    using blockchain_refines_list [of "[?g]" 0 ?g c] by (simp add: chain_add_def)
  then show ?thesis by blast
qed

text \<open>
  C1: integrity of every chain the node can reach from a genesis block: there is a list of
  blocks starting with it such that each block names its predecessor's hash, sits at the depth
  of its position, is later than its predecessor and has between 1 and 100 transactions; the
  lookups by hash and by depth and the top block are those of the list.
\<close>

theorem reachable_chain_integrity:
  assumes "bc_reachable g bc"
  shows "\<exists>bs. bs \<noteq> [] \<and> hd bs = g \<and> (\<forall>i. Suc i < length bs \<longrightarrow> linked bs i)
    \<and> (\<forall>h b. findBlock bc h = Some b \<longleftrightarrow> b \<in> set bs \<and> blk_this_block_hash b = h)
    \<and> (\<forall>d. findBlockHashByDepth bc d = (if unat d < length bs then Some (blk_this_block_hash (bs ! unat d)) else None))
    \<and> getTopBlock bc = Inr (last bs) \<and> getGenesisBlock bc = Inr g"
proof -
  obtain bs c where bc: "bc = mk_bc (bs, c)" "valid_chain bs c" "hd bs = g" using bc_reachable_repr [OF assms] by blast
  note dist = valid_chain_distinct [OF bc(2)]
  have ne: "bs \<noteq> []" using bc(2) by simp
  have "getTopBlock bc = Inr (last bs)" using map_of_hashes [OF dist, of "last bs"] ne
    by (simp add: bc(1) getTopBlock_def mk_bc_def)
  moreover have "findBlock bc (blk_this_block_hash (hd bs)) = Some (hd bs)"
    using findBlock_mk_bc [OF dist, of c] ne bc(1) by simp
  then have "getGenesisBlock bc = Inr g" using bc by (simp add: getGenesisBlock_def mk_bc_def)
  moreover have "\<forall>d. findBlockHashByDepth bc d = (if unat d < length bs then Some (blk_this_block_hash (bs ! unat d)) else None)"
    by (simp add: bc(1) findBlockHashByDepth_def mk_bc_def)
  ultimately show ?thesis
    using ne bc findBlock_mk_bc [OF dist, of c] valid_chain_linked [OF bc(2)] by blast
qed

theorem reachable_chain_integrity_witness:
  "\<exists>g bc bs. bc_reachable g bc \<and> bs \<noteq> [] \<and> hd bs = g \<and> getTopBlock bc = Inr (last bs)"
proof -
  let ?g = "mk_ImmutableBlock demo_ext 0 0 sha256_null 0 address_null []"
  obtain bc where "mk_Blockchain ?g = Inr bc" using mk_Blockchain_total by blast
  then have "bc_reachable ?g bc" by (rule bc_start)
  then show ?thesis using reachable_chain_integrity [of ?g bc] by blast
qed

text \<open>
  C3: in a reachable state, offering a block whose hash is not all zero never throws and never
  fails an assertion (the subtraction of timestamps, the elapsed time and the division in the
  retargeting included); a rejected block changes nothing.
\<close>

theorem tryAddBlock_never_throws:
  assumes "bc_reachable g bc" and "length (blk_this_block_hash b) = 32" and "blk_this_block_hash b \<noteq> sha256_null"
  shows "\<exists>r bc'. tryAddBlock now b bc = Inr (r, bc') \<and> (r \<noteq> ADDED \<longrightarrow> bc' = bc)
    \<and> (r = ADDED \<longrightarrow> getTopBlock bc' = Inr b \<and> findBlock bc' (blk_this_block_hash b) = Some b)"
proof -
  obtain bs c where bc: "bc = mk_bc (bs, c)" "valid_chain bs c" "hd bs = g"
    using bc_reachable_repr [OF assms(1)] by blast
  obtain r bs' c' where add: "chain_add now b (bs, c) = Inr (r, bs', c')" "valid_chain bs' c'"
    "if r = ADDED then bs' = bs @ [b] \<and> acceptable bs c b else bs' = bs \<and> c' = c"
    using chain_add_total [OF bc(2) assms(2,3), of now] by blast
  have "tryAddBlock now b bc = Inr (r, mk_bc (bs', c'))"
    using tryAddBlock_refines [of bs now b c] bc valid_chain_distinct [OF bc(2)] add(1) by simp
  moreover have "getTopBlock (mk_bc (bs', c')) = Inr b \<and> findBlock (mk_bc (bs', c')) (blk_this_block_hash b) = Some b"
    if "r = ADDED"
    using that add valid_chain_distinct [OF add(2)] map_of_hashes [of bs' b]
    by (simp add: getTopBlock_def findBlock_def mk_bc_def)
  ultimately show ?thesis using add(3) bc(1) by auto
qed

theorem tryAddBlock_never_throws_witness:
  "\<exists>g bc b. bc_reachable g bc \<and> length (blk_this_block_hash b) = 32 \<and> blk_this_block_hash b \<noteq> sha256_null
     \<and> (\<exists>r bc'. tryAddBlock 0 b bc = Inr (r, bc'))"
proof -
  let ?g = "mk_ImmutableBlock demo_ext 0 0 sha256_null 0 address_null []"
  let ?b = "?g\<lparr>blk_this_block_hash := replicate 32 1\<rparr>"
  obtain bc where "mk_Blockchain ?g = Inr bc" using mk_Blockchain_total by blast
  then have r: "bc_reachable ?g bc" by (rule bc_start)
  have h: "length (blk_this_block_hash ?b) = 32" "blk_this_block_hash ?b \<noteq> sha256_null"
    by (simp_all add: sha256_null_def eval_nat_numeral)
  show ?thesis using tryAddBlock_never_throws [OF r h, of 0] r h by blast
qed

end
