(* ===== verification/Persistence.thy ===== *)
theory Persistence
  imports Blockchain
begin

text \<open>
  The database wrapper \<^verbatim>\<open>src/base/database.{hpp,cpp,tpp}\<close> and the class \<^verbatim>\<open>PersistentBlockchain\<close> of
  \<^verbatim>\<open>src/core/blockchain.cpp\<close>. LevelDB is a parameter: the record \<open>leveldb\<close> of its three calls on an
  abstract handle, with \<open>leveldb_ok\<close> for what it documents on a working disk. The walk back
  from the last stored block follows whatever the database holds, so it is a partial function;
  the main results are that every accepted block is stored and that \<open>load\<close> rebuilds the chain,
  the consensus state included.
\<close>

section \<open>The database\<close>

datatype get_status = GetOk string | GetNotFound | GetError

record 's leveldb =
  ldb_Get :: "'s \<Rightarrow> string \<Rightarrow> get_status"
  ldb_Put :: "'s \<Rightarrow> string \<Rightarrow> string \<Rightarrow> 's option"
  ldb_Delete :: "'s \<Rightarrow> string \<Rightarrow> 's option"

definition leveldb_ok :: "'s leveldb \<Rightarrow> bool" where
  "leveldb_ok L \<longleftrightarrow> (\<forall>s k. ldb_Get L s k \<noteq> GetError)
   \<and> (\<forall>s k v. \<exists>s'. ldb_Put L s k v = Some s'
        \<and> (\<forall>k'. ldb_Get L s' k' = (if k' = k then GetOk v else ldb_Get L s k')))
   \<and> (\<forall>s k. \<exists>s'. ldb_Delete L s k = Some s'
        \<and> (\<forall>k'. ldb_Get L s' k' = (if k' = k then GetNotFound else ldb_Get L s k')))"

record 's database =
  db_inited :: bool
  db_handle :: 's

definition checkStatus :: "'s database \<Rightarrow> unit res" where
  "checkStatus db = (if \<not> db_inited db then Inl DatabaseError else Inr ())"

definition db_put :: "'s leveldb \<Rightarrow> 's database \<Rightarrow> bytes \<Rightarrow> bytes \<Rightarrow> 's database res" where
  "db_put L db key value = rbind (checkStatus db) (\<lambda>_.
     case ldb_Put L (db_handle db) (bytes_to_string key) (bytes_to_string value) of
       None \<Rightarrow> Inl DatabaseError
     | Some s \<Rightarrow> Inr (db\<lparr>db_handle := s\<rparr>))"

definition db_get :: "'s leveldb \<Rightarrow> 's database \<Rightarrow> bytes \<Rightarrow> bytes option res" where
  "db_get L db key = rbind (checkStatus db) (\<lambda>_.
     case ldb_Get L (db_handle db) (bytes_to_string key) of
       GetOk value \<Rightarrow> Inr (Some (string_to_bytes value))
     | _ \<Rightarrow> Inr None)"

definition db_exists :: "'s leveldb \<Rightarrow> 's database \<Rightarrow> bytes \<Rightarrow> bool res" where
  "db_exists L db key = rbind (checkStatus db) (\<lambda>_.
     case ldb_Get L (db_handle db) (bytes_to_string key) of
       GetNotFound \<Rightarrow> Inr False | GetError \<Rightarrow> Inl DatabaseError | GetOk _ \<Rightarrow> Inr True)"

definition db_remove :: "'s leveldb \<Rightarrow> 's database \<Rightarrow> bytes \<Rightarrow> 's database res" where
  "db_remove L db key = rbind (checkStatus db) (\<lambda>_.
     case ldb_Delete L (db_handle db) (bytes_to_string key) of
       None \<Rightarrow> Inl DatabaseError
     | Some s \<Rightarrow> Inr (db\<lparr>db_handle := s\<rparr>))"

section \<open>The persistent chain\<close>

definition key_SYSTEM :: "bytes \<Rightarrow> bytes" where
  "key_SYSTEM key = 1 # key"

definition key_BLOCK :: "bytes \<Rightarrow> bytes" where
  "key_BLOCK key = 2 # key"

definition key_PREVIOUS_BLOCK_HASH :: "bytes \<Rightarrow> bytes" where
  "key_PREVIOUS_BLOCK_HASH key = 3 # key"

definition LAST_BLOCK_HASH_KEY :: bytes where
  "LAST_BLOCK_HASH_KEY = key_SYSTEM (string_to_bytes ''last_block_hash'')"

record 's pblockchain =
  pb_chain :: blockchain
  pb_database :: "'s database"

definition pushForwardToPersistentStorage :: "ext \<Rightarrow> 's leveldb \<Rightarrow> iblock \<Rightarrow> 's database \<Rightarrow> 's database res" where
  "pushForwardToPersistentStorage X L block db =
     (let raw_block_hash = blk_this_block_hash block; serialized_block = toBytes (serialize_iblock X) block in
      rbind (db_exists L db (key_BLOCK raw_block_hash)) (\<lambda>e.
      if e then Inr db else
      rbind (db_put L db (key_BLOCK raw_block_hash) serialized_block) (\<lambda>db.
      rbind (db_put L db (key_PREVIOUS_BLOCK_HASH raw_block_hash) (blk_prev_block_hash block)) (\<lambda>db.
      db_put L db LAST_BLOCK_HASH_KEY raw_block_hash))))"

definition persistent_tryAddBlock ::
  "ext \<Rightarrow> 's leveldb \<Rightarrow> time \<Rightarrow> iblock \<Rightarrow> 's pblockchain \<Rightarrow> (addition_result \<times> 's pblockchain) res" where
  "persistent_tryAddBlock X L now block pb =
     rbind (tryAddBlock now block (pb_chain pb)) (\<lambda>(r, bc).
       if r = ADDED then
         rbind (pushForwardToPersistentStorage X L block (pb_database pb)) (\<lambda>db.
           Inr (r, pb\<lparr>pb_chain := bc, pb_database := db\<rparr>))
       else Inr (r, pb\<lparr>pb_chain := bc\<rparr>))"

definition getLastBlockHashAtPersistentStorage :: "'s leveldb \<Rightarrow> 's database \<Rightarrow> sha256 option res" where
  "getLastBlockHashAtPersistentStorage L db =
     rbind (db_exists L db LAST_BLOCK_HASH_KEY) (\<lambda>e.
     if e then rbind (db_get L db LAST_BLOCK_HASH_KEY) (\<lambda>hash_data.
       case hash_data of Some d \<Rightarrow> rbind (sha256_of d) (\<lambda>h. Inr (Some h)) | None \<Rightarrow> Inr None)
     else Inr None)"

definition findBlockAtPersistentStorage :: "ext \<Rightarrow> 's leveldb \<Rightarrow> 's database \<Rightarrow> sha256 \<Rightarrow> iblock option res" where
  "findBlockAtPersistentStorage X L db block_hash =
     rbind (db_get L db (key_BLOCK block_hash)) (\<lambda>block_data.
     case block_data of None \<Rightarrow> Inr None
     | Some d \<Rightarrow> rbind (deserialize_iblock X \<lparr>ia_bytes = d, ia_index = 0\<rparr>) (\<lambda>(b, ia). Inr (Some b)))"

text \<open>One turn of the walk: the hash stored as the predecessor of the current one.\<close>

definition previous_block_hash :: "'s leveldb \<Rightarrow> 's database \<Rightarrow> sha256 \<Rightarrow> sha256 res" where
  "previous_block_hash L db current_block_hash =
     rbind (db_get L db (key_PREVIOUS_BLOCK_HASH current_block_hash)) (\<lambda>previous_block_hash_data.
     case previous_block_hash_data of None \<Rightarrow> Inl AssertionFailed | Some d \<Rightarrow> sha256_of d)"

partial_function (option) collect_hashes ::
  "'s leveldb \<Rightarrow> 's database \<Rightarrow> sha256 \<Rightarrow> sha256 \<Rightarrow> sha256 list \<Rightarrow> sha256 list res option" where
  "collect_hashes L db genesis_hash current_block_hash all_blocks_hashes =
     (if current_block_hash \<noteq> genesis_hash then
        (case previous_block_hash L db current_block_hash of
           Inl e \<Rightarrow> Some (Inl e)
         | Inr h \<Rightarrow> collect_hashes L db genesis_hash h (all_blocks_hashes @ [current_block_hash]))
      else Some (Inr all_blocks_hashes))"

declare collect_hashes.simps [code]

definition createAllBlockHashesListAtPersistentStorage :: "'s leveldb \<Rightarrow> 's pblockchain \<Rightarrow> sha256 list res option" where
  "createAllBlockHashesListAtPersistentStorage L pb =
     (case getLastBlockHashAtPersistentStorage L (pb_database pb) of
        Inl e \<Rightarrow> Some (Inl e)
      | Inr None \<Rightarrow> Some (Inr [])
      | Inr (Some last_block_hash) \<Rightarrow>
          (case getGenesisBlock (pb_chain pb) of
             Inl e \<Rightarrow> Some (Inl e)
           | Inr g \<Rightarrow> map_option (\<lambda>r. rbind r (\<lambda>hs. Inr (rev hs)))
               (collect_hashes L (pb_database pb) (blk_this_block_hash g) last_block_hash [])))"

fun load_loop :: "ext \<Rightarrow> 's leveldb \<Rightarrow> time \<Rightarrow> sha256 list \<Rightarrow> 's pblockchain \<Rightarrow> 's pblockchain res" where
  "load_loop X L now [] pb = Inr pb"
| "load_loop X L now (block_hash # hashes) pb =
     rbind (findBlockAtPersistentStorage X L (pb_database pb) block_hash) (\<lambda>current_block.
     case current_block of None \<Rightarrow> Inl AssertionFailed
     | Some b \<Rightarrow> rbind (persistent_tryAddBlock X L now b pb) (\<lambda>(r, pb). load_loop X L now hashes pb))"

definition load :: "ext \<Rightarrow> 's leveldb \<Rightarrow> time \<Rightarrow> 's pblockchain \<Rightarrow> 's pblockchain res option" where
  "load X L now pb =
     map_option (\<lambda>r. rbind r (\<lambda>hashes. load_loop X L now hashes pb))
       (createAllBlockHashesListAtPersistentStorage L pb)"

section \<open>What the database holds\<close>

definition db_lookup :: "'s leveldb \<Rightarrow> 's database \<Rightarrow> bytes \<Rightarrow> bytes option" where
  "db_lookup L db key =
     (case ldb_Get L (db_handle db) (bytes_to_string key) of GetOk v \<Rightarrow> Some (string_to_bytes v) | _ \<Rightarrow> None)"

lemma bytes_to_string_inject [simp]: "bytes_to_string a = bytes_to_string b \<longleftrightarrow> a = b"
  by (metis string_to_bytes_to_string)

lemma db_get_lookup: "db_inited db \<Longrightarrow> db_get L db k = Inr (db_lookup L db k)"
  by (simp add: db_get_def checkStatus_def db_lookup_def split: get_status.split)

lemma db_exists_lookup:
  "leveldb_ok L \<Longrightarrow> db_inited db \<Longrightarrow> db_exists L db k = Inr (db_lookup L db k \<noteq> None)"
  by (auto simp: db_exists_def checkStatus_def db_lookup_def leveldb_ok_def split: get_status.split)

lemma db_put_lookup:
  assumes "leveldb_ok L" and "db_inited db"
  shows "\<exists>db'. db_put L db k v = Inr db' \<and> db_inited db' \<and> db_lookup L db' = (db_lookup L db)(k \<mapsto> v)"
proof -
  obtain s' where s': "ldb_Put L (db_handle db) (bytes_to_string k) (bytes_to_string v) = Some s'"
    and g: "\<forall>k'. ldb_Get L s' k' = (if k' = bytes_to_string k then GetOk (bytes_to_string v)
        else ldb_Get L (db_handle db) k')"
    using assms(1) unfolding leveldb_ok_def by blast
  have "db_lookup L (db\<lparr>db_handle := s'\<rparr>) = (db_lookup L db)(k \<mapsto> v)"
    by (rule ext) (simp add: db_lookup_def g)
  with s' assms(2) show ?thesis by (simp add: db_put_def checkStatus_def)
qed

lemma keys_distinct [simp]:
  "key_BLOCK a \<noteq> key_PREVIOUS_BLOCK_HASH b" "key_PREVIOUS_BLOCK_HASH b \<noteq> key_BLOCK a"
  "key_BLOCK a \<noteq> LAST_BLOCK_HASH_KEY" "LAST_BLOCK_HASH_KEY \<noteq> key_BLOCK a"
  "key_PREVIOUS_BLOCK_HASH a \<noteq> LAST_BLOCK_HASH_KEY" "LAST_BLOCK_HASH_KEY \<noteq> key_PREVIOUS_BLOCK_HASH a"
  "key_BLOCK a = key_BLOCK b \<longleftrightarrow> a = b" "key_PREVIOUS_BLOCK_HASH a = key_PREVIOUS_BLOCK_HASH b \<longleftrightarrow> a = b"
  by (simp_all add: key_BLOCK_def key_PREVIOUS_BLOCK_HASH_def LAST_BLOCK_HASH_KEY_def key_SYSTEM_def)

text \<open>The database stores a chain: every block but the genesis one, its parent link, the top.\<close>

definition db_stores :: "ext \<Rightarrow> 's leveldb \<Rightarrow> iblock list \<Rightarrow> 's database \<Rightarrow> bool" where
  "db_stores X L bs db \<longleftrightarrow> db_inited db
     \<and> (\<forall>b\<in>set (tl bs). db_lookup L db (key_BLOCK (blk_this_block_hash b)) = Some (toBytes (serialize_iblock X) b)
           \<and> db_lookup L db (key_PREVIOUS_BLOCK_HASH (blk_this_block_hash b)) = Some (blk_prev_block_hash b))
     \<and> db_lookup L db LAST_BLOCK_HASH_KEY = (if tl bs = [] then None else Some (blk_this_block_hash (last bs)))
     \<and> (\<forall>h. h \<notin> blk_this_block_hash ` set (tl bs) \<longrightarrow> db_lookup L db (key_BLOCK h) = None)"

lemma pushForward_stores:
  assumes L: "leveldb_ok L" and db: "db_stores X L bs db" and ne: "bs \<noteq> []"
    and new: "blk_this_block_hash b \<notin> blk_this_block_hash ` set bs"
  shows "\<exists>db'. pushForwardToPersistentStorage X L b db = Inr db' \<and> db_stores X L (bs @ [b]) db'"
proof -
  let ?h = "blk_this_block_hash b" and ?s = "toBytes (serialize_iblock X) b"
  have init: "db_inited db" using db by (simp add: db_stores_def)
  have tl: "tl (bs @ [b]) = tl bs @ [b]" using ne by simp
  have sub: "set (tl bs) \<subseteq> set bs" using ne by (auto dest: list.set_sel(2))
  with new have fresh: "?h \<notin> blk_this_block_hash ` set (tl bs)" by blast
  then have ex: "db_exists L db (key_BLOCK ?h) = Inr False"
    using db by (simp add: db_exists_lookup L init db_stores_def)
  obtain d1 where d1: "db_put L db (key_BLOCK ?h) ?s = Inr d1" "db_inited d1"
    "db_lookup L d1 = (db_lookup L db)(key_BLOCK ?h \<mapsto> ?s)" using db_put_lookup [OF L init] by blast
  obtain d2 where d2: "db_put L d1 (key_PREVIOUS_BLOCK_HASH ?h) (blk_prev_block_hash b) = Inr d2" "db_inited d2"
    "db_lookup L d2 = (db_lookup L d1)(key_PREVIOUS_BLOCK_HASH ?h \<mapsto> blk_prev_block_hash b)"
    using db_put_lookup [OF L d1(2)] by blast
  obtain d3 where d3: "db_put L d2 LAST_BLOCK_HASH_KEY ?h = Inr d3" "db_inited d3"
    "db_lookup L d3 = (db_lookup L d2)(LAST_BLOCK_HASH_KEY \<mapsto> ?h)" using db_put_lookup [OF L d2(2)] by blast
  have "pushForwardToPersistentStorage X L b db = Inr d3"
    using ex d1 d2 d3 by (simp add: pushForwardToPersistentStorage_def Let_def)
  moreover have "db_stores X L (bs @ [b]) d3"
    using db fresh unfolding db_stores_def tl by (auto simp: d1 d2 d3)
  ultimately show ?thesis by blast
qed

lemma pushForward_present:
  "leveldb_ok L \<Longrightarrow> db_stores X L bs db \<Longrightarrow> b \<in> set (tl bs) \<Longrightarrow> pushForwardToPersistentStorage X L b db = Inr db"
  by (auto simp: pushForwardToPersistentStorage_def db_stores_def db_exists_lookup Let_def)

section \<open>Reading the chain back\<close>

lemma previous_block_hash_stored:
  assumes "db_stores X L bs db" and "b \<in> set (tl bs)" and "length (blk_prev_block_hash b) = 32"
  shows "previous_block_hash L db (blk_this_block_hash b) = Inr (blk_prev_block_hash b)"
  using assms by (auto simp: previous_block_hash_def db_stores_def db_get_lookup sha256_of_eq)

text \<open>From the \<open>n\<close>-th block the walk visits the blocks \<open>n\<close>, \<open>n - 1\<close>, ..., 1 and ends.\<close>

lemma collect_hashes_chain:
  assumes valid: "valid_chain bs c" and st: "db_stores X L bs db" and wf: "\<forall>b\<in>set bs. wf_iblock X b"
  shows "n < length bs \<Longrightarrow> collect_hashes L db (blk_this_block_hash (hd bs)) (blk_this_block_hash (bs ! n)) acc
     = Some (Inr (acc @ rev (map blk_this_block_hash (take n (tl bs)))))"
proof (induction n arbitrary: acc)
  case 0
  have "hd bs = bs ! 0" using valid by (simp add: hd_conv_nth)
  then show ?case by (simp add: collect_hashes.simps)
next
  case (Suc n)
  have ne: "bs \<noteq> []" using valid by simp
  have "blk_this_block_hash (bs ! Suc n) \<noteq> blk_this_block_hash (bs ! 0)"
    using valid_chain_distinct [OF valid] Suc.prems nth_eq_iff_index_eq [of "map blk_this_block_hash bs" "Suc n" 0] ne
    by simp
  then have neq: "blk_this_block_hash (bs ! Suc n) \<noteq> blk_this_block_hash (hd bs)" using ne by (simp add: hd_conv_nth)
  have tl: "bs ! Suc n = tl bs ! n" "n < length (tl bs)" using Suc.prems by (simp_all add: nth_tl)
  then have "bs ! Suc n \<in> set (tl bs)" by simp
  moreover have "length (blk_prev_block_hash (bs ! Suc n)) = 32"
    using wf Suc.prems nth_mem by (fastforce simp: wf_iblock_def wf_mblock_def)
  ultimately have "previous_block_hash L db (blk_this_block_hash (bs ! Suc n)) = Inr (blk_prev_block_hash (bs ! Suc n))"
    using previous_block_hash_stored [OF st] by blast
  moreover have "blk_prev_block_hash (bs ! Suc n) = blk_this_block_hash (bs ! n)"
    using valid_chain_linked [OF valid Suc.prems] by (simp add: linked_def)
  moreover have "take (Suc n) (tl bs) = take n (tl bs) @ [bs ! Suc n]" using tl by (simp add: take_Suc_conv_app_nth)
  ultimately show ?case
    using neq Suc.IH [of "acc @ [blk_this_block_hash (bs ! Suc n)]"] Suc.prems
    by (subst collect_hashes.simps) simp
qed

lemma findBlock_stored:
  assumes "big_ok X" and "db_stores X L bs db" and "b \<in> set (tl bs)" and "wf_iblock X b"
  shows "findBlockAtPersistentStorage X L db (blk_this_block_hash b) = Inr (Some b)"
proof -
  have "fromBytes (deserialize_iblock X) (toBytes (serialize_iblock X) b) = Inr b"
    by (rule codec.roundtrip [OF codec_iblock [OF assms(1)] assms(4)])
  then show ?thesis using assms(2,3)
    by (auto simp: findBlockAtPersistentStorage_def db_stores_def db_get_lookup fromBytes_def rbind_eq_Inr)
qed

lemma valid_chain_take:
  "valid_chain bs c \<Longrightarrow> 0 < n \<Longrightarrow> n < length bs \<Longrightarrow>
     \<exists>c1 c2. valid_chain (take n bs) c1 \<and> acceptable (take n bs) c1 (bs ! n) \<and> applyBlock c1 (bs ! n) = Inr c2
       \<and> valid_chain (take (Suc n) bs) c2"
proof (induction rule: valid_chain.induct)
  case (valid_snoc bs c b c')
  show ?case
  proof (cases "n < length bs")
    case True
    with valid_snoc show ?thesis by (simp add: nth_append)
  next
    case False
    with valid_snoc.prems have "n = length bs" by simp
    then show ?thesis using valid_snoc.hyps valid_chain.valid_snoc by auto
  qed
qed simp

text \<open>Loading the remaining blocks of a stored chain on top of the first \<open>n\<close> of them.\<close>

lemma load_loop_chain:
  assumes valid: "valid_chain bs c" and ok: "leveldb_ok L" "big_ok X" and st: "db_stores X L bs db"
    and wf: "\<forall>b\<in>set bs. wf_iblock X b" and now: "\<forall>b\<in>set bs. blk_timestamp b \<le> now + SECONDS_IN_DAY"
  shows "0 < n \<Longrightarrow> n \<le> length bs \<Longrightarrow> valid_chain (take n bs) cn \<Longrightarrow>
    load_loop X L now (map blk_this_block_hash (drop n bs)) \<lparr>pb_chain = mk_bc (take n bs, cn), pb_database = db\<rparr>
      = Inr \<lparr>pb_chain = mk_bc (bs, c), pb_database = db\<rparr>"
proof (induction "length bs - n" arbitrary: n cn)
  case 0
  then have "n = length bs" by simp
  with 0 valid show ?case using valid_chain_deterministic by fastforce
next
  case (Suc k)
  then have n: "n < length bs" by simp
  let ?b = "bs ! n"
  have drop: "drop n bs = ?b # drop (Suc n) bs" using n by (simp add: Cons_nth_drop_Suc)
  have mem: "?b \<in> set (tl bs)" "?b \<in> set bs"
    using n Suc.prems(1) nth_mem [of "n - 1" "tl bs"] by (auto simp: nth_tl)
  obtain c2 where acc: "acceptable (take n bs) cn ?b" and ap: "applyBlock cn ?b = Inr c2"
    and v2: "valid_chain (take (Suc n) bs) c2"
    using valid_chain_take [OF valid Suc.prems(1) n] valid_chain_deterministic [OF Suc.prems(3)] by blast
  have "chain_add now ?b (take n bs, cn) = Inr (ADDED, take (Suc n) bs, c2)"
    using acceptable_chain_add [OF acc] now mem(2) ap n by (simp add: take_Suc_conv_app_nth)
  then have "tryAddBlock now ?b (mk_bc (take n bs, cn)) = Inr (ADDED, mk_bc (take (Suc n) bs, c2))"
    using tryAddBlock_refines [of "take n bs" now ?b cn] valid_chain_distinct [OF Suc.prems(3)]
      valid_chain_nonempty [OF Suc.prems(3)] by simp
  then have "persistent_tryAddBlock X L now ?b \<lparr>pb_chain = mk_bc (take n bs, cn), pb_database = db\<rparr>
      = Inr (ADDED, \<lparr>pb_chain = mk_bc (take (Suc n) bs, c2), pb_database = db\<rparr>)"
    by (simp add: persistent_tryAddBlock_def pushForward_present [OF ok(1) st mem(1)])
  moreover have "findBlockAtPersistentStorage X L db (blk_this_block_hash ?b) = Inr (Some ?b)"
    using findBlock_stored [OF ok(2) st mem(1)] wf mem(2) by blast
  moreover have "load_loop X L now (map blk_this_block_hash (drop (Suc n) bs))
      \<lparr>pb_chain = mk_bc (take (Suc n) bs, c2), pb_database = db\<rparr> = Inr \<lparr>pb_chain = mk_bc (bs, c), pb_database = db\<rparr>"
    by (rule Suc.hyps(1)) (use Suc.hyps(2) n v2 in auto)
  ultimately show ?case by (simp add: drop)
qed

lemma load_stored:
  assumes valid: "valid_chain bs c" and ok: "leveldb_ok L" "big_ok X" "hash_ok X" and st: "db_stores X L bs db"
    and wf: "\<forall>b\<in>set bs. wf_iblock X b" and now: "\<forall>b\<in>set bs. blk_timestamp b \<le> now + SECONDS_IN_DAY"
    and c0: "mk_Consensus = Inr c0"
  shows "load X L now \<lparr>pb_chain = mk_bc ([hd bs], c0), pb_database = db\<rparr>
    = Some (Inr \<lparr>pb_chain = mk_bc (bs, c), pb_database = db\<rparr>)"
proof -
  let ?pb = "\<lparr>pb_chain = mk_bc ([hd bs], c0), pb_database = db\<rparr>"
  have ne: "bs \<noteq> []" using valid by simp
  then have bs: "take 1 bs = [hd bs]" "drop 1 bs = tl bs" by (cases bs; simp)+
  have loop: "load_loop X L now (map blk_this_block_hash (tl bs)) ?pb = Inr \<lparr>pb_chain = mk_bc (bs, c), pb_database = db\<rparr>"
    using load_loop_chain [OF valid ok(1,2) st wf now, of 1 c0] valid_genesis [OF c0] ne bs
    by (simp add: Suc_le_eq)
  have gen: "getGenesisBlock (mk_bc ([hd bs], c0)) = Inr (hd bs)"
    by (simp add: getGenesisBlock_def findBlock_def mk_bc_def)
  have "createAllBlockHashesListAtPersistentStorage L ?pb = Some (Inr (map blk_this_block_hash (tl bs)))"
  proof (cases "tl bs = []")
    case True
    then have "getLastBlockHashAtPersistentStorage L db = Inr None"
      using st ok(1) by (simp add: getLastBlockHashAtPersistentStorage_def db_exists_lookup db_stores_def)
    with True show ?thesis by (simp add: createAllBlockHashesListAtPersistentStorage_def)
  next
    case False
    have l: "last bs = bs ! (length bs - 1)" "last bs \<in> set bs" using ne by (simp_all add: last_conv_nth)
    have "length (blk_this_block_hash (last bs)) = 32" using length_blk_hash [OF ok(3)] wf l(2) by blast
    then have "getLastBlockHashAtPersistentStorage L db = Inr (Some (blk_this_block_hash (last bs)))"
      using False st ok(1) by (simp add: getLastBlockHashAtPersistentStorage_def db_exists_lookup db_get_lookup
          db_stores_def sha256_of_eq)
    then show ?thesis
      using collect_hashes_chain [OF valid st wf, of "length bs - 1" "[]"] ne gen l
      by (simp add: createAllBlockHashesListAtPersistentStorage_def rev_map [symmetric])
  qed
  with loop show ?thesis by (simp add: load_def)
qed

text \<open>A database that is a map, for the examples.\<close>

definition map_leveldb :: "(string \<rightharpoonup> string) leveldb" where
  "map_leveldb = \<lparr>ldb_Get = (\<lambda>s k. case s k of Some v \<Rightarrow> GetOk v | None \<Rightarrow> GetNotFound),
     ldb_Put = (\<lambda>s k v. Some (s(k \<mapsto> v))), ldb_Delete = (\<lambda>s k. Some (s(k := None)))\<rparr>"

lemma leveldb_ok_map: "leveldb_ok map_leveldb"
  by (auto simp: leveldb_ok_def map_leveldb_def split: option.split)

section \<open>Reachable persistent states\<close>

inductive pb_reachable :: "ext \<Rightarrow> 's leveldb \<Rightarrow> iblock \<Rightarrow> 's pblockchain \<Rightarrow> bool" for X L g where
  pb_start: "mk_Blockchain g = Inr bc \<Longrightarrow> db_inited db \<Longrightarrow> (\<And>k. db_lookup L db k = None) \<Longrightarrow>
     pb_reachable X L g \<lparr>pb_chain = bc, pb_database = db\<rparr>"
| pb_add: "pb_reachable X L g pb \<Longrightarrow> wf_iblock X b \<Longrightarrow> persistent_tryAddBlock X L now b pb = Inr (r, pb') \<Longrightarrow>
     pb_reachable X L g pb'"

definition pb_inv :: "ext \<Rightarrow> 's leveldb \<Rightarrow> iblock \<Rightarrow> 's pblockchain \<Rightarrow> iblock list \<Rightarrow> consensus \<Rightarrow> bool" where
  "pb_inv X L g pb bs c \<longleftrightarrow> pb_chain pb = mk_bc (bs, c) \<and> valid_chain bs c \<and> hd bs = g
     \<and> db_stores X L bs (pb_database pb) \<and> (\<forall>b\<in>set (tl bs). wf_iblock X b)"

lemma persistent_tryAddBlock_cases:
  assumes L: "leveldb_ok L" and inv: "pb_inv X L g pb bs c" and wf: "wf_iblock X b"
    and add: "chain_add now b (bs, c) = Inr (r, bs', c')"
  shows "\<exists>pb'. persistent_tryAddBlock X L now b pb = Inr (r, pb') \<and> pb_inv X L g pb' bs' c'
    \<and> (r \<noteq> ADDED \<longrightarrow> pb' = pb)"
proof -
  have valid: "valid_chain bs c" and hd: "hd bs = g" using inv by (auto simp: pb_inv_def)
  have ne: "bs \<noteq> []" using valid by simp
  have ref: "tryAddBlock now b (pb_chain pb) = Inr (r, mk_bc (bs', c'))"
    using inv tryAddBlock_refines [OF ne valid_chain_distinct [OF valid], of now b c] add by (simp add: pb_inv_def)
  note cases = chain_add_ADDED [OF add]
  show ?thesis
  proof (cases "r = ADDED")
    case True
    then have bs': "bs' = bs @ [b]" and acc: "acceptable bs c b" and ap: "applyBlock c b = Inr c'" using cases by auto
    obtain db' where db': "pushForwardToPersistentStorage X L b (pb_database pb) = Inr db'" "db_stores X L (bs @ [b]) db'"
      using pushForward_stores [OF L _ ne, of X "pb_database pb" b] inv acc by (auto simp: pb_inv_def acceptable_def)
    let ?pb = "pb\<lparr>pb_chain := mk_bc (bs', c'), pb_database := db'\<rparr>"
    have "persistent_tryAddBlock X L now b pb = Inr (r, ?pb)"
      using ref db'(1) True by (simp add: persistent_tryAddBlock_def)
    moreover have "pb_inv X L g ?pb bs' c'"
      using inv db'(2) valid_snoc [OF valid acc ap] ne hd wf by (auto simp: pb_inv_def bs')
    ultimately show ?thesis using True by blast
  next
    case False
    then have "bs' = bs \<and> c' = c" using cases by simp
    then have "pb\<lparr>pb_chain := mk_bc (bs', c')\<rparr> = pb" using inv by (simp add: pb_inv_def)
    then have "persistent_tryAddBlock X L now b pb = Inr (r, pb)"
      using ref False by (simp add: persistent_tryAddBlock_def)
    with inv \<open>bs' = bs \<and> c' = c\<close> show ?thesis by blast
  qed
qed

lemma pb_reachable_inv:
  assumes L: "leveldb_ok L" and "pb_reachable X L g pb"
  shows "\<exists>bs c. pb_inv X L g pb bs c"
  using assms(2)
proof (induction rule: pb_reachable.induct)
  case (pb_start bc db)
  then obtain c where c: "mk_Consensus = Inr c" "bc = mk_bc ([g], c)" by (auto simp: mk_Blockchain_eq rbind_eq_Inr)
  have "pb_inv X L g \<lparr>pb_chain = bc, pb_database = db\<rparr> [g] c"
    using pb_start valid_genesis [OF c(1)] c(2) by (simp add: pb_inv_def db_stores_def)
  then show ?case by blast
next
  case (pb_add pb b now r pb')
  then obtain bs c where inv: "pb_inv X L g pb bs c" by blast
  then have valid: "valid_chain bs c" and ch: "pb_chain pb = mk_bc (bs, c)" by (auto simp: pb_inv_def)
  have "tryAddBlock now b (pb_chain pb) = rbind (chain_add now b (bs, c)) (\<lambda>(r, bs', c'). Inr (r, mk_bc (bs', c')))"
    using tryAddBlock_refines [of bs now b c] valid valid_chain_distinct [OF valid] ch by simp
  with pb_add.hyps(3) obtain r' bs' c' where "chain_add now b (bs, c) = Inr (r', bs', c')"
    by (auto simp: persistent_tryAddBlock_def rbind_eq_Inr)
  from persistent_tryAddBlock_cases [OF L inv pb_add.hyps(2) this] pb_add.hyps(3) show ?case by auto
qed

lemma load_reachable:
  assumes "leveldb_ok L" and "big_ok X" and "hash_ok X" and "wf_iblock X g" and "pb_reachable X L g pb"
    and "\<forall>h b. findBlock (pb_chain pb) h = Some b \<longrightarrow> blk_timestamp b \<le> now + SECONDS_IN_DAY"
    and "mk_Blockchain g = Inr fresh"
  shows "load X L now \<lparr>pb_chain = fresh, pb_database = pb_database pb\<rparr> = Some (Inr pb)"
proof -
  obtain bs c where inv: "pb_inv X L g pb bs c" using pb_reachable_inv [OF assms(1,5)] by blast
  then have valid: "valid_chain bs c" and st: "db_stores X L bs (pb_database pb)" and hd: "hd bs = g"
    and ch: "pb_chain pb = mk_bc (bs, c)" by (auto simp: pb_inv_def)
  have "bs \<noteq> []" using valid by simp
  then have bs: "set bs = insert g (set (tl bs))" using hd by (cases bs) auto
  then have wf: "\<forall>b\<in>set bs. wf_iblock X b" using inv assms(4) by (auto simp: pb_inv_def)
  have now: "\<forall>b\<in>set bs. blk_timestamp b \<le> now + SECONDS_IN_DAY"
    using assms(6) findBlock_mk_bc [OF valid_chain_distinct [OF valid], of c] ch by auto
  obtain c0 where c0: "mk_Consensus = Inr c0" "fresh = mk_bc ([g], c0)"
    using assms(7) by (auto simp: mk_Blockchain_eq rbind_eq_Inr)
  have "pb = \<lparr>pb_chain = mk_bc (bs, c), pb_database = pb_database pb\<rparr>" using ch by simp
  then show ?thesis using load_stored [OF valid assms(1,2,3) st wf now c0(1)] c0(2) hd by simp
qed

lemma persistent_step:
  assumes L: "leveldb_ok L" and inv: "pb_inv X L g pb bs c" and wf: "wf_iblock X b"
    and run: "persistent_tryAddBlock X L now b pb = Inr (r, pb')"
  shows "(r = ADDED \<longrightarrow> getTopBlock (pb_chain pb') = Inr b) \<and> (r \<noteq> ADDED \<longrightarrow> pb' = pb)"
proof -
  have valid: "valid_chain bs c" and ch: "pb_chain pb = mk_bc (bs, c)" using inv by (auto simp: pb_inv_def)
  have "tryAddBlock now b (pb_chain pb) = rbind (chain_add now b (bs, c)) (\<lambda>(r, bs', c'). Inr (r, mk_bc (bs', c')))"
    using tryAddBlock_refines [of bs now b c] valid valid_chain_distinct [OF valid] ch by simp
  then obtain r' bs' c' where add: "chain_add now b (bs, c) = Inr (r', bs', c')"
    using run by (auto simp: persistent_tryAddBlock_def rbind_eq_Inr)
  have pb': "r' = r" "pb_inv X L g pb' bs' c'" "r \<noteq> ADDED \<longrightarrow> pb' = pb"
    using persistent_tryAddBlock_cases [OF L inv wf add] run by auto
  have "getTopBlock (mk_bc (bs', c')) = Inr b" if "r = ADDED"
    using chain_add_ADDED [OF add] that pb' map_of_hashes [OF valid_chain_distinct, of bs' c' b]
    by (simp add: getTopBlock_def mk_bc_def pb_inv_def)
  then show ?thesis using pb' by (simp add: pb_inv_def)
qed

section \<open>Properties\<close>

text \<open>
  C4: restart: whatever blocks were offered to a persistent chain that started with an empty
  database, loading the database into a fresh chain restores exactly the blocks, the depth
  index, the top and the consensus state, and leaves the database as it is; the walk through
  the stored hashes ends. The clock must not have gone back by more than a day.
\<close>

theorem restart_restores_chain:
  assumes "leveldb_ok L" and "big_ok X" and "hash_ok X" and "wf_iblock X g" and "pb_reachable X L g pb"
    and "\<forall>h b. findBlock (pb_chain pb) h = Some b \<longrightarrow> blk_timestamp b \<le> now + SECONDS_IN_DAY"
    and "mk_Blockchain g = Inr fresh"
  shows "load X L now \<lparr>pb_chain = fresh, pb_database = pb_database pb\<rparr> = Some (Inr pb)"
  by (rule load_reachable [OF assms])

theorem restart_restores_chain_witness:
  "\<exists>g pb fresh. pb_reachable demo_ext map_leveldb g pb \<and> mk_Blockchain g = Inr fresh
     \<and> load demo_ext map_leveldb 0 \<lparr>pb_chain = fresh, pb_database = pb_database pb\<rparr> = Some (Inr pb)"
proof -
  let ?g = "mk_ImmutableBlock demo_ext 0 0 sha256_null 0 address_null [invalidTransaction]"
  let ?db = "\<lparr>db_inited = True, db_handle = (\<lambda>_. None)\<rparr> :: (string \<rightharpoonup> string) database"
  obtain bc where bc: "mk_Blockchain ?g = Inr bc" using mk_Blockchain_total by blast
  then obtain c where c: "bc = mk_bc ([?g], c)" by (auto simp: mk_Blockchain_eq rbind_eq_Inr)
  let ?pb = "\<lparr>pb_chain = bc, pb_database = ?db\<rparr>"
  have r: "pb_reachable demo_ext map_leveldb ?g ?pb"
    using bc by (rule pb_start) (simp_all add: db_lookup_def map_leveldb_def)
  have wf: "wf_iblock demo_ext ?g" by (simp add: wf_iblock_mk sha256_null_def)
  have "\<forall>h b. findBlock (pb_chain ?pb) h = Some b \<longrightarrow> blk_timestamp b \<le> 0 + SECONDS_IN_DAY"
    by (auto simp: c findBlock_def mk_bc_def)
  from restart_restores_chain [OF leveldb_ok_map demo_ext_ok(2,1) wf r this bc] r bc show ?thesis
    by (intro exI [of _ ?g] exI [of _ ?pb] exI [of _ bc]) simp
qed

end
