(* ===== verification/Managers.thy ===== *)
theory Managers
  imports Block
begin

text \<open>
  Accounts: \<^verbatim>\<open>AccountState\<close> and \<^verbatim>\<open>StateManager\<close> of \<^verbatim>\<open>src/core/managers.{hpp,cpp}\<close>. The map from addresses to
  accounts is a HOL map; balances are checked 256-bit numbers. \<open>total_money\<close> sums them, and the
  results say which operations preserve it: a transfer moves money and never creates it, also
  when sender and receiver are the same account.
\<close>

section \<open>Accounts\<close>

datatype account_type = CLIENT | CONTRACT

record storage_data =
  sd_data :: bytes
  sd_was_modified :: bool

record account_state =
  acc_type :: account_type
  acc_nonce :: "64 word"
  acc_balance :: balance
  acc_code_hash :: sha256
  acc_transactions :: "sha256 list"
  acc_storage :: "sha256 \<rightharpoonup> storage_data"
  acc_runtime_code :: bytes

record account_info =
  info_type :: account_type
  info_address :: address
  info_balance :: balance
  info_nonce :: "64 word"
  info_transactions_hashes :: "sha256 list"

definition mk_AccountState :: "account_type \<Rightarrow> account_state" where
  "mk_AccountState type = \<lparr>acc_type = type, acc_nonce = 0, acc_balance = 0, acc_code_hash = sha256_null,
     acc_transactions = [], acc_storage = (\<lambda>_. None), acc_runtime_code = []\<rparr>"

definition addTransactionHash :: "sha256 \<Rightarrow> account_state \<Rightarrow> account_state" where
  "addTransactionHash tx_hash a =
     a\<lparr>acc_transactions := acc_transactions a @ [tx_hash], acc_nonce := acc_nonce a + 1\<rparr>"

definition setBalance :: "balance \<Rightarrow> account_state \<Rightarrow> account_state" where
  "setBalance new_balance a = a\<lparr>acc_balance := new_balance\<rparr>"

definition addBalance :: "balance \<Rightarrow> account_state \<Rightarrow> account_state res" where
  "addBalance delta a = rbind (u256_add (acc_balance a) delta) (\<lambda>b. Inr (a\<lparr>acc_balance := b\<rparr>))"

definition subBalance :: "balance \<Rightarrow> account_state \<Rightarrow> account_state res" where
  "subBalance delta a =
     (if acc_balance a < delta then Inl LogicError
      else rbind (u256_sub (acc_balance a) delta) (\<lambda>b. Inr (a\<lparr>acc_balance := b\<rparr>)))"

definition setCodeHash :: "sha256 \<Rightarrow> account_state \<Rightarrow> account_state" where
  "setCodeHash code_hash a = a\<lparr>acc_code_hash := code_hash\<rparr>"

definition setRuntimeCode :: "bytes \<Rightarrow> account_state \<Rightarrow> account_state" where
  "setRuntimeCode code a = a\<lparr>acc_runtime_code := code\<rparr>"

definition checkStorageValue :: "sha256 \<Rightarrow> account_state \<Rightarrow> bool" where
  "checkStorageValue key a = (acc_storage a key \<noteq> None)"

definition getStorageValue :: "sha256 \<Rightarrow> account_state \<Rightarrow> storage_data res" where
  "getStorageValue key a = (case acc_storage a key of None \<Rightarrow> Inl LogicError | Some sd \<Rightarrow> Inr sd)"

definition setStorageValue :: "sha256 \<Rightarrow> bytes \<Rightarrow> account_state \<Rightarrow> account_state" where
  "setStorageValue key value a =
     a\<lparr>acc_storage := (acc_storage a)(key \<mapsto> \<lparr>sd_data = value, sd_was_modified = True\<rparr>)\<rparr>"

definition toInfo :: "account_state \<Rightarrow> account_info" where
  "toInfo a = \<lparr>info_type = (if acc_code_hash a = sha256_null then CLIENT else CONTRACT),
     info_address = address_null, info_balance = acc_balance a, info_nonce = acc_nonce a,
     info_transactions_hashes = acc_transactions a\<rparr>"

section \<open>The state manager\<close>

type_synonym state_manager = "address \<rightharpoonup> account_state"

definition hasAccount :: "state_manager \<Rightarrow> address \<Rightarrow> bool" where
  "hasAccount s address = (s address \<noteq> None)"

definition createClientAccount :: "address \<Rightarrow> state_manager \<Rightarrow> state_manager res" where
  "createClientAccount address s =
     (if hasAccount s address then Inl LogicError
      else Inr (std_map_insert address (mk_AccountState CLIENT) s))"

text \<open>The reading \<^verbatim>\<open>getAccount\<close> throws on an unknown address; the other creates the account.\<close>

definition getAccount :: "state_manager \<Rightarrow> address \<Rightarrow> account_state res" where
  "getAccount s address = (case s address of None \<Rightarrow> Inl InvalidArgument | Some a \<Rightarrow> Inr a)"

definition getAccount_lazy :: "address \<Rightarrow> state_manager \<Rightarrow> account_state \<times> state_manager" where
  "getAccount_lazy address s =
     (case s address of None \<Rightarrow> (mk_AccountState CLIENT, s(address \<mapsto> mk_AccountState CLIENT)) | Some a \<Rightarrow> (a, s))"

text \<open>A change through the reference that \<^verbatim>\<open>getAccount\<close> returns.\<close>

definition update_account :: "address \<Rightarrow> (account_state \<Rightarrow> account_state res) \<Rightarrow> state_manager \<Rightarrow> state_manager res" where
  "update_account address f s =
     (case getAccount_lazy address s of (a, s) \<Rightarrow> rbind (f a) (\<lambda>a. Inr (s(address \<mapsto> a))))"

definition createContractAccount :: "ext \<Rightarrow> address \<Rightarrow> sha256 \<Rightarrow> state_manager \<Rightarrow> address \<times> state_manager" where
  "createContractAccount X from_account_address associated_code_hash s =
     (case getAccount_lazy from_account_address s of (account, s) \<Rightarrow>
        (let nonce_string_data = string_to_bytes (std_to_string (unat (acc_nonce account)));
             account_address = ripemd160_compute X (associated_code_hash @ from_account_address @ nonce_string_data)
         in (account_address, s(account_address \<mapsto> setCodeHash associated_code_hash (mk_AccountState CONTRACT)))))"

definition deleteAccount :: "address \<Rightarrow> state_manager \<Rightarrow> bool \<times> state_manager" where
  "deleteAccount address s = (case s address of Some _ \<Rightarrow> (True, s(address := None)) | None \<Rightarrow> (False, s))"

definition createCopy :: "state_manager \<Rightarrow> state_manager" where
  "createCopy s = s"

definition applyChanges :: "state_manager \<Rightarrow> state_manager \<Rightarrow> state_manager" where
  "applyChanges state s = state"

definition checkTransaction :: "state_manager \<Rightarrow> transaction \<Rightarrow> bool res" where
  "checkTransaction s tx =
     (if s (tx_from tx) = None then Inr False
      else rbind (getAccount s (tx_from tx)) (\<lambda>a. rbind (tx_cost tx) (\<lambda>c. Inr (acc_balance a \<ge> c))))"

definition tryTransferMoney :: "address \<Rightarrow> address \<Rightarrow> balance \<Rightarrow> state_manager \<Rightarrow> (bool \<times> state_manager) res" where
  "tryTransferMoney from to amount s =
     (if \<not> hasAccount s from then Inr (False, s)
      else case getAccount_lazy from s of (from_account, s) \<Rightarrow>
        if acc_balance from_account < amount then Inr (False, s)
        else rbind (if \<not> hasAccount s to then createClientAccount to s else Inr s) (\<lambda>s.
             rbind (update_account from (subBalance amount) s) (\<lambda>s.
             rbind (update_account to (addBalance amount) s) (\<lambda>s. Inr (True, s)))))"

definition updateFromGenesis :: "'z mblock_scheme \<Rightarrow> state_manager \<Rightarrow> state_manager" where
  "updateFromGenesis block s =
     fold (\<lambda>tx s. std_map_insert (tx_to tx) (setBalance (tx_amount tx) (mk_AccountState CLIENT)) s) (blk_txs block) s"

section \<open>Money\<close>

definition total_money :: "state_manager \<Rightarrow> nat" where
  "total_money s = (\<Sum>a\<in>dom s. acc_balance (the (s a)))"

text \<open>The balance of an address, zero when it has no account.\<close>

definition balance_of :: "state_manager \<Rightarrow> address \<Rightarrow> balance" where
  "balance_of s a = (case s a of Some acc \<Rightarrow> acc_balance acc | None \<Rightarrow> 0)"

definition wf_state :: "state_manager \<Rightarrow> bool" where
  "wf_state s \<longleftrightarrow> finite (dom s) \<and> (\<forall>a acc. s a = Some acc \<longrightarrow> acc_balance acc < 2 ^ 256)"

lemma balance_of_None [simp]: "s a = None \<Longrightarrow> balance_of s a = 0"
  by (simp add: balance_of_def)

lemma balance_of_Some [simp]: "s a = Some acc \<Longrightarrow> balance_of s a = acc_balance acc"
  by (simp add: balance_of_def)

lemma balance_of_upd: "balance_of (s(a \<mapsto> acc)) b = (if b = a then acc_balance acc else balance_of s b)"
  by (simp add: balance_of_def)

lemma wf_state_balance: "wf_state s \<Longrightarrow> balance_of s a < 2 ^ 256"
  by (auto simp: wf_state_def balance_of_def split: option.split)

lemma wf_state_upd: "wf_state s \<Longrightarrow> acc_balance acc < 2 ^ 256 \<Longrightarrow> wf_state (s(a \<mapsto> acc))"
  by (simp add: wf_state_def)

lemma wf_state_empty [simp]: "wf_state (\<lambda>_. None)"
  by (simp add: wf_state_def)

lemma total_money_balance: "finite (dom s) \<Longrightarrow> finite A \<Longrightarrow> dom s \<subseteq> A \<Longrightarrow> total_money s = (\<Sum>a\<in>A. balance_of s a)"
  unfolding total_money_def
  by (rule sum.mono_neutral_cong_left) (auto simp: balance_of_def split: option.splits)

lemma total_money_upd:
  assumes "finite (dom s)"
  shows "total_money (s(a \<mapsto> acc)) + balance_of s a = total_money s + acc_balance acc"
proof -
  let ?A = "insert a (dom s)"
  have "total_money (s(a \<mapsto> acc)) = (\<Sum>x\<in>?A. balance_of (s(a \<mapsto> acc)) x)" and "total_money s = (\<Sum>x\<in>?A. balance_of s x)"
    using assms by (auto intro!: total_money_balance)
  moreover have "(\<Sum>x\<in>?A. balance_of t x) = balance_of t a + (\<Sum>x\<in>dom s - {a}. balance_of t x)" for t
    using assms by (simp add: sum.insert_remove)
  moreover have "(\<Sum>x\<in>dom s - {a}. balance_of (s(a \<mapsto> acc)) x) = (\<Sum>x\<in>dom s - {a}. balance_of s x)"
    by (rule sum.cong) (auto simp: balance_of_def)
  moreover have "balance_of (s(a \<mapsto> acc)) a = acc_balance acc" by (simp add: balance_of_upd)
  ultimately show ?thesis by presburger
qed

lemma balance_le_total: "finite (dom s) \<Longrightarrow> balance_of s a \<le> total_money s"
proof (cases "s a")
  case (Some acc)
  assume "finite (dom s)"
  then have "acc_balance (the (s a)) \<le> total_money s"
    unfolding total_money_def using Some by (intro member_le_sum) auto
  with Some show ?thesis by simp
qed simp

lemma two_balances_le_total:
  assumes "finite (dom s)" and "a \<noteq> b"
  shows "balance_of s a + balance_of s b \<le> total_money s"
proof -
  let ?A = "insert a (insert b (dom s))"
  have "total_money s = (\<Sum>x\<in>?A. balance_of s x)" using assms by (auto intro: total_money_balance)
  moreover have "(\<Sum>x\<in>{a, b}. balance_of s x) \<le> (\<Sum>x\<in>?A. balance_of s x)"
    using assms(1) by (intro sum_mono2) auto
  ultimately show ?thesis using assms(2) by simp
qed

section \<open>Single account updates\<close>

lemma getAccount_lazy_eq:
  "getAccount_lazy a s = (let acc = (case s a of Some x \<Rightarrow> x | None \<Rightarrow> mk_AccountState CLIENT) in (acc, s(a \<mapsto> acc)))"
  by (cases "s a") (auto simp: getAccount_lazy_def Let_def fun_upd_idem)

lemma acc_balance_mk [simp]: "acc_balance (mk_AccountState t) = 0"
  by (simp add: mk_AccountState_def)

definition account_or_new :: "state_manager \<Rightarrow> address \<Rightarrow> account_state" where
  "account_or_new s a = (case s a of Some x \<Rightarrow> x | None \<Rightarrow> mk_AccountState CLIENT)"

lemma acc_balance_account_or_new [simp]: "acc_balance (account_or_new s a) = balance_of s a"
  by (simp add: account_or_new_def balance_of_def split: option.split)

lemma update_account_eq:
  "update_account a f s = rbind (f (account_or_new s a)) (\<lambda>acc. Inr (s(a \<mapsto> acc)))"
  by (simp add: update_account_def getAccount_lazy_eq Let_def account_or_new_def)

lemma addBalance_eq:
  "addBalance d a = (if acc_balance a + d < 2 ^ 256 then Inr (a\<lparr>acc_balance := acc_balance a + d\<rparr>) else Inl StdOverflowError)"
  by (simp add: addBalance_def u256_add_def)

lemma subBalance_eq:
  "subBalance d a = (if d \<le> acc_balance a then Inr (a\<lparr>acc_balance := acc_balance a - d\<rparr>) else Inl LogicError)"
  by (simp add: subBalance_def u256_sub_def not_less)

lemma add_account_money:
  assumes "wf_state s"
  shows "update_account a (addBalance d) s =
      (if balance_of s a + d < 2 ^ 256
       then Inr (s(a \<mapsto> (account_or_new s a)\<lparr>acc_balance := balance_of s a + d\<rparr>)) else Inl StdOverflowError)"
  by (simp add: update_account_eq addBalance_eq)

lemma sub_account_money:
  "update_account a (subBalance d) s =
      (if d \<le> balance_of s a
       then Inr (s(a \<mapsto> (account_or_new s a)\<lparr>acc_balance := balance_of s a - d\<rparr>)) else Inl LogicError)"
  by (simp add: update_account_eq subBalance_eq)

lemma addBalance_step:
  assumes "wf_state s" and "update_account a (addBalance d) s = Inr s'"
  shows "wf_state s' \<and> total_money s' = total_money s + d \<and> balance_of s' = (balance_of s)(a := balance_of s a + d)"
proof -
  from assms have d: "balance_of s a + d < 2 ^ 256"
    and s': "s' = s(a \<mapsto> (account_or_new s a)\<lparr>acc_balance := balance_of s a + d\<rparr>)"
    by (auto simp: add_account_money split: if_splits)
  have fin: "finite (dom s)" using assms(1) by (simp add: wf_state_def)
  have "wf_state s'" unfolding s' using assms(1) by (rule wf_state_upd) (use d in simp)
  then show ?thesis
    using total_money_upd [OF fin, of a "(account_or_new s a)\<lparr>acc_balance := balance_of s a + d\<rparr>"]
    by (auto simp: s' balance_of_upd fun_eq_iff)
qed

lemma subBalance_step:
  assumes "wf_state s" and "update_account a (subBalance d) s = Inr s'"
  shows "wf_state s' \<and> total_money s' + d = total_money s \<and> d \<le> balance_of s a
    \<and> balance_of s' = (balance_of s)(a := balance_of s a - d)"
proof -
  from assms(2) have d: "d \<le> balance_of s a"
    and s': "s' = s(a \<mapsto> (account_or_new s a)\<lparr>acc_balance := balance_of s a - d\<rparr>)"
    by (auto simp: sub_account_money split: if_splits)
  have fin: "finite (dom s)" using assms(1) by (simp add: wf_state_def)
  have "balance_of s a - d < 2 ^ 256" using wf_state_balance [OF assms(1), of a] by simp
  then have "wf_state s'" using assms(1) s' by (simp add: wf_state_upd)
  then show ?thesis
    using d total_money_upd [OF fin, of a "(account_or_new s a)\<lparr>acc_balance := balance_of s a - d\<rparr>"]
    by (auto simp: s' balance_of_upd fun_eq_iff)
qed

lemma addBalance_enough_room:
  "wf_state s \<Longrightarrow> total_money s + d < 2 ^ 256 \<Longrightarrow> \<exists>s'. update_account a (addBalance d) s = Inr s'"
  using balance_le_total [of s a] by (auto simp: add_account_money wf_state_def)

section \<open>Transfers\<close>

lemma createClientAccount_money:
  "wf_state s \<Longrightarrow> createClientAccount a s = Inr s' \<Longrightarrow>
     wf_state s' \<and> total_money s' = total_money s \<and> balance_of s' = balance_of s"
proof -
  assume wf: "wf_state s" and "createClientAccount a s = Inr s'"
  then have s': "s' = s(a \<mapsto> mk_AccountState CLIENT)" and "s a = None"
    by (auto simp: createClientAccount_def hasAccount_def std_map_insert_def split: if_splits)
  then have "balance_of s' = balance_of s" by (auto simp: balance_of_upd)
  moreover have "wf_state s'" unfolding s' using wf by (rule wf_state_upd) simp
  ultimately show ?thesis
    using total_money_upd [of s a "mk_AccountState CLIENT"] wf \<open>s a = None\<close> by (simp add: s' wf_state_def)
qed

lemma ensure_account:
  assumes "wf_state s"
  obtains s1 where "(if \<not> hasAccount s a then createClientAccount a s else Inr s) = Inr s1" and "wf_state s1"
    and "total_money s1 = total_money s" and "balance_of s1 = balance_of s"
proof (cases "hasAccount s a")
  case False
  then obtain s1 where "createClientAccount a s = Inr s1" by (simp add: createClientAccount_def)
  with that False createClientAccount_money [OF assms] show ?thesis by fastforce
qed (use assms that in auto)

text \<open>
  The complete behaviour of a transfer on a well-formed state whose money fits in 256 bits: it
  fails without a change when the sender is unknown or poor, otherwise it moves the amount.
\<close>

lemma tryTransferMoney_cases:
  assumes wf: "wf_state s" and total: "total_money s < 2 ^ 256"
  shows "if hasAccount s from \<and> amount \<le> balance_of s from
    then \<exists>s'. tryTransferMoney from to amount s = Inr (True, s') \<and> wf_state s' \<and> total_money s' = total_money s
         \<and> balance_of s' = (\<lambda>a. balance_of s a - (if a = from then amount else 0) + (if a = to then amount else 0))
    else tryTransferMoney from to amount s = Inr (False, s)"
proof (cases "hasAccount s from \<and> amount \<le> balance_of s from")
  case False
  then show ?thesis by (auto simp: tryTransferMoney_def hasAccount_def getAccount_lazy_def split: option.splits)
next
  case True
  then obtain acc where acc: "s from = Some acc" "amount \<le> acc_balance acc" by (auto simp: hasAccount_def)
  obtain s1 where s1: "(if \<not> hasAccount s to then createClientAccount to s else Inr s) = Inr s1"
    "wf_state s1" "total_money s1 = total_money s" "balance_of s1 = balance_of s"
    by (rule ensure_account [OF wf])
  have "amount \<le> balance_of s1 from" using True s1(4) by simp
  then obtain s2 where s2: "update_account from (subBalance amount) s1 = Inr s2" by (simp add: sub_account_money)
  note f2 = subBalance_step [OF s1(2) s2]
  then have "total_money s2 + amount < 2 ^ 256" using total s1(3) by simp
  then obtain s3 where s3: "update_account to (addBalance amount) s2 = Inr s3"
    using addBalance_enough_room f2 by blast
  have f3: "wf_state s3" "total_money s3 = total_money s2 + amount"
    "balance_of s3 = (balance_of s2)(to := balance_of s2 to + amount)"
    using addBalance_step [OF _ s3] f2 by auto
  have "tryTransferMoney from to amount s = Inr (True, s3)"
    using acc s1(1) s2 s3 by (simp add: tryTransferMoney_def hasAccount_def getAccount_lazy_def)
  moreover have "balance_of s3 = (\<lambda>a. balance_of s a - (if a = from then amount else 0) + (if a = to then amount else 0))"
    using f2 f3 s1(4) by (auto simp: fun_eq_iff)
  ultimately show ?thesis using True f2 f3 s1(3) by auto
qed

lemma tryTransferMoney_money:
  assumes "wf_state s" and "total_money s < 2 ^ 256" and "tryTransferMoney from to amount s = Inr (b, s')"
  shows "wf_state s' \<and> total_money s' = total_money s"
  using tryTransferMoney_cases [OF assms(1,2), of "from" amount to] assms by (auto split: if_splits)

section \<open>Contracts, deletion and genesis\<close>

lemma createContractAccount_money:
  assumes "wf_state s" and "createContractAccount X from h s = (addr, s')" and "balance_of s addr = 0"
  shows "wf_state s' \<and> total_money s' = total_money s \<and> balance_of s' = balance_of s"
proof -
  let ?s1 = "s(from \<mapsto> account_or_new s from)"
  have s': "s' = ?s1(addr \<mapsto> setCodeHash h (mk_AccountState CONTRACT))"
    using assms(2) by (auto simp: createContractAccount_def getAccount_lazy_eq account_or_new_def Let_def)
  have b: "acc_balance (setCodeHash h (mk_AccountState CONTRACT)) = 0" by (simp add: setCodeHash_def mk_AccountState_def)
  have wf1: "wf_state ?s1" using assms(1) wf_state_balance [OF assms(1)] by (simp add: wf_state_upd)
  then have "wf_state s'" unfolding s' by (rule wf_state_upd) (simp add: b)
  have b1: "balance_of ?s1 = balance_of s" by (auto simp: balance_of_upd fun_eq_iff)
  have "total_money ?s1 = total_money s"
    using total_money_upd [of s "from" "account_or_new s from"] assms(1) by (simp add: wf_state_def)
  moreover have "total_money s' = total_money ?s1"
    using total_money_upd [of ?s1 addr "setCodeHash h (mk_AccountState CONTRACT)"] wf1 b b1 assms(3)
    unfolding s' by (simp add: wf_state_def)
  moreover have "balance_of s' = balance_of s" using assms(3) b b1 by (auto simp: s' balance_of_upd fun_eq_iff)
  ultimately show ?thesis using \<open>wf_state s'\<close> by simp
qed

lemma deleteAccount_money:
  assumes "wf_state s" and "deleteAccount a s = (r, s')"
  shows "wf_state s' \<and> total_money s' + balance_of s a = total_money s \<and> balance_of s' = (balance_of s)(a := 0)"
proof (cases "s a")
  case None
  then have "s' = s" using assms(2) by (simp add: deleteAccount_def)
  then show ?thesis using assms None by auto
next
  case (Some acc)
  then have s': "s' = s(a := None)" using assms(2) by (simp add: deleteAccount_def)
  have fin: "finite (dom s)" using assms(1) by (simp add: wf_state_def)
  have "a \<in> dom s" and dom: "dom s' = dom s - {a}" using Some by (auto simp: s')
  then have "total_money s = balance_of s a + (\<Sum>x\<in>dom s'. balance_of s x)"
    using fin total_money_balance [of s "dom s"] sum.remove [of "dom s" a "balance_of s"] by simp
  moreover have "(\<Sum>x\<in>dom s'. balance_of s x) = total_money s'"
    unfolding total_money_def by (rule sum.cong) (auto simp: s' balance_of_def)
  ultimately show ?thesis using assms(1) by (auto simp: s' wf_state_def balance_of_def fun_eq_iff)
qed

lemma updateFromGenesis_first:
  "updateFromGenesis b s a = (case s a of Some acc \<Rightarrow> Some acc
     | None \<Rightarrow> map_option (\<lambda>tx. setBalance (tx_amount tx) (mk_AccountState CLIENT)) (List.find (\<lambda>tx. tx_to tx = a) (blk_txs b)))"
proof -
  have "fold (\<lambda>tx s. std_map_insert (tx_to tx) (setBalance (tx_amount tx) (mk_AccountState CLIENT)) s) txs s a =
      (case s a of Some acc \<Rightarrow> Some acc
       | None \<Rightarrow> map_option (\<lambda>tx. setBalance (tx_amount tx) (mk_AccountState CLIENT)) (List.find (\<lambda>tx. tx_to tx = a) txs))"
    for txs
    by (induction txs arbitrary: s) (auto simp: std_map_insert_def split: option.split)
  then show ?thesis by (simp add: updateFromGenesis_def)
qed

section \<open>Properties\<close>

text \<open>
  C17: a transfer between accounts, sender and receiver equal or not: without an account or
  with less than the amount nothing changes and the answer is no; otherwise exactly the amount
  moves, the total stays the same and no other balance changes.
\<close>

theorem transfer_moves_money:
  assumes "wf_state s" and "total_money s < 2 ^ 256"
  shows "if hasAccount s from \<and> amount \<le> balance_of s from
    then \<exists>s'. tryTransferMoney from to amount s = Inr (True, s') \<and> wf_state s' \<and> total_money s' = total_money s
         \<and> balance_of s' = (\<lambda>a. balance_of s a - (if a = from then amount else 0) + (if a = to then amount else 0))
    else tryTransferMoney from to amount s = Inr (False, s)"
  by (rule tryTransferMoney_cases [OF assms])

theorem transfer_moves_money_witness:
  "\<exists>s'. tryTransferMoney [1] [2] 3 [[1] \<mapsto> setBalance 5 (mk_AccountState CLIENT)] = Inr (True, s') \<and> balance_of s' [1] = 2 \<and> balance_of s' [2] = 3"
proof -
  let ?s = "[[1] \<mapsto> setBalance 5 (mk_AccountState CLIENT)]"
  have "wf_state ?s" and "total_money ?s < 2 ^ 256"
    by (auto simp: wf_state_def total_money_def setBalance_def split: if_splits)
  note t = transfer_moves_money [OF this, of "[1]" 3 "[2]"]
  have "hasAccount ?s [1]" and bal: "balance_of ?s = (\<lambda>a. if a = [1] then 5 else 0)"
    by (auto simp: hasAccount_def balance_of_def setBalance_def)
  with t obtain s' where "tryTransferMoney [1] [2] 3 ?s = Inr (True, s')"
    "balance_of s' = (\<lambda>a. balance_of ?s a - (if a = [1] then 3 else 0) + (if a = [2] then 3 else 0))" by auto
  then show ?thesis by (simp add: bal)
qed

end
