(* ===== verification/VmTools.thy ===== *)
theory VmTools
  imports Transaction
begin

text \<open>
  The conversions between the node's types and those of the EVM interface and the ABI helpers of
  \<^verbatim>\<open>src/vm/tools.cpp\<close>: 20-byte addresses, 32-byte words, balances as big-endian words, and the
  length-prefixed padded strings of the contract ABI. The regular-expression and Python based
  message encoding of the same file is not part of the model.
\<close>

section \<open>Conversions\<close>

definition vm_copy :: "bytes \<Rightarrow> nat \<Rightarrow> bytes" where
  "vm_copy t t_size = take t_size t"

definition toAddress :: "bytes \<Rightarrow> bytes res" where
  "toAddress data = (if length data \<noteq> 20 then Inl InvalidArgument else Inr data)"

definition toEvmcBytes32 :: "bytes \<Rightarrow> bytes res" where
  "toEvmcBytes32 data = (if length data \<noteq> 32 then Inl InvalidArgument else Inr data)"

definition toNativeAddress :: "bytes \<Rightarrow> address res" where
  "toNativeAddress addr = address_of_bytes addr"

definition toEthAddress :: "address \<Rightarrow> bytes res" where
  "toEthAddress a = assert_that (length a = 20) (Inr a)"

text \<open>\<^verbatim>\<open>std::strtoull\<close> in base 16: it reads the hexadecimal prefix and saturates at the largest 64-bit value.\<close>

fun hex_prefix :: "string \<Rightarrow> nat list" where
  "hex_prefix [] = []"
| "hex_prefix (c # cs) = (case hexToInt c of Inr d \<Rightarrow> d # hex_prefix cs | Inl e \<Rightarrow> [])"

definition std_strtoull16 :: "string \<Rightarrow> 64 word" where
  "std_strtoull16 s = (let v = val_be 16 (hex_prefix s) in if v < 2 ^ 64 then of_nat v else - 1)"

definition toBalance :: "bytes \<Rightarrow> balance" where
  "toBalance value = unat (std_strtoull16 (toHex value))"

text \<open>The loop of \<^verbatim>\<open>detail::encode(lk::Balance)\<close>: one byte per turn from the last one on.\<close>

fun encode_balance_loop :: "ext \<Rightarrow> nat \<Rightarrow> nat \<Rightarrow> bytes \<Rightarrow> bytes" where
  "encode_balance_loop X value 0 ret = ret"
| "encode_balance_loop X value (Suc i) ret =
     encode_balance_loop X (value div 256) i (ret[i := of_nat (std_atoi (big_str X (value mod 256)))])"

definition encode_balance :: "ext \<Rightarrow> nat \<Rightarrow> bytes" where
  "encode_balance X value = encode_balance_loop X value 32 (replicate 32 0)"

definition toEvmcUint256 :: "ext \<Rightarrow> balance \<Rightarrow> bytes" where
  "toEvmcUint256 X balance = encode_balance X balance"

text \<open>\<^verbatim>\<open>detail::encode<N>\<close> for an unsigned integer of \<open>n\<close> bytes on a little-endian host.\<close>

definition encode_uint :: "nat \<Rightarrow> nat \<Rightarrow> bytes res" where
  "encode_uint n value =
     (if n > 32 then Inl InvalidArgument
      else Inr (replicate (32 - n) 0 @ rev (to_memory True n value)))"

definition encode_size_t :: "64 word \<Rightarrow> bytes res" where
  "encode_size_t value = encode_uint 8 (unat value)"

definition encode_u32 :: "32 word \<Rightarrow> bytes res" where
  "encode_u32 value = encode_uint 4 (unat value)"

definition encode_u16 :: "16 word \<Rightarrow> bytes res" where
  "encode_u16 value = encode_uint 2 (unat value)"

definition encode_u8 :: "8 word \<Rightarrow> bytes res" where
  "encode_u8 value = encode_uint 1 (unat value)"

definition vm_address_toBytes :: "bytes \<Rightarrow> bytes" where
  "vm_address_toBytes addr = vm_copy addr 20"

definition vm_bytes32_toBytes :: "bytes \<Rightarrow> bytes" where
  "vm_bytes32_toBytes bs = vm_copy bs 32"

definition decodeAsSizeT :: "bytes \<Rightarrow> 64 word res" where
  "decodeAsSizeT data =
     (if length data mod 32 \<noteq> 0 then Inl InvalidArgument
      else rbind (takePart data (length data - 8) (length data)) (\<lambda>real_part.
        Inr (of_nat (from_memory True (rev real_part)))))"

definition encode_string :: "string \<Rightarrow> bytes res" where
  "encode_string str =
     rbind (encode_size_t (of_nat (length str))) (\<lambda>str_len.
       (let size = length str;
            result_size = (if size mod 32 \<noteq> 0 then (size div 32 + 1) * 32 else size)
        in Inr (str_len @ string_to_bytes str @ replicate (result_size - size) 0)))"

definition decodeAsString :: "bytes \<Rightarrow> string res" where
  "decodeAsString data =
     rbind (takePart data 0 32) (\<lambda>str_len_data.
     rbind (decodeAsSizeT str_len_data) (\<lambda>str_len.
     rbind (takePart data 32 (unat (32 + str_len))) (\<lambda>str_data. Inr (bytes_to_string str_data))))"

definition getStringArg :: "nat \<Rightarrow> bytes \<Rightarrow> string res" where
  "getStringArg position data =
     (let offset_data_start = position * 32; offset_data_end = offset_data_start + 32 in
      rbind (takePart data offset_data_start offset_data_end) (\<lambda>d.
      rbind (decodeAsSizeT d) (\<lambda>offset.
      rbind (takePart data (unat offset) (length data)) decodeAsString)))"

section \<open>Addresses and words\<close>

lemma toNativeAddress_toEthAddress: "wf_address a \<Longrightarrow> rbind (toEthAddress a) toNativeAddress = Inr a"
  by (simp add: toEthAddress_def toNativeAddress_def address_of_bytes_def fixed_bytes_def wf_address_def
      LENGTH_IN_BYTES_def)

lemma toNativeAddress_wf: "toNativeAddress addr = Inr a \<longleftrightarrow> a = addr \<and> wf_address addr"
  by (simp add: toNativeAddress_def address_of_bytes_wf)

section \<open>Balances\<close>

lemma encode_balance_loop_value:
  assumes "big_ok X" and "i \<le> length ret"
  shows "length (encode_balance_loop X v i ret) = length ret \<and> drop i (encode_balance_loop X v i ret) = drop i ret
    \<and> nat_of_bytes (take i (encode_balance_loop X v i ret)) = v mod 256 ^ i"
  using assms(2)
proof (induction i arbitrary: v ret)
  case 0
  then show ?case by (simp add: nat_of_bytes_def)
next
  case (Suc i)
  define b :: byte where "b = of_nat (std_atoi (big_str X (v mod 256)))"
  let ?r = "encode_balance_loop X (v div 256) i (ret[i := b])"
  have "(v mod 256) < 2 ^ 256" by (rule less_trans [of _ 256]) simp_all
  then have "std_atoi (big_str X (v mod 256)) = v mod 256"
    using assms(1) by (simp add: big_ok_def std_atoi_to_string)
  then have b: "unat b = v mod 256" by (simp add: b_def unat_of_nat)
  have IH: "length ?r = length ret" "drop i ?r = drop i (ret[i := b])"
    "nat_of_bytes (take i ?r) = v div 256 mod 256 ^ i"
    using Suc.IH [of "ret[i := b]" "v div 256"] Suc.prems by auto
  have len: "i < length ret" using Suc.prems by simp
  have "?r ! i = b" using IH(1,2) len
    by (metis Cons_nth_drop_Suc length_list_update list.inject nth_list_update_eq)
  then have "take (Suc i) ?r = take i ?r @ [b]" using IH(1) len by (simp add: take_Suc_conv_app_nth)
  then have "nat_of_bytes (take (Suc i) ?r) = (v div 256 mod 256 ^ i) * 256 + v mod 256"
    using IH(3) b by (simp add: nat_of_bytes_def)
  moreover have "v mod 256 ^ Suc i = (v div 256 mod 256 ^ i) * 256 + v mod 256"
    by (simp add: mod_mult2_eq)
  moreover have "drop (Suc i) ?r = drop (Suc i) ret" using IH(2) by (metis drop_Suc drop_update_cancel lessI tl_drop)
  ultimately show ?case using IH(1) by (simp add: b_def)
qed

lemma toEvmcUint256_value:
  "big_ok X \<Longrightarrow> v < 2 ^ 256 \<Longrightarrow> length (toEvmcUint256 X v) = 32 \<and> nat_of_bytes (toEvmcUint256 X v) = v"
  using encode_balance_loop_value [of X 32 "replicate 32 0" v]
  by (auto simp: toEvmcUint256_def encode_balance_def)

lemma hex_prefix_toHex: "hex_prefix (toHex bs) = concat (map (\<lambda>b. [unat (drop_bit 4 b), unat (b AND 0xF)]) bs)"
  using nibbles by (induction bs) (simp_all add: toHex_def hexToInt_HEX_DIGITS)

lemma val_hex_prefix_toHex: "val_be 16 (hex_prefix (toHex bs)) = nat_of_bytes bs"
proof (induction bs rule: rev_induct)
  case (snoc b bs)
  have "val_be 16 (hex_prefix (toHex (bs @ [b])))
      = val_be 16 (hex_prefix (toHex bs) @ [unat (drop_bit 4 b), unat (b AND 0xF)])"
    by (simp add: hex_prefix_toHex)
  also have "\<dots> = val_be 16 (hex_prefix (toHex bs)) * 256 + (unat (drop_bit 4 b) * 16 + unat (b AND 0xF))"
    by (simp add: val_be_append) (simp add: val_be_def)
  finally show ?case using snoc nibbles(3) [of b] by (simp add: nat_of_bytes_def)
qed (simp add: nat_of_bytes_def toHex_def)

text \<open>Reading a word as a balance is exact below 64 bits and saturates above.\<close>

lemma toBalance_value: "toBalance value = min (nat_of_bytes value) (2 ^ 64 - 1)"
proof (cases "nat_of_bytes value < 2 ^ 64")
  case True
  then show ?thesis by (simp add: toBalance_def std_strtoull16_def val_hex_prefix_toHex Let_def unat_of_nat)
next
  case False
  have "unat (- 1 :: 64 word) = 2 ^ 64 - 1" by (simp add: unsigned_minus_1_eq_mask mask_eq_exp_minus_1)
  with False show ?thesis by (simp add: toBalance_def std_strtoull16_def val_hex_prefix_toHex Let_def)
qed

lemma toBalance_toEvmcUint256:
  "big_ok X \<Longrightarrow> v < 2 ^ 256 \<Longrightarrow> toBalance (toEvmcUint256 X v) = min v (2 ^ 64 - 1)"
  using toEvmcUint256_value [of X v] by (simp add: toBalance_value)

section \<open>The string format\<close>

text \<open>A number of any of the narrower widths has the same 32 bytes as the number of 64 bits, and is read back.\<close>

lemma nat_of_le_zeros: "nat_of_le (bs @ replicate k 0) = nat_of_le bs"
  by (simp add: nat_of_le_def val_le_append val_le_zeros)

lemma encode_uint_decodes:
  assumes "n \<le> 8" and "v < 256 ^ n"
  shows "\<exists>bs. encode_uint n v = Inr bs \<and> length bs = 32 \<and> decodeAsSizeT bs = Inr (of_nat v)"
proof -
  let ?bs = "replicate (32 - n) 0 @ rev (le_bytes n v)"
  have "drop 24 ?bs = replicate (8 - n) 0 @ rev (le_bytes n v)" using assms(1) by simp
  then have "rev (drop 24 ?bs) = le_bytes n v @ replicate (8 - n) 0" by simp
  then have "nat_of_le (rev (drop 24 ?bs)) = v" using assms(2) by (simp only: nat_of_le_zeros nat_of_le_le_bytes mod_less)
  moreover have "length ?bs = 32" using assms(1) by simp
  ultimately have "decodeAsSizeT ?bs = Inr (of_nat v)" by (simp add: decodeAsSizeT_def takePart_def from_memory_def)
  then show ?thesis using assms(1) by (simp add: encode_uint_def to_memory_def)
qed

lemma narrow_encodings:
  "\<exists>bs. encode_u32 a = Inr bs \<and> length bs = 32 \<and> decodeAsSizeT bs = Inr (ucast a)"
  "\<exists>bs. encode_u16 b = Inr bs \<and> length bs = 32 \<and> decodeAsSizeT bs = Inr (ucast b)"
  "\<exists>bs. encode_u8 c = Inr bs \<and> length bs = 32 \<and> decodeAsSizeT bs = Inr (ucast c)"
  using encode_uint_decodes [of 4 "unat a"] encode_uint_decodes [of 2 "unat b"] encode_uint_decodes [of 1 "unat c"]
    unsigned_less [of a, where ?'a = nat] unsigned_less [of b, where ?'a = nat] unsigned_less [of c, where ?'a = nat]
  by (simp_all add: encode_u32_def encode_u16_def encode_u8_def unsigned_ucast_eq)

lemma encode_size_t_Inr: "\<exists>bs. encode_size_t v = Inr bs \<and> length bs = 32 \<and> decodeAsSizeT bs = Inr v"
proof -
  let ?bs = "replicate 24 0 @ rev (le_bytes 8 (unat v))"
  have "unat v < 256 ^ 8" using unsigned_less [of v, where ?'a = nat] by simp
  then have "of_nat (nat_of_le (le_bytes 8 (unat v))) = v" by (simp add: nat_of_le_le_bytes)
  then have "decodeAsSizeT ?bs = Inr v" by (simp add: decodeAsSizeT_def takePart_def from_memory_def)
  then show ?thesis by (simp add: encode_size_t_def encode_uint_def to_memory_def)
qed

lemma decodeAsString_encode:
  assumes "s \<noteq> []" and "length s < 2 ^ 63" and "encode_string s = Inr bs"
  shows "decodeAsString (bs @ rest) = Inr s"
proof -
  define n :: "64 word" where "n = of_nat (length s)"
  obtain l where l: "encode_size_t n = Inr l" "length l = 32" "decodeAsSizeT l = Inr n"
    using encode_size_t_Inr by blast
  with assms(3) obtain pad where bs: "bs = l @ string_to_bytes s @ replicate pad 0"
    by (auto simp: encode_string_def n_def Let_def)
  have "unat (32 + n) = 32 + length s" using assms(2) by (simp add: n_def unat_word_ariths unat_of_nat)
  then show ?thesis using l assms(1)
    by (simp add: decodeAsString_def takePart_def bs)
qed

section \<open>Properties\<close>

text \<open>
  A balance is handed to the virtual machine as the 32-byte big-endian word of its value,
  but a value coming back is read with 64 bits: every amount of 2^64 or more is replaced by
  2^64 - 1.
\<close>

theorem balance_word_roundtrip_saturates:
  assumes "big_ok X" and "v < 2 ^ 256"
  shows "length (toEvmcUint256 X v) = 32 \<and> nat_of_bytes (toEvmcUint256 X v) = v
    \<and> toBalance (toEvmcUint256 X v) = min v (2 ^ 64 - 1)"
  using toEvmcUint256_value [OF assms] toBalance_toEvmcUint256 [OF assms] by simp

theorem balance_word_roundtrip_saturates_witness:
  "toBalance (toEvmcUint256 demo_ext (2 ^ 100)) = 2 ^ 64 - 1"
  using balance_word_roundtrip_saturates [OF demo_ext_ok(2), of "2 ^ 100"] by simp

text \<open>
  The ABI form of a non-empty string (length word, characters, zero padding) decodes to the
  string, whatever follows it.
\<close>

theorem abi_string_roundtrip:
  assumes "s \<noteq> []" and "length s < 2 ^ 63"
  shows "\<exists>bs. encode_string s = Inr bs \<and> length bs mod 32 = 0 \<and> decodeAsString (bs @ rest) = Inr s"
proof -
  obtain l where l: "encode_size_t (of_nat (length s)) = Inr l" "length l = 32" using encode_size_t_Inr by blast
  obtain k where k: "(if length s mod 32 \<noteq> 0 then (length s div 32 + 1) * 32 else length s) = 32 * k" and "length s \<le> 32 * k"
  proof (cases "length s mod 32 = 0")
    case True
    then show ?thesis using that [of "length s div 32"] by auto
  next
    case False
    have "length s \<le> (length s div 32 + 1) * 32"
      by presburger
    then show ?thesis using that [of "length s div 32 + 1"] False by (simp add: mult.commute)
  qed
  have "encode_string s = Inr (l @ string_to_bytes s @ replicate (32 * k - length s) 0)"
    using l(1) k by (simp add: encode_string_def Let_def)
  moreover have "length (l @ string_to_bytes s @ replicate (32 * k - length s) 0) mod 32 = 0"
    using l(2) \<open>length s \<le> 32 * k\<close> by simp
  ultimately show ?thesis using decodeAsString_encode [OF assms, of _ rest] by metis
qed

theorem abi_string_roundtrip_witness: "\<exists>bs. encode_string ''abc'' = Inr bs \<and> decodeAsString (bs @ []) = Inr ''abc''"
  using abi_string_roundtrip [of "''abc''" "[]"] by auto

end
