(* ===== verification/EthHost.thy ===== *)
theory EthHost
  imports Managers VmTools Blockchain
begin

text \<open>
  The host side of the EVM interface: class \<^verbatim>\<open>EthHost\<close> of \<^verbatim>\<open>src/core/core.cpp\<close>. Each callback is a function
  on the state manager; none of them lets an exception out (\<^verbatim>\<open>noexcept\<close> with \<^verbatim>\<open>catch (...)\<close>). The
  virtual machine is not part of the repository: it is an argument of type \<open>evm\<close>, and
  \<open>evm_ok\<close> is the contract of the interface the node relies on: an execution changes the
  accounts only through finitely many callbacks, and the gas left is what the interface allows.
  The result for the node is that whatever a contract does, money is never created.
\<close>

section \<open>Messages and results\<close>

datatype evmc_status = EVMC_SUCCESS | EVMC_FAILURE | EVMC_REVERT | EVMC_OTHER

datatype storage_status = EVMC_STORAGE_UNCHANGED | EVMC_STORAGE_MODIFIED | EVMC_STORAGE_ADDED | EVMC_STORAGE_DELETED

record evmc_message =
  msg_depth :: "32 word"
  msg_gas :: "64 word"
  msg_destination :: bytes
  msg_sender :: bytes
  msg_input_data :: bytes
  msg_value :: bytes

record evmc_result =
  res_status :: evmc_status
  res_gas_left :: "64 word"
  res_output_data :: bytes

text \<open>What a host object is constructed with: the chain, the block and the transaction.\<close>

record host_context =
  hc_blockchain :: blockchain
  hc_block :: iblock
  hc_tx :: transaction

record evmc_tx_context =
  ctx_tx_gas_price :: bytes
  ctx_tx_origin :: bytes
  ctx_block_coinbase :: bytes
  ctx_block_number :: "64 word"
  ctx_block_timestamp :: "64 word"
  ctx_block_difficulty :: bytes

type_synonym evm = "host_context \<Rightarrow> evmc_message \<Rightarrow> bytes \<Rightarrow> state_manager \<Rightarrow> evmc_result \<times> state_manager"

definition callVm ::
  "evm \<Rightarrow> host_context \<Rightarrow> evmc_message \<Rightarrow> bytes \<Rightarrow> state_manager \<Rightarrow> evmc_result \<times> state_manager" where
  "callVm vm_execute ctx message code s = vm_execute ctx message code s"

section \<open>Callbacks\<close>

definition zero32 :: bytes where
  "zero32 = replicate 32 0"

definition account_exists :: "bytes \<Rightarrow> state_manager \<Rightarrow> bool" where
  "account_exists addr s = (case toNativeAddress addr of Inl e \<Rightarrow> False | Inr a \<Rightarrow> hasAccount s a)"

definition get_storage :: "bytes \<Rightarrow> bytes \<Rightarrow> state_manager \<Rightarrow> bytes" where
  "get_storage addr ethKey s =
     (case toNativeAddress addr of Inl e \<Rightarrow> zero32
      | Inr a \<Rightarrow>
          if hasAccount s a then
            (case rbind (sha256_of ethKey) (\<lambda>key. rbind (getAccount s a) (getStorageValue key)) of
               Inl e \<Rightarrow> zero32
             | Inr sd \<Rightarrow> (case toEvmcBytes32 (sd_data sd) of Inl e \<Rightarrow> zero32 | Inr v \<Rightarrow> v))
          else zero32)"

definition set_storage :: "bytes \<Rightarrow> bytes \<Rightarrow> bytes \<Rightarrow> state_manager \<Rightarrow> storage_status \<times> state_manager" where
  "set_storage addr ekey evalue s =
     (case rbind (toNativeAddress addr) (\<lambda>a. rbind (sha256_of ekey) (\<lambda>key. Inr (a, key))) of
        Inl e \<Rightarrow> (EVMC_STORAGE_UNCHANGED, s)
      | Inr (a, key) \<Rightarrow>
          (case getAccount_lazy a s of (account_state, s) \<Rightarrow>
             if \<not> checkStorageValue key account_state then
               (if evalue = zero32 then (EVMC_STORAGE_UNCHANGED, s)
                else (EVMC_STORAGE_ADDED, s(a \<mapsto> setStorageValue key evalue account_state)))
             else
               (case getStorageValue key account_state of
                  Inl e \<Rightarrow> (EVMC_STORAGE_UNCHANGED, s)
                | Inr old \<Rightarrow>
                    (if sd_data old = evalue then EVMC_STORAGE_UNCHANGED
                     else if evalue = zero32 then EVMC_STORAGE_DELETED else EVMC_STORAGE_MODIFIED,
                     s(a \<mapsto> setStorageValue key evalue account_state)))))"

definition get_balance :: "ext \<Rightarrow> bytes \<Rightarrow> state_manager \<Rightarrow> bytes" where
  "get_balance X addr s =
     (case toNativeAddress addr of Inl e \<Rightarrow> zero32
      | Inr a \<Rightarrow> (case s a of Some acc \<Rightarrow> toEvmcUint256 X (acc_balance acc) | None \<Rightarrow> zero32))"

definition get_code_size :: "bytes \<Rightarrow> state_manager \<Rightarrow> nat" where
  "get_code_size addr s =
     (case toNativeAddress addr of Inl e \<Rightarrow> 0
      | Inr a \<Rightarrow> (case s a of Some acc \<Rightarrow> length (acc_runtime_code acc) | None \<Rightarrow> 0))"

text \<open>The next two read through the creating \<^verbatim>\<open>getAccount\<close> and so add the account they ask for.\<close>

definition get_code_hash :: "bytes \<Rightarrow> state_manager \<Rightarrow> bytes \<times> state_manager" where
  "get_code_hash addr s =
     (case toNativeAddress addr of Inl e \<Rightarrow> (zero32, s)
      | Inr a \<Rightarrow> (case getAccount_lazy a s of (acc, s) \<Rightarrow> (acc_code_hash acc, s)))"

text \<open>
  The buffer is returned as what was written to it. \<^verbatim>\<open>code.size() - code_offset\<close> wraps around when the
  offset lies behind the code, and the copy then reads outside of it.
\<close>

definition copy_code :: "bytes \<Rightarrow> 64 word \<Rightarrow> 64 word \<Rightarrow> state_manager \<Rightarrow> bytes res \<times> state_manager" where
  "copy_code addr code_offset buffer_size s =
     (case toNativeAddress addr of Inl e \<Rightarrow> (Inr [], s)
      | Inr a \<Rightarrow>
          (case getAccount_lazy a s of (acc, s) \<Rightarrow>
             (let code = acc_runtime_code acc in
              if code = [] then (Inr [], s)
              else
                (let bytes_to_copy = min buffer_size (of_nat (length code) - code_offset) in
                 (if unat code_offset + unat bytes_to_copy \<le> length code
                  then Inr (take (unat bytes_to_copy) (drop (unat code_offset) code)) else Inl OutOfBounds, s)))))"

definition selfdestruct :: "bytes \<Rightarrow> bytes \<Rightarrow> state_manager \<Rightarrow> state_manager" where
  "selfdestruct eaddr ebeneficiary s =
     (case toNativeAddress eaddr of Inl e \<Rightarrow> s
      | Inr address \<Rightarrow>
          (case getAccount_lazy address s of (account, s) \<Rightarrow>
             (case toNativeAddress ebeneficiary of Inl e \<Rightarrow> s
              | Inr beneficiary_address \<Rightarrow>
                  (case getAccount_lazy beneficiary_address s of (beneficiary_account, s) \<Rightarrow>
                     (case tryTransferMoney address beneficiary_address (acc_balance account) s of
                        Inl e \<Rightarrow> s
                      | Inr (b, s) \<Rightarrow> snd (deleteAccount address s))))))"

text \<open>A call to an address without code: a plain transfer whose outcome is not looked at.\<close>

definition call_transfer :: "evmc_message \<Rightarrow> address \<Rightarrow> state_manager \<Rightarrow> evmc_result \<times> state_manager" where
  "call_transfer msg to s =
     (case toNativeAddress (msg_sender msg) of
        Inl e \<Rightarrow> (\<lparr>res_status = EVMC_FAILURE, res_gas_left = msg_gas msg, res_output_data = []\<rparr>, s)
      | Inr from \<Rightarrow>
          (case tryTransferMoney from to (toBalance (msg_value msg)) s of
             Inl e \<Rightarrow> (\<lparr>res_status = EVMC_FAILURE, res_gas_left = msg_gas msg, res_output_data = []\<rparr>, s)
           | Inr (b, s) \<Rightarrow> (\<lparr>res_status = EVMC_SUCCESS, res_gas_left = msg_gas msg, res_output_data = []\<rparr>, s)))"

definition host_call :: "evm \<Rightarrow> host_context \<Rightarrow> evmc_message \<Rightarrow> state_manager \<Rightarrow> evmc_result \<times> state_manager" where
  "host_call vm_execute ctx msg s =
     (case toNativeAddress (msg_destination msg) of
        Inl e \<Rightarrow> (\<lparr>res_status = EVMC_FAILURE, res_gas_left = msg_gas msg, res_output_data = []\<rparr>, s)
      | Inr to \<Rightarrow>
          (case s to of
             Some acc \<Rightarrow>
               if acc_type acc = CONTRACT then callVm vm_execute ctx msg (acc_runtime_code acc) s
               else call_transfer msg to s
           | None \<Rightarrow> call_transfer msg to s))"

definition get_tx_context :: "host_context \<Rightarrow> evmc_tx_context" where
  "get_tx_context ctx =
     \<lparr>ctx_tx_gas_price = zero32, ctx_tx_origin = tx_from (hc_tx ctx), ctx_block_coinbase = blk_coinbase (hc_block ctx),
      ctx_block_number = blk_depth (hc_block ctx), ctx_block_timestamp = ucast (blk_timestamp (hc_block ctx)),
      ctx_block_difficulty = zero32[2 := 0x28]\<rparr>"

definition get_block_hash :: "host_context \<Rightarrow> 64 word \<Rightarrow> bytes" where
  "get_block_hash ctx block_number =
     (case findBlockHashByDepth (hc_blockchain ctx) block_number of Some hash \<Rightarrow> hash | None \<Rightarrow> zero32)"

section \<open>The interface of the virtual machine\<close>

text \<open>One callback that may change accounts; a nested contract call is a sequence of them.\<close>

inductive host_step :: "state_manager \<Rightarrow> state_manager \<Rightarrow> bool" where
  step_set_storage: "set_storage addr key v s = (st, s') \<Longrightarrow> host_step s s'"
| step_get_code_hash: "get_code_hash addr s = (h, s') \<Longrightarrow> host_step s s'"
| step_copy_code: "copy_code addr off n s = (r, s') \<Longrightarrow> host_step s s'"
| step_selfdestruct: "host_step s (selfdestruct addr ben s)"
| step_transfer: "call_transfer msg to s = (r, s') \<Longrightarrow> host_step s s'"

inductive_simps host_step_iff: "host_step s s'"

definition evm_ok :: "evm \<Rightarrow> bool" where
  "evm_ok vm_execute \<longleftrightarrow> (\<forall>ctx msg code s r s'. vm_execute ctx msg code s = (r, s') \<longrightarrow>
     host_step\<^sup>*\<^sup>* s s' \<and> (msg_gas msg < 2 ^ 63 \<longrightarrow> res_gas_left r \<le> msg_gas msg)
     \<and> (res_status r \<notin> {EVMC_SUCCESS, EVMC_REVERT} \<longrightarrow> res_gas_left r = 0))"

lemma host_call_steps:
  assumes "evm_ok vm" and "host_call vm ctx msg s = (r, s')"
  shows "host_step\<^sup>*\<^sup>* s s'"
proof -
  have "call_transfer msg to s = (r, s') \<Longrightarrow> host_step\<^sup>*\<^sup>* s s'" for to
    by (blast intro: step_transfer)
  moreover have "vm ctx msg code s = (r, s') \<Longrightarrow> host_step\<^sup>*\<^sup>* s s'" for code
    using assms(1) unfolding evm_ok_def by blast
  ultimately show ?thesis using assms(2)
    by (auto simp: host_call_def callVm_def split: sum.splits option.splits if_splits)
qed

section \<open>Contracts do not create money\<close>

text \<open>A change that keeps the state well-formed and does not increase the money.\<close>

definition no_mint :: "state_manager \<Rightarrow> state_manager \<Rightarrow> bool" where
  "no_mint s s' \<longleftrightarrow> (wf_state s \<and> total_money s < 2 ^ 256 \<longrightarrow> wf_state s' \<and> total_money s' \<le> total_money s)"

lemma no_mint_refl [simp]: "no_mint s s"
  by (simp add: no_mint_def)

lemma no_mint_trans: "no_mint s t \<Longrightarrow> no_mint t u \<Longrightarrow> no_mint s u"
  by (auto simp: no_mint_def)

lemma getAccount_lazy_money:
  assumes "wf_state s" and "getAccount_lazy a s = (acc, s')"
  shows "wf_state s' \<and> total_money s' = total_money s \<and> balance_of s' = balance_of s \<and> acc_balance acc = balance_of s a"
proof (cases "s a")
  case None
  then have s': "s' = s(a \<mapsto> mk_AccountState CLIENT)" "acc = mk_AccountState CLIENT"
    using assms(2) by (auto simp: getAccount_lazy_def)
  have "wf_state s'" unfolding s' using assms(1) by (rule wf_state_upd) simp
  then show ?thesis using None assms(1) total_money_upd [of s a "mk_AccountState CLIENT"]
    by (auto simp: s' balance_of_upd fun_eq_iff wf_state_def)
next
  case (Some x)
  then show ?thesis using assms by (auto simp: getAccount_lazy_def)
qed

lemma replace_account_money:
  assumes "wf_state s" and "s a = Some acc" and "acc_balance acc' = acc_balance acc"
  shows "wf_state (s(a \<mapsto> acc')) \<and> total_money (s(a \<mapsto> acc')) = total_money s"
  using assms total_money_upd [of s a acc'] wf_state_upd [of s acc' a] wf_state_balance [OF assms(1), of a]
  by (simp add: wf_state_def)

lemma set_storage_no_mint: "set_storage addr key v s = (st, s') \<Longrightarrow> no_mint s s'"
proof (cases "rbind (toNativeAddress addr) (\<lambda>a. rbind (sha256_of key) (\<lambda>key. Inr (a, key)))")
  case (Inr p)
  assume eq: "set_storage addr key v s = (st, s')"
  obtain a k where p: "p = (a, k)" by (cases p)
  obtain acc s1 where l: "getAccount_lazy a s = (acc, s1)" by (cases "getAccount_lazy a s")
  have s': "s' = s1 \<or> s' = s1(a \<mapsto> setStorageValue k v acc)"
    using eq Inr by (auto simp: set_storage_def p l split: if_splits sum.splits)
  have s1: "s1 a = Some acc" using l by (auto simp: getAccount_lazy_def split: option.splits)
  show ?thesis unfolding no_mint_def
  proof
    assume "wf_state s \<and> total_money s < 2 ^ 256"
    then have m: "wf_state s1" "total_money s1 = total_money s" using getAccount_lazy_money [OF _ l] by auto
    moreover have "wf_state (s1(a \<mapsto> setStorageValue k v acc)) \<and> total_money (s1(a \<mapsto> setStorageValue k v acc)) = total_money s1"
      using m(1) s1 by (rule replace_account_money) (simp add: setStorageValue_def)
    ultimately show "wf_state s' \<and> total_money s' \<le> total_money s" using s' by auto
  qed
qed (auto simp: set_storage_def)

lemma lazy_no_mint: "getAccount_lazy a s = (acc, s') \<Longrightarrow> no_mint s s'"
  unfolding no_mint_def using getAccount_lazy_money by (metis order_refl)

lemma transfer_no_mint: "tryTransferMoney from to amount s = Inr (b, s') \<Longrightarrow> no_mint s s'"
  unfolding no_mint_def using tryTransferMoney_money by (metis order_refl)

lemma delete_no_mint: "deleteAccount a s = (b, s') \<Longrightarrow> no_mint s s'"
  unfolding no_mint_def using deleteAccount_money by (metis le_add1)

lemma selfdestruct_no_mint: "no_mint s (selfdestruct addr ben s)"
proof (cases "toNativeAddress addr")
  case (Inr a)
  obtain acc s1 where l1: "getAccount_lazy a s = (acc, s1)" by (cases "getAccount_lazy a s")
  show ?thesis
  proof (cases "toNativeAddress ben")
    case (Inl e)
    then show ?thesis using Inr lazy_no_mint [OF l1] by (simp add: selfdestruct_def l1)
  next
    case b: (Inr b)
    obtain accb s2 where l2: "getAccount_lazy b s1 = (accb, s2)" by (cases "getAccount_lazy b s1")
    have s2: "no_mint s s2" using lazy_no_mint [OF l1] lazy_no_mint [OF l2] no_mint_trans by blast
    show ?thesis
    proof (cases "tryTransferMoney a b (acc_balance acc) s2")
      case (Inl e)
      then show ?thesis using Inr b s2 by (simp add: selfdestruct_def l1 l2)
    next
      case t: (Inr q)
      obtain r s3 where q: "q = (r, s3)" by (cases q)
      obtain d s4 where d: "deleteAccount a s3 = (d, s4)" by (cases "deleteAccount a s3")
      have "no_mint s s4"
        using s2 transfer_no_mint [OF t [unfolded q]] delete_no_mint [OF d] no_mint_trans by blast
      then show ?thesis using Inr b t by (simp add: selfdestruct_def l1 l2 q d)
    qed
  qed
qed (simp add: selfdestruct_def)

lemma call_transfer_no_mint: "call_transfer msg to s = (r, s') \<Longrightarrow> no_mint s s'"
  by (auto simp: call_transfer_def split: sum.splits dest: transfer_no_mint)

lemma host_step_no_mint: "host_step s s' \<Longrightarrow> no_mint s s'"
proof (induction rule: host_step.induct)
  case (step_get_code_hash addr s h s')
  then show ?case
    by (auto simp: get_code_hash_def split: sum.splits prod.splits dest: lazy_no_mint)
next
  case (step_copy_code addr off n s r s')
  then show ?case
    by (auto simp: copy_code_def Let_def split: sum.splits prod.splits if_splits dest: lazy_no_mint)
qed (auto intro: set_storage_no_mint selfdestruct_no_mint call_transfer_no_mint)

lemma host_steps_no_mint: "host_step\<^sup>*\<^sup>* s s' \<Longrightarrow> no_mint s s'"
  by (induction rule: rtranclp_induct) (auto intro: no_mint_trans host_step_no_mint)

lemma callVm_no_mint: "evm_ok vm \<Longrightarrow> callVm vm ctx msg code s = (r, s') \<Longrightarrow> no_mint s s'"
  unfolding evm_ok_def callVm_def using host_steps_no_mint by blast

section \<open>Properties\<close>

text \<open>
  C18: whatever a contract does through the host callbacks (storage, self-destruction, calls to
  accounts and to other contracts), the accounts stay well-formed and the sum of all balances
  does not grow.
\<close>

theorem contracts_do_not_mint:
  assumes "evm_ok vm" and "wf_state s" and "total_money s < 2 ^ 256" and "host_call vm ctx msg s = (r, s')"
  shows "wf_state s' \<and> total_money s' \<le> total_money s"
  using host_steps_no_mint [OF host_call_steps [OF assms(1,4)]] assms(2,3) by (simp add: no_mint_def)

theorem contracts_do_not_mint_witness:
  "\<exists>vm s s' r. evm_ok vm \<and> host_call vm (undefined) \<lparr>msg_depth = 0, msg_gas = 9, msg_destination = replicate 20 2,
     msg_sender = replicate 20 1, msg_input_data = [], msg_value = [3]\<rparr> s = (r, s') \<and> total_money s' \<le> total_money s
     \<and> total_money s = 5"
proof -
  let ?vm = "\<lambda>ctx msg code s. (\<lparr>res_status = EVMC_SUCCESS, res_gas_left = 0, res_output_data = []\<rparr>, s)"
  let ?s = "[replicate 20 1 \<mapsto> setBalance 5 (mk_AccountState CLIENT)]"
  let ?msg = "\<lparr>msg_depth = 0, msg_gas = 9, msg_destination = replicate 20 2, msg_sender = replicate 20 1,
     msg_input_data = [], msg_value = [3]\<rparr>"
  have vm: "evm_ok ?vm" by (simp add: evm_ok_def)
  have s: "wf_state ?s" "total_money ?s < 2 ^ 256" "total_money ?s = 5"
    by (auto simp: wf_state_def total_money_def setBalance_def split: if_splits)
  obtain r s' where c: "host_call ?vm undefined ?msg ?s = (r, s')" by (cases "host_call ?vm undefined ?msg ?s")
  from contracts_do_not_mint [OF vm s(1,2) c] vm c s(3) show ?thesis by blast
qed

text \<open>
  Self-destruction in favour of another account moves the whole balance there, in favour of
  the contract itself it destroys the money.
\<close>

theorem selfdestruct_effect:
  assumes "wf_state s" and "total_money s < 2 ^ 256" and "wf_address a" and "wf_address b"
  shows "total_money (selfdestruct a b s) + (if a = b then balance_of s a else 0) = total_money s
    \<and> balance_of (selfdestruct a b s) = (if a = b then (balance_of s)(a := 0)
         else (balance_of s)(a := 0, b := balance_of s b + balance_of s a))"
proof -
  obtain acc s1 where l1: "getAccount_lazy a s = (acc, s1)" by (cases "getAccount_lazy a s")
  obtain accb s2 where l2: "getAccount_lazy b s1 = (accb, s2)" by (cases "getAccount_lazy b s1")
  have m1: "wf_state s1" "total_money s1 = total_money s" "balance_of s1 = balance_of s" "acc_balance acc = balance_of s a"
    using getAccount_lazy_money [OF assms(1) l1] by auto
  have m2: "wf_state s2" "total_money s2 = total_money s" "balance_of s2 = balance_of s"
    using getAccount_lazy_money [OF m1(1) l2] m1 by auto
  have "hasAccount s2 a" using l1 l2 by (auto simp: hasAccount_def getAccount_lazy_def split: option.splits if_splits)
  then obtain s3 where t: "tryTransferMoney a b (acc_balance acc) s2 = Inr (True, s3)" "wf_state s3"
    "total_money s3 = total_money s"
    "balance_of s3 = (\<lambda>x. balance_of s x - (if x = a then balance_of s a else 0) + (if x = b then balance_of s a else 0))"
    using tryTransferMoney_cases [OF m2(1), of a "acc_balance acc" b] assms(2) m2 unfolding m1(4) by auto
  obtain d s4 where d: "deleteAccount a s3 = (d, s4)" by (cases "deleteAccount a s3")
  have s4: "selfdestruct a b s = s4"
    using assms(3,4) l1 l2 t(1) d by (simp add: selfdestruct_def toNativeAddress_def address_of_bytes_def fixed_bytes_def wf_address_def)
  have "total_money s4 + balance_of s3 a = total_money s3" "balance_of s4 = (balance_of s3)(a := 0)"
    using deleteAccount_money [OF t(2) d] by auto
  then show ?thesis unfolding s4 t(3) by (auto simp: t(4) fun_eq_iff)
qed

theorem selfdestruct_effect_witness:
  "balance_of (selfdestruct (replicate 20 1) (replicate 20 2) [replicate 20 1 \<mapsto> setBalance 5 (mk_AccountState CONTRACT)])
     (replicate 20 2) = 5"
proof -
  let ?s = "[replicate 20 1 \<mapsto> setBalance 5 (mk_AccountState CONTRACT)]"
  have ne: "replicate 20 (1 :: byte) \<noteq> replicate 20 2" by simp
  have "wf_state ?s" "total_money ?s < 2 ^ 256"
    by (auto simp: wf_state_def total_money_def setBalance_def split: if_splits)
  from selfdestruct_effect [OF this, of "replicate 20 1" "replicate 20 2"] ne show ?thesis
    by (simp add: wf_address_def LENGTH_IN_BYTES_def balance_of_def setBalance_def)
qed

end
