(* ===== verification/Core.thy ===== *)
theory Core
  imports Persistence EthHost
begin

text \<open>
  The class \<^verbatim>\<open>Core\<close> of \<^verbatim>\<open>src/core/core.{hpp,cpp}\<close>: the accounts, the persistent chain, the pending
  transactions and the recorded outputs, with the handlers for new transactions and new blocks,
  the execution of transactions, the mining template and the start-up. Notifications of
  observers are appended to a log. What lies outside the repository (hash functions, LevelDB,
  the virtual machine, the choice left to \<^verbatim>\<open>std::nth_element\<close>) is the record \<open>node_env\<close>; the clock is
  an argument. Mutexes are not modelled: each handler runs to its end.
\<close>

section \<open>State\<close>

record 's node_env =
  env_ext :: ext
  env_leveldb :: "'s leveldb"
  env_vm :: evm
  env_nth_element :: nth_element

datatype core_event = Event_block_added iblock | Event_block_mined iblock | Event_new_pending_transaction transaction

record 's core =
  core_this_node_address :: address
  core_state_manager :: state_manager
  core_blockchain :: "'s pblockchain"
  core_pending_transactions :: txset
  core_tx_outputs :: "sha256 \<rightharpoonup> tx_status"
  core_events :: "core_event list"

section \<open>Queries and outputs\<close>

definition getTransactionOutput :: "'s core \<Rightarrow> sha256 \<Rightarrow> tx_status option" where
  "getTransactionOutput c tx =
     (case core_tx_outputs c tx of
        Some st \<Rightarrow> Some st
      | None \<Rightarrow> Some (mk_TransactionStatus Failed None_action 0 []))"

definition addTransactionOutput :: "sha256 \<Rightarrow> tx_status \<Rightarrow> 's core \<Rightarrow> 's core" where
  "addTransactionOutput tx status c = c\<lparr>core_tx_outputs := (core_tx_outputs c)(tx \<mapsto> status)\<rparr>"

definition core_findBlock :: "'s core \<Rightarrow> sha256 \<Rightarrow> iblock option" where
  "core_findBlock c hash = findBlock (pb_chain (core_blockchain c)) hash"

definition core_findBlockHash :: "'s core \<Rightarrow> depth \<Rightarrow> sha256 option" where
  "core_findBlockHash c depth = findBlockHashByDepth (pb_chain (core_blockchain c)) depth"

definition core_findTransaction :: "'s node_env \<Rightarrow> 's core \<Rightarrow> sha256 \<Rightarrow> transaction option" where
  "core_findTransaction E c hash = findTransaction (env_ext E) (pb_chain (core_blockchain c)) hash"

definition core_getTopBlock :: "'s core \<Rightarrow> iblock res" where
  "core_getTopBlock c = getTopBlock (pb_chain (core_blockchain c))"

definition getAccountInfo :: "'s core \<Rightarrow> address \<Rightarrow> account_info" where
  "getAccountInfo c address =
     (case core_state_manager c address of
        Some a \<Rightarrow> (toInfo a)\<lparr>info_address := address\<rparr>
      | None \<Rightarrow> \<lparr>info_type = CLIENT, info_address = address, info_balance = 0, info_nonce = 0,
                  info_transactions_hashes = []\<rparr>)"

section \<open>Pending transactions\<close>

definition addPendingTransaction :: "'s node_env \<Rightarrow> transaction \<Rightarrow> 's core \<Rightarrow> (tx_status \<times> 's core) res" where
  "addPendingTransaction E tx c =
     (let X = env_ext E; transaction_hash = hashOfTransaction X tx; sm = core_state_manager c;
          finish = (\<lambda>code fee_left c. let status = mk_TransactionStatus code None_action fee_left [] in
                      Inr (status, addTransactionOutput transaction_hash status c))
      in
      rbind (tx_cost tx) (\<lambda>transaction_cost.
      rbind (checkSign X tx) (\<lambda>sign_ok.
      if \<not> sign_ok then finish BadSign (tx_fee tx) c
      else if core_findTransaction E c transaction_hash \<noteq> None then
        (case getTransactionOutput c transaction_hash of
           Some output \<Rightarrow> Inr (output, c)
         | None \<Rightarrow> finish Failed (tx_fee tx) c)
      else if txset_find (core_pending_transactions c) tx then finish Pending (tx_fee tx) c
      else
        rbind (calcCost (core_pending_transactions c)) (\<lambda>current_pending_balance.
        rbind (case current_pending_balance (tx_from tx) of
                 Some pending \<Rightarrow>
                   (case sm (tx_from tx) of
                      Some a \<Rightarrow> rbind (u256_add pending transaction_cost) (\<lambda>sum. Inr (sum < acc_balance a))
                    | None \<Rightarrow> Inr False)
               | None \<Rightarrow> Inr False) (\<lambda>refused.
        if refused then finish NotEnoughBalance 0 c
        else rbind (checkTransaction sm tx) (\<lambda>affordable.
          if \<not> affordable then finish NotEnoughBalance 0 c
          else finish Pending (tx_fee tx)
            (c\<lparr>core_pending_transactions := txset_add tx (core_pending_transactions c),
               core_events := core_events c @ [Event_new_pending_transaction tx]\<rparr>)))))))"

section \<open>Execution of transactions\<close>

text \<open>\<^verbatim>\<open>catch (const base::Error&)\<close> around a computation that has changed nothing outside.\<close>

definition catch_base_error :: "'a res \<Rightarrow> 'a res \<Rightarrow> 'a res" where
  "catch_base_error r handler =
     (case r of Inl e \<Rightarrow> if is_base_error e then handler else Inl e | Inr x \<Rightarrow> Inr x)"

text \<open>The conversion of the signed gas counter to a balance.\<close>

definition balance_of_int64 :: "64 word \<Rightarrow> balance res" where
  "balance_of_int64 g = (if sint g < 0 then Inl StdRangeError else Inr (unat g))"

definition host_context_of :: "'s core \<Rightarrow> iblock \<Rightarrow> transaction \<Rightarrow> host_context" where
  "host_context_of c block tx =
     \<lparr>hc_blockchain = pb_chain (core_blockchain c), hc_block = block, hc_tx = tx\<rparr>"

definition callInitContractVm ::
  "'s node_env \<Rightarrow> host_context \<Rightarrow> transaction \<Rightarrow> address \<Rightarrow> bytes \<Rightarrow> state_manager \<Rightarrow> (evmc_result \<times> state_manager) res" where
  "callInitContractVm E ctx tx contract_address code s =
     rbind (toEthAddress (tx_from tx)) (\<lambda>sender.
     rbind (toEthAddress contract_address) (\<lambda>destination.
       (let message = \<lparr>msg_depth = 0, msg_gas = tx_fee tx, msg_destination = destination, msg_sender = sender,
              msg_input_data = [], msg_value = toEvmcUint256 (env_ext E) (tx_amount tx)\<rparr>
        in Inr (callVm (env_vm E) ctx message code s))))"

definition callContractVm ::
  "'s node_env \<Rightarrow> host_context \<Rightarrow> transaction \<Rightarrow> bytes \<Rightarrow> bytes \<Rightarrow> state_manager \<Rightarrow> (evmc_result \<times> state_manager) res" where
  "callContractVm E ctx tx code message_data s =
     rbind (toEthAddress (tx_from tx)) (\<lambda>sender.
     rbind (toEthAddress (tx_to tx)) (\<lambda>destination.
       (let message = \<lparr>msg_depth = 0, msg_gas = tx_fee tx, msg_destination = destination, msg_sender = sender,
              msg_input_data = message_data, msg_value = toEvmcUint256 (env_ext E) (tx_amount tx)\<rparr>
        in Inr (callVm (env_vm E) ctx message code s))))"

text \<open>
  What happens to the fee after a run. On success the changed copy is kept, the miner gets the
  gas used and the sender the gas left; otherwise the original accounts are charged.
\<close>

definition settle_success ::
  "transaction \<Rightarrow> iblock \<Rightarrow> evmc_result \<Rightarrow> state_manager \<Rightarrow> state_manager res" where
  "settle_success tx block r tx_manager =
     rbind (update_account (blk_coinbase block) (addBalance (unat (tx_fee tx - res_gas_left r))) tx_manager) (\<lambda>tx_manager.
     rbind (balance_of_int64 (res_gas_left r)) (\<lambda>gas_left.
     update_account (tx_from tx) (addBalance gas_left) tx_manager))"

definition settle_failure ::
  "transaction \<Rightarrow> iblock \<Rightarrow> evmc_result \<Rightarrow> state_manager \<Rightarrow> state_manager res" where
  "settle_failure tx block r sm =
     rbind (balance_of_int64 (res_gas_left r)) (\<lambda>gas_left.
     rbind (update_account (tx_from tx) (subBalance gas_left) sm) (\<lambda>sm.
     update_account (blk_coinbase block) (addBalance (unat (tx_fee tx - res_gas_left r))) sm))"

definition creation_settle ::
  "transaction \<Rightarrow> iblock \<Rightarrow> address \<Rightarrow> state_manager \<Rightarrow> evmc_result \<times> state_manager \<Rightarrow> (tx_status \<times> state_manager) res" where
  "creation_settle tx block contract_address sm = (\<lambda>(eval_result, tx_manager).
     (let status = (\<lambda>code message. mk_TransactionStatus code ContractCreation (res_gas_left eval_result) message) in
      if res_status eval_result = EVMC_SUCCESS then
        rbind (update_account contract_address (\<lambda>a. Inr (setRuntimeCode (res_output_data eval_result) a)) tx_manager) (\<lambda>tx_manager.
        rbind (settle_success tx block eval_result tx_manager) (\<lambda>tx_manager.
        Inr (status Success (base58Encode contract_address), applyChanges tx_manager sm)))
      else if res_status eval_result = EVMC_REVERT then
        rbind (settle_failure tx block eval_result sm) (\<lambda>sm. Inr (status Revert [], sm))
      else
        rbind (settle_failure tx block eval_result sm) (\<lambda>sm. Inr (status BadQueryForm [], sm))))"

definition creation_try ::
  "'s node_env \<Rightarrow> host_context \<Rightarrow> transaction \<Rightarrow> iblock \<Rightarrow> state_manager \<Rightarrow> (tx_status \<times> state_manager) res" where
  "creation_try E ctx tx block sm =
     rbind (update_account (tx_from tx) (subBalance (unat (tx_fee tx))) (createCopy sm)) (\<lambda>tx_manager.
       (let contract_data_hash = sha256_compute (env_ext E) (tx_data tx);
            (contract_address, tx_manager) = createContractAccount (env_ext E) (tx_from tx) contract_data_hash tx_manager
        in rbind (tryTransferMoney (tx_from tx) contract_address (tx_amount tx) tx_manager) (\<lambda>(ok, tx_manager).
           if \<not> ok then Inr (mk_TransactionStatus NotEnoughBalance ContractCreation (tx_fee tx) [], sm)
           else rbind (callInitContractVm E ctx tx contract_address (tx_data tx) tx_manager)
                  (creation_settle tx block contract_address sm))))"

definition perform_creation ::
  "'s node_env \<Rightarrow> host_context \<Rightarrow> transaction \<Rightarrow> iblock \<Rightarrow> state_manager \<Rightarrow> (tx_status \<times> state_manager) res" where
  "perform_creation E ctx tx block sm =
     catch_base_error (creation_try E ctx tx block sm)
       (Inr (mk_TransactionStatus Failed ContractCreation (tx_fee tx) [], sm))"

definition call_settle ::
  "'s node_env \<Rightarrow> transaction \<Rightarrow> iblock \<Rightarrow> state_manager \<Rightarrow> evmc_result \<times> state_manager \<Rightarrow> (tx_status \<times> state_manager) res" where
  "call_settle E tx block sm = (\<lambda>(eval_result, tx_manager).
     (let status = (\<lambda>code message. mk_TransactionStatus code ContractCall (res_gas_left eval_result) message) in
      if res_status eval_result = EVMC_SUCCESS then
        rbind (if res_output_data eval_result = [] then Inr []
               else rbind (takePart (tx_data tx) 0 4) (\<lambda>p. Inr (p @ res_output_data eval_result))) (\<lambda>output_data.
        rbind (settle_success tx block eval_result tx_manager) (\<lambda>tx_manager.
        Inr (status Success (base64Encode (env_ext E) output_data), applyChanges tx_manager sm)))
      else if res_status eval_result = EVMC_REVERT then
        rbind (settle_failure tx block eval_result sm) (\<lambda>sm. Inr (status Revert [], sm))
      else
        rbind (settle_failure tx block eval_result sm) (\<lambda>sm. Inr (status BadQueryForm [], sm))))"

definition call_try ::
  "'s node_env \<Rightarrow> host_context \<Rightarrow> transaction \<Rightarrow> iblock \<Rightarrow> state_manager \<Rightarrow> state_manager \<Rightarrow> (tx_status \<times> state_manager) res" where
  "call_try E ctx tx block sm tx_manager =
     (if tx_data tx = [] then Inr (mk_TransactionStatus BadQueryForm ContractCall (tx_fee tx) [], sm)
      else
        rbind (if tx_amount tx > 0 then tryTransferMoney (tx_from tx) (tx_to tx) (tx_amount tx) tx_manager
               else Inr (True, tx_manager)) (\<lambda>(ok, tx_manager).
        if \<not> ok then Inr (mk_TransactionStatus NotEnoughBalance ContractCall (tx_fee tx) [], sm)
        else
          (case getAccount_lazy (tx_to tx) tx_manager of (to_account, tx_manager) \<Rightarrow>
             rbind (callContractVm E ctx tx (acc_runtime_code to_account) (tx_data tx) tx_manager)
               (call_settle E tx block sm))))"

definition perform_call ::
  "'s node_env \<Rightarrow> host_context \<Rightarrow> transaction \<Rightarrow> iblock \<Rightarrow> state_manager \<Rightarrow> state_manager \<Rightarrow> (tx_status \<times> state_manager) res" where
  "perform_call E ctx tx block sm tx_manager =
     catch_base_error (call_try E ctx tx block sm tx_manager)
       (Inr (mk_TransactionStatus Failed ContractCall (tx_fee tx) [], sm))"

definition perform_transfer ::
  "transaction \<Rightarrow> iblock \<Rightarrow> state_manager \<Rightarrow> state_manager \<Rightarrow> (tx_status \<times> state_manager) res" where
  "perform_transfer tx block sm tx_manager =
     (let status = (\<lambda>code fee_left. mk_TransactionStatus code Transfer fee_left []) in
      catch_base_error
       (rbind (tryTransferMoney (tx_from tx) (tx_to tx) (tx_amount tx) tx_manager) (\<lambda>(ok, tx_manager).
        if \<not> ok then Inr (status NotEnoughBalance (tx_fee tx), sm)
        else
          rbind (update_account (blk_coinbase block) (addBalance (unat (tx_fee tx))) tx_manager) (\<lambda>tx_manager.
          Inr (status Success 0, applyChanges tx_manager sm))))
       (Inr (status Failed (tx_fee tx), sm)))"

definition perform ::
  "'s node_env \<Rightarrow> host_context \<Rightarrow> transaction \<Rightarrow> iblock \<Rightarrow> state_manager \<Rightarrow> (tx_status \<times> state_manager) res" where
  "perform E ctx tx block sm =
     rbind (update_account (tx_from tx) (\<lambda>a. Inr (addTransactionHash (hashOfTransaction (env_ext E) tx) a)) sm) (\<lambda>sm.
     if tx_to tx = address_null then perform_creation E ctx tx block sm
     else
       (let tx_manager = createCopy sm in
        case getAccount_lazy (tx_to tx) sm of (to_account_recovery, sm) \<Rightarrow>
        rbind (update_account (tx_from tx) (subBalance (unat (tx_fee tx))) tx_manager) (\<lambda>tx_manager.
        case getAccount_lazy (tx_to tx) tx_manager of (to_account, tx_manager) \<Rightarrow>
          if acc_type to_account = CONTRACT then perform_call E ctx tx block sm tx_manager
          else perform_transfer tx block sm tx_manager)))"

definition tryPerformTransaction :: "'s node_env \<Rightarrow> transaction \<Rightarrow> iblock \<Rightarrow> 's core \<Rightarrow> 's core res" where
  "tryPerformTransaction E tx block_where_tx c =
     rbind (perform E (host_context_of c block_where_tx tx) tx block_where_tx (core_state_manager c)) (\<lambda>(status, sm).
     Inr (addTransactionOutput (hashOfTransaction (env_ext E) tx) status (c\<lparr>core_state_manager := sm\<rparr>)))"

fun performTransactions :: "'s node_env \<Rightarrow> iblock \<Rightarrow> txset \<Rightarrow> 's core \<Rightarrow> 's core res" where
  "performTransactions E block [] c = Inr c"
| "performTransactions E block (tx # txs) c =
     rbind (tryPerformTransaction E tx block c) (performTransactions E block txs)"

definition applyBlockTransactions :: "'s node_env \<Rightarrow> iblock \<Rightarrow> 's core \<Rightarrow> 's core res" where
  "applyBlockTransactions E block c =
     rbind (update_account (blk_coinbase block) (addBalance BC_EMISSION_VALUE) (core_state_manager c)) (\<lambda>sm.
     performTransactions E block (blk_txs block) (c\<lparr>core_state_manager := sm\<rparr>))"

section \<open>Blocks\<close>

fun checkBlockTransactions_loop :: "state_manager \<Rightarrow> (address \<rightharpoonup> balance) \<Rightarrow> txset \<Rightarrow> bool res" where
  "checkBlockTransactions_loop sm block_balance [] = Inr True"
| "checkBlockTransactions_loop sm block_balance (tx # txs) =
     (if hasAccount sm (tx_from tx) then
        rbind (getAccount sm (tx_from tx)) (\<lambda>a.
        (case block_balance (tx_from tx) of
           None \<Rightarrow> Inl AssertionFailed
         | Some block_account_cost \<Rightarrow>
             if block_account_cost > acc_balance a then Inr False
             else checkBlockTransactions_loop sm block_balance txs))
      else Inr False)"

definition checkBlockTransactions :: "'s node_env \<Rightarrow> 's core \<Rightarrow> iblock \<Rightarrow> bool res" where
  "checkBlockTransactions E c block =
     (let X = env_ext E in
      if core_findBlock c (sha256_compute X (toBytes (serialize_iblock X) block)) \<noteq> None then Inr False
      else rbind (calcCost (blk_txs block)) (\<lambda>block_balance.
        checkBlockTransactions_loop (core_state_manager c) block_balance (blk_txs block)))"

definition core_tryAddBlock_locked ::
  "'s node_env \<Rightarrow> time \<Rightarrow> iblock \<Rightarrow> 's core \<Rightarrow> (addition_result \<times> 's core) res" where
  "core_tryAddBlock_locked E now b c =
     rbind (checkBlockTransactions E c b) (\<lambda>ok.
     if \<not> ok then Inr (INVALID_TRANSACTIONS, c)
     else
       rbind (persistent_tryAddBlock (env_ext E) (env_leveldb E) now b (core_blockchain c)) (\<lambda>(r, blockchain).
       (let c = c\<lparr>core_blockchain := blockchain\<rparr> in
        if r \<noteq> ADDED then Inr (r, c)
        else
          (let c = c\<lparr>core_pending_transactions := txset_remove_set (blk_txs b) (core_pending_transactions c)\<rparr> in
           rbind (applyBlockTransactions E b c) (\<lambda>c. Inr (ADDED, c))))))"

definition core_tryAddBlock :: "'s node_env \<Rightarrow> time \<Rightarrow> iblock \<Rightarrow> 's core \<Rightarrow> (addition_result \<times> 's core) res" where
  "core_tryAddBlock E now b c =
     rbind (core_tryAddBlock_locked E now b c) (\<lambda>(r, c).
     if r \<noteq> ADDED then Inr (r, c) else Inr (ADDED, c\<lparr>core_events := core_events c @ [Event_block_added b]\<rparr>))"

definition core_tryAddMinedBlock :: "'s node_env \<Rightarrow> time \<Rightarrow> iblock \<Rightarrow> 's core \<Rightarrow> (addition_result \<times> 's core) res" where
  "core_tryAddMinedBlock E now b c =
     rbind (core_tryAddBlock_locked E now b c) (\<lambda>(r, c).
     if r \<noteq> ADDED then Inr (r, c) else Inr (ADDED, c\<lparr>core_events := core_events c @ [Event_block_mined b]\<rparr>))"

definition getMiningData :: "'s node_env \<Rightarrow> time \<Rightarrow> 's core \<Rightarrow> (mblock \<times> complexity) res" where
  "getMiningData E now c =
     (let X = env_ext E in
      rbind (getTopBlockAndComplexity (pb_chain (core_blockchain c))) (\<lambda>(top_block, complexity).
      (let depth = blk_depth top_block + 1;
           prev_hash = sha256_compute X (toBytes (serialize_iblock X) top_block);
           pending = core_pending_transactions c
       in rbind (if length pending > BC_MAX_TRANSACTIONS_IN_BLOCK
                 then selectBestByFee (env_nth_element E) BC_MAX_TRANSACTIONS_IN_BLOCK pending else Inr pending) (\<lambda>pending.
          rbind (buildMutable (bb_setTransactionsSet pending (bb_setCoinbase (core_this_node_address c)
                  (bb_setTimestamp now (bb_setPrevBlockHash prev_hash (bb_setNonce 0 (bb_setDepth depth builder_null))))))) (\<lambda>b.
          Inr (b, complexity))))))"

section \<open>Start-up\<close>

definition genesis_address :: string where
  "genesis_address = ''49cfqVfB1gTGw5XZSu6nZDrntLr1''"

definition core_getGenesisBlock :: "ext \<Rightarrow> iblock res" where
  "core_getGenesisBlock X =
     (let timestamp = 1583789617 in
      rbind (address_of_string genesis_address) (\<lambda>initial_emission_address.
      rbind (mk_Transaction address_null initial_emission_address (2 ^ 32) 0 timestamp [] Sign_empty) (\<lambda>tx.
      (let txset = txset_add tx [] in
       buildImmutable X (bb_setTransactionsSet txset (bb_setCoinbase initial_emission_address
         (bb_setTimestamp timestamp (bb_setPrevBlockHash sha256_null (bb_setNonce 0 (bb_setDepth 0 builder_null)))))))))) "

fun replay_loop :: "'s node_env \<Rightarrow> depth list \<Rightarrow> 's core \<Rightarrow> 's core res" where
  "replay_loop E [] c = Inr c"
| "replay_loop E (d # ds) c =
     (case core_findBlockHash c d of
        None \<Rightarrow> Inl EmptyOptional
      | Some h \<Rightarrow>
          (case core_findBlock c h of
             None \<Rightarrow> Inl EmptyOptional
           | Some block \<Rightarrow> rbind (performTransactions E block (blk_txs block) c) (replay_loop E ds)))"

definition mk_Core :: "'s node_env \<Rightarrow> time \<Rightarrow> bytes \<Rightarrow> 's database \<Rightarrow> 's core res option" where
  "mk_Core E now key db =
     (let X = env_ext E in
      case rbind (secp_toPublicKey X key) (\<lambda>pub. rbind (core_getGenesisBlock X) (\<lambda>genesis.
             rbind (mk_Blockchain genesis) (\<lambda>bc. Inr (address_of_public_key X pub, genesis, bc)))) of
        Inl e \<Rightarrow> Some (Inl e)
      | Inr (address, genesis, bc) \<Rightarrow>
          map_option (\<lambda>r. rbind r (\<lambda>blockchain.
            (let c = \<lparr>core_this_node_address = address, core_state_manager = updateFromGenesis genesis (\<lambda>_. None),
                      core_blockchain = blockchain, core_pending_transactions = [], core_tx_outputs = (\<lambda>_. None),
                      core_events = []\<rparr>
             in rbind (core_getTopBlock c) (\<lambda>top.
                  replay_loop E (map of_nat [1..<Suc (unat (blk_depth top))]) c))))
            (load X (env_leveldb E) now \<lparr>pb_chain = bc, pb_database = db\<rparr>))"

end
