(* ===== verification/Execution.thy ===== *)
theory Execution
  imports Core
begin

text \<open>
  What executing transactions does to the accounts. A plain transfer has three outcomes, each
  described completely; a successful contract run never creates money; the settlement of a
  failed or reverted run is computed exactly. On top of these, the effect of a whole block of
  transfers and the conditions under which every one of them succeeds.
\<close>

section \<open>Which accounts are contracts\<close>

definition contract_at :: "state_manager \<Rightarrow> address \<Rightarrow> bool" where
  "contract_at s a \<longleftrightarrow> (case s a of Some acc \<Rightarrow> acc_type acc = CONTRACT | None \<Rightarrow> False)"

lemma contract_at_account_or_new: "contract_at s a \<longleftrightarrow> acc_type (account_or_new s a) = CONTRACT"
  by (simp add: contract_at_def account_or_new_def mk_AccountState_def split: option.split)

lemma contract_at_upd:
  "acc_type acc = acc_type (account_or_new s a) \<Longrightarrow> contract_at (s(a \<mapsto> acc)) = contract_at s"
  by (auto simp: fun_eq_iff contract_at_account_or_new account_or_new_def split: if_splits)

lemma update_account_types:
  assumes "update_account a f s = Inr s'" and "\<And>x y. f x = Inr y \<Longrightarrow> acc_type y = acc_type x"
  shows "contract_at s' = contract_at s"
  using assms by (auto simp: update_account_eq rbind_eq_Inr intro!: contract_at_upd)

lemma addBalance_type: "addBalance d x = Inr y \<Longrightarrow> acc_type y = acc_type x"
  by (auto simp: addBalance_eq split: if_splits)

lemma subBalance_type: "subBalance d x = Inr y \<Longrightarrow> acc_type y = acc_type x"
  by (auto simp: subBalance_eq split: if_splits)

lemma add_account_types: "update_account a (addBalance d) s = Inr s' \<Longrightarrow> contract_at s' = contract_at s"
  by (rule update_account_types [OF _ addBalance_type])

lemma sub_account_types: "update_account a (subBalance d) s = Inr s' \<Longrightarrow> contract_at s' = contract_at s"
  by (rule update_account_types [OF _ subBalance_type])

lemma getAccount_lazy_new: "getAccount_lazy a s = (account_or_new s a, s(a \<mapsto> account_or_new s a))"
  by (simp add: getAccount_lazy_eq account_or_new_def Let_def)

lemma getAccount_lazy_types: "contract_at (s(a \<mapsto> account_or_new s a)) = contract_at s"
  by (rule contract_at_upd) simp

lemma tryTransferMoney_types:
  assumes "tryTransferMoney from to amount s = Inr (b, s')"
  shows "contract_at s' = contract_at s"
proof -
  have lazy: "hasAccount s from \<Longrightarrow> getAccount_lazy from s = (the (s from), s)"
    by (auto simp: hasAccount_def getAccount_lazy_def)
  have create: "createClientAccount to s = Inr s1 \<Longrightarrow> contract_at s1 = contract_at s" for s1
    by (auto simp: createClientAccount_def std_map_insert_def hasAccount_def account_or_new_def mk_AccountState_def
        split: if_splits intro!: contract_at_upd)
  show ?thesis
    using assms
    by (auto simp: tryTransferMoney_def rbind_eq_Inr lazy split: if_splits
        dest!: create add_account_types sub_account_types)
qed

section \<open>The outcomes of a plain transfer\<close>

lemma update_same_balance:
  assumes "wf_state s" and "\<And>a. acc_balance (f a) = acc_balance a" and "\<And>a. acc_type (f a) = acc_type a"
  obtains s' where "update_account x (\<lambda>a. Inr (f a)) s = Inr s'" and "wf_state s'" and "total_money s' = total_money s"
    and "balance_of s' = balance_of s" and "contract_at s' = contract_at s" and "hasAccount s' x"
proof
  let ?s = "s(x \<mapsto> f (account_or_new s x))"
  show "update_account x (\<lambda>a. Inr (f a)) s = Inr ?s" by (simp add: update_account_eq)
  show "wf_state ?s" using assms(1) by (rule wf_state_upd) (use wf_state_balance [OF assms(1)] assms(2) in simp)
  show "total_money ?s = total_money s"
    using total_money_upd [of s x "f (account_or_new s x)"] assms(1,2) by (simp add: wf_state_def)
  show "balance_of ?s = balance_of s" using assms(2) by (auto simp: balance_of_upd)
  show "contract_at ?s = contract_at s" using assms(3) by (intro contract_at_upd) simp
  show "hasAccount ?s x" by (simp add: hasAccount_def)
qed

lemma lazy_account:
  assumes "wf_state s"
  shows "wf_state (s(a \<mapsto> account_or_new s a)) \<and> total_money (s(a \<mapsto> account_or_new s a)) = total_money s
    \<and> balance_of (s(a \<mapsto> account_or_new s a)) = balance_of s \<and> contract_at (s(a \<mapsto> account_or_new s a)) = contract_at s"
  using getAccount_lazy_money [OF assms getAccount_lazy_new] getAccount_lazy_types by simp

definition plain_transfer :: "state_manager \<Rightarrow> transaction \<Rightarrow> bool" where
  "plain_transfer s tx \<longleftrightarrow> tx_to tx \<noteq> address_null \<and> \<not> contract_at s (tx_to tx)"

abbreviation tx_price :: "transaction \<Rightarrow> nat" where
  "tx_price tx \<equiv> tx_amount tx + unat (tx_fee tx)"

text \<open>The balances after a successful transfer from the sender, with the fee to the miner.\<close>

definition transferred :: "transaction \<Rightarrow> address \<Rightarrow> (address \<Rightarrow> nat) \<Rightarrow> address \<Rightarrow> nat" where
  "transferred tx miner bal a = bal a - (if a = tx_from tx then tx_price tx else 0)
     + (if a = tx_to tx then tx_amount tx else 0) + (if a = miner then unat (tx_fee tx) else 0)"

lemma perform_transfer_outcome:
  assumes wf: "wf_state s" and total: "total_money s + unat (tx_fee tx) < 2 ^ 256" and acc: "hasAccount s (tx_from tx)"
  shows "if tx_amount tx \<le> balance_of s (tx_from tx)
    then \<exists>s'. perform_transfer tx block sm s = Inr (mk_TransactionStatus Success Transfer 0 [], s') \<and> wf_state s'
      \<and> total_money s' = total_money s + unat (tx_fee tx) \<and> contract_at s' = contract_at s
      \<and> balance_of s' = (\<lambda>a. balance_of s a - (if a = tx_from tx then tx_amount tx else 0)
          + (if a = tx_to tx then tx_amount tx else 0) + (if a = blk_coinbase block then unat (tx_fee tx) else 0))
    else perform_transfer tx block sm s = Inr (mk_TransactionStatus NotEnoughBalance Transfer (tx_fee tx) [], sm)"
proof (cases "tx_amount tx \<le> balance_of s (tx_from tx)")
  case False
  then have "tryTransferMoney (tx_from tx) (tx_to tx) (tx_amount tx) s = Inr (False, s)"
    using tryTransferMoney_cases [OF wf, of "tx_from tx" "tx_amount tx" "tx_to tx"] total by simp
  with False show ?thesis by (simp add: perform_transfer_def catch_base_error_def)
next
  case True
  obtain s1 where s1: "tryTransferMoney (tx_from tx) (tx_to tx) (tx_amount tx) s = Inr (True, s1)" "wf_state s1"
    "total_money s1 = total_money s"
    "balance_of s1 = (\<lambda>a. balance_of s a - (if a = tx_from tx then tx_amount tx else 0) + (if a = tx_to tx then tx_amount tx else 0))"
    using tryTransferMoney_cases [OF wf, of "tx_from tx" "tx_amount tx" "tx_to tx"] total acc True by auto
  obtain s2 where s2: "update_account (blk_coinbase block) (addBalance (unat (tx_fee tx))) s1 = Inr s2"
    using addBalance_enough_room [OF s1(2), of "unat (tx_fee tx)" "blk_coinbase block"] s1(3) total by auto
  have f2: "wf_state s2" "total_money s2 = total_money s1 + unat (tx_fee tx)"
    "balance_of s2 = (balance_of s1)(blk_coinbase block := balance_of s1 (blk_coinbase block) + unat (tx_fee tx))"
    using addBalance_step [OF s1(2) s2] by auto
  have "contract_at s2 = contract_at s"
    using add_account_types [OF s2] tryTransferMoney_types [OF s1(1)] by simp
  moreover have "perform_transfer tx block sm s = Inr (mk_TransactionStatus Success Transfer 0 [], s2)"
    using s1(1) s2 by (simp add: perform_transfer_def catch_base_error_def applyChanges_def)
  ultimately show ?thesis using True s1(3,4) f2 by (auto simp: fun_eq_iff)
qed

text \<open>A plain transaction whose sender can pay the fee: the state without the transfer and the one in which it is tried\<close>

lemma perform_plain_paid:
  assumes wf: "wf_state s" and plain: "plain_transfer s tx" and paid: "unat (tx_fee tx) \<le> balance_of s (tx_from tx)"
  obtains sm t where "perform E ctx tx block s = perform_transfer tx block sm t"
    and "wf_state sm" "total_money sm = total_money s" "balance_of sm = balance_of s" "contract_at sm = contract_at s"
    and "wf_state t" "hasAccount t (tx_from tx)" "total_money t + unat (tx_fee tx) = total_money s" "contract_at t = contract_at s"
    and "balance_of t = (balance_of s)(tx_from tx := balance_of s (tx_from tx) - unat (tx_fee tx))"
proof -
  let ?from = "tx_from tx" and ?to = "tx_to tx" and ?fee = "unat (tx_fee tx)"
  let ?h = "addTransactionHash (hashOfTransaction (env_ext E) tx)"
  obtain s1 where s1: "update_account ?from (\<lambda>a. Inr (?h a)) s = Inr s1" "wf_state s1" "total_money s1 = total_money s"
    "balance_of s1 = balance_of s" "contract_at s1 = contract_at s" "hasAccount s1 ?from"
    by (rule update_same_balance [OF wf, of ?h]) (simp_all add: addTransactionHash_def)
  let ?sm = "s1(?to \<mapsto> account_or_new s1 ?to)"
  obtain t1 where t1: "update_account ?from (subBalance ?fee) s1 = Inr t1"
    using paid by (simp add: sub_account_money s1(4))
  note f1 = subBalance_step [OF s1(2) t1]
  have acc1: "hasAccount t1 ?from" using t1 by (auto simp: update_account_eq rbind_eq_Inr hasAccount_def)
  have c1: "contract_at t1 = contract_at s" using sub_account_types [OF t1] s1(5) by simp
  let ?t = "t1(?to \<mapsto> account_or_new t1 ?to)"
  have t: "wf_state ?t" "total_money ?t = total_money t1" "balance_of ?t = balance_of t1" "contract_at ?t = contract_at s"
    using lazy_account [of t1 ?to] f1 c1 by auto
  have nc: "acc_type (account_or_new t1 ?to) \<noteq> CONTRACT"
    using plain c1 by (simp add: plain_transfer_def contract_at_account_or_new [symmetric])
  show thesis
  proof (rule that [of ?sm ?t])
    show "perform E ctx tx block s = perform_transfer tx block ?sm ?t"
      using plain nc t1 by (simp add: perform_def s1(1) createCopy_def getAccount_lazy_new plain_transfer_def)
    show "hasAccount ?t ?from" using acc1 by (auto simp: hasAccount_def)
    show "total_money ?t + ?fee = total_money s" using f1 t s1(3) by simp
    show "balance_of ?t = (balance_of s)(?from := balance_of s ?from - ?fee)" using f1 t(3) s1(4) by simp
  qed (use lazy_account [OF s1(2), of ?to] s1 t in auto)
qed

lemma perform_plain:
  assumes wf: "wf_state s" and total: "total_money s < 2 ^ 256" and plain: "plain_transfer s tx"
  shows "if balance_of s (tx_from tx) < unat (tx_fee tx) then perform E ctx tx block s = Inl LogicError
    else if balance_of s (tx_from tx) < tx_price tx
      then \<exists>s'. perform E ctx tx block s = Inr (mk_TransactionStatus NotEnoughBalance Transfer (tx_fee tx) [], s')
        \<and> wf_state s' \<and> total_money s' = total_money s \<and> balance_of s' = balance_of s \<and> contract_at s' = contract_at s
      else \<exists>s'. perform E ctx tx block s = Inr (mk_TransactionStatus Success Transfer 0 [], s')
        \<and> wf_state s' \<and> total_money s' = total_money s \<and> contract_at s' = contract_at s
        \<and> balance_of s' = transferred tx (blk_coinbase block) (balance_of s)"
proof (cases "balance_of s (tx_from tx) < unat (tx_fee tx)")
  case True
  let ?h = "addTransactionHash (hashOfTransaction (env_ext E) tx)"
  obtain s1 where s1: "update_account (tx_from tx) (\<lambda>a. Inr (?h a)) s = Inr s1" "balance_of s1 = balance_of s"
    by (rule update_same_balance [OF wf, of ?h]) (simp_all add: addTransactionHash_def)
  then have "update_account (tx_from tx) (subBalance (unat (tx_fee tx))) s1 = Inl LogicError" using True by (simp add: sub_account_money)
  with True plain show ?thesis
    by (simp add: perform_def s1(1) createCopy_def getAccount_lazy_new plain_transfer_def)
next
  case False
  then obtain sm t where perf: "perform E ctx tx block s = perform_transfer tx block sm t"
    and sm: "wf_state sm" "total_money sm = total_money s" "balance_of sm = balance_of s" "contract_at sm = contract_at s"
    and t: "wf_state t" "hasAccount t (tx_from tx)" "total_money t + unat (tx_fee tx) = total_money s" "contract_at t = contract_at s"
    and bal: "balance_of t = (balance_of s)(tx_from tx := balance_of s (tx_from tx) - unat (tx_fee tx))"
    using perform_plain_paid [OF wf plain] by (metis not_less)
  note out = perform_transfer_outcome [OF t(1) _ t(2), of block sm]
  show ?thesis
  proof (cases "balance_of s (tx_from tx) < tx_price tx")
    case True
    then have "\<not> tx_amount tx \<le> balance_of t (tx_from tx)" using False by (simp add: bal)
    then show ?thesis using out t(3) total perf sm False True by auto
  next
    case enough: False
    then have "tx_amount tx \<le> balance_of t (tx_from tx)" by (simp add: bal)
    then obtain s' where s': "perform E ctx tx block s = Inr (mk_TransactionStatus Success Transfer 0 [], s')"
      "wf_state s'" "total_money s' = total_money s" "contract_at s' = contract_at s"
      "balance_of s' = (\<lambda>a. balance_of t a - (if a = tx_from tx then tx_amount tx else 0)
        + (if a = tx_to tx then tx_amount tx else 0) + (if a = blk_coinbase block then unat (tx_fee tx) else 0))"
      using out t(3,4) total perf by auto
    have "balance_of s' = transferred tx (blk_coinbase block) (balance_of s)"
      unfolding s'(5) bal transferred_def by (auto simp: fun_eq_iff)
    with s' False enough show ?thesis by auto
  qed
qed

section \<open>Blocks of transfers\<close>

definition success_status :: tx_status where
  "success_status = mk_TransactionStatus Success Transfer 0 []"

lemma tryPerform_success:
  assumes "wf_state (core_state_manager c)" and "total_money (core_state_manager c) < 2 ^ 256"
    and "plain_transfer (core_state_manager c) tx" and "tx_price tx \<le> balance_of (core_state_manager c) (tx_from tx)"
  obtains sm' where "tryPerformTransaction E tx block c =
      Inr (addTransactionOutput (hashOfTransaction (env_ext E) tx) success_status (c\<lparr>core_state_manager := sm'\<rparr>))"
    and "wf_state sm'" and "total_money sm' = total_money (core_state_manager c)"
    and "contract_at sm' = contract_at (core_state_manager c)"
    and "balance_of sm' = transferred tx (blk_coinbase block) (balance_of (core_state_manager c))"
proof -
  have "\<not> balance_of (core_state_manager c) (tx_from tx) < unat (tx_fee tx)"
    and "\<not> balance_of (core_state_manager c) (tx_from tx) < tx_price tx" using assms(4) by auto
  then obtain sm' where "perform E (host_context_of c block tx) tx block (core_state_manager c) = Inr (success_status, sm')"
    "wf_state sm'" "total_money sm' = total_money (core_state_manager c)" "contract_at sm' = contract_at (core_state_manager c)"
    "balance_of sm' = transferred tx (blk_coinbase block) (balance_of (core_state_manager c))"
    using perform_plain [OF assms(1-3), of E "host_context_of c block tx" block] by (auto simp: success_status_def)
  with that show ?thesis by (simp add: tryPerformTransaction_def)
qed

lemma addTransactionOutput_simps [simp]:
  "core_state_manager (addTransactionOutput h st c) = core_state_manager c"
  "core_blockchain (addTransactionOutput h st c) = core_blockchain c"
  "core_pending_transactions (addTransactionOutput h st c) = core_pending_transactions c"
  "core_events (addTransactionOutput h st c) = core_events c"
  "core_tx_outputs (addTransactionOutput h st c) = (core_tx_outputs c)(h \<mapsto> st)"
  by (simp_all add: addTransactionOutput_def)

text \<open>
  Transfers of pairwise different senders, each of which can pay its own price, all succeed: the
  balance of a sender whose turn has not come only grows.
\<close>

lemma performTransactions_success:
  assumes "wf_state (core_state_manager c)" and "total_money (core_state_manager c) < 2 ^ 256"
    and "\<forall>tx\<in>set txs. plain_transfer (core_state_manager c) tx" and "distinct (map tx_from txs)"
    and "\<forall>tx\<in>set txs. tx_price tx \<le> balance_of (core_state_manager c) (tx_from tx)"
  shows "\<exists>c'. performTransactions E block txs c = Inr c' \<and> wf_state (core_state_manager c')
    \<and> total_money (core_state_manager c') = total_money (core_state_manager c)
    \<and> contract_at (core_state_manager c') = contract_at (core_state_manager c)
    \<and> (\<forall>h. core_tx_outputs c' h = (if h \<in> hashOfTransaction (env_ext E) ` set txs then Some success_status
         else core_tx_outputs c h))
    \<and> core_blockchain c' = core_blockchain c \<and> core_pending_transactions c' = core_pending_transactions c"
  using assms
proof (induction txs arbitrary: c)
  case (Cons tx txs)
  let ?s = "core_state_manager c"
  obtain sm' where p: "tryPerformTransaction E tx block c =
      Inr (addTransactionOutput (hashOfTransaction (env_ext E) tx) success_status (c\<lparr>core_state_manager := sm'\<rparr>))"
    and sm': "wf_state sm'" "total_money sm' = total_money ?s" "contract_at sm' = contract_at ?s"
      "balance_of sm' = transferred tx (blk_coinbase block) (balance_of ?s)"
    using tryPerform_success [of c tx E block] Cons.prems by auto
  let ?c = "addTransactionOutput (hashOfTransaction (env_ext E) tx) success_status (c\<lparr>core_state_manager := sm'\<rparr>)"
  have "\<forall>t\<in>set txs. plain_transfer (core_state_manager ?c) t"
    using Cons.prems(3) sm'(3) by (simp add: plain_transfer_def)
  moreover have "\<forall>t\<in>set txs. tx_price t \<le> balance_of (core_state_manager ?c) (tx_from t)"
  proof
    fix t assume t: "t \<in> set txs"
    then have "tx_from t \<noteq> tx_from tx" using Cons.prems(4) by (metis distinct.simps(2) image_eqI list.set_map list.simps(9))
    then show "tx_price t \<le> balance_of (core_state_manager ?c) (tx_from t)"
      using Cons.prems(5) t sm'(4) by (auto simp: transferred_def intro: trans_le_add1)
  qed
  ultimately obtain c' where "performTransactions E block txs ?c = Inr c'" "wf_state (core_state_manager c')"
    "total_money (core_state_manager c') = total_money (core_state_manager ?c)"
    "contract_at (core_state_manager c') = contract_at (core_state_manager ?c)"
    "\<forall>h. core_tx_outputs c' h = (if h \<in> hashOfTransaction (env_ext E) ` set txs then Some success_status
       else core_tx_outputs ?c h)"
    "core_blockchain c' = core_blockchain ?c" "core_pending_transactions c' = core_pending_transactions ?c"
    using Cons.IH [of ?c] sm'(1,2) Cons.prems(2,4) by auto
  then show ?case using p sm' by auto
qed simp

lemma emission_step:
  assumes "wf_state (core_state_manager c)" and "total_money (core_state_manager c) + BC_EMISSION_VALUE < 2 ^ 256"
  obtains sm where "update_account (blk_coinbase block) (addBalance BC_EMISSION_VALUE) (core_state_manager c) = Inr sm"
    and "wf_state sm" and "total_money sm = total_money (core_state_manager c) + BC_EMISSION_VALUE"
    and "contract_at sm = contract_at (core_state_manager c)"
    and "balance_of sm = (balance_of (core_state_manager c))(blk_coinbase block :=
           balance_of (core_state_manager c) (blk_coinbase block) + BC_EMISSION_VALUE)"
proof -
  obtain sm where "update_account (blk_coinbase block) (addBalance BC_EMISSION_VALUE) (core_state_manager c) = Inr sm"
    using addBalance_enough_room [OF assms] by blast
  then show ?thesis using that addBalance_step [OF assms(1)] add_account_types by blast
qed

lemma applyBlockTransactions_success:
  assumes "wf_state (core_state_manager c)" and "total_money (core_state_manager c) + BC_EMISSION_VALUE < 2 ^ 256"
    and "\<forall>tx\<in>set (blk_txs block). plain_transfer (core_state_manager c) tx" and "distinct (map tx_from (blk_txs block))"
    and "\<forall>tx\<in>set (blk_txs block). tx_price tx \<le> balance_of (core_state_manager c) (tx_from tx)"
  shows "\<exists>c'. applyBlockTransactions E block c = Inr c' \<and> wf_state (core_state_manager c')
    \<and> total_money (core_state_manager c') = total_money (core_state_manager c) + BC_EMISSION_VALUE
    \<and> (\<forall>tx\<in>set (blk_txs block). core_tx_outputs c' (hashOfTransaction (env_ext E) tx) = Some success_status)"
proof -
  obtain sm where sm: "update_account (blk_coinbase block) (addBalance BC_EMISSION_VALUE) (core_state_manager c) = Inr sm"
    "wf_state sm" "total_money sm = total_money (core_state_manager c) + BC_EMISSION_VALUE"
    "contract_at sm = contract_at (core_state_manager c)"
    "balance_of sm = (balance_of (core_state_manager c))(blk_coinbase block :=
       balance_of (core_state_manager c) (blk_coinbase block) + BC_EMISSION_VALUE)"
    by (rule emission_step [OF assms(1,2)])
  let ?c = "c\<lparr>core_state_manager := sm\<rparr>"
  have "\<forall>tx\<in>set (blk_txs block). plain_transfer (core_state_manager ?c) tx"
    using assms(3) sm(4) by (simp add: plain_transfer_def)
  moreover have "\<forall>tx\<in>set (blk_txs block). tx_price tx \<le> balance_of (core_state_manager ?c) (tx_from tx)"
    using assms(5) sm(5) by (auto intro: trans_le_add1)
  ultimately show ?thesis
    using performTransactions_success [of ?c "blk_txs block" E block] sm assms(2,4)
    by (auto simp: applyBlockTransactions_def)
qed

section \<open>The check of a block\<close>

lemma checkBlockTransactions_loop_iff:
  assumes "\<forall>tx\<in>set txs. costs (tx_from tx) \<noteq> None"
  shows "checkBlockTransactions_loop sm costs txs =
    Inr (\<forall>tx\<in>set txs. hasAccount sm (tx_from tx) \<and> the (costs (tx_from tx)) \<le> balance_of sm (tx_from tx))"
  using assms
  by (induction txs) (auto simp: hasAccount_def getAccount_def)

lemma calcCost_dom:
  assumes "calcCost txs = Inr m" and "tx \<in> set txs"
  shows "m (tx_from tx) \<noteq> None"
  using calcCost_first [OF assms(1), of "tx_from tx"] assms(2) by (auto simp: find_None_iff)

text \<open>The check passes exactly if every sender has an account that covers its first transaction.\<close>

lemma checkBlockTransactions_iff:
  assumes "calcCost (blk_txs b) = Inr m"
  shows "checkBlockTransactions E c b = Inr (core_findBlock c (sha256_compute (env_ext E) (toBytes (serialize_iblock (env_ext E)) b)) = None
    \<and> (\<forall>tx\<in>set (blk_txs b). hasAccount (core_state_manager c) (tx_from tx)
        \<and> tx_price (the (List.find (\<lambda>t. tx_from t = tx_from tx) (blk_txs b))) \<le> balance_of (core_state_manager c) (tx_from tx)))"
proof -
  have dom: "\<forall>tx\<in>set (blk_txs b). m (tx_from tx) \<noteq> None" using calcCost_dom [OF assms] by blast
  have cost: "the (m (tx_from tx)) = tx_price (the (List.find (\<lambda>t. tx_from t = tx_from tx) (blk_txs b)))"
    if "tx \<in> set (blk_txs b)" for tx
    using calcCost_first [OF assms, of "tx_from tx"] dom that
    by (cases "List.find (\<lambda>t. tx_from t = tx_from tx) (blk_txs b)") auto
  show ?thesis
    using checkBlockTransactions_loop_iff [OF dom, of "core_state_manager c"] assms cost
    by (simp add: checkBlockTransactions_def Let_def)
qed

lemma find_own_sender:
  "distinct (map tx_from txs) \<Longrightarrow> tx \<in> set txs \<Longrightarrow> List.find (\<lambda>t. tx_from t = tx_from tx) txs = Some tx"
  by (induction txs) auto

lemma checked_prices:
  assumes "checkBlockTransactions E c b = Inr True" and "distinct (map tx_from (blk_txs b))" and "tx \<in> set (blk_txs b)"
  shows "hasAccount (core_state_manager c) (tx_from tx) \<and> tx_price tx \<le> balance_of (core_state_manager c) (tx_from tx)"
proof -
  obtain m where m: "calcCost (blk_txs b) = Inr m"
    using assms(1) by (auto simp: checkBlockTransactions_def Let_def rbind_eq_Inr split: if_splits)
  show ?thesis using checkBlockTransactions_iff [OF m, of E c] assms find_own_sender [OF assms(2,3)] by auto
qed

section \<open>Contract runs\<close>

lemma createContractAccount_no_mint:
  assumes "createContractAccount X from h s = (addr, s')"
  shows "no_mint s s'"
proof -
  let ?s1 = "s(from \<mapsto> account_or_new s from)" and ?new = "setCodeHash h (mk_AccountState CONTRACT)"
  have s': "s' = ?s1(addr \<mapsto> ?new)"
    using assms by (auto simp: createContractAccount_def getAccount_lazy_new Let_def)
  have b: "acc_balance ?new = 0" by (simp add: setCodeHash_def)
  show ?thesis unfolding no_mint_def
  proof
    assume "wf_state s \<and> total_money s < 2 ^ 256"
    then have s1: "wf_state ?s1" "total_money ?s1 = total_money s" using lazy_account by auto
    have "wf_state s'" unfolding s' using s1(1) by (rule wf_state_upd) (simp add: b)
    moreover have "total_money s' \<le> total_money s"
      using total_money_upd [of ?s1 addr ?new] s1 b unfolding s' by (simp add: wf_state_def)
    ultimately show "wf_state s' \<and> total_money s' \<le> total_money s" by simp
  qed
qed

lemma balance_of_int64_Inr: "balance_of_int64 g = Inr n \<Longrightarrow> n = unat g"
  by (simp add: balance_of_int64_def split: if_splits)

lemma settle_success_money:
  assumes "wf_state s" and "settle_success tx block r s = Inr s'" and "res_gas_left r \<le> tx_fee tx"
  shows "wf_state s' \<and> total_money s' = total_money s + unat (tx_fee tx)"
proof -
  obtain s1 g where s1: "update_account (blk_coinbase block) (addBalance (unat (tx_fee tx - res_gas_left r))) s = Inr s1"
    and g: "balance_of_int64 (res_gas_left r) = Inr g" and s2: "update_account (tx_from tx) (addBalance g) s1 = Inr s'"
    using assms(2) by (auto simp: settle_success_def rbind_eq_Inr)
  have m1: "wf_state s1" "total_money s1 = total_money s + unat (tx_fee tx - res_gas_left r)"
    using addBalance_step [OF assms(1) s1] by auto
  have "unat (tx_fee tx - res_gas_left r) + unat (res_gas_left r) = unat (tx_fee tx)"
    using assms(3) by (simp add: unat_sub word_le_nat_alt)
  then show ?thesis using addBalance_step [OF m1(1) s2] m1(2) balance_of_int64_Inr [OF g] by simp
qed

text \<open>The charge after a run that did not succeed: the sender pays the gas left, not the gas used.\<close>

lemma settle_failure_money:
  assumes "wf_state s" and "settle_failure tx block r s = Inr s'"
  shows "wf_state s' \<and> total_money s' + unat (res_gas_left r) = total_money s + unat (tx_fee tx - res_gas_left r)"
proof -
  obtain s1 g where g: "balance_of_int64 (res_gas_left r) = Inr g" and s1: "update_account (tx_from tx) (subBalance g) s = Inr s1"
    and s2: "update_account (blk_coinbase block) (addBalance (unat (tx_fee tx - res_gas_left r))) s1 = Inr s'"
    using assms(2) by (auto simp: settle_failure_def rbind_eq_Inr)
  have m1: "wf_state s1" "total_money s1 + g = total_money s" using subBalance_step [OF assms(1) s1] by auto
  then show ?thesis using addBalance_step [OF m1(1) s2] balance_of_int64_Inr [OF g] by auto
qed

lemma no_mintD: "no_mint s s' \<Longrightarrow> wf_state s \<Longrightarrow> total_money s < 2 ^ 256 \<Longrightarrow> wf_state s' \<and> total_money s' \<le> total_money s"
  by (simp add: no_mint_def)

lemma set_code_no_mint:
  assumes "update_account a (\<lambda>x. Inr (setRuntimeCode code x)) s = Inr s'"
  shows "no_mint s s'"
  unfolding no_mint_def
proof
  assume "wf_state s \<and> total_money s < 2 ^ 256"
  then obtain t where "update_account a (\<lambda>x. Inr (setRuntimeCode code x)) s = Inr t" "wf_state t" "total_money t = total_money s"
    using update_same_balance [of s "setRuntimeCode code" a] by (auto simp: setRuntimeCode_def)
  with assms show "wf_state s' \<and> total_money s' \<le> total_money s" by simp
qed

text \<open>The part of a successful run between paying the fee and settling it.\<close>

lemma evm_gas: "evm_ok vm \<Longrightarrow> callVm vm ctx msg code s = (r, s') \<Longrightarrow> msg_gas msg < 2 ^ 63 \<Longrightarrow> res_gas_left r \<le> msg_gas msg"
  unfolding evm_ok_def callVm_def by blast

lemma catch_base_error_Inr:
  "catch_base_error r (Inr h) = Inr x \<Longrightarrow> r = Inr x \<or> x = h"
  by (auto simp: catch_base_error_def split: sum.splits if_splits)

lemma status_simps [simp]: "st_status (mk_TransactionStatus code act fee msg) = code"
  by (simp add: mk_TransactionStatus_def)

lemma creation_settle_success:
  "creation_settle tx block addr sm (r, tm) = Inr (st, s') \<Longrightarrow> st_status st = Success \<Longrightarrow>
     \<exists>t. update_account addr (\<lambda>a. Inr (setRuntimeCode (res_output_data r) a)) tm = Inr t \<and> settle_success tx block r t = Inr s'"
  by (auto simp: creation_settle_def applyChanges_def Let_def rbind_eq_Inr split: if_splits)

lemma call_settle_success:
  "call_settle E tx block sm (r, tm) = Inr (st, s') \<Longrightarrow> st_status st = Success \<Longrightarrow> settle_success tx block r tm = Inr s'"
  by (auto simp: call_settle_def applyChanges_def Let_def rbind_eq_Inr split: if_splits)

lemma perform_creation_success:
  assumes ok: "evm_ok (env_vm E)" and wf: "wf_state s" "total_money s < 2 ^ 256" and fee: "tx_fee tx < 2 ^ 63"
    and run: "perform_creation E ctx tx block s = Inr (st, s')" and succ: "st_status st = Success"
  shows "wf_state s' \<and> total_money s' \<le> total_money s"
proof -
  have "creation_try E ctx tx block s = Inr (st, s')"
    using run succ by (auto simp: perform_creation_def dest!: catch_base_error_Inr)
  then obtain t1 where t1: "update_account (tx_from tx) (subBalance (unat (tx_fee tx))) s = Inr t1"
    by (auto simp: creation_try_def createCopy_def rbind_eq_Inr)
  obtain addr t2 where
    t2: "createContractAccount (env_ext E) (tx_from tx) (sha256_compute (env_ext E) (tx_data tx)) t1 = (addr, t2)"
    by (meson surj_pair)
  from \<open>creation_try E ctx tx block s = Inr (st, s')\<close> t1 t2 succ obtain t3 r t4 where
    t3: "tryTransferMoney (tx_from tx) addr (tx_amount tx) t2 = Inr (True, t3)" and
    t4: "callInitContractVm E ctx tx addr (tx_data tx) t3 = Inr (r, t4)" and
    "creation_settle tx block addr s (r, t4) = Inr (st, s')"
    by (auto simp: creation_try_def createCopy_def Let_def rbind_eq_Inr split: if_splits)
  then obtain t5 where t5: "update_account addr (\<lambda>a. Inr (setRuntimeCode (res_output_data r) a)) t4 = Inr t5"
    and t6: "settle_success tx block r t5 = Inr s'" using creation_settle_success succ by blast
  obtain msg where vm: "callVm (env_vm E) ctx msg (tx_data tx) t3 = (r, t4)" and gas: "msg_gas msg = tx_fee tx"
    using t4 by (auto simp: callInitContractVm_def rbind_eq_Inr Let_def)
  have m1: "wf_state t1" "total_money t1 + unat (tx_fee tx) = total_money s" using subBalance_step [OF wf(1) t1] by auto
  have "no_mint t1 t5"
    using createContractAccount_no_mint [OF t2] transfer_no_mint [OF t3] callVm_no_mint [OF ok vm] set_code_no_mint [OF t5]
    by (blast intro: no_mint_trans)
  then have m5: "wf_state t5" "total_money t5 \<le> total_money t1" using no_mintD [OF _ m1(1)] m1(2) wf(2) by auto
  have "res_gas_left r \<le> tx_fee tx" using evm_gas [OF ok vm] gas fee by simp
  then show ?thesis using settle_success_money [OF m5(1) t6] m5(2) m1(2) by simp
qed

lemma perform_call_success:
  assumes ok: "evm_ok (env_vm E)" and wf: "wf_state t" "total_money t < 2 ^ 256" and fee: "tx_fee tx < 2 ^ 63"
    and run: "perform_call E ctx tx block s t = Inr (st, s')" and succ: "st_status st = Success"
  shows "wf_state s' \<and> total_money s' \<le> total_money t + unat (tx_fee tx)"
proof -
  have "call_try E ctx tx block s t = Inr (st, s')"
    using run succ by (auto simp: perform_call_def dest!: catch_base_error_Inr)
  then obtain t3 r t4 where
    t3: "(if tx_amount tx > 0 then tryTransferMoney (tx_from tx) (tx_to tx) (tx_amount tx) t else Inr (True, t)) = Inr (True, t3)" and
    t4: "callContractVm E ctx tx (acc_runtime_code (account_or_new t3 (tx_to tx))) (tx_data tx)
           (t3(tx_to tx \<mapsto> account_or_new t3 (tx_to tx))) = Inr (r, t4)" and
    "call_settle E tx block s (r, t4) = Inr (st, s')"
    using succ by (auto simp: call_try_def rbind_eq_Inr getAccount_lazy_new split: if_splits)
  then have t6: "settle_success tx block r t4 = Inr s'" using call_settle_success succ by blast
  obtain msg code t3' where vm: "callVm (env_vm E) ctx msg code t3' = (r, t4)" and gas: "msg_gas msg = tx_fee tx"
    and t3': "getAccount_lazy (tx_to tx) t3 = (account_or_new t3 (tx_to tx), t3')"
    using t4 by (auto simp: callContractVm_def rbind_eq_Inr Let_def getAccount_lazy_new)
  have "no_mint t t3" using t3 transfer_no_mint by (auto split: if_splits)
  then have "no_mint t t4"
    using lazy_no_mint [OF t3'] callVm_no_mint [OF ok vm] by (blast intro: no_mint_trans)
  then have m: "wf_state t4" "total_money t4 \<le> total_money t" using no_mintD wf by auto
  have "res_gas_left r \<le> tx_fee tx" using evm_gas [OF ok vm] gas fee by simp
  then show ?thesis using settle_success_money [OF m(1) t6] m(2) by simp
qed

lemma perform_success_no_mint:
  assumes ok: "evm_ok (env_vm E)" and wf: "wf_state s" "total_money s < 2 ^ 256" and fee: "tx_fee tx < 2 ^ 63"
    and run: "perform E ctx tx block s = Inr (st, s')" and succ: "st_status st = Success"
  shows "wf_state s' \<and> total_money s' \<le> total_money s"
proof -
  let ?h = "addTransactionHash (hashOfTransaction (env_ext E) tx)"
  obtain s1 where s1: "update_account (tx_from tx) (\<lambda>a. Inr (?h a)) s = Inr s1" "wf_state s1" "total_money s1 = total_money s"
    "hasAccount s1 (tx_from tx)"
    by (rule update_same_balance [OF wf(1), of ?h]) (simp_all add: addTransactionHash_def)
  show ?thesis
  proof (cases "tx_to tx = address_null")
    case True
    then have "perform_creation E ctx tx block s1 = Inr (st, s')" using run by (simp add: perform_def s1(1))
    then show ?thesis using perform_creation_success [OF ok s1(2) _ fee _ succ] s1(3) wf(2) by simp
  next
    case False
    obtain t1 where t1: "update_account (tx_from tx) (subBalance (unat (tx_fee tx))) s1 = Inr t1"
      using run False by (auto simp: perform_def s1(1) createCopy_def getAccount_lazy_new rbind_eq_Inr)
    let ?t = "t1(tx_to tx \<mapsto> account_or_new t1 (tx_to tx))"
    let ?sm = "s1(tx_to tx \<mapsto> account_or_new s1 (tx_to tx))"
    have m1: "wf_state t1" "total_money t1 + unat (tx_fee tx) = total_money s" using subBalance_step [OF s1(2) t1] s1(3) by auto
    then have t: "wf_state ?t" "total_money ?t + unat (tx_fee tx) = total_money s" using lazy_account [OF m1(1)] by auto
    have acc: "hasAccount ?t (tx_from tx)"
      using t1 by (auto simp: update_account_eq rbind_eq_Inr hasAccount_def)
    have "perform_call E ctx tx block ?sm ?t = Inr (st, s') \<or> perform_transfer tx block ?sm ?t = Inr (st, s')"
      using run False t1 by (auto simp: perform_def s1(1) createCopy_def getAccount_lazy_new split: if_splits)
    then show ?thesis
    proof
      assume "perform_call E ctx tx block ?sm ?t = Inr (st, s')"
      from perform_call_success [OF ok t(1) _ fee this succ] t(2) wf(2) show ?thesis by simp
    next
      assume "perform_transfer tx block ?sm ?t = Inr (st, s')"
      then show ?thesis using perform_transfer_outcome [OF t(1) _ acc, of block ?sm] t(2) wf(2) succ
        by (auto split: if_splits)
    qed
  qed
qed

section \<open>Properties\<close>

text \<open>
  C14: executing a transfer to an address that is not a contract. If the sender cannot pay the
  fee, an exception leaves the execution; if it can pay the fee but not the amount, the recorded
  status is \<^verbatim>\<open>NotEnoughBalance\<close> and no balance changes, the fee included; otherwise the status is
  \<^verbatim>\<open>Success\<close>, the amount goes to the receiver and the fee to the miner. The total never changes.
\<close>

theorem transfer_outcomes:
  assumes "wf_state (core_state_manager c)" and "total_money (core_state_manager c) < 2 ^ 256"
    and "plain_transfer (core_state_manager c) tx"
  shows "if balance_of (core_state_manager c) (tx_from tx) < unat (tx_fee tx)
    then tryPerformTransaction E tx block c = Inl LogicError
    else \<exists>c'. tryPerformTransaction E tx block c = Inr c' \<and> wf_state (core_state_manager c')
      \<and> total_money (core_state_manager c') = total_money (core_state_manager c)
      \<and> (if balance_of (core_state_manager c) (tx_from tx) < tx_price tx
         then core_tx_outputs c' (hashOfTransaction (env_ext E) tx)
                = Some (mk_TransactionStatus NotEnoughBalance Transfer (tx_fee tx) [])
              \<and> balance_of (core_state_manager c') = balance_of (core_state_manager c)
         else core_tx_outputs c' (hashOfTransaction (env_ext E) tx) = Some (mk_TransactionStatus Success Transfer 0 [])
              \<and> balance_of (core_state_manager c') = transferred tx (blk_coinbase block) (balance_of (core_state_manager c)))"
  using perform_plain [OF assms, of E "host_context_of c block tx" block]
  by (auto simp: tryPerformTransaction_def split: if_splits)

definition demo_core :: "state_manager \<Rightarrow> (string \<rightharpoonup> string) core" where
  "demo_core sm = \<lparr>core_this_node_address = address_null, core_state_manager = sm,
     core_blockchain = \<lparr>pb_chain = \<lparr>bc_blocks = [], bc_blocks_by_depth = (\<lambda>_. None), bc_genesis_block_hash = sha256_null,
        bc_top_level_block_hash = sha256_null, bc_consensus = \<lparr>con_last_blocks = [], con_complexity = \<lparr>cx_densed = 0, cx_comparer = []\<rparr>\<rparr>\<rparr>,
        pb_database = \<lparr>db_inited = True, db_handle = (\<lambda>_. None)\<rparr>\<rparr>,
     core_pending_transactions = [], core_tx_outputs = (\<lambda>_. None), core_events = []\<rparr>"

text \<open>A machine that fails every run without using the accounts.\<close>

definition failing_vm :: evm where
  "failing_vm ctx msg code s = (\<lparr>res_status = EVMC_FAILURE, res_gas_left = 0, res_output_data = []\<rparr>, s)"

definition demo_env :: "(string \<rightharpoonup> string) node_env" where
  "demo_env = \<lparr>env_ext = demo_ext, env_leveldb = map_leveldb, env_vm = failing_vm, env_nth_element = nth_element_sort\<rparr>"

definition demo_accounts :: state_manager where
  "demo_accounts = [replicate 20 1 \<mapsto> setBalance 100 (mk_AccountState CLIENT), replicate 20 2 \<mapsto> mk_AccountState CONTRACT]"

definition demo_tx :: transaction where
  "demo_tx = invalidTransaction\<lparr>tx_from := replicate 20 1, tx_to := replicate 20 3, tx_amount := 90, tx_fee := 5\<rparr>"

definition demo_block :: "txset \<Rightarrow> iblock" where
  "demo_block txs = mk_ImmutableBlock demo_ext 1 0 sha256_null 0 (replicate 20 4) txs"

lemma demo_addresses: "replicate 20 (1 :: byte) \<noteq> replicate 20 2" "replicate 20 (3 :: byte) \<noteq> replicate 20 1"
  "replicate 20 (3 :: byte) \<noteq> replicate 20 2" "replicate 20 (3 :: byte) \<noteq> address_null"
  "replicate 20 (2 :: byte) \<noteq> address_null" "replicate 20 (4 :: byte) \<noteq> replicate 20 1"
  by (simp_all add: address_null_def LENGTH_IN_BYTES_def)

lemma demo_accounts_facts:
  "wf_state demo_accounts" "total_money demo_accounts = 100" "balance_of demo_accounts (replicate 20 1) = 100"
  "contract_at demo_accounts (replicate 20 2)" "\<not> contract_at demo_accounts (replicate 20 3)"
  "hasAccount demo_accounts (replicate 20 1)"
  using demo_addresses(1-3)
  by (auto simp: demo_accounts_def wf_state_def total_money_def balance_of_def contract_at_def hasAccount_def setBalance_def
      mk_AccountState_def split: if_splits)

lemma demo_tx_plain: "plain_transfer demo_accounts demo_tx" "tx_from demo_tx = replicate 20 1" "tx_fee demo_tx = 5"
  "tx_amount demo_tx = 90"
  using demo_addresses(4) demo_accounts_facts(5) by (simp_all add: plain_transfer_def demo_tx_def)

theorem transfer_outcomes_witness:
  "\<exists>c'. tryPerformTransaction demo_env demo_tx (demo_block []) (demo_core demo_accounts) = Inr c'
     \<and> core_tx_outputs c' (hashOfTransaction demo_ext demo_tx) = Some (mk_TransactionStatus Success Transfer 0 [])"
  using transfer_outcomes [of "demo_core demo_accounts" demo_tx demo_env "demo_block []"] demo_accounts_facts demo_tx_plain
  by (auto simp: demo_core_def demo_env_def)

text \<open>
  C15: a transaction that is recorded as successful, whether a transfer, a contract creation or a
  contract call, never creates money, whatever the contract does. The fee is below \<open>2 ^ 63\<close>, since it is
  passed to the virtual machine as a signed amount of gas.
\<close>

theorem successful_transaction_no_mint:
  assumes "evm_ok (env_vm E)" and "wf_state (core_state_manager c)" and "total_money (core_state_manager c) < 2 ^ 256"
    and "tx_fee tx < 2 ^ 63" and "tryPerformTransaction E tx block c = Inr c'"
    and "core_tx_outputs c' (hashOfTransaction (env_ext E) tx) = Some st" and "st_status st = Success"
  shows "wf_state (core_state_manager c') \<and> total_money (core_state_manager c') \<le> total_money (core_state_manager c)"
  using assms(5,6) perform_success_no_mint [OF assms(1-4) _ assms(7)]
  by (auto simp: tryPerformTransaction_def rbind_eq_Inr)

lemma evm_ok_failing: "evm_ok failing_vm"
  by (simp add: evm_ok_def failing_vm_def)

theorem successful_transaction_no_mint_witness:
  "\<exists>c'. tryPerformTransaction demo_env demo_tx (demo_block []) (demo_core demo_accounts) = Inr c'
     \<and> total_money (core_state_manager c') \<le> 100"
proof -
  obtain sm' where p: "tryPerformTransaction demo_env demo_tx (demo_block []) (demo_core demo_accounts) =
      Inr (addTransactionOutput (hashOfTransaction (env_ext demo_env) demo_tx) success_status
        ((demo_core demo_accounts)\<lparr>core_state_manager := sm'\<rparr>))"
    using tryPerform_success [of "demo_core demo_accounts" demo_tx demo_env "demo_block []"] demo_accounts_facts demo_tx_plain
    by (auto simp: demo_core_def)
  show ?thesis
    using successful_transaction_no_mint [OF _ _ _ _ p, of success_status] p demo_accounts_facts demo_tx_plain evm_ok_failing
    by (simp add: demo_env_def demo_core_def success_status_def)
qed

text \<open>
  The part of a call of a contract up to the run of its code, \<open>None\<close> if the money does not suffice,
  and the same from the start of \<^verbatim>\<open>tryPerformTransaction\<close>.
\<close>

definition call_run ::
  "'s node_env \<Rightarrow> host_context \<Rightarrow> transaction \<Rightarrow> state_manager \<Rightarrow> (evmc_result \<times> state_manager) option res" where
  "call_run E ctx tx tx_manager =
     rbind (if tx_amount tx > 0 then tryTransferMoney (tx_from tx) (tx_to tx) (tx_amount tx) tx_manager
            else Inr (True, tx_manager)) (\<lambda>(ok, tx_manager).
     if \<not> ok then Inr None
     else
       (case getAccount_lazy (tx_to tx) tx_manager of (to_account, tx_manager) \<Rightarrow>
          rbind (callContractVm E ctx tx (acc_runtime_code to_account) (tx_data tx) tx_manager) (\<lambda>run. Inr (Some run))))"

definition contract_run ::
  "'s node_env \<Rightarrow> transaction \<Rightarrow> iblock \<Rightarrow> 's core \<Rightarrow> (evmc_result \<times> state_manager) option res" where
  "contract_run E tx block_where_tx c =
     rbind (update_account (tx_from tx) (\<lambda>a. Inr (addTransactionHash (hashOfTransaction (env_ext E) tx) a)) (core_state_manager c)) (\<lambda>sm.
     rbind (update_account (tx_from tx) (subBalance (unat (tx_fee tx))) (createCopy sm)) (\<lambda>tx_manager.
     call_run E (host_context_of c block_where_tx tx) tx (snd (getAccount_lazy (tx_to tx) tx_manager))))"

lemma call_try_run:
  "tx_data tx \<noteq> [] \<Longrightarrow> call_try E ctx tx block sm tx_manager =
     rbind (call_run E ctx tx tx_manager) (\<lambda>run. case run of
        None \<Rightarrow> Inr (mk_TransactionStatus NotEnoughBalance ContractCall (tx_fee tx) [], sm)
      | Some r \<Rightarrow> call_settle E tx block sm r)"
  by (simp add: call_try_def call_run_def rbind_def split: sum.splits prod.splits)

lemma settle_failure_exact:
  assumes "wf_state s" and "total_money s + unat (tx_fee tx) < 2 ^ 256"
    and g: "0 \<le> sint (res_gas_left r)" "unat (res_gas_left r) \<le> unat (tx_fee tx)" "unat (res_gas_left r) \<le> balance_of s (tx_from tx)"
  obtains s' where "settle_failure tx block r s = Inr s'"
    and "total_money s' + 2 * unat (res_gas_left r) = total_money s + unat (tx_fee tx)"
    and "balance_of s' = (let b = (balance_of s)(tx_from tx := balance_of s (tx_from tx) - unat (res_gas_left r))
           in b(blk_coinbase block := b (blk_coinbase block) + (unat (tx_fee tx) - unat (res_gas_left r))))"
proof -
  obtain u where u0: "update_account (tx_from tx) (subBalance (unat (res_gas_left r))) s = Inr u"
    using g(3) by (simp add: sub_account_money)
  note u = subBalance_step [OF assms(1) u0]
  have d: "unat (tx_fee tx - res_gas_left r) = unat (tx_fee tx) - unat (res_gas_left r)"
    using g(2) by (simp add: unat_sub word_le_nat_alt)
  obtain v where v0: "update_account (blk_coinbase block) (addBalance (unat (tx_fee tx - res_gas_left r))) u = Inr v"
  proof -
    have "total_money u + unat (tx_fee tx - res_gas_left r) < 2 ^ 256" unfolding d using u assms(2) by linarith
    then show ?thesis using addBalance_enough_room u that by blast
  qed
  have "settle_failure tx block r s = Inr v" using u0 v0 g(1) by (simp add: settle_failure_def balance_of_int64_def)
  then show ?thesis
    by (rule that) (use addBalance_step [OF _ v0] u g(2) d in \<open>auto simp: Let_def\<close>)
qed

text \<open>
  C23: a call to a contract whose run fails or reverts is settled the wrong way round. Whatever
  the virtual machine did, whatever amount was sent with the call: when the run ends without
  success and reports \<open>g\<close> gas left, at most the fee, the sender is charged \<open>g\<close> and the miner is credited
  with the fee less \<open>g\<close>, so that the money of the system grows by the fee less twice \<open>g\<close>. A run that
  fails otherwise than by a revert reports no gas left: it costs the sender nothing and creates
  the whole fee out of nothing.
\<close>

theorem failed_call_mints_fee:
  assumes "wf_state (core_state_manager c)" and "total_money (core_state_manager c) + unat (tx_fee tx) < 2 ^ 256"
    and "tx_to tx \<noteq> address_null" and "contract_at (core_state_manager c) (tx_to tx)" and "tx_data tx \<noteq> []"
    and run: "contract_run E tx block c = Inr (Some (r, changed))" and failed: "res_status r \<noteq> EVMC_SUCCESS"
    and gas: "0 \<le> sint (res_gas_left r)" "unat (res_gas_left r) \<le> unat (tx_fee tx)"
  shows "\<exists>c'. tryPerformTransaction E tx block c = Inr c'
    \<and> core_tx_outputs c' (hashOfTransaction (env_ext E) tx) =
        Some (mk_TransactionStatus (if res_status r = EVMC_REVERT then Revert else BadQueryForm) ContractCall (res_gas_left r) [])
    \<and> total_money (core_state_manager c') + 2 * unat (res_gas_left r) = total_money (core_state_manager c) + unat (tx_fee tx)
    \<and> balance_of (core_state_manager c') =
        (let b = (balance_of (core_state_manager c))(tx_from tx := balance_of (core_state_manager c) (tx_from tx) - unat (res_gas_left r))
         in b(blk_coinbase block := b (blk_coinbase block) + (unat (tx_fee tx) - unat (res_gas_left r))))"
proof -
  let ?s = "core_state_manager c" and ?ctx = "host_context_of c block tx"
  let ?h = "addTransactionHash (hashOfTransaction (env_ext E) tx)"
  let ?st = "mk_TransactionStatus (if res_status r = EVMC_REVERT then Revert else BadQueryForm) ContractCall (res_gas_left r) []"
  obtain s1 where s1: "update_account (tx_from tx) (\<lambda>a. Inr (?h a)) ?s = Inr s1" "wf_state s1" "total_money s1 = total_money ?s"
    "balance_of s1 = balance_of ?s" "contract_at s1 = contract_at ?s"
    by (rule update_same_balance [OF assms(1), of ?h]) (simp_all add: addTransactionHash_def)
  let ?sm = "s1(tx_to tx \<mapsto> account_or_new s1 (tx_to tx))"
  note sm = lazy_account [OF s1(2), of "tx_to tx"]
  obtain t1 where t1: "update_account (tx_from tx) (subBalance (unat (tx_fee tx))) s1 = Inr t1"
    and call: "call_run E ?ctx tx (snd (getAccount_lazy (tx_to tx) t1)) = Inr (Some (r, changed))"
    using run by (auto simp: contract_run_def s1(1) createCopy_def rbind_eq_Inr)
  have fee: "unat (tx_fee tx) \<le> balance_of ?s (tx_from tx)"
    using t1 by (simp add: sub_account_money s1(4) split: if_splits)
  have ct: "acc_type (account_or_new t1 (tx_to tx)) = CONTRACT"
    using assms(4) sub_account_types [OF t1] s1(5) by (simp add: contract_at_account_or_new [symmetric])
  obtain v where v: "settle_failure tx block r ?sm = Inr v"
    "total_money v + 2 * unat (res_gas_left r) = total_money ?s + unat (tx_fee tx)"
    "balance_of v = (let b = (balance_of ?s)(tx_from tx := balance_of ?s (tx_from tx) - unat (res_gas_left r))
       in b(blk_coinbase block := b (blk_coinbase block) + (unat (tx_fee tx) - unat (res_gas_left r))))"
    by (rule settle_failure_exact [of ?sm tx r block]) (use sm s1 assms(2) gas fee in auto)
  have "call_try E ?ctx tx block ?sm (snd (getAccount_lazy (tx_to tx) t1)) = Inr (?st, v)"
    using failed v(1) by (simp add: call_try_run [OF assms(5)] call call_settle_def)
  then have "perform E ?ctx tx block ?s = Inr (?st, v)"
    using assms(3) t1 ct by (simp add: perform_def s1(1) createCopy_def getAccount_lazy_new perform_call_def catch_base_error_def)
  then show ?thesis using v by (simp add: tryPerformTransaction_def)
qed

lemma demo_contract_run:
  "\<exists>changed. contract_run demo_env (demo_tx\<lparr>tx_to := replicate 20 2, tx_data := [1]\<rparr>) block (demo_core demo_accounts)
     = Inr (Some (\<lparr>res_status = EVMC_FAILURE, res_gas_left = 0, res_output_data = []\<rparr>, changed))"
proof -
  let ?tx = "demo_tx\<lparr>tx_to := replicate 20 2, tx_data := [1]\<rparr>"
  let ?h = "addTransactionHash (hashOfTransaction (env_ext demo_env) ?tx)" and ?a = "replicate 20 1 :: address"
  obtain s1 where s1: "update_account ?a (\<lambda>a. Inr (?h a)) demo_accounts = Inr s1" "wf_state s1" "total_money s1 = total_money demo_accounts"
    "balance_of s1 = balance_of demo_accounts"
    by (rule update_same_balance [OF demo_accounts_facts(1), of ?h]) (simp_all add: addTransactionHash_def)
  obtain t1 where t1: "update_account ?a (subBalance 5) s1 = Inr t1" by (simp add: sub_account_money s1(4) demo_accounts_facts)
  then have has: "hasAccount t1 ?a" by (auto simp: sub_account_money hasAccount_def split: if_splits)
  let ?t = "t1(replicate 20 2 \<mapsto> account_or_new t1 (replicate 20 2))"
  have t: "wf_state ?t" "total_money ?t < 2 ^ 256" "balance_of ?t ?a = 95"
    using lazy_account [of t1 "replicate 20 2"] subBalance_step [OF s1(2) t1] s1(3,4) demo_accounts_facts by auto
  obtain s2 where s2: "tryTransferMoney ?a (replicate 20 2) 90 ?t = Inr (True, s2)"
    using tryTransferMoney_cases [OF t(1,2), of ?a 90 "replicate 20 2"] t(3) has by (auto simp: hasAccount_def)
  show ?thesis using s1(1) t1 s2
    by (simp add: contract_run_def call_run_def demo_tx_plain demo_core_def createCopy_def getAccount_lazy_new callContractVm_def
        toEthAddress_def callVm_def demo_env_def failing_vm_def split: prod.splits)
qed

theorem failed_call_mints_fee_witness:
  "\<exists>c'. tryPerformTransaction demo_env (demo_tx\<lparr>tx_to := replicate 20 2, tx_data := [1]\<rparr>) (demo_block [])
     (demo_core demo_accounts) = Inr c' \<and> total_money (core_state_manager c') = 105"
proof -
  let ?tx = "demo_tx\<lparr>tx_to := replicate 20 2, tx_data := [1]\<rparr>"
  obtain changed where "contract_run demo_env ?tx (demo_block []) (demo_core demo_accounts)
     = Inr (Some (\<lparr>res_status = EVMC_FAILURE, res_gas_left = 0, res_output_data = []\<rparr>, changed))"
    using demo_contract_run by blast
  from failed_call_mints_fee [OF _ _ _ _ _ this] show ?thesis
    using demo_accounts_facts demo_tx_plain demo_addresses(5) by (auto simp: demo_core_def)
qed

text \<open>
  A block of transfers by pairwise different senders that passes the check of the block's
  transactions is executed to the end: every transfer succeeds and the total grows by exactly
  the emission.
\<close>

theorem checked_transfers_succeed:
  assumes "checkBlockTransactions E c b = Inr True" and "distinct (map tx_from (blk_txs b))"
    and "\<forall>tx\<in>set (blk_txs b). plain_transfer (core_state_manager c) tx"
    and "wf_state (core_state_manager c)" and "total_money (core_state_manager c) + BC_EMISSION_VALUE < 2 ^ 256"
  shows "\<exists>c'. applyBlockTransactions E b c = Inr c' \<and> wf_state (core_state_manager c')
    \<and> total_money (core_state_manager c') = total_money (core_state_manager c) + BC_EMISSION_VALUE
    \<and> (\<forall>tx\<in>set (blk_txs b). core_tx_outputs c' (hashOfTransaction (env_ext E) tx) = Some success_status)"
  using applyBlockTransactions_success [OF assms(4,5,3,2)] checked_prices [OF assms(1,2)] by blast

lemma demo_check:
  assumes "\<forall>tx\<in>set txs. tx_from tx = replicate 20 1" and "txs = demo_tx # rest" and "calcCost txs = Inr m"
  shows "checkBlockTransactions demo_env (demo_core demo_accounts) (demo_block txs) = Inr True"
proof -
  have bm: "calcCost (blk_txs (demo_block txs)) = Inr m" using assms(3) by (simp add: demo_block_def)
  have "List.find (\<lambda>t. tx_from t = tx_from tx) txs = Some demo_tx" if "tx \<in> set txs" for tx
    using assms(1,2) that demo_tx_plain(2) by auto
  then show ?thesis
    unfolding checkBlockTransactions_iff [OF bm]
    using assms(1) demo_accounts_facts(3,6) demo_tx_plain
    by (simp add: demo_block_def core_findBlock_def findBlock_def demo_core_def)
qed

theorem checked_transfers_succeed_witness:
  "\<exists>c'. applyBlockTransactions demo_env (demo_block [demo_tx]) (demo_core demo_accounts) = Inr c'
     \<and> total_money (core_state_manager c') = 1100"
proof -
  have "calcCost [demo_tx] = Inr [replicate 20 1 \<mapsto> 95]"
    using demo_tx_plain by (simp add: calcCost_def tx_cost_def u256_add_def std_map_insert_def)
  then have "checkBlockTransactions demo_env (demo_core demo_accounts) (demo_block [demo_tx]) = Inr True"
    using demo_check [of "[demo_tx]" "[]"] demo_tx_plain by simp
  from checked_transfers_succeed [OF this] show ?thesis
    using demo_accounts_facts demo_tx_plain by (auto simp: demo_block_def demo_core_def BC_EMISSION_VALUE_def)
qed

text \<open>The execution of a block in which the second transfer of a sender cannot pay its fee.\<close>

lemma overspending_execution:
  assumes "wf_state (core_state_manager c)" and "total_money (core_state_manager c) + BC_EMISSION_VALUE < 2 ^ 256"
    and "blk_txs b = [t, u]" and "tx_from u = tx_from t" and "plain_transfer (core_state_manager c) t"
    and "plain_transfer (core_state_manager c) u"
    and "tx_price t \<le> balance_of (core_state_manager c) (tx_from t)"
    and "balance_of (core_state_manager c) (tx_from t) - tx_price t < unat (tx_fee u)"
    and "tx_to t \<noteq> tx_from t" and "blk_coinbase b \<noteq> tx_from t"
  shows "applyBlockTransactions E b c = Inl LogicError"
proof -
  let ?s = "core_state_manager c"
  obtain sm where sm: "update_account (blk_coinbase b) (addBalance BC_EMISSION_VALUE) ?s = Inr sm" "wf_state sm"
    "total_money sm = total_money ?s + BC_EMISSION_VALUE" "contract_at sm = contract_at ?s"
    "balance_of sm = (balance_of ?s)(blk_coinbase b := balance_of ?s (blk_coinbase b) + BC_EMISSION_VALUE)"
    by (rule emission_step [OF assms(1,2)])
  let ?c = "c\<lparr>core_state_manager := sm\<rparr>"
  obtain s1 where p: "tryPerformTransaction E t b ?c =
      Inr (addTransactionOutput (hashOfTransaction (env_ext E) t) success_status (?c\<lparr>core_state_manager := s1\<rparr>))"
    and s1: "wf_state s1" "total_money s1 = total_money sm" "contract_at s1 = contract_at sm"
      "balance_of s1 = transferred t (blk_coinbase b) (balance_of sm)"
    using tryPerform_success [of ?c t E b] sm assms(2,5,7,10) by (auto simp: plain_transfer_def)
  have "balance_of s1 (tx_from u) < unat (tx_fee u)"
    using assms(4,8,9,10) s1(4) sm(5) by (auto simp: transferred_def)
  then have "perform E ctx u b s1 = Inl LogicError" for ctx
    using perform_plain [of s1 u E ctx b] s1 sm assms(2,6) by (simp add: plain_transfer_def)
  then show ?thesis using sm(1) p assms(3) by (simp add: applyBlockTransactions_def tryPerformTransaction_def)
qed

lemma overspending_check:
  assumes "wf_state (core_state_manager c)" and "blk_txs b = [t, u]" and "tx_from u = tx_from t"
    and "hasAccount (core_state_manager c) (tx_from t)" and "tx_price t \<le> balance_of (core_state_manager c) (tx_from t)" and "tx_price u < 2 ^ 256"
    and "core_findBlock c (sha256_compute (env_ext E) (toBytes (serialize_iblock (env_ext E)) b)) = None"
  shows "checkBlockTransactions E c b = Inr True"
proof -
  have "tx_price t < 2 ^ 256" using assms(5) wf_state_balance [OF assms(1), of "tx_from t"] by (rule le_less_trans)
  then obtain m where "calcCost (blk_txs b) = Inr m"
    using calcCost_loop_total [of "[t, u]" "\<lambda>_. None"] assms(2,6) by (auto simp: calcCost_def)
  from checkBlockTransactions_iff [OF this, of E c] show ?thesis using assms by simp
qed



text \<open>
  C35: starting the node replays the transactions of a stored block but not its emission. A block of
  affordable transfers from different senders is replayed without an error, and the money of the
  node is then less by the emission than when the same block arrived and was applied.
\<close>

theorem replay_omits_emission:
  assumes "core_findBlockHash c d = Some h" and "core_findBlock c h = Some b"
    and "wf_state (core_state_manager c)" and "total_money (core_state_manager c) + BC_EMISSION_VALUE < 2 ^ 256"
    and "\<forall>tx\<in>set (blk_txs b). plain_transfer (core_state_manager c) tx" and "distinct (map tx_from (blk_txs b))"
    and "\<forall>tx\<in>set (blk_txs b). tx_price tx \<le> balance_of (core_state_manager c) (tx_from tx)"
  shows "\<exists>c1 c2. applyBlockTransactions E b c = Inr c1 \<and> replay_loop E [d] c = Inr c2
    \<and> total_money (core_state_manager c1) = total_money (core_state_manager c2) + BC_EMISSION_VALUE"
proof -
  obtain c1 where "applyBlockTransactions E b c = Inr c1"
    "total_money (core_state_manager c1) = total_money (core_state_manager c) + BC_EMISSION_VALUE"
    using applyBlockTransactions_success [OF assms(3-7)] by blast
  moreover obtain c2 where "performTransactions E b (blk_txs b) c = Inr c2"
    "total_money (core_state_manager c2) = total_money (core_state_manager c)"
    using performTransactions_success [OF assms(3) _ assms(5-7), of E b] assms(4) by auto
  ultimately show ?thesis using assms(1,2) by simp
qed

theorem replay_omits_emission_witness:
  "\<exists>c. \<exists>c1 c2. applyBlockTransactions demo_env (demo_block [demo_tx]) c = Inr c1 \<and> replay_loop demo_env [1] c = Inr c2
     \<and> total_money (core_state_manager c1) = total_money (core_state_manager c2) + 1000"
proof -
  let ?b = "demo_block [demo_tx]" and ?h = "blk_this_block_hash (demo_block [demo_tx])"
  let ?c = "(demo_core demo_accounts)\<lparr>core_blockchain := \<lparr>pb_chain = \<lparr>bc_blocks = [(?h, ?b)], bc_blocks_by_depth = [1 \<mapsto> ?h],
      bc_genesis_block_hash = sha256_null, bc_top_level_block_hash = ?h,
      bc_consensus = \<lparr>con_last_blocks = [], con_complexity = \<lparr>cx_densed = 0, cx_comparer = []\<rparr>\<rparr>\<rparr>,
      pb_database = \<lparr>db_inited = True, db_handle = (\<lambda>_. None)\<rparr>\<rparr>\<rparr>"
  have "core_findBlockHash ?c 1 = Some ?h" and "core_findBlock ?c ?h = Some ?b"
    by (simp_all add: core_findBlockHash_def findBlockHashByDepth_def core_findBlock_def findBlock_def)
  from replay_omits_emission [OF this, of demo_env] show ?thesis
    using demo_accounts_facts demo_tx_plain by (auto simp: demo_block_def demo_core_def BC_EMISSION_VALUE_def)
qed

end
