(* ===== verification/Unwinding.thy ===== *)
theory Unwinding
  imports Execution
begin

text \<open>
  What an exception leaves behind in \<^verbatim>\<open>Core\<close> (\<^verbatim>\<open>src/core/core.cpp\<close>). A handler of the model that throws
  returns only the exception; the node, however, goes on with the fields as they were when it was
  thrown: \<^verbatim>\<open>net::Connection::receive\<close> and the RPC servers catch it. For every operation that can
  throw after it has changed something, the function with the suffix \<open>_left\<close> follows the same code up
  to the call that throws and gives the state at that point; it is meant for arguments on which the
  operation throws. Locks are released by their destructors.
\<close>

section \<open>Execution of a transaction\<close>

text \<open>The account is created before the change through its reference throws.\<close>

definition update_account_left :: "address \<Rightarrow> state_manager \<Rightarrow> state_manager" where
  "update_account_left address s = snd (getAccount_lazy address s)"

text \<open>The status is recorded, and the original accounts are charged in two steps.\<close>

definition settle_failure_left :: "transaction \<Rightarrow> iblock \<Rightarrow> evmc_result \<Rightarrow> state_manager \<Rightarrow> state_manager" where
  "settle_failure_left tx block r sm =
     (case balance_of_int64 (res_gas_left r) of
        Inl e \<Rightarrow> sm
      | Inr gas_left \<Rightarrow>
          (case update_account (tx_from tx) (subBalance gas_left) sm of
             Inl e \<Rightarrow> update_account_left (tx_from tx) sm
           | Inr sm \<Rightarrow> update_account_left (blk_coinbase block) sm))"

definition settle_left ::
  "action_type \<Rightarrow> string \<Rightarrow> transaction \<Rightarrow> iblock \<Rightarrow> evmc_result \<Rightarrow> state_manager \<Rightarrow> state_manager \<times> tx_status option" where
  "settle_left action message tx block r sm =
     (let status = (\<lambda>code message. Some (mk_TransactionStatus code action (res_gas_left r) message)) in
      if res_status r = EVMC_SUCCESS then (sm, status Success message)
      else if res_status r = EVMC_REVERT then (settle_failure_left tx block r sm, status Revert [])
      else (settle_failure_left tx block r sm, status BadQueryForm []))"

text \<open>The part of the creation of a contract up to the run of its code, \<open>None\<close> if the money does not suffice.\<close>

definition creation_run ::
  "'s node_env \<Rightarrow> host_context \<Rightarrow> transaction \<Rightarrow> state_manager \<Rightarrow> (address \<times> evmc_result \<times> state_manager) option res" where
  "creation_run E ctx tx sm =
     rbind (update_account (tx_from tx) (subBalance (unat (tx_fee tx))) (createCopy sm)) (\<lambda>tx_manager.
       (let contract_data_hash = sha256_compute (env_ext E) (tx_data tx);
            (contract_address, tx_manager) = createContractAccount (env_ext E) (tx_from tx) contract_data_hash tx_manager
        in rbind (tryTransferMoney (tx_from tx) contract_address (tx_amount tx) tx_manager) (\<lambda>(ok, tx_manager).
           if \<not> ok then Inr None
           else rbind (callInitContractVm E ctx tx contract_address (tx_data tx) tx_manager) (\<lambda>run. Inr (Some (contract_address, run))))))"

definition creation_left ::
  "'s node_env \<Rightarrow> host_context \<Rightarrow> transaction \<Rightarrow> iblock \<Rightarrow> state_manager \<Rightarrow> state_manager \<times> tx_status option" where
  "creation_left E ctx tx block sm =
     (case creation_run E ctx tx sm of
        Inr (Some (contract_address, eval_result, tx_manager)) \<Rightarrow>
          settle_left ContractCreation (base58Encode contract_address) tx block eval_result sm
      | _ \<Rightarrow> (sm, None))"

definition call_left ::
  "'s node_env \<Rightarrow> host_context \<Rightarrow> transaction \<Rightarrow> iblock \<Rightarrow> state_manager \<Rightarrow> state_manager \<Rightarrow> state_manager \<times> tx_status option" where
  "call_left E ctx tx block sm tx_manager =
     (if tx_data tx = [] then (sm, None)
      else
        (case call_run E ctx tx tx_manager of
           Inr (Some (eval_result, tx_manager)) \<Rightarrow>
             (case (if res_output_data eval_result = [] then Inr []
                    else rbind (takePart (tx_data tx) 0 4) (\<lambda>p. Inr (p @ res_output_data eval_result))) of
                Inl e \<Rightarrow> if res_status eval_result = EVMC_SUCCESS then (sm, None) else settle_left ContractCall [] tx block eval_result sm
              | Inr output_data \<Rightarrow> settle_left ContractCall (base64Encode (env_ext E) output_data) tx block eval_result sm)
         | _ \<Rightarrow> (sm, None)))"

definition transfer_left :: "transaction \<Rightarrow> state_manager \<Rightarrow> state_manager \<Rightarrow> state_manager \<times> tx_status option" where
  "transfer_left tx sm tx_manager =
     (case tryTransferMoney (tx_from tx) (tx_to tx) (tx_amount tx) tx_manager of
        Inr (True, tx_manager) \<Rightarrow> (sm, Some (mk_TransactionStatus Success Transfer 0 []))
      | _ \<Rightarrow> (sm, None))"

definition perform_left ::
  "'s node_env \<Rightarrow> host_context \<Rightarrow> transaction \<Rightarrow> iblock \<Rightarrow> state_manager \<Rightarrow> state_manager \<times> tx_status option" where
  "perform_left E ctx tx block sm =
     (case update_account (tx_from tx) (\<lambda>a. Inr (addTransactionHash (hashOfTransaction (env_ext E) tx) a)) sm of
        Inl e \<Rightarrow> (update_account_left (tx_from tx) sm, None)
      | Inr sm \<Rightarrow>
          if tx_to tx = address_null then creation_left E ctx tx block sm
          else
            (let tx_manager = createCopy sm in
             case getAccount_lazy (tx_to tx) sm of (to_account_recovery, sm) \<Rightarrow>
             (case update_account (tx_from tx) (subBalance (unat (tx_fee tx))) tx_manager of
                Inl e \<Rightarrow> (sm, None)
              | Inr tx_manager \<Rightarrow>
                  (case getAccount_lazy (tx_to tx) tx_manager of (to_account, tx_manager) \<Rightarrow>
                     if acc_type to_account = CONTRACT then call_left E ctx tx block sm tx_manager
                     else transfer_left tx sm tx_manager))))"

definition tryPerformTransaction_left :: "'s node_env \<Rightarrow> transaction \<Rightarrow> iblock \<Rightarrow> 's core \<Rightarrow> 's core" where
  "tryPerformTransaction_left E tx block_where_tx c =
     (case perform_left E (host_context_of c block_where_tx tx) tx block_where_tx (core_state_manager c) of
        (sm, None) \<Rightarrow> c\<lparr>core_state_manager := sm\<rparr>
      | (sm, Some status) \<Rightarrow> addTransactionOutput (hashOfTransaction (env_ext E) tx) status (c\<lparr>core_state_manager := sm\<rparr>))"

fun performTransactions_left :: "'s node_env \<Rightarrow> iblock \<Rightarrow> txset \<Rightarrow> 's core \<Rightarrow> 's core" where
  "performTransactions_left E block [] c = c"
| "performTransactions_left E block (tx # txs) c =
     (case tryPerformTransaction E tx block c of
        Inl e \<Rightarrow> tryPerformTransaction_left E tx block c
      | Inr c \<Rightarrow> performTransactions_left E block txs c)"

definition applyBlockTransactions_left :: "'s node_env \<Rightarrow> iblock \<Rightarrow> 's core \<Rightarrow> 's core" where
  "applyBlockTransactions_left E block c =
     (case update_account (blk_coinbase block) (addBalance BC_EMISSION_VALUE) (core_state_manager c) of
        Inl e \<Rightarrow> c\<lparr>core_state_manager := update_account_left (blk_coinbase block) (core_state_manager c)\<rparr>
      | Inr sm \<Rightarrow> performTransactions_left E block (blk_txs block) (c\<lparr>core_state_manager := sm\<rparr>))"

section \<open>Addition of a block\<close>

text \<open>The writes of a block that happened before one that fails.\<close>

definition pushForward_left :: "ext \<Rightarrow> 's leveldb \<Rightarrow> iblock \<Rightarrow> 's database \<Rightarrow> 's database" where
  "pushForward_left X L block db =
     (let raw_block_hash = blk_this_block_hash block; serialized_block = toBytes (serialize_iblock X) block in
      case db_exists L db (key_BLOCK raw_block_hash) of
        Inr False \<Rightarrow>
          (case db_put L db (key_BLOCK raw_block_hash) serialized_block of
             Inl e \<Rightarrow> db
           | Inr db \<Rightarrow>
               (case db_put L db (key_PREVIOUS_BLOCK_HASH raw_block_hash) (blk_prev_block_hash block) of
                  Inl e \<Rightarrow> db
                | Inr db \<Rightarrow> db))
      | _ \<Rightarrow> db)"

definition persistent_tryAddBlock_left :: "ext \<Rightarrow> 's leveldb \<Rightarrow> time \<Rightarrow> iblock \<Rightarrow> 's pblockchain \<Rightarrow> 's pblockchain" where
  "persistent_tryAddBlock_left X L now block pb =
     (case tryAddBlock now block (pb_chain pb) of
        Inl e \<Rightarrow> pb
      | Inr (r, bc) \<Rightarrow>
          if r = ADDED then pb\<lparr>pb_chain := bc, pb_database := pushForward_left X L block (pb_database pb)\<rparr>
          else pb\<lparr>pb_chain := bc\<rparr>)"

text \<open>For \<^verbatim>\<open>tryAddBlock\<close> and \<^verbatim>\<open>tryAddMinedBlock\<close> alike: the observers have not been notified.\<close>

definition core_tryAddBlock_left :: "'s node_env \<Rightarrow> time \<Rightarrow> iblock \<Rightarrow> 's core \<Rightarrow> 's core" where
  "core_tryAddBlock_left E now b c =
     (case checkBlockTransactions E c b of
        Inr True \<Rightarrow>
          (case persistent_tryAddBlock (env_ext E) (env_leveldb E) now b (core_blockchain c) of
             Inl e \<Rightarrow> c\<lparr>core_blockchain := persistent_tryAddBlock_left (env_ext E) (env_leveldb E) now b (core_blockchain c)\<rparr>
           | Inr (r, blockchain) \<Rightarrow>
               (let c = c\<lparr>core_blockchain := blockchain\<rparr> in
                if r \<noteq> ADDED then c
                else applyBlockTransactions_left E b
                       (c\<lparr>core_pending_transactions := txset_remove_set (blk_txs b) (core_pending_transactions c)\<rparr>)))
      | _ \<Rightarrow> c)"

section \<open>Agreement with the operations\<close>

text \<open>The prefix is that of the operation: what follows it is the settlement. The same holds of calls (\<open>call_try_run\<close>).\<close>

lemma creation_try_run:
  "creation_try E ctx tx block sm =
     rbind (creation_run E ctx tx sm) (\<lambda>run. case run of
        None \<Rightarrow> Inr (mk_TransactionStatus NotEnoughBalance ContractCreation (tx_fee tx) [], sm)
      | Some (contract_address, r) \<Rightarrow> creation_settle tx block contract_address sm r)"
  by (simp add: creation_try_def creation_run_def rbind_def Let_def split: sum.splits prod.splits)

section \<open>What an exception cannot have changed\<close>

definition same_node :: "'s core \<Rightarrow> 's core \<Rightarrow> bool" where
  "same_node c c' \<longleftrightarrow> core_blockchain c' = core_blockchain c \<and> core_pending_transactions c' = core_pending_transactions c
     \<and> core_events c' = core_events c \<and> core_this_node_address c' = core_this_node_address c"

lemma same_node_accounts [simp]: "same_node c (c\<lparr>core_state_manager := sm\<rparr>)" "same_node c (addTransactionOutput h st (c\<lparr>core_state_manager := sm\<rparr>))"
  by (simp_all add: same_node_def addTransactionOutput_def)

lemma same_node_trans: "same_node a b \<Longrightarrow> same_node b c \<Longrightarrow> same_node a c"
  by (simp add: same_node_def)

lemma performTransactions_left_same: "same_node c (performTransactions_left E b txs c)"
proof (induction txs arbitrary: c)
  case (Cons tx txs)
  show ?case
  proof (cases "tryPerformTransaction E tx b c")
    case (Inl e)
    then show ?thesis by (simp add: tryPerformTransaction_left_def split: prod.splits option.splits)
  next
    case (Inr c1)
    then have "same_node c c1" by (auto simp: tryPerformTransaction_def rbind_eq_Inr)
    then show ?thesis using Inr same_node_trans [OF _ Cons.IH] by simp
  qed
qed (simp add: same_node_def)

lemma applyBlockTransactions_left_same: "same_node c (applyBlockTransactions_left E b c)"
  by (cases "update_account (blk_coinbase b) (addBalance BC_EMISSION_VALUE) (core_state_manager c)")
    (auto simp: applyBlockTransactions_left_def intro: same_node_trans [OF _ performTransactions_left_same])

text \<open>On a working disk the storage of a block does not fail.\<close>

lemma pushForward_total:
  assumes "leveldb_ok L" and "db_inited db"
  obtains db' where "pushForwardToPersistentStorage X L b db = Inr db'"
proof -
  have put: "\<exists>db'. db_put L db k v = Inr db' \<and> db_inited db'" if "db_inited db" for db k v
    using db_put_lookup [OF assms(1) that, of k v] by blast
  obtain d1 where d1: "db_put L db (key_BLOCK (blk_this_block_hash b)) (toBytes (serialize_iblock X) b) = Inr d1" "db_inited d1"
    using put [OF assms(2)] by blast
  obtain d2 where d2: "db_put L d1 (key_PREVIOUS_BLOCK_HASH (blk_this_block_hash b)) (blk_prev_block_hash b) = Inr d2" "db_inited d2"
    using put [OF d1(2)] by blast
  obtain d3 where "db_put L d2 LAST_BLOCK_HASH_KEY (blk_this_block_hash b) = Inr d3" using put [OF d2(2)] by blast
  then have "\<exists>db'. pushForwardToPersistentStorage X L b db = Inr db'"
    using d1(1) d2(1) by (simp add: pushForwardToPersistentStorage_def Let_def db_exists_lookup [OF assms])
  then show ?thesis using that by blast
qed

text \<open>
  The state that \<^verbatim>\<open>tryAddBlock\<close> leaves when it throws: as before, or with the block in the chain and
  in the database, its transactions out of the pool, and nobody notified.
\<close>

lemma core_left_cases:
  assumes L: "leveldb_ok (env_leveldb E)" and db: "db_inited (pb_database (core_blockchain c))"
    and throws: "core_tryAddBlock_locked E now b c = Inl e"
  obtains (unchanged) "core_tryAddBlock_left E now b c = c"
      and "checkBlockTransactions E c b = Inr True \<Longrightarrow>
             \<exists>e'. persistent_tryAddBlock (env_ext E) (env_leveldb E) now b (core_blockchain c) = Inl e'"
  | (executing) pb' where "checkBlockTransactions E c b = Inr True"
      and "persistent_tryAddBlock (env_ext E) (env_leveldb E) now b (core_blockchain c) = Inr (ADDED, pb')"
      and "same_node (c\<lparr>core_blockchain := pb', core_pending_transactions := txset_remove_set (blk_txs b) (core_pending_transactions c)\<rparr>)
             (core_tryAddBlock_left E now b c)"
proof (cases "checkBlockTransactions E c b = Inr True")
  case False
  then show ?thesis by (intro unchanged) (auto simp: core_tryAddBlock_left_def split: sum.splits bool.splits)
next
  case check: True
  show ?thesis
  proof (cases "persistent_tryAddBlock (env_ext E) (env_leveldb E) now b (core_blockchain c)")
    case (Inl e')
    obtain db' where "pushForwardToPersistentStorage (env_ext E) (env_leveldb E) b (pb_database (core_blockchain c)) = Inr db'"
      by (rule pushForward_total [OF L db])
    then have "persistent_tryAddBlock_left (env_ext E) (env_leveldb E) now b (core_blockchain c) = core_blockchain c"
      using Inl by (auto simp: persistent_tryAddBlock_def persistent_tryAddBlock_left_def rbind_def split: sum.splits if_splits)
    then show ?thesis using check Inl by (intro unchanged) (simp_all add: core_tryAddBlock_left_def)
  next
    case (Inr rp)
    obtain pb' where pb': "persistent_tryAddBlock (env_ext E) (env_leveldb E) now b (core_blockchain c) = Inr (ADDED, pb')"
      using throws check Inr by (cases rp) (auto simp: core_tryAddBlock_locked_def rbind_def Let_def split: if_splits)
    show ?thesis by (rule executing [OF check pb'])
      (simp add: core_tryAddBlock_left_def check pb' Let_def applyBlockTransactions_left_same)
  qed
qed

end
