(* ===== verification/Admission.thy ===== *)
theory Admission
  imports Unwinding
begin

text \<open>
  How the node admits transactions and blocks: the complete case analysis of
  \<^verbatim>\<open>Core::addPendingTransaction\<close>, what \<^verbatim>\<open>Core::tryAddBlock\<close> and \<^verbatim>\<open>Core::tryAddMinedBlock\<close> change, the
  states the handlers can reach and their invariant, and the block template of
  \<^verbatim>\<open>Core::getMiningData\<close>.
\<close>

section \<open>Pending transactions\<close>

text \<open>The decision for a correctly signed transaction that is neither in the chain nor pending.\<close>

definition affordable :: "'s core \<Rightarrow> transaction \<Rightarrow> bool" where
  "affordable c tx \<longleftrightarrow> hasAccount (core_state_manager c) (tx_from tx)
     \<and> tx_price tx \<le> balance_of (core_state_manager c) (tx_from tx)"

definition refused_by_pending :: "'s core \<Rightarrow> transaction \<Rightarrow> bool" where
  "refused_by_pending c tx \<longleftrightarrow> hasAccount (core_state_manager c) (tx_from tx) \<and>
     (case List.find (\<lambda>t. tx_from t = tx_from tx) (core_pending_transactions c) of
        None \<Rightarrow> False
      | Some t \<Rightarrow> tx_price t + tx_price tx < balance_of (core_state_manager c) (tx_from tx))"

definition admit :: "transaction \<Rightarrow> 's core \<Rightarrow> 's core" where
  "admit tx c = c\<lparr>core_pending_transactions := txset_add tx (core_pending_transactions c),
     core_events := core_events c @ [Event_new_pending_transaction tx]\<rparr>"

lemma checkTransaction_iff:
  assumes "tx_price tx < 2 ^ 256"
  shows "checkTransaction (core_state_manager c) tx = Inr (affordable c tx)"
proof -
  have "tx_cost tx = Inr (tx_price tx)" using assms by (simp add: tx_cost_Inr)
  then show ?thesis
    by (cases "core_state_manager c (tx_from tx)")
      (auto simp: checkTransaction_def affordable_def hasAccount_def getAccount_def balance_of_def)
qed

lemma pending_comparison:
  assumes m: "calcCost (core_pending_transactions c) = Inr m" and price: "tx_price tx < 2 ^ 256"
    and room: "\<forall>t\<in>set (core_pending_transactions c). tx_price t + tx_price tx < 2 ^ 256"
  shows "(case m (tx_from tx) of
            Some pending \<Rightarrow>
              (case core_state_manager c (tx_from tx) of
                 Some a \<Rightarrow> rbind (u256_add pending (tx_price tx)) (\<lambda>sum. Inr (sum < acc_balance a))
               | None \<Rightarrow> Inr False)
          | None \<Rightarrow> Inr False) = Inr (refused_by_pending c tx)"
proof (cases "List.find (\<lambda>t. tx_from t = tx_from tx) (core_pending_transactions c)")
  case None
  then show ?thesis using calcCost_first [OF m, of "tx_from tx"] by (simp add: refused_by_pending_def)
next
  case (Some t)
  then have "t \<in> set (core_pending_transactions c)" by (auto simp: find_Some_iff)
  then have r: "tx_price t + tx_price tx < 2 ^ 256" using room by blast
  have "m (tx_from tx) = Some (tx_price t)" using calcCost_first [OF m, of "tx_from tx"] Some by simp
  then show ?thesis using r Some
    by (cases "core_state_manager c (tx_from tx)")
      (simp_all add: refused_by_pending_def hasAccount_def balance_of_def u256_add_def fit_def del: One_nat_def)
qed

lemma addPendingTransaction_decision:
  assumes cost: "tx_price tx < 2 ^ 256" and sign: "checkSign (env_ext E) tx = Inr True"
    and new: "core_findTransaction E c (hashOfTransaction (env_ext E) tx) = None"
    and absent: "\<not> txset_find (core_pending_transactions c) tx"
    and m: "calcCost (core_pending_transactions c) = Inr m"
    and room: "\<forall>t\<in>set (core_pending_transactions c). tx_price t + tx_price tx < 2 ^ 256"
  shows "addPendingTransaction E tx c =
    (let st = (if affordable c tx \<and> \<not> refused_by_pending c tx
               then mk_TransactionStatus Pending None_action (tx_fee tx) []
               else mk_TransactionStatus NotEnoughBalance None_action 0 []);
         c' = (if affordable c tx \<and> \<not> refused_by_pending c tx then admit tx c else c)
     in Inr (st, addTransactionOutput (hashOfTransaction (env_ext E) tx) st c'))"
proof -
  have cost': "tx_cost tx = Inr (tx_price tx)" using cost by (simp add: tx_cost_Inr)
  show ?thesis
    unfolding addPendingTransaction_def Let_def cost' sign new m rbind_Inr pending_comparison [OF m cost room]
      checkTransaction_iff [OF cost]
    using absent by (simp add: admit_def)
qed

definition pending_frame :: "transaction \<Rightarrow> 's core \<Rightarrow> 's core \<Rightarrow> bool" where
  "pending_frame tx c c' \<longleftrightarrow> core_state_manager c' = core_state_manager c \<and> core_blockchain c' = core_blockchain c
    \<and> core_this_node_address c' = core_this_node_address c
    \<and> core_pending_transactions c' \<in> {core_pending_transactions c, txset_add tx (core_pending_transactions c)}"

lemma pending_frame_intros [simp]:
  "pending_frame tx c c" "pending_frame tx c (addTransactionOutput h st c)"
  "pending_frame tx c (addTransactionOutput h st (c\<lparr>core_pending_transactions := txset_add tx (core_pending_transactions c), core_events := es\<rparr>))"
  by (simp_all add: pending_frame_def addTransactionOutput_def)

text \<open>Every value a computation can return satisfies a predicate; the rules follow the program text.\<close>

definition returns :: "('a \<Rightarrow> bool) \<Rightarrow> 'a res \<Rightarrow> bool" where
  "returns P r \<longleftrightarrow> (\<forall>x. r = Inr x \<longrightarrow> P x)"

lemma returns_rbind [intro!]: "(\<And>x. returns P (f x)) \<Longrightarrow> returns P (rbind r f)"
  by (auto simp: returns_def rbind_eq_Inr)

lemma returns_if [intro!]: "returns P a \<Longrightarrow> returns P b \<Longrightarrow> returns P (if t then a else b)"
  by simp

lemma returns_option [intro!]: "returns P n \<Longrightarrow> (\<And>x. returns P (s x)) \<Longrightarrow> returns P (case z of None \<Rightarrow> n | Some x \<Rightarrow> s x)"
  by (cases z) auto

lemma returns_Inr [intro!]: "P x \<Longrightarrow> returns P (Inr x)"
  by (simp add: returns_def)

lemma addPendingTransaction_frame:
  assumes "addPendingTransaction E tx c = Inr (st, c')"
  shows "pending_frame tx c c'"
proof -
  have "returns (\<lambda>r. pending_frame tx c (snd r)) (addPendingTransaction E tx c)"
    unfolding addPendingTransaction_def Let_def
    by (intro returns_rbind returns_if returns_option returns_Inr; simp)
  then show ?thesis using assms by (simp add: returns_def)
qed

section \<open>Blocks\<close>

lemma tryPerformTransaction_frame:
  "tryPerformTransaction E tx b c = Inr c' \<Longrightarrow> core_blockchain c' = core_blockchain c
     \<and> core_pending_transactions c' = core_pending_transactions c \<and> core_events c' = core_events c
     \<and> core_this_node_address c' = core_this_node_address c"
  by (auto simp: tryPerformTransaction_def rbind_eq_Inr addTransactionOutput_def)

lemma performTransactions_frame:
  "performTransactions E b txs c = Inr c' \<Longrightarrow> core_blockchain c' = core_blockchain c
     \<and> core_pending_transactions c' = core_pending_transactions c \<and> core_events c' = core_events c
     \<and> core_this_node_address c' = core_this_node_address c"
  by (induction txs arbitrary: c) (auto simp: rbind_eq_Inr dest!: tryPerformTransaction_frame)

lemma applyBlockTransactions_frame:
  "applyBlockTransactions E b c = Inr c' \<Longrightarrow> core_blockchain c' = core_blockchain c
     \<and> core_pending_transactions c' = core_pending_transactions c \<and> core_events c' = core_events c
     \<and> core_this_node_address c' = core_this_node_address c"
  by (auto simp: applyBlockTransactions_def rbind_eq_Inr dest!: performTransactions_frame)

text \<open>What a handler that returns has done, for an added and for a rejected block.\<close>

lemma core_tryAddBlock_locked_cases:
  assumes "core_tryAddBlock_locked E now b c = Inr (r, c')"
  shows "if r = ADDED
    then \<exists>pb'. persistent_tryAddBlock (env_ext E) (env_leveldb E) now b (core_blockchain c) = Inr (ADDED, pb')
      \<and> core_blockchain c' = pb' \<and> core_events c' = core_events c
      \<and> core_pending_transactions c' = txset_remove_set (blk_txs b) (core_pending_transactions c)
    else r = INVALID_TRANSACTIONS \<and> c' = c
      \<or> (\<exists>pb'. persistent_tryAddBlock (env_ext E) (env_leveldb E) now b (core_blockchain c) = Inr (r, pb')
           \<and> c' = c\<lparr>core_blockchain := pb'\<rparr>)"
  using assms
  by (auto simp: core_tryAddBlock_locked_def rbind_eq_Inr Let_def split: if_splits dest!: applyBlockTransactions_frame)

section \<open>Reachable states of the node\<close>

text \<open>
  A node starts with the genesis chain over an empty database and handles transactions, blocks
  from peers and mined blocks in any order. Blocks have passed through the constructor of
  \<^verbatim>\<open>ImmutableBlock\<close>, so they are well-formed. An exception does not end the run: the next handler
  starts from what it left behind (\<open>Unwinding\<close>). That of a mined block leaves the thread of the miner
  and ends the process, so that following it only adds states, among them those a restart finds in
  the database. An exception of \<^verbatim>\<open>addPendingTransaction\<close> leaves the state as it was. A failed assertion
  and undefined behaviour are not exceptions and are not followed.
\<close>

inductive core_reachable :: "'s node_env \<Rightarrow> iblock \<Rightarrow> 's core \<Rightarrow> bool" for E g where
  core_start: "mk_Blockchain g = Inr bc \<Longrightarrow> db_inited db \<Longrightarrow> (\<And>k. db_lookup (env_leveldb E) db k = None) \<Longrightarrow>
     core_blockchain c = \<lparr>pb_chain = bc, pb_database = db\<rparr> \<Longrightarrow> core_pending_transactions c = [] \<Longrightarrow> core_reachable E g c"
| core_transaction: "core_reachable E g c \<Longrightarrow> addPendingTransaction E tx c = Inr (st, c') \<Longrightarrow> core_reachable E g c'"
| core_block: "core_reachable E g c \<Longrightarrow> wf_iblock (env_ext E) b \<Longrightarrow> core_tryAddBlock E now b c = Inr (r, c') \<Longrightarrow>
     core_reachable E g c'"
| core_mined: "core_reachable E g c \<Longrightarrow> wf_iblock (env_ext E) b \<Longrightarrow> core_tryAddMinedBlock E now b c = Inr (r, c') \<Longrightarrow>
     core_reachable E g c'"
| core_block_throws: "core_reachable E g c \<Longrightarrow> wf_iblock (env_ext E) b \<Longrightarrow> core_tryAddBlock E now b c = Inl e \<Longrightarrow>
     is_std_exception e \<Longrightarrow> core_reachable E g (core_tryAddBlock_left E now b c)"
| core_mined_throws: "core_reachable E g c \<Longrightarrow> wf_iblock (env_ext E) b \<Longrightarrow> core_tryAddMinedBlock E now b c = Inl e \<Longrightarrow>
     is_std_exception e \<Longrightarrow> core_reachable E g (core_tryAddBlock_left E now b c)"

definition core_inv :: "'s node_env \<Rightarrow> iblock \<Rightarrow> 's core \<Rightarrow> bool" where
  "core_inv E g c \<longleftrightarrow> pb_reachable (env_ext E) (env_leveldb E) g (core_blockchain c) \<and> no_dups (core_pending_transactions c)"

lemma locked_keeps_inv:
  assumes "core_inv E g c" and "wf_iblock (env_ext E) b" and "core_tryAddBlock_locked E now b c = Inr (r, c')"
  shows "core_inv E g c'"
  using core_tryAddBlock_locked_cases [OF assms(3)] assms(1,2) pool.inv_remove_all
  by (auto simp: core_inv_def txset_remove_set_def intro: pb_add split: if_splits)

lemma core_inv_events [simp]: "core_inv E g (c\<lparr>core_events := es\<rparr>) \<longleftrightarrow> core_inv E g c"
  by (simp add: core_inv_def)

lemma core_throws_locked:
  "core_tryAddBlock E now b c = Inl e \<longleftrightarrow> core_tryAddBlock_locked E now b c = Inl e"
  "core_tryAddMinedBlock E now b c = Inl e \<longleftrightarrow> core_tryAddBlock_locked E now b c = Inl e"
  by (auto simp: core_tryAddBlock_def core_tryAddMinedBlock_def rbind_def split: sum.splits if_splits)

lemma left_keeps_inv:
  assumes L: "leveldb_ok (env_leveldb E)" and inv: "core_inv E g c" and wf: "wf_iblock (env_ext E) b"
    and throws: "core_tryAddBlock_locked E now b c = Inl e"
  shows "core_inv E g (core_tryAddBlock_left E now b c)
    \<and> core_this_node_address (core_tryAddBlock_left E now b c) = core_this_node_address c"
proof -
  have "db_inited (pb_database (core_blockchain c))"
    using inv pb_reachable_inv [OF L] by (auto simp: core_inv_def pb_inv_def db_stores_def)
  from L this throws show ?thesis
    by (cases rule: core_left_cases)
      (use inv wf pool.inv_remove_all in \<open>auto simp: core_inv_def same_node_def txset_remove_set_def intro: pb_add\<close>)
qed

lemma core_reachable_inv:
  assumes L: "leveldb_ok (env_leveldb E)" and "core_reachable E g c"
  shows "core_inv E g c"
  using assms(2)
proof (induction rule: core_reachable.induct)
  case (core_start bc db c)
  then show ?case by (simp add: core_inv_def pb_start no_dups_def)
next
  case (core_transaction c tx st c')
  then show ?case using addPendingTransaction_frame [OF core_transaction.hyps(2)] pool.inv_add by (auto simp: core_inv_def pending_frame_def)
next
  case (core_block c b now r c')
  then show ?case by (auto simp: core_tryAddBlock_def rbind_eq_Inr split: if_splits dest: locked_keeps_inv)
next
  case (core_mined c b now r c')
  then show ?case by (auto simp: core_tryAddMinedBlock_def rbind_eq_Inr split: if_splits dest: locked_keeps_inv)
next
  case (core_block_throws c b now e)
  then show ?case using left_keeps_inv [OF L] by (simp add: core_throws_locked)
next
  case (core_mined_throws c b now e)
  then show ?case using left_keeps_inv [OF L] by (simp add: core_throws_locked)
qed

section \<open>The template for mining\<close>

lemma valid_chain_last_depth:
  assumes "valid_chain bs c" and "blk_depth (hd bs) = 0"
  shows "unat (blk_depth (last bs)) + 1 = length bs \<and> length bs \<le> 2 ^ 64"
  using assms(1,2)
proof (induction rule: valid_chain.induct)
  case (valid_snoc bs c b c')
  have "unat (blk_depth b) = length bs" using valid_snoc.hyps(2) by (simp add: acceptable_def)
  moreover have "unat (blk_depth b) < 2 ^ 64" using unsigned_less [of "blk_depth b", where 'a = nat] by simp
  ultimately show ?case by simp
qed simp

lemma getTopBlockAndComplexity_mk_bc:
  assumes "valid_chain bs c"
  shows "getTopBlockAndComplexity (mk_bc (bs, c)) = Inr (last bs, con_complexity c)"
proof -
  have "bs \<noteq> []" using assms by simp
  then have "getTopBlock (mk_bc (bs, c)) = Inr (last bs)"
    using map_of_hashes [OF valid_chain_distinct [OF assms], of "last bs"] by (simp add: getTopBlock_def mk_bc_def)
  then show ?thesis by (simp add: getTopBlockAndComplexity_def mk_bc_def)
qed

lemma wf_iblock_hash: "wf_iblock X b \<Longrightarrow> sha256_compute X (toBytes (serialize_iblock X) b) = blk_this_block_hash b"
  by (simp add: wf_iblock_def computeThisBlockHash_def serialize_iblock_def toBytes_def)

text \<open>The transactions chosen for a block.\<close>

lemma mining_selection:
  assumes "nth_element_ok nthe"
  obtains txs rest where
    "(if length pending > BC_MAX_TRANSACTIONS_IN_BLOCK then selectBestByFee nthe BC_MAX_TRANSACTIONS_IN_BLOCK pending
      else Inr pending) = Inr txs"
    and "mset txs + mset rest = mset pending" and "length txs = min BC_MAX_TRANSACTIONS_IN_BLOCK (length pending)"
    and "\<forall>a\<in>set txs. \<forall>b\<in>set rest. tx_fee b \<le> tx_fee a"
proof (cases "length pending > BC_MAX_TRANSACTIONS_IN_BLOCK")
  case True
  then obtain sel rest where "selectBestByFee nthe BC_MAX_TRANSACTIONS_IN_BLOCK pending = Inr sel"
    "length sel = BC_MAX_TRANSACTIONS_IN_BLOCK" "mset sel + mset rest = mset pending"
    "\<forall>a\<in>set sel. \<forall>b\<in>set rest. tx_fee b \<le> tx_fee a"
    using selectBestByFee_best [OF assms, of BC_MAX_TRANSACTIONS_IN_BLOCK pending] by auto
  then show ?thesis using True that [of sel rest] by simp
next
  case False
  then show ?thesis using that [of pending "[]"] by simp
qed

lemma getMiningData_template:
  assumes inv: "pb_inv (env_ext E) (env_leveldb E) g (core_blockchain c) bs con" and g: "wf_iblock (env_ext E) g" "blk_depth g = 0"
    and nthe: "nth_element_ok (env_nth_element E)"
  obtains txs rest where
    "getMiningData E now c = Inr (mk_MutableBlock (of_nat (length bs)) 0 (blk_this_block_hash (last bs)) now
       (core_this_node_address c) txs, con_complexity con)"
    and "mset txs + mset rest = mset (core_pending_transactions c)"
    and "length txs = min BC_MAX_TRANSACTIONS_IN_BLOCK (length (core_pending_transactions c))"
    and "\<forall>a\<in>set txs. \<forall>b\<in>set rest. tx_fee b \<le> tx_fee a"
proof -
  have v: "valid_chain bs con" and ch: "pb_chain (core_blockchain c) = mk_bc (bs, con)" and hd: "hd bs = g"
    using inv by (auto simp: pb_inv_def)
  have ne: "bs \<noteq> []" using v by simp
  have "wf_iblock (env_ext E) (last bs)"
    using inv g(1) hd ne last_in_set [OF ne] by (cases bs) (auto simp: pb_inv_def)
  note hash = wf_iblock_hash [OF this]
  have "unat (blk_depth (last bs)) + 1 = length bs" using valid_chain_last_depth [OF v] hd g(2) by simp
  then have "of_nat (length bs) = (of_nat (unat (blk_depth (last bs)) + 1) :: depth)" by simp
  then have depth: "blk_depth (last bs) + 1 = of_nat (length bs)" by (simp add: unat_of_nat)
  obtain txs rest where sel:
    "(if length (core_pending_transactions c) > BC_MAX_TRANSACTIONS_IN_BLOCK
      then selectBestByFee (env_nth_element E) BC_MAX_TRANSACTIONS_IN_BLOCK (core_pending_transactions c)
      else Inr (core_pending_transactions c)) = Inr txs"
    "mset txs + mset rest = mset (core_pending_transactions c)"
    "length txs = min BC_MAX_TRANSACTIONS_IN_BLOCK (length (core_pending_transactions c))"
    "\<forall>a\<in>set txs. \<forall>b\<in>set rest. tx_fee b \<le> tx_fee a"
    by (rule mining_selection [OF nthe])
  have "getMiningData E now c = Inr (mk_MutableBlock (of_nat (length bs)) 0 (blk_this_block_hash (last bs)) now
       (core_this_node_address c) txs, con_complexity con)"
    unfolding getMiningData_def Let_def ch getTopBlockAndComplexity_mk_bc [OF v] rbind_Inr case_prod_conv sel(1) hash depth
    by (simp add: buildMutable_def raiseIfNotEverythingIsSet_def builder_null_def bb_setDepth_def bb_setNonce_def
        bb_setPrevBlockHash_def bb_setTimestamp_def bb_setCoinbase_def bb_setTransactionsSet_def)
  then show ?thesis using that sel(2-) by blast
qed

section \<open>Properties\<close>

text \<open>
  C30: a correctly signed new transaction is admitted exactly if its sender has an account that
  covers its price and, when the sender has a pending transaction already, the balance does not
  exceed the two prices together: a sender with enough money for both is refused and one without
  is admitted. An admitted transaction is in the pool, recorded as pending and announced; a
  refused one changes nothing but its recorded status.
\<close>

theorem pending_admission:
  assumes "tx_price tx < 2 ^ 256" and "checkSign (env_ext E) tx = Inr True"
    and "core_findTransaction E c (hashOfTransaction (env_ext E) tx) = None"
    and "\<not> txset_find (core_pending_transactions c) tx" and "calcCost (core_pending_transactions c) = Inr m"
    and "\<forall>t\<in>set (core_pending_transactions c). tx_price t + tx_price tx < 2 ^ 256"
    and first: "List.find (\<lambda>t. tx_from t = tx_from tx) (core_pending_transactions c) = first"
  shows "\<exists>st c'. addPendingTransaction E tx c = Inr (st, c')
    \<and> core_tx_outputs c' (hashOfTransaction (env_ext E) tx) = Some st
    \<and> core_state_manager c' = core_state_manager c \<and> core_blockchain c' = core_blockchain c
    \<and> (if hasAccount (core_state_manager c) (tx_from tx) \<and> tx_price tx \<le> balance_of (core_state_manager c) (tx_from tx)
          \<and> (case first of None \<Rightarrow> True | Some t \<Rightarrow> balance_of (core_state_manager c) (tx_from tx) \<le> tx_price t + tx_price tx)
       then st_status st = Pending \<and> core_pending_transactions c' = core_pending_transactions c @ [tx]
         \<and> core_events c' = core_events c @ [Event_new_pending_transaction tx]
       else st_status st = NotEnoughBalance \<and> core_pending_transactions c' = core_pending_transactions c
         \<and> core_events c' = core_events c)"
proof -
  have add: "txset_add tx (core_pending_transactions c) = core_pending_transactions c @ [tx]"
    using assms(4) by (simp add: txset_add_def)
  show ?thesis
    using addPendingTransaction_decision [OF assms(1-6)] first
    by (auto simp: affordable_def refused_by_pending_def admit_def add Let_def not_less split: option.splits)
qed

lemma demo_signed:
  obtains tx where "checkSign (env_ext demo_env) tx = Inr True" and "tx_price tx = 20" and "tx_from tx = replicate 20 1"
    and "tx_amount tx = 15" and "tx_fee tx = 5"
proof -
  let ?key = "replicate 32 1 :: bytes" and ?u = "demo_tx\<lparr>tx_amount := 15\<rparr>"
  let ?tx = "?u\<lparr>tx_sign := fit 64 (fit 32 ?key) @ [0]\<rparr>"
  have pub: "secp_toPublicKey demo_ext ?key = Inr (fit 65 (fit 32 ?key))"
    by (simp add: secp_toPublicKey_def demo_ext_def)
  have sg: "sign_transaction demo_ext ?key ?u = Inr ?tx"
    by (simp add: sign_transaction_def secp_sign_def demo_ext_def fixed_bytes_def)
  have "address_of_public_key demo_ext (fit 65 (fit 32 ?key)) = replicate 20 1"
    by (simp add: address_of_public_key_def sha256_compute_def ripemd160_compute_def demo_ext_def fit_def)
  then have "checkSign (env_ext demo_env) ?tx = Inr True"
    using checkSign_sign [OF demo_ext_ok(3) pub sg] by (simp add: demo_tx_plain demo_env_def)
  then show ?thesis using that [of ?tx] by (simp add: demo_tx_plain)
qed

theorem pending_admission_witness:
  "\<exists>tx t c st c'. tx_price t = 10 \<and> tx_price tx = 20 \<and> balance_of (core_state_manager c) (tx_from tx) = 100
     \<and> core_pending_transactions c = [t] \<and> tx_from t = tx_from tx
     \<and> addPendingTransaction demo_env tx c = Inr (st, c') \<and> st_status st = NotEnoughBalance"
proof -
  let ?t = "demo_tx\<lparr>tx_amount := 5\<rparr>" and ?c = "demo_core demo_accounts\<lparr>core_pending_transactions := [demo_tx\<lparr>tx_amount := 5\<rparr>]\<rparr>"
  obtain tx where sign: "checkSign (env_ext demo_env) tx = Inr True" and tx: "tx_price tx = 20" "tx_from tx = replicate 20 1" "tx_amount tx = 15" "tx_fee tx = 5"
    by (rule demo_signed)
  have cost: "calcCost (core_pending_transactions ?c) = Inr [replicate 20 1 \<mapsto> 10]"
    by (simp add: calcCost_def tx_cost_def u256_add_def fit_def std_map_insert_def demo_tx_plain)
  have new: "core_findTransaction demo_env ?c h = None" for h
    by (simp add: core_findTransaction_def findTransaction_def demo_core_def)
  have "\<not> txset_find (core_pending_transactions ?c) tx" using tx(3) by (simp add: txset_find_def tx_eq_def)
  from pending_admission [OF _ sign new this cost _ refl] show ?thesis
    by (intro exI [of _ tx] exI [of _ ?t] exI [of _ ?c])
      (auto simp: demo_tx_plain demo_accounts_facts demo_core_def tx)
qed

text \<open>
  A node that started with an empty database and handled any sequence of transactions, peer
  blocks and mined blocks keeps a pool without duplicates, and after a restart the database
  gives back exactly the chain it had.
\<close>

theorem node_survives_restart:
  assumes "core_reachable E g c" and "leveldb_ok (env_leveldb E)" and "big_ok (env_ext E)" and "hash_ok (env_ext E)"
    and "wf_iblock (env_ext E) g"
    and "\<forall>h b. findBlock (pb_chain (core_blockchain c)) h = Some b \<longrightarrow> blk_timestamp b \<le> now + SECONDS_IN_DAY"
    and "mk_Blockchain g = Inr fresh"
  shows "no_dups (core_pending_transactions c) \<and>
    load (env_ext E) (env_leveldb E) now \<lparr>pb_chain = fresh, pb_database = pb_database (core_blockchain c)\<rparr>
      = Some (Inr (core_blockchain c))"
  using core_reachable_inv [OF assms(2,1)] load_reachable [OF assms(2-5) _ assms(6,7)] by (simp add: core_inv_def)

lemma demo_start:
  obtains g bc c where "mk_Blockchain g = Inr bc" and "core_reachable demo_env g c" and "wf_iblock demo_ext g"
    and "findBlock (pb_chain (core_blockchain c)) = (\<lambda>h. if h = blk_this_block_hash g then Some g else None)"
    and "blk_timestamp g = 0" and "core_state_manager c = demo_accounts" and "blk_txs g = []" and "blk_depth g = 0"
    and "core_pending_transactions c = []" and "core_tx_outputs c = (\<lambda>_. None)" and "core_findTransaction demo_env c = (\<lambda>_. None)"
    and "getTopBlock (pb_chain (core_blockchain c)) = Inr g" and "\<exists>con. mk_Consensus = Inr con \<and> pb_chain (core_blockchain c) = mk_bc ([g], con)"
proof -
  let ?g = "mk_ImmutableBlock demo_ext 0 0 sha256_null 0 address_null []"
  let ?db = "\<lparr>db_inited = True, db_handle = (\<lambda>_. None)\<rparr> :: (string \<rightharpoonup> string) database"
  obtain bc where bc: "mk_Blockchain ?g = Inr bc" using mk_Blockchain_total by blast
  then obtain con where con: "mk_Consensus = Inr con" "bc = mk_bc ([?g], con)" by (auto simp: mk_Blockchain_eq rbind_eq_Inr)
  let ?c = "demo_core demo_accounts\<lparr>core_blockchain := \<lparr>pb_chain = bc, pb_database = ?db\<rparr>\<rparr>"
  have "core_reachable demo_env ?g ?c"
    by (rule core_start [OF bc, of ?db]) (simp_all add: db_lookup_def map_leveldb_def demo_env_def demo_core_def)
  moreover have "wf_iblock demo_ext ?g" by (simp add: wf_iblock_mk sha256_null_def)
  moreover have "findBlock (pb_chain (core_blockchain ?c)) = (\<lambda>h. if h = blk_this_block_hash ?g then Some ?g else None)"
    by (auto simp: con(2) findBlock_def mk_bc_def)
  moreover have "core_findTransaction demo_env ?c = (\<lambda>_. None)" "getTopBlock bc = Inr ?g"
    using findTransaction_mk_bc [of demo_ext "[?g]" con]
    by (auto simp: core_findTransaction_def fun_eq_iff con(2) demo_env_def getTopBlock_def mk_bc_def)
  moreover have "\<exists>con. mk_Consensus = Inr con \<and> bc = mk_bc ([?g], con)" using con by blast
  ultimately show ?thesis using that [OF bc, of ?c] by (simp add: demo_core_def)
qed

theorem node_survives_restart_witness:
  "\<exists>g c fresh. core_reachable demo_env g c \<and> mk_Blockchain g = Inr fresh \<and> no_dups (core_pending_transactions c)
     \<and> load demo_ext map_leveldb 0 \<lparr>pb_chain = fresh, pb_database = pb_database (core_blockchain c)\<rparr>
        = Some (Inr (core_blockchain c))"
proof -
  obtain g bc and c :: "(string \<rightharpoonup> string) core" where *: "mk_Blockchain g = Inr bc" "core_reachable demo_env g c" "wf_iblock demo_ext g"
    "findBlock (pb_chain (core_blockchain c)) = (\<lambda>h. if h = blk_this_block_hash g then Some g else None)" "blk_timestamp g = 0"
    by (rule demo_start)
  have "\<forall>h b. findBlock (pb_chain (core_blockchain c)) h = Some b \<longrightarrow> blk_timestamp b \<le> 0 + SECONDS_IN_DAY"
    using *(4,5) by auto
  from node_survives_restart [OF *(2) _ _ _ _ this *(1)] have "no_dups (core_pending_transactions c)
     \<and> load demo_ext map_leveldb 0 \<lparr>pb_chain = bc, pb_database = pb_database (core_blockchain c)\<rparr> = Some (Inr (core_blockchain c))"
    using leveldb_ok_map demo_ext_ok *(3) by (simp add: demo_env_def)
  then show ?thesis using *(1,2) by blast
qed

end
