(* ===== verification/Messages.thy ===== *)
theory Messages
  imports Block
begin

text \<open>
  What travels between nodes: endpoints (\<^verbatim>\<open>src/net/endpoint.cpp\<close>), the messages of
  \<^verbatim>\<open>src/core/messages.{hpp,cpp}\<close> as one datatype with the wire format of every case, and the header
  that \<^verbatim>\<open>Requests::prepareMessage\<close> (\<^verbatim>\<open>src/core/peer.tpp\<close>) puts in front. The printing and parsing of
  IPv4 addresses and the integer parser belong to Boost and are the record \<open>net_ext\<close>.
\<close>

section \<open>Endpoints\<close>

record net_ext =
  v4_to_string :: "32 word \<Rightarrow> string"
  make_address_v4 :: "string \<Rightarrow> 32 word option"
  qi_parse_int :: "string \<Rightarrow> int option"

definition net_ok :: "net_ext \<Rightarrow> bool" where
  "net_ok N \<longleftrightarrow> (\<forall>a. make_address_v4 N (v4_to_string N a) = Some a) \<and> (\<forall>a. CHR '':'' \<notin> set (v4_to_string N a))
     \<and> (\<forall>a. length (v4_to_string N a) \<le> 15) \<and> (\<forall>n < 2 ^ 16. qi_parse_int N (std_to_string n) = Some (int n))"

record endpoint =
  ep_address :: "32 word"
  ep_port :: "16 word"

definition endpoint_of_string :: "net_ext \<Rightarrow> string \<Rightarrow> endpoint res" where
  "endpoint_of_string N address_with_port =
     (if CHR '':'' \<notin> set address_with_port then Inl InvalidArgument
      else
        (let ip_address_part = takeWhile (\<lambda>c. c \<noteq> CHR '':'') address_with_port;
             port_part = drop (Suc (length ip_address_part)) address_with_port
         in case make_address_v4 N ip_address_part of
              None \<Rightarrow> Inl InvalidArgument
            | Some a \<Rightarrow> (case qi_parse_int N port_part of
                None \<Rightarrow> Inl InvalidArgument
              | Some p \<Rightarrow> Inr \<lparr>ep_address = a, ep_port = of_int p\<rparr>)))"

definition endpoint_toString :: "net_ext \<Rightarrow> endpoint \<Rightarrow> string" where
  "endpoint_toString N ep = v4_to_string N (ep_address ep) @ '':'' @ std_to_string (unat (ep_port ep))"

definition setPort :: "16 word \<Rightarrow> endpoint \<Rightarrow> endpoint" where
  "setPort port ep = ep\<lparr>ep_port := port\<rparr>"

definition endpoint_less :: "endpoint \<Rightarrow> endpoint \<Rightarrow> bool" where
  "endpoint_less a b \<longleftrightarrow> ep_address a < ep_address b \<or> (ep_address a = ep_address b \<and> ep_port a < ep_port b)"

definition serialize_endpoint :: "net_ext \<Rightarrow> endpoint serializer" where
  "serialize_endpoint N ep = serialize_string (endpoint_toString N ep)"

definition deserialize_endpoint :: "net_ext \<Rightarrow> endpoint deserializer" where
  "deserialize_endpoint N ia =
     rbind (deserialize_string ia) (\<lambda>(ip_with_port, ia). rbind (endpoint_of_string N ip_with_port) (\<lambda>ep. Inr (ep, ia)))"

section \<open>Messages\<close>

record node_identity =
  ni_endpoint :: endpoint
  ni_address :: address

definition serialize_identity :: "net_ext \<Rightarrow> node_identity serializer" where
  "serialize_identity N i oa = serialize_address (ni_address i) (serialize_endpoint N (ni_endpoint i) oa)"

definition deserialize_identity :: "net_ext \<Rightarrow> node_identity deserializer" where
  "deserialize_identity N ia =
     rbind (deserialize_endpoint N ia) (\<lambda>(endpoint, ia).
     rbind (deserialize_address ia) (\<lambda>(address, ia). Inr (\<lparr>ni_endpoint = endpoint, ni_address = address\<rparr>, ia)))"

datatype refusion_reason = NOT_AVAILABLE | BUCKET_IS_FULL | BAD_RATING | Refusion_other byte

fun byte_of_reason :: "refusion_reason \<Rightarrow> byte" where
  "byte_of_reason NOT_AVAILABLE = 0"
| "byte_of_reason BUCKET_IS_FULL = 1"
| "byte_of_reason BAD_RATING = 2"
| "byte_of_reason (Refusion_other b) = b"

definition reason_of_byte :: "byte \<Rightarrow> refusion_reason" where
  "reason_of_byte b = (if b = 0 then NOT_AVAILABLE else if b = 1 then BUCKET_IS_FULL else if b = 2 then BAD_RATING
     else Refusion_other b)"

datatype message =
    Connect address "16 word" sha256
  | CannotAccept refusion_reason "node_identity list"
  | Accepted address "16 word" sha256
  | Ping
  | Pong
  | Lookup address byte
  | LookupResponse address "node_identity list"
  | Transaction_msg transaction
  | GetBlock sha256
  | Block_msg sha256 iblock
  | BlockNotFound sha256
  | NewBlock sha256 iblock
  | Close

fun TYPE_ID :: "message \<Rightarrow> byte" where
  "TYPE_ID (Connect a p h) = 1"
| "TYPE_ID (CannotAccept r ps) = 2"
| "TYPE_ID (Accepted a p h) = 3"
| "TYPE_ID Ping = 4"
| "TYPE_ID Pong = 5"
| "TYPE_ID (Lookup a n) = 6"
| "TYPE_ID (LookupResponse a ps) = 7"
| "TYPE_ID (Transaction_msg tx) = 8"
| "TYPE_ID (GetBlock h) = 9"
| "TYPE_ID (Block_msg h b) = 10"
| "TYPE_ID (BlockNotFound h) = 11"
| "TYPE_ID (NewBlock h b) = 12"
| "TYPE_ID Close = 13"

text \<open>One function per message and direction; \<^verbatim>\<open>Ping\<close>, \<^verbatim>\<open>Pong\<close> and \<^verbatim>\<open>Close\<close> have empty bodies.\<close>

definition serialize_Connect :: "address \<Rightarrow> 16 word \<Rightarrow> sha256 \<Rightarrow> bytes \<Rightarrow> bytes" where
  "serialize_Connect address public_port top_block_hash oa =
     serialize_sha256 top_block_hash (serialize_u16 public_port (serialize_address address oa))"

definition deserialize_Connect :: "message deserializer" where
  "deserialize_Connect ia =
     rbind (deserialize_address ia) (\<lambda>(address, ia). rbind (deserialize_u16 ia) (\<lambda>(peers_id, ia).
     rbind (deserialize_sha256 ia) (\<lambda>(top_block_hash, ia). Inr (Connect address peers_id top_block_hash, ia))))"

definition serialize_CannotAccept :: "net_ext \<Rightarrow> refusion_reason \<Rightarrow> node_identity list \<Rightarrow> bytes \<Rightarrow> bytes" where
  "serialize_CannotAccept N why_not_accepted peers_info oa =
     serialize_vector (serialize_identity N) peers_info (serialize_byte (byte_of_reason why_not_accepted) oa)"

definition deserialize_CannotAccept :: "net_ext \<Rightarrow> message deserializer" where
  "deserialize_CannotAccept N ia =
     rbind (deserialize_byte ia) (\<lambda>(why, ia). rbind (deserialize_vector (deserialize_identity N) ia) (\<lambda>(peers_info, ia).
     Inr (CannotAccept (reason_of_byte why) peers_info, ia)))"

definition serialize_Accepted :: "address \<Rightarrow> 16 word \<Rightarrow> sha256 \<Rightarrow> bytes \<Rightarrow> bytes" where
  "serialize_Accepted address public_port top_block_hash oa =
     serialize_sha256 top_block_hash (serialize_u16 public_port (serialize_address address oa))"

definition deserialize_Accepted :: "message deserializer" where
  "deserialize_Accepted ia =
     rbind (deserialize_address ia) (\<lambda>(address, ia). rbind (deserialize_u16 ia) (\<lambda>(public_port, ia).
     rbind (deserialize_sha256 ia) (\<lambda>(top_block_hash, ia). Inr (Accepted address public_port top_block_hash, ia))))"

definition serialize_Lookup :: "address \<Rightarrow> byte \<Rightarrow> bytes \<Rightarrow> bytes" where
  "serialize_Lookup address selection_size oa = serialize_byte selection_size (serialize_address address oa)"

definition deserialize_Lookup :: "message deserializer" where
  "deserialize_Lookup ia =
     rbind (deserialize_address ia) (\<lambda>(address, ia). rbind (deserialize_byte ia) (\<lambda>(selection_size, ia).
     Inr (Lookup address selection_size, ia)))"

definition serialize_LookupResponse :: "net_ext \<Rightarrow> address \<Rightarrow> node_identity list \<Rightarrow> bytes \<Rightarrow> bytes" where
  "serialize_LookupResponse N address peers_info oa =
     serialize_vector (serialize_identity N) peers_info (serialize_address address oa)"

definition deserialize_LookupResponse :: "net_ext \<Rightarrow> message deserializer" where
  "deserialize_LookupResponse N ia =
     rbind (deserialize_address ia) (\<lambda>(address, ia). rbind (deserialize_vector (deserialize_identity N) ia) (\<lambda>(peers_info, ia).
     Inr (LookupResponse address peers_info, ia)))"

definition serialize_Transaction :: "ext \<Rightarrow> transaction \<Rightarrow> bytes \<Rightarrow> bytes" where
  "serialize_Transaction X tx oa = serialize_tx X tx oa"

definition deserialize_Transaction :: "ext \<Rightarrow> message deserializer" where
  "deserialize_Transaction X ia = rbind (deserialize_tx X ia) (\<lambda>(tx, ia). Inr (Transaction_msg tx, ia))"

definition serialize_GetBlock :: "sha256 \<Rightarrow> bytes \<Rightarrow> bytes" where
  "serialize_GetBlock block_hash oa = serialize_sha256 block_hash oa"

definition deserialize_GetBlock :: "message deserializer" where
  "deserialize_GetBlock ia = rbind (deserialize_sha256 ia) (\<lambda>(block_hash, ia). Inr (GetBlock block_hash, ia))"

definition serialize_Block :: "ext \<Rightarrow> sha256 \<Rightarrow> iblock \<Rightarrow> bytes \<Rightarrow> bytes" where
  "serialize_Block X block_hash block oa = serialize_iblock X block (serialize_sha256 block_hash oa)"

definition deserialize_Block :: "ext \<Rightarrow> message deserializer" where
  "deserialize_Block X ia =
     rbind (deserialize_sha256 ia) (\<lambda>(block_hash, ia). rbind (deserialize_iblock X ia) (\<lambda>(block, ia).
     Inr (Block_msg block_hash block, ia)))"

definition serialize_BlockNotFound :: "sha256 \<Rightarrow> bytes \<Rightarrow> bytes" where
  "serialize_BlockNotFound block_hash oa = serialize_sha256 block_hash oa"

definition deserialize_BlockNotFound :: "message deserializer" where
  "deserialize_BlockNotFound ia = rbind (deserialize_sha256 ia) (\<lambda>(block_hash, ia). Inr (BlockNotFound block_hash, ia))"

definition serialize_NewBlock :: "ext \<Rightarrow> sha256 \<Rightarrow> iblock \<Rightarrow> bytes \<Rightarrow> bytes" where
  "serialize_NewBlock X block_hash block oa = serialize_iblock X block (serialize_sha256 block_hash oa)"

definition deserialize_NewBlock :: "ext \<Rightarrow> message deserializer" where
  "deserialize_NewBlock X ia =
     rbind (deserialize_sha256 ia) (\<lambda>(block_hash, ia). rbind (deserialize_iblock X ia) (\<lambda>(block, ia).
     Inr (NewBlock block_hash block, ia)))"

lemmas serialize_body_defs = serialize_Connect_def serialize_CannotAccept_def serialize_Accepted_def serialize_Lookup_def
  serialize_LookupResponse_def serialize_Transaction_def serialize_GetBlock_def serialize_Block_def
  serialize_BlockNotFound_def serialize_NewBlock_def

lemmas deserialize_body_defs = deserialize_Connect_def deserialize_CannotAccept_def deserialize_Accepted_def
  deserialize_Lookup_def deserialize_LookupResponse_def deserialize_Transaction_def deserialize_GetBlock_def
  deserialize_Block_def deserialize_BlockNotFound_def deserialize_NewBlock_def

fun serialize_message :: "ext \<Rightarrow> net_ext \<Rightarrow> message serializer" where
  "serialize_message X N (Connect address public_port top_block_hash) oa = serialize_Connect address public_port top_block_hash oa"
| "serialize_message X N (CannotAccept why_not_accepted peers_info) oa = serialize_CannotAccept N why_not_accepted peers_info oa"
| "serialize_message X N (Accepted address public_port top_block_hash) oa = serialize_Accepted address public_port top_block_hash oa"
| "serialize_message X N Ping oa = oa"
| "serialize_message X N Pong oa = oa"
| "serialize_message X N (Lookup address selection_size) oa = serialize_Lookup address selection_size oa"
| "serialize_message X N (LookupResponse address peers_info) oa = serialize_LookupResponse N address peers_info oa"
| "serialize_message X N (Transaction_msg tx) oa = serialize_Transaction X tx oa"
| "serialize_message X N (GetBlock block_hash) oa = serialize_GetBlock block_hash oa"
| "serialize_message X N (Block_msg block_hash block) oa = serialize_Block X block_hash block oa"
| "serialize_message X N (BlockNotFound block_hash) oa = serialize_BlockNotFound block_hash oa"
| "serialize_message X N (NewBlock block_hash block) oa = serialize_NewBlock X block_hash block oa"
| "serialize_message X N Close oa = oa"

text \<open>The bodies, in the order of the cases of \<^verbatim>\<open>Peer::process\<close>; \<open>None\<close> is the default case.\<close>

definition deserialize_message :: "ext \<Rightarrow> net_ext \<Rightarrow> byte \<Rightarrow> message deserializer option" where
  "deserialize_message X N msg_type =
     (if msg_type = 1 then Some deserialize_Connect
      else if msg_type = 2 then Some (deserialize_CannotAccept N)
      else if msg_type = 3 then Some deserialize_Accepted
      else if msg_type = 4 then Some (\<lambda>ia. Inr (Ping, ia))
      else if msg_type = 5 then Some (\<lambda>ia. Inr (Pong, ia))
      else if msg_type = 6 then Some deserialize_Lookup
      else if msg_type = 7 then Some (deserialize_LookupResponse N)
      else if msg_type = 8 then Some (deserialize_Transaction X)
      else if msg_type = 9 then Some deserialize_GetBlock
      else if msg_type = 10 then Some (deserialize_Block X)
      else if msg_type = 11 then Some deserialize_BlockNotFound
      else if msg_type = 12 then Some (deserialize_NewBlock X)
      else if msg_type = 13 then Some (\<lambda>ia. Inr (Close, ia))
      else None)"

text \<open>\<^verbatim>\<open>Requests::prepareMessage\<close>: the message number, the type and the body.\<close>

definition prepareMessage :: "ext \<Rightarrow> net_ext \<Rightarrow> message \<Rightarrow> 16 word \<Rightarrow> bytes \<times> 16 word" where
  "prepareMessage X N msg next_message_id =
     (serialize_message X N msg (serialize_byte (TYPE_ID msg) (serialize_u16 next_message_id [])), next_message_id + 1)"

text \<open>What the receiver reads back: \<^verbatim>\<open>Requests::onMessageReceive\<close> and the head of \<^verbatim>\<open>Peer::process\<close>.\<close>

definition read_message :: "ext \<Rightarrow> net_ext \<Rightarrow> bytes \<Rightarrow> (16 word \<times> message option) res" where
  "read_message X N received_bytes =
     rbind (deserialize_u16 \<lparr>ia_bytes = received_bytes, ia_index = 0\<rparr>) (\<lambda>(msg_id, ia).
     rbind (deserialize_byte ia) (\<lambda>(msg_type, ia).
     (case deserialize_message X N msg_type of
        None \<Rightarrow> Inr (msg_id, None)
      | Some body \<Rightarrow> rbind (body ia) (\<lambda>(msg, ia). Inr (msg_id, Some msg)))))"

section \<open>Endpoints on the wire\<close>

lemma endpoint_string_roundtrip:
  assumes "net_ok N"
  shows "endpoint_of_string N (endpoint_toString N ep) = Inr ep"
proof -
  let ?a = "v4_to_string N (ep_address ep)" and ?p = "std_to_string (unat (ep_port ep))"
  have a: "CHR '':'' \<notin> set ?a" "make_address_v4 N ?a = Some (ep_address ep)" using assms by (simp_all add: net_ok_def)
  have "unat (ep_port ep) < 2 ^ 16" using unsigned_less [of "ep_port ep", where 'a = nat] by simp
  then have p: "qi_parse_int N ?p = Some (int (unat (ep_port ep)))" using assms by (simp add: net_ok_def)
  have "takeWhile (\<lambda>c. c \<noteq> CHR '':'') (?a @ CHR '':'' # ?p) = ?a" using a(1) by (subst takeWhile_append2) auto
  then show ?thesis using a(2) p by (simp add: endpoint_of_string_def endpoint_toString_def Let_def)
qed

lemma endpoint_string_length: "net_ok N \<Longrightarrow> length (endpoint_toString N ep) < 2 ^ 63"
proof -
  assume N: "net_ok N"
  have "length (v4_to_string N (ep_address ep)) \<le> 15" using N by (simp add: net_ok_def)
  moreover have "unat (ep_port ep) < 2 ^ 16" using unsigned_less [of "ep_port ep", where 'a = nat] by simp
  then have "unat (ep_port ep) < 10 ^ 5" by simp
  then have "length (std_to_string (unat (ep_port ep))) \<le> 5" by (rule length_std_to_string) simp
  ultimately show ?thesis by (simp add: endpoint_toString_def)
qed

lemma codec_endpoint:
  assumes "net_ok N"
  shows "codec (\<lambda>_. True) (serialize_endpoint N) (deserialize_endpoint N)"
proof
  fix x oa
  show "serialize_endpoint N x oa = oa @ serialize_endpoint N x []" by (simp add: serialize_endpoint_def string_io.ser_out)
next
  fix x pre post
  show "deserialize_endpoint N (arch pre (serialize_endpoint N x [] @ post)) = Inr (x, arch (pre @ serialize_endpoint N x []) post)"
    using string_io.deser_ser [OF endpoint_string_length [OF assms, of x]]
    by (simp add: serialize_endpoint_def deserialize_endpoint_def endpoint_string_roundtrip [OF assms])
qed

definition wf_identity :: "node_identity \<Rightarrow> bool" where
  "wf_identity i \<longleftrightarrow> wf_address (ni_address i)"

lemma codec_identity:
  assumes "net_ok N"
  shows "codec wf_identity (serialize_identity N) (deserialize_identity N)"
proof
  note ep = codec.ser_out [OF codec_endpoint [OF assms]] codec.deser_ser [OF codec_endpoint [OF assms] TrueI]
  fix x oa
  show "serialize_identity N x oa = oa @ serialize_identity N x []"
    by (simp add: serialize_identity_def ep address_io.ser_out)
  fix pre post
  assume "wf_identity x"
  then show "deserialize_identity N (arch pre (serialize_identity N x [] @ post)) = Inr (x, arch (pre @ serialize_identity N x []) post)"
    by (simp add: wf_identity_def serialize_identity_def deserialize_identity_def ep address_io.ser_out address_io.deser_ser)
qed

section \<open>Messages on the wire\<close>

fun wf_message :: "ext \<Rightarrow> message \<Rightarrow> bool" where
  "wf_message X (Connect a p h) = (wf_address a \<and> length h = 32)"
| "wf_message X (CannotAccept r ps) =
     ((\<forall>b. r = Refusion_other b \<longrightarrow> b \<notin> {0, 1, 2}) \<and> length ps < 2 ^ 64 \<and> list_all wf_identity ps)"
| "wf_message X (Accepted a p h) = (wf_address a \<and> length h = 32)"
| "wf_message X (Lookup a n) = wf_address a"
| "wf_message X (LookupResponse a ps) = (wf_address a \<and> length ps < 2 ^ 64 \<and> list_all wf_identity ps)"
| "wf_message X (Transaction_msg tx) = wf_tx tx"
| "wf_message X (GetBlock h) = (length h = 32)"
| "wf_message X (Block_msg h b) = (length h = 32 \<and> wf_iblock X b)"
| "wf_message X (BlockNotFound h) = (length h = 32)"
| "wf_message X (NewBlock h b) = (length h = 32 \<and> wf_iblock X b)"
| "wf_message X m = True"

lemma reason_roundtrip: "(\<forall>b. r = Refusion_other b \<longrightarrow> b \<notin> {0, 1, 2}) \<Longrightarrow> reason_of_byte (byte_of_reason r) = r"
  by (cases r) (auto simp: reason_of_byte_def)

lemmas field_out = u8.ser_out u16.ser_out address_io.ser_out sha256_io.ser_out
lemmas field_in = u8.deser_ser u16.deser_ser address_io.deser_ser sha256_io.deser_ser

lemma serialize_message_append:
  assumes X: "big_ok X" and N: "net_ok N"
  shows "serialize_message X N m oa = oa @ serialize_message X N m []"
proof -
  note out = codec.ser_out [OF codec.codec_vector [OF codec_identity [OF N]]] codec.ser_out [OF codec_tx [OF X]]
    codec.ser_out [OF codec_iblock [OF X]]
  show ?thesis by (cases m) (simp_all add: serialize_body_defs field_out out)
qed

lemma message_body:
  assumes X: "big_ok X" and N: "net_ok N" and wf: "wf_message X m"
  obtains d where "deserialize_message X N (TYPE_ID m) = Some d"
    and "d (arch pre (serialize_message X N m [] @ post)) = Inr (m, arch (pre @ serialize_message X N m []) post)"
proof -
  note infos = codec.ser_out [OF codec.codec_vector [OF codec_identity [OF N]]]
    codec.deser_ser [OF codec.codec_vector [OF codec_identity [OF N]]]
  note tx = codec.deser_ser [OF codec_tx [OF X]]
  note blk = codec.ser_out [OF codec_iblock [OF X]] codec.deser_ser [OF codec_iblock [OF X]]
  note defs = deserialize_message_def serialize_body_defs deserialize_body_defs
  have "\<exists>d. deserialize_message X N (TYPE_ID m) = Some d
      \<and> d (arch pre (serialize_message X N m [] @ post)) = Inr (m, arch (pre @ serialize_message X N m []) post)"
    using wf by (cases m) (simp_all add: defs field_out field_in infos tx blk reason_roundtrip)
  then show ?thesis using that by blast
qed

text \<open>A prepared message is read back, whatever follows it in the buffer.\<close>

lemma read_prepared:
  assumes "big_ok X" and "net_ok N" and "wf_message X m"
  shows "read_message X N (fst (prepareMessage X N m i) @ rest) = Inr (i, Some m)"
proof -
  let ?i = "serialize_u16 i []" and ?t = "serialize_byte (TYPE_ID m) []" and ?m = "serialize_message X N m []"
  have bytes: "fst (prepareMessage X N m i) @ rest = ?i @ ?t @ ?m @ rest"
    using serialize_message_append [OF assms(1,2), of m "serialize_byte (TYPE_ID m) (serialize_u16 i [])"]
    by (simp add: prepareMessage_def field_out)
  have "deserialize_u16 (arch [] (?i @ ?t @ ?m @ rest)) = Inr (i, arch ?i (?t @ ?m @ rest))"
    using u16.deser_ser [OF TrueI, of "[]" i] by simp
  moreover have "deserialize_byte (arch ?i (?t @ ?m @ rest)) = Inr (TYPE_ID m, arch (?i @ ?t) (?m @ rest))"
    using u8.deser_ser [OF TrueI] by simp
  moreover obtain d where "deserialize_message X N (TYPE_ID m) = Some d"
    "d (arch (?i @ ?t) (?m @ rest)) = Inr (m, arch ((?i @ ?t) @ ?m) rest)" by (rule message_body [OF assms])
  ultimately show ?thesis unfolding read_message_def bytes by (simp add: arch_def)
qed

end
