(* ===== verification/Session.thy ===== *)
theory Session
  imports Messages
begin

text \<open>
  The transport under the messages: the queue of \<^verbatim>\<open>net::Connection\<close> (\<^verbatim>\<open>src/net/connection.cpp\<close>), which
  keeps one write in flight, and the framing of \<^verbatim>\<open>net::Session\<close> (\<^verbatim>\<open>src/net/session.cpp\<close>), a 16-bit length
  before every message. The socket is a stream of bytes; the read buffer of a connection has a
  fixed size and is handed to the reader whole, with what earlier messages left in it.
\<close>

section \<open>The send queue of a connection\<close>

text \<open>
  A message waits together with the handler to be called once it is written; the handlers that
  occur are the empty one and the one of \<^verbatim>\<open>Peer::endSession\<close>, which closes the session.
  \<open>conn_written\<close> lists what has been passed to \<^verbatim>\<open>async_write\<close>, the last entry possibly in flight.
\<close>

datatype send_handler = No_handler | Close_session

record connection =
  conn_is_closed :: bool
  conn_pending_send_messages :: "(bytes \<times> send_handler) list"
  conn_written :: "bytes list"

definition sendPendingMessages :: "connection \<Rightarrow> connection" where
  "sendPendingMessages c =
     (case conn_pending_send_messages c of
        [] \<Rightarrow> c
      | (message, callback) # _ \<Rightarrow> c\<lparr>conn_written := conn_written c @ [message]\<rparr>)"

definition connection_send :: "bytes \<Rightarrow> send_handler \<Rightarrow> connection \<Rightarrow> connection" where
  "connection_send data send_handler c =
     (let is_already_writing = (conn_pending_send_messages c \<noteq> []);
          c = c\<lparr>conn_pending_send_messages := conn_pending_send_messages c @ [(data, send_handler)]\<rparr>
      in if \<not> is_already_writing then sendPendingMessages c else c)"

definition connection_close :: "connection \<Rightarrow> connection" where
  "connection_close c = c\<lparr>conn_is_closed := True\<rparr>"

text \<open>The completion handler of a write. The handler of the message runs before it leaves the queue.\<close>

definition on_written :: "connection \<Rightarrow> connection" where
  "on_written c =
     (if conn_is_closed c then c
      else
        (let c = (case conn_pending_send_messages c of
                    (message, Close_session) # _ \<Rightarrow> connection_close c
                  | _ \<Rightarrow> c);
             c = c\<lparr>conn_pending_send_messages := tl (conn_pending_send_messages c)\<rparr>
         in if conn_pending_send_messages c \<noteq> [] then sendPendingMessages c else c))"

section \<open>Framing\<close>

definition NET_MESSAGE_BUFFER_SIZE :: nat where
  "NET_MESSAGE_BUFFER_SIZE = 16 * 1024"

definition SIZE_OF_MESSAGE_LENGTH_IN_BYTES :: nat where
  "SIZE_OF_MESSAGE_LENGTH_IN_BYTES = 2"

definition frame :: "bytes \<Rightarrow> bytes" where
  "frame data = toBytes serialize_u16 (of_nat (length data)) @ data"

definition session_send :: "bytes \<Rightarrow> send_handler \<Rightarrow> connection \<Rightarrow> connection" where
  "session_send data on_send c = (if \<not> conn_is_closed c then connection_send (frame data) on_send c else c)"

text \<open>
  \<^verbatim>\<open>Connection::receive\<close>: at most as many bytes as the buffer holds are read into its front.
  \<open>None\<close>: the stream has not enough bytes yet.
\<close>

definition connection_receive :: "nat \<Rightarrow> bytes \<times> bytes \<Rightarrow> (bytes \<times> bytes) option" where
  "connection_receive bytes_to_receive = (\<lambda>(stream, read_buffer).
     (let n = min bytes_to_receive (length read_buffer) in
      if length stream < n then None else Some (drop n stream, take n stream @ drop n read_buffer)))"

definition session_receive :: "bytes \<times> bytes \<Rightarrow> (bytes \<times> bytes \<times> bytes) res option" where
  "session_receive sb =
     (case connection_receive SIZE_OF_MESSAGE_LENGTH_IN_BYTES sb of
        None \<Rightarrow> None
      | Some (stream, read_buffer) \<Rightarrow>
          (case fromBytes deserialize_u16 read_buffer of
             Inl e \<Rightarrow> Some (Inl e)
           | Inr len \<Rightarrow>
               (case connection_receive (unat len) (stream, read_buffer) of
                  None \<Rightarrow> None
                | Some (stream, read_buffer) \<Rightarrow> Some (Inr (read_buffer, stream, read_buffer)))))"

text \<open>The chain of receive handlers, for the given number of messages.\<close>

fun session_run :: "nat \<Rightarrow> bytes \<times> bytes \<Rightarrow> (bytes list \<times> bytes \<times> bytes) res" where
  "session_run 0 sb = Inr ([], sb)"
| "session_run (Suc n) sb =
     (case session_receive sb of
        None \<Rightarrow> Inr ([], sb)
      | Some r \<Rightarrow> rbind r (\<lambda>(data, sb). rbind (session_run n sb) (\<lambda>(ds, sb). Inr (data # ds, sb))))"

section \<open>The send queue\<close>

text \<open>One operation of the connection at a time: a message sent, or the completion of a write.\<close>

datatype conn_op = Send bytes | Written

fun conn_step :: "conn_op \<Rightarrow> connection \<Rightarrow> connection" where
  "conn_step (Send d) c = connection_send d No_handler c"
| "conn_step Written c = (if conn_pending_send_messages c = [] then c else on_written c)"

definition conn_inv :: "bytes list \<Rightarrow> connection \<Rightarrow> bool" where
  "conn_inv sent c \<longleftrightarrow> \<not> conn_is_closed c \<and> sent = conn_written c @ map fst (tl (conn_pending_send_messages c))
     \<and> (\<forall>m\<in>set (conn_pending_send_messages c). snd m = No_handler)
     \<and> (conn_pending_send_messages c \<noteq> [] \<longrightarrow> conn_written c \<noteq> [] \<and> last (conn_written c) = fst (hd (conn_pending_send_messages c)))"

fun sent_by :: "conn_op \<Rightarrow> bytes list" where
  "sent_by (Send d) = [d]"
| "sent_by Written = []"

lemma on_written_plain:
  "conn_pending_send_messages c = (m, No_handler) # xs \<Longrightarrow> \<not> conn_is_closed c \<Longrightarrow>
     on_written c = (if xs = [] then c\<lparr>conn_pending_send_messages := xs\<rparr>
       else sendPendingMessages (c\<lparr>conn_pending_send_messages := xs\<rparr>))"
  by (simp add: on_written_def)

lemma conn_step_inv: "conn_inv sent c \<Longrightarrow> conn_inv (sent @ sent_by op) (conn_step op c)"
proof (cases op)
  case (Send d)
  moreover assume "conn_inv sent c"
  ultimately show ?thesis
    by (cases "conn_pending_send_messages c") (auto simp: conn_inv_def connection_send_def sendPendingMessages_def)
next
  case Written
  moreover assume inv: "conn_inv sent c"
  moreover obtain m xs where "conn_pending_send_messages c = [] \<or> conn_pending_send_messages c = (m, No_handler) # xs"
    using inv by (cases "conn_pending_send_messages c") (auto simp: conn_inv_def)
  ultimately show ?thesis
    by (cases xs) (auto simp: conn_inv_def on_written_plain sendPendingMessages_def)
qed

lemma conn_run_inv: "conn_inv sent c \<Longrightarrow> conn_inv (sent @ concat (map sent_by ops)) (fold conn_step ops c)"
  by (induction ops arbitrary: sent c) (use conn_step_inv in fastforce)+

lemma conn_drain:
  "conn_inv sent c \<Longrightarrow> length (conn_pending_send_messages c) \<le> n \<Longrightarrow>
     conn_written ((conn_step Written ^^ n) c) = sent \<and> conn_pending_send_messages ((conn_step Written ^^ n) c) = []"
proof (induction n arbitrary: c)
  case (Suc n)
  have "conn_inv sent (conn_step Written c)" using conn_step_inv [OF Suc.prems(1), of Written] by simp
  moreover have "length (conn_pending_send_messages (conn_step Written c)) \<le> n"
    using Suc.prems by (cases "conn_pending_send_messages c")
      (auto simp: conn_inv_def on_written_plain sendPendingMessages_def split: list.splits)
  ultimately show ?case using Suc.IH by (simp add: funpow_Suc_right del: funpow.simps conn_step.simps)
qed (simp add: conn_inv_def)

section \<open>Framing\<close>

lemma frame_header: "length (toBytes serialize_u16 v) = 2"
  by (simp add: toBytes_def serialize_u16_def serialize_int_def serialize_int_on_def to_memory_def)

lemma fromBytes_header: "fromBytes deserialize_u16 (toBytes serialize_u16 v @ rest) = Inr v"
  using u16.deser_ser [OF TrueI, of "[]" v rest] by (simp add: fromBytes_def toBytes_def arch_def)

lemma session_receive_frame:
  assumes "length m < 2 ^ 16" and "length buf = NET_MESSAGE_BUFFER_SIZE"
  shows "session_receive (frame m @ rest, buf) =
    (let n = min (length m) NET_MESSAGE_BUFFER_SIZE;
         buf' = take n m @ drop n (toBytes serialize_u16 (of_nat (length m)) @ drop 2 buf)
     in Some (Inr (buf', drop n m @ rest, buf')))"
proof -
  let ?h = "toBytes serialize_u16 (of_nat (length m))"
  let ?b1 = "?h @ drop 2 buf"
  have "unat (of_nat (length m) :: 16 word) = length m" using assms(1) by (simp add: unat_of_nat)
  moreover have "connection_receive SIZE_OF_MESSAGE_LENGTH_IN_BYTES (frame m @ rest, buf) = Some (m @ rest, ?b1)"
    using assms(2) frame_header [of "of_nat (length m)"]
    by (simp add: connection_receive_def SIZE_OF_MESSAGE_LENGTH_IN_BYTES_def frame_def NET_MESSAGE_BUFFER_SIZE_def)
  moreover have "length ?b1 = NET_MESSAGE_BUFFER_SIZE"
    using assms(2) frame_header [of "of_nat (length m)"] by (simp add: NET_MESSAGE_BUFFER_SIZE_def)
  ultimately show ?thesis
    by (simp add: session_receive_def fromBytes_header connection_receive_def Let_def)
qed

text \<open>Messages that fit the buffer are cut out of the stream one by one, each at the front of a buffer.\<close>

lemma session_run_frames:
  assumes "\<forall>m\<in>set ms. length m \<le> NET_MESSAGE_BUFFER_SIZE" and "length buf = NET_MESSAGE_BUFFER_SIZE"
  shows "\<exists>ds buf'. session_run (length ms) (concat (map frame ms) @ rest, buf) = Inr (ds, rest, buf')
    \<and> length buf' = NET_MESSAGE_BUFFER_SIZE \<and> list_all2 (\<lambda>m d. \<exists>junk. d = m @ junk \<and> length d = NET_MESSAGE_BUFFER_SIZE) ms ds"
  using assms
proof (induction ms arbitrary: buf)
  case (Cons m ms)
  let ?b = "m @ drop (length m) (toBytes serialize_u16 (of_nat (length m)) @ drop 2 buf)"
  have m: "length m \<le> NET_MESSAGE_BUFFER_SIZE" using Cons.prems(1) by simp
  then have "length m < 2 ^ 16" by (simp add: NET_MESSAGE_BUFFER_SIZE_def)
  from session_receive_frame [OF this Cons.prems(2), of "concat (map frame ms) @ rest"] m
  have step: "session_receive (frame m @ concat (map frame ms) @ rest, buf) = Some (Inr (?b, concat (map frame ms) @ rest, ?b))"
    by (simp add: Let_def min_def)
  have len: "length ?b = NET_MESSAGE_BUFFER_SIZE"
    using m Cons.prems(2) frame_header [of "of_nat (length m)"] by (simp add: NET_MESSAGE_BUFFER_SIZE_def)
  obtain ds buf' where "session_run (length ms) (concat (map frame ms) @ rest, ?b) = Inr (ds, rest, buf')"
    "length buf' = NET_MESSAGE_BUFFER_SIZE" "list_all2 (\<lambda>m d. \<exists>junk. d = m @ junk \<and> length d = NET_MESSAGE_BUFFER_SIZE) ms ds"
    using Cons.IH [OF _ len] Cons.prems(1) by auto
  then show ?case using step len by auto
qed simp

section \<open>Sending messages\<close>

fun prepare_all :: "ext \<Rightarrow> net_ext \<Rightarrow> 16 word \<Rightarrow> message list \<Rightarrow> bytes list" where
  "prepare_all X N i [] = []"
| "prepare_all X N i (m # ms) = (case prepareMessage X N m i of (bs, i') \<Rightarrow> bs # prepare_all X N i' ms)"

definition open_connection :: connection where
  "open_connection = \<lparr>conn_is_closed = False, conn_pending_send_messages = [], conn_written = []\<rparr>"

text \<open>All messages given to an open session, and all writes completed.\<close>

definition transmit :: "bytes list \<Rightarrow> bytes" where
  "transmit ds = concat (conn_written ((conn_step Written ^^ length ds) (fold (\<lambda>d. session_send d No_handler) ds open_connection)))"

lemma length_prepare_all [simp]: "length (prepare_all X N i ms) = length ms"
  by (induction ms arbitrary: i) (simp_all add: prepareMessage_def)

lemma fold_session_send:
  assumes "conn_inv sent c"
  shows "conn_inv (sent @ map frame ds) (fold (\<lambda>d. session_send d No_handler) ds c)
    \<and> length (conn_pending_send_messages (fold (\<lambda>d. session_send d No_handler) ds c)) = length (conn_pending_send_messages c) + length ds"
  using assms
proof (induction ds arbitrary: sent c)
  case (Cons d ds)
  have "\<not> conn_is_closed c" using Cons.prems by (simp add: conn_inv_def)
  then have s: "session_send d No_handler c = conn_step (Send (frame d)) c" by (simp add: session_send_def)
  have "conn_inv (sent @ [frame d]) (session_send d No_handler c)" using conn_step_inv [OF Cons.prems, of "Send (frame d)"] s by simp
  moreover have "length (conn_pending_send_messages (session_send d No_handler c)) = Suc (length (conn_pending_send_messages c))"
    by (simp add: s connection_send_def sendPendingMessages_def Let_def split: list.splits)
  ultimately show ?case using Cons.IH [of "sent @ [frame d]" "session_send d No_handler c"] by simp
qed simp

lemma transmit_frames: "transmit ds = concat (map frame ds)"
proof -
  have "conn_inv [] open_connection" by (simp add: conn_inv_def open_connection_def)
  from fold_session_send [OF this, of ds]
  have "conn_inv (map frame ds) (fold (\<lambda>d. session_send d No_handler) ds open_connection)"
    "length (conn_pending_send_messages (fold (\<lambda>d. session_send d No_handler) ds open_connection)) \<le> length ds"
    by (simp_all add: open_connection_def)
  then show ?thesis using conn_drain by (simp add: transmit_def)
qed

lemma read_all:
  assumes X: "big_ok X" and N: "net_ok N" and "list_all (wf_message X) ms"
    and "list_all2 (\<lambda>p d. \<exists>junk. d = p @ junk) (prepare_all X N i ms) ds"
  shows "map (read_message X N) ds = map (\<lambda>(k, m). Inr (i + of_nat k, Some m)) (zip [0..<length ms] ms)"
  using assms(3,4)
proof (induction ms arbitrary: i ds)
  case (Cons m ms)
  obtain bs i' where p: "prepareMessage X N m i = (bs, i')" by force
  then have i': "i' = i + 1" by (simp add: prepareMessage_def)
  obtain d ds' junk where ds: "ds = d # ds'" "d = bs @ junk" "list_all2 (\<lambda>p d. \<exists>junk. d = p @ junk) (prepare_all X N i' ms) ds'"
    using Cons.prems(2) by (auto simp: p list_all2_Cons1)
  have "read_message X N d = Inr (i, Some m)" using read_prepared [OF X N, of m i junk] Cons.prems(1) p ds(2) by simp
  moreover have "map (read_message X N) ds' = map (\<lambda>(k, m). Inr (i' + of_nat k, Some m)) (zip [0..<length ms] ms)"
    using Cons.IH [OF _ ds(3)] Cons.prems(1) by simp
  moreover have "zip [0..<length (m # ms)] (m # ms) = (0, m) # map (\<lambda>(k, m). (Suc k, m)) (zip [0..<length ms] ms)"
    by (simp add: upt_conv_Cons map_Suc_upt [symmetric] zip_map1 del: upt_Suc)
  ultimately show ?case by (simp add: ds(1) i' case_prod_unfold add.assoc del: upt_Suc)
qed simp

section \<open>Properties\<close>

text \<open>
  C34: end to end: a list of messages given to an open session is queued, framed and written in
  order, and the receiver, whatever its read buffer held before, cuts exactly these messages out
  of the stream and decodes each to what was sent, with consecutive message numbers. The
  prepared messages must fit the read buffer of 16384 bytes.
\<close>

theorem messages_end_to_end:
  assumes "big_ok X" and "net_ok N" and "list_all (wf_message X) ms"
    and "\<forall>p\<in>set (prepare_all X N i ms). length p \<le> NET_MESSAGE_BUFFER_SIZE" and "length buf = NET_MESSAGE_BUFFER_SIZE"
  shows "\<exists>ds buf'. session_run (length ms) (transmit (prepare_all X N i ms), buf) = Inr (ds, [], buf')
    \<and> map (read_message X N) ds = map (\<lambda>(k, m). Inr (i + of_nat k, Some m)) (zip [0..<length ms] ms)"
proof -
  obtain ds buf' where run: "session_run (length ms) (transmit (prepare_all X N i ms), buf) = Inr (ds, [], buf')"
    and ds: "list_all2 (\<lambda>p d. \<exists>junk. d = p @ junk \<and> length d = NET_MESSAGE_BUFFER_SIZE) (prepare_all X N i ms) ds"
    using session_run_frames [OF assms(4,5), of "[]"] by (auto simp: transmit_frames)
  have "list_all2 (\<lambda>p d. \<exists>junk. d = p @ junk) (prepare_all X N i ms) ds"
    using ds by (rule list_all2_mono) blast
  then show ?thesis using run read_all [OF assms(1-3)] by blast
qed

text \<open>An instance of the network parameters: the address printed as one decimal number.\<close>

definition demo_net :: net_ext where
  "demo_net = \<lparr>v4_to_string = (\<lambda>a. std_to_string (unat a)), make_address_v4 = (\<lambda>s. Some (of_nat (std_atoi s))),
     qi_parse_int = (\<lambda>s. Some (int (std_atoi s)))\<rparr>"

lemma net_ok_demo: "net_ok demo_net"
proof -
  have "unat (a :: 32 word) < 10 ^ 15" for a using unsigned_less [of a, where 'a = nat] by simp
  then have "length (std_to_string (unat (a :: 32 word))) \<le> 15" for a by (rule length_std_to_string) simp
  moreover have "CHR '':'' \<noteq> char_of (48 + d)" if "d < 10" for d :: nat
  proof
    assume "CHR '':'' = char_of (48 + d)"
    then have "(of_char (CHR '':'') :: nat) = of_char (char_of (48 + d) :: char)" by simp
    then show False using that by simp
  qed
  then have "CHR '':'' \<notin> set (std_to_string n)" for n
    by (auto simp: std_to_string_def dest!: digits_be_less)
  ultimately show ?thesis by (simp add: net_ok_def demo_net_def std_atoi_to_string)
qed

theorem messages_end_to_end_witness:
  "\<exists>ds buf'. session_run 2 (transmit (prepare_all demo_ext demo_net 7 [Ping, GetBlock sha256_null]), replicate NET_MESSAGE_BUFFER_SIZE 7)
     = Inr (ds, [], buf') \<and> map (read_message demo_ext demo_net) ds = [Inr (7, Some Ping), Inr (8, Some (GetBlock sha256_null))]"
proof -
  have "length (sha256_null) = 32" by (simp add: sha256_null_def)
  then have len: "\<forall>p\<in>set (prepare_all demo_ext demo_net 7 [Ping, GetBlock sha256_null]). length p \<le> NET_MESSAGE_BUFFER_SIZE"
    by (simp add: prepareMessage_def serialize_body_defs serialize_sha256_def serialize_fixed_eq serialize_byte_def serialize_u16_def
        serialize_int_def serialize_int_on_def to_memory_def NET_MESSAGE_BUFFER_SIZE_def)
  show ?thesis
    using messages_end_to_end [OF demo_ext_ok(2) net_ok_demo _ len, of "replicate NET_MESSAGE_BUFFER_SIZE 7"]
    by (simp add: sha256_null_def numeral_2_eq_2 del: session_run.simps prepare_all.simps)
qed

text \<open>
  The transport loses larger messages: a message longer than the read buffer is delivered
  cut off, and its remaining bytes are read as if they were the next frame; from 65536 bytes on
  the length in the frame is the length modulo 65536.
\<close>

theorem oversized_message_desynchronises:
  assumes "NET_MESSAGE_BUFFER_SIZE < length m" and "length buf = NET_MESSAGE_BUFFER_SIZE"
  shows "(length m < 2 ^ 16 \<longrightarrow> session_receive (frame m @ rest, buf) =
        Some (Inr (take NET_MESSAGE_BUFFER_SIZE m, drop NET_MESSAGE_BUFFER_SIZE m @ rest, take NET_MESSAGE_BUFFER_SIZE m)))
    \<and> take 2 (frame m) = toBytes serialize_u16 (of_nat (length m mod 2 ^ 16))"
proof
  have two: "2 \<le> NET_MESSAGE_BUFFER_SIZE" by (simp add: NET_MESSAGE_BUFFER_SIZE_def)
  show "length m < 2 ^ 16 \<longrightarrow> session_receive (frame m @ rest, buf) =
        Some (Inr (take NET_MESSAGE_BUFFER_SIZE m, drop NET_MESSAGE_BUFFER_SIZE m @ rest, take NET_MESSAGE_BUFFER_SIZE m))"
    using session_receive_frame [OF _ assms(2), of m rest] assms frame_header [of "of_nat (length m)"] two
    by (simp add: Let_def)
  have "(of_nat (length m) :: 16 word) = of_nat (length m mod 2 ^ 16)"
    by (intro word_unat_eq_iff [THEN iffD2]) (simp add: unat_of_nat)
  then show "take 2 (frame m) = toBytes serialize_u16 (of_nat (length m mod 2 ^ 16))"
    using frame_header [of "of_nat (length m)"] by (simp add: frame_def)
qed

theorem oversized_message_desynchronises_witness:
  "\<exists>m. length m = 20000 \<and> session_receive (frame m, replicate NET_MESSAGE_BUFFER_SIZE 0) =
     Some (Inr (take NET_MESSAGE_BUFFER_SIZE m, drop NET_MESSAGE_BUFFER_SIZE m, take NET_MESSAGE_BUFFER_SIZE m))"
  using oversized_message_desynchronises [of "replicate 20000 1" "replicate NET_MESSAGE_BUFFER_SIZE 0" "[]"]
  by (intro exI [of _ "replicate 20000 1"]) (simp add: NET_MESSAGE_BUFFER_SIZE_def)

end
