(* ===== verification/PeerPool.thy ===== *)
theory PeerPool
  imports Persistence Session
begin

text \<open>
  Peers and the pools that hold them: ratings (\<^verbatim>\<open>src/core/rating.cpp\<close>), the data of a peer
  (\<^verbatim>\<open>src/core/peer.hpp\<close>) in a store indexed by pointers, and the two pools of \<^verbatim>\<open>src/core/host.cpp\<close>, the
  plain one and the Kademlia table with its buckets.
\<close>

unbundle bit_operations_syntax

section \<open>Ratings\<close>

text \<open>The rating is a 16-bit signed integer; it is written to the database on every change.\<close>

record rating =
  rt_serialized_ep :: bytes
  rt_value :: "16 word"
  rt_ts :: time

definition INITIAL_PEER_RATING :: int where
  "INITIAL_PEER_RATING = 20"

definition serialize_rating_data :: "(16 word \<times> time) serializer" where
  "serialize_rating_data = (\<lambda>(value, ts) oa. serialize_time ts (serialize_u16 value oa))"

definition deserialize_rating_data :: "(16 word \<times> time) deserializer" where
  "deserialize_rating_data ia =
     rbind (deserialize_u16 ia) (\<lambda>(value, ia). rbind (deserialize_time ia) (\<lambda>(ts, ia). Inr ((value, ts), ia)))"

definition dbUpdate :: "'s leveldb \<Rightarrow> rating \<Rightarrow> 's database \<Rightarrow> 's database res" where
  "dbUpdate L r db = db_put L db (rt_serialized_ep r) (toBytes serialize_rating_data (rt_value r, rt_ts r))"

definition mk_Rating :: "net_ext \<Rightarrow> 's leveldb \<Rightarrow> endpoint \<Rightarrow> 's database \<Rightarrow> (rating \<times> 's database) res" where
  "mk_Rating N L ep db =
     (let key = toBytes (serialize_endpoint N) ep in
      rbind (db_get L db key) (\<lambda>ret.
      case ret of
        Some bs \<Rightarrow> rbind (fromBytes deserialize_rating_data bs) (\<lambda>(value, ts).
          Inr (\<lparr>rt_serialized_ep = key, rt_value = value, rt_ts = ts\<rparr>, db))
      | None \<Rightarrow>
          (let r = \<lparr>rt_serialized_ep = key, rt_value = of_int INITIAL_PEER_RATING, rt_ts = 0\<rparr>
           in rbind (dbUpdate L r db) (\<lambda>db. Inr (r, db)))))"

definition isGood :: "rating \<Rightarrow> bool" where
  "isGood r \<longleftrightarrow> sint (rt_value r) > 0"

text \<open>The hours are computed with 32 bits and stored in 16 bits.\<close>

definition getValue :: "'s leveldb \<Rightarrow> time \<Rightarrow> rating \<Rightarrow> 's database \<Rightarrow> (16 word \<times> rating \<times> 's database) res" where
  "getValue L current_time r db =
     (if isGood r then Inr (rt_value r, r, db)
      else rbind (time_minus current_time (rt_ts r)) (\<lambda>elapsed.
        (let hours_passed = of_nat (unat elapsed div 3600) :: 16 word;
             new_value = of_int (min INITIAL_PEER_RATING (sint (rt_value r) + sint hours_passed)) :: 16 word
         in if rt_value r \<noteq> new_value then
              (let r = r\<lparr>rt_value := new_value, rt_ts := current_time\<rparr>
               in rbind (dbUpdate L r db) (\<lambda>db. Inr (rt_value r, r, db)))
            else Inr (rt_value r, r, db))))"

definition penalty :: "(int \<Rightarrow> int) \<Rightarrow> 's leveldb \<Rightarrow> rating \<times> 's database \<Rightarrow> (rating \<times> 's database) res" where
  "penalty f L = (\<lambda>(r, db).
     (let r = r\<lparr>rt_value := of_int (f (sint (rt_value r)))\<rparr> in rbind (dbUpdate L r db) (\<lambda>db. Inr (r, db))))"

definition nonExpectedMessage :: "'s leveldb \<Rightarrow> rating \<times> 's database \<Rightarrow> (rating \<times> 's database) res" where
  "nonExpectedMessage = penalty (\<lambda>v. v - 20)"

definition invalidMessage :: "'s leveldb \<Rightarrow> rating \<times> 's database \<Rightarrow> (rating \<times> 's database) res" where
  "invalidMessage = penalty (\<lambda>v. v - 30)"

definition badBlock :: "'s leveldb \<Rightarrow> rating \<times> 's database \<Rightarrow> (rating \<times> 's database) res" where
  "badBlock = penalty (\<lambda>v. v - 10)"

definition differentGenesis :: "'s leveldb \<Rightarrow> rating \<times> 's database \<Rightarrow> (rating \<times> 's database) res" where
  "differentGenesis = penalty (\<lambda>v. v - 2 * INITIAL_PEER_RATING)"

definition connectionRefused :: "'s leveldb \<Rightarrow> rating \<times> 's database \<Rightarrow> (rating \<times> 's database) res" where
  "connectionRefused = penalty (\<lambda>v. - INITIAL_PEER_RATING - 10)"

definition cannotAddToPool :: "'s leveldb \<Rightarrow> rating \<times> 's database \<Rightarrow> (rating \<times> 's database) res" where
  "cannotAddToPool = penalty (\<lambda>v. v - 10)"

section \<open>Peers\<close>

datatype peer_state = JUST_ESTABLISHED | REQUESTED_BLOCKS | SYNCHRONISED

text \<open>
  The data of a \<^verbatim>\<open>Peer\<close> with the connection of its session, its synchronizer and its message counter.
\<close>

record peer =
  pr_endpoint :: endpoint
  pr_endpoint_for_incoming_connections :: "endpoint option"
  pr_address :: address
  pr_rating :: rating
  pr_state :: peer_state
  pr_last_seen :: time
  pr_connection :: connection
  pr_was_connected_to :: bool
  pr_is_started :: bool
  pr_requested_block :: "sha256 option"
  pr_sync_blocks :: "iblock list"
  pr_next_message_id :: "16 word"

type_synonym ptr = nat
type_synonym store = "ptr \<Rightarrow> peer"

text \<open>The optional is dereferenced without a test.\<close>

definition getPublicEndpoint :: "peer \<Rightarrow> endpoint res" where
  "getPublicEndpoint p = (case pr_endpoint_for_incoming_connections p of Some e \<Rightarrow> Inr e | None \<Rightarrow> Inl EmptyOptional)"

definition getInfo :: "peer \<Rightarrow> node_identity res" where
  "getInfo p = rbind (getPublicEndpoint p) (\<lambda>e. Inr \<lparr>ni_endpoint = e, ni_address = pr_address p\<rparr>)"

section \<open>The pool of peers before the handshake\<close>

type_synonym basic_pool = "ptr list"

definition basic_tryAddPeer :: "ptr \<Rightarrow> basic_pool \<Rightarrow> bool \<times> basic_pool" where
  "basic_tryAddPeer peer pool = (if peer \<in> set pool then (False, pool) else (True, insort peer pool))"

definition basic_tryRemovePeer :: "ptr \<Rightarrow> basic_pool \<Rightarrow> bool \<times> basic_pool" where
  "basic_tryRemovePeer peer pool = (if peer \<in> set pool then (True, remove1 peer pool) else (False, pool))"

fun has_endpoint :: "store \<Rightarrow> endpoint \<Rightarrow> ptr list \<Rightarrow> bool res" where
  "has_endpoint S endpoint [] = Inr False"
| "has_endpoint S endpoint (p # ps) =
     rbind (getPublicEndpoint (S p)) (\<lambda>public.
     rbind (has_endpoint S endpoint ps) (\<lambda>found.
     Inr (public = endpoint \<or> pr_endpoint (S p) = endpoint \<or> found)))"

section \<open>The Kademlia table\<close>

record kademlia =
  kd_host_address :: address
  kd_buckets :: "ptr list list"

definition MAX_BUCKET_SIZE :: nat where
  "MAX_BUCKET_SIZE = 10"

definition mk_KademliaPeerPool :: "address \<Rightarrow> kademlia" where
  "mk_KademliaPeerPool host_address = \<lparr>kd_host_address = host_address, kd_buckets = replicate (LENGTH_IN_BYTES * 8) []\<rparr>"

function byte_difference :: "bytes \<Rightarrow> bytes \<Rightarrow> nat \<Rightarrow> nat" where
  "byte_difference a b byte_index =
     (if byte_index < LENGTH_IN_BYTES \<and> a ! byte_index = b ! byte_index then byte_difference a b (Suc byte_index) else byte_index)"
  by pat_completeness auto
termination
  by (relation "measure (\<lambda>(a, b, i). LENGTH_IN_BYTES - i)") auto

function bit_difference :: "nat \<Rightarrow> byte \<Rightarrow> byte \<Rightarrow> nat option" where
  "bit_difference bit_index byte_a byte_b =
     (if bit_index < 8 then
        (if byte_a AND 0x80 \<noteq> byte_b AND 0x80 then Some bit_index
         else bit_difference (Suc bit_index) (push_bit 1 byte_a) (push_bit 1 byte_b))
      else None)"
  by pat_completeness auto
termination
  by (relation "measure (\<lambda>(i, a, b). 8 - i)") auto

definition calcDifference :: "bytes \<Rightarrow> bytes \<Rightarrow> nat res" where
  "calcDifference a b =
     (let byte_index = byte_difference a b 0 in
      if byte_index = LENGTH_IN_BYTES then Inr (LENGTH_IN_BYTES * 8)
      else case bit_difference 0 (a ! byte_index) (b ! byte_index) of
             Some bit_index \<Rightarrow> Inr (byte_index * 8 + bit_index)
           | None \<Rightarrow> Inl AssertionFailed)"

definition calcBucketIndex :: "kademlia \<Rightarrow> address \<Rightarrow> nat res" where
  "calcBucketIndex k peer_address = calcDifference (kd_host_address k) peer_address"

fun lrs_loop :: "store \<Rightarrow> ptr list \<Rightarrow> nat \<Rightarrow> nat list \<Rightarrow> nat" where
  "lrs_loop S bucket lrs_index [] = lrs_index"
| "lrs_loop S bucket lrs_index (i # is) =
     lrs_loop S bucket (if pr_last_seen (S (bucket ! lrs_index)) > pr_last_seen (S (bucket ! i)) then i else lrs_index) is"

definition getLeastRecentlySeenPeerIndex :: "store \<Rightarrow> kademlia \<Rightarrow> nat \<Rightarrow> nat res" where
  "getLeastRecentlySeenPeerIndex S k bucket_id =
     (let bucket = kd_buckets k ! bucket_id in
      assert_that (length (kd_buckets k) \<ge> bucket_id) (assert_that (bucket \<noteq> [])
       (Inr (lrs_loop S bucket 0 [1..<length bucket]))))"

definition removePeer :: "nat \<Rightarrow> nat \<Rightarrow> kademlia \<Rightarrow> kademlia res" where
  "removePeer bucket_index peer_index k =
     (let bucket = kd_buckets k ! bucket_index in
      assert_that (bucket_index < MAX_BUCKET_SIZE) (assert_that (peer_index < length bucket)
       (Inr (k\<lparr>kd_buckets := (kd_buckets k)[bucket_index := take peer_index bucket @ drop (Suc peer_index) bucket]\<rparr>))))"

text \<open>The two endpoints of the new peer against those of every peer of the table, in order.\<close>

fun same_endpoint :: "store \<Rightarrow> ptr \<Rightarrow> ptr list \<Rightarrow> bool res" where
  "same_endpoint S peer [] = Inr False"
| "same_endpoint S peer (p # ps) =
     rbind (getPublicEndpoint (S p)) (\<lambda>a. rbind (getPublicEndpoint (S peer)) (\<lambda>b.
     if a = b \<or> pr_endpoint (S p) = pr_endpoint (S peer) then Inr True else same_endpoint S peer ps))"

definition push_peer :: "ptr \<Rightarrow> nat \<Rightarrow> kademlia \<Rightarrow> kademlia" where
  "push_peer peer bucket_index k =
     k\<lparr>kd_buckets := (kd_buckets k)[bucket_index := kd_buckets k ! bucket_index @ [peer]]\<rparr>"

definition NET_PING_FREQUENCY :: nat where
  "NET_PING_FREQUENCY = 3600"

definition NET_CONNECT_TIMEOUT :: nat where
  "NET_CONNECT_TIMEOUT = 10"

definition kademlia_tryAddPeer :: "store \<Rightarrow> time \<Rightarrow> ptr \<Rightarrow> kademlia \<Rightarrow> (bool \<times> kademlia) res" where
  "kademlia_tryAddPeer S now peer k =
     rbind (same_endpoint S peer (concat (kd_buckets k))) (\<lambda>known.
     if known then Inr (False, k)
     else rbind (calcBucketIndex k (pr_address (S peer))) (\<lambda>bucket_index.
       if bucket_index = LENGTH_IN_BYTES * 8 then Inr (False, k)
       else if length (kd_buckets k ! bucket_index) < MAX_BUCKET_SIZE then Inr (True, push_peer peer bucket_index k)
       else rbind (getLeastRecentlySeenPeerIndex S k bucket_index) (\<lambda>index.
         (let quiet_for = unat (now - pr_last_seen (S (kd_buckets k ! bucket_index ! index))) in
          if quiet_for > NET_PING_FREQUENCY + NET_CONNECT_TIMEOUT
          then rbind (removePeer bucket_index index k) (\<lambda>k. Inr (True, push_peer peer bucket_index k))
          else Inr (False, k)))))"

fun remove_from_buckets :: "ptr \<Rightarrow> ptr list list \<Rightarrow> bool \<times> ptr list list" where
  "remove_from_buckets peer [] = (False, [])"
| "remove_from_buckets peer (bucket # buckets) =
     (if peer \<in> set bucket then (True, remove1 peer bucket # buckets)
      else (case remove_from_buckets peer buckets of (r, bs) \<Rightarrow> (r, bucket # bs)))"

definition kademlia_tryRemovePeer :: "ptr \<Rightarrow> kademlia \<Rightarrow> bool \<times> kademlia" where
  "kademlia_tryRemovePeer peer k =
     (case remove_from_buckets peer (kd_buckets k) of (r, bs) \<Rightarrow> (r, k\<lparr>kd_buckets := bs\<rparr>))"

definition isSessionClosed :: "peer \<Rightarrow> bool" where
  "isSessionClosed p = conn_is_closed (pr_connection p)"

definition removeSilent :: "store \<Rightarrow> kademlia \<Rightarrow> kademlia" where
  "removeSilent S k = k\<lparr>kd_buckets := map (filter (\<lambda>p. \<not> isSessionClosed (S p))) (kd_buckets k)\<rparr>"

fun peers_info :: "store \<Rightarrow> ptr list \<Rightarrow> node_identity list res" where
  "peers_info S [] = Inr []"
| "peers_info S (p # ps) = rbind (getInfo (S p)) (\<lambda>i. rbind (peers_info S ps) (\<lambda>is. Inr (i # is)))"

definition allPeersInfo :: "store \<Rightarrow> kademlia \<Rightarrow> node_identity list res" where
  "allPeersInfo S k = peers_info S (concat (kd_buckets k))"

text \<open>Peers at equal distance are kept in their order, one of the choices left to \<^verbatim>\<open>std::sort\<close>.\<close>

definition difference_or_0 :: "bytes \<Rightarrow> bytes \<Rightarrow> nat" where
  "difference_or_0 a b = (case calcDifference a b of Inr n \<Rightarrow> n | Inl e \<Rightarrow> 0)"

definition lookup :: "store \<Rightarrow> address \<Rightarrow> nat \<Rightarrow> kademlia \<Rightarrow> node_identity list res" where
  "lookup S address alpha k =
     rbind (allPeersInfo S k) (\<lambda>ret.
     Inr (take alpha (sort_key (\<lambda>i. difference_or_0 (ni_address i) address) ret)))"

declare byte_difference.simps [simp del] bit_difference.simps [simp del]

section \<open>The repair of a rating\<close>

text \<open>
  A penalty does not set the time stamp, which starts at zero: the first repair counts the hours
  since 1970 and keeps their lowest 16 bits. In March 2020 a rating of -10 becomes -18821.
\<close>

lemma rating_repair_from_epoch:
  assumes "rt_value r = - 10" and "rt_ts r = 0"
  shows "getValue L 1583789617 r db =
    (let r' = r\<lparr>rt_value := - 18821, rt_ts := 1583789617\<rparr> in rbind (dbUpdate L r' db) (\<lambda>db. Inr (rt_value r', r', db)))"
proof -
  have v: "sint (rt_value r) = - 10" using assms(1) by simp
  then have "\<not> isGood r" by (simp add: isGood_def)
  moreover have "time_minus 1583789617 (rt_ts r) = Inr 1583789617" using assms(2) by (simp add: time_minus_def)
  moreover have "sint (of_nat (unat (1583789617 :: time) div 3600) :: 16 word) = - 18811" by simp
  moreover have "(of_int (min INITIAL_PEER_RATING (- 10 + - 18811)) :: 16 word) = - 18821" by (simp add: INITIAL_PEER_RATING_def)
  moreover have "rt_value r \<noteq> - 18821" using assms(1) by simp
  ultimately show ?thesis using v by (simp add: getValue_def Let_def)
qed

section \<open>The difference of two addresses\<close>

text \<open>The reference: the bits of an address, numbered from the most significant one.\<close>

definition address_bit :: "bytes \<Rightarrow> nat \<Rightarrow> bool" where
  "address_bit a n = bit (a ! (n div 8)) (7 - n mod 8)"

lemma byte_difference_spec:
  "i \<le> LENGTH_IN_BYTES \<Longrightarrow> \<forall>j<i. a ! j = b ! j \<Longrightarrow>
     (let r = byte_difference a b i in r \<le> LENGTH_IN_BYTES \<and> (\<forall>j<r. a ! j = b ! j) \<and> (r < LENGTH_IN_BYTES \<longrightarrow> a ! r \<noteq> b ! r))"
proof (induction a b i rule: byte_difference.induct)
  case (1 a b i)
  show ?case
  proof (cases "i < LENGTH_IN_BYTES \<and> a ! i = b ! i")
    case True
    then have "\<forall>j<Suc i. a ! j = b ! j" using "1.prems"(2) less_Suc_eq by auto
    then show ?thesis using "1.IH" True by (simp add: byte_difference.simps [of a b i])
  next
    case False
    then show ?thesis using "1.prems" by (subst byte_difference.simps) auto
  qed
qed

lemma and_0x80_bit: "((x :: byte) AND 0x80 = y AND 0x80) \<longleftrightarrow> bit x 7 = bit y 7"
proof -
  have eq: "(0x80 :: byte) = 2 ^ 7" by simp
  have "bit (0x80 :: byte) n \<longleftrightarrow> n = 7" for n unfolding eq bit_exp_iff by auto
  then have *: "bit ((z :: byte) AND 0x80) n \<longleftrightarrow> bit z 7 \<and> n = 7" for z n
    by (auto simp only: bit_and_iff)
  show ?thesis
  proof
    assume "x AND 0x80 = y AND 0x80"
    then have "bit (x AND 0x80) 7 = bit (y AND 0x80) 7" by simp
    then show "bit x 7 = bit y 7" unfolding * by simp
  next
    assume "bit x 7 = bit y 7"
    then show "x AND 0x80 = y AND 0x80" by (intro bit_eqI) (simp only: *)
  qed
qed

lemma bit_difference_spec:
  assumes "k \<le> 8" and "\<forall>j<k. bit x (7 - j) = bit y (7 - j)"
  shows "case bit_difference k (push_bit k x) (push_bit k y) of
      Some n \<Rightarrow> n < 8 \<and> (\<forall>j<n. bit x (7 - j) = bit y (7 - j)) \<and> bit x (7 - n) \<noteq> bit y (7 - n)
    | None \<Rightarrow> x = y"
  using assms
proof (induction "8 - k" arbitrary: k)
  case 0
  then have k: "k = 8" by simp
  have "bit x n = bit y n" if "n < 8" for n
  proof -
    have "7 - (7 - n) = n" "7 - n < k" using that k by simp_all
    then show ?thesis using "0.prems"(2) by metis
  qed
  then have "x = y" by (auto intro!: bit_eqI)
  then show ?case by (simp add: k bit_difference.simps)
next
  case (Suc m)
  then have k: "k < 8" by simp
  have bits: "bit (push_bit k z) 7 = bit z (7 - k)" for z :: byte using k by (simp add: bit_push_bit_iff)
  show ?case
  proof (cases "bit x (7 - k) = bit y (7 - k)")
    case True
    then have "\<forall>j<Suc k. bit x (7 - j) = bit y (7 - j)" using Suc.prems(2) less_Suc_eq by auto
    then have "case bit_difference (Suc k) (push_bit (Suc k) x) (push_bit (Suc k) y) of
      Some n \<Rightarrow> n < 8 \<and> (\<forall>j<n. bit x (7 - j) = bit y (7 - j)) \<and> bit x (7 - n) \<noteq> bit y (7 - n) | None \<Rightarrow> x = y"
      using Suc.hyps(1) [of "Suc k"] Suc.hyps(2) k by simp
    moreover have "bit_difference k (push_bit k x) (push_bit k y) = bit_difference (Suc k) (push_bit (Suc k) x) (push_bit (Suc k) y)"
      using True k by (subst bit_difference.simps) (simp add: and_0x80_bit bits push_bit_push_bit)
    ultimately show ?thesis by simp
  next
    case False
    then have "bit_difference k (push_bit k x) (push_bit k y) = Some k"
      using k by (subst bit_difference.simps) (simp add: and_0x80_bit bits)
    then show ?thesis using False Suc.prems(2) k by simp
  qed
qed

text \<open>The assertion behind the bit loop never fails, and the result is the length of the common prefix.\<close>

lemma calcDifference_prefix:
  assumes "length a = LENGTH_IN_BYTES" and "length b = LENGTH_IN_BYTES"
  obtains n where "calcDifference a b = Inr n" and "n \<le> LENGTH_IN_BYTES * 8" and "\<forall>j<n. address_bit a j = address_bit b j"
    and "n < LENGTH_IN_BYTES * 8 \<Longrightarrow> address_bit a n \<noteq> address_bit b n" and "n = LENGTH_IN_BYTES * 8 \<longleftrightarrow> a = b"
proof -
  define i where "i = byte_difference a b 0"
  have i: "i \<le> LENGTH_IN_BYTES" "\<forall>j<i. a ! j = b ! j" "i < LENGTH_IN_BYTES \<longrightarrow> a ! i \<noteq> b ! i"
    using byte_difference_spec [of 0 a b] by (auto simp: i_def Let_def)
  show ?thesis
  proof (cases "i = LENGTH_IN_BYTES")
    case True
    then have "a = b" using i(2) assms by (auto intro: nth_equalityI)
    then show ?thesis using that [of "LENGTH_IN_BYTES * 8"] True by (simp add: calcDifference_def i_def Let_def)
  next
    case False
    then have lt: "i < LENGTH_IN_BYTES" using i(1) by simp
    obtain k where k: "bit_difference 0 (a ! i) (b ! i) = Some k" "k < 8"
      "\<forall>j<k. bit (a ! i) (7 - j) = bit (b ! i) (7 - j)" "bit (a ! i) (7 - k) \<noteq> bit (b ! i) (7 - k)"
      using bit_difference_spec [of 0 "a ! i" "b ! i"] i(3) lt by (auto split: option.splits)
    let ?n = "i * 8 + k"
    have n: "?n div 8 = i" "?n mod 8 = k" using k(2) by auto
    have "address_bit a j = address_bit b j" if "j < ?n" for j
    proof (cases "j div 8 < i")
      case True
      then show ?thesis using i(2) by (simp add: address_bit_def)
    next
      case False
      have "j div 8 \<le> ?n div 8" using that by (intro div_le_mono) simp
      then have "j div 8 = i" using False n(1) by simp
      moreover have "j = 8 * (j div 8) + j mod 8" by simp
      ultimately show ?thesis using that k(3) by (simp add: address_bit_def)
    qed
    moreover have "address_bit a ?n \<noteq> address_bit b ?n" using k(4) n by (simp add: address_bit_def)
    moreover have "?n < LENGTH_IN_BYTES * 8" using lt k(2) by simp
    moreover have "calcDifference a b = Inr ?n" using k(1) lt by (simp add: calcDifference_def i_def Let_def)
    moreover have "a \<noteq> b" using i(3) lt by auto
    ultimately show ?thesis using that [of ?n] by simp
  qed
qed

section \<open>The invariant of the table\<close>

definition kademlia_inv :: "store \<Rightarrow> kademlia \<Rightarrow> bool" where
  "kademlia_inv S k \<longleftrightarrow> length (kd_buckets k) = LENGTH_IN_BYTES * 8
     \<and> (\<forall>i < length (kd_buckets k). length (kd_buckets k ! i) \<le> MAX_BUCKET_SIZE
          \<and> (\<forall>p\<in>set (kd_buckets k ! i). calcBucketIndex k (pr_address (S p)) = Inr i))
     \<and> distinct (map (\<lambda>p. pr_endpoint (S p)) (concat (kd_buckets k)))
     \<and> distinct (map (\<lambda>p. pr_endpoint_for_incoming_connections (S p)) (concat (kd_buckets k)))"

lemma mset_concat_update:
  assumes "i < length bs"
  shows "mset (concat (bs[i := x])) + mset (bs ! i) = mset (concat bs) + mset x"
proof -
  have "concat bs = concat (take i bs) @ bs ! i @ concat (drop (Suc i) bs)"
    by (subst id_take_nth_drop [OF assms]) simp
  moreover have "concat (bs[i := x]) = concat (take i bs) @ x @ concat (drop (Suc i) bs)"
    by (simp add: upd_conv_take_nth_drop [OF assms])
  ultimately show ?thesis by simp
qed

lemma distinct_map_mset: "mset xs = mset ys \<Longrightarrow> distinct (map f xs) \<longleftrightarrow> distinct (map f ys)"
  by (intro mset_eq_imp_distinct_iff) simp

text \<open>Replacing a bucket by a part of it keeps the invariant.\<close>

lemma kademlia_inv_shrink:
  assumes inv: "kademlia_inv S k" and i: "i < length (kd_buckets k)" and sub: "mset b \<subseteq># mset (kd_buckets k ! i)"
  shows "kademlia_inv S (k\<lparr>kd_buckets := (kd_buckets k)[i := b]\<rparr>)"
proof -
  let ?bs = "(kd_buckets k)[i := b]"
  obtain R where R: "mset (kd_buckets k ! i) = mset b + R" using sub by (metis subset_mset.le_iff_add)
  then have "mset (concat ?bs) + R = mset (concat (kd_buckets k))"
    using mset_concat_update [OF i, of b] by (simp add: add.assoc add.commute)
  then have "mset (concat (kd_buckets k)) = mset (concat ?bs @ sorted_list_of_multiset R)" by simp
  then have d: "distinct (map f (concat ?bs))" if "distinct (map f (concat (kd_buckets k)))" for f :: "ptr \<Rightarrow> 'b"
    using that distinct_map_mset [of "concat (kd_buckets k)" "concat ?bs @ sorted_list_of_multiset R" f] by simp
  have b: "set b \<subseteq> set (kd_buckets k ! i)" "length b \<le> length (kd_buckets k ! i)"
    using set_mset_mono [OF sub] size_mset_mono [OF sub] by simp_all
  have "length (?bs ! j) \<le> MAX_BUCKET_SIZE \<and> (\<forall>p\<in>set (?bs ! j). calcBucketIndex k (pr_address (S p)) = Inr j)"
    if "j < length (kd_buckets k)" for j
    using that inv i b by (cases "j = i") (auto simp: kademlia_inv_def)
  then show ?thesis
    using inv d [of "\<lambda>p. pr_endpoint (S p)"] d [of "\<lambda>p. pr_endpoint_for_incoming_connections (S p)"]
    by (simp add: kademlia_inv_def calcBucketIndex_def)
qed

lemma same_endpoint_False:
  assumes "same_endpoint S peer ps = Inr False" and "p \<in> set ps"
  shows "pr_endpoint (S p) \<noteq> pr_endpoint (S peer)
    \<and> pr_endpoint_for_incoming_connections (S p) \<noteq> pr_endpoint_for_incoming_connections (S peer)"
  using assms by (induction ps) (auto simp: rbind_eq_Inr getPublicEndpoint_def split: if_splits option.splits)

lemma same_endpoint_public:
  "same_endpoint S peer ps = Inr x \<Longrightarrow> ps \<noteq> [] \<Longrightarrow> pr_endpoint_for_incoming_connections (S peer) \<noteq> None"
  by (cases ps) (auto simp: rbind_eq_Inr getPublicEndpoint_def split: option.splits)

lemma kademlia_inv_push:
  assumes inv: "kademlia_inv S k" and i: "i < length (kd_buckets k)" and room: "length (kd_buckets k ! i) < MAX_BUCKET_SIZE"
    and idx: "calcBucketIndex k (pr_address (S peer)) = Inr i"
    and new: "\<forall>p\<in>set (concat (kd_buckets k)). pr_endpoint (S p) \<noteq> pr_endpoint (S peer)
      \<and> pr_endpoint_for_incoming_connections (S p) \<noteq> pr_endpoint_for_incoming_connections (S peer)"
  shows "kademlia_inv S (push_peer peer i k)"
proof -
  let ?bs = "(kd_buckets k)[i := kd_buckets k ! i @ [peer]]"
  have m: "mset (concat ?bs) = mset (peer # concat (kd_buckets k))"
    using mset_concat_update [OF i, of "kd_buckets k ! i @ [peer]"] by simp
  have d: "distinct (map f (concat ?bs))"
    if "distinct (map f (concat (kd_buckets k)))" "f peer \<notin> f ` set (concat (kd_buckets k))" for f :: "ptr \<Rightarrow> 'b"
    using that distinct_map_mset [OF m, of f] by simp
  have "length (?bs ! j) \<le> MAX_BUCKET_SIZE \<and> (\<forall>p\<in>set (?bs ! j). calcBucketIndex k (pr_address (S p)) = Inr j)"
    if "j < length (kd_buckets k)" for j
    using that inv i room idx by (cases "j = i") (auto simp: kademlia_inv_def)
  moreover have "pr_endpoint (S peer) \<notin> (\<lambda>p. pr_endpoint (S p)) ` set (concat (kd_buckets k))"
    "pr_endpoint_for_incoming_connections (S peer) \<notin> (\<lambda>p. pr_endpoint_for_incoming_connections (S p)) ` set (concat (kd_buckets k))"
    using new by (metis (no_types, lifting) imageE)+
  then have "distinct (map (\<lambda>p. pr_endpoint (S p)) (concat ?bs))"
    "distinct (map (\<lambda>p. pr_endpoint_for_incoming_connections (S p)) (concat ?bs))"
    using inv d [of "\<lambda>p. pr_endpoint (S p)"] d [of "\<lambda>p. pr_endpoint_for_incoming_connections (S p)"]
    unfolding kademlia_inv_def by blast+
  ultimately show ?thesis using inv by (simp add: kademlia_inv_def push_peer_def calcBucketIndex_def)
qed

lemma take_drop_mset: "j < length b \<Longrightarrow> mset (take j b @ drop (Suc j) b) + {#b ! j#} = mset b"
  by (subst (3) id_take_nth_drop [of j b]) simp_all

lemma push_peer_buckets:
  "i < length (kd_buckets k) \<Longrightarrow> kd_buckets (push_peer p i k) ! i = kd_buckets k ! i @ [p]"
  by (simp add: push_peer_def)

lemma calcBucketIndex_bound:
  assumes "length (kd_host_address k) = LENGTH_IN_BYTES" and "length a = LENGTH_IN_BYTES"
    and "calcBucketIndex k a = Inr i" and "i \<noteq> LENGTH_IN_BYTES * 8"
  shows "i < LENGTH_IN_BYTES * 8"
  using calcDifference_prefix [OF assms(1,2)] assms(3,4) by (force simp: calcBucketIndex_def)

lemma lrs_loop_bound: "lrs < n \<Longrightarrow> \<forall>i\<in>set is. i < n \<Longrightarrow> lrs_loop S b lrs is < n"
  by (induction "is" arbitrary: lrs) auto

lemma lrs_loop_min:
  "pr_last_seen (S (b ! lrs_loop S b lrs is)) \<le> pr_last_seen (S (b ! lrs))
     \<and> (\<forall>i\<in>set is. pr_last_seen (S (b ! lrs_loop S b lrs is)) \<le> pr_last_seen (S (b ! i)))"
proof (induction "is" arbitrary: lrs)
  case (Cons i "is")
  let ?l = "if pr_last_seen (S (b ! lrs)) > pr_last_seen (S (b ! i)) then i else lrs"
  have "pr_last_seen (S (b ! ?l)) \<le> pr_last_seen (S (b ! lrs))" "pr_last_seen (S (b ! ?l)) \<le> pr_last_seen (S (b ! i))" by auto
  with Cons.IH [of ?l] show ?case by auto
qed simp

text \<open>The index found is that of the peer that has been silent longest.\<close>

lemma getLeastRecentlySeen:
  assumes "i < length (kd_buckets k)" and "kd_buckets k ! i \<noteq> []"
  obtains j where "getLeastRecentlySeenPeerIndex S k i = Inr j" and "j < length (kd_buckets k ! i)"
    and "\<forall>p\<in>set (kd_buckets k ! i). pr_last_seen (S (kd_buckets k ! i ! j)) \<le> pr_last_seen (S p)"
proof -
  let ?b = "kd_buckets k ! i"
  let ?j = "lrs_loop S ?b 0 [1..<length ?b]"
  have "?j < length ?b" using assms(2) by (intro lrs_loop_bound) auto
  moreover have "pr_last_seen (S (?b ! ?j)) \<le> pr_last_seen (S p)" if p: "p \<in> set ?b" for p
  proof -
    obtain n where n: "n < length ?b" "p = ?b ! n" using p by (auto simp: in_set_conv_nth)
    then show ?thesis using lrs_loop_min [of S ?b 0 "[1..<length ?b]"] by (cases "n = 0") auto
  qed
  ultimately show ?thesis using that assms by (simp add: getLeastRecentlySeenPeerIndex_def assert_that_def Let_def)
qed

lemma removePeer_inv:
  assumes "kademlia_inv S k" and "i < length (kd_buckets k)" and "removePeer i j k = Inr k'"
  shows "kademlia_inv S k' \<and> length (kd_buckets k' ! i) < length (kd_buckets k ! i)
    \<and> set (concat (kd_buckets k')) \<subseteq> set (concat (kd_buckets k)) \<and> length (kd_buckets k') = length (kd_buckets k)
    \<and> kd_host_address k' = kd_host_address k"
proof -
  let ?b = "kd_buckets k ! i" and ?b' = "take j (kd_buckets k ! i) @ drop (Suc j) (kd_buckets k ! i)"
  have j: "j < length ?b" and k': "k' = k\<lparr>kd_buckets := (kd_buckets k)[i := ?b']\<rparr>"
    using assms(3) by (auto simp: removePeer_def assert_that_def Let_def split: if_splits)
  have "mset ?b' \<subseteq># mset ?b" using take_drop_mset [OF j] by (metis mset_subset_eq_add_left)
  then have "kademlia_inv S k'" unfolding k' by (rule kademlia_inv_shrink [OF assms(1,2)])
  moreover have "set (concat (kd_buckets k')) \<subseteq> set (concat (kd_buckets k))"
    using assms(2) set_take_subset [of j ?b] set_drop_subset [of "Suc j" ?b] nth_mem [OF assms(2)]
    by (fastforce simp: k' dest!: set_update_subset_insert [THEN subsetD])
  ultimately show ?thesis using j assms(2) by (simp add: k')
qed

text \<open>A peer is rejected, appended to a bucket with room, or put in the place of a silent one.\<close>

lemma kademlia_tryAddPeer_cases:
  assumes add: "kademlia_tryAddPeer S now peer k = Inr (r, k')"
  obtains (rejected) "\<not> r" and "k' = k"
  | (accepted) i where "same_endpoint S peer (concat (kd_buckets k)) = Inr False" and "calcBucketIndex k (pr_address (S peer)) = Inr i"
      and "i \<noteq> LENGTH_IN_BYTES * 8" and "length (kd_buckets k ! i) < MAX_BUCKET_SIZE" and r and "k' = push_peer peer i k"
  | (replaced) i j q where "same_endpoint S peer (concat (kd_buckets k)) = Inr False" and "calcBucketIndex k (pr_address (S peer)) = Inr i"
      and "i \<noteq> LENGTH_IN_BYTES * 8" and "removePeer i j k = Inr q" and r and "k' = push_peer peer i q"
proof -
  obtain known where known: "same_endpoint S peer (concat (kd_buckets k)) = Inr known"
    using add unfolding kademlia_tryAddPeer_def rbind_eq_Inr by blast
  show ?thesis
  proof (cases known)
    case True
    then show ?thesis using add known rejected by (simp add: kademlia_tryAddPeer_def)
  next
    case False
    then obtain i where i: "calcBucketIndex k (pr_address (S peer)) = Inr i"
      using add known by (cases "calcBucketIndex k (pr_address (S peer))") (simp_all add: kademlia_tryAddPeer_def)
    note add' = add [unfolded kademlia_tryAddPeer_def known i rbind_Inr]
    consider "i = LENGTH_IN_BYTES * 8" | "i \<noteq> LENGTH_IN_BYTES * 8" "length (kd_buckets k ! i) < MAX_BUCKET_SIZE"
      | "i \<noteq> LENGTH_IN_BYTES * 8" "\<not> length (kd_buckets k ! i) < MAX_BUCKET_SIZE" by blast
    then show ?thesis
    proof cases
      case 1
      then show ?thesis using add' False rejected by simp
    next
      case 2
      then show ?thesis using add' False known i accepted by simp
    next
      case 3
      then show ?thesis using add' False known i rejected replaced
        by (auto simp: rbind_eq_Inr Let_def split: if_splits)
    qed
  qed
qed

lemma kademlia_tryAddPeer_inv:
  assumes inv: "kademlia_inv S k" and len: "length (kd_host_address k) = LENGTH_IN_BYTES" "length (pr_address (S peer)) = LENGTH_IN_BYTES"
    and add: "kademlia_tryAddPeer S now peer k = Inr (r, k')"
  shows "kademlia_inv S k' \<and> (if r then peer \<in> set (concat (kd_buckets k')) else k' = k)"
proof -
  have bl: "length (kd_buckets k) = LENGTH_IN_BYTES * 8" using inv by (simp add: kademlia_inv_def)
  have pushed: "peer \<in> set (concat (kd_buckets (push_peer peer i q)))" if "i < length (kd_buckets q)" for i q
  proof -
    have "kd_buckets q ! i @ [peer] \<in> set (kd_buckets (push_peer peer i q))"
      using that by (simp add: push_peer_def set_update_memI)
    then show ?thesis by (simp add: bexI [of _ "kd_buckets q ! i @ [peer]"])
  qed
  from add show ?thesis
  proof (cases rule: kademlia_tryAddPeer_cases)
    case rejected
    then show ?thesis using inv by simp
  next
    case 2: (accepted i)
    have i: "i < length (kd_buckets k)" using calcBucketIndex_bound [OF len 2(2,3)] bl by simp
    have "kademlia_inv S k'" unfolding 2(6) by (rule kademlia_inv_push [OF inv i 2(4,2)]) (use same_endpoint_False [OF 2(1)] in blast)
    then show ?thesis using 2(5,6) pushed [OF i] by simp
  next
    case 3: (replaced i j q)
    have i: "i < length (kd_buckets k)" using calcBucketIndex_bound [OF len 3(2,3)] bl by simp
    note q = removePeer_inv [OF inv i 3(4)]
    have "length (kd_buckets k ! i) \<le> MAX_BUCKET_SIZE" using inv i by (simp add: kademlia_inv_def)
    then have room: "length (kd_buckets q ! i) < MAX_BUCKET_SIZE" using q by simp
    have idx: "calcBucketIndex q (pr_address (S peer)) = Inr i" using 3(2) q by (simp add: calcBucketIndex_def)
    have iq: "i < length (kd_buckets q)" using q i by simp
    have "kademlia_inv S k'" unfolding 3(6)
      by (rule kademlia_inv_push [OF conjunct1 [OF q] iq room idx]) (use same_endpoint_False [OF 3(1)] q in blast)
    then show ?thesis using 3(5,6) pushed [OF iq] by simp
  qed
qed

lemma remove_from_buckets_eq:
  "snd (remove_from_buckets p bs) = bs \<or>
     (\<exists>i < length bs. p \<in> set (bs ! i) \<and> snd (remove_from_buckets p bs) = bs[i := remove1 p (bs ! i)])"
proof (induction bs)
  case (Cons b bs)
  show ?case
  proof (cases "p \<in> set b")
    case True
    then show ?thesis by (auto intro!: exI [of _ 0])
  next
    case False
    from Cons.IH consider "snd (remove_from_buckets p bs) = bs"
      | i where "i < length bs" "p \<in> set (bs ! i)" "snd (remove_from_buckets p bs) = bs[i := remove1 p (bs ! i)]" by blast
    then show ?thesis
    proof cases
      case 1
      then show ?thesis using False by (auto split: prod.splits)
    next
      case (2 i)
      then show ?thesis using False by (auto split: prod.splits intro!: exI [of _ "Suc i"])
    qed
  qed
qed simp

lemma kademlia_tryRemovePeer_inv: "kademlia_inv S k \<Longrightarrow> kademlia_inv S (snd (kademlia_tryRemovePeer p k))"
proof -
  assume inv: "kademlia_inv S k"
  have eq: "snd (kademlia_tryRemovePeer p k) = k\<lparr>kd_buckets := snd (remove_from_buckets p (kd_buckets k))\<rparr>"
    by (simp add: kademlia_tryRemovePeer_def split: prod.splits)
  consider "snd (remove_from_buckets p (kd_buckets k)) = kd_buckets k"
    | i where "i < length (kd_buckets k)" "p \<in> set (kd_buckets k ! i)"
        "snd (remove_from_buckets p (kd_buckets k)) = (kd_buckets k)[i := remove1 p (kd_buckets k ! i)]"
    using remove_from_buckets_eq [of p "kd_buckets k"] by blast
  then show ?thesis
  proof cases
    case 1
    then show ?thesis using inv eq by simp
  next
    case (2 i)
    have "mset (remove1 p (kd_buckets k ! i)) \<subseteq># mset (kd_buckets k ! i)" by (simp add: diff_subset_eq_self)
    from kademlia_inv_shrink [OF inv 2(1) this] show ?thesis using 2(3) eq by simp
  qed
qed

section \<open>Properties\<close>

text \<open>
  C38: the Kademlia table stays well-formed: each of the 160 buckets holds at most ten peers, a
  peer sits in the bucket given by the length of the bit prefix its address shares with the
  address of the host, and no two peers share an endpoint. Adding a peer either puts it in or
  changes nothing.
\<close>

theorem kademlia_table_invariant:
  assumes "kademlia_inv S k" and "length (kd_host_address k) = LENGTH_IN_BYTES" and "length (pr_address (S peer)) = LENGTH_IN_BYTES"
    and "kademlia_tryAddPeer S now peer k = Inr (r, k')"
  shows "kademlia_inv S k' \<and> (if r then peer \<in> set (concat (kd_buckets k')) else k' = k)
    \<and> kademlia_inv S (snd (kademlia_tryRemovePeer peer k'))
    \<and> (\<forall>i < LENGTH_IN_BYTES * 8. length (kd_buckets k' ! i) \<le> 10 \<and> (\<forall>p\<in>set (kd_buckets k' ! i). length (pr_address (S p)) = LENGTH_IN_BYTES \<longrightarrow>
         (\<forall>j<i. address_bit (kd_host_address k') j = address_bit (pr_address (S p)) j)
         \<and> address_bit (kd_host_address k') i \<noteq> address_bit (pr_address (S p)) i))"
proof -
  have step: "kademlia_inv S k'" "if r then peer \<in> set (concat (kd_buckets k')) else k' = k"
    using kademlia_tryAddPeer_inv [OF assms] by auto
  have "kd_host_address k' = kd_host_address k" using assms(4)
    by (cases rule: kademlia_tryAddPeer_cases)
      (auto simp: push_peer_def removePeer_def assert_that_def Let_def split: if_splits)
  then have host: "length (kd_host_address k') = LENGTH_IN_BYTES" using assms(2) by simp
  have "length (kd_buckets k' ! i) \<le> 10 \<and> (\<forall>p\<in>set (kd_buckets k' ! i). length (pr_address (S p)) = LENGTH_IN_BYTES \<longrightarrow>
         (\<forall>j<i. address_bit (kd_host_address k') j = address_bit (pr_address (S p)) j)
         \<and> address_bit (kd_host_address k') i \<noteq> address_bit (pr_address (S p)) i)" if i: "i < LENGTH_IN_BYTES * 8" for i
  proof (intro conjI ballI impI)
    show "length (kd_buckets k' ! i) \<le> 10" using step(1) i by (simp add: kademlia_inv_def MAX_BUCKET_SIZE_def)
    fix p assume p: "p \<in> set (kd_buckets k' ! i)" "length (pr_address (S p)) = LENGTH_IN_BYTES"
    have "calcDifference (kd_host_address k') (pr_address (S p)) = Inr i"
      using step(1) i p(1) by (simp add: kademlia_inv_def calcBucketIndex_def)
    then show "\<forall>j<i. address_bit (kd_host_address k') j = address_bit (pr_address (S p)) j"
      "address_bit (kd_host_address k') i \<noteq> address_bit (pr_address (S p)) i"
      using calcDifference_prefix [OF host p(2)] i by (metis sum.inject(2))+
  qed
  then show ?thesis using step kademlia_tryRemovePeer_inv by blast
qed

text \<open>A peer with a given address and endpoint, for the examples.\<close>

definition demo_peer :: "nat \<Rightarrow> address \<Rightarrow> peer" where
  "demo_peer n a = \<lparr>pr_endpoint = \<lparr>ep_address = of_nat n, ep_port = 1\<rparr>,
     pr_endpoint_for_incoming_connections = Some \<lparr>ep_address = of_nat n, ep_port = 1\<rparr>, pr_address = a,
     pr_rating = \<lparr>rt_serialized_ep = [], rt_value = 20, rt_ts = 0\<rparr>, pr_state = JUST_ESTABLISHED, pr_last_seen = 0,
     pr_connection = open_connection, pr_was_connected_to = True, pr_is_started = True, pr_requested_block = None,
     pr_sync_blocks = [], pr_next_message_id = 0\<rparr>"

lemma kademlia_inv_empty: "kademlia_inv S (mk_KademliaPeerPool a)"
  by (simp add: kademlia_inv_def mk_KademliaPeerPool_def)

theorem kademlia_table_invariant_witness:
  "\<exists>r k'. kademlia_tryAddPeer (\<lambda>n. demo_peer n (replicate 20 255)) 0 7 (mk_KademliaPeerPool address_null) = Inr (r, k')
     \<and> kademlia_inv (\<lambda>n. demo_peer n (replicate 20 255)) k' \<and> 7 \<in> set (concat (kd_buckets k'))"
proof -
  let ?S = "\<lambda>n. demo_peer n (replicate 20 255)" and ?k = "mk_KademliaPeerPool address_null"
  have ln: "length (kd_host_address ?k) = LENGTH_IN_BYTES" "length (pr_address (?S 7)) = LENGTH_IN_BYTES"
    by (simp_all add: mk_KademliaPeerPool_def address_null_def demo_peer_def LENGTH_IN_BYTES_def)
  obtain n where n: "calcDifference (kd_host_address ?k) (pr_address (?S 7)) = Inr n" "n \<le> LENGTH_IN_BYTES * 8"
    "n = LENGTH_IN_BYTES * 8 \<longleftrightarrow> kd_host_address ?k = pr_address (?S 7)"
    by (rule calcDifference_prefix [OF ln])
  have "kd_host_address ?k \<noteq> pr_address (?S 7)"
    by (simp add: mk_KademliaPeerPool_def address_null_def demo_peer_def LENGTH_IN_BYTES_def)
  then have "n \<noteq> LENGTH_IN_BYTES * 8" "n < LENGTH_IN_BYTES * 8" using n(2,3) by simp_all
  moreover have idx: "calcBucketIndex ?k (pr_address (?S 7)) = Inr n" using n(1) by (simp add: calcBucketIndex_def)
  moreover have empty: "concat (kd_buckets ?k) = []" "\<And>i. i < LENGTH_IN_BYTES * 8 \<Longrightarrow> kd_buckets ?k ! i = []"
    by (simp_all add: mk_KademliaPeerPool_def concat_replicate_trivial)
  ultimately have add: "kademlia_tryAddPeer ?S 0 7 ?k = Inr (True, push_peer 7 n ?k)"
    unfolding kademlia_tryAddPeer_def empty(1) same_endpoint.simps rbind_Inr idx
    using empty(2) [of n] by (simp add: MAX_BUCKET_SIZE_def)
  from kademlia_table_invariant [OF kademlia_inv_empty ln add] show ?thesis using add by auto
qed

text \<open>
  A full bucket is never renewed beyond the tenth: when a new peer should take the place of
  one that has been silent for more than 3610 seconds in a bucket with index ten or more, the
  removal compares the bucket index with the bucket size and the assertion ends the program.
\<close>

theorem eviction_fails_assertion:
  assumes "same_endpoint S peer (concat (kd_buckets k)) = Inr False" and "calcBucketIndex k (pr_address (S peer)) = Inr i"
    and "10 \<le> i" and "i < length (kd_buckets k)" and "length (kd_buckets k) = LENGTH_IN_BYTES * 8"
    and "length (kd_buckets k ! i) = 10" and "\<forall>p\<in>set (kd_buckets k ! i). 3610 < unat (now - pr_last_seen (S p))"
  shows "kademlia_tryAddPeer S now peer k = Inl AssertionFailed"
proof -
  have "kd_buckets k ! i \<noteq> []" using assms(6) by auto
  then obtain j where j: "getLeastRecentlySeenPeerIndex S k i = Inr j" "j < length (kd_buckets k ! i)"
    using getLeastRecentlySeen [OF assms(4)] by blast
  have "NET_PING_FREQUENCY + NET_CONNECT_TIMEOUT < unat (now - pr_last_seen (S (kd_buckets k ! i ! j)))"
    using assms(7) j(2) by (simp add: NET_PING_FREQUENCY_def NET_CONNECT_TIMEOUT_def)
  moreover have "removePeer i j k = Inl AssertionFailed" using assms(3) by (simp add: removePeer_def assert_that_def MAX_BUCKET_SIZE_def)
  moreover have "i \<noteq> LENGTH_IN_BYTES * 8" "\<not> length (kd_buckets k ! i) < MAX_BUCKET_SIZE"
    using assms(4-6) by (simp_all add: MAX_BUCKET_SIZE_def)
  ultimately show ?thesis
    unfolding kademlia_tryAddPeer_def assms(1,2) rbind_Inr j(1) by (simp add: Let_def)
qed

theorem eviction_fails_assertion_witness:
  "\<exists>S k. kademlia_tryAddPeer S 4000 10 k = Inl AssertionFailed"
proof -
  let ?S = "\<lambda>n. demo_peer n (0 # 1 # replicate 18 0)"
  let ?k = "\<lparr>kd_host_address = address_null, kd_buckets = (replicate 160 [])[15 := [0, 1, 2, 3, 4, 5, 6, 7, 8, 9]]\<rparr>"
  have cat: "concat (kd_buckets ?k) = [0, 1, 2, 3, 4, 5, 6, 7, 8, 9]"
    by (simp add: upd_conv_take_nth_drop concat_replicate_trivial take_replicate drop_replicate)
  have same: "same_endpoint ?S 10 (concat (kd_buckets ?k)) = Inr False"
    unfolding cat by (simp add: getPublicEndpoint_def demo_peer_def)
  have "bit_difference 0 0 1 = Some 7" by (simp add: bit_difference.simps)
  moreover have "byte_difference address_null (0 # 1 # replicate 18 0) 0 = 1"
    by (simp add: byte_difference.simps [of _ _ 0] byte_difference.simps [of _ _ "Suc 0"] address_null_def LENGTH_IN_BYTES_def)
  ultimately have idx: "calcBucketIndex ?k (pr_address (?S 10)) = Inr 15"
    by (simp add: calcBucketIndex_def calcDifference_def address_null_def LENGTH_IN_BYTES_def demo_peer_def)
  have "kademlia_tryAddPeer ?S 4000 10 ?k = Inl AssertionFailed"
    by (rule eviction_fails_assertion [OF same idx]) (auto simp: LENGTH_IN_BYTES_def demo_peer_def)
  then show ?thesis by blast
qed

text \<open>
  A lookup returns the wrong end of the table: of the known peers, those returned share the
  shortest, not the longest, bit prefix with the address that is looked up.
\<close>

theorem lookup_returns_farthest:
  assumes "lookup S address alpha k = Inr found"
  shows "\<exists>all rest. allPeersInfo S k = Inr all \<and> mset all = mset found + mset rest \<and> length found = min alpha (length all)
    \<and> (\<forall>a\<in>set found. \<forall>b\<in>set rest. difference_or_0 (ni_address a) address \<le> difference_or_0 (ni_address b) address)"
proof -
  obtain ps where ps: "allPeersInfo S k = Inr ps"
    and found: "found = take alpha (sort_key (\<lambda>i. difference_or_0 (ni_address i) address) ps)"
    using assms by (auto simp: lookup_def rbind_eq_Inr)
  let ?f = "\<lambda>i. difference_or_0 (ni_address i) address"
  let ?s = "sort_key ?f ps"
  have "mset ps = mset (take alpha ?s) + mset (drop alpha ?s)" by (metis append_take_drop_id mset_append mset_sort)
  moreover have "sorted (map ?f (take alpha ?s @ drop alpha ?s))" by simp
  then have "\<forall>a\<in>set (take alpha ?s). \<forall>b\<in>set (drop alpha ?s). ?f a \<le> ?f b"
    unfolding map_append sorted_append by auto
  ultimately show ?thesis using ps found by (auto intro!: exI [of _ "drop alpha ?s"])
qed

theorem lookup_returns_farthest_witness:
  "\<exists>S k found. lookup S address_null 1 k = Inr found \<and> length found = 1 \<and> difference_or_0 (ni_address (hd found)) address_null = 0"
proof -
  let ?S = "\<lambda>n. demo_peer n (if n = 1 then replicate 20 0 else 255 # replicate 19 0)"
  let ?k = "\<lparr>kd_host_address = address_null, kd_buckets = [[1, 2]]\<rparr>"
  let ?i = "\<lambda>n. \<lparr>ni_endpoint = \<lparr>ep_address = of_nat n, ep_port = 1\<rparr>, ni_address = pr_address (?S n)\<rparr>"
  have all: "allPeersInfo ?S ?k = Inr [?i 1, ?i 2]"
    by (simp add: allPeersInfo_def getInfo_def getPublicEndpoint_def demo_peer_def)
  have "bit_difference 0 255 0 = Some 0" by (simp add: bit_difference.simps)
  moreover have "byte_difference (255 # replicate 19 0) address_null 0 = 0"
    by (simp add: byte_difference.simps address_null_def LENGTH_IN_BYTES_def)
  ultimately have far: "difference_or_0 (ni_address (?i 2)) address_null = 0"
    by (simp add: difference_or_0_def calcDifference_def address_null_def LENGTH_IN_BYTES_def demo_peer_def)
  obtain found where f: "lookup ?S address_null 1 ?k = Inr found" unfolding lookup_def all rbind_Inr by blast
  obtain ps rest where r: "allPeersInfo ?S ?k = Inr ps" "mset ps = mset found + mset rest" "length found = min 1 (length ps)"
    "\<forall>a\<in>set found. \<forall>b\<in>set rest. difference_or_0 (ni_address a) address_null \<le> difference_or_0 (ni_address b) address_null"
    using lookup_returns_farthest [OF f] by blast
  have ps: "ps = [?i 1, ?i 2]" using r(1) all by simp
  then have one: "length found = 1" using r(3) by simp
  then obtain x where x: "found = [x]" by (cases found) auto
  have "?i 2 \<in># mset ps" using ps by simp
  then have "?i 2 \<in> set found \<or> ?i 2 \<in> set rest" unfolding r(2) by simp
  then have "difference_or_0 (ni_address x) address_null = 0" using r(4) x far by (metis le_zero_eq list.set_intros(1) set_ConsD empty_iff list.set(1))
  then show ?thesis using f one x by (intro exI [of _ ?S] exI [of _ ?k] exI [of _ found]) simp
qed

end
