(* ===== verification/Host.thy ===== *)
theory Host
  imports Admission PeerPool
begin

text \<open>
  The network side of a node, \<^verbatim>\<open>Host\<close> of \<^verbatim>\<open>src/core/host.{hpp,cpp}\<close>, together with the core it serves: the
  store of peers, the two pools, the database of ratings and the set of endpoints to which a
  connection is being opened. The peers send through \<^verbatim>\<open>Requests\<close> (\<^verbatim>\<open>src/core/peer.tpp\<close>); the events of
  the core are broadcast. Connection attempts that have been handed to the connector are logged.
  An error value stands for an exception that leaves the handler; the state it leaves behind is that
  of the theories \<open>Unwinding\<close> and \<open>PeerUnwinding\<close>. How long a peer object lives is not modelled: the store keeps every peer.
\<close>

section \<open>State\<close>

record 's host =
  h_core :: "'s core"
  h_listen_ip :: endpoint
  h_server_public_port :: "16 word"
  h_rating_db :: "'s database"
  h_peers :: store
  h_non_handshaked_peers :: basic_pool
  h_handshaked_peers :: kademlia
  h_connector_in_process :: "endpoint set"
  h_connects :: "endpoint list"

definition mk_Host :: "endpoint \<Rightarrow> 16 word \<Rightarrow> 's database \<Rightarrow> store \<Rightarrow> 's core \<Rightarrow> 's host" where
  "mk_Host listen_ip public_port db peers core =
     \<lparr>h_core = core, h_listen_ip = listen_ip, h_server_public_port = public_port, h_rating_db = db, h_peers = peers,
      h_non_handshaked_peers = [], h_handshaked_peers = mk_KademliaPeerPool (core_this_node_address core),
      h_connector_in_process = {}, h_connects = []\<rparr>"

abbreviation peer_at :: "'s host \<Rightarrow> ptr \<Rightarrow> peer" where
  "peer_at h p \<equiv> h_peers h p"

definition upd_peer :: "ptr \<Rightarrow> (peer \<Rightarrow> peer) \<Rightarrow> 's host \<Rightarrow> 's host" where
  "upd_peer p f h = h\<lparr>h_peers := (h_peers h)(p := f (h_peers h p))\<rparr>"

section \<open>Sending\<close>

text \<open>The peer owns its session, so the weak pointer of \<^verbatim>\<open>Requests\<close> can always be locked.\<close>

definition requests_send :: "ext \<Rightarrow> net_ext \<Rightarrow> message \<Rightarrow> send_handler \<Rightarrow> peer \<Rightarrow> peer" where
  "requests_send X N msg cb p =
     (case prepareMessage X N msg (pr_next_message_id p) of
        (data, next_message_id) \<Rightarrow>
          p\<lparr>pr_next_message_id := next_message_id, pr_connection := session_send data cb (pr_connection p)\<rparr>)"

definition peer_send :: "ext \<Rightarrow> net_ext \<Rightarrow> ptr \<Rightarrow> message \<Rightarrow> 's host \<Rightarrow> 's host" where
  "peer_send X N p msg = upd_peer p (requests_send X N msg No_handler)"

definition sendBlock :: "ext \<Rightarrow> net_ext \<Rightarrow> iblock \<Rightarrow> peer \<Rightarrow> peer" where
  "sendBlock X N block = requests_send X N (Block_msg (blk_this_block_hash block) block) No_handler"

definition sendNewBlock :: "ext \<Rightarrow> net_ext \<Rightarrow> iblock \<Rightarrow> peer \<Rightarrow> peer" where
  "sendNewBlock X N block = requests_send X N (NewBlock (blk_this_block_hash block) block) No_handler"

definition sendTransaction :: "ext \<Rightarrow> net_ext \<Rightarrow> transaction \<Rightarrow> peer \<Rightarrow> peer" where
  "sendTransaction X N tx = requests_send X N (Transaction_msg tx) No_handler"

definition forEachPeer :: "(peer \<Rightarrow> peer) \<Rightarrow> 's host \<Rightarrow> 's host" where
  "forEachPeer f h = fold (\<lambda>p. upd_peer p f) (concat (kd_buckets (h_handshaked_peers h))) h"

definition broadcast_block :: "ext \<Rightarrow> net_ext \<Rightarrow> iblock \<Rightarrow> 's host \<Rightarrow> 's host" where
  "broadcast_block X N block = forEachPeer (sendBlock X N block)"

definition broadcastNewBlock :: "ext \<Rightarrow> net_ext \<Rightarrow> iblock \<Rightarrow> 's host \<Rightarrow> 's host" where
  "broadcastNewBlock X N block = forEachPeer (sendNewBlock X N block)"

definition broadcast_transaction :: "ext \<Rightarrow> net_ext \<Rightarrow> transaction \<Rightarrow> 's host \<Rightarrow> 's host" where
  "broadcast_transaction X N tx = forEachPeer (sendTransaction X N tx)"

text \<open>The subscriptions of the constructor of \<^verbatim>\<open>Core\<close>, called for every event of the core in order.\<close>

fun host_notify :: "ext \<Rightarrow> net_ext \<Rightarrow> core_event \<Rightarrow> 's host \<Rightarrow> 's host" where
  "host_notify X N (Event_new_pending_transaction tx) h = broadcast_transaction X N tx h"
| "host_notify X N (Event_block_mined block) h = broadcastNewBlock X N block h"
| "host_notify X N (Event_block_added block) h = h"

definition core_update :: "ext \<Rightarrow> net_ext \<Rightarrow> 's core \<Rightarrow> 's host \<Rightarrow> 's host" where
  "core_update X N c h = fold (host_notify X N) (drop (length (core_events (h_core h))) (core_events c)) (h\<lparr>h_core := c\<rparr>)"

section \<open>Closing\<close>

definition detachFromPools :: "ptr \<Rightarrow> 's host \<Rightarrow> 's host" where
  "detachFromPools p h =
     h\<lparr>h_handshaked_peers := snd (kademlia_tryRemovePeer p (h_handshaked_peers h)),
       h_non_handshaked_peers := snd (basic_tryRemovePeer p (h_non_handshaked_peers h))\<rparr>"

definition endSession :: "ext \<Rightarrow> net_ext \<Rightarrow> ptr \<Rightarrow> message \<Rightarrow> 's host \<Rightarrow> 's host" where
  "endSession X N p last_message h = upd_peer p (requests_send X N last_message Close_session) (detachFromPools p h)"

text \<open>The close callback is set when the session starts; it is called by the session and by its connection.\<close>

definition onClose :: "ptr \<Rightarrow> 's host \<Rightarrow> 's host" where
  "onClose p h = (if pr_is_started (peer_at h p) then detachFromPools p h else h)"

definition session_close :: "ptr \<Rightarrow> 's host \<Rightarrow> 's host" where
  "session_close p h =
     (if \<not> isSessionClosed (peer_at h p)
      then onClose p (upd_peer p (\<lambda>r. r\<lparr>pr_connection := connection_close (pr_connection r)\<rparr>) (onClose p h))
      else h)"

text \<open>A write of the connection has completed; the message may carry the closing handler.\<close>

definition peer_written :: "ptr \<Rightarrow> 's host \<Rightarrow> 's host" where
  "peer_written p h =
     (let c = pr_connection (peer_at h p);
          h = (case conn_pending_send_messages c of
                 (message, Close_session) # _ \<Rightarrow> if conn_is_closed c then h else onClose p (onClose p h)
               | _ \<Rightarrow> h)
      in upd_peer p (\<lambda>r. r\<lparr>pr_connection := on_written (pr_connection r)\<rparr>) h)"

section \<open>Checking out peers\<close>

definition RatingManager_get :: "'s node_env \<Rightarrow> net_ext \<Rightarrow> endpoint \<Rightarrow> 's host \<Rightarrow> (rating \<times> 's host) res" where
  "RatingManager_get E N ep h =
     rbind (mk_Rating N (env_leveldb E) ep (h_rating_db h)) (\<lambda>(r, db). Inr (r, h\<lparr>h_rating_db := db\<rparr>))"

definition isConnectedTo :: "endpoint \<Rightarrow> 's host \<Rightarrow> bool res" where
  "isConnectedTo ep h =
     rbind (has_endpoint (h_peers h) ep (h_non_handshaked_peers h)) (\<lambda>found.
     if found then Inr True else has_endpoint (h_peers h) ep (concat (kd_buckets (h_handshaked_peers h))))"

definition allConnectedPeersInfo :: "'s host \<Rightarrow> node_identity list res" where
  "allConnectedPeersInfo h = allPeersInfo (h_peers h) (h_handshaked_peers h)"

definition checkOutPeer :: "'s node_env \<Rightarrow> net_ext \<Rightarrow> endpoint \<Rightarrow> address \<Rightarrow> 's host \<Rightarrow> 's host res" where
  "checkOutPeer E N ep address h =
     (if core_this_node_address (h_core h) = address then Inr h
      else if h_listen_ip h = ep then Inr h
      else rbind (isConnectedTo ep h) (\<lambda>connected.
        if connected then Inr h
        else if ep \<in> h_connector_in_process h then Inr h
        else rbind (RatingManager_get E N ep (h\<lparr>h_connector_in_process := insert ep (h_connector_in_process h)\<rparr>)) (\<lambda>(r, h).
          if \<not> isGood r then Inr h
          else Inr (h\<lparr>h_connects := h_connects h @ [ep]\<rparr>))))"

text \<open>The loop of the handlers of CANNOT_ACCEPT and LOOKUP_RESPONSE over the peers of the message.\<close>

fun checkOutPeers :: "'s node_env \<Rightarrow> net_ext \<Rightarrow> node_identity list \<Rightarrow> 's host \<Rightarrow> 's host res" where
  "checkOutPeers E N [] h = Inr h"
| "checkOutPeers E N (i # is) h =
     rbind (RatingManager_get E N (ni_endpoint i) h) (\<lambda>(r, h).
     rbind (if isGood r then checkOutPeer E N (ni_endpoint i) (ni_address i) h else Inr h) (\<lambda>h.
     checkOutPeers E N is h))"

fun bootstrap :: "'s node_env \<Rightarrow> net_ext \<Rightarrow> string list \<Rightarrow> 's host \<Rightarrow> 's host res" where
  "bootstrap E N [] h = Inr h"
| "bootstrap E N (n # ns) h =
     rbind (endpoint_of_string N n) (\<lambda>ep. rbind (checkOutPeer E N ep address_null h) (\<lambda>h. bootstrap E N ns h))"

definition connect_failed :: "endpoint \<Rightarrow> 's host \<Rightarrow> 's host" where
  "connect_failed ep h = h\<lparr>h_connector_in_process := h_connector_in_process h - {ep}\<rparr>"

definition dropZombiePeers :: "'s host \<Rightarrow> 's host" where
  "dropZombiePeers h = h\<lparr>h_handshaked_peers := removeSilent (h_peers h) (h_handshaked_peers h)\<rparr>"

end
