(* ===== verification/Peer.thy ===== *)
theory Peer
  imports Host
begin

text \<open>
  The protocol between nodes, \<^verbatim>\<open>src/core/peer.cpp\<close>: how a peer is accepted or connected to, the
  synchronizer that fetches missing blocks backwards from the peer's top block, the handler of
  every message, and the dispatch of received bytes. The events of the network are the
  constructors of \<open>net_event\<close>.
\<close>

section \<open>Requests of a peer\<close>

definition NET_LOOKUP_ALPHA :: byte where
  "NET_LOOKUP_ALPHA = 5"

definition rate :: "('s leveldb \<Rightarrow> rating \<times> 's database \<Rightarrow> (rating \<times> 's database) res) \<Rightarrow> 's node_env \<Rightarrow> ptr \<Rightarrow> 's host \<Rightarrow> 's host res" where
  "rate f E p h =
     rbind (f (env_leveldb E) (pr_rating (peer_at h p), h_rating_db h)) (\<lambda>(r, db).
     Inr (upd_peer p (\<lambda>x. x\<lparr>pr_rating := r\<rparr>) (h\<lparr>h_rating_db := db\<rparr>)))"

definition close_if_bad :: "ext \<Rightarrow> net_ext \<Rightarrow> ptr \<Rightarrow> 's host \<Rightarrow> 's host" where
  "close_if_bad X N p h = (if \<not> isGood (pr_rating (peer_at h p)) then endSession X N p Close h else h)"

definition requestLookup :: "ext \<Rightarrow> net_ext \<Rightarrow> ptr \<Rightarrow> address \<Rightarrow> byte \<Rightarrow> 's host \<Rightarrow> 's host" where
  "requestLookup X N p address alpha = peer_send X N p (Lookup address alpha)"

definition peer_requestBlock :: "ext \<Rightarrow> net_ext \<Rightarrow> ptr \<Rightarrow> sha256 \<Rightarrow> 's host \<Rightarrow> 's host" where
  "peer_requestBlock X N p block_hash = peer_send X N p (GetBlock block_hash)"

definition setState :: "ptr \<Rightarrow> peer_state \<Rightarrow> 's host \<Rightarrow> 's host" where
  "setState p st = upd_peer p (\<lambda>x. x\<lparr>pr_state := st\<rparr>)"

definition setServerEndpoint :: "ptr \<Rightarrow> endpoint \<Rightarrow> 's host \<Rightarrow> 's host" where
  "setServerEndpoint p ep = upd_peer p (\<lambda>x. x\<lparr>pr_endpoint_for_incoming_connections := Some ep\<rparr>)"

definition core_topHash :: "'s host \<Rightarrow> sha256" where
  "core_topHash h = getTopBlockHash (pb_chain (core_blockchain (h_core h)))"

definition tryAddToPool :: "time \<Rightarrow> ptr \<Rightarrow> 's host \<Rightarrow> (bool \<times> 's host) res" where
  "tryAddToPool now p h =
     rbind (kademlia_tryAddPeer (h_peers h) now p (h_handshaked_peers h)) (\<lambda>(r, k). Inr (r, h\<lparr>h_handshaked_peers := k\<rparr>))"

section \<open>New peers\<close>

definition mk_Peer :: "bool \<Rightarrow> endpoint \<Rightarrow> rating \<Rightarrow> peer" where
  "mk_Peer was_connected_to ep rating =
     \<lparr>pr_endpoint = ep, pr_endpoint_for_incoming_connections = None, pr_address = address_null, pr_rating = rating,
      pr_state = JUST_ESTABLISHED, pr_last_seen = 0, pr_connection = open_connection, pr_was_connected_to = was_connected_to,
      pr_is_started = False, pr_requested_block = None, pr_sync_blocks = [], pr_next_message_id = 0\<rparr>"

definition startSession :: "ext \<Rightarrow> net_ext \<Rightarrow> ptr \<Rightarrow> 's host \<Rightarrow> 's host" where
  "startSession X N p h =
     (if pr_is_started (peer_at h p) then h
      else
        (let h = upd_peer p (\<lambda>x. x\<lparr>pr_is_started := True\<rparr>) h
         in if pr_was_connected_to (peer_at h p)
            then peer_send X N p (Connect (core_this_node_address (h_core h)) (h_server_public_port h) (core_topHash h)) h
            else h))"

definition admit_peer :: "ext \<Rightarrow> net_ext \<Rightarrow> ptr \<Rightarrow> rating \<Rightarrow> 's host \<Rightarrow> 's host res" where
  "admit_peer X N p rating h =
     (if \<not> isGood rating then Inr (endSession X N p (CannotAccept NOT_AVAILABLE []) h)
      else
        (case basic_tryAddPeer p (h_non_handshaked_peers h) of
           (added, pool) \<Rightarrow>
             if \<not> added then Inl BaseError
             else Inr (startSession X N p (h\<lparr>h_non_handshaked_peers := pool\<rparr>))))"

definition accepted :: "ext \<Rightarrow> net_ext \<Rightarrow> ptr \<Rightarrow> endpoint \<Rightarrow> rating \<Rightarrow> 's host \<Rightarrow> 's host res" where
  "accepted X N p ep rating h = admit_peer X N p rating (upd_peer p (\<lambda>_. mk_Peer False ep rating) h)"

definition connected :: "ext \<Rightarrow> net_ext \<Rightarrow> ptr \<Rightarrow> endpoint \<Rightarrow> rating \<Rightarrow> 's host \<Rightarrow> 's host res" where
  "connected X N p ep rating h =
     admit_peer X N p rating (setServerEndpoint p ep (upd_peer p (\<lambda>_. mk_Peer True ep rating) h))"

definition onAccept :: "'s node_env \<Rightarrow> net_ext \<Rightarrow> ptr \<Rightarrow> endpoint \<Rightarrow> 's host \<Rightarrow> 's host res" where
  "onAccept E N p ep h = rbind (RatingManager_get E N ep h) (\<lambda>(rating, h). accepted (env_ext E) N p ep rating h)"

definition on_connect :: "'s node_env \<Rightarrow> net_ext \<Rightarrow> ptr \<Rightarrow> endpoint \<Rightarrow> endpoint \<Rightarrow> 's host \<Rightarrow> 's host res" where
  "on_connect E N p ep session_ep h =
     rbind (RatingManager_get E N session_ep (h\<lparr>h_connector_in_process := h_connector_in_process h - {ep}\<rparr>)) (\<lambda>(rating, h).
     connected (env_ext E) N p session_ep rating h)"

section \<open>The synchronizer\<close>

definition isSynchronised :: "peer \<Rightarrow> bool" where
  "isSynchronised p \<longleftrightarrow> pr_requested_block p = None"

definition sync_requestBlock :: "ext \<Rightarrow> net_ext \<Rightarrow> ptr \<Rightarrow> sha256 \<Rightarrow> 's host \<Rightarrow> 's host res" where
  "sync_requestBlock X N p block_hash h =
     (if pr_requested_block (peer_at h p) \<noteq> None then Inl RuntimeError
      else Inr (upd_peer p (\<lambda>x. x\<lparr>pr_requested_block := Some block_hash\<rparr>) (peer_requestBlock X N p block_hash h)))"

definition handleReceivedTopBlockHash :: "ext \<Rightarrow> net_ext \<Rightarrow> ptr \<Rightarrow> sha256 \<Rightarrow> 's host \<Rightarrow> 's host res" where
  "handleReceivedTopBlockHash X N p peers_top_block h =
     (if peers_top_block = core_topHash h then Inr (setState p SYNCHRONISED h)
      else if core_findBlock (h_core h) peers_top_block \<noteq> None then Inr (setState p SYNCHRONISED h)
      else rbind (sync_requestBlock X N p peers_top_block h) (\<lambda>h. Inr (setState p REQUESTED_BLOCKS h)))"

text \<open>The loop from the back of the queue, left at the first block that is not added.\<close>

fun apply_sync_blocks :: "'s node_env \<Rightarrow> net_ext \<Rightarrow> time \<Rightarrow> iblock list \<Rightarrow> 's host \<Rightarrow> 's host res" where
  "apply_sync_blocks E N now [] h = Inr h"
| "apply_sync_blocks E N now (b # bs) h =
     rbind (core_tryAddBlock E now b (h_core h)) (\<lambda>(r, c).
     (let h = core_update (env_ext E) N c h in
      if r \<noteq> ADDED then Inr h else apply_sync_blocks E N now bs h))"

definition handleReceivedBlock :: "'s node_env \<Rightarrow> net_ext \<Rightarrow> time \<Rightarrow> ptr \<Rightarrow> sha256 \<Rightarrow> iblock \<Rightarrow> 's host \<Rightarrow> (bool \<times> 's host) res" where
  "handleReceivedBlock E N now p hash block h =
     assert_that (hash = blk_this_block_hash block)
      (let X = env_ext E in
       case pr_requested_block (peer_at h p) of
         None \<Rightarrow> rbind (rate nonExpectedMessage E p h) (\<lambda>h. Inr (True, close_if_bad X N p h))
       | Some requested \<Rightarrow>
           if requested \<noteq> hash then rbind (rate invalidMessage E p h) (\<lambda>h. Inr (True, close_if_bad X N p h))
           else
             (let h = upd_peer p (\<lambda>x. x\<lparr>pr_requested_block := None, pr_sync_blocks := pr_sync_blocks x @ [block]\<rparr>) h;
                  next_hash = blk_prev_block_hash block
              in if next_hash = sha256_null then rbind (rate differentGenesis E p h) (\<lambda>h. Inr (True, close_if_bad X N p h))
                 else if core_findBlock (h_core h) next_hash \<noteq> None then
                   rbind (apply_sync_blocks E N now (rev (pr_sync_blocks (peer_at h p))) h) (\<lambda>h.
                   Inr (True, upd_peer p (\<lambda>x. x\<lparr>pr_sync_blocks := []\<rparr>) h))
                 else rbind (sync_requestBlock X N p (blk_prev_block_hash block) h) (\<lambda>h. Inr (True, h))))"

definition handleReceivedNewBlock :: "'s node_env \<Rightarrow> net_ext \<Rightarrow> time \<Rightarrow> ptr \<Rightarrow> sha256 \<Rightarrow> iblock \<Rightarrow> 's host \<Rightarrow> (bool \<times> 's host) res" where
  "handleReceivedNewBlock E N now p hash block h =
     assert_that (hash = blk_this_block_hash block)
      (rbind (core_tryAddBlock E now block (h_core h)) (\<lambda>(r, c).
       (let h = core_update (env_ext E) N c h in
        if r = ADDED then Inr (True, h)
        else if pr_requested_block (peer_at h p) \<noteq> None
        then Inr (True, upd_peer p (\<lambda>x. x\<lparr>pr_sync_blocks := block # pr_sync_blocks x\<rparr>) h)
        else rbind (core_tryAddBlock E now block (h_core h)) (\<lambda>(r, c). Inr (r = ADDED, core_update (env_ext E) N c h)))))"

section \<open>Handlers\<close>

definition refuse_full :: "'s node_env \<Rightarrow> net_ext \<Rightarrow> ptr \<Rightarrow> 's host \<Rightarrow> 's host res" where
  "refuse_full E N p h =
     rbind (rate cannotAddToPool E p h) (\<lambda>h.
     rbind (allConnectedPeersInfo h) (\<lambda>infos.
     Inr (endSession (env_ext E) N p (CannotAccept BUCKET_IS_FULL infos) h)))"

definition leave_non_handshaked :: "ptr \<Rightarrow> 's host \<Rightarrow> 's host" where
  "leave_non_handshaked p h = h\<lparr>h_non_handshaked_peers := snd (basic_tryRemovePeer p (h_non_handshaked_peers h))\<rparr>"

definition handle_Connect :: "'s node_env \<Rightarrow> net_ext \<Rightarrow> time \<Rightarrow> ptr \<Rightarrow> address \<Rightarrow> 16 word \<Rightarrow> sha256 \<Rightarrow> 's host \<Rightarrow> 's host res" where
  "handle_Connect E N now p address public_port top_block_hash h =
     (let X = env_ext E;
          h = (if public_port \<noteq> 0 then setServerEndpoint p (setPort public_port (pr_endpoint (peer_at h p))) h else h);
          h = upd_peer p (\<lambda>x. x\<lparr>pr_address := address\<rparr>) h
      in rbind (tryAddToPool now p h) (\<lambda>(added, h).
         if added then
           (let h = leave_non_handshaked p h in
            rbind (getPublicEndpoint (peer_at h p)) (\<lambda>public_ep.
            (let h = peer_send X N p (Accepted (core_this_node_address (h_core h)) (ep_port public_ep) (core_topHash h)) h;
                 h = requestLookup X N p (pr_address (peer_at h p)) NET_LOOKUP_ALPHA h
             in handleReceivedTopBlockHash X N p top_block_hash h)))
         else refuse_full E N p h))"

definition handle_CannotAccept :: "'s node_env \<Rightarrow> net_ext \<Rightarrow> ptr \<Rightarrow> node_identity list \<Rightarrow> 's host \<Rightarrow> 's host res" where
  "handle_CannotAccept E N p infos h =
     rbind (rate connectionRefused E p h) (\<lambda>h. checkOutPeers E N infos h)"

definition handle_Accepted :: "'s node_env \<Rightarrow> net_ext \<Rightarrow> time \<Rightarrow> ptr \<Rightarrow> address \<Rightarrow> sha256 \<Rightarrow> 's host \<Rightarrow> 's host res" where
  "handle_Accepted E N now p address top_block_hash h =
     (let X = env_ext E;
          h = upd_peer p (\<lambda>x. x\<lparr>pr_address := address\<rparr>) h;
          h = peer_send X N p (Lookup (pr_address (peer_at h p)) NET_LOOKUP_ALPHA) h
      in rbind (tryAddToPool now p h) (\<lambda>(added, h).
         if added then handleReceivedTopBlockHash X N p top_block_hash (leave_non_handshaked p h)
         else refuse_full E N p h))"

definition handle_Lookup :: "'s node_env \<Rightarrow> net_ext \<Rightarrow> ptr \<Rightarrow> address \<Rightarrow> byte \<Rightarrow> 's host \<Rightarrow> 's host res" where
  "handle_Lookup E N p address selection_size h =
     rbind (lookup (h_peers h) address (unat selection_size) (h_handshaked_peers h)) (\<lambda>reply.
     Inr (peer_send (env_ext E) N p (LookupResponse address reply) h))"

definition handle_LookupResponse :: "'s node_env \<Rightarrow> net_ext \<Rightarrow> node_identity list \<Rightarrow> 's host \<Rightarrow> 's host res" where
  "handle_LookupResponse E N infos h = checkOutPeers E N infos h"

definition handle_Transaction :: "'s node_env \<Rightarrow> net_ext \<Rightarrow> transaction \<Rightarrow> 's host \<Rightarrow> 's host res" where
  "handle_Transaction E N tx h =
     rbind (addPendingTransaction E tx (h_core h)) (\<lambda>(status, c). Inr (core_update (env_ext E) N c h))"

definition handle_GetBlock :: "'s node_env \<Rightarrow> net_ext \<Rightarrow> ptr \<Rightarrow> sha256 \<Rightarrow> 's host \<Rightarrow> 's host" where
  "handle_GetBlock E N p block_hash h =
     (case core_findBlock (h_core h) block_hash of
        Some block \<Rightarrow> peer_send (env_ext E) N p (Block_msg block_hash block) h
      | None \<Rightarrow> peer_send (env_ext E) N p (BlockNotFound block_hash) h)"

definition handle_Block :: "'s node_env \<Rightarrow> net_ext \<Rightarrow> time \<Rightarrow> ptr \<Rightarrow> sha256 \<Rightarrow> iblock \<Rightarrow> 's host \<Rightarrow> 's host res" where
  "handle_Block E N now p block_hash block h =
     (if block_hash \<noteq> sha256_compute (env_ext E) (toBytes (serialize_iblock (env_ext E)) block) then rate invalidMessage E p h
      else rbind (handleReceivedBlock E N now p block_hash block h) (\<lambda>(r, h). Inr h))"

definition handle_NewBlock :: "'s node_env \<Rightarrow> net_ext \<Rightarrow> time \<Rightarrow> ptr \<Rightarrow> sha256 \<Rightarrow> iblock \<Rightarrow> 's host \<Rightarrow> 's host res" where
  "handle_NewBlock E N now p block_hash block h =
     (if block_hash \<noteq> sha256_compute (env_ext E) (toBytes (serialize_iblock (env_ext E)) block) then rate invalidMessage E p h
      else rbind (handleReceivedNewBlock E N now p block_hash block h) (\<lambda>(r, h). Inr h))"

definition handle_Close :: "ptr \<Rightarrow> 's host \<Rightarrow> 's host" where
  "handle_Close p h = session_close p (detachFromPools p h)"

fun handle :: "'s node_env \<Rightarrow> net_ext \<Rightarrow> time \<Rightarrow> ptr \<Rightarrow> message \<Rightarrow> 's host \<Rightarrow> 's host res" where
  "handle E N now p (Connect address public_port top_block_hash) h = handle_Connect E N now p address public_port top_block_hash h"
| "handle E N now p (CannotAccept why infos) h = handle_CannotAccept E N p infos h"
| "handle E N now p (Accepted address public_port top_block_hash) h = handle_Accepted E N now p address top_block_hash h"
| "handle E N now p Ping h = Inr h"
| "handle E N now p Pong h = Inr h"
| "handle E N now p (Lookup address selection_size) h = handle_Lookup E N p address selection_size h"
| "handle E N now p (LookupResponse address infos) h = handle_LookupResponse E N infos h"
| "handle E N now p (Transaction_msg tx) h = handle_Transaction E N tx h"
| "handle E N now p (GetBlock block_hash) h = Inr (handle_GetBlock E N p block_hash h)"
| "handle E N now p (Block_msg block_hash block) h = handle_Block E N now p block_hash block h"
| "handle E N now p (BlockNotFound block_hash) h = Inr h"
| "handle E N now p (NewBlock block_hash block) h = handle_NewBlock E N now p block_hash block h"
| "handle E N now p Close h = Inr (handle_Close p h)"

text \<open>
  The dispatch of received bytes. The names of the types are only logged. A type without a case
  in the switch is 0 or at least 14, so the assertion of the default case holds.
\<close>

definition process :: "'s node_env \<Rightarrow> net_ext \<Rightarrow> time \<Rightarrow> ptr \<Rightarrow> iarchive \<Rightarrow> 's host \<Rightarrow> 's host res" where
  "process E N now p ia h =
     rbind (deserialize_byte ia) (\<lambda>(msg_type, ia).
     (case deserialize_message (env_ext E) N msg_type of
        Some body \<Rightarrow> rbind (body ia) (\<lambda>(msg, ia). handle E N now p msg h)
      | None \<Rightarrow> assert_that (0 \<ge> msg_type \<or> 14 \<le> msg_type) (rate invalidMessage E p h)))"

text \<open>No request with a response callback is ever issued, so every message goes to the default callback.\<close>

definition onMessageReceive :: "'s node_env \<Rightarrow> net_ext \<Rightarrow> time \<Rightarrow> ptr \<Rightarrow> bytes \<Rightarrow> 's host \<Rightarrow> 's host res" where
  "onMessageReceive E N now p received_bytes h =
     rbind (deserialize_u16 \<lparr>ia_bytes = received_bytes, ia_index = 0\<rparr>) (\<lambda>(msg_id, ia).
     if pr_is_started (peer_at h p) then process E N now p ia h else Inr h)"

section \<open>Events of the network\<close>

datatype net_event =
    Ev_accept ptr endpoint
  | Ev_connected ptr endpoint endpoint
  | Ev_connect_failed endpoint
  | Ev_receive ptr bytes
  | Ev_written ptr
  | Ev_disconnected ptr
  | Ev_heartbeat

fun net_step :: "'s node_env \<Rightarrow> net_ext \<Rightarrow> time \<Rightarrow> net_event \<Rightarrow> 's host \<Rightarrow> 's host res" where
  "net_step E N now (Ev_accept p ep) h = onAccept E N p ep h"
| "net_step E N now (Ev_connected p ep session_ep) h = on_connect E N p ep session_ep h"
| "net_step E N now (Ev_connect_failed ep) h = Inr (connect_failed ep h)"
| "net_step E N now (Ev_receive p data) h =
     (if isSessionClosed (peer_at h p) then Inr h
      else onMessageReceive E N now p data (upd_peer p (\<lambda>x. x\<lparr>pr_last_seen := now\<rparr>) h))"
| "net_step E N now (Ev_written p) h = Inr (peer_written p h)"
| "net_step E N now (Ev_disconnected p) h =
     (if isSessionClosed (peer_at h p) then Inr h
      else Inr (onClose p (upd_peer p (\<lambda>x. x\<lparr>pr_connection := connection_close (pr_connection x)\<rparr>) h)))"
| "net_step E N now Ev_heartbeat h = Inr (dropZombiePeers h)"

end
