(* ===== verification/PeerUnwinding.thy ===== *)
theory PeerUnwinding
  imports Peer
begin

text \<open>
  What an exception leaves behind on the network side (\<^verbatim>\<open>src/core/peer.cpp\<close>, \<^verbatim>\<open>src/core/host.cpp\<close>).
  \<^verbatim>\<open>net::Connection::receive\<close> (\<^verbatim>\<open>src/net/connection.cpp\<close>) catches every \<^verbatim>\<open>std::exception\<close> of a message
  handler, logs it, and the node goes on with whatever the handler had done by then. As for the core, the
  function with the suffix \<open>_left\<close> gives that state for arguments on which the operation throws. An exception of
  the handler of a new connection is caught only at the end of the network thread (\<^verbatim>\<open>Host::networkThreadWorkerFunction\<close>);
  the state it leaves is given as well, although no event follows it.
\<close>

section \<open>Ratings\<close>

text \<open>The value has been changed when writing it to the database fails.\<close>

definition rate_left :: "(int \<Rightarrow> int) \<Rightarrow> ptr \<Rightarrow> 's host \<Rightarrow> 's host" where
  "rate_left f p = upd_peer p (\<lambda>x. x\<lparr>pr_rating := (pr_rating x)\<lparr>rt_value := of_int (f (sint (rt_value (pr_rating x))))\<rparr>\<rparr>)"

text \<open>Only the rating of the endpoint can throw after the endpoint has been reserved.\<close>

definition checkOutPeer_left :: "endpoint \<Rightarrow> address \<Rightarrow> 's host \<Rightarrow> 's host" where
  "checkOutPeer_left ep address h =
     (if core_this_node_address (h_core h) = address then h
      else if h_listen_ip h = ep then h
      else
        (case isConnectedTo ep h of
           Inr False \<Rightarrow>
             if ep \<in> h_connector_in_process h then h else h\<lparr>h_connector_in_process := insert ep (h_connector_in_process h)\<rparr>
         | _ \<Rightarrow> h))"

fun checkOutPeers_left :: "'s node_env \<Rightarrow> net_ext \<Rightarrow> node_identity list \<Rightarrow> 's host \<Rightarrow> 's host" where
  "checkOutPeers_left E N [] h = h"
| "checkOutPeers_left E N (i # is) h =
     (case RatingManager_get E N (ni_endpoint i) h of
        Inl e \<Rightarrow> h
      | Inr (r, h) \<Rightarrow>
          if isGood r then
            (case checkOutPeer E N (ni_endpoint i) (ni_address i) h of
               Inl e \<Rightarrow> checkOutPeer_left (ni_endpoint i) (ni_address i) h
             | Inr h \<Rightarrow> checkOutPeers_left E N is h)
          else checkOutPeers_left E N is h)"

section \<open>New connections\<close>

text \<open>\<^verbatim>\<open>admit_peer\<close> throws when the pool refuses the pointer, which a new object never has.\<close>

definition onAccept_left :: "'s node_env \<Rightarrow> net_ext \<Rightarrow> ptr \<Rightarrow> endpoint \<Rightarrow> 's host \<Rightarrow> 's host" where
  "onAccept_left E N p ep h =
     (case RatingManager_get E N ep h of
        Inl e \<Rightarrow> h
      | Inr (rating, h) \<Rightarrow> upd_peer p (\<lambda>_. mk_Peer False ep rating) h)"

definition on_connect_left :: "'s node_env \<Rightarrow> net_ext \<Rightarrow> ptr \<Rightarrow> endpoint \<Rightarrow> endpoint \<Rightarrow> 's host \<Rightarrow> 's host" where
  "on_connect_left E N p ep session_ep h =
     (let h = h\<lparr>h_connector_in_process := h_connector_in_process h - {ep}\<rparr> in
      case RatingManager_get E N session_ep h of
        Inl e \<Rightarrow> h
      | Inr (rating, h) \<Rightarrow> setServerEndpoint p session_ep (upd_peer p (\<lambda>_. mk_Peer True session_ep rating) h))"

section \<open>The synchronizer\<close>

text \<open>The blocks before the one that throws have been added; the queue has not been cleared.\<close>

fun apply_sync_blocks_left :: "'s node_env \<Rightarrow> net_ext \<Rightarrow> time \<Rightarrow> iblock list \<Rightarrow> 's host \<Rightarrow> 's host" where
  "apply_sync_blocks_left E N now [] h = h"
| "apply_sync_blocks_left E N now (b # bs) h =
     (case core_tryAddBlock E now b (h_core h) of
        Inl e \<Rightarrow> h\<lparr>h_core := core_tryAddBlock_left E now b (h_core h)\<rparr>
      | Inr (r, c) \<Rightarrow>
          (let h = core_update (env_ext E) N c h in if r \<noteq> ADDED then h else apply_sync_blocks_left E N now bs h))"

definition handleReceivedBlock_left :: "'s node_env \<Rightarrow> net_ext \<Rightarrow> time \<Rightarrow> ptr \<Rightarrow> sha256 \<Rightarrow> iblock \<Rightarrow> 's host \<Rightarrow> 's host" where
  "handleReceivedBlock_left E N now p hash block h =
     (case pr_requested_block (peer_at h p) of
        None \<Rightarrow> rate_left (\<lambda>v. v - 20) p h
      | Some requested \<Rightarrow>
          if requested \<noteq> hash then rate_left (\<lambda>v. v - 30) p h
          else
            (let h = upd_peer p (\<lambda>x. x\<lparr>pr_requested_block := None, pr_sync_blocks := pr_sync_blocks x @ [block]\<rparr>) h;
                 next_hash = blk_prev_block_hash block
             in if next_hash = sha256_null then rate_left (\<lambda>v. v - 2 * INITIAL_PEER_RATING) p h
                else if core_findBlock (h_core h) next_hash \<noteq> None
                then apply_sync_blocks_left E N now (rev (pr_sync_blocks (peer_at h p))) h
                else h))"

definition handleReceivedNewBlock_left :: "'s node_env \<Rightarrow> net_ext \<Rightarrow> time \<Rightarrow> iblock \<Rightarrow> 's host \<Rightarrow> 's host" where
  "handleReceivedNewBlock_left E N now block h =
     (case core_tryAddBlock E now block (h_core h) of
        Inl e \<Rightarrow> h\<lparr>h_core := core_tryAddBlock_left E now block (h_core h)\<rparr>
      | Inr (r, c) \<Rightarrow>
          (let h = core_update (env_ext E) N c h in h\<lparr>h_core := core_tryAddBlock_left E now block (h_core h)\<rparr>))"

section \<open>Handlers\<close>

definition refuse_full_left :: "'s node_env \<Rightarrow> ptr \<Rightarrow> 's host \<Rightarrow> 's host" where
  "refuse_full_left E p h =
     (case rate cannotAddToPool E p h of Inl e \<Rightarrow> rate_left (\<lambda>v. v - 10) p h | Inr h \<Rightarrow> h)"

definition handle_Connect_left :: "'s node_env \<Rightarrow> net_ext \<Rightarrow> time \<Rightarrow> ptr \<Rightarrow> address \<Rightarrow> 16 word \<Rightarrow> 's host \<Rightarrow> 's host" where
  "handle_Connect_left E N now p address public_port h =
     (let X = env_ext E;
          h = (if public_port \<noteq> 0 then setServerEndpoint p (setPort public_port (pr_endpoint (peer_at h p))) h else h);
          h = upd_peer p (\<lambda>x. x\<lparr>pr_address := address\<rparr>) h
      in case tryAddToPool now p h of
           Inl e \<Rightarrow> h
         | Inr (added, h) \<Rightarrow>
             if added then
               (let h = leave_non_handshaked p h in
                case getPublicEndpoint (peer_at h p) of
                  Inl e \<Rightarrow> h
                | Inr public_ep \<Rightarrow>
                    (let h = peer_send X N p (Accepted (core_this_node_address (h_core h)) (ep_port public_ep) (core_topHash h)) h
                     in requestLookup X N p (pr_address (peer_at h p)) NET_LOOKUP_ALPHA h))
             else refuse_full_left E p h)"

definition handle_CannotAccept_left :: "'s node_env \<Rightarrow> net_ext \<Rightarrow> ptr \<Rightarrow> node_identity list \<Rightarrow> 's host \<Rightarrow> 's host" where
  "handle_CannotAccept_left E N p infos h =
     (case rate connectionRefused E p h of
        Inl e \<Rightarrow> rate_left (\<lambda>v. - INITIAL_PEER_RATING - 10) p h
      | Inr h \<Rightarrow> checkOutPeers_left E N infos h)"

definition handle_Accepted_left :: "'s node_env \<Rightarrow> net_ext \<Rightarrow> time \<Rightarrow> ptr \<Rightarrow> address \<Rightarrow> 's host \<Rightarrow> 's host" where
  "handle_Accepted_left E N now p address h =
     (let X = env_ext E;
          h = upd_peer p (\<lambda>x. x\<lparr>pr_address := address\<rparr>) h;
          h = peer_send X N p (Lookup (pr_address (peer_at h p)) NET_LOOKUP_ALPHA) h
      in case tryAddToPool now p h of
           Inl e \<Rightarrow> h
         | Inr (added, h) \<Rightarrow> if added then leave_non_handshaked p h else refuse_full_left E p h)"

definition handle_Block_left :: "'s node_env \<Rightarrow> net_ext \<Rightarrow> time \<Rightarrow> ptr \<Rightarrow> sha256 \<Rightarrow> iblock \<Rightarrow> 's host \<Rightarrow> 's host" where
  "handle_Block_left E N now p block_hash block h =
     (if block_hash \<noteq> sha256_compute (env_ext E) (toBytes (serialize_iblock (env_ext E)) block) then rate_left (\<lambda>v. v - 30) p h
      else handleReceivedBlock_left E N now p block_hash block h)"

definition handle_NewBlock_left :: "'s node_env \<Rightarrow> net_ext \<Rightarrow> time \<Rightarrow> ptr \<Rightarrow> sha256 \<Rightarrow> iblock \<Rightarrow> 's host \<Rightarrow> 's host" where
  "handle_NewBlock_left E N now p block_hash block h =
     (if block_hash \<noteq> sha256_compute (env_ext E) (toBytes (serialize_iblock (env_ext E)) block) then rate_left (\<lambda>v. v - 30) p h
      else handleReceivedNewBlock_left E N now block h)"

text \<open>The other handlers throw, if at all, before they change anything.\<close>

fun handle_left :: "'s node_env \<Rightarrow> net_ext \<Rightarrow> time \<Rightarrow> ptr \<Rightarrow> message \<Rightarrow> 's host \<Rightarrow> 's host" where
  "handle_left E N now p (Connect address public_port top_block_hash) h = handle_Connect_left E N now p address public_port h"
| "handle_left E N now p (CannotAccept why infos) h = handle_CannotAccept_left E N p infos h"
| "handle_left E N now p (Accepted address public_port top_block_hash) h = handle_Accepted_left E N now p address h"
| "handle_left E N now p (LookupResponse address infos) h = checkOutPeers_left E N infos h"
| "handle_left E N now p (Block_msg block_hash block) h = handle_Block_left E N now p block_hash block h"
| "handle_left E N now p (NewBlock block_hash block) h = handle_NewBlock_left E N now p block_hash block h"
| "handle_left E N now p _ h = h"

definition process_left :: "'s node_env \<Rightarrow> net_ext \<Rightarrow> time \<Rightarrow> ptr \<Rightarrow> iarchive \<Rightarrow> 's host \<Rightarrow> 's host" where
  "process_left E N now p ia h =
     (case deserialize_byte ia of
        Inl e \<Rightarrow> h
      | Inr (msg_type, ia) \<Rightarrow>
          (case deserialize_message (env_ext E) N msg_type of
             Some body \<Rightarrow> (case body ia of Inl e \<Rightarrow> h | Inr (msg, ia) \<Rightarrow> handle_left E N now p msg h)
           | None \<Rightarrow> rate_left (\<lambda>v. v - 30) p h))"

definition onMessageReceive_left :: "'s node_env \<Rightarrow> net_ext \<Rightarrow> time \<Rightarrow> ptr \<Rightarrow> bytes \<Rightarrow> 's host \<Rightarrow> 's host" where
  "onMessageReceive_left E N now p received_bytes h =
     (case deserialize_u16 \<lparr>ia_bytes = received_bytes, ia_index = 0\<rparr> of
        Inl e \<Rightarrow> h
      | Inr (msg_id, ia) \<Rightarrow> if pr_is_started (peer_at h p) then process_left E N now p ia h else h)"

fun net_step_left :: "'s node_env \<Rightarrow> net_ext \<Rightarrow> time \<Rightarrow> net_event \<Rightarrow> 's host \<Rightarrow> 's host" where
  "net_step_left E N now (Ev_accept p ep) h = onAccept_left E N p ep h"
| "net_step_left E N now (Ev_connected p ep session_ep) h = on_connect_left E N p ep session_ep h"
| "net_step_left E N now (Ev_receive p data) h =
     (if isSessionClosed (peer_at h p) then h
      else onMessageReceive_left E N now p data (upd_peer p (\<lambda>x. x\<lparr>pr_last_seen := now\<rparr>) h))"
| "net_step_left E N now _ h = h"

end
