(* ===== verification/Decoding.thy ===== *)
theory Decoding
  imports Session
begin

text \<open>
  What can come out of a decoder, whatever bytes it is given. The locale \<open>decoder\<close> is the
  counterpart of \<open>codec\<close>: every value that is returned satisfies a predicate. The decoders of all
  network data are instances, so a message that a node accepts from the network is
  well-formed: addresses and hashes have their lengths, amounts their range, and a block carries
  the hash of its own contents.
\<close>

section \<open>The interface\<close>

locale decoder =
  fixes wf :: "'a \<Rightarrow> bool"
    and deser :: "'a deserializer"
  assumes decoded: "deser ia = Inr (x, ia') \<Longrightarrow> wf x"
begin

lemma decoded_n: "deserialize_n deser n ia = Inr (xs, ia') \<Longrightarrow> length xs = n \<and> list_all wf xs"
  by (induction n arbitrary: ia xs) (auto simp: rbind_eq_Inr dest: decoded)

lemma decoder_n: "decoder (\<lambda>xs. length xs = n \<and> list_all wf xs) (deserialize_n deser n)"
  by unfold_locales (rule decoded_n)

lemma decoder_vector: "decoder (\<lambda>xs. length xs < 2 ^ 64 \<and> list_all wf xs) (deserialize_vector deser)"
proof
  fix ia xs ia'
  assume "deserialize_vector deser ia = Inr (xs, ia')"
  then obtain size :: "64 word" where "length xs = unat size" "list_all wf xs"
    by (auto simp: deserialize_vector_def rbind_eq_Inr dest!: decoded_n)
  then show "length xs < 2 ^ 64 \<and> list_all wf xs" using unsigned_less [of size, where 'a = nat] by simp
qed

end

interpretation byte_in: decoder "\<lambda>_. True" deserialize_byte
  by unfold_locales simp

lemma decoder_fixed: "decoder (\<lambda>bs. length bs = n) (deserialize_fixed n)"
  by unfold_locales (auto simp: deserialize_fixed_def dest: byte_in.decoded_n)

interpretation sha256_in: decoder "\<lambda>h. length h = 32" deserialize_sha256
  by unfold_locales (use decoder.decoded [OF decoder_fixed] in \<open>auto simp: deserialize_sha256_def\<close>)

interpretation address_in: decoder wf_address deserialize_address
  by unfold_locales (use decoder.decoded [OF decoder_fixed] in \<open>auto simp: deserialize_address_def wf_address_def\<close>)

interpretation bytes_in: decoder "\<lambda>bs. length bs < 2 ^ 63" deserialize_bytes
  by unfold_locales (auto simp: deserialize_bytes_def rbind_eq_Inr split: if_splits dest!: byte_in.decoded_n)

interpretation identity_in: decoder wf_identity "deserialize_identity N" for N
  by unfold_locales (auto simp: deserialize_identity_def wf_identity_def rbind_eq_Inr dest: address_in.decoded)

section \<open>Transactions and blocks\<close>

lemma decoder_big: "big_ok X \<Longrightarrow> decoder (\<lambda>n. n < 2 ^ 256) (deserialize_big X)"
  by unfold_locales (auto simp: deserialize_big_def rbind_eq_Inr big_ok_def)

lemma decoder_tx:
  assumes "big_ok X"
  shows "decoder wf_tx (deserialize_tx X)"
proof
  fix ia tx ia'
  assume "deserialize_tx X ia = Inr (tx, ia')"
  then obtain sender receiver amount fee timestamp data sign i1 i2 i3 i4 i5 i6 i7 where
    "deserialize_address ia = Inr (sender, i1)" "deserialize_address i1 = Inr (receiver, i2)"
    and big: "deserialize_big X i2 = Inr (amount, i3)"
    and "deserialize_bytes i5 = Inr (data, i6)" and sign: "deserialize_fixed 65 i6 = Inr (sign, i7)"
    and tx: "mk_Transaction sender receiver amount fee timestamp data sign = Inr tx"
    unfolding deserialize_tx_def by (auto simp: rbind_eq_Inr)
  then have "wf_address sender" "wf_address receiver" "length data < 2 ^ 63"
    by (auto dest: address_in.decoded bytes_in.decoded)
  moreover have "amount < 2 ^ 256" by (rule decoder.decoded [OF decoder_big [OF assms] big])
  moreover have "length sign = 65" by (rule decoder.decoded [OF decoder_fixed sign])
  ultimately show "wf_tx tx" using tx by (auto simp: mk_Transaction_def wf_tx_def split: if_splits)
qed

lemma decoder_iblock:
  assumes "big_ok X"
  shows "decoder (wf_iblock X) (deserialize_iblock X)"
proof
  fix ia b ia'
  assume "deserialize_iblock X ia = Inr (b, ia')"
  then obtain depth nonce prev timestamp coinbase txs i2 i3 i4 i5 i6 where
    "deserialize_sha256 i2 = Inr (prev, i3)" "deserialize_address i4 = Inr (coinbase, i5)"
    and txs: "deserialize_vector (deserialize_tx X) i5 = Inr (txs, i6)"
    and b: "b = mk_ImmutableBlock X depth nonce prev timestamp coinbase txs"
    unfolding deserialize_iblock_def deserialize_txset_def by (auto simp: rbind_eq_Inr)
  then have "length prev = 32" "wf_address coinbase" by (auto dest: sha256_in.decoded address_in.decoded)
  then show "wf_iblock X b"
    using decoder.decoded [OF decoder.decoder_vector [OF decoder_tx [OF assms]] txs] by (simp add: b wf_iblock_mk)
qed

section \<open>Messages\<close>

lemma decoded_body:
  assumes X: "big_ok X" and "deserialize_message X N t = Some d" and "d ia = Inr (m, ia')"
  shows "wf_message X m"
proof -
  note block = decoder.decoded [OF decoder_iblock [OF X]] and tx = decoder.decoded [OF decoder_tx [OF X]]
  note vec = decoder.decoded [OF identity_in.decoder_vector]
  have reason: "reason_of_byte w \<noteq> Refusion_other 0" "reason_of_byte w \<noteq> Refusion_other 1" "reason_of_byte w \<noteq> Refusion_other 2" for w
    by (simp_all add: reason_of_byte_def)
  show ?thesis using assms(2,3)
    by (auto simp: deserialize_message_def deserialize_body_defs rbind_eq_Inr reason split: if_splits
        dest!: block tx vec sha256_in.decoded address_in.decoded)
qed

section \<open>Properties\<close>

text \<open>
  C26: whatever bytes arrive, a message that is accepted is well-formed, blocks in it carry the
  hash of their own contents, and sending it on gives the receiver the same message.
\<close>

theorem decoded_message_wf:
  assumes "big_ok X" and "net_ok N" and "read_message X N received = Inr (i, Some m)"
  shows "wf_message X m
    \<and> (\<forall>h b. m = Block_msg h b \<or> m = NewBlock h b \<longrightarrow> blk_this_block_hash b = computeThisBlockHash X b)
    \<and> read_message X N (fst (prepareMessage X N m j) @ rest) = Inr (j, Some m)"
proof -
  obtain t d ia ia' where "deserialize_message X N t = Some d" "d ia = Inr (m, ia')"
    using assms(3) by (auto simp: read_message_def rbind_eq_Inr split: option.splits)
  from decoded_body [OF assms(1) this] have wf: "wf_message X m" .
  moreover have "blk_this_block_hash b = computeThisBlockHash X b" if "m = Block_msg h b \<or> m = NewBlock h b" for h b
    using wf that by (auto simp: wf_iblock_def)
  ultimately show ?thesis using read_prepared [OF assms(1,2) wf] by blast
qed

theorem decoded_message_wf_witness:
  "\<exists>received m. read_message demo_ext demo_net received = Inr (7, Some m) \<and> wf_message demo_ext m
     \<and> read_message demo_ext demo_net (fst (prepareMessage demo_ext demo_net m 9)) = Inr (9, Some m)"
proof -
  have "read_message demo_ext demo_net (fst (prepareMessage demo_ext demo_net (GetBlock sha256_null) 7)) = Inr (7, Some (GetBlock sha256_null))"
    using read_prepared [OF demo_ext_ok(2) net_ok_demo, of "GetBlock sha256_null" 7 "[]"] by (simp add: sha256_null_def)
  with decoded_message_wf [OF demo_ext_ok(2) net_ok_demo this, of 9 "[]"] show ?thesis
    by (intro exI [of _ "fst (prepareMessage demo_ext demo_net (GetBlock sha256_null) 7)"] exI [of _ "GetBlock sha256_null"]) simp
qed

end
