(* ===== verification/Protocol.thy ===== *)
theory Protocol
  imports PeerUnwinding Decoding
begin

text \<open>
  What the protocol keeps: the invariant of a host under every event of the network, whatever
  bytes its peers send. Most handlers are quiet, they change neither the core, nor the pools,
  nor what the table of peers depends on; the others are treated one by one.
\<close>

section \<open>The table of peers under changes of the store\<close>

definition ident :: "peer \<Rightarrow> endpoint \<times> endpoint option \<times> address" where
  "ident p = (pr_endpoint p, pr_endpoint_for_incoming_connections p, pr_address p)"

definition table :: "kademlia \<Rightarrow> ptr set" where
  "table k = set (concat (kd_buckets k))"

lemma kademlia_inv_cong:
  assumes "\<forall>p\<in>table k. ident (S p) = ident (S' p)" and "kademlia_inv S k"
  shows "kademlia_inv S' k"
proof -
  have eq: "pr_endpoint (S' p) = pr_endpoint (S p)" "pr_address (S' p) = pr_address (S p)"
    "pr_endpoint_for_incoming_connections (S' p) = pr_endpoint_for_incoming_connections (S p)" if "p \<in> table k" for p
    using assms(1) that by (auto simp: ident_def)
  have m: "map (\<lambda>p. pr_endpoint (S' p)) (concat (kd_buckets k)) = map (\<lambda>p. pr_endpoint (S p)) (concat (kd_buckets k))"
    "map (\<lambda>p. pr_endpoint_for_incoming_connections (S' p)) (concat (kd_buckets k))
      = map (\<lambda>p. pr_endpoint_for_incoming_connections (S p)) (concat (kd_buckets k))"
    using eq by (auto simp: table_def)
  have "pr_address (S' p) = pr_address (S p)" if "i < length (kd_buckets k)" "p \<in> set (kd_buckets k ! i)" for i p
    using eq(2) [of p] that(2) bexI [OF _ nth_mem [OF that(1)], of "\<lambda>b. p \<in> set b"] by (simp add: table_def)
  then show ?thesis using assms(2) unfolding kademlia_inv_def m by auto
qed

lemma kademlia_inv_distinct: "kademlia_inv S k \<Longrightarrow> distinct (concat (kd_buckets k))"
  unfolding kademlia_inv_def distinct_map by blast

lemma mset_remove_from_buckets: "mset (concat (snd (remove_from_buckets p bs))) = mset (concat bs) - {#p#}"
proof (induction bs)
  case (Cons b bs)
  show ?case
  proof (cases "p \<in> set b")
    case False
    then have "mset b + (mset (concat bs) - {#p#}) = mset b + mset (concat bs) - {#p#}"
      by (simp add: multiset_eq_iff not_in_iff [symmetric]) (metis count_inI diff_0_eq_0 add_0 set_mset_mset)
    then show ?thesis using False Cons.IH by (cases "remove_from_buckets p bs") simp
  qed (simp add: diff_union_single_conv)
qed simp

lemma table_remove:
  assumes "kademlia_inv S k"
  shows "table (snd (kademlia_tryRemovePeer p k)) = table k - {p}"
proof -
  have m: "mset (concat (kd_buckets (snd (kademlia_tryRemovePeer p k)))) = mset (concat (kd_buckets k)) - {#p#}"
    using mset_remove_from_buckets [of p "kd_buckets k"] by (cases "remove_from_buckets p (kd_buckets k)") (simp add: kademlia_tryRemovePeer_def)
  have "set_mset (mset (concat (kd_buckets k)) - {#p#}) = set (concat (kd_buckets k)) - {p}"
    using kademlia_inv_distinct [OF assms] by (metis mset_remove1 set_mset_mset set_remove1_eq)
  then show ?thesis using arg_cong [OF m, of set_mset] by (simp add: table_def)
qed

lemma kademlia_remove_host [simp]: "kd_host_address (snd (kademlia_tryRemovePeer p k)) = kd_host_address k"
  by (simp add: kademlia_tryRemovePeer_def split: prod.splits)

lemma same_endpoint_self: "p \<in> set ps \<Longrightarrow> same_endpoint S p ps \<noteq> Inr False"
  by (induction ps) (auto simp: rbind_eq_Inr split: if_splits)

lemma table_push: "i < length (kd_buckets k) \<Longrightarrow> table (push_peer p i k) = insert p (table k)"
proof -
  assume "i < length (kd_buckets k)"
  from mset_concat_update [OF this, of "kd_buckets k ! i @ [p]"]
  have "mset (concat ((kd_buckets k)[i := kd_buckets k ! i @ [p]])) = mset (p # concat (kd_buckets k))" by simp
  then show ?thesis unfolding table_def push_peer_def by (metis kademlia.select_convs(2) kademlia.surjective kademlia.update_convs(2) list.simps(15) set_mset_mset)
qed

lemma kademlia_tryAddPeer_table:
  assumes inv: "kademlia_inv S k" and len: "length (kd_host_address k) = LENGTH_IN_BYTES" "length (pr_address (S p)) = LENGTH_IN_BYTES"
    and add: "kademlia_tryAddPeer S now p k = Inr (True, k')"
  shows "p \<notin> table k \<and> p \<in> table k' \<and> table k' \<subseteq> insert p (table k) \<and> kd_host_address k' = kd_host_address k"
proof -
  have bl: "length (kd_buckets k) = LENGTH_IN_BYTES * 8" using inv by (simp add: kademlia_inv_def)
  have same: "same_endpoint S p (concat (kd_buckets k)) = Inr False" using add
    by (cases rule: kademlia_tryAddPeer_cases) auto
  have "table k' \<subseteq> insert p (table k) \<and> kd_host_address k' = kd_host_address k" using add
  proof (cases rule: kademlia_tryAddPeer_cases)
    case (accepted i)
    have "i < length (kd_buckets k)" using calcBucketIndex_bound [OF len accepted(2,3)] bl by simp
    then show ?thesis using table_push [of i k p] accepted(6) by (simp add: push_peer_def)
  next
    case (replaced i j q)
    have i: "i < length (kd_buckets k)" using calcBucketIndex_bound [OF len replaced(2,3)] bl by simp
    note q = removePeer_inv [OF inv i replaced(4)]
    then have "table k' = insert p (table q)" using table_push [of i q p] i replaced(6) by simp
    then show ?thesis using q replaced(6) by (auto simp: table_def push_peer_def)
  qed simp
  then show ?thesis using same_endpoint_self [of p "concat (kd_buckets k)" S] same kademlia_tryAddPeer_inv [OF inv len add]
    by (auto simp: table_def)
qed

lemma removeSilent_inv: "kademlia_inv S k \<Longrightarrow> kademlia_inv S (removeSilent S k)"
proof -
  assume inv: "kademlia_inv S k"
  let ?f = "filter (\<lambda>p. \<not> isSessionClosed (S p))"
  have c: "concat (map ?f (kd_buckets k)) = ?f (concat (kd_buckets k))" by (simp add: filter_concat)
  have "length (?f (kd_buckets k ! i)) \<le> MAX_BUCKET_SIZE" if "i < length (kd_buckets k)" for i
  proof -
    have "length (kd_buckets k ! i) \<le> MAX_BUCKET_SIZE" using inv that by (simp add: kademlia_inv_def)
    then show ?thesis using length_filter_le le_trans by blast
  qed
  then show ?thesis using inv
    by (simp add: kademlia_inv_def removeSilent_def c distinct_map_filter calcBucketIndex_def)
qed

lemma table_removeSilent: "table (removeSilent S k) \<subseteq> table k"
  by (auto simp: table_def removeSilent_def)

section \<open>The invariant of a host\<close>

definition host_inv :: "'s node_env \<Rightarrow> iblock \<Rightarrow> 's host \<Rightarrow> bool" where
  "host_inv E g h \<longleftrightarrow> core_inv E g (h_core h) \<and> kademlia_inv (h_peers h) (h_handshaked_peers h)
     \<and> kd_host_address (h_handshaked_peers h) = core_this_node_address (h_core h)
     \<and> wf_address (core_this_node_address (h_core h))
     \<and> distinct (h_non_handshaked_peers h) \<and> set (h_non_handshaked_peers h) \<inter> table (h_handshaked_peers h) = {}
     \<and> (\<forall>q. list_all (wf_iblock (env_ext E)) (pr_sync_blocks (h_peers h q))) \<and> db_inited (h_rating_db h)"

text \<open>A step that changes at most what the invariant does not depend on, up to well-formed sync blocks.\<close>

definition quiet :: "ext \<Rightarrow> 's host \<Rightarrow> 's host \<Rightarrow> bool" where
  "quiet X h h' \<longleftrightarrow> h_core h' = h_core h \<and> h_handshaked_peers h' = h_handshaked_peers h
     \<and> h_non_handshaked_peers h' = h_non_handshaked_peers h \<and> db_inited (h_rating_db h') = db_inited (h_rating_db h)
     \<and> (\<forall>q. ident (h_peers h' q) = ident (h_peers h q)
          \<and> (list_all (wf_iblock X) (pr_sync_blocks (h_peers h q)) \<longrightarrow> list_all (wf_iblock X) (pr_sync_blocks (h_peers h' q))))"

lemma quiet_refl [simp, intro]: "quiet X h h"
  by (simp add: quiet_def)

lemma quiet_trans [trans]: "quiet X a b \<Longrightarrow> quiet X b c \<Longrightarrow> quiet X a c"
  by (simp add: quiet_def)

lemma quiet_inv:
  assumes "quiet (env_ext E) h h'" and "host_inv E g h"
  shows "host_inv E g h'"
proof -
  have "kademlia_inv (h_peers h') (h_handshaked_peers h)"
    by (rule kademlia_inv_cong [of _ "h_peers h"]) (use assms in \<open>auto simp: quiet_def host_inv_def\<close>)
  then show ?thesis using assms by (simp add: quiet_def host_inv_def)
qed

lemma quiet_upd:
  assumes "\<And>x. ident (f x) = ident x" and "\<And>x. list_all (wf_iblock X) (pr_sync_blocks x) \<Longrightarrow> list_all (wf_iblock X) (pr_sync_blocks (f x))"
  shows "quiet X h (upd_peer p f h)"
  using assms by (auto simp: quiet_def upd_peer_def)

lemma ident_send [simp]: "ident (requests_send X N m cb p) = ident p" "pr_sync_blocks (requests_send X N m cb p) = pr_sync_blocks p"
  by (simp_all add: requests_send_def ident_def split: prod.splits)

lemma quiet_send [simp, intro]: "quiet X h (peer_send Y N p m h)"
  unfolding peer_send_def by (rule quiet_upd) simp_all

lemma quiet_setState [simp, intro]: "quiet X h (setState p st h)"
  unfolding setState_def by (rule quiet_upd) (simp_all add: ident_def)

lemma quiet_db [simp]: "db_inited db = db_inited (h_rating_db h) \<Longrightarrow> quiet X h (h\<lparr>h_rating_db := db\<rparr>)" "quiet X h (h\<lparr>h_connector_in_process := s\<rparr>)" "quiet X h (h\<lparr>h_connects := c\<rparr>)"
  by (simp_all add: quiet_def)

lemma quiet_fold: "(\<And>x h. x \<in> set xs \<Longrightarrow> quiet X h (f x h)) \<Longrightarrow> quiet X h (fold f xs h)"
proof (induction xs arbitrary: h)
  case (Cons x xs)
  have "quiet X (f x h) (fold f xs (f x h))" using Cons by simp
  with quiet_trans [OF Cons.prems [of x h]] show ?case by simp
qed simp

lemma quiet_notify: "quiet X h (host_notify Y N e h)"
  by (cases e) (auto simp: broadcast_transaction_def broadcastNewBlock_def forEachPeer_def sendTransaction_def sendNewBlock_def
      intro!: quiet_fold quiet_upd)

text \<open>Results of fallible steps, and sequences of them.\<close>

lemma returns_bind: "returns P r \<Longrightarrow> (\<And>x. P x \<Longrightarrow> returns Q (f x)) \<Longrightarrow> returns Q (rbind r f)"
  by (auto simp: returns_def rbind_eq_Inr)

lemma returns_mono: "returns P r \<Longrightarrow> (\<And>x. P x \<Longrightarrow> Q x) \<Longrightarrow> returns Q r"
  by (auto simp: returns_def)

lemma returns_Inl [simp]: "returns P (Inl e)"
  by (simp add: returns_def)

lemma quiet_bind:
  assumes "returns (quiet X h) r" and "\<And>h'. returns (quiet X h') (f h')"
  shows "returns (quiet X h) (rbind r f)"
  using assms(1) by (rule returns_bind) (auto intro: returns_mono [OF assms(2)] quiet_trans)

text \<open>The database of ratings stays open.\<close>

lemma db_put_inited: "db_put L db k v = Inr db' \<Longrightarrow> db_inited db' = db_inited db"
  by (auto simp: db_put_def rbind_eq_Inr split: option.splits)

lemma mk_Rating_inited: "mk_Rating N L ep db = Inr (r, db') \<Longrightarrow> db_inited db' = db_inited db"
  by (auto simp: mk_Rating_def Let_def rbind_eq_Inr dbUpdate_def dest: db_put_inited split: option.splits)

lemma quiet_rate: "returns (quiet X h) (rate (penalty f) E p h)"
proof -
  have "quiet X h (upd_peer p (\<lambda>x. x\<lparr>pr_rating := r\<rparr>) (h\<lparr>h_rating_db := db\<rparr>))" if "db_inited db = db_inited (h_rating_db h)" for r db
    by (rule quiet_trans [OF quiet_db(1) [OF that] quiet_upd]) (simp_all add: ident_def)
  then show ?thesis by (auto simp: rate_def returns_def rbind_eq_Inr penalty_def Let_def dbUpdate_def dest: db_put_inited)
qed

lemma quiet_penalties:
  "returns (quiet X h) (rate nonExpectedMessage E p h)" "returns (quiet X h) (rate invalidMessage E p h)"
  "returns (quiet X h) (rate differentGenesis E p h)" "returns (quiet X h) (rate connectionRefused E p h)"
  "returns (quiet X h) (rate cannotAddToPool E p h)"
  unfolding nonExpectedMessage_def invalidMessage_def differentGenesis_def connectionRefused_def cannotAddToPool_def
  by (rule quiet_rate)+

lemma quiet_rating_get: "returns (\<lambda>(r, h'). quiet X h h') (RatingManager_get E N ep h)"
  by (auto simp: RatingManager_get_def returns_def rbind_eq_Inr dest: mk_Rating_inited)

lemma quiet_checkOutPeer: "returns (quiet X h) (checkOutPeer E N ep a h)"
proof -
  have step: "returns (quiet X h) (rbind (RatingManager_get E N ep (h\<lparr>h_connector_in_process := s\<rparr>)) (\<lambda>(r, h).
          if \<not> isGood r then Inr h else Inr (h\<lparr>h_connects := h_connects h @ [ep]\<rparr>)))" for s
    by (rule returns_bind [OF quiet_rating_get]) (auto intro: quiet_trans [OF quiet_db(2)] quiet_trans [OF _ quiet_db(3)])
  show ?thesis unfolding checkOutPeer_def
    by (rule returns_if, blast, rule returns_if, blast, rule returns_rbind, rule returns_if, blast, rule returns_if, blast, rule step)
qed

lemma quiet_checkOutPeers: "returns (quiet X h) (checkOutPeers E N is h)"
proof (induction "is" arbitrary: h)
  case (Cons i "is")
  have step: "returns (quiet X h') (rbind (if isGood r then checkOutPeer E N (ni_endpoint i) (ni_address i) h' else Inr h') (\<lambda>h. checkOutPeers E N is h))" for r h'
    by (rule quiet_bind) (use quiet_checkOutPeer Cons.IH in auto)
  show ?case unfolding checkOutPeers.simps
    by (rule returns_bind [OF quiet_rating_get [where X = X]], unfold case_prod_beta)
      (rule returns_mono [OF step], rule quiet_trans)
qed auto

lemma quiet_sync_requestBlock: "returns (quiet X h) (sync_requestBlock Y N p hash h)"
proof -
  have "quiet X h (upd_peer p (\<lambda>x. x\<lparr>pr_requested_block := Some hash\<rparr>) (peer_requestBlock Y N p hash h))"
    unfolding peer_requestBlock_def by (rule quiet_trans [OF quiet_send quiet_upd]) (simp_all add: ident_def)
  then show ?thesis by (auto simp: sync_requestBlock_def)
qed

lemma quiet_topBlockHash: "returns (quiet X h) (handleReceivedTopBlockHash Y N p hash h)"
  by (auto simp: handleReceivedTopBlockHash_def intro!: quiet_bind [OF quiet_sync_requestBlock])

section \<open>Changes of the core\<close>

lemma core_inv_transaction:
  assumes "core_inv E g c" and "addPendingTransaction E tx c = Inr (st, c')"
  shows "core_inv E g c' \<and> core_this_node_address c' = core_this_node_address c"
  using assms(1) addPendingTransaction_frame [OF assms(2)] pool.inv_add by (auto simp: core_inv_def pending_frame_def)

lemma core_inv_block:
  assumes "core_inv E g c" and "wf_iblock (env_ext E) b" and "core_tryAddBlock E now b c = Inr (r, c')"
  shows "core_inv E g c' \<and> core_this_node_address c' = core_this_node_address c"
proof -
  obtain c1 where l: "core_tryAddBlock_locked E now b c = Inr (r, c1)" and c': "c' = c1 \<or> (\<exists>es. c' = c1\<lparr>core_events := es\<rparr>)"
    using assms(3) by (auto simp: core_tryAddBlock_def rbind_eq_Inr split: if_splits)
  have "core_this_node_address c1 = core_this_node_address c" using l
    by (auto simp: core_tryAddBlock_locked_def rbind_eq_Inr Let_def split: if_splits dest!: applyBlockTransactions_frame)
  then show ?thesis using locked_keeps_inv [OF assms(1,2) l] c' by auto
qed

lemma core_update_inv:
  assumes "host_inv E g h" and "core_inv E g c" and "core_this_node_address c = core_this_node_address (h_core h)"
  shows "host_inv E g (core_update X N c h)"
proof -
  have "host_inv E g (h\<lparr>h_core := c\<rparr>)" using assms by (simp add: host_inv_def)
  then show ?thesis unfolding core_update_def by (rule quiet_inv [rotated]) (rule quiet_fold, rule quiet_notify)
qed

lemma core_update_store:
  "h_handshaked_peers (core_update X N c h) = h_handshaked_peers h"
  "pr_sync_blocks (peer_at (core_update X N c h) p) = pr_sync_blocks (peer_at h p)"
proof -
  have "h_handshaked_peers (fold (host_notify X N) es h') = h_handshaked_peers h'" for es and h' :: "'a host"
  proof -
    have "quiet X h' (fold (host_notify X N) es h')" by (rule quiet_fold, rule quiet_notify)
    then show ?thesis by (simp add: quiet_def)
  qed
  then show "h_handshaked_peers (core_update X N c h) = h_handshaked_peers h" by (simp add: core_update_def)
  have upd: "pr_sync_blocks (peer_at (fold (\<lambda>q. upd_peer q f) ps h') p) = pr_sync_blocks (peer_at h' p)"
    if "\<And>x. pr_sync_blocks (f x) = pr_sync_blocks x" for f ps and h' :: "'a host"
    using that by (induction ps arbitrary: h') (auto simp: upd_peer_def)
  have "pr_sync_blocks (peer_at (host_notify X N e h') p) = pr_sync_blocks (peer_at h' p)" for e and h' :: "'a host"
    by (cases e) (simp_all add: broadcast_transaction_def broadcastNewBlock_def forEachPeer_def sendTransaction_def sendNewBlock_def upd)
  then have "pr_sync_blocks (peer_at (fold (host_notify X N) es h') p) = pr_sync_blocks (peer_at h' p)" for es and h' :: "'a host"
    by (induction es arbitrary: h') simp_all
  then show "pr_sync_blocks (peer_at (core_update X N c h) p) = pr_sync_blocks (peer_at h p)" by (simp add: core_update_def)
qed

section \<open>Leaving the pools\<close>

text \<open>
  The state of a host in which the peer \<open>p\<close> may have a new address or endpoint: leaving the pools
  restores the invariant.
\<close>

definition almost :: "'s node_env \<Rightarrow> iblock \<Rightarrow> ptr \<Rightarrow> 's host \<Rightarrow> bool" where
  "almost E g p h \<longleftrightarrow> (\<exists>S. host_inv E g (h\<lparr>h_peers := S\<rparr>) \<and> (\<forall>q. q \<noteq> p \<longrightarrow> ident (S q) = ident (h_peers h q)))
     \<and> (\<forall>q. list_all (wf_iblock (env_ext E)) (pr_sync_blocks (h_peers h q)))"

lemma almost_of_inv: "host_inv E g h \<Longrightarrow> almost E g p h"
  unfolding almost_def by (rule conjI, rule exI [of _ "h_peers h"]) (simp_all add: host_inv_def)

lemma almost_upd:
  assumes "host_inv E g h" and "\<And>x. pr_sync_blocks (f x) = pr_sync_blocks x"
  shows "almost E g p (upd_peer p f h)"
proof -
  have "(upd_peer p f h)\<lparr>h_peers := h_peers h\<rparr> = h" by (simp add: upd_peer_def)
  then show ?thesis unfolding almost_def using assms
    by (intro conjI exI [of _ "h_peers h"]) (auto simp: upd_peer_def host_inv_def)
qed

lemma quiet_almost: "quiet (env_ext E) h h' \<Longrightarrow> almost E g p h \<Longrightarrow> almost E g p h'"
  unfolding almost_def quiet_def
  by (elim conjE exE, intro conjI, rule exI, rule conjI) (auto simp: host_inv_def)

lemma detach_inv:
  assumes "almost E g p h"
  shows "host_inv E g (detachFromPools p h)"
proof -
  obtain S where inv: "host_inv E g (h\<lparr>h_peers := S\<rparr>)" and same: "\<forall>q. q \<noteq> p \<longrightarrow> ident (S q) = ident (h_peers h q)"
    and sync: "\<forall>q. list_all (wf_iblock (env_ext E)) (pr_sync_blocks (h_peers h q))"
    using assms by (auto simp: almost_def)
  let ?k = "snd (kademlia_tryRemovePeer p (h_handshaked_peers h))"
  have k: "kademlia_inv S (h_handshaked_peers h)" using inv by (simp add: host_inv_def)
  have t: "table ?k = table (h_handshaked_peers h) - {p}" by (rule table_remove [OF k])
  have "kademlia_inv (h_peers h) ?k"
    by (rule kademlia_inv_cong [OF _ kademlia_tryRemovePeer_inv [OF k]]) (use same t in auto)
  then show ?thesis using inv sync t
    by (auto simp: host_inv_def detachFromPools_def basic_tryRemovePeer_def)
qed

lemma endSession_inv:
  assumes "almost E g p h"
  shows "host_inv E g (endSession X N p m h)"
  unfolding endSession_def by (rule quiet_inv [OF quiet_upd detach_inv [OF assms]]) simp_all

lemma onClose_inv: "host_inv E g h \<Longrightarrow> host_inv E g (onClose p h)"
  by (simp add: onClose_def detach_inv almost_of_inv)

lemma quiet_connection: "quiet X h (upd_peer p (\<lambda>x. x\<lparr>pr_connection := f x\<rparr>) h)"
  by (rule quiet_upd) (simp_all add: ident_def)

lemma session_close_inv: "host_inv E g h \<Longrightarrow> host_inv E g (session_close p h)"
  by (simp add: session_close_def onClose_inv quiet_inv [OF quiet_connection])

lemma peer_written_inv: "host_inv E g h \<Longrightarrow> host_inv E g (peer_written p h)"
  by (auto simp: peer_written_def Let_def onClose_inv intro!: quiet_inv [OF quiet_connection]
      split: list.splits prod.splits send_handler.splits)

lemma close_if_bad_inv: "host_inv E g h \<Longrightarrow> host_inv E g (close_if_bad X N p h)"
  by (simp add: close_if_bad_def endSession_inv almost_of_inv)

section \<open>The synchronizer\<close>

lemma block_step_inv:
  assumes "host_inv E g h" and "wf_iblock (env_ext E) b" and "core_tryAddBlock E now b (h_core h) = Inr (r, c)"
  shows "host_inv E g (core_update X N c h)"
  using core_inv_block [OF _ assms(2,3), of g] assms(1) by (intro core_update_inv) (simp_all add: host_inv_def)

lemma apply_sync_blocks_inv:
  "host_inv E g h \<Longrightarrow> list_all (wf_iblock (env_ext E)) bs \<Longrightarrow> returns (host_inv E g) (apply_sync_blocks E N now bs h)"
proof (induction bs arbitrary: h)
  case (Cons b bs)
  have step: "host_inv E g (core_update (env_ext E) N c h)" if "core_tryAddBlock E now b (h_core h) = Inr (r, c)" for r c
    by (rule block_step_inv [OF Cons.prems(1) _ that]) (use Cons.prems in simp)
  show ?case
  proof (cases "core_tryAddBlock E now b (h_core h)")
    case (Inr rc)
    then show ?thesis using step [of "fst rc" "snd rc"] Cons by (auto simp: Let_def split: prod.splits)
  qed simp
qed auto

lemma penalised_inv:
  assumes "host_inv E g h"
    and "returns (quiet (env_ext E) h) (rate f E p h)"
  shows "returns (\<lambda>(b, h). host_inv E g h) (rbind (rate f E p h) (\<lambda>h. Inr (True, close_if_bad X N p h)))"
  by (rule returns_bind [OF assms(2)]) (auto intro: close_if_bad_inv quiet_inv assms)

lemma handleReceivedBlock_inv:
  assumes inv: "host_inv E g h" and wf: "wf_iblock (env_ext E) block"
  shows "returns (\<lambda>(b, h). host_inv E g h) (handleReceivedBlock E N now p hash block h)"
proof -
  let ?h = "upd_peer p (\<lambda>x. x\<lparr>pr_requested_block := None, pr_sync_blocks := pr_sync_blocks x @ [block]\<rparr>) h"
  have "quiet (env_ext E) h ?h" by (rule quiet_upd) (use wf in \<open>simp_all add: ident_def\<close>)
  then have h: "host_inv E g ?h" by (rule quiet_inv [OF _ inv])
  have clear: "host_inv E g (upd_peer p (\<lambda>x. x\<lparr>pr_sync_blocks := []\<rparr>) h')" if "host_inv E g h'" for h'
    by (rule quiet_inv [OF quiet_upd that]) (simp_all add: ident_def)
  have blocks: "returns (host_inv E g) (apply_sync_blocks E N now (rev (pr_sync_blocks (peer_at ?h p))) ?h)"
    by (rule apply_sync_blocks_inv [OF h]) (use h in \<open>simp add: host_inv_def\<close>)
  have "returns (\<lambda>(b, h). host_inv E g h) (rbind (apply_sync_blocks E N now (rev (pr_sync_blocks (peer_at ?h p))) ?h) (\<lambda>h.
      Inr (True, upd_peer p (\<lambda>x. x\<lparr>pr_sync_blocks := []\<rparr>) h)))"
    by (rule returns_bind [OF blocks]) (simp add: clear returns_Inr)
  moreover have "returns (\<lambda>(b, h). host_inv E g h) (rbind (sync_requestBlock X N p hash' ?h) (\<lambda>h. Inr (True, h)))" for X hash'
    by (rule returns_bind [OF quiet_sync_requestBlock [where X = "env_ext E"]]) (simp add: quiet_inv [OF _ h] returns_Inr)
  ultimately show ?thesis
    unfolding handleReceivedBlock_def Let_def assert_that_def
    by (intro returns_if returns_option penalised_inv quiet_penalties inv h returns_Inl)
qed

lemma handleReceivedNewBlock_inv:
  assumes inv: "host_inv E g h" and wf: "wf_iblock (env_ext E) block"
  shows "returns (\<lambda>(b, h). host_inv E g h) (handleReceivedNewBlock E N now p hash block h)"
proof -
  have add: "returns (\<lambda>(r, c). host_inv E g (core_update (env_ext E) N c h)) (core_tryAddBlock E now block (h_core h))"
    if "host_inv E g h" for h
    using block_step_inv [OF that wf] by (auto simp: returns_def)
  have push: "host_inv E g (upd_peer p (\<lambda>x. x\<lparr>pr_sync_blocks := block # pr_sync_blocks x\<rparr>) h)" if "host_inv E g h" for h
    by (rule quiet_inv [OF quiet_upd that]) (use wf in \<open>simp_all add: ident_def\<close>)
  have again: "returns (\<lambda>(b, h). host_inv E g h) (rbind (core_tryAddBlock E now block (h_core h)) (\<lambda>(r, c).
      Inr (r = ADDED, core_update (env_ext E) N c h)))" if "host_inv E g h" for h
    by (rule returns_bind [OF add [OF that]]) (auto simp: returns_def)
  have rest: "returns (\<lambda>(b, h). host_inv E g h)
      (if r = ADDED then Inr (True, h)
       else if pr_requested_block (peer_at h p) \<noteq> None
       then Inr (True, upd_peer p (\<lambda>x. x\<lparr>pr_sync_blocks := block # pr_sync_blocks x\<rparr>) h)
       else rbind (core_tryAddBlock E now block (h_core h)) (\<lambda>(r, c). Inr (r = ADDED, core_update (env_ext E) N c h)))"
    if "host_inv E g h" for r h
    by (intro returns_if again [OF that] returns_Inr) (simp_all add: that push)
  show ?thesis unfolding handleReceivedNewBlock_def assert_that_def Let_def
    by (rule returns_if, rule returns_bind [OF add [OF inv]], unfold case_prod_beta, rule rest [unfolded case_prod_beta])
      simp_all
qed

section \<open>Handlers\<close>

lemma refuse_full_inv:
  assumes "almost E g p h"
  shows "returns (host_inv E g) (refuse_full E N p h)"
  unfolding refuse_full_def
  by (rule returns_bind [OF quiet_penalties(5) [where X = "env_ext E"]]) (auto intro: endSession_inv quiet_almost assms)

lemma tryAddToPool_inv:
  assumes al: "almost E g p h" and len: "wf_address (pr_address (peer_at h p))"
  shows "returns (\<lambda>(added, h'). if added then host_inv E g (leave_non_handshaked p h') else almost E g p h') (tryAddToPool now p h)"
proof -
  obtain S where inv: "host_inv E g (h\<lparr>h_peers := S\<rparr>)" and same: "\<forall>q. q \<noteq> p \<longrightarrow> ident (S q) = ident (h_peers h q)"
    and sync: "\<forall>q. list_all (wf_iblock (env_ext E)) (pr_sync_blocks (h_peers h q))"
    using al by (auto simp: almost_def)
  let ?k = "h_handshaked_peers h"
  have "if added then host_inv E g (leave_non_handshaked p (h\<lparr>h_handshaked_peers := k'\<rparr>)) else almost E g p (h\<lparr>h_handshaked_peers := k'\<rparr>)"
    if add: "kademlia_tryAddPeer (h_peers h) now p ?k = Inr (added, k')" for added k'
  proof (cases added)
    case True
    note add' = add [unfolded True [THEN eqTrueI]]
    have "same_endpoint (h_peers h) p (concat (kd_buckets ?k)) = Inr False"
      using add' by (cases rule: kademlia_tryAddPeer_cases) auto
    then have "p \<notin> table ?k" using same_endpoint_self [of p "concat (kd_buckets ?k)" "h_peers h"] unfolding table_def by blast
    then have "\<forall>q\<in>table ?k. ident (S q) = ident (h_peers h q)" using same by metis
    moreover have "kademlia_inv S ?k" using inv by (simp add: host_inv_def)
    ultimately have kinv: "kademlia_inv (h_peers h) ?k" by (rule kademlia_inv_cong)
    have host: "length (kd_host_address ?k) = LENGTH_IN_BYTES" using inv by (simp add: host_inv_def wf_address_def)
    note t = kademlia_tryAddPeer_table [OF kinv host len [unfolded wf_address_def] add']
    have "kademlia_inv (h_peers h) k'"
      using kademlia_tryAddPeer_inv [OF kinv host len [unfolded wf_address_def] add'] by blast
    then show ?thesis using True inv sync t
      by (auto simp: host_inv_def leave_non_handshaked_def basic_tryRemovePeer_def)
  next
    case False
    from add have "k' = ?k" by (cases rule: kademlia_tryAddPeer_cases) (use False in auto)
    then show ?thesis using False al by simp
  qed
  then show ?thesis by (auto simp: tryAddToPool_def returns_def rbind_eq_Inr)
qed

lemma handshake_inv:
  assumes al: "almost E g p h" and len: "wf_address (pr_address (peer_at h p))"
    and ok: "\<And>h'. returns (quiet (env_ext E) (leave_non_handshaked p h')) (f h')"
  shows "returns (host_inv E g) (rbind (tryAddToPool now p h) (\<lambda>(added, h'). if added then f h' else refuse_full E N p h'))"
proof -
  have step: "returns (host_inv E g) (if added then f h' else refuse_full E N p h')"
    if "if added then host_inv E g (leave_non_handshaked p h') else almost E g p h'" for added h'
    using that refuse_full_inv [of E g p h' N] returns_mono [OF ok, of h' "host_inv E g"] quiet_inv by (auto split: if_splits)
  show ?thesis
    by (rule returns_bind [OF tryAddToPool_inv [OF al len]], unfold case_prod_beta) (rule step)
qed

lemma handle_Connect_inv:
  assumes "host_inv E g h" and "wf_address a"
  shows "returns (host_inv E g) (handle_Connect E N now p a port top_hash h)"
proof -
  let ?f = "\<lambda>x. (if port \<noteq> 0 then x\<lparr>pr_endpoint_for_incoming_connections := Some (setPort port (pr_endpoint x))\<rparr> else x)\<lparr>pr_address := a\<rparr>"
  let ?h = "upd_peer p ?f h"
  have al: "almost E g p ?h" by (rule almost_upd [OF assms(1)]) simp
  have len: "wf_address (pr_address (peer_at ?h p))" using assms(2) by (simp add: upd_peer_def)
  have eq: "upd_peer p (\<lambda>x. x\<lparr>pr_address := a\<rparr>)
      (if port \<noteq> 0 then setServerEndpoint p (setPort port (pr_endpoint (peer_at h p))) h else h) = ?h"
    by (auto simp: upd_peer_def setServerEndpoint_def)
  have "returns (quiet (env_ext E) h') (let h1 = peer_send X N p m h'; h2 = requestLookup X N p b n h1 in handleReceivedTopBlockHash X N p top_hash h2)"
    for h' :: "'a host" and X m b n
    unfolding Let_def requestLookup_def
    by (rule returns_mono [OF quiet_topBlockHash]) (blast intro: quiet_trans)
  note tail = this
  show ?thesis unfolding handle_Connect_def Let_def eq
    by (rule handshake_inv [OF al len], rule returns_rbind) (rule tail [unfolded Let_def])
qed

lemma handle_Accepted_inv:
  assumes "host_inv E g h" and "wf_address a"
  shows "returns (host_inv E g) (handle_Accepted E N now p a top_hash h)"
proof -
  let ?h = "peer_send (env_ext E) N p (Lookup (pr_address (peer_at (upd_peer p (\<lambda>x. x\<lparr>pr_address := a\<rparr>) h) p)) NET_LOOKUP_ALPHA)
    (upd_peer p (\<lambda>x. x\<lparr>pr_address := a\<rparr>) h)"
  have "almost E g p ?h" by (rule quiet_almost [OF quiet_send almost_upd [OF assms(1)]]) simp
  moreover have "wf_address (pr_address (peer_at ?h p))"
    using assms(2) ident_send(1) [of "env_ext E" N _ No_handler] by (simp add: peer_send_def upd_peer_def ident_def)
  ultimately show ?thesis unfolding handle_Accepted_def Let_def
    by (rule handshake_inv) (rule quiet_topBlockHash)
qed

lemma handle_inv:
  assumes inv: "host_inv E g h" and wf: "wf_message (env_ext E) m"
  shows "returns (host_inv E g) (handle E N now p m h)"
proof -
  have q: "returns (host_inv E g) r" if "returns (quiet (env_ext E) h) r" for r
    by (rule returns_mono [OF that quiet_inv [OF _ inv]])
  show ?thesis
  proof (cases m)
    case (Connect a port t)
    then show ?thesis using handle_Connect_inv [OF inv] wf by simp
  next
    case (CannotAccept why infos)
    have "returns (quiet (env_ext E) h) (handle_CannotAccept E N p infos h)"
      unfolding handle_CannotAccept_def by (rule quiet_bind [OF quiet_penalties(4) quiet_checkOutPeers])
    then show ?thesis using q CannotAccept by simp
  next
    case (Accepted a port t)
    then show ?thesis using handle_Accepted_inv [OF inv] wf by simp
  next
    case (Lookup a n)
    then show ?thesis using inv quiet_inv [OF quiet_send inv] by (simp add: handle_Lookup_def) auto
  next
    case (LookupResponse a infos)
    then show ?thesis using q [OF quiet_checkOutPeers] by (simp add: handle_LookupResponse_def)
  next
    case (Transaction_msg tx)
    have "host_inv E g (core_update (env_ext E) N c h)" if "addPendingTransaction E tx (h_core h) = Inr (st, c)" for st c
      using core_inv_transaction [OF _ that, of g] inv by (intro core_update_inv) (simp_all add: host_inv_def)
    then show ?thesis using Transaction_msg by (auto simp: handle_Transaction_def returns_def rbind_eq_Inr)
  next
    case (GetBlock hash)
    then show ?thesis using quiet_inv [OF quiet_send inv] by (auto simp: handle_GetBlock_def returns_Inr split: option.splits)
  next
    case (Block_msg hash b)
    have "returns (host_inv E g) (rbind (handleReceivedBlock E N now p hash b h) (\<lambda>(r, h). Inr h))"
      by (rule returns_bind [OF handleReceivedBlock_inv [OF inv]]) (use wf Block_msg in auto)
    then show ?thesis using Block_msg q [OF quiet_penalties(2)] by (simp add: handle_Block_def returns_if)
  next
    case (NewBlock hash b)
    have "returns (host_inv E g) (rbind (handleReceivedNewBlock E N now p hash b h) (\<lambda>(r, h). Inr h))"
      by (rule returns_bind [OF handleReceivedNewBlock_inv [OF inv]]) (use wf NewBlock in auto)
    then show ?thesis using NewBlock q [OF quiet_penalties(2)] by (simp add: handle_NewBlock_def returns_if)
  next
    case Close
    then show ?thesis by (simp add: handle_Close_def returns_Inr session_close_inv detach_inv almost_of_inv inv)
  qed (simp_all add: returns_Inr inv)
qed

lemma process_inv:
  assumes X: "big_ok (env_ext E)" and inv: "host_inv E g h"
  shows "returns (host_inv E g) (process E N now p ia h)"
proof -
  have body: "returns (host_inv E g) (rbind (body ia) (\<lambda>(msg, ia). handle E N now p msg h))"
    if "deserialize_message (env_ext E) N t = Some body" for body t ia
  proof (cases "body ia")
    case (Inr mi)
    then obtain m ia' where "body ia = Inr (m, ia')" by (cases mi) auto
    then show ?thesis using handle_inv [OF inv decoded_body [OF X that]] by simp
  qed simp
  have bad: "returns (host_inv E g) (rate invalidMessage E p h)"
    by (rule returns_mono [OF quiet_penalties(2) quiet_inv [OF _ inv]])
  have "returns (host_inv E g) (case deserialize_message (env_ext E) N t of
      Some body \<Rightarrow> rbind (body ia) (\<lambda>(msg, ia). handle E N now p msg h)
    | None \<Rightarrow> assert_that (0 \<ge> t \<or> 14 \<le> t) (rate invalidMessage E p h))" for t ia
    using body [of t] bad by (cases "deserialize_message (env_ext E) N t") (simp_all add: assert_that_def)
  then show ?thesis unfolding process_def case_prod_beta by (rule returns_rbind)
qed

section \<open>Events of the network\<close>

text \<open>A pointer to a new peer is not in use.\<close>

fun fresh_peer :: "net_event \<Rightarrow> 's host \<Rightarrow> bool" where
  "fresh_peer (Ev_accept p ep) h = (p \<notin> set (h_non_handshaked_peers h) \<union> table (h_handshaked_peers h))"
| "fresh_peer (Ev_connected p ep session_ep) h = (p \<notin> set (h_non_handshaked_peers h) \<union> table (h_handshaked_peers h))"
| "fresh_peer _ h = True"

lemma quiet_startSession: "quiet X h (startSession Y N p h)"
proof -
  have "quiet X h (upd_peer p (\<lambda>x. x\<lparr>pr_is_started := True\<rparr>) h)" by (rule quiet_upd) (simp_all add: ident_def)
  then show ?thesis by (auto simp: startSession_def Let_def intro: quiet_trans)
qed

lemma new_peer_store:
  assumes "host_inv E g h" and "p \<notin> set (h_non_handshaked_peers h) \<union> table (h_handshaked_peers h)" and "pr_sync_blocks x = []"
  shows "host_inv E g (upd_peer p (\<lambda>_. x) h)"
proof -
  have "kademlia_inv (h_peers (upd_peer p (\<lambda>_. x) h)) (h_handshaked_peers h)"
    by (rule kademlia_inv_cong [of _ "h_peers h"]) (use assms in \<open>auto simp: host_inv_def upd_peer_def\<close>)
  then show ?thesis using assms by (auto simp: host_inv_def upd_peer_def)
qed

lemma new_peer_inv:
  assumes "host_inv E g h" and "p \<notin> set (h_non_handshaked_peers h) \<union> table (h_handshaked_peers h)" and "pr_sync_blocks x = []"
  shows "returns (host_inv E g) (admit_peer X N p rating (upd_peer p (\<lambda>_. x) h))"
proof -
  let ?h = "upd_peer p (\<lambda>_. x) h"
  have inv: "host_inv E g ?h" by (rule new_peer_store [OF assms])
  have "host_inv E g (?h\<lparr>h_non_handshaked_peers := insort p (h_non_handshaked_peers ?h)\<rparr>)"
    using inv assms(2) by (auto simp: host_inv_def distinct_insort set_insort_key upd_peer_def)
  then show ?thesis using assms(2) endSession_inv [OF almost_of_inv [OF inv]]
    by (auto simp: admit_peer_def basic_tryAddPeer_def upd_peer_def intro: quiet_inv [OF quiet_startSession])
qed

lemma onAccept_inv:
  assumes "host_inv E g h" and "p \<notin> set (h_non_handshaked_peers h) \<union> table (h_handshaked_peers h)"
  shows "returns (host_inv E g) (onAccept E N p ep h)"
proof -
  have "returns (host_inv E g) (accepted (env_ext E) N p ep rating h')" if "quiet (env_ext E) h h'" for rating h'
    unfolding accepted_def by (rule new_peer_inv [OF quiet_inv [OF that assms(1)]]) (use assms(2) that in \<open>auto simp: quiet_def mk_Peer_def\<close>)
  note step = this
  show ?thesis unfolding onAccept_def
    by (rule returns_bind [OF quiet_rating_get [where X = "env_ext E"]], unfold case_prod_beta) (rule step)
qed

lemma on_connect_inv:
  assumes "host_inv E g h" and "p \<notin> set (h_non_handshaked_peers h) \<union> table (h_handshaked_peers h)"
  shows "returns (host_inv E g) (on_connect E N p ep session_ep h)"
proof -
  have eq: "setServerEndpoint p session_ep (upd_peer p (\<lambda>_. mk_Peer True session_ep rating) h')
      = upd_peer p (\<lambda>_. (mk_Peer True session_ep rating)\<lparr>pr_endpoint_for_incoming_connections := Some session_ep\<rparr>) h'" for rating h'
    by (simp add: setServerEndpoint_def upd_peer_def)
  have step: "returns (host_inv E g) (connected (env_ext E) N p session_ep rating h')" if "quiet (env_ext E) h h'" for rating h'
    unfolding connected_def eq
    by (rule new_peer_inv [OF quiet_inv [OF that assms(1)]]) (use assms(2) that in \<open>auto simp: quiet_def mk_Peer_def\<close>)
  show ?thesis unfolding on_connect_def
    by (rule returns_bind [OF quiet_rating_get [where X = "env_ext E"]], unfold case_prod_beta)
      (rule step, rule quiet_trans [OF quiet_db(2)])
qed

lemma net_step_inv:
  assumes X: "big_ok (env_ext E)" and inv: "host_inv E g h" and fresh: "fresh_peer ev h"
  shows "returns (host_inv E g) (net_step E N now ev h)"
proof (cases ev)
  case (Ev_receive p data)
  have "quiet (env_ext E) h (upd_peer p (\<lambda>x. x\<lparr>pr_last_seen := now\<rparr>) h)" by (rule quiet_upd) (simp_all add: ident_def)
  then have h: "host_inv E g (upd_peer p (\<lambda>x. x\<lparr>pr_last_seen := now\<rparr>) h)" by (rule quiet_inv [OF _ inv])
  have "returns (host_inv E g) (onMessageReceive E N now p data (upd_peer p (\<lambda>x. x\<lparr>pr_last_seen := now\<rparr>) h))"
    unfolding onMessageReceive_def case_prod_beta
    by (rule returns_rbind, rule returns_if, rule process_inv [OF X h], rule returns_Inr, rule h)
  then show ?thesis using Ev_receive inv by (simp add: returns_Inr)
next
  case (Ev_disconnected p)
  then show ?thesis using inv by (simp add: returns_Inr onClose_inv quiet_inv [OF quiet_connection])
next
  case Ev_heartbeat
  then show ?thesis using inv removeSilent_inv [of "h_peers h" "h_handshaked_peers h"] table_removeSilent [of "h_peers h" "h_handshaked_peers h"]
    by (auto simp: returns_def dropZombiePeers_def host_inv_def removeSilent_def [of _ "h_handshaked_peers h"])
qed (use fresh onAccept_inv [OF inv] on_connect_inv [OF inv] peer_written_inv [OF inv] quiet_inv [OF quiet_db(2) inv] in
    \<open>auto simp: connect_failed_def\<close>)

section \<open>Exceptions\<close>

text \<open>The penalties and the reservation of an endpoint are quiet wherever an exception ends them.\<close>

lemma quiet_rate_left: "quiet X h (rate_left f p h)"
  unfolding rate_left_def by (rule quiet_upd) (simp_all add: ident_def)

lemma quiet_checkOutPeer_left: "quiet X h (checkOutPeer_left ep a h)"
  by (auto simp: checkOutPeer_left_def split: sum.splits bool.splits)

lemma quiet_checkOutPeers_left: "quiet X h (checkOutPeers_left E N is h)"
proof (induction "is" arbitrary: h)
  case (Cons i "is")
  have step: "quiet X h' (case checkOutPeer E N ep a h' of Inl e \<Rightarrow> checkOutPeer_left ep a h' | Inr h \<Rightarrow> checkOutPeers_left E N is h)" for h' ep a
    using quiet_checkOutPeer [of X h' E N ep a] quiet_trans [OF _ Cons.IH]
    by (auto simp: returns_def quiet_checkOutPeer_left split: sum.splits)
  show ?case
  proof (cases "RatingManager_get E N (ni_endpoint i) h")
    case (Inr rh)
    then obtain r h' where rh: "RatingManager_get E N (ni_endpoint i) h = Inr (r, h')" by (cases rh) auto
    then have "quiet X h h'" using quiet_rating_get [of X h E N "ni_endpoint i"] by (simp add: returns_def)
    then show ?thesis using rh quiet_trans [OF _ step] quiet_trans [OF _ Cons.IH] by simp
  qed simp
qed simp

lemma quiet_CannotAccept_left: "quiet X h (handle_CannotAccept_left E N p infos h)"
  using quiet_penalties(4) [of X h E p] quiet_trans [OF _ quiet_checkOutPeers_left]
  by (auto simp: handle_CannotAccept_left_def returns_def quiet_rate_left split: sum.splits)

text \<open>
  The table of peers throws no exception that can be caught: it fails by an assertion or by the
  use of an empty optional. On a working disk a penalty does not throw.
\<close>

lemma same_endpoint_throws: "same_endpoint S p ps = Inl e \<Longrightarrow> e = EmptyOptional"
  by (induction ps) (auto simp: rbind_def getPublicEndpoint_def split: sum.splits option.splits if_splits)

lemma peers_info_throws: "peers_info S ps = Inl e \<Longrightarrow> e = EmptyOptional"
  by (induction ps) (auto simp: rbind_def getInfo_def getPublicEndpoint_def split: sum.splits option.splits)

lemma tryAddToPool_throws:
  assumes "tryAddToPool now p h = Inl e"
  shows "\<not> is_std_exception e"
proof -
  have "e \<in> {EmptyOptional, AssertionFailed}"
    using assms same_endpoint_throws [of "h_peers h" p "concat (kd_buckets (h_handshaked_peers h))"]
    by (auto simp: tryAddToPool_def kademlia_tryAddPeer_def rbind_def calcBucketIndex_def calcDifference_def Let_def assert_that_def
        getLeastRecentlySeenPeerIndex_def removePeer_def split: sum.splits option.splits if_splits)
  then show ?thesis by auto
qed

lemma rate_total:
  assumes "leveldb_ok (env_leveldb E)" and "db_inited (h_rating_db h)"
  shows "\<exists>h'. rate (penalty f) E p h = Inr h'"
proof -
  let ?r = "(pr_rating (peer_at h p))\<lparr>rt_value := of_int (f (sint (rt_value (pr_rating (peer_at h p)))))\<rparr>"
  obtain db' where "dbUpdate (env_leveldb E) ?r (h_rating_db h) = Inr db'"
    using db_put_lookup [OF assms] unfolding dbUpdate_def by blast
  then show ?thesis by (simp add: rate_def penalty_def Let_def)
qed

lemma refuse_full_throws:
  assumes "leveldb_ok (env_leveldb E)" and "almost E g p h" and "refuse_full E N p h = Inl e"
  shows "\<not> is_std_exception e"
proof -
  have "db_inited (h_rating_db h)" using assms(2) by (auto simp: almost_def host_inv_def)
  then obtain h' where "rate cannotAddToPool E p h = Inr h'" using rate_total [OF assms(1)] unfolding cannotAddToPool_def by blast
  then have "allConnectedPeersInfo h' = Inl e" using assms(3) by (auto simp: refuse_full_def rbind_def split: sum.splits)
  then have "e = EmptyOptional" using peers_info_throws by (simp add: allConnectedPeersInfo_def allPeersInfo_def)
  then show ?thesis by simp
qed

text \<open>The handshake: when an exception is caught, the peer has been moved to the table.\<close>

lemma handshake_left_inv:
  assumes L: "leveldb_ok (env_leveldb E)" and al: "almost E g p h" and len: "wf_address (pr_address (peer_at h p))"
    and throws: "rbind (tryAddToPool now p h) (\<lambda>(added, h'). if added then f h' else refuse_full E N p h') = Inl e" "is_std_exception e"
  obtains h' where "tryAddToPool now p h = Inr (True, h')" and "host_inv E g (leave_non_handshaked p h')"
proof (cases "tryAddToPool now p h")
  case (Inl e')
  then show ?thesis using throws tryAddToPool_throws [of now p h] by simp
next
  case (Inr ah)
  then obtain added h' where add: "tryAddToPool now p h = Inr (added, h')" by (cases ah) auto
  have inv: "if added then host_inv E g (leave_non_handshaked p h') else almost E g p h'"
    using tryAddToPool_inv [OF al len, of now] add by (simp add: returns_def)
  have added using throws add inv refuse_full_throws [OF L, of g p h' N e] by (auto split: if_splits)
  then show ?thesis using that add inv by simp
qed

lemma handle_Connect_left_inv:
  assumes L: "leveldb_ok (env_leveldb E)" and inv: "host_inv E g h" and "wf_address a"
    and throws: "handle_Connect E N now p a port top_hash h = Inl e" "is_std_exception e"
  shows "host_inv E g (handle_Connect_left E N now p a port h)"
proof -
  let ?f = "\<lambda>x. (if port \<noteq> 0 then x\<lparr>pr_endpoint_for_incoming_connections := Some (setPort port (pr_endpoint x))\<rparr> else x)\<lparr>pr_address := a\<rparr>"
  let ?h = "upd_peer p ?f h"
  have al: "almost E g p ?h" by (rule almost_upd [OF inv]) simp
  have len: "wf_address (pr_address (peer_at ?h p))" using assms(3) by (simp add: upd_peer_def)
  have eq: "upd_peer p (\<lambda>x. x\<lparr>pr_address := a\<rparr>)
      (if port \<noteq> 0 then setServerEndpoint p (setPort port (pr_endpoint (peer_at h p))) h else h) = ?h"
    by (auto simp: upd_peer_def setServerEndpoint_def)
  obtain h' where h': "tryAddToPool now p ?h = Inr (True, h')" "host_inv E g (leave_non_handshaked p h')"
    by (rule handshake_left_inv [OF L al len throws(1) [unfolded handle_Connect_def Let_def eq] throws(2)])
  have "host_inv E g (requestLookup X N p b n (peer_send X N p m (leave_non_handshaked p h')))" for X b n m
    unfolding requestLookup_def by (rule quiet_inv [OF quiet_send quiet_inv [OF quiet_send h'(2)]])
  then show ?thesis using h' by (simp add: handle_Connect_left_def Let_def eq split: sum.splits)
qed

lemma handle_Accepted_left_inv:
  assumes L: "leveldb_ok (env_leveldb E)" and inv: "host_inv E g h" and "wf_address a"
    and throws: "handle_Accepted E N now p a top_hash h = Inl e" "is_std_exception e"
  shows "host_inv E g (handle_Accepted_left E N now p a h)"
proof -
  let ?h = "peer_send (env_ext E) N p (Lookup (pr_address (peer_at (upd_peer p (\<lambda>x. x\<lparr>pr_address := a\<rparr>) h) p)) NET_LOOKUP_ALPHA)
    (upd_peer p (\<lambda>x. x\<lparr>pr_address := a\<rparr>) h)"
  have al: "almost E g p ?h" by (rule quiet_almost [OF quiet_send almost_upd [OF inv]]) simp
  have len: "wf_address (pr_address (peer_at ?h p))"
    using assms(3) ident_send(1) [of "env_ext E" N _ No_handler] by (simp add: peer_send_def upd_peer_def ident_def)
  obtain h' where "tryAddToPool now p ?h = Inr (True, h')" "host_inv E g (leave_non_handshaked p h')"
    by (rule handshake_left_inv [OF L al len throws(1) [unfolded handle_Accepted_def Let_def] throws(2)])
  then show ?thesis by (simp add: handle_Accepted_left_def Let_def)
qed

text \<open>Blocks: the block whose execution throws is in the chain.\<close>

lemma block_left_inv:
  assumes "leveldb_ok (env_leveldb E)" and "host_inv E g h" and "wf_iblock (env_ext E) b" and "core_tryAddBlock E now b (h_core h) = Inl e"
  shows "host_inv E g (h\<lparr>h_core := core_tryAddBlock_left E now b (h_core h)\<rparr>)"
  using left_keeps_inv [OF assms(1) _ assms(3), of g "h_core h" now e] assms(2,4) by (simp add: host_inv_def core_throws_locked)

lemma apply_sync_blocks_left_inv:
  "leveldb_ok (env_leveldb E) \<Longrightarrow> host_inv E g h \<Longrightarrow> list_all (wf_iblock (env_ext E)) bs \<Longrightarrow>
     host_inv E g (apply_sync_blocks_left E N now bs h)"
proof (induction bs arbitrary: h)
  case (Cons b bs)
  then have wf: "wf_iblock (env_ext E) b" by simp
  show ?case
  proof (cases "core_tryAddBlock E now b (h_core h)")
    case (Inl e)
    then show ?thesis using block_left_inv [OF Cons.prems(1,2) wf] by simp
  next
    case (Inr rc)
    then have "host_inv E g (core_update (env_ext E) N (snd rc) h)"
      using block_step_inv [OF Cons.prems(2) wf, of now "fst rc" "snd rc"] by simp
    then show ?thesis using Inr Cons by (cases rc) (simp add: Let_def)
  qed
qed simp

lemma rate_left_inv: "host_inv E g h \<Longrightarrow> host_inv E g (rate_left f p h)"
  by (rule quiet_inv [OF quiet_rate_left])

lemma handleReceivedBlock_left_inv:
  assumes L: "leveldb_ok (env_leveldb E)" and inv: "host_inv E g h" and wf: "wf_iblock (env_ext E) block"
  shows "host_inv E g (handleReceivedBlock_left E N now p hash block h)"
proof -
  let ?h = "upd_peer p (\<lambda>x. x\<lparr>pr_requested_block := None, pr_sync_blocks := pr_sync_blocks x @ [block]\<rparr>) h"
  have "quiet (env_ext E) h ?h" by (rule quiet_upd) (use wf in \<open>simp_all add: ident_def\<close>)
  then have h: "host_inv E g ?h" by (rule quiet_inv [OF _ inv])
  moreover have "host_inv E g (apply_sync_blocks_left E N now (rev (pr_sync_blocks (peer_at ?h p))) ?h)"
    by (rule apply_sync_blocks_left_inv [OF L h]) (use h in \<open>simp add: host_inv_def\<close>)
  ultimately show ?thesis using inv by (simp add: handleReceivedBlock_left_def Let_def rate_left_inv split: option.splits)
qed

lemma handleReceivedNewBlock_left_inv:
  assumes L: "leveldb_ok (env_leveldb E)" and inv: "host_inv E g h" and wf: "wf_iblock (env_ext E) block"
    and throws: "handleReceivedNewBlock E N now p hash block h = Inl e" "is_std_exception e"
  shows "host_inv E g (handleReceivedNewBlock_left E N now block h)"
proof (cases "core_tryAddBlock E now block (h_core h)")
  case (Inl e')
  then show ?thesis using block_left_inv [OF L inv wf] by (simp add: handleReceivedNewBlock_left_def)
next
  case (Inr rc)
  then obtain r c where rc: "core_tryAddBlock E now block (h_core h) = Inr (r, c)" by (cases rc) auto
  let ?h = "core_update (env_ext E) N c h"
  have h: "host_inv E g ?h" by (rule block_step_inv [OF inv wf rc])
  have "core_tryAddBlock E now block (h_core ?h) = Inl e"
    using throws rc by (auto simp: handleReceivedNewBlock_def assert_that_def Let_def rbind_def split: if_splits sum.splits)
  then show ?thesis using rc block_left_inv [OF L h wf] by (simp add: handleReceivedNewBlock_left_def Let_def)
qed

lemma handle_left_inv:
  assumes L: "leveldb_ok (env_leveldb E)" and inv: "host_inv E g h" and wf: "wf_message (env_ext E) m"
    and throws: "handle E N now p m h = Inl e" "is_std_exception e"
  shows "host_inv E g (handle_left E N now p m h)"
proof (cases m)
  case (Connect a port t)
  then show ?thesis using handle_Connect_left_inv [OF L inv] wf throws by simp
next
  case (CannotAccept why infos)
  then show ?thesis using quiet_inv [OF quiet_CannotAccept_left inv] by simp
next
  case (Accepted a port t)
  then show ?thesis using handle_Accepted_left_inv [OF L inv] wf throws by simp
next
  case (LookupResponse a infos)
  then show ?thesis using quiet_inv [OF quiet_checkOutPeers_left inv] by simp
next
  case (Block_msg hash b)
  then show ?thesis using handleReceivedBlock_left_inv [OF L inv] rate_left_inv [OF inv] wf
    by (simp add: handle_Block_left_def)
next
  case (NewBlock hash b)
  then show ?thesis
    using handleReceivedNewBlock_left_inv [OF L inv, of b N now p hash e] rate_left_inv [OF inv] wf throws
    by (auto simp: handle_NewBlock_left_def handle_NewBlock_def rbind_def split: sum.splits if_splits)
qed (use inv in simp_all)

lemma process_left_inv:
  assumes L: "leveldb_ok (env_leveldb E)" and X: "big_ok (env_ext E)" and inv: "host_inv E g h"
    and throws: "process E N now p ia h = Inl e" "is_std_exception e"
  shows "host_inv E g (process_left E N now p ia h)"
proof (cases "deserialize_byte ia")
  case (Inr ti)
  then obtain t ia' where t: "deserialize_byte ia = Inr (t, ia')" by (cases ti) auto
  show ?thesis
  proof (cases "deserialize_message (env_ext E) N t")
    case None
    then show ?thesis using t rate_left_inv [OF inv] by (simp add: process_left_def)
  next
    case (Some body)
    show ?thesis
    proof (cases "body ia'")
      case (Inr mi)
      then obtain m ia2 where m: "body ia' = Inr (m, ia2)" by (cases mi) auto
      then have "handle E N now p m h = Inl e" using throws(1) t Some by (simp add: process_def)
      from handle_left_inv [OF L inv decoded_body [OF X Some m] this throws(2)] show ?thesis
        using t Some m by (simp add: process_left_def)
    qed (use t Some inv in \<open>simp add: process_left_def\<close>)
  qed
qed (use inv in \<open>simp add: process_left_def\<close>)

lemma net_step_left_inv:
  assumes L: "leveldb_ok (env_leveldb E)" and X: "big_ok (env_ext E)" and inv: "host_inv E g h" and fresh: "fresh_peer ev h"
    and throws: "net_step E N now ev h = Inl e" "is_std_exception e"
  shows "host_inv E g (net_step_left E N now ev h)"
proof (cases ev)
  case (Ev_accept p ep)
  have "host_inv E g (upd_peer p (\<lambda>_. mk_Peer False ep r) h')" if "RatingManager_get E N ep h = Inr (r, h')" for r h'
  proof (rule new_peer_store)
    have q: "quiet (env_ext E) h h'" using quiet_rating_get [of "env_ext E" h E N ep] that by (simp add: returns_def)
    then show "host_inv E g h'" by (rule quiet_inv [OF _ inv])
    show "p \<notin> set (h_non_handshaked_peers h') \<union> table (h_handshaked_peers h')" using fresh Ev_accept q by (simp add: quiet_def)
  qed (simp add: mk_Peer_def)
  then show ?thesis using inv Ev_accept by (auto simp: onAccept_left_def split: sum.splits)
next
  case (Ev_connected p ep session_ep)
  let ?h = "h\<lparr>h_connector_in_process := h_connector_in_process h - {ep}\<rparr>"
  have "host_inv E g (setServerEndpoint p session_ep (upd_peer p (\<lambda>_. mk_Peer True session_ep r) h'))"
    if "RatingManager_get E N session_ep ?h = Inr (r, h')" for r h'
  proof -
    have q: "quiet (env_ext E) h h'"
      using quiet_rating_get [of "env_ext E" ?h E N session_ep] that quiet_trans [OF quiet_db(2)] by (auto simp: returns_def)
    then have h': "host_inv E g h'" "p \<notin> set (h_non_handshaked_peers h') \<union> table (h_handshaked_peers h')"
      using quiet_inv [OF _ inv] fresh Ev_connected by (simp_all add: quiet_def)
    then show ?thesis
      using new_peer_store [of E g h' p "(mk_Peer True session_ep r)\<lparr>pr_endpoint_for_incoming_connections := Some session_ep\<rparr>"]
      by (simp add: setServerEndpoint_def upd_peer_def mk_Peer_def)
  qed
  moreover have "host_inv E g ?h" by (rule quiet_inv [OF quiet_db(2) inv])
  ultimately show ?thesis using Ev_connected by (auto simp: on_connect_left_def Let_def split: sum.splits)
next
  case (Ev_receive p data)
  let ?h = "upd_peer p (\<lambda>x. x\<lparr>pr_last_seen := now\<rparr>) h"
  have "quiet (env_ext E) h ?h" by (rule quiet_upd) (simp_all add: ident_def)
  then have h: "host_inv E g ?h" by (rule quiet_inv [OF _ inv])
  have "host_inv E g (process_left E N now p ia ?h)" if "process E N now p ia ?h = Inl e" for ia
    by (rule process_left_inv [OF L X h that throws(2)])
  then show ?thesis using inv h throws(1) Ev_receive
    by (auto simp: onMessageReceive_left_def onMessageReceive_def rbind_def split: sum.splits if_splits)
qed (use throws in \<open>simp_all split: if_splits\<close>)

text \<open>
  The runs of a host: from a freshly constructed one over a reachable core and an open database of
  ratings, any events in any order. When the handler of an event throws an exception, the node
  goes on with what the handler left behind. A failed assertion and undefined behaviour (the use
  of an empty optional) are not exceptions; nothing is said of what comes after them.
\<close>

inductive host_reachable :: "'s node_env \<Rightarrow> net_ext \<Rightarrow> iblock \<Rightarrow> 's host \<Rightarrow> bool" for E N g where
  host_start: "core_reachable E g c \<Longrightarrow> wf_address (core_this_node_address c) \<Longrightarrow> (\<And>q. pr_sync_blocks (S q) = []) \<Longrightarrow>
     db_inited db \<Longrightarrow> host_reachable E N g (mk_Host ip port db S c)"
| host_event: "host_reachable E N g h \<Longrightarrow> fresh_peer ev h \<Longrightarrow> net_step E N now ev h = Inr h' \<Longrightarrow> host_reachable E N g h'"
| host_throws: "host_reachable E N g h \<Longrightarrow> fresh_peer ev h \<Longrightarrow> net_step E N now ev h = Inl e \<Longrightarrow> is_std_exception e \<Longrightarrow>
     host_reachable E N g (net_step_left E N now ev h)"

lemma host_reachable_inv:
  assumes "leveldb_ok (env_leveldb E)" and "big_ok (env_ext E)" and "host_reachable E N g h"
  shows "host_inv E g h"
  using assms(3)
proof (induction rule: host_reachable.induct)
  case (host_start c S db ip port)
  moreover have "table (mk_KademliaPeerPool a) = {}" for a
    by (simp add: table_def mk_KademliaPeerPool_def)
  moreover have "kd_host_address (mk_KademliaPeerPool a) = a" for a by (simp add: mk_KademliaPeerPool_def)
  ultimately show ?case by (simp add: host_inv_def mk_Host_def core_reachable_inv [OF assms(1)] kademlia_inv_empty)
next
  case (host_event h ev now h')
  then show ?case using net_step_inv [OF assms(2), of g h ev N now] by (simp add: returns_def)
next
  case (host_throws h ev now e)
  then show ?case using net_step_left_inv [OF assms(1,2)] by blast
qed

text \<open>The rating of an endpoint that the database does not know.\<close>

lemma mk_Rating_new:
  assumes "leveldb_ok L" and "db_inited db" and "db_lookup L db (toBytes (serialize_endpoint N) ep) = None"
  obtains db' where "mk_Rating N L ep db = Inr (\<lparr>rt_serialized_ep = toBytes (serialize_endpoint N) ep, rt_value = 20, rt_ts = 0\<rparr>, db')"
    and "db_inited db'"
proof -
  let ?r = "\<lparr>rt_serialized_ep = toBytes (serialize_endpoint N) ep, rt_value = 20, rt_ts = 0\<rparr>"
  obtain db' where "db_put L db (toBytes (serialize_endpoint N) ep) (toBytes serialize_rating_data (20, 0)) = Inr db'" "db_inited db'"
    using db_put_lookup [OF assms(1,2)] by blast
  then show ?thesis using that assms(2,3)
    by (simp add: mk_Rating_def Let_def db_get_lookup dbUpdate_def INITIAL_PEER_RATING_def)
qed

lemma isGood_initial [simp]: "isGood \<lparr>rt_serialized_ep = k, rt_value = 20, rt_ts = t\<rparr>"
  by (simp add: isGood_def)

section \<open>Properties\<close>

text \<open>
  C5: no sequence of network events, whatever bytes the peers send, breaks the host, and neither
  does an exception of a handler, from whose half-changed state the node goes on: every
  bucket of the table holds at most ten peers, a peer sits in the bucket of its address and never
  has the address of the node itself, no two peers share an endpoint, a peer is in at most one of
  the two pools, the chain is one the node could have built from its genesis block, and the
  pool of transactions has no duplicates. The disk works; what follows a failed assertion or
  the use of an empty optional, which are no exceptions, is not covered.
\<close>

theorem network_keeps_invariants:
  assumes "leveldb_ok (env_leveldb E)" and "big_ok (env_ext E)" and "host_reachable E N g h"
  shows "(\<forall>i < 160. length (kd_buckets (h_handshaked_peers h) ! i) \<le> 10
        \<and> (\<forall>p\<in>set (kd_buckets (h_handshaked_peers h) ! i).
             calcBucketIndex (h_handshaked_peers h) (pr_address (peer_at h p)) = Inr i
             \<and> pr_address (peer_at h p) \<noteq> core_this_node_address (h_core h)))
    \<and> distinct (map (\<lambda>p. pr_endpoint (peer_at h p)) (concat (kd_buckets (h_handshaked_peers h))))
    \<and> set (h_non_handshaked_peers h) \<inter> set (concat (kd_buckets (h_handshaked_peers h))) = {}
    \<and> pb_reachable (env_ext E) (env_leveldb E) g (core_blockchain (h_core h))
    \<and> no_dups (core_pending_transactions (h_core h))"
proof -
  have inv: "host_inv E g h" by (rule host_reachable_inv [OF assms])
  let ?k = "h_handshaked_peers h"
  have bl: "length (kd_buckets ?k) = 160" using inv by (simp add: host_inv_def kademlia_inv_def LENGTH_IN_BYTES_def)
  have bucket: "length (kd_buckets ?k ! i) \<le> 10"
    "\<And>p. p \<in> set (kd_buckets ?k ! i) \<Longrightarrow> calcBucketIndex ?k (pr_address (peer_at h p)) = Inr i" if "i < 160" for i
    using inv that bl by (simp_all add: host_inv_def kademlia_inv_def MAX_BUCKET_SIZE_def)
  have own: "pr_address (peer_at h p) \<noteq> core_this_node_address (h_core h)" if "i < 160" "p \<in> set (kd_buckets ?k ! i)" for i p
  proof
    assume "pr_address (peer_at h p) = core_this_node_address (h_core h)"
    then have "calcDifference (kd_host_address ?k) (kd_host_address ?k) = Inr i"
      using bucket(2) [OF that] inv by (simp add: host_inv_def calcBucketIndex_def)
    moreover have "length (kd_host_address ?k) = LENGTH_IN_BYTES" using inv by (simp add: host_inv_def wf_address_def)
    then obtain n where "calcDifference (kd_host_address ?k) (kd_host_address ?k) = Inr n" "n = LENGTH_IN_BYTES * 8"
      by (metis calcDifference_prefix)
    ultimately show False using that(1) by (simp add: LENGTH_IN_BYTES_def)
  qed
  show ?thesis using bucket own inv by (simp add: host_inv_def core_inv_def kademlia_inv_def table_def)
qed

lemma has_endpoint_empty:
  assumes "p \<in> set ps" and "pr_endpoint_for_incoming_connections (S p) = None"
  shows "has_endpoint S ep ps = Inl EmptyOptional"
  using assms
proof (induction ps)
  case (Cons q ps)
  then show ?case by (cases "pr_endpoint_for_incoming_connections (S q)") (auto simp: getPublicEndpoint_def)
qed simp

lemma admit_peer_ident:
  assumes "admit_peer X N p rating h = Inr h'"
  shows "ident (peer_at h' p) = ident (peer_at h p)"
proof (cases "isGood rating")
  case True
  then obtain pool where "h' = startSession X N p (h\<lparr>h_non_handshaked_peers := pool\<rparr>)"
    using assms by (auto simp: admit_peer_def split: prod.splits if_splits)
  then show ?thesis using quiet_startSession [of X "h\<lparr>h_non_handshaked_peers := pool\<rparr>" X N p] by (simp add: quiet_def)
next
  case False
  then have "h' = endSession X N p (CannotAccept NOT_AVAILABLE []) h" using assms by (simp add: admit_peer_def)
  then show ?thesis by (simp add: endSession_def upd_peer_def detachFromPools_def)
qed

text \<open>
  A peer that has connected and not yet introduced itself has no public endpoint, and looking
  for a connection to any endpoint reads the endpoint of every such peer: from the acceptance of
  a connection until its handshake, every attempt to check out another peer dereferences an
  empty optional.
\<close>

theorem accepted_peer_blocks_lookup:
  assumes "onAccept E N p ep h = Inr h'" and "p \<in> set (h_non_handshaked_peers h')"
    and "address \<noteq> core_this_node_address (h_core h')" and "other \<noteq> h_listen_ip h'"
  shows "checkOutPeer E N other address h' = Inl EmptyOptional"
proof -
  obtain rating h1 where "accepted (env_ext E) N p ep rating h1 = Inr h'"
    using assms(1) by (auto simp: onAccept_def rbind_eq_Inr)
  then have "pr_endpoint_for_incoming_connections (peer_at h' p) = None"
    using admit_peer_ident [of "env_ext E" N p rating "upd_peer p (\<lambda>_. mk_Peer False ep rating) h1" h']
    by (simp add: accepted_def ident_def upd_peer_def mk_Peer_def)
  then show ?thesis using assms(2-4) has_endpoint_empty [of p "h_non_handshaked_peers h'" "h_peers h'" other]
    by (simp add: checkOutPeer_def isConnectedTo_def)
qed

section \<open>Examples\<close>

definition demo_host :: "(string \<rightharpoonup> string) core \<Rightarrow> (string \<rightharpoonup> string) host" where
  "demo_host c = mk_Host \<lparr>ep_address = 1, ep_port = 1\<rparr> 1 \<lparr>db_inited = True, db_handle = (\<lambda>_. None)\<rparr> (\<lambda>n. demo_peer n address_null) c"

lemma demo_host_reachable: "core_reachable demo_env g c \<Longrightarrow> wf_address (core_this_node_address c) \<Longrightarrow> host_reachable demo_env N g (demo_host c)"
  unfolding demo_host_def by (rule host_start) (simp_all add: demo_peer_def)

definition demo_core_on :: "blockchain \<Rightarrow> (string \<rightharpoonup> string) core" where
  "demo_core_on bc = demo_core demo_accounts\<lparr>core_blockchain := \<lparr>pb_chain = bc, pb_database = \<lparr>db_inited = True, db_handle = (\<lambda>_. None)\<rparr>\<rparr>\<rparr>"

lemma demo_core_on_facts [simp]:
  "core_this_node_address (demo_core_on bc) = address_null" "core_state_manager (demo_core_on bc) = demo_accounts"
  "core_blockchain (demo_core_on bc) = \<lparr>pb_chain = bc, pb_database = \<lparr>db_inited = True, db_handle = (\<lambda>_. None)\<rparr>\<rparr>"
  by (simp_all add: demo_core_on_def demo_core_def)

lemma demo_core_reachable: "mk_Blockchain g = Inr bc \<Longrightarrow> core_reachable demo_env g (demo_core_on bc)"
  by (rule core_start) (auto simp: db_lookup_def map_leveldb_def demo_env_def demo_core_on_def demo_core_def)

lemma demo_accept:
  assumes "core_this_node_address c = address_null"
  obtains h' where "onAccept demo_env N 7 \<lparr>ep_address = 9, ep_port = 9\<rparr> (demo_host c) = Inr h'" and "h_non_handshaked_peers h' = [7]"
    and "h_core h' = c" and "h_listen_ip h' = \<lparr>ep_address = 1, ep_port = 1\<rparr>" and "fresh_peer (Ev_accept 7 \<lparr>ep_address = 9, ep_port = 9\<rparr>) (demo_host c)"
    and "\<not> isSessionClosed (peer_at h' 7)"
proof -
  let ?ep = "\<lparr>ep_address = 9, ep_port = 9\<rparr>"
  obtain db' where "mk_Rating N map_leveldb ?ep (h_rating_db (demo_host c))
      = Inr (\<lparr>rt_serialized_ep = toBytes (serialize_endpoint N) ?ep, rt_value = 20, rt_ts = 0\<rparr>, db')"
    by (rule mk_Rating_new [OF leveldb_ok_map, of "h_rating_db (demo_host c)" N ?ep])
      (simp_all add: demo_host_def mk_Host_def db_lookup_def map_leveldb_def)
  then show ?thesis using that
    by (simp add: onAccept_def RatingManager_get_def demo_env_def accepted_def admit_peer_def demo_host_def mk_Host_def upd_peer_def
        basic_tryAddPeer_def startSession_def mk_Peer_def table_def mk_KademliaPeerPool_def isSessionClosed_def open_connection_def)
qed

theorem network_keeps_invariants_witness:
  "\<exists>g h. host_reachable demo_env demo_net g h \<and> h_non_handshaked_peers h = [7]
     \<and> pb_reachable demo_ext map_leveldb g (core_blockchain (h_core h))"
proof -
  obtain bc where "mk_Blockchain (demo_block []) = Inr bc" using mk_Blockchain_total by blast
  note c = demo_core_reachable [OF this] demo_core_on_facts(1) [of bc]
  obtain h' where h': "onAccept demo_env demo_net 7 \<lparr>ep_address = 9, ep_port = 9\<rparr> (demo_host (demo_core_on bc)) = Inr h'" "h_non_handshaked_peers h' = [7]"
    "fresh_peer (Ev_accept 7 \<lparr>ep_address = 9, ep_port = 9\<rparr>) (demo_host (demo_core_on bc))"
    by (rule demo_accept [OF c(2), of demo_net]) blast
  have "host_reachable demo_env demo_net (demo_block []) h'"
    by (rule host_event [OF demo_host_reachable [OF c(1)] h'(3)]) (simp_all add: c(2) h'(1))
  moreover have "big_ok (env_ext demo_env)" "leveldb_ok (env_leveldb demo_env)" using demo_ext_ok(2) leveldb_ok_map by (simp_all add: demo_env_def)
  ultimately show ?thesis using network_keeps_invariants [of demo_env demo_net "demo_block []" h'] h'(2) by (auto simp: demo_env_def)
qed

theorem accepted_peer_blocks_lookup_witness:
  "\<exists>h'. onAccept demo_env demo_net 7 \<lparr>ep_address = 9, ep_port = 9\<rparr> (demo_host (demo_core demo_accounts)) = Inr h'
     \<and> checkOutPeer demo_env demo_net \<lparr>ep_address = 5, ep_port = 5\<rparr> (replicate 20 1) h' = Inl EmptyOptional"
proof -
  have a: "core_this_node_address (demo_core demo_accounts) = address_null" by (simp add: demo_core_def)
  obtain h' where h': "onAccept demo_env demo_net 7 \<lparr>ep_address = 9, ep_port = 9\<rparr> (demo_host (demo_core demo_accounts)) = Inr h'"
    "h_non_handshaked_peers h' = [7]" "h_core h' = demo_core demo_accounts" "h_listen_ip h' = \<lparr>ep_address = 1, ep_port = 1\<rparr>"
    by (rule demo_accept [OF a, of demo_net]) blast
  from accepted_peer_blocks_lookup [OF h'(1), of "replicate 20 1" "\<lparr>ep_address = 5, ep_port = 5\<rparr>"] h' a show ?thesis
    by (simp add: address_null_def LENGTH_IN_BYTES_def)
qed

end
