(* ===== verification/Miner.thy ===== *)
theory Miner
  imports Admission
begin

text \<open>
  The miner of \<^verbatim>\<open>src/node/miner.{hpp,cpp}\<close>: the state shared by the controlling thread and the
  workers, the loop of a worker as a program counter with its local variables, and the steps of
  the whole system, in which every critical section and every test of the version is one step
  and the threads interleave freely. The seed of a worker's nonces is an argument. Then the
  handlers of \<^verbatim>\<open>src/node/node.cpp\<close> that join the miner to the core.
\<close>

section \<open>The shared state\<close>

datatype mtask = NONE | DROP_JOB | FIND_NONCE | EXIT

record common_data =
  cd_task :: mtask
  cd_block_to_mine :: "mblock option"
  cd_complexity :: "complexity option"

text \<open>The calls of the handler are recorded in the order in which the lock was taken for them.\<close>

record common_state =
  cs_version :: "64 word"
  cs_common_data :: common_data
  cs_handled :: "iblock list"

definition mk_CommonState :: "common_data \<Rightarrow> common_state" where
  "mk_CommonState initial_state = \<lparr>cs_version = 0, cs_common_data = initial_state, cs_handled = []\<rparr>"

definition setCommonData :: "common_data \<Rightarrow> common_state \<Rightarrow> common_state" where
  "setCommonData data cs = cs\<lparr>cs_version := cs_version cs + 1, cs_common_data := data\<rparr>"

definition callHandlerAndDrop :: "iblock \<Rightarrow> common_state \<Rightarrow> common_state" where
  "callHandlerAndDrop block cs =
     (if cd_task (cs_common_data cs) \<noteq> FIND_NONCE then cs
      else cs\<lparr>cs_version := cs_version cs + 1,
              cs_common_data := \<lparr>cd_task = DROP_JOB, cd_block_to_mine = None, cd_complexity = None\<rparr>,
              cs_handled := cs_handled cs @ [block]\<rparr>)"

text \<open>\<open>None\<close>: the thread goes on waiting.\<close>

definition waitAndReadNewData :: "64 word \<Rightarrow> common_state \<Rightarrow> (64 word \<times> common_data) option" where
  "waitAndReadNewData last_read_version cs =
     (if cs_version cs \<noteq> last_read_version then Some (cs_version cs, cs_common_data cs) else None)"

definition findNonce :: "mblock \<Rightarrow> complexity \<Rightarrow> common_state \<Rightarrow> common_state" where
  "findNonce block_without_nonce complexity =
     setCommonData \<lparr>cd_task = FIND_NONCE, cd_block_to_mine = Some block_without_nonce, cd_complexity = Some complexity\<rparr>"

definition dropJob :: "common_state \<Rightarrow> common_state" where
  "dropJob = setCommonData \<lparr>cd_task = NONE, cd_block_to_mine = None, cd_complexity = None\<rparr>"

definition miner_stop :: "common_state \<Rightarrow> common_state" where
  "miner_stop = setCommonData \<lparr>cd_task = EXIT, cd_block_to_mine = None, cd_complexity = None\<rparr>"

section \<open>A worker\<close>

text \<open>
  \<open>Reading\<close> is the wait at the head of the loop, \<open>Checking n\<close> the test of the version before
  nonce \<open>n\<close> is tried, \<open>Reporting b n\<close> the call of the handler for a block found before.
\<close>

datatype worker_pc = Reading | Checking nonce | Reporting iblock nonce | Stopped

record worker =
  w_pc :: worker_pc
  w_last_read_version :: "64 word"
  w_data :: common_data

definition worker_read :: "nonce \<Rightarrow> common_state \<Rightarrow> worker \<Rightarrow> worker res option" where
  "worker_read seed cs w =
     map_option (\<lambda>(version, data).
       (let w = w\<lparr>w_last_read_version := version, w_data := data\<rparr> in
        case cd_task data of
          NONE \<Rightarrow> Inr w
        | EXIT \<Rightarrow> Inr (w\<lparr>w_pc := Stopped\<rparr>)
        | DROP_JOB \<Rightarrow> Inr w
        | FIND_NONCE \<Rightarrow> assert_that (cd_block_to_mine data \<noteq> None)
            (assert_that (cd_complexity data \<noteq> None) (Inr (w\<lparr>w_pc := Checking seed\<rparr>)))))
     (waitAndReadNewData (w_last_read_version w) cs)"

definition worker_try :: "ext \<Rightarrow> nonce \<Rightarrow> common_state \<Rightarrow> worker \<Rightarrow> worker res" where
  "worker_try X attempting_nonce cs w =
     (if w_last_read_version w \<noteq> cs_version cs then Inr (w\<lparr>w_pc := Reading\<rparr>)
      else case (cd_block_to_mine (w_data w), cd_complexity (w_data w)) of
        (Some b, Some complexity) \<Rightarrow>
          (let b = mblock_setNonce attempting_nonce b;
               w = w\<lparr>w_data := (w_data w)\<lparr>cd_block_to_mine := Some b\<rparr>\<rparr>
           in if bytes_less (sha256_compute X (toBytes (serialize_mblock X) b)) (cx_comparer complexity)
              then rbind (buildImmutable X (initFromBlock b builder_null)) (\<lambda>block.
                     Inr (w\<lparr>w_pc := Reporting block (attempting_nonce + 1)\<rparr>))
              else Inr (w\<lparr>w_pc := Checking (attempting_nonce + 1)\<rparr>))
      | _ \<Rightarrow> Inl EmptyOptional)"

fun worker_step :: "ext \<Rightarrow> nonce \<Rightarrow> common_state \<Rightarrow> worker \<Rightarrow> (common_state \<times> worker) res option" where
  "worker_step X seed cs w =
     (case w_pc w of
        Reading \<Rightarrow> map_option (\<lambda>r. rbind r (\<lambda>w. Inr (cs, w))) (worker_read seed cs w)
      | Checking n \<Rightarrow> Some (rbind (worker_try X n cs w) (\<lambda>w. Inr (cs, w)))
      | Reporting b n \<Rightarrow> Some (Inr (callHandlerAndDrop b cs, w\<lparr>w_pc := Checking n\<rparr>))
      | Stopped \<Rightarrow> None)"

section \<open>The system\<close>

record miner_sys =
  sys_common :: common_state
  sys_workers :: "worker list"
  sys_jobs :: "(mblock \<times> complexity) list"

definition mk_Miner :: "nat \<Rightarrow> miner_sys" where
  "mk_Miner num_threads =
     (let data = \<lparr>cd_task = NONE, cd_block_to_mine = None, cd_complexity = None\<rparr> in
      \<lparr>sys_common = mk_CommonState data,
       sys_workers = replicate num_threads \<lparr>w_pc = Reading, w_last_read_version = 0, w_data = data\<rparr>,
       sys_jobs = []\<rparr>)"

inductive miner_step :: "ext \<Rightarrow> miner_sys \<Rightarrow> miner_sys \<Rightarrow> bool" for X where
  step_findNonce: "miner_step X s (s\<lparr>sys_common := findNonce b cx (sys_common s), sys_jobs := sys_jobs s @ [(b, cx)]\<rparr>)"
| step_dropJob: "miner_step X s (s\<lparr>sys_common := dropJob (sys_common s)\<rparr>)"
| step_stop: "miner_step X s (s\<lparr>sys_common := miner_stop (sys_common s)\<rparr>)"
| step_worker: "i < length (sys_workers s) \<Longrightarrow> worker_step X seed (sys_common s) (sys_workers s ! i) = Some (Inr (cs, w)) \<Longrightarrow>
     miner_step X s (s\<lparr>sys_common := cs, sys_workers := (sys_workers s)[i := w]\<rparr>)"

inductive miner_reachable :: "ext \<Rightarrow> nat \<Rightarrow> miner_sys \<Rightarrow> bool" for X n where
  miner_start: "miner_reachable X n (mk_Miner n)"
| miner_next: "miner_reachable X n s \<Longrightarrow> miner_step X s s' \<Longrightarrow> miner_reachable X n s'"

section \<open>The handlers of the node\<close>

record 's node =
  node_core :: "'s core"
  node_miner :: common_state

definition give_job :: "'s node_env \<Rightarrow> time \<Rightarrow> 's node \<Rightarrow> 's node res" where
  "give_job E now nd =
     rbind (getMiningData E now (node_core nd)) (\<lambda>(block, complexity).
     if \<not> txset_isEmpty (blk_txs block) then Inr (nd\<lparr>node_miner := findNonce block complexity (node_miner nd)\<rparr>)
     else Inr (nd\<lparr>node_miner := dropJob (node_miner nd)\<rparr>))"

definition onNewTransactionReceived :: "'s node_env \<Rightarrow> time \<Rightarrow> transaction \<Rightarrow> 's node \<Rightarrow> 's node res" where
  "onNewTransactionReceived E now tx nd = give_job E now nd"

definition onNewBlock :: "'s node_env \<Rightarrow> time \<Rightarrow> iblock \<Rightarrow> 's node \<Rightarrow> 's node res" where
  "onNewBlock E now block nd = give_job E now nd"

text \<open>Of the events of the core the node is subscribed to new pending transactions and added blocks.\<close>

fun node_dispatch :: "'s node_env \<Rightarrow> time \<Rightarrow> core_event list \<Rightarrow> 's node \<Rightarrow> 's node res" where
  "node_dispatch E now [] nd = Inr nd"
| "node_dispatch E now (Event_new_pending_transaction tx # es) nd =
     rbind (onNewTransactionReceived E now tx nd) (node_dispatch E now es)"
| "node_dispatch E now (Event_block_added b # es) nd = rbind (onNewBlock E now b nd) (node_dispatch E now es)"
| "node_dispatch E now (Event_block_mined b # es) nd = node_dispatch E now es nd"

definition onBlockMine :: "'s node_env \<Rightarrow> time \<Rightarrow> iblock \<Rightarrow> 's node \<Rightarrow> 's node res" where
  "onBlockMine E now block nd =
     rbind (core_tryAddMinedBlock E now block (node_core nd)) (\<lambda>(r, c).
     node_dispatch E now (drop (length (core_events (node_core nd))) (core_events c)) (nd\<lparr>node_core := c\<rparr>))"

definition pushTransaction :: "'s node_env \<Rightarrow> time \<Rightarrow> transaction \<Rightarrow> 's node \<Rightarrow> (tx_status \<times> 's node) res" where
  "pushTransaction E now tx nd =
     rbind (addPendingTransaction E tx (node_core nd)) (\<lambda>(st, c).
     rbind (node_dispatch E now (drop (length (core_events (node_core nd))) (core_events c)) (nd\<lparr>node_core := c\<rparr>)) (\<lambda>nd.
     Inr (st, nd)))"

section \<open>Blocks that were worked for\<close>

definition solves :: "ext \<Rightarrow> mblock \<Rightarrow> complexity \<Rightarrow> nonce \<Rightarrow> bool" where
  "solves X b cx n \<longleftrightarrow> bytes_less (computeThisBlockHash X (mblock_setNonce n b)) (cx_comparer cx)"

definition mined_block :: "ext \<Rightarrow> mblock \<Rightarrow> nonce \<Rightarrow> iblock" where
  "mined_block X b n = mk_ImmutableBlock X (blk_depth b) n (blk_prev_block_hash b) (blk_timestamp b) (blk_coinbase b) (blk_txs b)"

definition mined_for :: "ext \<Rightarrow> (mblock \<times> complexity) list \<Rightarrow> iblock \<Rightarrow> bool" where
  "mined_for X jobs ib \<longleftrightarrow> (\<exists>b cx n. (b, cx) \<in> set jobs \<and> solves X b cx n \<and> ib = mined_block X b n)"

lemma setNonce_setNonce [simp]: "mblock_setNonce n (mblock_setNonce m b) = mblock_setNonce n b"
  by (simp add: mblock_setNonce_def)

lemma hash_of_template: "sha256_compute X (toBytes (serialize_mblock X) b) = computeThisBlockHash X b"
  by (simp add: computeThisBlockHash_def toBytes_def)

lemma build_template: "buildImmutable X (initFromBlock (mblock_setNonce n b) builder_null) = Inr (mined_block X b n)"
  by (simp add: buildImmutable_def raiseIfNotEverythingIsSet_def initFromBlock_def bb_setDepth_def bb_setNonce_def
      bb_setPrevBlockHash_def bb_setTimestamp_def bb_setCoinbase_def bb_setTransactionsSet_def mined_block_def mblock_setNonce_def)

lemma worker_try_eq:
  assumes "cd_block_to_mine (w_data w) = Some b" and "cd_complexity (w_data w) = Some cx"
    and "w_last_read_version w = cs_version cs"
  shows "worker_try X n cs w = Inr (w\<lparr>w_data := (w_data w)\<lparr>cd_block_to_mine := Some (mblock_setNonce n b)\<rparr>,
    w_pc := (if solves X b cx n then Reporting (mined_block X b n) (n + 1) else Checking (n + 1))\<rparr>)"
  using assms by (simp add: worker_try_def solves_def hash_of_template build_template Let_def)

section \<open>The invariant of the miner\<close>

definition job_of :: "(mblock \<times> complexity) list \<Rightarrow> common_data \<Rightarrow> bool" where
  "job_of jobs d \<longleftrightarrow> (\<exists>b cx n. (b, cx) \<in> set jobs \<and> cd_complexity d = Some cx \<and> cd_block_to_mine d = Some (mblock_setNonce n b))"

fun pc_ok :: "ext \<Rightarrow> (mblock \<times> complexity) list \<Rightarrow> common_data \<Rightarrow> worker_pc \<Rightarrow> bool" where
  "pc_ok X jobs d (Checking n) = job_of jobs d"
| "pc_ok X jobs d (Reporting ib n) = (job_of jobs d \<and> mined_for X jobs ib)"
| "pc_ok X jobs d pc = True"

definition miner_inv :: "ext \<Rightarrow> miner_sys \<Rightarrow> bool" where
  "miner_inv X s \<longleftrightarrow>
     (cd_task (cs_common_data (sys_common s)) = FIND_NONCE \<longrightarrow> job_of (sys_jobs s) (cs_common_data (sys_common s)))
   \<and> (\<forall>w\<in>set (sys_workers s). pc_ok X (sys_jobs s) (w_data w) (w_pc w))
   \<and> (\<forall>ib\<in>set (cs_handled (sys_common s)). mined_for X (sys_jobs s) ib)
   \<and> length (cs_handled (sys_common s)) + (if cd_task (cs_common_data (sys_common s)) = FIND_NONCE then 1 else 0)
       \<le> length (sys_jobs s)"

lemma job_of_Some: "job_of jobs d \<Longrightarrow> cd_block_to_mine d \<noteq> None \<and> cd_complexity d \<noteq> None"
  by (auto simp: job_of_def)

lemma job_of_append: "job_of jobs d \<Longrightarrow> job_of (jobs @ js) d"
  by (auto simp: job_of_def)

lemma mined_for_append: "mined_for X jobs ib \<Longrightarrow> mined_for X (jobs @ js) ib"
  by (auto simp: mined_for_def)

lemma pc_ok_append: "pc_ok X jobs d pc \<Longrightarrow> pc_ok X (jobs @ js) d pc"
  by (cases pc) (auto intro: job_of_append mined_for_append)

lemma job_of_new: "job_of (jobs @ [(b, cx)]) \<lparr>cd_task = t, cd_block_to_mine = Some b, cd_complexity = Some cx\<rparr>"
proof -
  have "b = mblock_setNonce (blk_nonce b) b" by (simp add: mblock_setNonce_def)
  then show ?thesis by (auto simp: job_of_def)
qed

text \<open>A step of one worker: no assertion fails, and what it leaves satisfies the invariant.\<close>

lemma worker_read_ok:
  assumes "cd_task (cs_common_data cs) = FIND_NONCE \<longrightarrow> job_of jobs (cs_common_data cs)" and "w_pc w = Reading"
    and "worker_read seed cs w = Some r"
  shows "\<exists>w'. r = Inr w' \<and> pc_ok X jobs (w_data w') (w_pc w')"
  using assms
  by (auto simp: worker_read_def waitAndReadNewData_def assert_that_def Let_def dest: job_of_Some split: if_splits mtask.splits)

lemma worker_try_ok:
  assumes "job_of jobs (w_data w)"
  shows "\<exists>w'. worker_try X n cs w = Inr w' \<and> pc_ok X jobs (w_data w') (w_pc w')"
proof -
  obtain b cx m where d: "(b, cx) \<in> set jobs" "cd_complexity (w_data w) = Some cx"
      "cd_block_to_mine (w_data w) = Some (mblock_setNonce m b)"
    using assms by (auto simp: job_of_def)
  have "mined_block X (mblock_setNonce m b) n = mined_block X b n" by (simp add: mined_block_def mblock_setNonce_def)
  moreover have "solves X (mblock_setNonce m b) cx n = solves X b cx n" by (simp add: solves_def)
  ultimately show ?thesis
    using d worker_try_eq [of w "mblock_setNonce m b" cx cs X n]
    by (cases "w_last_read_version w = cs_version cs")
      (auto simp: job_of_def mined_for_def worker_try_def)
qed

lemma worker_step_ok:
  assumes "miner_inv X s" and "i < length (sys_workers s)"
    and "worker_step X seed (sys_common s) (sys_workers s ! i) = Some r"
  shows "\<exists>cs w. r = Inr (cs, w) \<and> pc_ok X (sys_jobs s) (w_data w) (w_pc w)
    \<and> (cs = sys_common s \<or> (\<exists>ib n. w_pc (sys_workers s ! i) = Reporting ib n \<and> cs = callHandlerAndDrop ib (sys_common s)))"
proof -
  let ?w = "sys_workers s ! i"
  have pc: "pc_ok X (sys_jobs s) (w_data ?w) (w_pc ?w)" using assms(1,2) by (simp add: miner_inv_def)
  show ?thesis
  proof (cases "w_pc ?w")
    case Reading
    then obtain x where x: "worker_read seed (sys_common s) ?w = Some x" and r: "r = rbind x (\<lambda>w. Inr (sys_common s, w))"
      using assms(3) by auto
    have task: "cd_task (cs_common_data (sys_common s)) = FIND_NONCE \<longrightarrow> job_of (sys_jobs s) (cs_common_data (sys_common s))"
      using assms(1) by (simp add: miner_inv_def)
    show ?thesis using worker_read_ok [OF task Reading x, of X] r by auto
  next
    case (Checking n)
    then show ?thesis using worker_try_ok [of "sys_jobs s" ?w X n "sys_common s"] pc assms(3) by auto
  next
    case (Reporting b n)
    then show ?thesis using pc assms(3) by auto
  next
    case Stopped
    then show ?thesis using assms(3) by simp
  qed
qed

lemma miner_inv_handler:
  assumes "miner_inv X s" and "mined_for X (sys_jobs s) ib"
  shows "miner_inv X (s\<lparr>sys_common := callHandlerAndDrop ib (sys_common s)\<rparr>)"
  using assms by (auto simp: miner_inv_def callHandlerAndDrop_def)

lemma miner_inv_worker:
  assumes "miner_inv X s" and "pc_ok X (sys_jobs s) (w_data w) (w_pc w)"
  shows "miner_inv X (s\<lparr>sys_workers := (sys_workers s)[i := w]\<rparr>)"
  using assms set_update_subset_insert [of "sys_workers s" i w] by (auto simp: miner_inv_def)

lemma miner_step_inv: "miner_step X s s' \<Longrightarrow> miner_inv X s \<Longrightarrow> miner_inv X s'"
proof (induction rule: miner_step.induct)
  case (step_findNonce s b cx)
  then show ?case
    by (auto simp: miner_inv_def findNonce_def setCommonData_def job_of_new intro: pc_ok_append mined_for_append)
next
  case (step_worker i s seed cs w)
  then have pc: "pc_ok X (sys_jobs s) (w_data w) (w_pc w)"
    and cs: "cs = sys_common s \<or> (\<exists>ib n. w_pc (sys_workers s ! i) = Reporting ib n \<and> cs = callHandlerAndDrop ib (sys_common s))"
    using worker_step_ok [OF step_worker.prems step_worker.hyps] by auto
  have "pc_ok X (sys_jobs s) (w_data (sys_workers s ! i)) (w_pc (sys_workers s ! i))"
    using step_worker.prems step_worker.hyps(1) by (simp add: miner_inv_def)
  with cs have "cs = sys_common s \<or> (\<exists>ib. mined_for X (sys_jobs s) ib \<and> cs = callHandlerAndDrop ib (sys_common s))" by auto
  then have "miner_inv X (s\<lparr>sys_common := cs\<rparr>)" using miner_inv_handler step_worker.prems by auto
  from miner_inv_worker [OF this, of w i] pc show ?case by simp
qed (auto simp: miner_inv_def dropJob_def miner_stop_def setCommonData_def)

lemma miner_reachable_inv: "miner_reachable X n s \<Longrightarrow> miner_inv X s"
proof (induction rule: miner_reachable.induct)
  case miner_start
  show ?case by (auto simp: miner_inv_def mk_Miner_def mk_CommonState_def Let_def)
qed (rule miner_step_inv)

section \<open>A worker that is not interrupted\<close>

fun run_worker :: "ext \<Rightarrow> nonce \<Rightarrow> nat \<Rightarrow> common_state \<Rightarrow> worker \<Rightarrow> (common_state \<times> worker) res" where
  "run_worker X seed 0 cs w = Inr (cs, w)"
| "run_worker X seed (Suc k) cs w =
     (case worker_step X seed cs w of None \<Rightarrow> Inr (cs, w) | Some r \<Rightarrow> rbind r (\<lambda>(cs, w). run_worker X seed k cs w))"

lemma run_worker_search:
  assumes "w_pc w = Checking n" and "w_last_read_version w = cs_version cs"
    and "cd_block_to_mine (w_data w) = Some b" and "cd_complexity (w_data w) = Some cx"
    and "solves X b cx (n + of_nat k)" and "\<And>j. j < k \<Longrightarrow> \<not> solves X b cx (n + of_nat j)"
  shows "\<exists>w'. run_worker X seed (Suc k) cs w = Inr (cs, w')
    \<and> w_pc w' = Reporting (mined_block X b (n + of_nat k)) (n + of_nat k + 1)"
  using assms
proof (induction k arbitrary: w n b)
  case 0
  then show ?case using worker_try_eq [of w b cx cs X n] by simp
next
  case (Suc k)
  let ?w = "w\<lparr>w_data := (w_data w)\<lparr>cd_block_to_mine := Some (mblock_setNonce n b)\<rparr>, w_pc := Checking (n + 1)\<rparr>"
  let ?b = "mblock_setNonce n b"
  have same: "solves X ?b cx m = solves X b cx m" "mined_block X ?b m = mined_block X b m" for m
    by (simp_all add: solves_def mined_block_def mblock_setNonce_def)
  have no: "\<not> solves X b cx n" using Suc.prems(6) [of 0] by simp
  then have step: "worker_step X seed cs w = Some (Inr (cs, ?w))"
    using worker_try_eq [of w b cx cs X n] Suc.prems(1-4) by simp
  have hit: "solves X ?b cx (n + 1 + of_nat k)" using Suc.prems(5) by (simp add: same add.assoc)
  have miss: "\<not> solves X ?b cx (n + 1 + of_nat j)" if "j < k" for j
    using Suc.prems(6) [of "Suc j"] that by (simp add: same add.assoc)
  have "\<exists>w'. run_worker X seed (Suc k) cs ?w = Inr (cs, w')
      \<and> w_pc w' = Reporting (mined_block X ?b (n + 1 + of_nat k)) (n + 1 + of_nat k + 1)"
    by (rule Suc.IH) (use Suc.prems(2,4) hit miss in simp_all)
  moreover have "run_worker X seed (Suc (Suc k)) cs w = run_worker X seed (Suc k) cs ?w"
    using step by (simp del: worker_step.simps)
  ultimately show ?case by (simp add: same add.assoc add.left_commute del: run_worker.simps)
qed

lemma first_solution:
  assumes "solves X b cx m"
  obtains k where "k < 2 ^ 64" and "solves X b cx (n + of_nat k)" and "\<And>j. j < k \<Longrightarrow> \<not> solves X b cx (n + of_nat j)"
proof -
  define k where "k = (LEAST k. solves X b cx (n + of_nat k))"
  have ex: "solves X b cx (n + of_nat (unat (m - n)))" using assms by simp
  have "k \<le> unat (m - n)" unfolding k_def using ex by (rule Least_le)
  moreover have "unat (m - n) < 2 ^ 64" using unsigned_less [of "m - n", where 'a = nat] by simp
  ultimately have "k < 2 ^ 64" by simp
  moreover have "solves X b cx (n + of_nat k)" unfolding k_def using ex by (rule LeastI)
  moreover have "\<not> solves X b cx (n + of_nat j)" if "j < k" for j using not_less_Least that unfolding k_def by blast
  ultimately show ?thesis using that by blast
qed

lemma run_worker_add:
  "run_worker X seed j cs w = Inr (cs', w') \<Longrightarrow> w_pc w' \<noteq> Stopped \<Longrightarrow>
     worker_step X seed cs' w' = Some (Inr (cs'', w'')) \<Longrightarrow> run_worker X seed (Suc j) cs w = Inr (cs'', w'')"
proof (induction j arbitrary: cs w)
  case (Suc j)
  show ?case
  proof (cases "worker_step X seed cs w")
    case None
    then show ?thesis using Suc.prems by (simp del: worker_step.simps)
  next
    case (Some r)
    then show ?thesis using Suc by (auto simp del: worker_step.simps simp: rbind_eq_Inr)
  qed
qed (simp del: worker_step.simps)

section \<open>From the template to the chain\<close>

lemma mined_block_fields [simp]:
  "blk_depth (mined_block X b n) = blk_depth b" "blk_prev_block_hash (mined_block X b n) = blk_prev_block_hash b"
  "blk_timestamp (mined_block X b n) = blk_timestamp b" "blk_txs (mined_block X b n) = blk_txs b"
  "blk_this_block_hash (mined_block X b n) = computeThisBlockHash X (mblock_setNonce n b)"
  by (simp_all add: mined_block_def mblock_setNonce_def computeThisBlockHash_fields)
    (simp add: computeThisBlockHash_def serialize_mblock_def mk_MutableBlock_def)

lemma valid_chain_depth_bound:
  assumes "valid_chain bs c" and "blk_depth (hd bs) = 0" and "blk_depth (last bs) + 1 \<noteq> 0"
  shows "length bs < 2 ^ 64"
proof -
  have d: "unat (blk_depth (last bs)) + 1 = length bs" "length bs \<le> 2 ^ 64" using valid_chain_last_depth [OF assms(1,2)] by auto
  have "length bs \<noteq> 2 ^ 64"
  proof
    assume "length bs = 2 ^ 64"
    then have "of_nat (unat (blk_depth (last bs)) + 1) = (of_nat (2 ^ 64) :: depth)" using d(1) by simp
    then show False using assms(3) by simp
  qed
  with d(2) show ?thesis by simp
qed

lemma solves_accepted:
  assumes v: "valid_chain bs con" and cx: "cx = con_complexity con" and solves: "solves X b cx n" and X: "hash_ok X"
  shows "checkBlock con (mined_block X b n) \<and> 0 < cx_densed cx"
proof -
  have wf: "wf_complexity cx" using valid_chain_wf [OF v] cx by simp
  have len: "length (computeThisBlockHash X (mblock_setNonce n b)) = 32" using X by (simp add: computeThisBlockHash_def hash_ok_def sha256_compute_def)
  have "nat_of_bytes (computeThisBlockHash X (mblock_setNonce n b)) < cx_densed cx"
    using solves wf len by (simp add: solves_def wf_complexity_def bytes_less_iff_nat_of_bytes)
  then show ?thesis using checkBlock_numeric [of con "mined_block X b n"] wf cx len by simp
qed

lemma template_accepted:
  assumes v: "valid_chain bs con" and X: "hash_ok X" and cx: "cx = con_complexity con" and solves: "solves X b cx n"
    and b: "unat (blk_depth b) = length bs" "blk_prev_block_hash b = blk_this_block_hash (last bs)"
      "blk_txs b \<noteq> []" "length (blk_txs b) \<le> BC_MAX_TRANSACTIONS_IN_BLOCK" "blk_timestamp (last bs) < blk_timestamp b"
      "blk_timestamp b \<le> now + SECONDS_IN_DAY"
    and new: "computeThisBlockHash X (mblock_setNonce n b) \<notin> blk_this_block_hash ` set bs"
  shows "\<exists>bc'. tryAddBlock now (mined_block X b n) (mk_bc (bs, con)) = Inr (ADDED, bc')"
proof -
  let ?ib = "mined_block X b n"
  have acc: "acceptable bs con ?ib"
    using solves_accepted [OF v cx solves X] b new by (simp add: acceptable_def Suc_le_eq)
  have "length (con_last_blocks con) \<le> 2 \<and> (\<forall>x\<in>set (con_last_blocks con). blk_timestamp x < blk_timestamp ?ib)"
    using valid_chain_window [OF v acc] by (simp add: valid_chain_last_blocks [OF v])
  then obtain con' where con': "applyBlock con ?ib = Inr con'"
    using applyBlock_ok [of con ?ib] valid_chain_wf [OF v] solves_accepted [OF v cx solves X] cx by auto
  have "chain_add now ?ib (bs, con) = Inr (ADDED, bs @ [?ib], con')"
    using acceptable_chain_add [OF acc, of now] b(6) con' by simp
  then show ?thesis using tryAddBlock_refines [of bs now ?ib con] v valid_chain_distinct [OF v] by simp
qed

section \<open>Properties\<close>

text \<open>
  C31: safety of the miner under every interleaving of the workers and the controlling thread:
  every block handed to the handler was built from a job that was given and its hash is below
  that job's target, there are never more calls than jobs, and no worker fails an assertion.
\<close>

theorem miner_safety:
  assumes "miner_reachable X n s"
  shows "(\<forall>ib\<in>set (cs_handled (sys_common s)). \<exists>b cx m. (b, cx) \<in> set (sys_jobs s) \<and> ib = mined_block X b m
      \<and> bytes_less (blk_this_block_hash ib) (cx_comparer cx))
    \<and> length (cs_handled (sys_common s)) \<le> length (sys_jobs s)
    \<and> (\<forall>i < length (sys_workers s). \<forall>seed e. worker_step X seed (sys_common s) (sys_workers s ! i) \<noteq> Some (Inl e))"
proof (intro conjI)
  note inv = miner_reachable_inv [OF assms]
  show "\<forall>ib\<in>set (cs_handled (sys_common s)). \<exists>b cx m. (b, cx) \<in> set (sys_jobs s) \<and> ib = mined_block X b m
      \<and> bytes_less (blk_this_block_hash ib) (cx_comparer cx)"
    using inv by (fastforce simp: miner_inv_def mined_for_def solves_def)
  show "length (cs_handled (sys_common s)) \<le> length (sys_jobs s)" using inv by (auto simp: miner_inv_def)
  show "\<forall>i < length (sys_workers s). \<forall>seed e. worker_step X seed (sys_common s) (sys_workers s ! i) \<noteq> Some (Inl e)"
    using worker_step_ok [OF inv] by (metis sum.distinct(1))
qed

theorem miner_safety_witness:
  "miner_reachable demo_ext 2 (mk_Miner 2) \<and> length (cs_handled (sys_common (mk_Miner 2))) \<le> length (sys_jobs (mk_Miner 2))"
  using miner_safety [OF miner_start [of demo_ext 2]] miner_start [of demo_ext 2] by blast

text \<open>
  C32: a worker that is not interrupted finds a solution whenever there is one: whatever nonce it
  starts from, after at most 2^64 + 2 steps it has called the handler with a block that solves
  the job and dropped the job.
\<close>

theorem worker_finds_nonce:
  assumes "cd_task (cs_common_data cs) = FIND_NONCE" and "cd_block_to_mine (cs_common_data cs) = Some b"
    and "cd_complexity (cs_common_data cs) = Some cx" and "w_pc w = Reading" and "w_last_read_version w \<noteq> cs_version cs"
    and "bytes_less (computeThisBlockHash X (mblock_setNonce m b)) (cx_comparer cx)"
  shows "\<exists>k n cs' w'. k \<le> 2 ^ 64 + 2 \<and> run_worker X seed k cs w = Inr (cs', w')
    \<and> bytes_less (computeThisBlockHash X (mblock_setNonce n b)) (cx_comparer cx)
    \<and> cs_handled cs' = cs_handled cs @ [mined_block X b n] \<and> cd_task (cs_common_data cs') = DROP_JOB"
proof -
  let ?w = "w\<lparr>w_last_read_version := cs_version cs, w_data := cs_common_data cs, w_pc := Checking seed\<rparr>"
  have read: "worker_step X seed cs w = Some (Inr (cs, ?w))"
    using assms(1-5) by (simp add: worker_read_def waitAndReadNewData_def Let_def assert_that_def)
  have "solves X b cx m" using assms(6) by (simp add: solves_def)
  then obtain k where k: "k < 2 ^ 64" "solves X b cx (seed + of_nat k)" "\<And>j. j < k \<Longrightarrow> \<not> solves X b cx (seed + of_nat j)"
    by (rule first_solution [where n = seed]) blast
  have "\<exists>w'. run_worker X seed (Suc k) cs ?w = Inr (cs, w')
      \<and> w_pc w' = Reporting (mined_block X b (seed + of_nat k)) (seed + of_nat k + 1)"
    by (rule run_worker_search) (use assms(2,3) k(2,3) in simp_all)
  then obtain w' where w': "run_worker X seed (Suc k) cs ?w = Inr (cs, w')"
    "w_pc w' = Reporting (mined_block X b (seed + of_nat k)) (seed + of_nat k + 1)" by blast
  then have "run_worker X seed (Suc (Suc k)) cs w = Inr (cs, w')" using read by (simp del: worker_step.simps)
  moreover have "worker_step X seed cs w' =
      Some (Inr (callHandlerAndDrop (mined_block X b (seed + of_nat k)) cs, w'\<lparr>w_pc := Checking (seed + of_nat k + 1)\<rparr>))"
    using w'(2) by simp
  ultimately have "run_worker X seed (Suc (Suc (Suc k))) cs w =
      Inr (callHandlerAndDrop (mined_block X b (seed + of_nat k)) cs, w'\<lparr>w_pc := Checking (seed + of_nat k + 1)\<rparr>)"
    using run_worker_add w'(2) by fastforce
  then show ?thesis using k(1,2) assms(1)
    by (intro exI [of _ "Suc (Suc (Suc k))"] exI [of _ "seed + of_nat k"]) (auto simp: callHandlerAndDrop_def solves_def)
qed

text \<open>A job that every nonce solves, for the examples.\<close>

definition easy_job :: mblock where
  "easy_job = mk_MutableBlock 1 0 sha256_null 0 address_null []"

definition easy_complexity :: complexity where
  "easy_complexity = \<lparr>cx_densed = 1, cx_comparer = replicate 33 255\<rparr>"

lemma bytes_less_max: "length a < k \<Longrightarrow> bytes_less a (replicate k 255)"
proof (induction a arbitrary: k)
  case Nil
  then show ?case by (cases k) auto
next
  case (Cons x a)
  have "unat x < 256" using unsigned_less [of x, where 'a = nat] by simp
  then have "unat x \<le> 255" by linarith
  then have "x \<le> 255" by (simp add: word_le_nat_alt)
  then show ?case using Cons by (cases k) (auto simp: not_less)
qed

lemma easy_solved: "bytes_less (computeThisBlockHash demo_ext (mblock_setNonce n easy_job)) (cx_comparer easy_complexity)"
  by (simp add: computeThisBlockHash_def sha256_compute_def demo_ext_def easy_complexity_def bytes_less_max)

theorem worker_finds_nonce_witness:
  "\<exists>k n cs' w'. run_worker demo_ext 0 k (findNonce easy_job easy_complexity (sys_common (mk_Miner 1)))
     (hd (sys_workers (mk_Miner 1))) = Inr (cs', w') \<and> cs_handled cs' = [mined_block demo_ext easy_job n]"
proof -
  let ?cs = "findNonce easy_job easy_complexity (sys_common (mk_Miner 1))" and ?w = "hd (sys_workers (mk_Miner 1))"
  have cs: "cd_task (cs_common_data ?cs) = FIND_NONCE" "cd_block_to_mine (cs_common_data ?cs) = Some easy_job"
    "cd_complexity (cs_common_data ?cs) = Some easy_complexity" "w_pc ?w = Reading" "w_last_read_version ?w \<noteq> cs_version ?cs"
    "cs_handled ?cs = []"
    by (simp_all add: findNonce_def setCommonData_def mk_Miner_def mk_CommonState_def Let_def)
  from worker_finds_nonce [OF cs(1-5) easy_solved [of 0], of 0] cs(6) show ?thesis by auto
qed

text \<open>
  The version is tested before, not under, the lock of the handler call: if a new job is
  given while a worker is about to report, the worker hands over the block of the old job and
  drops the new job.
\<close>

theorem stale_report_drops_new_job:
  assumes "miner_reachable X n s" and "i < length (sys_workers s)" and "w_pc (sys_workers s ! i) = Reporting ib m"
  shows "\<exists>s'. miner_reachable X n s' \<and> sys_jobs s' = sys_jobs s @ [(b, cx)]
    \<and> cs_handled (sys_common s') = cs_handled (sys_common s) @ [ib] \<and> cd_task (cs_common_data (sys_common s')) = DROP_JOB
    \<and> (\<exists>b0 cx0 k. (b0, cx0) \<in> set (sys_jobs s) \<and> ib = mined_block X b0 k)"
proof -
  let ?s = "s\<lparr>sys_common := findNonce b cx (sys_common s), sys_jobs := sys_jobs s @ [(b, cx)]\<rparr>"
  let ?w = "(sys_workers s ! i)\<lparr>w_pc := Checking m\<rparr>"
  let ?t = "?s\<lparr>sys_common := callHandlerAndDrop ib (sys_common ?s), sys_workers := (sys_workers ?s)[i := ?w]\<rparr>"
  have "miner_reachable X n ?s" using assms(1) step_findNonce by (rule miner_next)
  moreover have "miner_step X ?s ?t" by (rule step_worker) (use assms(2,3) in simp_all)
  ultimately have "miner_reachable X n ?t" by (rule miner_next)
  moreover have "pc_ok X (sys_jobs s) (w_data (sys_workers s ! i)) (w_pc (sys_workers s ! i))"
    using miner_reachable_inv [OF assms(1)] assms(2) by (simp add: miner_inv_def)
  then have "\<exists>b0 cx0 k. (b0, cx0) \<in> set (sys_jobs s) \<and> ib = mined_block X b0 k"
    using assms(3) by (auto simp: mined_for_def)
  ultimately show ?thesis
    by (intro exI [of _ ?t]) (auto simp: callHandlerAndDrop_def findNonce_def setCommonData_def)
qed

lemma demo_reporting:
  obtains s m where "miner_reachable demo_ext 1 s" and "length (sys_workers s) = 1"
    and "w_pc (sys_workers s ! 0) = Reporting (mined_block demo_ext easy_job 0) m"
proof -
  let ?d = "\<lparr>cd_task = FIND_NONCE, cd_block_to_mine = Some easy_job, cd_complexity = Some easy_complexity\<rparr>"
  let ?cs = "\<lparr>cs_version = 1, cs_common_data = ?d, cs_handled = []\<rparr>"
  let ?w0 = "\<lparr>w_pc = Reading, w_last_read_version = 0, w_data = \<lparr>cd_task = NONE, cd_block_to_mine = None, cd_complexity = None\<rparr>\<rparr>"
  let ?w1 = "\<lparr>w_pc = Checking 0, w_last_read_version = 1, w_data = ?d\<rparr>"
  let ?s = "\<lambda>w. \<lparr>sys_common = ?cs, sys_workers = [w], sys_jobs = [(easy_job, easy_complexity)]\<rparr>"
  obtain w2 where w2: "worker_try demo_ext 0 ?cs ?w1 = Inr w2" "w_pc w2 = Reporting (mined_block demo_ext easy_job 0) 1"
    using worker_try_eq [of ?w1 easy_job easy_complexity ?cs demo_ext 0] easy_solved [of 0] by (simp add: solves_def)
  have "miner_step demo_ext (mk_Miner 1) (?s ?w0)"
    using step_findNonce [of demo_ext "mk_Miner 1" easy_job easy_complexity]
    by (simp add: mk_Miner_def mk_CommonState_def findNonce_def setCommonData_def Let_def)
  moreover have "miner_step demo_ext (?s ?w0) (?s ?w1)"
    using step_worker [of 0 "?s ?w0" demo_ext 0 ?cs ?w1] by (simp add: worker_read_def waitAndReadNewData_def assert_that_def)
  moreover have "miner_step demo_ext (?s ?w1) (?s w2)"
    using step_worker [of 0 "?s ?w1" demo_ext 0 ?cs w2] w2(1) by simp
  ultimately have "miner_reachable demo_ext 1 (?s w2)" by (blast intro: miner_start miner_next)
  then show ?thesis using that [of "?s w2"] w2(2) by simp
qed

theorem stale_report_drops_new_job_witness:
  "\<exists>s' b cx. miner_reachable demo_ext 1 s' \<and> (b, cx) \<in> set (sys_jobs s')
     \<and> cs_handled (sys_common s') \<noteq> [] \<and> cd_task (cs_common_data (sys_common s')) = DROP_JOB"
proof -
  obtain s m where s: "miner_reachable demo_ext 1 s" "length (sys_workers s) = 1"
    "w_pc (sys_workers s ! 0) = Reporting (mined_block demo_ext easy_job 0) m" by (rule demo_reporting)
  obtain s' where s': "miner_reachable demo_ext 1 s'" "sys_jobs s' = sys_jobs s @ [(easy_job, easy_complexity)]"
    "cs_handled (sys_common s') = cs_handled (sys_common s) @ [mined_block demo_ext easy_job 0]"
    "cd_task (cs_common_data (sys_common s')) = DROP_JOB"
    using stale_report_drops_new_job [OF s(1) _ s(3), of easy_job easy_complexity] s(2) by auto
  have "(easy_job, easy_complexity) \<in> set (sys_jobs s')" "cs_handled (sys_common s') \<noteq> []" using s'(2,3) by simp_all
  with s'(1,4) show ?thesis by blast
qed

text \<open>
  C33: mining ends in an accepted block: if the pool is not empty and the clock is past the top
  block, the template of a reachable node completed with any nonce that solves it under the
  current target, and whose hash is new, is accepted by the chain.
\<close>

theorem mined_template_accepted:
  assumes "core_reachable E g c" and "leveldb_ok (env_leveldb E)" and "hash_ok (env_ext E)" and "nth_element_ok (env_nth_element E)"
    and "wf_iblock (env_ext E) g" and "blk_depth g = 0" and "core_pending_transactions c \<noteq> []"
    and "getTopBlock (pb_chain (core_blockchain c)) = Inr tb" and "blk_timestamp tb < now" and "now \<le> now + SECONDS_IN_DAY"
    and "blk_depth tb + 1 \<noteq> 0"
    and "getMiningData E now c = Inr (b, cx)"
    and "bytes_less (computeThisBlockHash (env_ext E) (mblock_setNonce n b)) (cx_comparer cx)"
    and "findBlock (pb_chain (core_blockchain c)) (computeThisBlockHash (env_ext E) (mblock_setNonce n b)) = None"
  shows "\<exists>bc'. tryAddBlock now (mined_block (env_ext E) b n) (pb_chain (core_blockchain c)) = Inr (ADDED, bc')"
proof -
  obtain bs con where inv: "pb_inv (env_ext E) (env_leveldb E) g (core_blockchain c) bs con"
    using pb_reachable_inv [OF assms(2)] core_reachable_inv [OF assms(2,1)] unfolding core_inv_def by blast
  then have v: "valid_chain bs con" and ch: "pb_chain (core_blockchain c) = mk_bc (bs, con)" and hd: "hd bs = g"
    by (auto simp: pb_inv_def)
  have ne: "bs \<noteq> []" using v by simp
  have top: "tb = last bs" using getTopBlockAndComplexity_mk_bc [OF v] assms(8) ch
    by (auto simp: getTopBlockAndComplexity_def rbind_eq_Inr)
  obtain txs rest where t: "getMiningData E now c = Inr (mk_MutableBlock (of_nat (length bs)) 0 (blk_this_block_hash (last bs)) now
       (core_this_node_address c) txs, con_complexity con)" "mset txs + mset rest = mset (core_pending_transactions c)"
    "length txs = min BC_MAX_TRANSACTIONS_IN_BLOCK (length (core_pending_transactions c))"
    by (rule getMiningData_template [OF inv assms(5,6,4), of now]) blast
  then have b: "b = mk_MutableBlock (of_nat (length bs)) 0 (blk_this_block_hash (last bs)) now (core_this_node_address c) txs"
    and cx: "cx = con_complexity con" using assms(12) by auto
  have "length bs < 2 ^ 64" using valid_chain_depth_bound [OF v] hd assms(6,11) top by simp
  then have depth: "unat (blk_depth b) = length bs" by (simp add: b mk_MutableBlock_def unat_of_nat)
  have "0 < BC_MAX_TRANSACTIONS_IN_BLOCK" by (simp add: BC_MAX_TRANSACTIONS_IN_BLOCK_def)
  then have "0 < length txs \<and> length txs \<le> BC_MAX_TRANSACTIONS_IN_BLOCK" unfolding t(3) using assms(7) by simp
  then have txs: "blk_txs b \<noteq> []" "length (blk_txs b) \<le> BC_MAX_TRANSACTIONS_IN_BLOCK"
    by (auto simp: b mk_MutableBlock_def)
  have new: "computeThisBlockHash (env_ext E) (mblock_setNonce n b) \<notin> blk_this_block_hash ` set bs"
    using assms(14) ch by (simp add: findBlock_def mk_bc_def map_of_hashes_None)
  have s: "solves (env_ext E) b cx n" using assms(13) by (simp add: solves_def)
  show ?thesis unfolding ch
    by (rule template_accepted [OF v assms(3) cx s depth _ txs _ _ new]) (use assms(9,10) top in \<open>simp_all add: b mk_MutableBlock_def\<close>)
qed

lemma demo_hash_depth: "\<exists>xs. computeThisBlockHash demo_ext b = serialize_u64 (blk_depth b) [] @ xs"
proof -
  have len: "length (serialize_u64 (blk_depth b) []) = 8"
    by (simp add: serialize_u64_def serialize_int_def serialize_int_on_def to_memory_def)
  obtain r where "serialize_mblock demo_ext b [] = serialize_u64 (blk_depth b) [] @ r"
    by (simp add: serialize_mblock_def block_field_out codec.ser_out [OF codec_txset [OF demo_ext_ok(2)]])
  then show ?thesis using len by (simp add: computeThisBlockHash_def sha256_compute_def demo_ext_def fit_def)
qed

lemma mk_Consensus_target:
  assumes "mk_Consensus = Inr con"
  shows "length (cx_comparer (con_complexity con)) = 32 \<and> nat_of_bytes (cx_comparer (con_complexity con)) = 2 ^ 256 - 1"
proof -
  have "(2 :: nat) ^ 256 - 1 < 2 ^ 256" by simp
  then obtain cx where "mk_Complexity (2 ^ 256 - 1) = Inr cx" "wf_complexity cx" "cx_densed cx = 2 ^ 256 - 1"
    using wf_mk_Complexity by blast
  moreover from this(1) have "con_complexity con = cx" using assms by (auto simp: mk_Consensus_def)
  ultimately show ?thesis unfolding wf_complexity_def by simp
qed

lemma demo_below:
  assumes "computeThisBlockHash demo_ext b = [0, 0, 0, 0, 0, 0, 0, 1] @ xs" and "length cmp = 32" and "nat_of_bytes cmp = 2 ^ 256 - 1"
  shows "bytes_less (computeThisBlockHash demo_ext b) cmp"
proof -
  have len: "length (computeThisBlockHash demo_ext b) = 32"
    by (simp add: computeThisBlockHash_def sha256_compute_def demo_ext_def)
  then have "length xs = 24" using assms(1) by simp
  then have "nat_of_bytes (computeThisBlockHash demo_ext b) < 256 ^ 31"
    using nat_of_bytes_bound [of "[0, 0, 0, 0, 0, 0, 1] @ xs"] unfolding assms(1) by (simp add: nat_of_bytes_Cons)
  then show ?thesis using assms(2,3) len by (simp add: bytes_less_iff_nat_of_bytes)
qed

lemma demo_depths: "serialize_u64 1 [] = [0, 0, 0, 0, 0, 0, 0, 1]" "serialize_u64 0 [] = [0, 0, 0, 0, 0, 0, 0, 0]"
proof -
  have bound: "unat v < 256 ^ 8" for v :: "64 word" using unsigned_less [of v, where 'a = nat] by simp
  have eight: "8 = Suc (Suc (Suc (Suc (Suc (Suc (Suc (Suc 0)))))))" by simp
  have "serialize_u64 v [] = rev (le_bytes 8 (unat v))" for v
    by (simp add: serialize_u64_def serialize_int_def serialize_int_on_big_endian [OF bound])
  then have "serialize_u64 v [] = rev (le_bytes (Suc (Suc (Suc (Suc (Suc (Suc (Suc (Suc 0)))))))) (unat v))" for v
    using eight by metis
  then show "serialize_u64 1 [] = [0, 0, 0, 0, 0, 0, 0, 1]" "serialize_u64 0 [] = [0, 0, 0, 0, 0, 0, 0, 0]" by simp_all
qed

lemma demo_pending:
  obtains g c tx where "core_reachable demo_env g c" and "wf_iblock demo_ext g" and "blk_depth g = 0" and "blk_timestamp g = 0"
    and "core_pending_transactions c = [tx]" and "getTopBlock (pb_chain (core_blockchain c)) = Inr g"
    and "findBlock (pb_chain (core_blockchain c)) = (\<lambda>h. if h = blk_this_block_hash g then Some g else None)"
    and "\<exists>con. mk_Consensus = Inr con \<and> pb_chain (core_blockchain c) = mk_bc ([g], con)"
proof -
  obtain g bc and c :: "(string \<rightharpoonup> string) core" where g: "mk_Blockchain g = Inr bc" "core_reachable demo_env g c" "wf_iblock demo_ext g"
    "findBlock (pb_chain (core_blockchain c)) = (\<lambda>h. if h = blk_this_block_hash g then Some g else None)"
    "blk_timestamp g = 0" "core_state_manager c = demo_accounts" "blk_depth g = 0" "core_pending_transactions c = []"
    "core_findTransaction demo_env c = (\<lambda>_. None)" "getTopBlock (pb_chain (core_blockchain c)) = Inr g"
    "\<exists>con. mk_Consensus = Inr con \<and> pb_chain (core_blockchain c) = mk_bc ([g], con)"
    by (rule demo_start)
  obtain tx where tx: "checkSign (env_ext demo_env) tx = Inr True" "tx_price tx = 20" "tx_from tx = replicate 20 1"
    by (rule demo_signed)
  have "addPendingTransaction demo_env tx c = Inr (mk_TransactionStatus Pending None_action (tx_fee tx) [],
      addTransactionOutput (hashOfTransaction (env_ext demo_env) tx) (mk_TransactionStatus Pending None_action (tx_fee tx) []) (admit tx c))"
    using addPendingTransaction_decision [of tx demo_env c "\<lambda>_. None"] tx g(6,8,9) demo_accounts_facts
    by (simp add: affordable_def refused_by_pending_def calcCost_def txset_find_def Let_def)
  from core_transaction [OF g(2) this] g(3-5,7,8,10,11) that show ?thesis
    by (simp add: admit_def txset_add_def txset_find_def)
qed

theorem mined_template_accepted_witness:
  "\<exists>g c b cx n bc'. core_reachable demo_env g c \<and> getMiningData demo_env 5 c = Inr (b, cx)
     \<and> tryAddBlock 5 (mined_block demo_ext b n) (pb_chain (core_blockchain c)) = Inr (ADDED, bc')"
proof -
  obtain g c tx where g: "core_reachable demo_env g c" "wf_iblock demo_ext g" "blk_depth g = 0" "blk_timestamp g = 0"
    "core_pending_transactions c = [tx]" "getTopBlock (pb_chain (core_blockchain c)) = Inr g"
    "findBlock (pb_chain (core_blockchain c)) = (\<lambda>h. if h = blk_this_block_hash g then Some g else None)"
    "\<exists>con. mk_Consensus = Inr con \<and> pb_chain (core_blockchain c) = mk_bc ([g], con)"
    by (rule demo_pending)
  have ok: "leveldb_ok (env_leveldb demo_env)" "hash_ok (env_ext demo_env)" "nth_element_ok (env_nth_element demo_env)"
    "wf_iblock (env_ext demo_env) g"
    using leveldb_ok_map demo_ext_ok nth_element_ok_sort g(2) by (simp_all add: demo_env_def)
  obtain con where con: "mk_Consensus = Inr con" "pb_chain (core_blockchain c) = mk_bc ([g], con)" using g(8) by blast
  obtain b cx where md: "getMiningData demo_env 5 c = Inr (b, cx)" "blk_depth b = 1" "cx = con_complexity con"
    using getTopBlockAndComplexity_mk_bc [OF valid_genesis [OF con(1)], of g] g(3,5) con(2)
    by (simp add: getMiningData_def BC_MAX_TRANSACTIONS_IN_BLOCK_def buildMutable_def raiseIfNotEverythingIsSet_def
        builder_null_def bb_setDepth_def bb_setNonce_def bb_setPrevBlockHash_def bb_setTimestamp_def bb_setCoinbase_def
        bb_setTransactionsSet_def mk_MutableBlock_def Let_def)
  have cx: "length (cx_comparer cx) = 32" "nat_of_bytes (cx_comparer cx) = 2 ^ 256 - 1"
    using mk_Consensus_target [OF con(1)] md(3) by simp_all
  obtain xs where xs: "computeThisBlockHash demo_ext (mblock_setNonce 0 b) = [0, 0, 0, 0, 0, 0, 0, 1] @ xs"
    using demo_hash_depth [of "mblock_setNonce 0 b"] md(2) demo_depths(1) by (auto simp: mblock_setNonce_def)
  obtain ys where ys: "blk_this_block_hash g = [0, 0, 0, 0, 0, 0, 0, 0] @ ys"
    using demo_hash_depth [of g] g(2,3) demo_depths(2) by (auto simp: wf_iblock_def)
  have less: "bytes_less (computeThisBlockHash (env_ext demo_env) (mblock_setNonce 0 b)) (cx_comparer cx)"
    using demo_below [OF xs] cx by (simp add: demo_env_def)
  have new: "findBlock (pb_chain (core_blockchain c)) (computeThisBlockHash (env_ext demo_env) (mblock_setNonce 0 b)) = None"
    using xs ys g(7) by (simp add: demo_env_def)
  have "\<exists>bc'. tryAddBlock 5 (mined_block (env_ext demo_env) b 0) (pb_chain (core_blockchain c)) = Inr (ADDED, bc')"
    by (rule mined_template_accepted [OF g(1) ok(1-4) g(3) _ g(6) _ _ _ md(1) less new])
      (use g(3-5) in \<open>simp_all add: SECONDS_IN_DAY_def\<close>)
  moreover have "env_ext demo_env = demo_ext" by (simp add: demo_env_def)
  ultimately show ?thesis using g(1) md(1)
    by (intro exI [of _ g] exI [of _ c] exI [of _ b] exI [of _ cx] exI [of _ 0]) simp
qed

text \<open>
  The node gives the miner no new job after a mined block: whatever the outcome, the
  handler of a mined block leaves the shared state of the miner as it found it (the job was
  dropped before), so transactions that are left in the pool wait for the next transaction or
  for a block of a peer. A block of a peer, in contrast, starts a job if the pool is not empty.
\<close>

theorem mined_block_starts_no_job:
  assumes "core_tryAddMinedBlock E now b (node_core nd) = Inr (r, c)"
  shows "onBlockMine E now b nd = Inr (nd\<lparr>node_core := c\<rparr>)
    \<and> (\<forall>t cx. getMiningData E now c = Inr (t, cx) \<longrightarrow> blk_txs t \<noteq> [] \<longrightarrow>
         onNewBlock E now b (nd\<lparr>node_core := c\<rparr>) = Inr (nd\<lparr>node_core := c, node_miner := findNonce t cx (node_miner nd)\<rparr>))"
proof
  obtain c1 where c1: "core_tryAddBlock_locked E now b (node_core nd) = Inr (r, c1)"
    and c: "c = (if r = ADDED then c1\<lparr>core_events := core_events c1 @ [Event_block_mined b]\<rparr> else c1)"
    using assms by (auto simp: core_tryAddMinedBlock_def rbind_eq_Inr split: if_splits)
  have "core_events c1 = core_events (node_core nd)"
    using core_tryAddBlock_locked_cases [OF c1] by (auto split: if_splits)
  then have "drop (length (core_events (node_core nd))) (core_events c) \<in> {[], [Event_block_mined b]}" using c by auto
  then show "onBlockMine E now b nd = Inr (nd\<lparr>node_core := c\<rparr>)" using assms by (auto simp: onBlockMine_def)
  show "\<forall>t cx. getMiningData E now c = Inr (t, cx) \<longrightarrow> blk_txs t \<noteq> [] \<longrightarrow>
         onNewBlock E now b (nd\<lparr>node_core := c\<rparr>) = Inr (nd\<lparr>node_core := c, node_miner := findNonce t cx (node_miner nd)\<rparr>)"
    by (simp add: onNewBlock_def give_job_def txset_isEmpty_def)
qed

theorem mined_block_starts_no_job_witness:
  "\<exists>g c. let nd = \<lparr>node_core = c, node_miner = callHandlerAndDrop g (findNonce easy_job easy_complexity (sys_common (mk_Miner 1)))\<rparr>
     in core_pending_transactions c \<noteq> [] \<and> onBlockMine demo_env 0 g nd = Inr nd \<and> cd_task (cs_common_data (node_miner nd)) = DROP_JOB"
proof -
  obtain g c tx where g: "core_reachable demo_env g c" "wf_iblock demo_ext g" "core_pending_transactions c = [tx]"
    "findBlock (pb_chain (core_blockchain c)) = (\<lambda>h. if h = blk_this_block_hash g then Some g else None)"
    by (rule demo_pending)
  let ?nd = "\<lparr>node_core = c, node_miner = callHandlerAndDrop g (findNonce easy_job easy_complexity (sys_common (mk_Miner 1)))\<rparr>"
  have "core_findBlock c (sha256_compute demo_ext (toBytes (serialize_iblock demo_ext) g)) \<noteq> None"
    using wf_iblock_hash [OF g(2)] g(4) by (simp add: core_findBlock_def)
  then have "core_tryAddMinedBlock demo_env 0 g (node_core ?nd) = Inr (INVALID_TRANSACTIONS, c)"
    by (simp add: core_tryAddMinedBlock_def core_tryAddBlock_locked_def checkBlockTransactions_def Let_def demo_env_def)
  from mined_block_starts_no_job [OF this] g(3) show ?thesis
    by (intro exI [of _ g] exI [of _ c]) (simp add: Let_def callHandlerAndDrop_def findNonce_def setCommonData_def)
qed

end
