(* ===== verification/Sync.thy ===== *)
theory Sync
  imports Protocol Miner
begin

text \<open>
  The initial synchronisation: what a node knows after it has asked a peer for its top block and
  for the parents of every block it received, until a parent is known. The synchronizer needs
  little of the core; the locale \<open>block_sink\<close> states it, and the core of the model satisfies it.
\<close>

section \<open>What the synchronizer needs of a store of blocks\<close>

fun adds_all :: "(iblock \<Rightarrow> 'c \<Rightarrow> (addition_result \<times> 'c) res) \<Rightarrow> iblock list \<Rightarrow> 'c \<Rightarrow> 'c \<Rightarrow> bool" where
  "adds_all add [] c c' = (c' = c)"
| "adds_all add (b # bs) c c' = (\<exists>c1. add b c = Inr (ADDED, c1) \<and> adds_all add bs c1 c')"

locale block_sink =
  fixes find_block :: "'c \<Rightarrow> sha256 \<Rightarrow> iblock option"
    and top_hash :: "'c \<Rightarrow> sha256"
    and add_block :: "iblock \<Rightarrow> 'c \<Rightarrow> (addition_result \<times> 'c) res"
  assumes find_added: "add_block b c = Inr (ADDED, c') \<Longrightarrow> find_block c' = (find_block c)(blk_this_block_hash b \<mapsto> b)"
    and top_added: "add_block b c = Inr (ADDED, c') \<Longrightarrow> top_hash c' = blk_this_block_hash b"
begin

lemma find_adds_all:
  assumes "adds_all add_block bs c c'" and "find_block c h \<noteq> None \<or> h \<in> blk_this_block_hash ` set bs"
  shows "find_block c' h \<noteq> None"
  using assms
proof (induction bs arbitrary: c)
  case (Cons b bs)
  then obtain c1 where c1: "add_block b c = Inr (ADDED, c1)" "adds_all add_block bs c1 c'" by auto
  have "find_block c1 h \<noteq> None \<or> h \<in> blk_this_block_hash ` set bs"
    using Cons.prems(2) find_added [OF c1(1)] by auto
  then show ?case using Cons.IH [OF c1(2)] by simp
qed simp

lemma top_adds_all: "adds_all add_block bs c c' \<Longrightarrow> bs \<noteq> [] \<Longrightarrow> top_hash c' = blk_this_block_hash (last bs)"
proof (induction bs arbitrary: c)
  case (Cons b bs)
  then show ?case using top_added by (cases "bs = []") auto
qed simp

end

lemma tryAddBlock_added:
  assumes "tryAddBlock now b bc = Inr (ADDED, bc')"
  shows "findBlock bc' = (findBlock bc)(blk_this_block_hash b \<mapsto> b) \<and> getTopBlockHash bc' = blk_this_block_hash b"
proof -
  have new: "map_of (bc_blocks bc) (blk_this_block_hash b) = None"
    using assms by (cases "bc_blocks bc") (auto simp: tryAddBlock_def Let_def split: if_splits)
  then have "bc_blocks bc' = bc_blocks bc @ [(blk_this_block_hash b, b)]" "bc_top_level_block_hash bc' = blk_this_block_hash b"
    using assms by (auto simp: tryAddBlock_def rbind_eq_Inr umap_insert_def Let_def split: if_splits)
  then show ?thesis using new by (auto simp: findBlock_def getTopBlockHash_def fun_eq_iff map_add_def split: option.splits)
qed

lemma persistent_added:
  "persistent_tryAddBlock X L now b pb = Inr (ADDED, pb') \<Longrightarrow> tryAddBlock now b (pb_chain pb) = Inr (ADDED, pb_chain pb')"
  by (auto simp: persistent_tryAddBlock_def rbind_eq_Inr split: if_splits)

lemma core_added_chain:
  assumes "core_tryAddBlock E now b c = Inr (ADDED, c')"
  shows "tryAddBlock now b (pb_chain (core_blockchain c)) = Inr (ADDED, pb_chain (core_blockchain c'))"
proof -
  obtain c1 where "core_tryAddBlock_locked E now b c = Inr (ADDED, c1)" "core_blockchain c' = core_blockchain c1"
    using assms by (auto simp: core_tryAddBlock_def rbind_eq_Inr split: if_splits)
  then show ?thesis using core_tryAddBlock_locked_cases [of E now b c ADDED c1] by (auto dest: persistent_added)
qed

lemma core_added:
  assumes "core_tryAddBlock E now b c = Inr (ADDED, c')"
  shows "core_findBlock c' = (core_findBlock c)(blk_this_block_hash b \<mapsto> b)"
    and "getTopBlockHash (pb_chain (core_blockchain c')) = blk_this_block_hash b"
  using tryAddBlock_added [OF core_added_chain [OF assms]] by (auto simp: core_findBlock_def fun_eq_iff)

interpretation core_sink: block_sink core_findBlock "\<lambda>c. getTopBlockHash (pb_chain (core_blockchain c))" "core_tryAddBlock E now" for E now
  by unfold_locales (fact core_added)+

section \<open>Fetching blocks backwards\<close>

text \<open>The blocks a peer holds and this node lacks, from the newest to the one whose parent is known.\<close>

fun fetchable :: "(sha256 \<Rightarrow> iblock option) \<Rightarrow> iblock list \<Rightarrow> bool" where
  "fetchable known [] = False"
| "fetchable known [b] = (blk_prev_block_hash b \<noteq> sha256_null \<and> known (blk_prev_block_hash b) \<noteq> None)"
| "fetchable known (b # b' # bs) = (blk_prev_block_hash b = blk_this_block_hash b' \<and> blk_prev_block_hash b \<noteq> sha256_null
     \<and> known (blk_prev_block_hash b) = None \<and> fetchable known (b' # bs))"

text \<open>The messages with these blocks arrive one after the other.\<close>

fun receive_blocks :: "'s node_env \<Rightarrow> net_ext \<Rightarrow> time \<Rightarrow> ptr \<Rightarrow> iblock list \<Rightarrow> 's host \<Rightarrow> 's host res" where
  "receive_blocks E N now p [] h = Inr h"
| "receive_blocks E N now p (b # bs) h =
     rbind (handle E N now p (Block_msg (blk_this_block_hash b) b) h) (\<lambda>h. receive_blocks E N now p bs h)"

lemma receive_requested:
  assumes "wf_iblock (env_ext E) b" and "pr_requested_block (peer_at h p) = Some (blk_this_block_hash b)"
    and "blk_prev_block_hash b \<noteq> sha256_null"
  shows "handle E N now p (Block_msg (blk_this_block_hash b) b) h =
    (let h = upd_peer p (\<lambda>x. x\<lparr>pr_requested_block := None, pr_sync_blocks := pr_sync_blocks x @ [b]\<rparr>) h in
     if core_findBlock (h_core h) (blk_prev_block_hash b) \<noteq> None then
       rbind (apply_sync_blocks E N now (rev (pr_sync_blocks (peer_at h p))) h) (\<lambda>h.
       Inr (upd_peer p (\<lambda>x. x\<lparr>pr_sync_blocks := []\<rparr>) h))
     else sync_requestBlock (env_ext E) N p (blk_prev_block_hash b) h)"
proof -
  have id: "rbind r (\<lambda>h. Inr h) = r" for r :: "'a host res" by (cases r) auto
  have "rbind (rbind r (\<lambda>h. Inr (True, f h))) (\<lambda>(r, h). Inr h) = rbind r (\<lambda>h. Inr (f h))" for r :: "'a host res" and f :: "'a host \<Rightarrow> 'a host"
    by (cases r) auto
  then show ?thesis using assms(2,3) wf_iblock_hash [OF assms(1)] id
    by (simp add: handle_Block_def handleReceivedBlock_def Let_def)
qed

lemma sent_fields [simp]:
  "pr_requested_block (requests_send X N m cb x) = pr_requested_block x" "pr_state (requests_send X N m cb x) = pr_state x"
  by (simp_all add: requests_send_def split: prod.splits)

lemma receive_blocks_collects:
  assumes "fetchable (core_findBlock (h_core h)) bs" and "list_all (wf_iblock (env_ext E)) bs"
    and "pr_requested_block (peer_at h p) = Some (blk_this_block_hash (hd bs))"
  obtains h1 where "receive_blocks E N now p bs h =
      rbind (apply_sync_blocks E N now (rev (pr_sync_blocks (peer_at h p) @ bs)) h1) (\<lambda>h. Inr (upd_peer p (\<lambda>x. x\<lparr>pr_sync_blocks := []\<rparr>) h))"
    and "h_core h1 = h_core h" and "pr_requested_block (peer_at h1 p) = None" and "pr_state (peer_at h1 p) = pr_state (peer_at h p)"
  using assms
proof (induction bs arbitrary: h thesis rule: fetchable.induct)
  case (2 known b)
  let ?h = "upd_peer p (\<lambda>x. x\<lparr>pr_requested_block := None, pr_sync_blocks := pr_sync_blocks x @ [b]\<rparr>) h"
  have core: "h_core ?h = h_core h" and p: "peer_at ?h p = (peer_at h p)\<lparr>pr_requested_block := None, pr_sync_blocks := pr_sync_blocks (peer_at h p) @ [b]\<rparr>"
    by (simp_all add: upd_peer_def)
  have id: "rbind r (receive_blocks E N now p []) = r" for r by (cases r) simp_all
  have "receive_blocks E N now p [b] h =
      rbind (apply_sync_blocks E N now (rev (pr_sync_blocks (peer_at h p) @ [b])) ?h) (\<lambda>h. Inr (upd_peer p (\<lambda>x. x\<lparr>pr_sync_blocks := []\<rparr>) h))"
    using receive_requested [of E b h p N now] 2(2-4)
    by (simp add: Let_def core p id del: apply_sync_blocks.simps receive_blocks.simps(1) rev_append)
  then show ?case by (rule "2.prems"(1)) (simp_all add: core p)
next
  case (3 known b b' bs)
  let ?h = "upd_peer p (\<lambda>x. x\<lparr>pr_requested_block := None, pr_sync_blocks := pr_sync_blocks x @ [b]\<rparr>) h"
  let ?h' = "upd_peer p (\<lambda>x. x\<lparr>pr_requested_block := Some (blk_this_block_hash b')\<rparr>) (peer_requestBlock (env_ext E) N p (blk_this_block_hash b') ?h)"
  have step: "handle E N now p (Block_msg (blk_this_block_hash b) b) h = Inr ?h'"
  proof -
    have b: "wf_iblock (env_ext E) b" "blk_prev_block_hash b \<noteq> sha256_null" "blk_prev_block_hash b = blk_this_block_hash b'"
      "core_findBlock (h_core ?h) (blk_prev_block_hash b) = None" "pr_requested_block (peer_at ?h p) = None"
      using 3(3,4) by (auto simp: upd_peer_def)
    show ?thesis using receive_requested [OF b(1) _ b(2), of h p N now] 3(5) b(4,5)
      by (simp add: Let_def sync_requestBlock_def b(3))
  qed
  have core: "h_core ?h' = h_core h" and p: "pr_requested_block (peer_at ?h' p) = Some (blk_this_block_hash b')"
    "pr_sync_blocks (peer_at ?h' p) = pr_sync_blocks (peer_at h p) @ [b]" "pr_state (peer_at ?h' p) = pr_state (peer_at h p)"
    by (simp_all add: upd_peer_def peer_requestBlock_def peer_send_def)
  obtain h1 where h1: "receive_blocks E N now p (b' # bs) ?h' =
      rbind (apply_sync_blocks E N now (rev ((pr_sync_blocks (peer_at h p) @ [b]) @ b' # bs)) h1) (\<lambda>h. Inr (upd_peer p (\<lambda>x. x\<lparr>pr_sync_blocks := []\<rparr>) h))"
    "h_core h1 = h_core h" "pr_requested_block (peer_at h1 p) = None" "pr_state (peer_at h1 p) = pr_state (peer_at h p)"
    using "3.IH" [of ?h'] 3(3-5) core p by auto
  show ?case by (rule "3.prems"(1) [OF _ h1(2-4)]) (use h1(1) step in simp)
qed simp

section \<open>Applying the collected blocks\<close>

lemma notified_fields:
  "pr_requested_block (peer_at (core_update X N c h) p) = pr_requested_block (peer_at h p)"
  "pr_state (peer_at (core_update X N c h) p) = pr_state (peer_at h p)"
  "h_core (core_update X N c h) = c"
proof -
  have upd: "P (peer_at (fold (\<lambda>q. upd_peer q (requests_send X N m cb)) ps h') p) = P (peer_at h' p)"
    if "\<And>x. P (requests_send X N m cb x) = P x" for P :: "peer \<Rightarrow> 'b" and m cb ps and h' :: "'a host"
    using that by (induction ps arbitrary: h') (auto simp: upd_peer_def)
  have one_event: "P (peer_at (host_notify X N e h') p) = P (peer_at h' p)"
    if "\<And>m cb x. P (requests_send X N m cb x) = P x" for P :: "peer \<Rightarrow> 'b" and e and h' :: "'a host"
    using upd [of P] that by (cases e) (simp_all add: broadcast_transaction_def broadcastNewBlock_def forEachPeer_def sendTransaction_def sendNewBlock_def)
  have all_events: "P (peer_at (fold (host_notify X N) es h') p) = P (peer_at h' p)"
    if "\<And>m cb x. P (requests_send X N m cb x) = P x" for P :: "peer \<Rightarrow> 'b" and es and h' :: "'a host"
    using one_event [of P] that by (induction es arbitrary: h') simp_all
  show "pr_requested_block (peer_at (core_update X N c h) p) = pr_requested_block (peer_at h p)"
    "pr_state (peer_at (core_update X N c h) p) = pr_state (peer_at h p)"
    unfolding core_update_def by (subst all_events; simp)+
  have "quiet X h' (fold (host_notify X N) es h')" for es and h' :: "'a host" by (rule quiet_fold, rule quiet_notify)
  then show "h_core (core_update X N c h) = c" by (simp add: core_update_def quiet_def)
qed

lemma apply_sync_blocks_adds:
  assumes "adds_all (core_tryAddBlock E now) bs (h_core h) c'"
  obtains h' where "apply_sync_blocks E N now bs h = Inr h'" and "h_core h' = c'"
    and "pr_requested_block (peer_at h' p) = pr_requested_block (peer_at h p)" and "pr_state (peer_at h' p) = pr_state (peer_at h p)"
  using assms
proof (induction bs arbitrary: h thesis)
  case (Cons b bs)
  then obtain c1 where c1: "core_tryAddBlock E now b (h_core h) = Inr (ADDED, c1)" "adds_all (core_tryAddBlock E now) bs c1 c'" by auto
  let ?h = "core_update (env_ext E) N c1 h"
  obtain h' where "apply_sync_blocks E N now bs ?h = Inr h'" "h_core h' = c'"
    "pr_requested_block (peer_at h' p) = pr_requested_block (peer_at h p)" "pr_state (peer_at h' p) = pr_state (peer_at h p)"
    using Cons.IH [of ?h] c1(2) by (auto simp: notified_fields)
  then show ?case using Cons.prems(1) c1(1) by (simp add: Let_def)
qed simp

lemma top_block_known:
  assumes "leveldb_ok (env_leveldb E)" and "core_inv E g (h_core h)"
  shows "core_findBlock (h_core h) (core_topHash h) \<noteq> None"
proof -
  obtain bs con where inv: "pb_inv (env_ext E) (env_leveldb E) g (core_blockchain (h_core h)) bs con"
    using pb_reachable_inv [OF assms(1)] assms(2) unfolding core_inv_def by blast
  then have v: "valid_chain bs con" and ch: "pb_chain (core_blockchain (h_core h)) = mk_bc (bs, con)" by (auto simp: pb_inv_def)
  have "bs \<noteq> []" using v by simp
  then show ?thesis using map_of_hashes [OF valid_chain_distinct [OF v], of "last bs"]
    by (simp add: core_findBlock_def core_topHash_def findBlock_def getTopBlockHash_def ch mk_bc_def)
qed

section \<open>Properties\<close>

text \<open>
  C9: synchronisation reaches the top block of the peer: a node that learns of an unknown top
  block asks for it, asks for the parent of every block it receives until a parent is known,
  and then adds the blocks from the oldest to the newest. If the chain accepts each of them, the
  node ends with the peer's top block as its own, knows all the blocks, has nothing requested
  and an empty queue. The state of the peer stays at REQUESTED_BLOCKS: the step to SYNCHRONISED
  that the description of the protocol announces is missing.
\<close>

theorem sync_reaches_top:
  assumes "big_ok (env_ext E)" and "leveldb_ok (env_leveldb E)" and "host_reachable E N g h"
    and "pr_requested_block (peer_at h p) = None" and "pr_sync_blocks (peer_at h p) = []"
    and "list_all (wf_iblock (env_ext E)) bs" and "fetchable (core_findBlock (h_core h)) (rev bs)"
    and "core_findBlock (h_core h) (blk_this_block_hash (last bs)) = None"
    and "adds_all (core_tryAddBlock E now) bs (h_core h) c'"
  shows "\<exists>h'. rbind (handleReceivedTopBlockHash (env_ext E) N p (blk_this_block_hash (last bs)) h)
        (\<lambda>h. receive_blocks E N now p (rev bs) h) = Inr h'
    \<and> h_core h' = c' \<and> core_topHash h' = blk_this_block_hash (last bs)
    \<and> (\<forall>b\<in>set bs. core_findBlock (h_core h') (blk_this_block_hash b) \<noteq> None)
    \<and> pr_requested_block (peer_at h' p) = None \<and> pr_sync_blocks (peer_at h' p) = []
    \<and> pr_state (peer_at h' p) = REQUESTED_BLOCKS"
proof -
  have ne: "bs \<noteq> []" using assms(7) by auto
  have "core_inv E g (h_core h)" using host_reachable_inv [OF assms(2,1,3)] by (simp add: host_inv_def)
  then have "core_topHash h \<noteq> blk_this_block_hash (last bs)" using top_block_known [OF assms(2)] assms(8) by fastforce
  let ?h = "setState p REQUESTED_BLOCKS (upd_peer p (\<lambda>x. x\<lparr>pr_requested_block := Some (blk_this_block_hash (last bs))\<rparr>)
    (peer_requestBlock (env_ext E) N p (blk_this_block_hash (last bs)) h))"
  have req: "handleReceivedTopBlockHash (env_ext E) N p (blk_this_block_hash (last bs)) h = Inr ?h"
    using \<open>core_topHash h \<noteq> _\<close> assms(4,8) by (simp add: handleReceivedTopBlockHash_def sync_requestBlock_def)
  have core: "h_core ?h = h_core h" and p: "pr_requested_block (peer_at ?h p) = Some (blk_this_block_hash (hd (rev bs)))"
    "pr_sync_blocks (peer_at ?h p) = []" "pr_state (peer_at ?h p) = REQUESTED_BLOCKS"
    using assms(5) ne by (simp_all add: setState_def upd_peer_def peer_requestBlock_def peer_send_def hd_rev)
  obtain h1 where h1: "receive_blocks E N now p (rev bs) ?h =
      rbind (apply_sync_blocks E N now bs h1) (\<lambda>h. Inr (upd_peer p (\<lambda>x. x\<lparr>pr_sync_blocks := []\<rparr>) h))"
    "h_core h1 = h_core h" "pr_requested_block (peer_at h1 p) = None" "pr_state (peer_at h1 p) = REQUESTED_BLOCKS"
    using receive_blocks_collects [of ?h "rev bs" E p N now] assms(6,7) core p by (auto simp: list_all_iff)
  have "adds_all (core_tryAddBlock E now) bs (h_core h1) c'" using assms(9) h1(2) by simp
  from apply_sync_blocks_adds [OF this, of N p] obtain h2 where h2: "apply_sync_blocks E N now bs h1 = Inr h2" "h_core h2 = c'"
    "pr_requested_block (peer_at h2 p) = None" "pr_state (peer_at h2 p) = REQUESTED_BLOCKS" using h1(3,4) by auto
  have "\<forall>b\<in>set bs. core_findBlock c' (blk_this_block_hash b) \<noteq> None"
    using core_sink.find_adds_all [OF assms(9)] by blast
  then show ?thesis using h1(1) h2 core_sink.top_adds_all [OF assms(9) ne]
    by (intro exI [of _ "upd_peer p (\<lambda>x. x\<lparr>pr_sync_blocks := []\<rparr>) h2"]) (simp add: req upd_peer_def core_topHash_def)
qed

section \<open>Blocks that the core accepts\<close>

text \<open>
  The chain, the check of the transactions and their execution together: a block that extends
  the chain and holds affordable plain transfers of different senders is added.
\<close>

lemma core_accepts_block:
  assumes L: "leveldb_ok (env_leveldb E)" and inv: "pb_inv (env_ext E) (env_leveldb E) g (core_blockchain c) bs con"
    and wf: "wf_iblock (env_ext E) b" and add: "tryAddBlock now b (pb_chain (core_blockchain c)) = Inr (ADDED, bc')"
    and check: "checkBlockTransactions E c b = Inr True" and senders: "distinct (map tx_from (blk_txs b))"
    and plain: "\<forall>tx\<in>set (blk_txs b). plain_transfer (core_state_manager c) tx"
    and sm: "wf_state (core_state_manager c)" "total_money (core_state_manager c) + BC_EMISSION_VALUE < 2 ^ 256"
  obtains c' where "core_tryAddBlock E now b c = Inr (ADDED, c')"
    and "total_money (core_state_manager c') = total_money (core_state_manager c) + BC_EMISSION_VALUE"
    and "\<forall>tx\<in>set (blk_txs b). core_tx_outputs c' (hashOfTransaction (env_ext E) tx) = Some success_status"
proof -
  obtain pb' where pb': "persistent_tryAddBlock (env_ext E) (env_leveldb E) now b (core_blockchain c) = Inr (ADDED, pb')"
  proof -
    have v: "valid_chain bs con" "pb_chain (core_blockchain c) = mk_bc (bs, con)" using inv by (auto simp: pb_inv_def)
    then obtain bs' con' where "chain_add now b (bs, con) = Inr (ADDED, bs', con')"
      using add tryAddBlock_refines [of bs now b con] valid_chain_distinct [OF v(1)] by (auto simp: rbind_eq_Inr)
    from persistent_tryAddBlock_cases [OF L inv wf this] show ?thesis using that by blast
  qed
  let ?c = "c\<lparr>core_blockchain := pb', core_pending_transactions := txset_remove_set (blk_txs b) (core_pending_transactions c)\<rparr>"
  obtain c1 where c1: "applyBlockTransactions E b ?c = Inr c1"
    "total_money (core_state_manager c1) = total_money (core_state_manager c) + BC_EMISSION_VALUE"
    "\<forall>tx\<in>set (blk_txs b). core_tx_outputs c1 (hashOfTransaction (env_ext E) tx) = Some success_status"
    using applyBlockTransactions_success [of ?c b E] sm plain senders checked_prices [OF check senders] by auto
  have "core_tryAddBlock_locked E now b c = Inr (ADDED, c1)"
    using check pb' c1(1) by (simp add: core_tryAddBlock_locked_def)
  then show ?thesis using that [of "c1\<lparr>core_events := core_events c1 @ [Event_block_added b]\<rparr>"] c1(2,3)
    by (simp add: core_tryAddBlock_def)
qed

section \<open>An example\<close>

definition demo_genesis :: iblock where
  "demo_genesis = mk_ImmutableBlock demo_ext 0 1 sha256_null 0 address_null []"

definition demo_on :: "txset \<Rightarrow> iblock" where
  "demo_on txs = mk_ImmutableBlock demo_ext 1 0 (blk_this_block_hash demo_genesis) 5 (replicate 20 4) txs"

definition demo_next :: iblock where
  "demo_next = demo_on [demo_tx]"

lemma demo_genesis_facts:
  "wf_iblock demo_ext demo_genesis" "blk_this_block_hash demo_genesis \<noteq> sha256_null" "blk_depth demo_genesis = 0" "blk_timestamp demo_genesis = 0"
proof -
  show g: "wf_iblock demo_ext demo_genesis" by (simp add: demo_genesis_def wf_iblock_mk sha256_null_def)
  obtain r where "serialize_mblock demo_ext demo_genesis [] = serialize_u64 0 [] @ serialize_u64 1 [] @ r"
    by (simp add: demo_genesis_def mk_ImmutableBlock_fields serialize_mblock_def block_field_out codec.ser_out [OF codec_txset [OF demo_ext_ok(2)]])
  then have "blk_this_block_hash demo_genesis ! 15 = 1"
    using g by (simp add: wf_iblock_def computeThisBlockHash_def sha256_compute_def demo_ext_def fit_def demo_depths)
  moreover have "sha256_null ! 15 = 0" by (simp add: sha256_null_def)
  ultimately show "blk_this_block_hash demo_genesis \<noteq> sha256_null" by auto
qed (simp_all add: demo_genesis_def mk_ImmutableBlock_fields)

lemma demo_on_facts:
  "list_all wf_tx txs \<Longrightarrow> length txs < 2 ^ 64 \<Longrightarrow> wf_iblock demo_ext (demo_on txs)"
  "blk_prev_block_hash (demo_on txs) = blk_this_block_hash demo_genesis" "blk_depth (demo_on txs) = 1"
  "blk_txs (demo_on txs) = txs" "blk_timestamp (demo_on txs) = 5" "blk_coinbase (demo_on txs) = replicate 20 4"
proof -
  have "length (blk_this_block_hash demo_genesis) = 32"
    using demo_genesis_facts(1) by (simp add: wf_iblock_def computeThisBlockHash_def sha256_compute_def demo_ext_def)
  then show "wf_iblock demo_ext (demo_on txs)" if "list_all wf_tx txs" "length txs < 2 ^ 64"
    using that by (simp add: demo_on_def wf_iblock_mk wf_address_def LENGTH_IN_BYTES_def list_all_iff)
qed (simp_all add: demo_on_def mk_ImmutableBlock_fields)

lemma demo_tx_wf: "wf_tx demo_tx" "wf_tx (demo_tx\<lparr>tx_fee := f\<rparr>)"
  by (simp_all add: wf_tx_def demo_tx_def invalidTransaction_def Sign_empty_def wf_address_def LENGTH_IN_BYTES_def)

lemma demo_blocks:
  "wf_iblock demo_ext demo_genesis" "wf_iblock demo_ext demo_next" "blk_this_block_hash demo_genesis \<noteq> sha256_null"
  "blk_prev_block_hash demo_next = blk_this_block_hash demo_genesis" "blk_depth demo_next = 1" "blk_depth demo_genesis = 0"
  "blk_txs demo_next = [demo_tx]" "blk_timestamp demo_next = 5" "blk_timestamp demo_genesis = 0"
  using demo_genesis_facts demo_on_facts [of "[demo_tx]"] demo_tx_wf(1) by (simp_all add: demo_next_def)

lemma demo_hashes:
  assumes "list_all wf_tx txs" and "length txs < 2 ^ 64"
  obtains xs ys where "blk_this_block_hash (demo_on txs) = [0, 0, 0, 0, 0, 0, 0, 1] @ xs"
    and "blk_this_block_hash demo_genesis = [0, 0, 0, 0, 0, 0, 0, 0] @ ys"
  using demo_hash_depth [of "demo_on txs"] demo_hash_depth [of demo_genesis] demo_depths demo_genesis_facts(1,3) demo_on_facts(1) [OF assms] demo_on_facts(3)
  by (auto simp: wf_iblock_def)

text \<open>The chain with the genesis block accepts the next block, whatever its transactions.\<close>

lemma demo_chain:
  assumes wf: "list_all wf_tx txs" and len: "length txs \<le> BC_MAX_TRANSACTIONS_IN_BLOCK" "txs \<noteq> []"
  obtains bc bc' where "mk_Blockchain demo_genesis = Inr bc" and "tryAddBlock 5 (demo_on txs) bc = Inr (ADDED, bc')"
    and "core_findBlock (demo_core_on bc) (blk_this_block_hash (demo_on txs)) = None"
proof -
  have len': "length txs < 2 ^ 64" using len(1) by (simp add: BC_MAX_TRANSACTIONS_IN_BLOCK_def)
  let ?b = "demo_on txs"
  obtain bc where bc: "mk_Blockchain demo_genesis = Inr bc" using mk_Blockchain_total by blast
  then obtain con where con: "mk_Consensus = Inr con" "bc = mk_bc ([demo_genesis], con)" by (auto simp: mk_Blockchain_eq rbind_eq_Inr)
  obtain xs ys where xs: "blk_this_block_hash ?b = [0, 0, 0, 0, 0, 0, 0, 1] @ xs"
    and ys: "blk_this_block_hash demo_genesis = [0, 0, 0, 0, 0, 0, 0, 0] @ ys" by (rule demo_hashes [OF wf len'])
  let ?t = "mk_MutableBlock 1 0 (blk_this_block_hash demo_genesis) 5 (replicate 20 4) txs"
  have nx: "mined_block demo_ext ?t 0 = ?b" "blk_this_block_hash ?b = computeThisBlockHash demo_ext (mblock_setNonce 0 ?t)"
    by (simp_all add: mined_block_def demo_on_def mk_ImmutableBlock_def mk_MutableBlock_def mblock_setNonce_def mblock.extend_def)
  have "bytes_less (blk_this_block_hash ?b) (cx_comparer (con_complexity con))"
    using demo_below [of ?b xs] xs mk_Consensus_target [OF con(1)] demo_on_facts(1) [OF wf len'] by (simp add: wf_iblock_def)
  moreover have "blk_this_block_hash ?b \<noteq> blk_this_block_hash demo_genesis" using xs ys by simp
  ultimately have "\<exists>bc'. tryAddBlock 5 (mined_block demo_ext ?t 0) (mk_bc ([demo_genesis], con)) = Inr (ADDED, bc')"
    using nx(2) demo_blocks(9) len
    by (intro template_accepted [OF valid_genesis [OF con(1)] demo_ext_ok(1) refl])
      (simp_all add: solves_def mk_MutableBlock_def SECONDS_IN_DAY_def BC_MAX_TRANSACTIONS_IN_BLOCK_def)
  then obtain bc' where add: "tryAddBlock 5 ?b bc = Inr (ADDED, bc')" using nx(1) con(2) by auto
  have "core_findBlock (demo_core_on bc) (blk_this_block_hash ?b) = None"
    using xs ys by (simp add: con(2) core_findBlock_def findBlock_def mk_bc_def)
  with bc add show ?thesis by (rule that)
qed

lemma demo_next_chain:
  obtains bc bc' where "mk_Blockchain demo_genesis = Inr bc" and "tryAddBlock 5 demo_next bc = Inr (ADDED, bc')"
    and "checkBlockTransactions demo_env (demo_core_on bc) demo_next = Inr True"
proof -
  obtain bc bc' where bc: "mk_Blockchain demo_genesis = Inr bc" and add: "tryAddBlock 5 demo_next bc = Inr (ADDED, bc')"
    and new: "core_findBlock (demo_core_on bc) (blk_this_block_hash demo_next) = None"
    by (rule demo_chain [of "[demo_tx]"]) (simp_all add: demo_next_def demo_tx_wf BC_MAX_TRANSACTIONS_IN_BLOCK_def)
  have m: "calcCost (blk_txs demo_next) = Inr [replicate 20 1 \<mapsto> 95]"
    using demo_tx_plain demo_blocks(7) by (simp add: calcCost_def tx_cost_def u256_add_def std_map_insert_def)
  have "checkBlockTransactions demo_env (demo_core_on bc) demo_next = Inr True"
    unfolding checkBlockTransactions_iff [OF m]
    using new demo_accounts_facts(3,6) demo_tx_plain demo_blocks(7) wf_iblock_hash [OF demo_blocks(2)] by (simp add: demo_env_def)
  with bc add show ?thesis by (rule that)
qed

lemma demo_accepted:
  obtains c c' where "core_reachable demo_env demo_genesis c" and "core_this_node_address c = address_null"
    and "core_findBlock c = (\<lambda>h. if h = blk_this_block_hash demo_genesis then Some demo_genesis else None)"
    and "core_tryAddBlock demo_env 5 demo_next c = Inr (ADDED, c')" and "blk_this_block_hash demo_next \<noteq> blk_this_block_hash demo_genesis"
proof -
  obtain bc bc' where bc: "mk_Blockchain demo_genesis = Inr bc" and add: "tryAddBlock 5 demo_next bc = Inr (ADDED, bc')"
    and check: "checkBlockTransactions demo_env (demo_core_on bc) demo_next = Inr True" by (rule demo_next_chain)
  then obtain con where con: "mk_Consensus = Inr con" "bc = mk_bc ([demo_genesis], con)" by (auto simp: mk_Blockchain_eq rbind_eq_Inr)
  have known: "core_findBlock (demo_core_on bc) = (\<lambda>h. if h = blk_this_block_hash demo_genesis then Some demo_genesis else None)"
    by (auto simp: con(2) core_findBlock_def findBlock_def mk_bc_def)
  have new: "blk_this_block_hash demo_next \<noteq> blk_this_block_hash demo_genesis"
    unfolding demo_next_def by (rule demo_hashes [of "[demo_tx]"]) (simp_all add: demo_tx_wf)
  have inv: "pb_inv (env_ext demo_env) (env_leveldb demo_env) demo_genesis (core_blockchain (demo_core_on bc)) [demo_genesis] con"
    using valid_genesis [OF con(1)] con(2) by (simp add: pb_inv_def db_stores_def db_lookup_def map_leveldb_def demo_env_def)
  obtain c' where "core_tryAddBlock demo_env 5 demo_next (demo_core_on bc) = Inr (ADDED, c')"
    by (rule core_accepts_block [OF _ inv _ _ check, of 5 bc'])
      (use add leveldb_ok_map demo_blocks demo_tx_plain demo_accounts_facts in \<open>auto simp: demo_env_def BC_EMISSION_VALUE_def\<close>)
  then show ?thesis using that [OF demo_core_reachable [OF bc] _ known _ new] by simp
qed

theorem sync_reaches_top_witness:
  "\<exists>h h'. host_reachable demo_env demo_net demo_genesis h
     \<and> rbind (handleReceivedTopBlockHash demo_ext demo_net 0 (blk_this_block_hash demo_next) h)
         (\<lambda>h. receive_blocks demo_env demo_net 5 0 [demo_next] h) = Inr h'
     \<and> core_topHash h' = blk_this_block_hash demo_next"
proof -
  obtain c c' where c: "core_reachable demo_env demo_genesis c" "core_this_node_address c = address_null"
    "core_findBlock c = (\<lambda>h. if h = blk_this_block_hash demo_genesis then Some demo_genesis else None)"
    "core_tryAddBlock demo_env 5 demo_next c = Inr (ADDED, c')" "blk_this_block_hash demo_next \<noteq> blk_this_block_hash demo_genesis"
    by (rule demo_accepted)
  let ?h = "mk_Host \<lparr>ep_address = 1, ep_port = 1\<rparr> 1 \<lparr>db_inited = True, db_handle = (\<lambda>_. None)\<rparr> (\<lambda>n. demo_peer n address_null) c"
  have reach: "host_reachable demo_env demo_net demo_genesis ?h"
    by (rule host_start [OF c(1)]) (simp_all add: c(2) demo_peer_def)
  have core: "h_core ?h = c" by (simp add: mk_Host_def)
  have env: "env_ext demo_env = demo_ext" "env_leveldb demo_env = map_leveldb" by (simp_all add: demo_env_def)
  have p: "pr_requested_block (peer_at ?h 0) = None" "pr_sync_blocks (peer_at ?h 0) = []" by (simp_all add: mk_Host_def demo_peer_def)
  have "big_ok (env_ext demo_env)" "leveldb_ok (env_leveldb demo_env)" "list_all (wf_iblock (env_ext demo_env)) [demo_next]"
    "fetchable (core_findBlock (h_core ?h)) (rev [demo_next])" "core_findBlock (h_core ?h) (blk_this_block_hash (last [demo_next])) = None"
    "adds_all (core_tryAddBlock demo_env 5) [demo_next] (h_core ?h) c'"
    unfolding core env using demo_ext_ok(2) leveldb_ok_map demo_blocks(2-4) c(3-5) by simp_all
  from sync_reaches_top [OF this(1,2) reach p this(3-6)] reach env(1) show ?thesis
    by (auto simp del: receive_blocks.simps)
qed

text \<open>
  C16: a valid block is added as a whole: if the chain of a reachable node accepts the block, its
  transactions pass the check and are plain transfers of different senders, then the core adds
  it, every transaction succeeds, the block becomes the top block, and the money grows by
  exactly the emission.
\<close>

theorem valid_block_added:
  assumes "core_reachable E g c" and "leveldb_ok (env_leveldb E)" and "wf_iblock (env_ext E) b"
    and "tryAddBlock now b (pb_chain (core_blockchain c)) = Inr (ADDED, bc')"
    and "checkBlockTransactions E c b = Inr True" and "distinct (map tx_from (blk_txs b))"
    and "\<forall>tx\<in>set (blk_txs b). plain_transfer (core_state_manager c) tx"
    and "wf_state (core_state_manager c)" and "total_money (core_state_manager c) + BC_EMISSION_VALUE < 2 ^ 256"
  shows "\<exists>c'. core_tryAddBlock E now b c = Inr (ADDED, c')
    \<and> getTopBlockHash (pb_chain (core_blockchain c')) = blk_this_block_hash b
    \<and> core_findBlock c' = (core_findBlock c)(blk_this_block_hash b \<mapsto> b)
    \<and> total_money (core_state_manager c') = total_money (core_state_manager c) + BC_EMISSION_VALUE
    \<and> (\<forall>tx\<in>set (blk_txs b). core_tx_outputs c' (hashOfTransaction (env_ext E) tx) = Some success_status)"
proof -
  obtain bs con where inv: "pb_inv (env_ext E) (env_leveldb E) g (core_blockchain c) bs con"
    using pb_reachable_inv [OF assms(2)] core_reachable_inv [OF assms(2,1)] unfolding core_inv_def by blast
  obtain c' where "core_tryAddBlock E now b c = Inr (ADDED, c')"
    "total_money (core_state_manager c') = total_money (core_state_manager c) + BC_EMISSION_VALUE"
    "\<forall>tx\<in>set (blk_txs b). core_tx_outputs c' (hashOfTransaction (env_ext E) tx) = Some success_status"
    by (rule core_accepts_block [OF assms(2) inv assms(3-9)])
  then show ?thesis using core_added by blast
qed

theorem valid_block_added_witness:
  "\<exists>c c'. core_reachable demo_env demo_genesis c \<and> core_tryAddBlock demo_env 5 demo_next c = Inr (ADDED, c')
     \<and> total_money (core_state_manager c') = 1100"
proof -
  obtain bc bc' where bc: "mk_Blockchain demo_genesis = Inr bc" "tryAddBlock 5 demo_next bc = Inr (ADDED, bc')"
    "checkBlockTransactions demo_env (demo_core_on bc) demo_next = Inr True"
    by (rule demo_next_chain)
  have "wf_iblock (env_ext demo_env) demo_next" "leveldb_ok (env_leveldb demo_env)"
    using demo_blocks(2) leveldb_ok_map by (simp_all add: demo_env_def)
  from valid_block_added [OF demo_core_reachable [OF bc(1)] this(2,1) _ bc(3), of 5 bc'] bc(2) show ?thesis
    using demo_core_reachable [OF bc(1)] demo_blocks(7) demo_tx_plain demo_accounts_facts
    by (auto simp: BC_EMISSION_VALUE_def)
qed

section \<open>The effect of an offered block\<close>

text \<open>The block is the top of the chain and of the stored chain, and its transactions, and only they, left the pool.\<close>

definition block_taken :: "'s node_env \<Rightarrow> iblock \<Rightarrow> 's core \<Rightarrow> 's core \<Rightarrow> bool" where
  "block_taken E b c c' \<longleftrightarrow> getTopBlock (pb_chain (core_blockchain c')) = Inr b
     \<and> db_lookup (env_leveldb E) (pb_database (core_blockchain c')) (key_BLOCK (blk_this_block_hash b)) = Some (toBytes (serialize_iblock (env_ext E)) b)
     \<and> db_lookup (env_leveldb E) (pb_database (core_blockchain c')) LAST_BLOCK_HASH_KEY = Some (blk_this_block_hash b)
     \<and> (\<forall>tx. txset_find (core_pending_transactions c') tx \<longleftrightarrow>
          txset_find (core_pending_transactions c) tx \<and> \<not> txset_find (blk_txs b) tx)"

lemma persistent_stores:
  assumes L: "leveldb_ok L" and inv: "pb_inv X L g pb bs c" and wf: "wf_iblock X b"
    and run: "persistent_tryAddBlock X L now b pb = Inr (ADDED, pb')"
  shows "db_lookup L (pb_database pb') (key_BLOCK (blk_this_block_hash b)) = Some (toBytes (serialize_iblock X) b)
    \<and> db_lookup L (pb_database pb') LAST_BLOCK_HASH_KEY = Some (blk_this_block_hash b)"
proof -
  have valid: "valid_chain bs c" and ch: "pb_chain pb = mk_bc (bs, c)" using inv by (auto simp: pb_inv_def)
  have "tryAddBlock now b (pb_chain pb) = rbind (chain_add now b (bs, c)) (\<lambda>(r, bs', c'). Inr (r, mk_bc (bs', c')))"
    using tryAddBlock_refines [of bs now b c] valid valid_chain_distinct [OF valid] ch by simp
  then obtain r bs' c' where add: "chain_add now b (bs, c) = Inr (r, bs', c')"
    using run by (auto simp: persistent_tryAddBlock_def rbind_eq_Inr)
  have pb': "r = ADDED" "pb_inv X L g pb' bs' c'" using persistent_tryAddBlock_cases [OF L inv wf add] run by auto
  moreover have "bs \<noteq> []" using valid by simp
  ultimately show ?thesis using chain_add_ADDED [OF add] by (simp add: pb_inv_def db_stores_def)
qed

lemma block_taken_added:
  assumes L: "leveldb_ok (env_leveldb E)" and inv: "core_inv E g c" and wf: "wf_iblock (env_ext E) b"
    and run: "persistent_tryAddBlock (env_ext E) (env_leveldb E) now b (core_blockchain c) = Inr (ADDED, pb')"
    and c': "core_blockchain c' = pb'" "core_pending_transactions c' = txset_remove_set (blk_txs b) (core_pending_transactions c)"
  shows "block_taken E b c c'"
proof -
  obtain bs con where pb: "pb_inv (env_ext E) (env_leveldb E) g (core_blockchain c) bs con"
    using pb_reachable_inv [OF L] inv unfolding core_inv_def by blast
  have "no_dups (core_pending_transactions c)" using inv by (simp add: core_inv_def)
  then have "txset_find (txset_remove_set (blk_txs b) (core_pending_transactions c)) tx \<longleftrightarrow>
      txset_find (core_pending_transactions c) tx \<and> \<not> txset_find (blk_txs b) tx" for tx
    using pool.mem_remove_all [of "core_pending_transactions c" "blk_txs b" tx] by (simp add: txset_remove_set_def txset_find_def)
  then show ?thesis using persistent_stores [OF L pb wf run] persistent_step [OF L pb wf run] c'
    by (simp add: block_taken_def)
qed

text \<open>
  C29: a block offered to a reachable node has one of three effects. It is rejected and leaves the
  node exactly as it was; or it becomes the top of the chain, is stored, its transactions, and
  only they, leave the pool, and it is announced once; or \<^verbatim>\<open>tryAddBlock\<close> throws. Then nothing has
  changed if the exception came before the chain accepted the block, but if it came from the
  execution of its transactions the block is the top of the chain, stored, its transactions have
  left the pool, and it is not announced.
\<close>

theorem block_handler_effect:
  assumes "core_reachable E g c" and "leveldb_ok (env_leveldb E)" and "wf_iblock (env_ext E) b"
  shows "case core_tryAddBlock E now b c of
      Inr (r, c') \<Rightarrow>
        if r = ADDED then block_taken E b c c' \<and> core_events c' = core_events c @ [Event_block_added b] else c' = c
    | Inl e \<Rightarrow>
        (let c' = core_tryAddBlock_left E now b c in
         if checkBlockTransactions E c b = Inr True
           \<and> (\<exists>pb'. persistent_tryAddBlock (env_ext E) (env_leveldb E) now b (core_blockchain c) = Inr (ADDED, pb'))
         then block_taken E b c c' \<and> core_events c' = core_events c else c' = c)"
proof -
  have inv: "core_inv E g c" by (rule core_reachable_inv [OF assms(2,1)])
  obtain bs con where pb: "pb_inv (env_ext E) (env_leveldb E) g (core_blockchain c) bs con"
    using pb_reachable_inv [OF assms(2)] inv unfolding core_inv_def by blast
  show ?thesis
  proof (cases "core_tryAddBlock E now b c")
    case (Inl e)
    have db: "db_inited (pb_database (core_blockchain c))" using pb by (simp add: pb_inv_def db_stores_def)
    from assms(2) db Inl [unfolded core_throws_locked] show ?thesis
    proof (cases rule: core_left_cases)
      case unchanged
      then show ?thesis using Inl by auto
    next
      case (executing pb')
      then have "block_taken E b c (core_tryAddBlock_left E now b c)"
        by (intro block_taken_added [OF assms(2) inv assms(3) executing(2)]) (simp_all add: same_node_def)
      then show ?thesis using Inl executing by (auto simp: same_node_def)
    qed
  next
    case (Inr rc)
    obtain r c' where rc: "rc = (r, c')" by (cases rc)
    then obtain c1 where l: "core_tryAddBlock_locked E now b c = Inr (r, c1)"
      and c': "c' = (if r = ADDED then c1\<lparr>core_events := core_events c1 @ [Event_block_added b]\<rparr> else c1)"
      using Inr by (auto simp: core_tryAddBlock_def rbind_eq_Inr split: if_splits)
    note cases = core_tryAddBlock_locked_cases [OF l]
    have "block_taken E b c c'" if "r = ADDED"
      using cases that c' by (auto intro!: block_taken_added [OF assms(2) inv assms(3)])
    then show ?thesis using Inr rc c' cases persistent_step [OF assms(2) pb assms(3), of now r] by (auto split: if_splits)
  qed
qed

text \<open>A block with two transfers of one sender who can pay for the first only.\<close>

definition demo_overspending :: iblock where
  "demo_overspending = demo_on [demo_tx, demo_tx\<lparr>tx_fee := 6\<rparr>]"

lemma demo_overspending_facts: "wf_iblock demo_ext demo_overspending" "blk_txs demo_overspending = [demo_tx, demo_tx\<lparr>tx_fee := 6\<rparr>]"
  "blk_coinbase demo_overspending = replicate 20 4"
  using demo_on_facts [of "[demo_tx, demo_tx\<lparr>tx_fee := 6\<rparr>]"] demo_tx_wf by (simp_all add: demo_overspending_def)

lemma demo_overspending_throws:
  obtains bc pb' where "mk_Blockchain demo_genesis = Inr bc" and "core_tryAddBlock demo_env 5 demo_overspending (demo_core_on bc) = Inl LogicError"
    and "checkBlockTransactions demo_env (demo_core_on bc) demo_overspending = Inr True"
    and "persistent_tryAddBlock demo_ext map_leveldb 5 demo_overspending (core_blockchain (demo_core_on bc)) = Inr (ADDED, pb')"
proof -
  let ?b = demo_overspending and ?u = "demo_tx\<lparr>tx_fee := 6\<rparr>"
  have env: "env_ext demo_env = demo_ext" "env_leveldb demo_env = map_leveldb" by (simp_all add: demo_env_def)
  obtain bc bc' where bc: "mk_Blockchain demo_genesis = Inr bc" and add: "tryAddBlock 5 ?b bc = Inr (ADDED, bc')"
    and new: "core_findBlock (demo_core_on bc) (blk_this_block_hash ?b) = None"
    by (rule demo_chain [of "[demo_tx, ?u]"]) (simp_all add: demo_overspending_def demo_tx_wf BC_MAX_TRANSACTIONS_IN_BLOCK_def)
  obtain pb' where pb': "persistent_tryAddBlock demo_ext map_leveldb 5 ?b (core_blockchain (demo_core_on bc)) = Inr (ADDED, pb')"
  proof -
    obtain db' where "pushForwardToPersistentStorage demo_ext map_leveldb ?b \<lparr>db_inited = True, db_handle = (\<lambda>_. None)\<rparr> = Inr db'"
      by (rule pushForward_total [OF leveldb_ok_map, of "\<lparr>db_inited = True, db_handle = (\<lambda>_. None)\<rparr>" demo_ext ?b]) simp_all
    then show ?thesis using that add by (simp add: persistent_tryAddBlock_def)
  qed
  have u: "tx_price demo_tx = 95" "tx_price ?u = 96" "tx_from ?u = tx_from demo_tx" "tx_to demo_tx \<noteq> tx_from demo_tx"
    "plain_transfer demo_accounts ?u" "replicate 20 4 \<noteq> tx_from demo_tx" "tx_fee ?u = 6"
    using demo_tx_plain demo_addresses by (simp_all add: plain_transfer_def demo_tx_def)
  have check: "checkBlockTransactions demo_env (demo_core_on bc) ?b = Inr True"
    by (rule overspending_check [OF _ demo_overspending_facts(2)])
      (use new u demo_accounts_facts demo_tx_plain wf_iblock_hash [OF demo_overspending_facts(1)] env in simp_all)
  have "applyBlockTransactions demo_env ?b c = Inl LogicError" if "core_state_manager c = demo_accounts" for c
    by (rule overspending_execution [OF _ _ demo_overspending_facts(2)])
      (use that u demo_accounts_facts demo_tx_plain demo_overspending_facts(3) in \<open>simp_all add: BC_EMISSION_VALUE_def\<close>)
  then have "core_tryAddBlock demo_env 5 ?b (demo_core_on bc) = Inl LogicError"
    using check pb' by (simp add: core_throws_locked core_tryAddBlock_locked_def Let_def env)
  with bc show ?thesis using check pb' by (rule that)
qed

text \<open>The overspending block is refused by nobody and announced to nobody; the next one is added.\<close>

theorem block_handler_effect_witness:
  "(\<exists>c. core_tryAddBlock demo_env 5 demo_overspending c = Inl LogicError
      \<and> block_taken demo_env demo_overspending c (core_tryAddBlock_left demo_env 5 demo_overspending c)
      \<and> core_events (core_tryAddBlock_left demo_env 5 demo_overspending c) = core_events c)
   \<and> (\<exists>c c'. core_tryAddBlock demo_env 5 demo_next c = Inr (ADDED, c') \<and> block_taken demo_env demo_next c c')"
proof
  have env: "wf_iblock (env_ext demo_env) demo_overspending" "wf_iblock (env_ext demo_env) demo_next" "leveldb_ok (env_leveldb demo_env)"
    using demo_overspending_facts(1) demo_blocks(2) leveldb_ok_map by (simp_all add: demo_env_def)
  obtain bc pb' where bc: "mk_Blockchain demo_genesis = Inr bc" "core_tryAddBlock demo_env 5 demo_overspending (demo_core_on bc) = Inl LogicError"
    "checkBlockTransactions demo_env (demo_core_on bc) demo_overspending = Inr True"
    "persistent_tryAddBlock demo_ext map_leveldb 5 demo_overspending (core_blockchain (demo_core_on bc)) = Inr (ADDED, pb')"
    by (rule demo_overspending_throws)
  from block_handler_effect [OF demo_core_reachable [OF bc(1)] env(3,1), of 5] show
    "\<exists>c. core_tryAddBlock demo_env 5 demo_overspending c = Inl LogicError
      \<and> block_taken demo_env demo_overspending c (core_tryAddBlock_left demo_env 5 demo_overspending c)
      \<and> core_events (core_tryAddBlock_left demo_env 5 demo_overspending c) = core_events c"
    using bc(2-4) by (auto simp: demo_env_def Let_def)
  obtain c c' where c: "core_reachable demo_env demo_genesis c" "core_tryAddBlock demo_env 5 demo_next c = Inr (ADDED, c')"
    by (rule demo_accepted) blast
  from block_handler_effect [OF c(1) env(3,2), of 5] show
    "\<exists>c c'. core_tryAddBlock demo_env 5 demo_next c = Inr (ADDED, c') \<and> block_taken demo_env demo_next c c'"
    using c(2) by auto
qed

end
