(* ===== verification/Handshake.thy ===== *)
theory Handshake
  imports Sync
begin

text \<open>
  Two hosts that meet: one connects to the other (\<^verbatim>\<open>Host::connect\<close>, \<^verbatim>\<open>Host::onAccept\<close>), sends CONNECT, and gets ACCEPTED
  (\<^verbatim>\<open>Peer::handle\<close> in \<^verbatim>\<open>src/core/peer.cpp\<close>). Each event is one of \<open>net_event\<close>; what one host writes to its connection
  is what the other receives, with whatever else its buffer holds behind it.
\<close>

section \<open>Receiving a message\<close>

lemma receive_message:
  assumes "read_message (env_ext E) N data = Inr (i, Some m)" and "pr_is_started (peer_at h p)"
  shows "onMessageReceive E N now p data h = handle E N now p m h"
  using assms
  by (auto simp: read_message_def onMessageReceive_def process_def rbind_eq_Inr split: option.splits)

lemma receive_prepared:
  assumes "big_ok (env_ext E)" and "net_ok N" and "wf_message (env_ext E) m"
    and "pr_is_started (peer_at h p)" and "\<not> conn_is_closed (pr_connection (peer_at h p))"
  shows "net_step E N now (Ev_receive p (fst (prepareMessage (env_ext E) N m i) @ rest)) h
    = handle E N now p m (upd_peer p (\<lambda>x. x\<lparr>pr_last_seen := now\<rparr>) h)"
  using receive_message [OF read_prepared [OF assms(1-3)], of "upd_peer p (\<lambda>x. x\<lparr>pr_last_seen := now\<rparr>) h" p] assms(4,5)
  by (simp add: isSessionClosed_def upd_peer_def)

lemma receive_prepared_left:
  assumes "big_ok (env_ext E)" and "net_ok N" and "wf_message (env_ext E) m"
    and "pr_is_started (peer_at h p)" and "\<not> conn_is_closed (pr_connection (peer_at h p))"
  shows "net_step_left E N now (Ev_receive p (fst (prepareMessage (env_ext E) N m i) @ rest)) h
    = handle_left E N now p m (upd_peer p (\<lambda>x. x\<lparr>pr_last_seen := now\<rparr>) h)"
  using read_prepared [OF assms(1-3), of i rest] assms(4,5)
  by (auto simp: read_message_def onMessageReceive_left_def process_left_def rbind_eq_Inr isSessionClosed_def upd_peer_def split: option.splits)

section \<open>Room in the table\<close>

text \<open>No peer of the table has one of the endpoints, and the bucket of the address is not full.\<close>

definition room :: "'s host \<Rightarrow> endpoint \<Rightarrow> endpoint \<Rightarrow> address \<Rightarrow> bool" where
  "room h ep public_ep a \<longleftrightarrow>
     (\<forall>q\<in>table (h_handshaked_peers h). pr_endpoint (h_peers h q) \<noteq> ep
        \<and> (\<exists>e. pr_endpoint_for_incoming_connections (h_peers h q) = Some e \<and> e \<noteq> public_ep))
   \<and> (\<forall>i. calcBucketIndex (h_handshaked_peers h) a = Inr i \<longrightarrow> i < LENGTH_IN_BYTES * 8 \<longrightarrow>
        length (kd_buckets (h_handshaked_peers h) ! i) < MAX_BUCKET_SIZE)"

lemma same_endpoint_none:
  assumes "pr_endpoint_for_incoming_connections (S p) = Some e"
    and "\<forall>q\<in>set qs. pr_endpoint (S q) \<noteq> pr_endpoint (S p) \<and> (\<exists>f. pr_endpoint_for_incoming_connections (S q) = Some f \<and> f \<noteq> e)"
  shows "same_endpoint S p qs = Inr False"
  using assms by (induction qs) (auto simp: getPublicEndpoint_def)

lemma kademlia_adds:
  assumes "room h ep public_ep a" and "p \<notin> table (h_handshaked_peers h)" and "kademlia_inv (h_peers h) (h_handshaked_peers h)"
    and "kd_host_address (h_handshaked_peers h) \<noteq> a" and "length (kd_host_address (h_handshaked_peers h)) = LENGTH_IN_BYTES" and "length a = LENGTH_IN_BYTES"
    and "pr_endpoint x = ep" and "pr_endpoint_for_incoming_connections x = Some public_ep" and "pr_address x = a"
  shows "\<exists>k. kademlia_tryAddPeer ((h_peers h)(p := x)) now p (h_handshaked_peers h) = Inr (True, k) \<and> p \<in> table k"
proof -
  let ?k = "h_handshaked_peers h" and ?S = "(h_peers h)(p := x)"
  obtain i where i: "calcBucketIndex ?k a = Inr i" "i < LENGTH_IN_BYTES * 8"
  proof (rule calcDifference_prefix [OF assms(5,6)])
    fix n assume "calcDifference (kd_host_address ?k) a = Inr n" "n \<le> LENGTH_IN_BYTES * 8" "n = LENGTH_IN_BYTES * 8 \<longleftrightarrow> kd_host_address ?k = a"
    then show thesis using that [of n] assms(4) by (simp add: calcBucketIndex_def)
  qed
  have "same_endpoint ?S p (concat (kd_buckets ?k)) = Inr False"
    by (rule same_endpoint_none [where e = public_ep]) (use assms(1,2,7,8) in \<open>auto simp: room_def table_def\<close>)
  moreover have "length (kd_buckets ?k ! i) < MAX_BUCKET_SIZE" using assms(1) i by (simp add: room_def)
  ultimately have add: "kademlia_tryAddPeer ?S now p ?k = Inr (True, push_peer p i ?k)"
    using i assms(9) by (simp add: kademlia_tryAddPeer_def)
  have "i < length (kd_buckets ?k)" using i(2) assms(3) by (simp add: kademlia_inv_def)
  then have "p \<in> table (push_peer p i ?k)" by (auto simp: table_def push_peer_def intro!: bexI [OF _ set_update_memI])
  with add show ?thesis by blast
qed

section \<open>The steps\<close>

definition connect_message :: "'s host \<Rightarrow> message" where
  "connect_message h = Connect (core_this_node_address (h_core h)) (h_server_public_port h) (core_topHash h)"

definition outgoing_peer :: "ext \<Rightarrow> net_ext \<Rightarrow> message \<Rightarrow> endpoint \<Rightarrow> rating \<Rightarrow> peer" where
  "outgoing_peer X N msg ep r = requests_send X N msg No_handler
     ((mk_Peer True ep r)\<lparr>pr_endpoint_for_incoming_connections := Some ep, pr_is_started := True\<rparr>)"

lemma connect_step:
  assumes "mk_Rating N (env_leveldb E) session_ep (h_rating_db h) = Inr (r, db)" and "isGood r" and "p \<notin> set (h_non_handshaked_peers h)"
  shows "net_step E N now (Ev_connected p ep session_ep) h =
    Inr (h\<lparr>h_connector_in_process := h_connector_in_process h - {ep}, h_rating_db := db,
           h_peers := (h_peers h)(p := outgoing_peer (env_ext E) N (connect_message h) session_ep r),
           h_non_handshaked_peers := insort p (h_non_handshaked_peers h)\<rparr>)"
  using assms
  by (simp add: on_connect_def RatingManager_get_def connected_def admit_peer_def setServerEndpoint_def basic_tryAddPeer_def startSession_def
      peer_send_def upd_peer_def mk_Peer_def outgoing_peer_def connect_message_def core_topHash_def Let_def)

lemma accept_step:
  assumes "mk_Rating N (env_leveldb E) ep (h_rating_db h) = Inr (r, db)" and "isGood r" and "p \<notin> set (h_non_handshaked_peers h)"
  shows "net_step E N now (Ev_accept p ep) h =
    Inr (h\<lparr>h_rating_db := db, h_peers := (h_peers h)(p := (mk_Peer False ep r)\<lparr>pr_is_started := True\<rparr>),
           h_non_handshaked_peers := insort p (h_non_handshaked_peers h)\<rparr>)"
  using assms
  by (simp add: onAccept_def RatingManager_get_def accepted_def admit_peer_def basic_tryAddPeer_def startSession_def
      upd_peer_def mk_Peer_def Let_def)

lemma send_first:
  "pr_connection q = open_connection \<Longrightarrow> pr_connection (requests_send X N m No_handler q) =
     \<lparr>conn_is_closed = False, conn_pending_send_messages = [(frame (fst (prepareMessage X N m (pr_next_message_id q))), No_handler)],
      conn_written = [frame (fst (prepareMessage X N m (pr_next_message_id q)))]\<rparr>"
  by (simp add: requests_send_def prepareMessage_def session_send_def open_connection_def connection_send_def sendPendingMessages_def)

lemma send_queued:
  assumes "\<not> conn_is_closed (pr_connection q)" and "conn_pending_send_messages (pr_connection q) \<noteq> []"
  shows "conn_written (pr_connection (requests_send X N m cb q)) = conn_written (pr_connection q)
    \<and> \<not> conn_is_closed (pr_connection (requests_send X N m cb q)) \<and> conn_pending_send_messages (pr_connection (requests_send X N m cb q)) \<noteq> []"
  using assms by (simp add: requests_send_def prepareMessage_def session_send_def connection_send_def Let_def)

lemma send_fields [simp]:
  "pr_address (requests_send X N m cb q) = pr_address q" "pr_endpoint (requests_send X N m cb q) = pr_endpoint q"
  "pr_endpoint_for_incoming_connections (requests_send X N m cb q) = pr_endpoint_for_incoming_connections q"
  "pr_requested_block (requests_send X N m cb q) = pr_requested_block q" "pr_is_started (requests_send X N m cb q) = pr_is_started q"
  by (simp_all add: requests_send_def prepareMessage_def)

text \<open>What a host knows about the chain of a peer after the handshake: nothing is missing, or the top block is requested.\<close>

definition sync_started :: "'s host \<Rightarrow> sha256 \<Rightarrow> peer \<Rightarrow> bool" where
  "sync_started h peers_top_block q \<longleftrightarrow>
     (if peers_top_block = core_topHash h \<or> core_findBlock (h_core h) peers_top_block \<noteq> None then pr_state q = SYNCHRONISED
      else pr_state q = REQUESTED_BLOCKS \<and> pr_requested_block q = Some peers_top_block)"

lemma top_block_received:
  assumes "pr_requested_block (h_peers h p) = None" and "\<not> conn_is_closed (pr_connection (h_peers h p))"
    and "conn_pending_send_messages (pr_connection (h_peers h p)) \<noteq> []"
  shows "\<exists>q. handleReceivedTopBlockHash X N p peers_top_block h = Inr (h\<lparr>h_peers := (h_peers h)(p := q)\<rparr>)
    \<and> pr_address q = pr_address (h_peers h p) \<and> pr_endpoint_for_incoming_connections q = pr_endpoint_for_incoming_connections (h_peers h p)
    \<and> conn_written (pr_connection q) = conn_written (pr_connection (h_peers h p)) \<and> sync_started h peers_top_block q"
proof (cases "peers_top_block = core_topHash h \<or> core_findBlock (h_core h) peers_top_block \<noteq> None")
  case True
  then have "handleReceivedTopBlockHash X N p peers_top_block h = Inr (setState p SYNCHRONISED h)" by (auto simp: handleReceivedTopBlockHash_def)
  then show ?thesis using True by (auto simp: setState_def upd_peer_def sync_started_def)
next
  case False
  then have "handleReceivedTopBlockHash X N p peers_top_block h =
      Inr (h\<lparr>h_peers := (h_peers h)(p := (requests_send X N (GetBlock peers_top_block) No_handler (h_peers h p))
        \<lparr>pr_requested_block := Some peers_top_block, pr_state := REQUESTED_BLOCKS\<rparr>)\<rparr>)"
    using assms(1) by (simp add: handleReceivedTopBlockHash_def sync_requestBlock_def peer_requestBlock_def peer_send_def setState_def upd_peer_def)
  then show ?thesis using False send_queued [OF assms(2,3)] by (auto simp: sync_started_def)
qed

text \<open>The two handlers, for a peer whose handshake begins\<close>

lemma connect_received:
  assumes "room h (pr_endpoint (h_peers h p)) (setPort port (pr_endpoint (h_peers h p))) a" and "port \<noteq> 0" and "p \<notin> table (h_handshaked_peers h)"
    and "kademlia_inv (h_peers h) (h_handshaked_peers h)" and "kd_host_address (h_handshaked_peers h) = core_this_node_address (h_core h)"
    and "core_this_node_address (h_core h) \<noteq> a" and "wf_address (core_this_node_address (h_core h))" and "wf_address a"
    and "pr_connection (h_peers h p) = open_connection" and "pr_requested_block (h_peers h p) = None" and "distinct (h_non_handshaked_peers h)"
  shows "\<exists>h'. handle E N now p (Connect a port peers_top) h = Inr h' \<and> p \<in> table (h_handshaked_peers h') \<and> p \<notin> set (h_non_handshaked_peers h')
    \<and> pr_address (h_peers h' p) = a \<and> getPublicEndpoint (h_peers h' p) = Inr (setPort port (pr_endpoint (h_peers h p)))
    \<and> conn_written (pr_connection (h_peers h' p)) = [frame (fst (prepareMessage (env_ext E) N
        (Accepted (core_this_node_address (h_core h)) port (core_topHash h)) (pr_next_message_id (h_peers h p))))]
    \<and> sync_started h peers_top (h_peers h' p)"
proof -
  let ?X = "env_ext E" and ?ep = "setPort port (pr_endpoint (h_peers h p))"
  let ?x = "(h_peers h p)\<lparr>pr_endpoint_for_incoming_connections := Some ?ep, pr_address := a\<rparr>"
  let ?acc = "Accepted (core_this_node_address (h_core h)) port (core_topHash h)"
  let ?y = "requests_send ?X N (Lookup a NET_LOOKUP_ALPHA) No_handler (requests_send ?X N ?acc No_handler ?x)"
  obtain k where k: "kademlia_tryAddPeer ((h_peers h)(p := ?x)) now p (h_handshaked_peers h) = Inr (True, k)" "p \<in> table k"
    using kademlia_adds [OF assms(1,3,4), of ?x] assms(5-8) by (auto simp: wf_address_def)
  let ?h = "h\<lparr>h_handshaked_peers := k, h_non_handshaked_peers := snd (basic_tryRemovePeer p (h_non_handshaked_peers h)), h_peers := (h_peers h)(p := ?y)\<rparr>"
  have "handle E N now p (Connect a port peers_top) h = handleReceivedTopBlockHash ?X N p peers_top ?h"
    using k assms(2)
    by (simp add: handle_Connect_def setServerEndpoint_def upd_peer_def tryAddToPool_def leave_non_handshaked_def getPublicEndpoint_def
        peer_send_def requestLookup_def setPort_def core_topHash_def Let_def)
  moreover have first: "pr_connection (requests_send ?X N ?acc No_handler ?x) = \<lparr>conn_is_closed = False,
      conn_pending_send_messages = [(frame (fst (prepareMessage ?X N ?acc (pr_next_message_id (h_peers h p)))), No_handler)],
      conn_written = [frame (fst (prepareMessage ?X N ?acc (pr_next_message_id (h_peers h p))))]\<rparr>"
    using send_first [of ?x ?X N ?acc] assms(9) by simp
  moreover note send_queued [of "requests_send ?X N ?acc No_handler ?x" ?X N "Lookup a NET_LOOKUP_ALPHA" No_handler]
  moreover have "p \<notin> set (snd (basic_tryRemovePeer p (h_non_handshaked_peers h)))" using assms(11) by (simp add: basic_tryRemovePeer_def)
  moreover have "sync_started ?h peers_top q = sync_started h peers_top q" for q by (simp add: sync_started_def core_topHash_def)
  ultimately show ?thesis
    using top_block_received [of ?h p ?X N peers_top] assms(10) k(2) by (auto simp: getPublicEndpoint_def)
qed

lemma accepted_received:
  assumes "room h (pr_endpoint (h_peers h p)) public_ep b" and "pr_endpoint_for_incoming_connections (h_peers h p) = Some public_ep"
    and "p \<notin> table (h_handshaked_peers h)"
    and "kademlia_inv (h_peers h) (h_handshaked_peers h)" and "kd_host_address (h_handshaked_peers h) = core_this_node_address (h_core h)"
    and "core_this_node_address (h_core h) \<noteq> b" and "wf_address (core_this_node_address (h_core h))" and "wf_address b"
    and "\<not> conn_is_closed (pr_connection (h_peers h p))" and "conn_pending_send_messages (pr_connection (h_peers h p)) \<noteq> []"
    and "pr_requested_block (h_peers h p) = None" and "distinct (h_non_handshaked_peers h)"
  shows "\<exists>h'. handle E N now p (Accepted b port peers_top) h = Inr h' \<and> p \<in> table (h_handshaked_peers h') \<and> p \<notin> set (h_non_handshaked_peers h')
    \<and> pr_address (h_peers h' p) = b \<and> getPublicEndpoint (h_peers h' p) = Inr public_ep \<and> sync_started h peers_top (h_peers h' p)"
proof -
  let ?X = "env_ext E"
  let ?x = "requests_send ?X N (Lookup b NET_LOOKUP_ALPHA) No_handler ((h_peers h p)\<lparr>pr_address := b\<rparr>)"
  obtain k where k: "kademlia_tryAddPeer ((h_peers h)(p := ?x)) now p (h_handshaked_peers h) = Inr (True, k)" "p \<in> table k"
    using kademlia_adds [OF assms(1,3,4), of ?x] assms(2,5-8) by (auto simp: wf_address_def)
  let ?h = "h\<lparr>h_peers := (h_peers h)(p := ?x), h_handshaked_peers := k, h_non_handshaked_peers := snd (basic_tryRemovePeer p (h_non_handshaked_peers h))\<rparr>"
  have "handle E N now p (Accepted b port peers_top) h = handleReceivedTopBlockHash ?X N p peers_top ?h"
    using k by (simp add: handle_Accepted_def upd_peer_def tryAddToPool_def leave_non_handshaked_def peer_send_def Let_def)
  moreover note send_queued [of "(h_peers h p)\<lparr>pr_address := b\<rparr>" ?X N "Lookup b NET_LOOKUP_ALPHA" No_handler]
  moreover have "p \<notin> set (snd (basic_tryRemovePeer p (h_non_handshaked_peers h)))" using assms(12) by (simp add: basic_tryRemovePeer_def)
  moreover have "sync_started ?h peers_top q = sync_started h peers_top q" for q by (simp add: sync_started_def core_topHash_def)
  ultimately show ?thesis
    using top_block_received [of ?h p ?X N peers_top] assms(2,9-11) k(2) by (auto simp: getPublicEndpoint_def)
qed

text \<open>Replacing a peer that is not in the table changes nothing for the table.\<close>

lemma room_cong:
  assumes "h_handshaked_peers h' = h_handshaked_peers h" and "\<forall>q\<in>table (h_handshaked_peers h). h_peers h' q = h_peers h q"
  shows "room h' = room h" and "kademlia_inv (h_peers h') (h_handshaked_peers h') = kademlia_inv (h_peers h) (h_handshaked_peers h)"
proof -
  show "room h' = room h" using assms by (auto simp: room_def fun_eq_iff)
  have "\<forall>q\<in>table (h_handshaked_peers h). ident (h_peers h' q) = ident (h_peers h q)" using assms(2) by simp
  then show "kademlia_inv (h_peers h') (h_handshaked_peers h') = kademlia_inv (h_peers h) (h_handshaked_peers h)"
    using kademlia_inv_cong [of "h_handshaked_peers h" "h_peers h'" "h_peers h"] kademlia_inv_cong [of "h_handshaked_peers h" "h_peers h" "h_peers h'"]
    by (auto simp: assms(1))
qed

text \<open>The host that is connected to, from the acceptance of the connection to its answer\<close>

lemma accepting_side:
  assumes libs: "big_ok (env_ext E)" "net_ok N" and inv: "host_inv E g h" and host: "core_this_node_address (h_core h) = b" "a \<noteq> b" "wf_address a"
    and tops: "length peers_top = 32" and port: "port \<noteq> 0" and new: "p \<notin> set (h_non_handshaked_peers h) \<union> table (h_handshaked_peers h)"
    and good: "mk_Rating N (env_leveldb E) ep (h_rating_db h) = Inr (r, db)" "isGood r" and room: "room h ep (setPort port ep) a"
  shows "\<exists>h1 h2. net_step E N t1 (Ev_accept p ep) h = Inr h1
    \<and> net_step E N t2 (Ev_receive p (fst (prepareMessage (env_ext E) N (Connect a port peers_top) 0) @ rest)) h1 = Inr h2
    \<and> p \<in> table (h_handshaked_peers h2) \<and> p \<notin> set (h_non_handshaked_peers h2) \<and> pr_address (h_peers h2 p) = a
    \<and> getPublicEndpoint (h_peers h2 p) = Inr (setPort port ep)
    \<and> conn_written (pr_connection (h_peers h2 p)) = [frame (fst (prepareMessage (env_ext E) N (Accepted b port (core_topHash h)) 0))]
    \<and> sync_started h peers_top (h_peers h2 p)"
proof -
  have invB: "kademlia_inv (h_peers h) (h_handshaked_peers h)" "kd_host_address (h_handshaked_peers h) = b" "wf_address b" "distinct (h_non_handshaked_peers h)"
    using inv host by (simp_all add: host_inv_def)
  define h1 where "h1 = h\<lparr>h_rating_db := db, h_peers := (h_peers h)(p := (mk_Peer False ep r)\<lparr>pr_is_started := True\<rparr>),
    h_non_handshaked_peers := insort p (h_non_handshaked_peers h)\<rparr>"
  have accept: "net_step E N t1 (Ev_accept p ep) h = Inr h1" using accept_step [OF good] new by (simp add: h1_def)
  let ?h = "upd_peer p (\<lambda>x. x\<lparr>pr_last_seen := t2\<rparr>) h1"
  have tab: "h_handshaked_peers ?h = h_handshaked_peers h" "\<forall>q\<in>table (h_handshaked_peers h). h_peers ?h q = h_peers h q"
    using new by (auto simp: upd_peer_def h1_def)
  have kinv: "kademlia_inv (h_peers ?h) (h_handshaked_peers h)" using room_cong(2) [OF tab] invB(1) unfolding tab(1) by blast
  have core: "h_core ?h = h_core h" "sync_started ?h = sync_started h"
    by (simp_all add: upd_peer_def h1_def sync_started_def core_topHash_def fun_eq_iff)
  have peer: "h_peers ?h p = (mk_Peer False ep r)\<lparr>pr_is_started := True, pr_last_seen := t2\<rparr>" "distinct (h_non_handshaked_peers ?h)"
    using new invB(4) by (simp_all add: upd_peer_def h1_def distinct_insort)
  have "\<exists>h'. handle E N t2 p (Connect a port peers_top) ?h = Inr h' \<and> p \<in> table (h_handshaked_peers h') \<and> p \<notin> set (h_non_handshaked_peers h')
      \<and> pr_address (h_peers h' p) = a \<and> getPublicEndpoint (h_peers h' p) = Inr (setPort port ep)
      \<and> conn_written (pr_connection (h_peers h' p)) = [frame (fst (prepareMessage (env_ext E) N (Accepted b port (core_topHash h)) 0))]
      \<and> sync_started h peers_top (h_peers h' p)"
    using connect_received [of ?h p port a E N t2 peers_top] room port new host invB peer core kinv
    by (simp add: room_cong(1) [OF tab] tab(1) mk_Peer_def core_topHash_def)
  moreover have "wf_message (env_ext E) (Connect a port peers_top)" using host tops by simp
  then have "net_step E N t2 (Ev_receive p (fst (prepareMessage (env_ext E) N (Connect a port peers_top) 0) @ rest)) h1 = handle E N t2 p (Connect a port peers_top) ?h"
    by (rule receive_prepared [OF libs]) (simp_all add: h1_def mk_Peer_def open_connection_def)
  ultimately show ?thesis using accept by auto
qed

text \<open>The host that connects, from the connection to the acceptance\<close>

lemma connecting_side:
  assumes libs: "big_ok (env_ext E)" "net_ok N" and inv: "host_inv E g h" and host: "core_this_node_address (h_core h) = a" "a \<noteq> b" "wf_address b"
    and tops: "length peers_top = 32" and new: "p \<notin> set (h_non_handshaked_peers h) \<union> table (h_handshaked_peers h)"
    and good: "mk_Rating N (env_leveldb E) peer_ep (h_rating_db h) = Inr (r, db)" "isGood r" and room: "room h peer_ep peer_ep b"
  shows "\<exists>h1 h2. net_step E N t1 (Ev_connected p ep peer_ep) h = Inr h1
    \<and> conn_written (pr_connection (h_peers h1 p)) = [frame (fst (prepareMessage (env_ext E) N (connect_message h) 0))]
    \<and> net_step E N t2 (Ev_receive p (fst (prepareMessage (env_ext E) N (Accepted b port peers_top) 0) @ rest)) h1 = Inr h2
    \<and> p \<in> table (h_handshaked_peers h2) \<and> p \<notin> set (h_non_handshaked_peers h2) \<and> pr_address (h_peers h2 p) = b
    \<and> getPublicEndpoint (h_peers h2 p) = Inr peer_ep \<and> sync_started h peers_top (h_peers h2 p)"
proof -
  let ?X = "env_ext E" and ?connect = "fst (prepareMessage (env_ext E) N (connect_message h) 0)"
  have invA: "kademlia_inv (h_peers h) (h_handshaked_peers h)" "kd_host_address (h_handshaked_peers h) = a" "wf_address a" "distinct (h_non_handshaked_peers h)"
    using inv host by (simp_all add: host_inv_def)
  define oA where "oA = outgoing_peer ?X N (connect_message h) peer_ep r"
  define h1 where "h1 = h\<lparr>h_connector_in_process := h_connector_in_process h - {ep}, h_rating_db := db,
    h_peers := (h_peers h)(p := oA), h_non_handshaked_peers := insort p (h_non_handshaked_peers h)\<rparr>"
  have connect: "net_step E N t1 (Ev_connected p ep peer_ep) h = Inr h1"
    using connect_step [OF good] new by (simp add: h1_def oA_def)
  have oA: "pr_connection oA = \<lparr>conn_is_closed = False, conn_pending_send_messages = [(frame ?connect, No_handler)], conn_written = [frame ?connect]\<rparr>"
    "pr_endpoint oA = peer_ep" "pr_endpoint_for_incoming_connections oA = Some peer_ep" "pr_requested_block oA = None" "pr_is_started oA"
    using send_first [of "(mk_Peer True peer_ep r)\<lparr>pr_endpoint_for_incoming_connections := Some peer_ep, pr_is_started := True\<rparr>" ?X N "connect_message h"]
    by (simp_all add: oA_def outgoing_peer_def mk_Peer_def)
  let ?h = "upd_peer p (\<lambda>x. x\<lparr>pr_last_seen := t2\<rparr>) h1"
  have tab: "h_handshaked_peers ?h = h_handshaked_peers h" "\<forall>q\<in>table (h_handshaked_peers h). h_peers ?h q = h_peers h q"
    using new by (auto simp: upd_peer_def h1_def)
  have kinv: "kademlia_inv (h_peers ?h) (h_handshaked_peers h)" using room_cong(2) [OF tab] invA(1) unfolding tab(1) by blast
  have core: "h_core ?h = h_core h" "sync_started ?h = sync_started h"
    by (simp_all add: upd_peer_def h1_def sync_started_def core_topHash_def fun_eq_iff)
  have peer: "h_peers ?h p = oA\<lparr>pr_last_seen := t2\<rparr>" "distinct (h_non_handshaked_peers ?h)"
    using new invA(4) by (simp_all add: upd_peer_def h1_def distinct_insort)
  have "\<exists>h'. handle E N t2 p (Accepted b port peers_top) ?h = Inr h' \<and> p \<in> table (h_handshaked_peers h') \<and> p \<notin> set (h_non_handshaked_peers h')
      \<and> pr_address (h_peers h' p) = b \<and> getPublicEndpoint (h_peers h' p) = Inr peer_ep \<and> sync_started h peers_top (h_peers h' p)"
    using accepted_received [of ?h p peer_ep b E N t2 port peers_top] room new host invA peer core oA kinv
    by (simp add: room_cong(1) [OF tab] tab(1))
  moreover have "wf_message ?X (Accepted b port peers_top)" using host tops by simp
  then have "net_step E N t2 (Ev_receive p (fst (prepareMessage ?X N (Accepted b port peers_top) 0) @ rest)) h1 = handle E N t2 p (Accepted b port peers_top) ?h"
    by (rule receive_prepared [OF libs]) (simp_all add: h1_def oA)
  ultimately show ?thesis using connect oA(1) by (auto simp: h1_def)
qed

section \<open>Properties\<close>

text \<open>
  C6: two hosts that connect become peers. When host \<open>A\<close> connects to host \<open>B\<close>, both rate the other's endpoint as good, \<open>A\<close> has
  a public port and both tables have room, then: \<open>A\<close> sends CONNECT as its first message; on receiving it \<open>B\<close> puts \<open>A\<close> into its table under
  its address and its public endpoint and answers ACCEPTED as its first message; on receiving that, \<open>A\<close> puts \<open>B\<close> into its table. No
  step fails, neither peer remains among the ones without handshake, and each host either has the other's top block
  already or has requested it.
\<close>

theorem handshake_completes:
  assumes libs: "big_ok (env_ext E)" "net_ok N" and inv: "host_inv E g hA" "host_inv E g hB"
    and ports: "h_server_public_port hA \<noteq> 0"
    and addresses: "core_this_node_address (h_core hA) = a" "core_this_node_address (h_core hB) = b" "a \<noteq> b"
    and tops: "length (core_topHash hA) = 32" "length (core_topHash hB) = 32"
    and new: "pa \<notin> set (h_non_handshaked_peers hA) \<union> table (h_handshaked_peers hA)" "pb \<notin> set (h_non_handshaked_peers hB) \<union> table (h_handshaked_peers hB)"
    and good: "mk_Rating N (env_leveldb E) epB (h_rating_db hA) = Inr (rA, dbA)" "isGood rA"
      "mk_Rating N (env_leveldb E) epA (h_rating_db hB) = Inr (rB, dbB)" "isGood rB"
    and room: "room hA epB epB b" "room hB epA (setPort (h_server_public_port hA) epA) a"
  shows "\<exists>hA1 hB1 hB2 hA2 connect_data accepted_data.
      net_step E N t1 (Ev_connected pa ep epB) hA = Inr hA1 \<and> conn_written (pr_connection (h_peers hA1 pa)) = [frame connect_data]
    \<and> net_step E N t2 (Ev_accept pb epA) hB = Inr hB1 \<and> net_step E N t3 (Ev_receive pb (connect_data @ rest)) hB1 = Inr hB2
    \<and> conn_written (pr_connection (h_peers hB2 pb)) = [frame accepted_data]
    \<and> net_step E N t4 (Ev_receive pa (accepted_data @ rest')) hA1 = Inr hA2
    \<and> pa \<in> table (h_handshaked_peers hA2) \<and> pa \<notin> set (h_non_handshaked_peers hA2) \<and> pr_address (h_peers hA2 pa) = b
    \<and> getPublicEndpoint (h_peers hA2 pa) = Inr epB \<and> sync_started hA (core_topHash hB) (h_peers hA2 pa)
    \<and> pb \<in> table (h_handshaked_peers hB2) \<and> pb \<notin> set (h_non_handshaked_peers hB2) \<and> pr_address (h_peers hB2 pb) = a
    \<and> getPublicEndpoint (h_peers hB2 pb) = Inr (setPort (h_server_public_port hA) epA) \<and> sync_started hB (core_topHash hA) (h_peers hB2 pb)"
proof -
  have wf: "wf_address a" "wf_address b" using inv addresses by (simp_all add: host_inv_def)
  have connect: "connect_message hA = Connect a (h_server_public_port hA) (core_topHash hA)" by (simp add: connect_message_def addresses(1))
  show ?thesis
    using accepting_side [OF libs inv(2) addresses(2,3) wf(1) tops(1) ports new(2) good(3,4) room(2), of t2 t3 rest]
      connecting_side [OF libs inv(1) addresses(1,3) wf(2) tops(2) new(1) good(1,2) room(1), of t1 ep t4 "h_server_public_port hA" rest']
    unfolding connect by blast
qed

text \<open>Two fresh hosts of the examples, with the same genesis block and different addresses\<close>

lemma demo_host_ready:
  assumes "mk_Blockchain demo_genesis = Inr bc" and "c = demo_core_on bc\<lparr>core_this_node_address := a\<rparr>" and "wf_address a"
  shows "host_inv demo_env demo_genesis (demo_host c)" and "length (core_topHash (demo_host c)) = 32"
    and "room (demo_host c) e e' b"
    and "\<exists>r db. mk_Rating demo_net (env_leveldb demo_env) e (h_rating_db (demo_host c)) = Inr (r, db) \<and> isGood r"
proof -
  have "core_reachable demo_env demo_genesis c"
    using assms(2) by (intro core_start [OF assms(1)]) (auto simp: db_lookup_def map_leveldb_def demo_env_def demo_core_on_def demo_core_def)
  then show "host_inv demo_env demo_genesis (demo_host c)"
    using host_reachable_inv [OF _ _ demo_host_reachable] demo_ext_ok(2) leveldb_ok_map assms(2,3) by (simp add: demo_env_def)
  have "length (blk_this_block_hash demo_genesis) = 32"
    using demo_blocks(1) by (simp add: wf_iblock_def computeThisBlockHash_def sha256_compute_def demo_ext_def)
  then show "length (core_topHash (demo_host c)) = 32"
    using assms(1,2) by (auto simp: core_topHash_def demo_host_def mk_Host_def getTopBlockHash_def mk_Blockchain_eq mk_bc_def rbind_eq_Inr)
  show "room (demo_host c) e e' b"
    by (simp add: room_def demo_host_def mk_Host_def table_def mk_KademliaPeerPool_def MAX_BUCKET_SIZE_def)
  obtain db' where "mk_Rating demo_net map_leveldb e (h_rating_db (demo_host c))
      = Inr (\<lparr>rt_serialized_ep = toBytes (serialize_endpoint demo_net) e, rt_value = 20, rt_ts = 0\<rparr>, db')"
    by (rule mk_Rating_new [OF leveldb_ok_map, of "h_rating_db (demo_host c)" demo_net e])
      (simp_all add: demo_host_def mk_Host_def db_lookup_def map_leveldb_def)
  then show "\<exists>r db. mk_Rating demo_net (env_leveldb demo_env) e (h_rating_db (demo_host c)) = Inr (r, db) \<and> isGood r"
    by (simp add: demo_env_def)
qed

theorem handshake_completes_witness:
  "\<exists>hA hB hA1 hB1 hB2 hA2 connect_data accepted_data.
      net_step demo_env demo_net 1 (Ev_connected 3 \<lparr>ep_address = 9, ep_port = 9\<rparr> \<lparr>ep_address = 9, ep_port = 9\<rparr>) hA = Inr hA1
    \<and> net_step demo_env demo_net 1 (Ev_accept 4 \<lparr>ep_address = 8, ep_port = 8\<rparr>) hB = Inr hB1
    \<and> net_step demo_env demo_net 2 (Ev_receive 4 connect_data) hB1 = Inr hB2
    \<and> net_step demo_env demo_net 3 (Ev_receive 3 accepted_data) hA1 = Inr hA2
    \<and> 3 \<in> table (h_handshaked_peers hA2) \<and> 4 \<in> table (h_handshaked_peers hB2)
    \<and> pr_address (h_peers hA2 3) = replicate 20 1 \<and> pr_address (h_peers hB2 4) = address_null"
proof -
  obtain bc where bc: "mk_Blockchain demo_genesis = Inr bc" by (rule demo_next_chain)
  define c d where "c = demo_core_on bc\<lparr>core_this_node_address := address_null\<rparr>"
    and "d = demo_core_on bc\<lparr>core_this_node_address := replicate 20 1\<rparr>"
  let ?eA = "\<lparr>ep_address = 8, ep_port = 8\<rparr>" and ?eB = "\<lparr>ep_address = 9, ep_port = 9\<rparr>"
  have wf: "wf_address address_null" "wf_address (replicate 20 1)"
    by (simp_all add: wf_address_def address_null_def LENGTH_IN_BYTES_def)
  note A = demo_host_ready [OF bc c_def wf(1)] and B = demo_host_ready [OF bc d_def wf(2)]
  obtain rA dA rB dB where r: "mk_Rating demo_net (env_leveldb demo_env) ?eB (h_rating_db (demo_host c)) = Inr (rA, dA)" "isGood rA"
    "mk_Rating demo_net (env_leveldb demo_env) ?eA (h_rating_db (demo_host d)) = Inr (rB, dB)" "isGood rB"
    using A(4) B(4) by metis
  have big: "big_ok (env_ext demo_env)" using demo_ext_ok(2) by (simp add: demo_env_def)
  have facts: "h_server_public_port (demo_host c) \<noteq> 0" "core_this_node_address (h_core (demo_host c)) = address_null"
    "core_this_node_address (h_core (demo_host d)) = replicate 20 1" "address_null \<noteq> replicate 20 1"
    "3 \<notin> set (h_non_handshaked_peers (demo_host c)) \<union> table (h_handshaked_peers (demo_host c))"
    "4 \<notin> set (h_non_handshaked_peers (demo_host d)) \<union> table (h_handshaked_peers (demo_host d))"
    by (simp_all add: demo_host_def mk_Host_def c_def d_def table_def mk_KademliaPeerPool_def address_null_def LENGTH_IN_BYTES_def)
  show ?thesis
    using handshake_completes [OF big net_ok_demo A(1) B(1) facts(1-4) A(2) B(2) facts(5,6) r A(3) B(3),
        where rest = "[]" and rest' = "[]" and ?t1.0 = 1 and ?t2.0 = 1 and ?t3.0 = 2 and ?t4.0 = 3 and ep = ?eB]
    unfolding append_Nil2 by blast
qed

section \<open>A node after an exception\<close>

text \<open>
  A peer announces the overspending block. The exception of its second transaction is caught by
  the connection, and the node goes on with that block on the top of its chain and in its
  database. No other peer is told of it.
\<close>

theorem node_goes_on_after_overspending_block:
  "\<exists>h h'. host_reachable demo_env demo_net demo_genesis h
     \<and> net_step demo_env demo_net 5 (Ev_receive 0 (fst (prepareMessage demo_ext demo_net
          (NewBlock (blk_this_block_hash demo_overspending) demo_overspending) 0))) h = Inl LogicError
     \<and> net_step_left demo_env demo_net 5 (Ev_receive 0 (fst (prepareMessage demo_ext demo_net
          (NewBlock (blk_this_block_hash demo_overspending) demo_overspending) 0))) h = h'
     \<and> host_reachable demo_env demo_net demo_genesis h'
     \<and> block_taken demo_env demo_overspending (h_core h) (h_core h') \<and> core_events (h_core h') = core_events (h_core h)"
proof -
  let ?b = demo_overspending and ?m = "NewBlock (blk_this_block_hash demo_overspending) demo_overspending"
  let ?data = "fst (prepareMessage demo_ext demo_net ?m 0)"
  obtain bc pb' where bc: "mk_Blockchain demo_genesis = Inr bc" "core_tryAddBlock demo_env 5 ?b (demo_core_on bc) = Inl LogicError"
    "checkBlockTransactions demo_env (demo_core_on bc) ?b = Inr True"
    "persistent_tryAddBlock demo_ext map_leveldb 5 ?b (core_blockchain (demo_core_on bc)) = Inr (ADDED, pb')"
    by (rule demo_overspending_throws)
  let ?c = "demo_core_on bc" and ?h = "demo_host (demo_core_on bc)"
  let ?h1 = "upd_peer 0 (\<lambda>x. x\<lparr>pr_last_seen := 5\<rparr>) ?h" and ?h' = "net_step_left demo_env demo_net 5 (Ev_receive 0 ?data) ?h"
  have env: "env_ext demo_env = demo_ext" "env_leveldb demo_env = map_leveldb" by (simp_all add: demo_env_def)
  have reach: "host_reachable demo_env demo_net demo_genesis ?h" by (rule demo_host_reachable [OF demo_core_reachable [OF bc(1)]]) simp
  have p: "pr_is_started (peer_at ?h 0)" "\<not> isSessionClosed (peer_at ?h 0)" and core: "h_core ?h1 = ?c" "h_core ?h = ?c"
    by (simp_all add: demo_host_def mk_Host_def demo_peer_def isSessionClosed_def open_connection_def upd_peer_def)
  have wf: "wf_message (env_ext demo_env) ?m" and X: "big_ok (env_ext demo_env)"
    using demo_overspending_facts(1) demo_ext_ok(2) env(1) by (simp_all add: wf_iblock_def computeThisBlockHash_def sha256_compute_def demo_ext_def)
  have hash: "sha256_compute demo_ext (toBytes (serialize_iblock demo_ext) ?b) = blk_this_block_hash ?b"
    by (rule wf_iblock_hash [OF demo_overspending_facts(1)])
  have "handle demo_env demo_net 5 0 ?m ?h1 = Inl LogicError"
    using hash bc(2) by (simp add: handle_NewBlock_def handleReceivedNewBlock_def assert_that_def core env(1))
  then have throws: "net_step demo_env demo_net 5 (Ev_receive 0 ?data) ?h = Inl LogicError"
    using receive_prepared [OF X net_ok_demo wf, of ?h 0 5 0 "[]"] p env(1) by (simp add: isSessionClosed_def)
  have left: "h_core ?h' = core_tryAddBlock_left demo_env 5 ?b ?c"
    using receive_prepared_left [OF X net_ok_demo wf, of ?h 0 5 0 "[]"] p env(1) hash bc(2)
    by (simp add: isSessionClosed_def handle_NewBlock_left_def handleReceivedNewBlock_left_def core)
  have "db_inited (pb_database (core_blockchain ?c))" by simp
  from leveldb_ok_map [folded env(2)] this bc(2) [unfolded core_throws_locked] show ?thesis
  proof (cases rule: core_left_cases)
    case unchanged
    then show ?thesis using bc(3,4) env by simp
  next
    case (executing pb1)
    have "block_taken demo_env ?b ?c (core_tryAddBlock_left demo_env 5 ?b ?c)"
      by (rule block_taken_added [OF leveldb_ok_map [folded env(2)] core_reachable_inv [OF _ demo_core_reachable [OF bc(1)]] _ executing(2)])
        (use executing(3) demo_overspending_facts(1) leveldb_ok_map env in \<open>simp_all add: same_node_def\<close>)
    then show ?thesis using reach throws left host_throws [OF reach _ throws] executing(3) core(2)
      by (intro exI [of _ ?h] exI [of _ ?h']) (simp add: same_node_def)
  qed
qed

end
