(* ===== verification/Requests.thy ===== *)
theory Requests
  imports Pools Handshake
begin

text \<open>
  The classes \<^verbatim>\<open>Request\<close> and \<^verbatim>\<open>Requests\<close> of \<^verbatim>\<open>src/core/peer.hpp\<close>, \<^verbatim>\<open>peer.cpp\<close> and \<^verbatim>\<open>peer.tpp\<close>: the numbering of
  messages, the requests that wait for a response, the dispatch of a received message to a
  waiting request or to the default callback, and the time-out of a request.
  The state that callbacks act on is \<open>'s\<close>; it contains the channel of the object, the session and
  the next message number, while the pool of waiting requests is locked when they run.
\<close>

section \<open>Requests that wait for a response\<close>

text \<open>
  A response callback reads from the archive it is given and leaves it somewhere.
  \<open>rq_timer_self\<close> is the object the weak pointer captured by the timer refers to.
\<close>

type_synonym 's response_callback = "iarchive \<Rightarrow> 's \<Rightarrow> (iarchive \<times> 's) res"

record 's request =
  rq_id :: "16 word"
  rq_response_callback :: "'s response_callback"
  rq_timeout_callback :: "'s \<Rightarrow> 's res"
  rq_is_already_processed :: bool
  rq_timer_self :: "ptr option"

text \<open>
  The weak pointer is taken from \<^verbatim>\<open>weak_from_this()\<close> in the constructor, when no shared pointer owns the
  object yet: it is empty.
\<close>

definition mk_Request :: "16 word \<Rightarrow> 's response_callback \<Rightarrow> ('s \<Rightarrow> 's res) \<Rightarrow> 's request" where
  "mk_Request i response_callback timeout_callback =
     \<lparr>rq_id = i, rq_response_callback = response_callback, rq_timeout_callback = timeout_callback,
      rq_is_already_processed = False, rq_timer_self = None\<rparr>"

definition getId :: "'s request \<Rightarrow> 16 word" where
  "getId r = rq_id r"

definition runCallback :: "iarchive \<Rightarrow> 's request \<Rightarrow> 's \<Rightarrow> ('s request \<times> iarchive \<times> 's) res" where
  "runCallback ia r s =
     (if \<not> rq_is_already_processed r
      then rbind (rq_response_callback r ia s) (\<lambda>(ia, s). Inr (r\<lparr>rq_is_already_processed := True\<rparr>, ia, s))
      else Inr (r, ia, s))"

text \<open>The handler of the timer of a request\<close>

definition request_on_timer :: "'s request \<Rightarrow> 's request owning_pool \<Rightarrow> 's \<Rightarrow> ('s request owning_pool \<times> 's) res" where
  "request_on_timer r active_requests s =
     (case rq_timer_self r of
        Some self \<Rightarrow>
          if \<not> rq_is_already_processed r
          then rbind (disown self active_requests) (\<lambda>active_requests.
               rbind (rq_timeout_callback r s) (\<lambda>s. Inr (active_requests, s)))
          else Inr (active_requests, s)
      | None \<Rightarrow> Inr (active_requests, s))"

section \<open>The requests of a session\<close>

text \<open>\<open>None\<close> is a session that no longer exists.\<close>

record channel =
  ch_session :: "connection option"
  ch_next_message_id :: "16 word"

record 's requests =
  rqs_active_requests :: "'s request owning_pool"
  rqs_default_callback :: "'s response_callback option"
  rqs_close_callback :: "('s \<Rightarrow> 's res) option"

definition mk_Requests :: "connection option \<Rightarrow> (channel \<times> 's requests) res" where
  "mk_Requests session =
     (case session of
        Some s \<Rightarrow> Inr (\<lparr>ch_session = session, ch_next_message_id = 0\<rparr>,
          \<lparr>rqs_active_requests = [], rqs_default_callback = None, rqs_close_callback = None\<rparr>)
      | None \<Rightarrow> Inl ClosedSession)"

definition setDefaultCallback :: "'s response_callback \<Rightarrow> 's requests \<Rightarrow> 's requests" where
  "setDefaultCallback cb r = r\<lparr>rqs_default_callback := Some cb\<rparr>"

definition setCloseCallback :: "('s \<Rightarrow> 's res) \<Rightarrow> 's requests \<Rightarrow> 's requests" where
  "setCloseCallback cb r = r\<lparr>rqs_close_callback := Some cb\<rparr>"

definition channel_send :: "ext \<Rightarrow> net_ext \<Rightarrow> message \<Rightarrow> send_handler \<Rightarrow> channel \<Rightarrow> channel res" where
  "channel_send X N msg cb ch =
     (case ch_session ch of
        Some s \<Rightarrow>
          (case prepareMessage X N msg (ch_next_message_id ch) of
             (data, next_message_id) \<Rightarrow> Inr (ch\<lparr>ch_next_message_id := next_message_id, ch_session := Some (session_send data cb s)\<rparr>))
      | None \<Rightarrow> Inl SendOnClosedConnection)"

text \<open>The new request lives at the address \<open>p\<close>. Its number is taken before the message takes one.\<close>

definition requestWaitResponseById ::
    "ext \<Rightarrow> net_ext \<Rightarrow> ptr \<Rightarrow> message \<Rightarrow> 's response_callback \<Rightarrow> ('s \<Rightarrow> 's res) \<Rightarrow> send_handler \<Rightarrow> channel \<times> 's requests \<Rightarrow> (channel \<times> 's requests) res" where
  "requestWaitResponseById X N p msg response_callback timeout_callback cb = (\<lambda>(ch, r).
     (case ch_session ch of
        Some s \<Rightarrow>
          (let r = r\<lparr>rqs_active_requests :=
                 snd (own p (mk_Request (ch_next_message_id ch) response_callback timeout_callback) (rqs_active_requests r))\<rparr>;
               ch = ch\<lparr>ch_next_message_id := ch_next_message_id ch + 1\<rparr>;
               (data, next_message_id) = prepareMessage X N msg (ch_next_message_id ch)
           in Inr (ch\<lparr>ch_next_message_id := next_message_id, ch_session := Some (session_send data cb s)\<rparr>, r))
      | None \<Rightarrow> Inl SendOnClosedConnection))"

text \<open>The callback given to \<^verbatim>\<open>disownIf\<close>: the flag \<^verbatim>\<open>is_handled\<close> and the archive are captured by reference.\<close>

definition try_respond :: "16 word \<Rightarrow> 's request \<Rightarrow> bool \<times> iarchive \<times> 's \<Rightarrow> (bool \<times> 's request \<times> bool \<times> iarchive \<times> 's) res" where
  "try_respond msg_id request = (\<lambda>(is_handled, ia, s).
     (if getId request = msg_id
      then rbind (runCallback ia request s) (\<lambda>(request, ia, s). Inr (True, request, True, ia, s))
      else Inr (False, request, is_handled, ia, s)))"

definition requests_onMessageReceive :: "bytes \<Rightarrow> 's requests \<Rightarrow> 's \<Rightarrow> ('s requests \<times> 's) res" where
  "requests_onMessageReceive received_bytes r s =
     rbind (deserialize_u16 \<lparr>ia_bytes = received_bytes, ia_index = 0\<rparr>) (\<lambda>(msg_id, ia).
     rbind (disownIf (try_respond msg_id) (rqs_active_requests r) (False, ia, s)) (\<lambda>(active_requests, is_handled, ia, s).
       let r = r\<lparr>rqs_active_requests := active_requests\<rparr> in
       case rqs_default_callback r of
         Some cb \<Rightarrow> if \<not> is_handled then rbind (cb ia s) (\<lambda>(ia, s). Inr (r, s)) else Inr (r, s)
       | None \<Rightarrow> Inr (r, s)))"

definition requests_onClose :: "'s requests \<Rightarrow> 's \<Rightarrow> 's res" where
  "requests_onClose r s = (case rqs_close_callback r of Some cb \<Rightarrow> cb s | None \<Rightarrow> Inr s)"

definition SessionHandler_onClose :: "'s requests \<Rightarrow> 's \<Rightarrow> ('s requests \<times> 's) res" where
  "SessionHandler_onClose r s =
     (let r = r\<lparr>rqs_active_requests := pool_clear (rqs_active_requests r)\<rparr>
      in rbind (requests_onClose r s) (\<lambda>s. Inr (r, s)))"

definition SessionHandler_onReceive :: "bytes \<Rightarrow> 's requests \<Rightarrow> 's \<Rightarrow> ('s requests \<times> 's) res" where
  "SessionHandler_onReceive bytes r s = requests_onMessageReceive bytes r s"

section \<open>Dispatch\<close>

lemma disownIf_unmatched:
  "\<forall>e\<in>set pool. rq_id (snd e) \<noteq> i \<Longrightarrow> disownIf (try_respond i) pool (b, ia, s) = Inr (pool, b, ia, s)"
  by (induction pool) (auto simp: try_respond_def getId_def)

lemma disownIf_matched:
  assumes "\<forall>e\<in>set xs. rq_id (snd e) \<noteq> i" and "\<forall>e\<in>set ys. rq_id (snd e) \<noteq> i"
    and "rq_id r = i" and "\<not> rq_is_already_processed r" and "rq_response_callback r ia s = Inr (ia', s')"
  shows "disownIf (try_respond i) (xs @ (p, r) # ys) (b, ia, s) = Inr (xs @ ys, True, ia', s')"
  using assms(1)
proof (induction xs)
  case Nil
  have "try_respond i r (b, ia, s) = Inr (True, r\<lparr>rq_is_already_processed := True\<rparr>, True, ia', s')"
    using assms(3-5) by (simp add: try_respond_def getId_def runCallback_def)
  then show ?case using disownIf_unmatched [OF assms(2)] by simp
next
  case (Cons e xs)
  then show ?case by (cases e) (simp add: try_respond_def getId_def)
qed

lemma read_id: "deserialize_u16 \<lparr>ia_bytes = serialize_u16 i [] @ body, ia_index = 0\<rparr> = Inr (i, arch (serialize_u16 i []) body)"
  using u16.deser_ser [OF TrueI, of "[]" i body] by (simp add: arch_def)

text \<open>A message whose number nobody waits for goes to the default callback and changes no request.\<close>

lemma receive_unmatched:
  assumes "\<forall>e\<in>set (rqs_active_requests r). rq_id (snd e) \<noteq> i" and "rqs_default_callback r = Some d"
  shows "requests_onMessageReceive (serialize_u16 i [] @ body) r s
    = rbind (d (arch (serialize_u16 i []) body) s) (\<lambda>(ia, s). Inr (r, s))"
  using disownIf_unmatched [OF assms(1)] assms(2) by (simp add: requests_onMessageReceive_def read_id)

text \<open>A message whose number one request waits for is given to that request alone, which then leaves the pool.\<close>

lemma receive_matched:
  assumes "rqs_active_requests r = xs @ (p, q) # ys" and "\<forall>e\<in>set xs \<union> set ys. rq_id (snd e) \<noteq> i"
    and "rq_id q = i" and "\<not> rq_is_already_processed q" and "rq_response_callback q (arch (serialize_u16 i []) body) s = Inr (ia', s')"
  shows "requests_onMessageReceive (serialize_u16 i [] @ body) r s = Inr (r\<lparr>rqs_active_requests := xs @ ys\<rparr>, s')"
  using disownIf_matched [of xs i ys q, OF _ _ assms(3-5)] assms(1,2)
  by (simp add: requests_onMessageReceive_def read_id Let_def split: option.splits)

section \<open>Reachable states\<close>

text \<open>What a program can do with the requests of a session. A new request is an object at a new address.\<close>

inductive requests_reachable :: "ext \<Rightarrow> net_ext \<Rightarrow> 's requests \<Rightarrow> bool" for X N where
  rqs_start: "mk_Requests session = Inr (ch, r) \<Longrightarrow> requests_reachable X N r"
| rqs_default: "requests_reachable X N r \<Longrightarrow> requests_reachable X N (setDefaultCallback cb r)"
| rqs_close: "requests_reachable X N r \<Longrightarrow> requests_reachable X N (setCloseCallback ccb r)"
| rqs_request: "requests_reachable X N r \<Longrightarrow> \<not> isOwning p (rqs_active_requests r) \<Longrightarrow>
     requestWaitResponseById X N p msg rc tc cb (ch, r) = Inr (ch', r') \<Longrightarrow> requests_reachable X N r'"
| rqs_receive: "requests_reachable X N r \<Longrightarrow> SessionHandler_onReceive bytes r s = Inr (r', s') \<Longrightarrow> requests_reachable X N r'"
| rqs_closed: "requests_reachable X N r \<Longrightarrow> SessionHandler_onClose r s = Inr (r', s') \<Longrightarrow> requests_reachable X N r'"
| rqs_timer: "requests_reachable X N r \<Longrightarrow> (p, q) \<in> set (rqs_active_requests r) \<Longrightarrow>
     request_on_timer q (rqs_active_requests r) s = Inr (pool, s') \<Longrightarrow> requests_reachable X N (r\<lparr>rqs_active_requests := pool\<rparr>)"

definition request_fresh :: "'s request \<Rightarrow> bool" where
  "request_fresh q \<longleftrightarrow> \<not> rq_is_already_processed q \<and> rq_timer_self q = None"

definition requests_inv :: "'s requests \<Rightarrow> bool" where
  "requests_inv r \<longleftrightarrow> sorted_pool (rqs_active_requests r) \<and> (\<forall>e\<in>set (rqs_active_requests r). request_fresh (snd e))"

text \<open>Going through the pool leaves the requests with other numbers as they are.\<close>

lemma disownIf_rest:
  "disownIf (try_respond i) pool st = Inr (pool', st') \<Longrightarrow> pool' = filter (\<lambda>e. rq_id (snd e) \<noteq> i) pool"
proof (induction pool arbitrary: st pool' st')
  case (Cons e pool)
  obtain p q b ia s where e: "e = (p, q)" "st = (b, ia, s)" by (metis surj_pair)
  show ?case using Cons by (auto simp: e try_respond_def getId_def rbind_eq_Inr split: if_splits)
qed simp

lemma sorted_pool_filter: "sorted_pool pool \<Longrightarrow> sorted_pool (filter P pool)"
  by (simp add: sorted_pool_def sorted_filter distinct_map_filter)

lemma receive_rest:
  assumes "requests_onMessageReceive bytes r s = Inr (r', s')"
  obtains i where "r' = r\<lparr>rqs_active_requests := filter (\<lambda>e. rq_id (snd e) \<noteq> i) (rqs_active_requests r)\<rparr>"
proof -
  obtain i ia where "deserialize_u16 \<lparr>ia_bytes = bytes, ia_index = 0\<rparr> = Inr (i, ia)"
    using assms by (auto simp: requests_onMessageReceive_def rbind_eq_Inr)
  then obtain pool b ia' s'' where d: "disownIf (try_respond i) (rqs_active_requests r) (False, ia, s) = Inr (pool, b, ia', s'')"
    using assms by (auto simp: requests_onMessageReceive_def rbind_eq_Inr)
  then have "r' = r\<lparr>rqs_active_requests := pool\<rparr>"
    using assms \<open>deserialize_u16 _ = _\<close>
    by (auto simp: requests_onMessageReceive_def rbind_eq_Inr Let_def split: option.splits if_splits)
  then show ?thesis using that disownIf_rest [OF d] by simp
qed

lemma requests_reachable_inv: "requests_reachable X N r \<Longrightarrow> requests_inv r"
proof (induction rule: requests_reachable.induct)
  case (rqs_request r p msg rc tc cb ch ch' r')
  let ?q = "mk_Request (ch_next_message_id ch) rc tc"
  have "r' = r\<lparr>rqs_active_requests := snd (own p ?q (rqs_active_requests r))\<rparr>"
    using rqs_request(3) by (auto simp: requestWaitResponseById_def Let_def split: option.splits prod.splits)
  moreover have "request_fresh ?q" by (simp add: request_fresh_def mk_Request_def)
  ultimately show ?case using rqs_request.IH sorted_pool_own [of "rqs_active_requests r" p ?q] by (auto simp: requests_inv_def own_def)
next
  case (rqs_receive r bytes s r' s')
  obtain i where "r' = r\<lparr>rqs_active_requests := filter (\<lambda>e. rq_id (snd e) \<noteq> i) (rqs_active_requests r)\<rparr>"
    by (rule receive_rest) (use rqs_receive(2) in \<open>simp add: SessionHandler_onReceive_def\<close>)
  then show ?case using rqs_receive.IH sorted_pool_filter by (auto simp: requests_inv_def)
next
  case (rqs_timer r p q s pool s')
  then have "rq_timer_self q = None" by (auto simp: requests_inv_def request_fresh_def)
  then show ?case using rqs_timer by (auto simp: request_on_timer_def requests_inv_def)
qed (auto simp: mk_Requests_def requests_inv_def setDefaultCallback_def setCloseCallback_def sorted_pool_def SessionHandler_onClose_def
    pool_clear_def Let_def rbind_eq_Inr split: option.splits)

section \<open>The requests of a peer\<close>

text \<open>
  What the constructor of \<^verbatim>\<open>Peer\<close> and \<^verbatim>\<open>Peer::startSession\<close> make of the requests of a peer. The archive
  that the default callback leaves is not used again.
\<close>

definition peer_channel :: "peer \<Rightarrow> channel" where
  "peer_channel q = \<lparr>ch_session = Some (pr_connection q), ch_next_message_id = pr_next_message_id q\<rparr>"

definition peer_default_callback :: "'s node_env \<Rightarrow> net_ext \<Rightarrow> time \<Rightarrow> ptr \<Rightarrow> 's host response_callback" where
  "peer_default_callback E N now p ia h = rbind (process E N now p ia h) (\<lambda>h. Inr (ia, h))"

definition peer_requests :: "'s node_env \<Rightarrow> net_ext \<Rightarrow> time \<Rightarrow> ptr \<Rightarrow> bool \<Rightarrow> 's host requests" where
  "peer_requests E N now p is_started =
     (let r = \<lparr>rqs_active_requests = [], rqs_default_callback = None, rqs_close_callback = None\<rparr>
      in if is_started then setCloseCallback (\<lambda>h. Inr (detachFromPools p h)) (setDefaultCallback (peer_default_callback E N now p) r) else r)"

section \<open>Properties\<close>

text \<open>
  No request ever times out. In every state that the operations on the requests of a session
  can reach, the waiting requests are at different addresses, none has been answered, and the
  handler of the timer of each of them does nothing, whatever the time-out callback is: the timer
  holds a weak pointer taken in the constructor, which is empty.
\<close>

theorem requests_never_time_out:
  assumes "requests_reachable X N r" and "(p, q) \<in> set (rqs_active_requests r)"
  shows "distinct (map fst (rqs_active_requests r)) \<and> \<not> rq_is_already_processed q
    \<and> request_on_timer q (rqs_active_requests r) s = Inr (rqs_active_requests r, s)"
  using requests_reachable_inv [OF assms(1)] assms(2)
  by (auto simp: requests_inv_def sorted_pool_def request_fresh_def request_on_timer_def)

text \<open>
  C36: a request waits for the wrong response. When no other request waits, a request issued with
  the next message number \<open>n\<close> waits for \<open>n\<close>, but the message itself is sent with the number \<open>n + 1\<close>:
  a response that repeats the number of the message goes to the default callback and leaves the
  request waiting, and any message that carries \<open>n\<close> is taken for the response and ends the wait.
\<close>

theorem request_waits_for_previous_id:
  assumes "ch_session ch = Some c" and "rqs_active_requests r = []" and "rqs_default_callback r = Some d" and "ch_next_message_id ch = n"
  shows "\<exists>r'. requestWaitResponseById X N p msg rc tc cb (ch, r)
      = Inr (\<lparr>ch_session = Some (session_send (fst (prepareMessage X N msg (n + 1))) cb c), ch_next_message_id = n + 2\<rparr>, r')
    \<and> requests_onMessageReceive (serialize_u16 (n + 1) [] @ body) r' s
        = rbind (d (arch (serialize_u16 (n + 1) []) body) s) (\<lambda>(ia, s). Inr (r', s))
    \<and> (\<forall>ia' s'. rc (arch (serialize_u16 n []) body) s = Inr (ia', s') \<longrightarrow>
        requests_onMessageReceive (serialize_u16 n [] @ body) r' s = Inr (r, s'))"
proof -
  let ?q = "mk_Request n rc tc"
  let ?r = "r\<lparr>rqs_active_requests := [(p, ?q)]\<rparr>"
  have q: "rq_id ?q = n" "\<not> rq_is_already_processed ?q" "rq_response_callback ?q = rc" by (simp_all add: mk_Request_def)
  have "requestWaitResponseById X N p msg rc tc cb (ch, r)
      = Inr (\<lparr>ch_session = Some (session_send (fst (prepareMessage X N msg (n + 1))) cb c), ch_next_message_id = n + 2\<rparr>, ?r)"
    using assms by (cases ch) (simp add: requestWaitResponseById_def own_def prepareMessage_def add.assoc)
  moreover have "requests_onMessageReceive (serialize_u16 (n + 1) [] @ body) ?r s
      = rbind (d (arch (serialize_u16 (n + 1) []) body) s) (\<lambda>(ia, s). Inr (?r, s))"
    by (rule receive_unmatched) (use q(1) assms(3) in simp_all)
  moreover have "requests_onMessageReceive (serialize_u16 n [] @ body) ?r s = Inr (r, s')"
    if "rc (arch (serialize_u16 n []) body) s = Inr (ia', s')" for ia' s'
    using receive_matched [of ?r "[]" p ?q "[]" n body s ia' s'] q that assms(2) by simp
  ultimately show ?thesis by blast
qed

text \<open>
  The peer refines \<^verbatim>\<open>Requests\<close>. The program issues no request that waits for a response; then the
  object behaves as the peer of the host model: its constructor gives the channel of a new peer,
  sending is sending of the peer, received bytes are dispatched as the host dispatches them, with
  the same errors, closing detaches a started peer from the pools, and no operation adds a request.
\<close>

lemma requests_refine_peer:
  "mk_Requests (Some open_connection) = Inr (peer_channel (mk_Peer b ep rating), peer_requests E N now p False)
   \<and> channel_send X N msg cb (peer_channel q) = Inr (peer_channel (requests_send X N msg cb q))
   \<and> SessionHandler_onReceive bytes (peer_requests E N now p (pr_is_started (peer_at h p))) h
       = rbind (onMessageReceive E N now p bytes h) (\<lambda>h'. Inr (peer_requests E N now p (pr_is_started (peer_at h p)), h'))
   \<and> SessionHandler_onClose (peer_requests E N now p (pr_is_started (peer_at h p))) h
       = Inr (peer_requests E N now p (pr_is_started (peer_at h p)), onClose p h)"
proof (intro conjI)
  show "SessionHandler_onReceive bytes (peer_requests E N now p (pr_is_started (peer_at h p))) h
       = rbind (onMessageReceive E N now p bytes h) (\<lambda>h'. Inr (peer_requests E N now p (pr_is_started (peer_at h p)), h'))"
    by (cases "deserialize_u16 \<lparr>ia_bytes = bytes, ia_index = 0\<rparr>")
      (auto simp: SessionHandler_onReceive_def requests_onMessageReceive_def onMessageReceive_def peer_requests_def Let_def
        setDefaultCallback_def setCloseCallback_def peer_default_callback_def rbind_def split: sum.splits)
qed (simp_all add: mk_Requests_def peer_channel_def peer_requests_def mk_Peer_def channel_send_def requests_send_def prepareMessage_def
    SessionHandler_onClose_def requests_onClose_def onClose_def setDefaultCallback_def setCloseCallback_def pool_clear_def)

text \<open>A time-out callback that would throw is not called\<close>

theorem requests_never_time_out_witness:
  "request_on_timer (mk_Request 0 (\<lambda>ia s. Inr (ia, s)) (\<lambda>s. Inl BaseError)) [(5, mk_Request 0 (\<lambda>ia s. Inr (ia, s)) (\<lambda>s. Inl BaseError))] (1 :: nat)
     = Inr ([(5, mk_Request 0 (\<lambda>ia s. Inr (ia, s)) (\<lambda>s. Inl BaseError))], 1)"
proof -
  let ?q = "mk_Request 0 (\<lambda>ia s. Inr (ia, s)) (\<lambda>s. Inl BaseError) :: nat request"
  let ?ch = "\<lparr>ch_session = Some open_connection, ch_next_message_id = 0\<rparr>"
  let ?r0 = "\<lparr>rqs_active_requests = [], rqs_default_callback = None, rqs_close_callback = None\<rparr> :: nat requests"
  have "requests_reachable demo_ext demo_net ?r0" by (rule rqs_start [of "Some open_connection" ?ch]) (simp add: mk_Requests_def)
  then have "requests_reachable demo_ext demo_net (?r0\<lparr>rqs_active_requests := [(5, ?q)]\<rparr>)"
    by (rule rqs_request [where p = 5 and ch = ?ch and msg = Ping and rc = "\<lambda>ia s. Inr (ia, s)" and tc = "\<lambda>s. Inl BaseError" and cb = No_handler])
      (simp_all add: isOwning_def requestWaitResponseById_def own_def prepareMessage_def)
  from requests_never_time_out [OF this, of 5 ?q 1] show ?thesis by simp
qed

text \<open>A ping sent as message 8 waits for message 7\<close>

theorem request_waits_for_previous_id_witness:
  "\<exists>r'. requestWaitResponseById demo_ext demo_net 5 Ping (\<lambda>ia s. Inr (ia, ''answered'')) Inr No_handler
      (\<lparr>ch_session = Some open_connection, ch_next_message_id = 7\<rparr>,
       \<lparr>rqs_active_requests = [], rqs_default_callback = Some (\<lambda>ia s. Inr (ia, ''default'')), rqs_close_callback = None\<rparr>)
      = Inr (\<lparr>ch_session = Some (session_send (fst (prepareMessage demo_ext demo_net Ping 8)) No_handler open_connection), ch_next_message_id = 9\<rparr>, r')
    \<and> requests_onMessageReceive (serialize_u16 8 [] @ [13]) r' ''idle'' = Inr (r', ''default'')
    \<and> map_sum id snd (requests_onMessageReceive (serialize_u16 7 [] @ [13]) r' ''idle'') = Inr ''answered''"
  using request_waits_for_previous_id [of "\<lparr>ch_session = Some open_connection, ch_next_message_id = 7\<rparr>" open_connection
      "\<lparr>rqs_active_requests = [], rqs_default_callback = Some (\<lambda>ia s. Inr (ia, ''default'')), rqs_close_callback = None\<rparr>"
      "\<lambda>ia s. Inr (ia, ''default'')" 7 demo_ext demo_net 5 Ping "\<lambda>ia s. Inr (ia, ''answered'')" Inr No_handler "[13]" "''idle''"]
  by auto

end
