(* ===== verification/RpcService.thy ===== *)
theory RpcService
  imports Miner
begin

text \<open>
  The service behind the RPC servers, \<^verbatim>\<open>src/node/rpc_service.cpp\<close>: queries over the core that raise
  \<^verbatim>\<open>InvalidArgument\<close> for what is not found, and the submission of transactions (\<open>pushTransaction\<close> of
  the theory of the miner).
\<close>

record rpc_info =
  ri_top_block_hash :: sha256
  ri_top_block_number :: depth
  ri_api_version :: nat

definition RPC_PUBLIC_API_VERSION :: nat where
  "RPC_PUBLIC_API_VERSION = 1"

definition rpc_getAccountInfo :: "'s core \<Rightarrow> address \<Rightarrow> account_info" where
  "rpc_getAccountInfo c address = getAccountInfo c address"

definition getNodeInfo :: "'s node_env \<Rightarrow> 's core \<Rightarrow> rpc_info res" where
  "getNodeInfo E c =
     rbind (core_getTopBlock c) (\<lambda>top_block.
     (let hash = sha256_compute (env_ext E) (toBytes (serialize_iblock (env_ext E)) top_block)
      in Inr \<lparr>ri_top_block_hash = hash, ri_top_block_number = blk_depth top_block, ri_api_version = RPC_PUBLIC_API_VERSION\<rparr>))"

definition getBlock :: "'s core \<Rightarrow> sha256 \<Rightarrow> iblock res" where
  "getBlock c block_hash = (case core_findBlock c block_hash of Some b \<Rightarrow> Inr b | None \<Rightarrow> Inl InvalidArgument)"

definition getBlock_number :: "'s core \<Rightarrow> depth \<Rightarrow> iblock res" where
  "getBlock_number c block_number =
     (case core_findBlockHash c block_number of
        Some block_hash \<Rightarrow> (case core_findBlock c block_hash of Some b \<Rightarrow> Inr b | None \<Rightarrow> Inl InvalidArgument)
      | None \<Rightarrow> Inl InvalidArgument)"

definition rpc_getTransaction :: "'s node_env \<Rightarrow> 's core \<Rightarrow> sha256 \<Rightarrow> transaction res" where
  "rpc_getTransaction E c transaction_hash =
     (case core_findTransaction E c transaction_hash of Some tx \<Rightarrow> Inr tx | None \<Rightarrow> Inl InvalidArgument)"

definition getTransactionStatus :: "'s core \<Rightarrow> sha256 \<Rightarrow> tx_status res" where
  "getTransactionStatus c transaction_hash =
     (case getTransactionOutput c transaction_hash of Some st \<Rightarrow> Inr st | None \<Rightarrow> Inl InvalidArgument)"

section \<open>The queries of a reachable node\<close>

lemma reachable_chain:
  assumes "core_reachable E g c" and "leveldb_ok (env_leveldb E)"
  obtains bs con where "pb_chain (core_blockchain c) = mk_bc (bs, con)" and "valid_chain bs con" and "hd bs = g"
    and "\<forall>b\<in>set (tl bs). wf_iblock (env_ext E) b"
proof -
  obtain bs con where "pb_inv (env_ext E) (env_leveldb E) g (core_blockchain c) bs con"
    using pb_reachable_inv [OF assms(2)] core_reachable_inv [OF assms(2,1)] unfolding core_inv_def by blast
  then show ?thesis using that by (auto simp: pb_inv_def)
qed

lemma getBlock_number_mk_bc:
  assumes "pb_chain (core_blockchain c) = mk_bc (bs, con)" and "valid_chain bs con"
  shows "getBlock_number c d = (if unat d < length bs then Inr (bs ! unat d) else Inl InvalidArgument)"
proof -
  have "findBlock (mk_bc (bs, con)) (blk_this_block_hash (bs ! unat d)) = Some (bs ! unat d)" if "unat d < length bs"
    using that findBlock_mk_bc [OF valid_chain_distinct [OF assms(2)], of con] by simp
  moreover have "findBlockHashByDepth (mk_bc (bs, con)) d = (if unat d < length bs then Some (blk_this_block_hash (bs ! unat d)) else None)"
    by (simp add: findBlockHashByDepth_def mk_bc_def)
  ultimately show ?thesis
    by (simp add: getBlock_number_def core_findBlockHash_def core_findBlock_def assms(1))
qed

section \<open>Properties\<close>

text \<open>
  The queries of a reachable node agree with each other: the reported top block is the one
  with the highest number, its number and hash find it again, exactly the numbers up to it find
  a block, and consecutive numbers find linked blocks.
\<close>

theorem rpc_queries_consistent:
  assumes "core_reachable E g c" and "leveldb_ok (env_leveldb E)" and "wf_iblock (env_ext E) g" and "blk_depth g = 0"
  shows "\<exists>info b. getNodeInfo E c = Inr info \<and> getBlock_number c (ri_top_block_number info) = Inr b
    \<and> getBlock c (ri_top_block_hash info) = Inr b \<and> getBlock_number c 0 = Inr g
    \<and> (\<forall>d. (\<exists>x. getBlock_number c d = Inr x) \<longleftrightarrow> d \<le> ri_top_block_number info)
    \<and> (\<forall>d x y. getBlock_number c d = Inr x \<and> getBlock_number c (d + 1) = Inr y \<and> d + 1 \<noteq> 0 \<longrightarrow>
         blk_prev_block_hash y = blk_this_block_hash x \<and> blk_timestamp x < blk_timestamp y)"
proof -
  obtain bs con where ch: "pb_chain (core_blockchain c) = mk_bc (bs, con)" and v: "valid_chain bs con" and hd: "hd bs = g"
    and wf: "\<forall>b\<in>set (tl bs). wf_iblock (env_ext E) b" by (rule reachable_chain [OF assms(1,2)])
  have ne: "bs \<noteq> []" using v by simp
  note num = getBlock_number_mk_bc [OF ch v]
  let ?info = "\<lparr>ri_top_block_hash = blk_this_block_hash (last bs), ri_top_block_number = blk_depth (last bs), ri_api_version = RPC_PUBLIC_API_VERSION\<rparr>"
  have "last bs \<in> insert g (set (tl bs))" using ne hd last_in_set [OF ne] by (cases bs) auto
  then have "wf_iblock (env_ext E) (last bs)" using wf assms(3) by auto
  then have info: "getNodeInfo E c = Inr ?info"
    using getTopBlockAndComplexity_mk_bc [OF v] ch
    by (auto simp: getNodeInfo_def core_getTopBlock_def getTopBlockAndComplexity_def rbind_eq_Inr wf_iblock_hash)
  have d: "unat (blk_depth (last bs)) = length bs - 1" "0 < length bs" using valid_chain_last_depth [OF v] hd assms(4) ne by auto
  have "getBlock_number c (blk_depth (last bs)) = Inr (last bs)" using num d ne by (simp add: last_conv_nth)
  moreover have "getBlock c (blk_this_block_hash (last bs)) = Inr (last bs)"
    using findBlock_mk_bc [OF valid_chain_distinct [OF v], of con "blk_this_block_hash (last bs)" "last bs"] ne ch
    by (simp add: getBlock_def core_findBlock_def)
  moreover have "getBlock_number c 0 = Inr g" using num hd ne by (simp add: hd_conv_nth)
  moreover have "(\<exists>x. getBlock_number c e = Inr x) \<longleftrightarrow> e \<le> blk_depth (last bs)" for e
  proof -
    have "unat e \<le> length bs - 1 \<longleftrightarrow> unat e < length bs" using d(2) by linarith
    then show ?thesis using num d(1) by (simp add: word_le_nat_alt)
  qed
  moreover have "blk_prev_block_hash y = blk_this_block_hash x \<and> blk_timestamp x < blk_timestamp y"
    if "getBlock_number c e = Inr x" "getBlock_number c (e + 1) = Inr y" "e + 1 \<noteq> 0" for e x y
  proof -
    have "unat (e + 1) = Suc (unat e)" using that(3) by (simp add: unatSuc add.commute)
    then show ?thesis using that num valid_chain_linked [OF v, of "unat e"] by (auto simp: linked_def split: if_splits)
  qed
  ultimately show ?thesis using info by (intro exI [of _ ?info] exI [of _ "last bs"]) auto
qed

theorem rpc_queries_consistent_witness:
  "\<exists>g c info b. core_reachable demo_env g c \<and> getNodeInfo demo_env c = Inr info \<and> getBlock_number c (ri_top_block_number info) = Inr b"
proof -
  obtain g c tx where g: "core_reachable demo_env g c" "wf_iblock demo_ext g" "blk_depth g = 0" by (rule demo_pending)
  then show ?thesis using rpc_queries_consistent [OF g(1)] leveldb_ok_map by (auto simp: demo_env_def)
qed

end
