(* ===== verification/HttpTools.thy ===== *)
theory HttpTools
  imports RpcService
begin

text \<open>
  The JSON format of the HTTP interface, \<^verbatim>\<open>src/rpc/http/tools.cpp\<close>. The JSON values are those of the C++ REST
  SDK: the record \<open>json\<close> holds one function per operation the code uses, over a type \<open>'j\<close> of values, and \<open>json_ok\<close>
  states their documented behaviour. A reader returns an optional, after catching what the code catches:
  \<open>Inr None\<close> is \<^verbatim>\<open>std::nullopt\<close>, \<open>Inl e\<close> an exception that escapes.
\<close>

section \<open>The library\<close>

record 'j json =
  json_null :: 'j
  json_string :: "string \<Rightarrow> 'j"
  json_number :: "nat \<Rightarrow> 'j"
  json_array :: "'j list \<Rightarrow> 'j"
  json_put :: "string \<Rightarrow> 'j \<Rightarrow> 'j \<Rightarrow> 'j"
  json_field :: "'j \<Rightarrow> string \<Rightarrow> 'j option"
  json_as_string :: "'j \<Rightarrow> string option"
  json_is_number :: "'j \<Rightarrow> bool"
  json_to_uint64 :: "'j \<Rightarrow> 64 word"
  json_to_uint32 :: "'j \<Rightarrow> 32 word"
  json_as_array :: "'j \<Rightarrow> 'j list option"
  json_is_object :: "'j \<Rightarrow> bool"
  error_what :: "error \<Rightarrow> string"

text \<open>
  Reading gives back what was stored, and assigning a field of a null value or an object gives
  an object with that field.
\<close>

definition json_obj :: "('j, 'z) json_scheme \<Rightarrow> 'j \<Rightarrow> bool" where
  "json_obj J j \<longleftrightarrow> j = json_null J \<or> json_is_object J j"

definition json_ok :: "'j json \<Rightarrow> bool" where
  "json_ok J \<longleftrightarrow>
     (\<forall>s. json_as_string J (json_string J s) = Some s)
   \<and> (\<forall>n. json_is_number J (json_number J n))
   \<and> (\<forall>w. json_to_uint64 J (json_number J (unat w)) = w)
   \<and> (\<forall>w. json_to_uint32 J (json_number J (unat w)) = w)
   \<and> (\<forall>xs. json_as_array J (json_array J xs) = Some xs)
   \<and> (\<forall>k. json_field J (json_null J) k = None)
   \<and> (\<forall>j k v. json_obj J j \<longrightarrow> json_is_object J (json_put J k v j)
        \<and> (\<forall>k'. json_field J (json_put J k v j) k' = (if k' = k then Some v else json_field J j k')))"

definition json_at :: "'j json \<Rightarrow> 'j \<Rightarrow> string \<Rightarrow> 'j res" where
  "json_at J j k = (case json_field J j k of Some v \<Rightarrow> Inr v | None \<Rightarrow> Inl JsonException)"

definition as_string :: "'j json \<Rightarrow> 'j \<Rightarrow> string res" where
  "as_string J v = (case json_as_string J v of Some s \<Rightarrow> Inr s | None \<Rightarrow> Inl JsonException)"

definition as_array :: "'j json \<Rightarrow> 'j \<Rightarrow> 'j list res" where
  "as_array J v = (case json_as_array J v of Some vs \<Rightarrow> Inr vs | None \<Rightarrow> Inl JsonException)"

definition to_uint64 :: "'j json \<Rightarrow> 'j \<Rightarrow> 64 word res" where
  "to_uint64 J v = (if json_is_number J v then Inr (json_to_uint64 J v) else Inl JsonException)"

definition to_uint32 :: "'j json \<Rightarrow> 'j \<Rightarrow> 32 word res" where
  "to_uint32 J v = (if json_is_number J v then Inr (json_to_uint32 J v) else Inl JsonException)"

definition has_string_field :: "'j json \<Rightarrow> 'j \<Rightarrow> string \<Rightarrow> bool" where
  "has_string_field J j k = (case json_field J j k of Some v \<Rightarrow> json_as_string J v \<noteq> None | None \<Rightarrow> False)"

definition has_number_field :: "'j json \<Rightarrow> 'j \<Rightarrow> string \<Rightarrow> bool" where
  "has_number_field J j k = (case json_field J j k of Some v \<Rightarrow> json_is_number J v | None \<Rightarrow> False)"

definition has_array_field :: "'j json \<Rightarrow> 'j \<Rightarrow> string \<Rightarrow> bool" where
  "has_array_field J j k = (case json_field J j k of Some v \<Rightarrow> json_as_array J v \<noteq> None | None \<Rightarrow> False)"

text \<open>\<^verbatim>\<open>input.at(k).as_string()\<close> and its relatives\<close>

definition string_at :: "'j json \<Rightarrow> 'j \<Rightarrow> string \<Rightarrow> string res" where
  "string_at J j k = rbind (json_at J j k) (as_string J)"

definition uint64_at :: "'j json \<Rightarrow> 'j \<Rightarrow> string \<Rightarrow> 64 word res" where
  "uint64_at J j k = rbind (json_at J j k) (to_uint64 J)"

definition uint32_at :: "'j json \<Rightarrow> 'j \<Rightarrow> string \<Rightarrow> 32 word res" where
  "uint32_at J j k = rbind (json_at J j k) (to_uint32 J)"

definition catch_base :: "'a option res \<Rightarrow> 'a option res" where
  "catch_base r = (case r of Inl e \<Rightarrow> if is_base_error e then Inr None else Inl e | Inr x \<Rightarrow> Inr x)"

definition catch_std :: "'a option res \<Rightarrow> 'a option res" where
  "catch_std r = (case r of Inl e \<Rightarrow> if is_std_exception e then Inr None else Inl e | Inr x \<Rightarrow> Inr x)"

definition opt_value :: "'a option \<Rightarrow> 'a res" where
  "opt_value v = (case v of Some x \<Rightarrow> Inr x | None \<Rightarrow> Inl StdBadOptionalAccess)"

text \<open>\<^verbatim>\<open>std::strtoll\<close> in base ten: leading spaces, a sign, digits, and the nearest representable value\<close>

definition std_isspace :: "char \<Rightarrow> bool" where
  "std_isspace c \<longleftrightarrow> of_char c \<in> {9, 10, 11, 12, 13, 32 :: nat}"

definition std_strtoll :: "string \<Rightarrow> int" where
  "std_strtoll s =
     (let s = dropWhile std_isspace s;
          negative = (s \<noteq> [] \<and> hd s = CHR ''-'');
          digits = (if s \<noteq> [] \<and> (hd s = CHR ''-'' \<or> hd s = CHR ''+'') then tl s else s);
          v = int (std_atoi digits)
      in max (- (2 ^ 63)) (min (2 ^ 63 - 1) (if negative then - v else v)))"

section \<open>Simple values\<close>

fun serializeAccountType :: "'j json \<Rightarrow> account_type \<Rightarrow> 'j" where
  "serializeAccountType J CONTRACT = json_string J ''Contract''"
| "serializeAccountType J CLIENT = json_string J ''Client''"

definition deserializeAccountType :: "string \<Rightarrow> account_type option" where
  "deserializeAccountType type =
     (if type = ''Client'' then Some CLIENT else if type = ''Contract'' then Some CONTRACT else None)"

fun status_code_number :: "status_code \<Rightarrow> nat" where
  "status_code_number Success = 0"
| "status_code_number Pending = 1"
| "status_code_number BadQueryForm = 2"
| "status_code_number BadSign = 3"
| "status_code_number NotEnoughBalance = 4"
| "status_code_number Revert = 5"
| "status_code_number Failed = 6"

definition serializeTransactionStatusStatusCode :: "'j json \<Rightarrow> status_code \<Rightarrow> 'j" where
  "serializeTransactionStatusStatusCode J status_code = json_number J (status_code_number status_code)"

definition deserializeTransactionStatusStatusCode :: "32 word \<Rightarrow> status_code option" where
  "deserializeTransactionStatusStatusCode type =
     (if type = 0 then Some Success else if type = 1 then Some Pending else if type = 2 then Some BadQueryForm
      else if type = 3 then Some BadSign else if type = 4 then Some NotEnoughBalance else if type = 5 then Some Revert
      else if type = 6 then Some Failed else None)"

fun action_type_number :: "action_type \<Rightarrow> nat" where
  "action_type_number None_action = 0"
| "action_type_number Transfer = 1"
| "action_type_number ContractCall = 2"
| "action_type_number ContractCreation = 3"

definition serializeTransactionStatusActionType :: "'j json \<Rightarrow> action_type \<Rightarrow> 'j" where
  "serializeTransactionStatusActionType J action_type = json_number J (action_type_number action_type)"

definition deserializeTransactionStatusActionType :: "32 word \<Rightarrow> action_type option" where
  "deserializeTransactionStatusActionType type =
     (if type = 0 then Some None_action else if type = 1 then Some Transfer else if type = 2 then Some ContractCall
      else if type = 3 then Some ContractCreation else None)"

definition serializeBalance :: "ext \<Rightarrow> 'j json \<Rightarrow> balance \<Rightarrow> 'j" where
  "serializeBalance X J balance = json_string J (big_str X balance)"

definition deserializeBalance :: "ext \<Rightarrow> string \<Rightarrow> balance option res" where
  "deserializeBalance X type = catch_base (rbind (big_parse X type) (\<lambda>b. Inr (Some b)))"

definition serializeFee :: "'j json \<Rightarrow> fee \<Rightarrow> 'j" where
  "serializeFee J balance = json_string J (std_to_string (unat balance))"

text \<open>The pointer \<^verbatim>\<open>end\<close> is always set by \<^verbatim>\<open>strtoll\<close>, so the failure branch is never taken.\<close>

definition deserializeFee :: "string \<Rightarrow> fee option" where
  "deserializeFee type = Some (of_int (std_strtoll type))"

definition serializeHash :: "ext \<Rightarrow> 'j json \<Rightarrow> sha256 \<Rightarrow> 'j" where
  "serializeHash X J hash = json_string J (base64Encode X hash)"

definition deserializeHash :: "ext \<Rightarrow> string \<Rightarrow> sha256 option res" where
  "deserializeHash X hash_str =
     rbind (catch_base (rbind (base64Decode X hash_str) (\<lambda>b. Inr (Some b)))) (\<lambda>decoded_bytes.
     case decoded_bytes of
       None \<Rightarrow> Inr None
     | Some decoded_bytes \<Rightarrow> catch_base (rbind (sha256_of decoded_bytes) (\<lambda>h. Inr (Some h))))"

definition serializeAddress :: "'j json \<Rightarrow> address \<Rightarrow> 'j" where
  "serializeAddress J address = json_string J (base58Encode address)"

definition deserializeAddress :: "string \<Rightarrow> address option res" where
  "deserializeAddress address_str =
     rbind (catch_base (rbind (base58Decode address_str) (\<lambda>b. Inr (Some b)))) (\<lambda>decoded_bytes.
     case decoded_bytes of
       None \<Rightarrow> Inr None
     | Some decoded_bytes \<Rightarrow> catch_base (rbind (address_of_bytes decoded_bytes) (\<lambda>a. Inr (Some a))))"

definition serializeBytes :: "ext \<Rightarrow> 'j json \<Rightarrow> bytes \<Rightarrow> 'j" where
  "serializeBytes X J data = json_string J (base64Encode X data)"

definition deserializeBytes :: "ext \<Rightarrow> string \<Rightarrow> bytes option res" where
  "deserializeBytes X data = catch_base (rbind (base64Decode X data) (\<lambda>b. Inr (Some b)))"

definition serializeSign :: "ext \<Rightarrow> 'j json \<Rightarrow> bytes \<Rightarrow> 'j" where
  "serializeSign X J sign = json_string J (base64Encode X sign)"

definition deserializeSign :: "ext \<Rightarrow> string \<Rightarrow> bytes option res" where
  "deserializeSign X data =
     rbind (deserializeBytes X data) (\<lambda>sign_data.
     case sign_data of None \<Rightarrow> Inr None | Some d \<Rightarrow> rbind (fixed_bytes 65 d) (\<lambda>s. Inr (Some s)))"

section \<open>Objects\<close>

definition serializeAccountInfo :: "ext \<Rightarrow> 'j json \<Rightarrow> account_info \<Rightarrow> 'j" where
  "serializeAccountInfo X J account_info =
     (let result = json_null J;
          result = json_put J ''address'' (serializeAddress J (info_address account_info)) result;
          result = json_put J ''balance'' (serializeBalance X J (info_balance account_info)) result;
          result = json_put J ''nonce'' (json_number J (unat (info_nonce account_info))) result;
          result = json_put J ''type'' (serializeAccountType J (info_type account_info)) result;
          txs_hashes = map (serializeHash X J) (info_transactions_hashes account_info)
      in json_put J ''transaction_hashes'' (json_array J txs_hashes) result)"

fun hashes_loop :: "ext \<Rightarrow> 'j json \<Rightarrow> 'j list \<Rightarrow> sha256 list \<Rightarrow> sha256 list option res" where
  "hashes_loop X J [] hashes = Inr (Some hashes)"
| "hashes_loop X J (v # vs) hashes =
     (if json_as_string J v \<noteq> None then
        rbind (as_string J v) (\<lambda>s.
        rbind (deserializeHash X s) (\<lambda>hash_opt.
        case hash_opt of
          Some h \<Rightarrow> hashes_loop X J vs (hashes @ [h])
        | None \<Rightarrow> Inr None))
      else Inr None)"

definition deserializeAccountInfo :: "ext \<Rightarrow> 'j json \<Rightarrow> 'j \<Rightarrow> account_info option res" where
  "deserializeAccountInfo X J input = catch_base
     (if \<not> has_string_field J input ''type'' then Inr None else
      rbind (string_at J input ''type'') (\<lambda>s. let type = deserializeAccountType s in
      if \<not> has_string_field J input ''balance'' then Inr None else
      rbind (string_at J input ''balance'') (\<lambda>s. rbind (deserializeBalance X s) (\<lambda>balance.
      if \<not> has_number_field J input ''nonce'' then Inr None else
      rbind (uint64_at J input ''nonce'') (\<lambda>nonce.
      if \<not> has_string_field J input ''address'' then Inr None else
      rbind (string_at J input ''address'') (\<lambda>s. rbind (deserializeAddress s) (\<lambda>address.
      if \<not> has_array_field J input ''transaction_hashes'' then Inr None else
      rbind (rbind (json_at J input ''transaction_hashes'') (as_array J)) (\<lambda>vs. rbind (hashes_loop X J vs []) (\<lambda>transactions_hashes.
      case transactions_hashes of None \<Rightarrow> Inr None | Some hashes \<Rightarrow>
      (if type = None then Inr None else if address = None then Inr None else if balance = None then Inr None else
       rbind (opt_value type) (\<lambda>type. rbind (opt_value address) (\<lambda>address. rbind (opt_value balance) (\<lambda>balance.
       Inr (Some \<lparr>info_type = type, info_address = address, info_balance = balance, info_nonce = nonce,
         info_transactions_hashes = hashes\<rparr>))))))))))))))"

definition serializeInfo :: "ext \<Rightarrow> 'j json \<Rightarrow> rpc_info \<Rightarrow> 'j" where
  "serializeInfo X J info =
     (let result = json_null J;
          result = json_put J ''top_block_hash'' (serializeHash X J (ri_top_block_hash info)) result;
          result = json_put J ''top_block_number'' (json_number J (unat (ri_top_block_number info))) result
      in json_put J ''api_version'' (json_number J (ri_api_version info)) result)"

definition deserializeInfo :: "ext \<Rightarrow> 'j json \<Rightarrow> 'j \<Rightarrow> rpc_info option res" where
  "deserializeInfo X J input = catch_std
     (if \<not> has_string_field J input ''top_block_hash'' then Inr None else
      rbind (string_at J input ''top_block_hash'') (\<lambda>s. rbind (deserializeHash X s) (\<lambda>top_block_hash.
      if \<not> has_number_field J input ''top_block_number'' then Inr None else
      rbind (uint64_at J input ''top_block_number'') (\<lambda>top_block_number.
      if \<not> has_number_field J input ''api_version'' then Inr None else
      rbind (uint32_at J input ''api_version'') (\<lambda>api_version.
      if top_block_hash = None then Inr None else
      rbind (opt_value top_block_hash) (\<lambda>top_block_hash.
      Inr (Some \<lparr>ri_top_block_hash = top_block_hash, ri_top_block_number = top_block_number, ri_api_version = unat api_version\<rparr>)))))))"

definition serializeTransaction :: "ext \<Rightarrow> 'j json \<Rightarrow> transaction \<Rightarrow> 'j" where
  "serializeTransaction X J tx =
     (let result = json_null J;
          result = json_put J ''from'' (serializeAddress J (tx_from tx)) result;
          result = json_put J ''to'' (serializeAddress J (tx_to tx)) result;
          result = json_put J ''amount'' (serializeBalance X J (tx_amount tx)) result;
          result = json_put J ''fee'' (serializeFee J (tx_fee tx)) result;
          result = json_put J ''timestamp'' (json_number J (unat (tx_timestamp tx))) result;
          result = json_put J ''data'' (serializeBytes X J (tx_data tx)) result
      in json_put J ''sign'' (serializeSign X J (tx_sign tx)) result)"

text \<open>The optional of the amount is not tested before its value is taken; the exception is caught.\<close>

definition deserializeTransaction :: "ext \<Rightarrow> 'j json \<Rightarrow> 'j \<Rightarrow> transaction option res" where
  "deserializeTransaction X J input = catch_std
     (if \<not> has_string_field J input ''amount'' then Inr None else
      rbind (string_at J input ''amount'') (\<lambda>s. rbind (deserializeBalance X s) (\<lambda>amount.
      if \<not> has_string_field J input ''fee'' then Inr None else
      rbind (string_at J input ''fee'') (\<lambda>s. let fee = deserializeFee s in
      if \<not> has_string_field J input ''from'' then Inr None else
      rbind (string_at J input ''from'') (\<lambda>s. rbind (deserializeAddress s) (\<lambda>from.
      if \<not> has_string_field J input ''to'' then Inr None else
      rbind (string_at J input ''to'') (\<lambda>s. rbind (deserializeAddress s) (\<lambda>to.
      if \<not> has_number_field J input ''timestamp'' then Inr None else
      rbind (uint32_at J input ''timestamp'') (\<lambda>timestamp.
      if \<not> has_string_field J input ''data'' then Inr None else
      rbind (string_at J input ''data'') (\<lambda>s. rbind (deserializeBytes X s) (\<lambda>data.
      if \<not> has_string_field J input ''sign'' then Inr None else
      rbind (string_at J input ''sign'') (\<lambda>s. rbind (deserializeSign X s) (\<lambda>sign.
      if from = None then Inr None else if to = None then Inr None else if fee = None then Inr None else
      if data = None then Inr None else if sign = None then Inr None else
      rbind (opt_value from) (\<lambda>from. rbind (opt_value to) (\<lambda>to. rbind (opt_value amount) (\<lambda>amount. rbind (opt_value fee) (\<lambda>fee.
      rbind (opt_value data) (\<lambda>data. rbind (opt_value sign) (\<lambda>sign.
      rbind (mk_Transaction from to amount fee timestamp data sign) (\<lambda>tx. Inr (Some tx)))))))))))))))))))))"

definition serializeBlock :: "ext \<Rightarrow> 'j json \<Rightarrow> iblock \<Rightarrow> 'j" where
  "serializeBlock X J block =
     (let result = json_null J;
          result = json_put J ''depth'' (json_number J (unat (blk_depth block))) result;
          result = json_put J ''nonce'' (json_number J (unat (blk_nonce block))) result;
          result = json_put J ''coinbase'' (serializeAddress J (blk_coinbase block)) result;
          result = json_put J ''previous_block_hash'' (serializeHash X J (blk_prev_block_hash block)) result;
          result = json_put J ''timestamp'' (json_number J (unat (blk_timestamp block))) result;
          txs_values = map (serializeTransaction X J) (blk_txs block)
      in json_put J ''transactions'' (json_array J txs_values) result)"

fun txs_loop :: "ext \<Rightarrow> 'j json \<Rightarrow> 'j list \<Rightarrow> txset \<Rightarrow> txset option res" where
  "txs_loop X J [] txs = Inr (Some txs)"
| "txs_loop X J (v # vs) txs =
     (if json_is_object J v then
        rbind (deserializeTransaction X J v) (\<lambda>tx_opt.
        case tx_opt of
          Some tx \<Rightarrow> txs_loop X J vs (txset_add tx txs)
        | None \<Rightarrow> Inr None)
      else Inr None)"

definition deserializeBlock :: "ext \<Rightarrow> 'j json \<Rightarrow> 'j \<Rightarrow> iblock option res" where
  "deserializeBlock X J input = catch_std
     (if \<not> has_number_field J input ''depth'' then Inr None else
      rbind (uint64_at J input ''depth'') (\<lambda>depth.
      if \<not> has_number_field J input ''nonce'' then Inr None else
      rbind (uint64_at J input ''nonce'') (\<lambda>nonce.
      if \<not> has_number_field J input ''timestamp'' then Inr None else
      rbind (uint32_at J input ''timestamp'') (\<lambda>timestamp.
      if \<not> has_string_field J input ''previous_block_hash'' then Inr None else
      rbind (string_at J input ''previous_block_hash'') (\<lambda>s. rbind (deserializeHash X s) (\<lambda>previous_block_hash.
      if \<not> has_string_field J input ''coinbase'' then Inr None else
      rbind (string_at J input ''coinbase'') (\<lambda>s. rbind (deserializeAddress s) (\<lambda>coinbase.
      if previous_block_hash = None then Inr None else if coinbase = None then Inr None else
      if \<not> has_array_field J input ''transactions'' then Inr None else
      rbind (rbind (json_at J input ''transactions'') (as_array J)) (\<lambda>vs. rbind (txs_loop X J vs []) (\<lambda>txs.
      case txs of None \<Rightarrow> Inr None | Some txs \<Rightarrow>
      rbind (opt_value previous_block_hash) (\<lambda>previous_block_hash. rbind (opt_value coinbase) (\<lambda>coinbase.
      rbind (buildImmutable X (bb_setTransactionsSet txs (bb_setCoinbase coinbase (bb_setTimestamp timestamp
        (bb_setPrevBlockHash previous_block_hash (bb_setNonce nonce (bb_setDepth depth builder_null))))))) (\<lambda>b.
      Inr (Some b))))))))))))))"

definition serializeTransactionStatus :: "'j json \<Rightarrow> tx_status \<Rightarrow> 'j" where
  "serializeTransactionStatus J status =
     (let result = json_null J;
          result = json_put J ''status_code'' (serializeTransactionStatusStatusCode J (st_status status)) result;
          result = json_put J ''action_type'' (serializeTransactionStatusActionType J (st_action status)) result;
          result = json_put J ''fee_left'' (serializeFee J (st_fee_left status)) result
      in json_put J ''message'' (json_string J (st_message status)) result)"

definition deserializeTransactionStatus :: "'j json \<Rightarrow> 'j \<Rightarrow> tx_status option res" where
  "deserializeTransactionStatus J input = catch_std
     (if \<not> has_number_field J input ''status_code'' then Inr None else
      rbind (uint32_at J input ''status_code'') (\<lambda>n. let status_code = deserializeTransactionStatusStatusCode n in
      if \<not> has_number_field J input ''action_type'' then Inr None else
      rbind (uint32_at J input ''action_type'') (\<lambda>n. let action_type = deserializeTransactionStatusActionType n in
      if \<not> has_string_field J input ''fee_left'' then Inr None else
      rbind (string_at J input ''fee_left'') (\<lambda>s. let fee = deserializeFee s in
      if \<not> has_string_field J input ''message'' then Inr None else
      rbind (string_at J input ''message'') (\<lambda>message.
      if status_code = None then Inr None else if action_type = None then Inr None else if fee = None then Inr None else
      rbind (opt_value status_code) (\<lambda>status_code. rbind (opt_value action_type) (\<lambda>action_type. rbind (opt_value fee) (\<lambda>fee.
      Inr (Some (mk_TransactionStatus status_code action_type fee message))))))))))"

section \<open>Reading what was written\<close>

lemma json_laws:
  assumes "json_ok J"
  shows "json_as_string J (json_string J s) = Some s" and "json_is_number J (json_number J n)"
    and "json_to_uint64 J (json_number J (unat w)) = w" and "json_to_uint32 J (json_number J (unat v)) = v"
    and "json_as_array J (json_array J xs) = Some xs" and "json_obj J (json_null J)"
    and "json_obj J j \<Longrightarrow> json_obj J (json_put J k x j)" and "json_obj J j \<Longrightarrow> json_is_object J (json_put J k x j)"
    and "json_obj J j \<Longrightarrow> json_field J (json_put J k x j) k' = (if k' = k then Some x else json_field J j k')"
    and "json_field J (json_null J) k = None"
proof -
  have put: "json_is_object J (json_put J k x j) \<and> (\<forall>k'. json_field J (json_put J k x j) k' = (if k' = k then Some x else json_field J j k'))"
    if "json_obj J j" for j k x
    using assms that unfolding json_ok_def by blast
  then show "json_obj J j \<Longrightarrow> json_obj J (json_put J k x j)" "json_obj J j \<Longrightarrow> json_is_object J (json_put J k x j)"
    "json_obj J j \<Longrightarrow> json_field J (json_put J k x j) k' = (if k' = k then Some x else json_field J j k')"
    by (simp_all add: json_obj_def)
qed (use assms in \<open>simp_all add: json_ok_def json_obj_def\<close>)

lemmas json_access = has_string_field_def has_number_field_def has_array_field_def json_at_def string_at_def uint64_at_def
  uint32_at_def as_string_def as_array_def to_uint64_def to_uint32_def opt_value_def

lemma catch_Inr [simp]: "catch_base (Inr x) = Inr x" "catch_std (Inr x) = Inr x"
  by (simp_all add: catch_base_def catch_std_def)

definition account_type_name :: "account_type \<Rightarrow> string" where
  "account_type_name t = (case t of CLIENT \<Rightarrow> ''Client'' | CONTRACT \<Rightarrow> ''Contract'')"

lemma account_type_roundtrip:
  "serializeAccountType J t = json_string J (account_type_name t)" "deserializeAccountType (account_type_name t) = Some t"
  by (cases t; simp add: deserializeAccountType_def account_type_name_def)+

lemma status_code_roundtrip: "deserializeTransactionStatusStatusCode (of_nat (status_code_number c)) = Some c"
  by (cases c) (simp_all add: deserializeTransactionStatusStatusCode_def)

lemma action_type_roundtrip: "deserializeTransactionStatusActionType (of_nat (action_type_number t)) = Some t"
  by (cases t) (simp_all add: deserializeTransactionStatusActionType_def)

lemma small_numbers: "status_code_number c < 2 ^ 32" "action_type_number t < 2 ^ 32"
proof -
  show "status_code_number c < 2 ^ 32" by (cases c) simp_all
  show "action_type_number t < 2 ^ 32" by (cases t) simp_all
qed

lemma json_small_number: "json_ok J \<Longrightarrow> n < 2 ^ 32 \<Longrightarrow> json_to_uint32 J (json_number J n) = of_nat n"
  using json_laws(4) [of J "of_nat n"] by (simp add: unat_of_nat)

lemma balance_roundtrip [simp]: "big_ok X \<Longrightarrow> b < 2 ^ 256 \<Longrightarrow> deserializeBalance X (big_str X b) = Inr (Some b)"
  by (simp add: deserializeBalance_def big_ok_def)

lemma hash_roundtrip [simp]: "base64_ok X \<Longrightarrow> length h = 32 \<Longrightarrow> deserializeHash X (base64Encode X h) = Inr (Some h)"
  by (simp add: deserializeHash_def sha256_of_eq)

lemma address_roundtrip [simp]: "wf_address a \<Longrightarrow> deserializeAddress (base58Encode a) = Inr (Some a)"
  by (simp add: deserializeAddress_def address_of_bytes_def fixed_bytes_def wf_address_def)

lemma bytes_roundtrip [simp]: "base64_ok X \<Longrightarrow> deserializeBytes X (base64Encode X bs) = Inr (Some bs)"
  by (simp add: deserializeBytes_def)

lemma sign_roundtrip [simp]: "base64_ok X \<Longrightarrow> length s = 65 \<Longrightarrow> deserializeSign X (base64Encode X s) = Inr (Some s)"
  by (simp add: deserializeSign_def fixed_bytes_def)

lemma strtoll_to_string: "std_strtoll (std_to_string n) = min (2 ^ 63 - 1) (int n)"
proof -
  have plain: "\<not> std_isspace c \<and> c \<noteq> CHR ''-'' \<and> c \<noteq> CHR ''+''" if "c \<in> set (std_to_string n)" for c
  proof -
    have "48 \<le> (of_char c :: nat)"
      using that by (auto simp: std_to_string_def dest!: digits_be_less split: if_splits)
    then show ?thesis by (auto simp: std_isspace_def)
  qed
  have ne: "std_to_string n \<noteq> []" by (auto simp: std_to_string_def digits_be.simps)
  then have hd: "hd (std_to_string n) \<in> set (std_to_string n)" by simp
  have "dropWhile std_isspace (std_to_string n) = std_to_string n"
    using ne plain [OF hd] by (cases "std_to_string n") auto
  then show ?thesis using plain [OF hd] by (simp add: std_strtoll_def std_atoi_to_string Let_def)
qed

lemma fee_roundtrip [simp]: "deserializeFee (std_to_string (unat fee)) = Some (of_nat (min (2 ^ 63 - 1) (unat fee)))"
proof -
  have "min (2 ^ 63 - 1) (int (unat fee)) = int (min (2 ^ 63 - 1) (unat fee))" by (simp add: of_nat_min)
  then show ?thesis by (simp only: deserializeFee_def strtoll_to_string of_int_of_nat_eq)
qed

lemma fee_exact: "unat fee < 2 ^ 63 \<Longrightarrow> (of_nat (min (2 ^ 63 - 1) (unat fee)) :: fee) = fee"
proof -
  assume "unat fee < 2 ^ 63"
  then have "min (2 ^ 63 - 1) (unat fee) = unat fee" by simp
  then show ?thesis by simp
qed

text \<open>
  A transaction comes back as it was sent, with one exception: a fee of \<open>2 ^ 63\<close> or more is read with the
  signed \<^verbatim>\<open>strtoll\<close> and becomes \<open>2 ^ 63 - 1\<close>.
\<close>

lemma transaction_json:
  assumes "json_ok J" and "base64_ok X" and "big_ok X" and "wf_tx tx"
  shows "deserializeTransaction X J (serializeTransaction X J tx) = Inr (Some (tx\<lparr>tx_fee := of_nat (min (2 ^ 63 - 1) (unat (tx_fee tx)))\<rparr>))"
proof -
  note laws = json_laws [OF assms(1)]
  have "\<not> (tx_amount tx = 0 \<and> (of_nat (min (2 ^ 63 - 1) (unat (tx_fee tx))) :: fee) = 0)"
  proof
    assume zero: "tx_amount tx = 0 \<and> (of_nat (min (2 ^ 63 - 1) (unat (tx_fee tx))) :: fee) = 0"
    have "min (2 ^ 63 - 1) (unat (tx_fee tx)) < 2 ^ LENGTH(64)" by (rule le_less_trans [OF min.cobounded1]) simp
    then have "min (2 ^ 63 - 1) (unat (tx_fee tx)) = 0" using zero by (metis unat_0 unat_of_nat mod_less)
    then have "tx_fee tx = 0" by (simp add: min_def unat_eq_zero split: if_splits)
    then show False using zero assms(4) by (simp add: wf_tx_def)
  qed
  then have tx: "mk_Transaction (tx_from tx) (tx_to tx) (tx_amount tx) (of_nat (min (2 ^ 63 - 1) (unat (tx_fee tx)))) (tx_timestamp tx) (tx_data tx)
      (tx_sign tx) = Inr (tx\<lparr>tx_fee := of_nat (min (2 ^ 63 - 1) (unat (tx_fee tx)))\<rparr>)" unfolding mk_Transaction_def by (simp only: if_False) simp
  show ?thesis using assms(2-4) tx
    by (simp add: deserializeTransaction_def serializeTransaction_def json_access laws wf_tx_def serializeAddress_def serializeBalance_def
        serializeFee_def serializeBytes_def serializeSign_def)
qed

lemma transaction_json_exact:
  assumes "json_ok J" and "base64_ok X" and "big_ok X" and "wf_tx tx" and "unat (tx_fee tx) < 2 ^ 63"
  shows "deserializeTransaction X J (serializeTransaction X J tx) = Inr (Some tx)"
  using transaction_json [OF assms(1-4)] by (simp only: fee_exact [OF assms(5)]) simp

lemma status_json:
  assumes "json_ok J" and "unat (st_fee_left st) < 2 ^ 63"
  shows "deserializeTransactionStatus J (serializeTransactionStatus J st) = Inr (Some st)"
proof -
  note laws = json_laws [OF assms(1)]
  have fee: "deserializeFee (std_to_string (unat (st_fee_left st))) = Some (st_fee_left st)"
    unfolding fee_roundtrip by (simp only: fee_exact [OF assms(2)])
  show ?thesis
    by (simp add: deserializeTransactionStatus_def serializeTransactionStatus_def json_access laws serializeFee_def fee
        serializeTransactionStatusStatusCode_def serializeTransactionStatusActionType_def json_small_number [OF assms(1) small_numbers(1)]
        json_small_number [OF assms(1) small_numbers(2)] Let_def
        status_code_roundtrip action_type_roundtrip mk_TransactionStatus_def del: fee_roundtrip)
qed

lemma info_json:
  assumes "json_ok J" and "base64_ok X" and "length (ri_top_block_hash info) = 32" and "ri_api_version info < 2 ^ 32"
  shows "deserializeInfo X J (serializeInfo X J info) = Inr (Some info)"
proof -
  note laws = json_laws [OF assms(1)]
  have "unat (of_nat (ri_api_version info) :: 32 word) = ri_api_version info" using assms(4) by (simp add: unat_of_nat)
  then show ?thesis using assms(2,3)
    by (simp add: deserializeInfo_def serializeInfo_def json_access laws serializeHash_def json_small_number [OF assms(1,4)])
qed

lemma hashes_json:
  assumes "json_ok J" and "base64_ok X" and "list_all (\<lambda>h. length h = 32) hs"
  shows "hashes_loop X J (map (serializeHash X J) hs) acc = Inr (Some (acc @ hs))"
  using assms(3)
proof (induction hs arbitrary: acc)
  case (Cons h hs)
  then show ?case using assms(2) json_laws(1) [OF assms(1)] by (simp add: serializeHash_def as_string_def)
qed simp

lemma account_json:
  assumes "json_ok J" and "base64_ok X" and "big_ok X" and "wf_address (info_address a)" and "info_balance a < 2 ^ 256"
    and "list_all (\<lambda>h. length h = 32) (info_transactions_hashes a)"
  shows "deserializeAccountInfo X J (serializeAccountInfo X J a) = Inr (Some a)"
proof -
  note laws = json_laws [OF assms(1)]
  have "deserializeBalance X (big_str X (info_balance a)) = Inr (Some (info_balance a))" using assms(3,5) by (rule balance_roundtrip)
  then show ?thesis using assms(4) hashes_json [OF assms(1,2,6), of "[]"]
    by (simp add: deserializeAccountInfo_def serializeAccountInfo_def json_access laws serializeAddress_def serializeBalance_def
        account_type_roundtrip)
qed

lemma txs_json:
  assumes "json_ok J" and "base64_ok X" and "big_ok X" and "list_all wf_tx txs" and "list_all (\<lambda>tx. unat (tx_fee tx) < 2 ^ 63) txs"
    and "no_dups (acc @ txs)"
  shows "txs_loop X J (map (serializeTransaction X J) txs) acc = Inr (Some (acc @ txs))"
  using assms(4-6)
proof (induction txs arbitrary: acc)
  case (Cons tx txs)
  have obj: "json_is_object J (serializeTransaction X J tx)"
    using json_laws(6-8) [OF assms(1)] by (simp add: serializeTransaction_def)
  have "\<not> txset_find acc tx" using Cons.prems(3) by (auto simp: no_dups_append txset_find_def list_ex_iff dest: tx_eq_sym)
  then have "txset_add tx acc = acc @ [tx]" by (simp add: txset_add_def)
  then show ?case using Cons.IH [of "acc @ [tx]"] Cons.prems obj transaction_json_exact [OF assms(1-3), of tx] by simp
qed simp

lemma block_json:
  assumes "json_ok J" and "base64_ok X" and "big_ok X" and "wf_iblock X b"
    and "list_all (\<lambda>tx. unat (tx_fee tx) < 2 ^ 63) (blk_txs b)" and "no_dups (blk_txs b)"
  shows "deserializeBlock X J (serializeBlock X J b) = Inr (Some b)"
proof -
  note laws = json_laws [OF assms(1)]
  have wf: "length (blk_prev_block_hash b) = 32" "wf_address (blk_coinbase b)" "list_all wf_tx (blk_txs b)"
    using assms(4) by (auto simp: wf_iblock_def wf_mblock_def)
  have b: "mk_ImmutableBlock X (blk_depth b) (blk_nonce b) (blk_prev_block_hash b) (blk_timestamp b) (blk_coinbase b) (blk_txs b) = b"
    using assms(4) by (simp add: wf_iblock_def mk_ImmutableBlock_fields)
  show ?thesis using wf(1,2) txs_json [OF assms(1-3) wf(3) assms(5), of "[]"] assms(2,6) b
    by (simp add: deserializeBlock_def serializeBlock_def json_access laws serializeAddress_def serializeHash_def buildImmutable_def
        raiseIfNotEverythingIsSet_def bb_setDepth_def bb_setNonce_def bb_setPrevBlockHash_def bb_setTimestamp_def bb_setCoinbase_def
        bb_setTransactionsSet_def builder_null_def)
qed

end
