(* ===== verification/Http.thy ===== *)
theory Http
  imports HttpTools
begin

text \<open>
  Remote calls over HTTP: the server side \<^verbatim>\<open>src/rpc/http/http_adapter.cpp\<close> and the client side
  \<^verbatim>\<open>src/rpc/http/http_client.cpp\<close>. An action reads its arguments from the request, calls the service and puts the
  result into the reply; the client puts the arguments into the request and reads the reply.
  What lies between them, the posting of a JSON value to a path, is a function argument of the client.
\<close>

section \<open>The server\<close>

datatype http_status = OK | BadGateway

definition ok_reply :: "'j json \<Rightarrow> 'j \<Rightarrow> 'j \<Rightarrow> 'j" where
  "ok_reply J action_result result = json_put J ''result'' action_result (json_put J ''status'' (json_string J ''ok'') result)"

definition error_reply :: "'j json \<Rightarrow> string \<Rightarrow> 'j \<Rightarrow> 'j" where
  "error_reply J what result = json_put J ''result'' (json_string J what) (json_put J ''status'' (json_string J ''error'') result)"

text \<open>
  The actions: an action starts without arguments, loads them and runs. When it throws while it runs,
  the node may have been changed; the model does not follow it further (\<open>None\<close>).
\<close>

definition run_empty :: "'j json \<Rightarrow> string \<Rightarrow> ('j \<times> 'n) res \<Rightarrow> ('j \<times> 'n option) res" where
  "run_empty J name run =
     (let result = json_put J ''method'' (json_string J name) (json_null J)
      in case run of
           Inr (action_result, nd) \<Rightarrow> Inr (ok_reply J action_result result, Some nd)
         | Inl e \<Rightarrow> if is_std_exception e then Inr (error_reply J (error_what J e) result, None) else Inl e)"

definition run_json_process :: "'j json \<Rightarrow> string \<Rightarrow> 'a \<Rightarrow> (bool \<times> 'a) res \<Rightarrow> ('a \<Rightarrow> ('j \<times> 'n) res) \<Rightarrow> ('j \<times> 'n option) res" where
  "run_json_process J name none loadArguments run =
     (let result = json_put J ''method'' (json_string J name) (json_null J)
      in rbind (case loadArguments of
                  Inr (loaded, arg) \<Rightarrow> Inr (arg, if \<not> loaded then error_reply J ''invalid input json'' result else result)
                | Inl e \<Rightarrow> if is_std_exception e then Inr (none, error_reply J (error_what J e) result) else Inl e) (\<lambda>(arg, result).
         case run arg of
           Inr (action_result, nd) \<Rightarrow> Inr (ok_reply J action_result result, Some nd)
         | Inl e \<Rightarrow> if is_std_exception e then Inr (error_reply J (error_what J e) result, None) else Inl e))"

definition ActionNodeInfo_run :: "'s node_env \<Rightarrow> 'j json \<Rightarrow> 's node \<Rightarrow> ('j \<times> 's node) res" where
  "ActionNodeInfo_run E J nd = rbind (getNodeInfo E (node_core nd)) (\<lambda>info. Inr (serializeInfo (env_ext E) J info, nd))"

definition ActionGetAccount_loadArguments :: "'j json \<Rightarrow> 'j \<Rightarrow> (bool \<times> address option) res" where
  "ActionGetAccount_loadArguments J input =
     (if json_field J input ''address'' \<noteq> None then
        rbind (string_at J input ''address'') (\<lambda>s. rbind (deserializeAddress s) (\<lambda>address. Inr (address \<noteq> None, address)))
      else Inr (False, None))"

definition ActionGetAccount_run :: "'s node_env \<Rightarrow> 'j json \<Rightarrow> 's node \<Rightarrow> address option \<Rightarrow> ('j \<times> 's node) res" where
  "ActionGetAccount_run E J nd address =
     rbind (opt_value address) (\<lambda>address. Inr (serializeAccountInfo (env_ext E) J (rpc_getAccountInfo (node_core nd) address), nd))"

definition ActionGetBlock_loadArguments :: "ext \<Rightarrow> 'j json \<Rightarrow> 'j \<Rightarrow> (bool \<times> sha256 option \<times> depth option) res" where
  "ActionGetBlock_loadArguments X J input =
     (if json_field J input ''hash'' \<noteq> None then
        rbind (string_at J input ''hash'') (\<lambda>s. rbind (deserializeHash X s) (\<lambda>block_hash. Inr (block_hash \<noteq> None, block_hash, None)))
      else if json_field J input ''number'' \<noteq> None then
        rbind (uint64_at J input ''number'') (\<lambda>block_number. Inr (True, None, Some block_number))
      else Inr (False, None, None))"

definition ActionGetBlock_run :: "'s node_env \<Rightarrow> 'j json \<Rightarrow> 's node \<Rightarrow> sha256 option \<times> depth option \<Rightarrow> ('j \<times> 's node) res" where
  "ActionGetBlock_run E J nd arg =
     (case arg of
        (Some block_hash, _) \<Rightarrow> rbind (getBlock (node_core nd) block_hash) (\<lambda>block. Inr (serializeBlock (env_ext E) J block, nd))
      | (None, Some block_number) \<Rightarrow>
          rbind (getBlock_number (node_core nd) block_number) (\<lambda>block. Inr (serializeBlock (env_ext E) J block, nd))
      | (None, None) \<Rightarrow> Inl InvalidArgument)"

definition hash_loadArguments :: "ext \<Rightarrow> 'j json \<Rightarrow> 'j \<Rightarrow> (bool \<times> sha256 option) res" where
  "hash_loadArguments X J input =
     (if json_field J input ''hash'' \<noteq> None then
        rbind (string_at J input ''hash'') (\<lambda>s. rbind (deserializeHash X s) (\<lambda>hash. Inr (hash \<noteq> None, hash)))
      else Inr (False, None))"

definition ActionGetTransaction_run :: "'s node_env \<Rightarrow> 'j json \<Rightarrow> 's node \<Rightarrow> sha256 option \<Rightarrow> ('j \<times> 's node) res" where
  "ActionGetTransaction_run E J nd hash =
     rbind (opt_value hash) (\<lambda>hash. rbind (rpc_getTransaction E (node_core nd) hash) (\<lambda>tx. Inr (serializeTransaction (env_ext E) J tx, nd)))"

definition ActionGetTransactionStatus_run :: "'s node_env \<Rightarrow> 'j json \<Rightarrow> 's node \<Rightarrow> sha256 option \<Rightarrow> ('j \<times> 's node) res" where
  "ActionGetTransactionStatus_run E J nd hash =
     rbind (opt_value hash) (\<lambda>hash. rbind (getTransactionStatus (node_core nd) hash) (\<lambda>tx_result.
     Inr (serializeTransactionStatus J tx_result, nd)))"

definition ActionPushTransaction_loadArguments :: "'s node_env \<Rightarrow> 'j json \<Rightarrow> 'j \<Rightarrow> (bool \<times> transaction option) res" where
  "ActionPushTransaction_loadArguments E J input =
     rbind (deserializeTransaction (env_ext E) J input) (\<lambda>tx. Inr (tx \<noteq> None, tx))"

definition ActionPushTransaction_run :: "'s node_env \<Rightarrow> 'j json \<Rightarrow> time \<Rightarrow> 's node \<Rightarrow> transaction option \<Rightarrow> ('j \<times> 's node) res" where
  "ActionPushTransaction_run E J now nd tx =
     rbind (opt_value tx) (\<lambda>tx. rbind (pushTransaction E now tx nd) (\<lambda>(tx_result, nd). Inr (serializeTransactionStatus J tx_result, nd)))"

text \<open>
  The dispatch on the first part of the path. Without a path an error is replied, and then the
  first element of the empty vector is read.
\<close>

definition json_processor ::
  "'s node_env \<Rightarrow> 'j json \<Rightarrow> time \<Rightarrow> string \<Rightarrow> ('j \<Rightarrow> 's node \<Rightarrow> ('j \<times> 's node option) res) option" where
  "json_processor E J now name =
     (if name = ''get_account'' then Some (\<lambda>input nd. run_json_process J ''get_account'' None
        (ActionGetAccount_loadArguments J input) (ActionGetAccount_run E J nd))
      else if name = ''get_block'' then Some (\<lambda>input nd. run_json_process J ''get_block'' (None, None)
        (ActionGetBlock_loadArguments (env_ext E) J input) (ActionGetBlock_run E J nd))
      else if name = ''get_transaction'' then Some (\<lambda>input nd. run_json_process J ''get_transaction'' None
        (hash_loadArguments (env_ext E) J input) (ActionGetTransaction_run E J nd))
      else if name = ''get_transaction_status'' then Some (\<lambda>input nd. run_json_process J ''get_transaction_status'' None
        (hash_loadArguments (env_ext E) J input) (ActionGetTransactionStatus_run E J nd))
      else if name = ''push_transaction'' then Some (\<lambda>input nd. run_json_process J ''push_transaction'' None
        (ActionPushTransaction_loadArguments E J input) (ActionPushTransaction_run E J now nd))
      else None)"

definition handler ::
  "'s node_env \<Rightarrow> 'j json \<Rightarrow> time \<Rightarrow> string list \<Rightarrow> 'j \<Rightarrow> 's node \<Rightarrow> (http_status \<times> 'j \<times> 's node option) res" where
  "handler E J now paths body nd =
     (case paths of
        [] \<Rightarrow> Inl OutOfBounds
      | root_path # _ \<Rightarrow>
          (case json_processor E J now root_path of
             Some processor \<Rightarrow> rbind (processor body nd) (\<lambda>(reply, nd). Inr (OK, reply, nd))
           | None \<Rightarrow>
               if root_path = ''get_node_info''
               then rbind (run_empty J ''nodeInfo'' (ActionNodeInfo_run E J nd)) (\<lambda>(reply, nd). Inr (OK, reply, nd))
               else Inr (BadGateway, error_reply J ''no any processor was found''
                           (json_put J ''method'' (json_string J ''None'') (json_null J)), Some nd)))"

section \<open>The client\<close>

definition client_reply :: "'j json \<Rightarrow> ('j \<Rightarrow> 'a option res) \<Rightarrow> 'j \<Rightarrow> 'a res" where
  "client_reply J deserialize reply =
     rbind (string_at J reply ''status'') (\<lambda>status.
     rbind (if status = ''ok'' then rbind (json_at J reply ''result'') deserialize else Inl RpcError) (\<lambda>opt.
     case opt of Some v \<Rightarrow> Inr v | None \<Rightarrow> Inl InvalidArgument))"

definition client_getAccountInfo :: "ext \<Rightarrow> 'j json \<Rightarrow> (string \<Rightarrow> 'j \<Rightarrow> 'j res) \<Rightarrow> address \<Rightarrow> account_info res" where
  "client_getAccountInfo X J post address =
     rbind (post ''get_account'' (json_put J ''address'' (json_string J (base58Encode address)) (json_null J)))
       (client_reply J (deserializeAccountInfo X J))"

definition client_getNodeInfo :: "ext \<Rightarrow> 'j json \<Rightarrow> (string \<Rightarrow> 'j \<Rightarrow> 'j res) \<Rightarrow> rpc_info res" where
  "client_getNodeInfo X J post = rbind (post ''get_node_info'' (json_null J)) (client_reply J (deserializeInfo X J))"

definition client_getBlock :: "ext \<Rightarrow> 'j json \<Rightarrow> (string \<Rightarrow> 'j \<Rightarrow> 'j res) \<Rightarrow> sha256 \<Rightarrow> iblock res" where
  "client_getBlock X J post block_hash =
     rbind (post ''get_block'' (json_put J ''hash'' (serializeHash X J block_hash) (json_null J))) (client_reply J (deserializeBlock X J))"

definition client_getBlock_number :: "ext \<Rightarrow> 'j json \<Rightarrow> (string \<Rightarrow> 'j \<Rightarrow> 'j res) \<Rightarrow> depth \<Rightarrow> iblock res" where
  "client_getBlock_number X J post block_number =
     rbind (post ''get_block'' (json_put J ''number'' (json_number J (unat block_number)) (json_null J))) (client_reply J (deserializeBlock X J))"

definition client_getTransaction :: "ext \<Rightarrow> 'j json \<Rightarrow> (string \<Rightarrow> 'j \<Rightarrow> 'j res) \<Rightarrow> sha256 \<Rightarrow> transaction res" where
  "client_getTransaction X J post transaction_hash =
     rbind (post ''get_transaction'' (json_put J ''hash'' (serializeHash X J transaction_hash) (json_null J)))
       (client_reply J (deserializeTransaction X J))"

definition client_pushTransaction :: "ext \<Rightarrow> 'j json \<Rightarrow> (string \<Rightarrow> 'j \<Rightarrow> 'j res) \<Rightarrow> transaction \<Rightarrow> tx_status res" where
  "client_pushTransaction X J post transaction =
     rbind (post ''push_transaction'' (serializeTransaction X J transaction)) (client_reply J (deserializeTransactionStatus J))"

definition client_getTransactionStatus :: "ext \<Rightarrow> 'j json \<Rightarrow> (string \<Rightarrow> 'j \<Rightarrow> 'j res) \<Rightarrow> sha256 \<Rightarrow> tx_status res" where
  "client_getTransactionStatus X J post transaction_hash =
     rbind (post ''get_transaction_status'' (json_put J ''hash'' (serializeHash X J transaction_hash) (json_null J)))
       (client_reply J (deserializeTransactionStatus J))"

section \<open>Calls\<close>

text \<open>
  A call of the client on the server: what is posted is handled, and the reply comes back as it
  was sent. The client asks the server for the path after the slash.
\<close>

definition http_post :: "'s node_env \<Rightarrow> 'j json \<Rightarrow> time \<Rightarrow> 's node \<Rightarrow> string \<Rightarrow> 'j \<Rightarrow> 'j res" where
  "http_post E J now nd path body = rbind (handler E J now [path] body nd) (\<lambda>(status, reply, nd). Inr reply)"

text \<open>What the caller sees of a call of the service: an exception there is an \<^verbatim>\<open>RpcError\<close> here.\<close>

definition remote :: "'a res \<Rightarrow> 'a res" where
  "remote r = (case r of Inr x \<Rightarrow> Inr x | Inl e \<Rightarrow> if is_std_exception e then Inl RpcError else Inl e)"

lemma client_reply_ok:
  assumes "json_ok J" and "json_obj J result" and "deserialize r = Inr (Some x)"
  shows "client_reply J deserialize (ok_reply J r result) = Inr x"
  using assms(2,3) json_laws [OF assms(1)] by (simp add: client_reply_def ok_reply_def json_access)

lemma client_reply_error:
  assumes "json_ok J" and "json_obj J result"
  shows "client_reply J deserialize (error_reply J what result) = Inl RpcError"
  using assms(2) json_laws [OF assms(1)] by (simp add: client_reply_def error_reply_def json_access)

lemma json_obj_error_reply: "json_ok J \<Longrightarrow> json_obj J result \<Longrightarrow> json_obj J (error_reply J what result)"
  by (simp add: error_reply_def json_laws)

text \<open>A call whose arguments arrive: the client sees the result of the service, read back from its JSON form.\<close>

lemma call_json:
  assumes "json_ok J" and "loadArguments = Inr (True, arg)"
    and run: "run arg = rbind service (\<lambda>x. Inr (ser x, nd' x))" and deser: "\<And>x. service = Inr x \<Longrightarrow> deserialize (ser x) = Inr (Some (val x))"
  shows "rbind (rbind (run_json_process J name none loadArguments run) (\<lambda>(reply, nd). Inr reply)) (client_reply J deserialize)
    = remote (rbind service (\<lambda>x. Inr (val x)))"
proof -
  let ?result = "json_put J ''method'' (json_string J name) (json_null J)"
  have obj: "json_obj J ?result" using json_laws [OF assms(1)] by simp
  show ?thesis
  proof (cases service)
    case (Inl e)
    then show ?thesis using assms(2) run
      by (simp add: run_json_process_def remote_def client_reply_error [OF assms(1) obj])
  next
    case (Inr x)
    then show ?thesis using assms(2) run deser [OF Inr] client_reply_ok [OF assms(1) obj, of deserialize "ser x" "val x"]
      by (simp add: run_json_process_def remote_def)
  qed
qed

lemma call_empty:
  assumes "json_ok J" and run: "run = rbind service (\<lambda>x. Inr (ser x, nd))" and deser: "\<And>x. service = Inr x \<Longrightarrow> deserialize (ser x) = Inr (Some x)"
  shows "rbind (rbind (run_empty J name run) (\<lambda>(reply, nd). Inr reply)) (client_reply J deserialize) = remote service"
proof -
  have obj: "json_obj J (json_put J ''method'' (json_string J name) (json_null J))" using json_laws [OF assms(1)] by simp
  show ?thesis
  proof (cases service)
    case (Inl e)
    then show ?thesis using run by (simp add: run_empty_def remote_def client_reply_error [OF assms(1) obj])
  next
    case (Inr x)
    then show ?thesis using run deser [OF Inr] client_reply_ok [OF assms(1) obj, of deserialize "ser x" x]
      by (simp add: run_empty_def remote_def)
  qed
qed

lemma http_post_json:
  assumes "json_processor E J now path = Some processor"
  shows "http_post E J now nd path body = rbind (processor body nd) (\<lambda>(reply, nd). Inr reply)"
  using assms by (simp add: http_post_def handler_def rbind_def split: sum.split)

text \<open>The blocks that survive the JSON format: well-formed, without repeated transactions, with fees below \<open>2 ^ 63\<close>.\<close>

definition json_block :: "ext \<Rightarrow> iblock \<Rightarrow> bool" where
  "json_block X b \<longleftrightarrow> wf_iblock X b \<and> no_dups (blk_txs b) \<and> list_all (\<lambda>tx. unat (tx_fee tx) < 2 ^ 63) (blk_txs b)"

lemma load_hash:
  assumes "json_ok J" and "base64_ok X" and "length h = 32"
  shows "hash_loadArguments X J (json_put J ''hash'' (serializeHash X J h) (json_null J)) = Inr (True, Some h)"
    and "ActionGetBlock_loadArguments X J (json_put J ''hash'' (serializeHash X J h) (json_null J)) = Inr (True, Some h, None)"
  using assms(2,3) json_laws [OF assms(1)]
  by (simp_all add: hash_loadArguments_def ActionGetBlock_loadArguments_def json_access serializeHash_def)

lemma rbind_return [simp]: "rbind r Inr = r"
  by (cases r) simp_all

lemma http_getBlock:
  assumes J: "json_ok J" "base64_ok (env_ext E)" "big_ok (env_ext E)" and "length h = 32"
    and b: "\<And>b. getBlock (node_core nd) h = Inr b \<Longrightarrow> json_block (env_ext E) b"
  shows "client_getBlock (env_ext E) J (http_post E J now nd) h = remote (getBlock (node_core nd) h)"
proof -
  have proc: "json_processor E J now ''get_block'' = Some (\<lambda>input nd. run_json_process J ''get_block'' (None, None)
      (ActionGetBlock_loadArguments (env_ext E) J input) (ActionGetBlock_run E J nd))" by (simp add: json_processor_def)
  have deser: "deserializeBlock (env_ext E) J (serializeBlock (env_ext E) J b) = Inr (Some b)" if "getBlock (node_core nd) h = Inr b" for b
    using block_json [OF J] b [OF that] by (simp add: json_block_def)
  have run: "ActionGetBlock_run E J nd (Some h, None) = rbind (getBlock (node_core nd) h) (\<lambda>b. Inr (serializeBlock (env_ext E) J b, nd))"
    by (simp add: ActionGetBlock_run_def)
  show ?thesis unfolding client_getBlock_def http_post_json [OF proc]
    using call_json [where run = "ActionGetBlock_run E J nd" and service = "getBlock (node_core nd) h" and ser = "serializeBlock (env_ext E) J"
        and nd' = "\<lambda>_. nd" and deserialize = "deserializeBlock (env_ext E) J" and val = "\<lambda>b. b", OF J(1) load_hash(2) [OF J(1,2) assms(4)] run] deser by simp
qed

lemma http_getBlock_number:
  assumes J: "json_ok J" "base64_ok (env_ext E)" "big_ok (env_ext E)"
    and b: "\<And>b. getBlock_number (node_core nd) n = Inr b \<Longrightarrow> json_block (env_ext E) b"
  shows "client_getBlock_number (env_ext E) J (http_post E J now nd) n = remote (getBlock_number (node_core nd) n)"
proof -
  have proc: "json_processor E J now ''get_block'' = Some (\<lambda>input nd. run_json_process J ''get_block'' (None, None)
      (ActionGetBlock_loadArguments (env_ext E) J input) (ActionGetBlock_run E J nd))" by (simp add: json_processor_def)
  have load: "ActionGetBlock_loadArguments (env_ext E) J (json_put J ''number'' (json_number J (unat n)) (json_null J)) = Inr (True, None, Some n)"
    using json_laws [OF J(1)] by (simp add: ActionGetBlock_loadArguments_def json_access)
  have deser: "deserializeBlock (env_ext E) J (serializeBlock (env_ext E) J b) = Inr (Some b)" if "getBlock_number (node_core nd) n = Inr b" for b
    using block_json [OF J] b [OF that] by (simp add: json_block_def)
  have run: "ActionGetBlock_run E J nd (None, Some n) = rbind (getBlock_number (node_core nd) n) (\<lambda>b. Inr (serializeBlock (env_ext E) J b, nd))"
    by (simp add: ActionGetBlock_run_def)
  show ?thesis unfolding client_getBlock_number_def http_post_json [OF proc]
    using call_json [where run = "ActionGetBlock_run E J nd" and service = "getBlock_number (node_core nd) n" and ser = "serializeBlock (env_ext E) J"
        and nd' = "\<lambda>_. nd" and deserialize = "deserializeBlock (env_ext E) J" and val = "\<lambda>b. b", OF J(1) load run] deser by simp
qed

lemma http_getTransaction:
  assumes J: "json_ok J" "base64_ok (env_ext E)" "big_ok (env_ext E)" and "length h = 32"
    and tx: "\<And>tx. rpc_getTransaction E (node_core nd) h = Inr tx \<Longrightarrow> wf_tx tx \<and> unat (tx_fee tx) < 2 ^ 63"
  shows "client_getTransaction (env_ext E) J (http_post E J now nd) h = remote (rpc_getTransaction E (node_core nd) h)"
proof -
  have proc: "json_processor E J now ''get_transaction'' = Some (\<lambda>input nd. run_json_process J ''get_transaction'' None
      (hash_loadArguments (env_ext E) J input) (ActionGetTransaction_run E J nd))" by (simp add: json_processor_def)
  have deser: "deserializeTransaction (env_ext E) J (serializeTransaction (env_ext E) J tx) = Inr (Some tx)"
    if "rpc_getTransaction E (node_core nd) h = Inr tx" for tx
    using transaction_json_exact [OF J] tx [OF that] by blast
  have run: "ActionGetTransaction_run E J nd (Some h) = rbind (rpc_getTransaction E (node_core nd) h) (\<lambda>tx. Inr (serializeTransaction (env_ext E) J tx, nd))"
    by (simp add: ActionGetTransaction_run_def opt_value_def)
  show ?thesis unfolding client_getTransaction_def http_post_json [OF proc]
    using call_json [where run = "ActionGetTransaction_run E J nd" and service = "rpc_getTransaction E (node_core nd) h" and ser = "serializeTransaction (env_ext E) J"
        and nd' = "\<lambda>_. nd" and deserialize = "deserializeTransaction (env_ext E) J" and val = "\<lambda>tx. tx", OF J(1) load_hash(1) [OF J(1,2) assms(4)] run] deser by simp
qed

lemma http_getTransactionStatus:
  assumes J: "json_ok J" "base64_ok (env_ext E)" and "length h = 32"
    and st: "\<And>st. getTransactionStatus (node_core nd) h = Inr st \<Longrightarrow> unat (st_fee_left st) < 2 ^ 63"
  shows "client_getTransactionStatus (env_ext E) J (http_post E J now nd) h = remote (getTransactionStatus (node_core nd) h)"
proof -
  have proc: "json_processor E J now ''get_transaction_status'' = Some (\<lambda>input nd. run_json_process J ''get_transaction_status'' None
      (hash_loadArguments (env_ext E) J input) (ActionGetTransactionStatus_run E J nd))" by (simp add: json_processor_def)
  have deser: "deserializeTransactionStatus J (serializeTransactionStatus J st) = Inr (Some st)"
    if "getTransactionStatus (node_core nd) h = Inr st" for st
    using status_json [OF J(1)] st [OF that] by blast
  have run: "ActionGetTransactionStatus_run E J nd (Some h) = rbind (getTransactionStatus (node_core nd) h) (\<lambda>st. Inr (serializeTransactionStatus J st, nd))"
    by (simp add: ActionGetTransactionStatus_run_def opt_value_def)
  show ?thesis unfolding client_getTransactionStatus_def http_post_json [OF proc]
    using call_json [where run = "ActionGetTransactionStatus_run E J nd" and service = "getTransactionStatus (node_core nd) h" and ser = "serializeTransactionStatus J"
        and nd' = "\<lambda>_. nd" and deserialize = "deserializeTransactionStatus J" and val = "\<lambda>st. st", OF J(1) load_hash(1) [OF J assms(3)] run] deser by simp
qed

lemma http_getAccountInfo:
  assumes J: "json_ok J" "base64_ok (env_ext E)" "big_ok (env_ext E)" and "wf_address a"
    and acc: "info_balance (rpc_getAccountInfo (node_core nd) a) < 2 ^ 256"
      "list_all (\<lambda>h. length h = 32) (info_transactions_hashes (rpc_getAccountInfo (node_core nd) a))"
  shows "client_getAccountInfo (env_ext E) J (http_post E J now nd) a = Inr (rpc_getAccountInfo (node_core nd) a)"
proof -
  have proc: "json_processor E J now ''get_account'' = Some (\<lambda>input nd. run_json_process J ''get_account'' None
      (ActionGetAccount_loadArguments J input) (ActionGetAccount_run E J nd))" by (simp add: json_processor_def)
  have load: "ActionGetAccount_loadArguments J (json_put J ''address'' (json_string J (base58Encode a)) (json_null J)) = Inr (True, Some a)"
    using json_laws [OF J(1)] assms(4) by (simp add: ActionGetAccount_loadArguments_def json_access)
  have "info_address (rpc_getAccountInfo (node_core nd) a) = a" by (simp add: rpc_getAccountInfo_def getAccountInfo_def split: option.split)
  then have deser: "deserializeAccountInfo (env_ext E) J (serializeAccountInfo (env_ext E) J (rpc_getAccountInfo (node_core nd) a))
      = Inr (Some (rpc_getAccountInfo (node_core nd) a))"
    using account_json [OF J _ acc] assms(4) by simp
  have run: "ActionGetAccount_run E J nd (Some a) = rbind (Inr (rpc_getAccountInfo (node_core nd) a)) (\<lambda>i. Inr (serializeAccountInfo (env_ext E) J i, nd))"
    by (simp add: ActionGetAccount_run_def opt_value_def)
  show ?thesis unfolding client_getAccountInfo_def http_post_json [OF proc]
    using call_json [where run = "ActionGetAccount_run E J nd" and service = "Inr (rpc_getAccountInfo (node_core nd) a)" and ser = "serializeAccountInfo (env_ext E) J"
        and nd' = "\<lambda>_. nd" and deserialize = "deserializeAccountInfo (env_ext E) J" and val = "\<lambda>i. i", OF J(1) load run] deser by (simp add: remote_def)
qed

lemma http_getNodeInfo:
  assumes J: "json_ok J" "base64_ok (env_ext E)" and "hash_ok (env_ext E)"
  shows "client_getNodeInfo (env_ext E) J (http_post E J now nd) = remote (getNodeInfo E (node_core nd))"
proof -
  have deser: "deserializeInfo (env_ext E) J (serializeInfo (env_ext E) J i) = Inr (Some i)" if "getNodeInfo E (node_core nd) = Inr i" for i
    using that assms(3) by (intro info_json [OF J]) (auto simp: getNodeInfo_def rbind_eq_Inr RPC_PUBLIC_API_VERSION_def)
  have "http_post E J now nd ''get_node_info'' (json_null J) = rbind (run_empty J ''nodeInfo'' (ActionNodeInfo_run E J nd)) (\<lambda>(reply, nd). Inr reply)"
    by (simp add: http_post_def handler_def json_processor_def rbind_def split: sum.split)
  then show ?thesis using call_empty [OF J(1), of "ActionNodeInfo_run E J nd" "getNodeInfo E (node_core nd)" "serializeInfo (env_ext E) J" nd
      "deserializeInfo (env_ext E) J" "''nodeInfo''"] deser by (simp add: client_getNodeInfo_def ActionNodeInfo_run_def)
qed

lemma http_pushTransaction:
  assumes J: "json_ok J" "base64_ok (env_ext E)" "big_ok (env_ext E)" and "wf_tx tx" and "unat (tx_fee tx) < 2 ^ 63"
    and st: "\<And>st nd'. pushTransaction E now tx nd = Inr (st, nd') \<Longrightarrow> unat (st_fee_left st) < 2 ^ 63"
  shows "client_pushTransaction (env_ext E) J (http_post E J now nd) tx = remote (rbind (pushTransaction E now tx nd) (\<lambda>(st, nd'). Inr st))"
    and "pushTransaction E now tx nd = Inr (st', nd') \<Longrightarrow>
      \<exists>reply. handler E J now [''push_transaction''] (serializeTransaction (env_ext E) J tx) nd = Inr (OK, reply, Some nd')"
proof -
  have proc: "json_processor E J now ''push_transaction'' = Some (\<lambda>input nd. run_json_process J ''push_transaction'' None
      (ActionPushTransaction_loadArguments E J input) (ActionPushTransaction_run E J now nd))" by (simp add: json_processor_def)
  have load: "ActionPushTransaction_loadArguments E J (serializeTransaction (env_ext E) J tx) = Inr (True, Some tx)"
    using transaction_json_exact [OF J assms(4,5)] by (simp add: ActionPushTransaction_loadArguments_def)
  have deser: "deserializeTransactionStatus J (serializeTransactionStatus J (fst r)) = Inr (Some (fst r))"
    if "pushTransaction E now tx nd = Inr r" for r
    using status_json [OF J(1)] st [of "fst r" "snd r"] that by simp
  have run: "ActionPushTransaction_run E J now nd (Some tx) = rbind (pushTransaction E now tx nd) (\<lambda>r. Inr (serializeTransactionStatus J (fst r), snd r))"
    by (simp add: ActionPushTransaction_run_def opt_value_def case_prod_unfold)
  show "client_pushTransaction (env_ext E) J (http_post E J now nd) tx = remote (rbind (pushTransaction E now tx nd) (\<lambda>(st, nd'). Inr st))"
    unfolding client_pushTransaction_def http_post_json [OF proc]
    using call_json [where run = "ActionPushTransaction_run E J now nd" and service = "pushTransaction E now tx nd" and ser = "\<lambda>r. serializeTransactionStatus J (fst r)"
        and nd' = "snd" and deserialize = "deserializeTransactionStatus J" and val = "fst", OF J(1) load run] deser by (simp add: case_prod_unfold)
  show "\<exists>reply. handler E J now [''push_transaction''] (serializeTransaction (env_ext E) J tx) nd = Inr (OK, reply, Some nd')"
    if "pushTransaction E now tx nd = Inr (st', nd')"
    using that load run by (simp add: handler_def proc run_json_process_def)
qed

section \<open>Properties\<close>


text \<open>A library of JSON values for the example.\<close>

datatype json_value = JNull | JString string | JNumber nat | JArray "json_value list" | JObject "(string \<times> json_value) list"

definition demo_json :: "json_value json" where
  "demo_json = \<lparr>json_null = JNull, json_string = JString, json_number = JNumber, json_array = JArray,
     json_put = (\<lambda>k v j. case j of JObject fs \<Rightarrow> JObject ((k, v) # fs) | _ \<Rightarrow> JObject [(k, v)]),
     json_field = (\<lambda>j k. case j of JObject fs \<Rightarrow> map_of fs k | _ \<Rightarrow> None),
     json_as_string = (\<lambda>j. case j of JString s \<Rightarrow> Some s | _ \<Rightarrow> None),
     json_is_number = (\<lambda>j. case j of JNumber _ \<Rightarrow> True | _ \<Rightarrow> False),
     json_to_uint64 = (\<lambda>j. case j of JNumber n \<Rightarrow> of_nat n | _ \<Rightarrow> 0), json_to_uint32 = (\<lambda>j. case j of JNumber n \<Rightarrow> of_nat n | _ \<Rightarrow> 0),
     json_as_array = (\<lambda>j. case j of JArray vs \<Rightarrow> Some vs | _ \<Rightarrow> None), json_is_object = (\<lambda>j. case j of JObject _ \<Rightarrow> True | _ \<Rightarrow> False),
     error_what = (\<lambda>_. ''error'')\<rparr>"

lemma demo_json_ok: "json_ok demo_json"
  by (auto simp: json_ok_def json_obj_def demo_json_def split: json_value.splits)

text \<open>A node for the example: it has no blocks, and one account owns the balance.\<close>

definition demo_node :: "(string \<rightharpoonup> string) node" where
  "demo_node = \<lparr>node_core = demo_core demo_accounts,
     node_miner = mk_CommonState \<lparr>cd_task = NONE, cd_block_to_mine = None, cd_complexity = None\<rparr>\<rparr>"

lemma demo_node_blocks:
  "getBlock (node_core demo_node) h = Inl InvalidArgument" "getBlock_number (node_core demo_node) n = Inl InvalidArgument"
  by (simp_all add: demo_node_def getBlock_def getBlock_number_def core_findBlock_def core_findBlockHash_def findBlock_def
      findBlockHashByDepth_def demo_core_def)

lemma demo_node_transaction: "rpc_getTransaction demo_env (node_core demo_node) h \<noteq> Inr t"
  by (simp add: demo_node_def rpc_getTransaction_def core_findTransaction_def findTransaction_def demo_core_def)

lemma demo_node_status: "getTransactionStatus (node_core demo_node) h = Inr st \<Longrightarrow> unat (st_fee_left st) < 2 ^ 63"
  by (auto simp: getTransactionStatus_def getTransactionOutput_def demo_node_def demo_core_def mk_TransactionStatus_def)

lemma demo_node_push: "pushTransaction demo_env 5 invalidTransaction demo_node = Inr (st, nd') \<Longrightarrow> unat (st_fee_left st) < 2 ^ 63"
  by (auto simp: pushTransaction_def addPendingTransaction_def rbind_eq_Inr demo_node_def demo_core_def core_findTransaction_def
      findTransaction_def mk_TransactionStatus_def Let_def invalidTransaction_def calcCost_def split: if_splits option.splits)

lemma demo_node_account:
  "rpc_getAccountInfo (node_core demo_node) (replicate 20 1)
     = \<lparr>info_type = CLIENT, info_address = replicate 20 1, info_balance = 100, info_nonce = 0, info_transactions_hashes = []\<rparr>"
  using demo_addresses by (simp add: demo_node_def rpc_getAccountInfo_def getAccountInfo_def demo_core_def demo_accounts_def toInfo_def
      setBalance_def mk_AccountState_def)

lemma demo_node_ok:
  "base64_ok (env_ext demo_env)" "big_ok (env_ext demo_env)" "hash_ok (env_ext demo_env)"
  "wf_state (core_state_manager (node_core demo_node))" "length (replicate 32 (7 :: byte)) = 32" "wf_address (replicate 20 1)"
  "list_all (\<lambda>h. length h = 32) (info_transactions_hashes (rpc_getAccountInfo (node_core demo_node) (replicate 20 1)))"
  using demo_base64 demo_ext_ok demo_accounts_facts(1)
  by (simp_all add: demo_env_def demo_node_def demo_core_def wf_address_def LENGTH_IN_BYTES_def demo_node_account [unfolded demo_node_def demo_core_def, simplified])


end
