(* ===== verification/Grpc.thy ===== *)
theory Grpc
  imports Http
begin

text \<open>
  Remote calls over gRPC: the messages of \<^verbatim>\<open>src/rpc/grpc/protobuf/public_rpc.proto\<close>, their conversions
  \<^verbatim>\<open>src/rpc/grpc/tools.cpp\<close>, the server side \<^verbatim>\<open>grpc_adapter.cpp\<close> and the client side \<^verbatim>\<open>grpc_client.cpp\<close>.
  A message is a record with the fields of its declaration; an enumeration is the integer that
  travels, since any integer may arrive. The stub that carries a request to the server is a function
  argument of the client.
\<close>

section \<open>Messages\<close>

record pb_Address = address_at_base_58 :: string

record pb_Hash = bytes_base_64 :: string

record pb_Number = pb_number :: "64 word"

record pb_Time = seconds_since_epoch :: "32 word"

record pb_CurrencyAmount = pb_value :: string

record pb_Signature = signature_bytes_at_base_64 :: string

record pb_Data = data_bytes_base_64 :: string

record pb_AccountInfo =
  pba_type :: int
  pba_address :: pb_Address
  pba_balance :: pb_CurrencyAmount
  pba_nonce :: "64 word"
  pba_hashes :: "pb_Hash list"

record pb_NodeInfo =
  pbn_top_block_hash :: pb_Hash
  pbn_top_block_number :: "64 word"
  pbn_interface_version :: "32 word"

record pb_Transaction =
  pbt_from :: pb_Address
  pbt_to :: pb_Address
  pbt_value :: pb_CurrencyAmount
  pbt_fee :: "64 word"
  pbt_creation_time :: pb_Time
  pbt_data :: string
  pbt_signature :: pb_Signature

record pb_Block =
  pbb_coinbase :: pb_Address
  pbb_timestamp :: pb_Time
  pbb_depth :: "64 word"
  pbb_nonce :: "64 word"
  pbb_previous_block_hash :: pb_Hash
  pbb_transactions :: "pb_Transaction list"

record pb_TransactionStatus =
  pbs_status :: int
  pbs_type :: int
  pbs_message :: string
  pbs_fee_left :: "64 word"

section \<open>Conversions\<close>

fun grpc_serializeAccountType :: "account_type \<Rightarrow> int" where
  "grpc_serializeAccountType CLIENT = 0"
| "grpc_serializeAccountType CONTRACT = 1"

definition grpc_deserializeAccountType :: "int \<Rightarrow> account_type res" where
  "grpc_deserializeAccountType type = (if type = 0 then Inr CLIENT else if type = 1 then Inr CONTRACT else Inl InvalidArgument)"

fun serializeTransactionStatusCode :: "status_code \<Rightarrow> int" where
  "serializeTransactionStatusCode Success = 0"
| "serializeTransactionStatusCode Failed = 6"
| "serializeTransactionStatusCode Revert = 5"
| "serializeTransactionStatusCode BadQueryForm = 2"
| "serializeTransactionStatusCode BadSign = 3"
| "serializeTransactionStatusCode Pending = 1"
| "serializeTransactionStatusCode NotEnoughBalance = 4"

definition deserializeTransactionStatusCode :: "int \<Rightarrow> status_code res" where
  "deserializeTransactionStatusCode status_code =
     (if status_code = 0 then Inr Success else if status_code = 6 then Inr Failed else if status_code = 5 then Inr Revert
      else if status_code = 2 then Inr BadQueryForm else if status_code = 3 then Inr BadSign else if status_code = 1 then Inr Pending
      else if status_code = 4 then Inr NotEnoughBalance else Inl InvalidArgument)"

fun serializeTransactionActionType :: "action_type \<Rightarrow> int" where
  "serializeTransactionActionType ContractCreation = 3"
| "serializeTransactionActionType ContractCall = 2"
| "serializeTransactionActionType Transfer = 1"
| "serializeTransactionActionType None_action = 0"

definition deserializeTransactionActionType :: "int \<Rightarrow> action_type res" where
  "deserializeTransactionActionType action_type =
     (if action_type = 2 then Inr ContractCall else if action_type = 3 then Inr ContractCreation
      else if action_type = 1 then Inr Transfer else if action_type = 0 then Inr None_action else Inl InvalidArgument)"

definition grpc_serializeAddress :: "address \<Rightarrow> pb_Address" where
  "grpc_serializeAddress from = \<lparr>address_at_base_58 = base58Encode from\<rparr>"

definition grpc_deserializeAddress :: "pb_Address \<Rightarrow> address res" where
  "grpc_deserializeAddress address = rbind (base58Decode (address_at_base_58 address)) address_of_bytes"

definition grpc_serializeHash :: "ext \<Rightarrow> sha256 \<Rightarrow> pb_Hash" where
  "grpc_serializeHash X from = \<lparr>bytes_base_64 = base64Encode X from\<rparr>"

definition grpc_deserializeHash :: "ext \<Rightarrow> pb_Hash \<Rightarrow> sha256 res" where
  "grpc_deserializeHash X hash = rbind (base64Decode X (bytes_base_64 hash)) sha256_of"

definition grpc_serializeAccountInfo :: "ext \<Rightarrow> account_info \<Rightarrow> pb_AccountInfo" where
  "grpc_serializeAccountInfo X from =
     \<lparr>pba_type = grpc_serializeAccountType (info_type from), pba_address = grpc_serializeAddress (info_address from),
      pba_balance = \<lparr>pb_value = big_str X (info_balance from)\<rparr>, pba_nonce = info_nonce from,
      pba_hashes = map (grpc_serializeHash X) (info_transactions_hashes from)\<rparr>"

fun grpc_hashes_loop :: "ext \<Rightarrow> pb_Hash list \<Rightarrow> sha256 list \<Rightarrow> sha256 list res" where
  "grpc_hashes_loop X [] hashes = Inr hashes"
| "grpc_hashes_loop X (hs # rest) hashes = rbind (grpc_deserializeHash X hs) (\<lambda>h. grpc_hashes_loop X rest (hashes @ [h]))"

definition grpc_deserializeAccountInfo :: "ext \<Rightarrow> pb_AccountInfo \<Rightarrow> account_info res" where
  "grpc_deserializeAccountInfo X info =
     (let balance = pb_value (pba_balance info); nonce = pba_nonce info in
      rbind (grpc_hashes_loop X (pba_hashes info) []) (\<lambda>hashes.
      rbind (grpc_deserializeAccountType (pba_type info)) (\<lambda>type.
      rbind (grpc_deserializeAddress (pba_address info)) (\<lambda>address.
      rbind (big_parse X balance) (\<lambda>balance.
      Inr \<lparr>info_type = type, info_address = address, info_balance = balance, info_nonce = nonce, info_transactions_hashes = hashes\<rparr>)))))"

definition grpc_serializeInfo :: "ext \<Rightarrow> rpc_info \<Rightarrow> pb_NodeInfo" where
  "grpc_serializeInfo X from =
     \<lparr>pbn_top_block_hash = grpc_serializeHash X (ri_top_block_hash from), pbn_top_block_number = ri_top_block_number from,
      pbn_interface_version = of_nat (ri_api_version from)\<rparr>"

definition grpc_deserializeInfo :: "ext \<Rightarrow> pb_NodeInfo \<Rightarrow> rpc_info res" where
  "grpc_deserializeInfo X info =
     rbind (grpc_deserializeHash X (pbn_top_block_hash info)) (\<lambda>top_block_hash.
     Inr \<lparr>ri_top_block_hash = top_block_hash, ri_top_block_number = pbn_top_block_number info,
       ri_api_version = unat (pbn_interface_version info)\<rparr>)"

definition serializeNumber :: "64 word \<Rightarrow> pb_Number" where
  "serializeNumber from = \<lparr>pb_number = from\<rparr>"

definition deserializeData :: "ext \<Rightarrow> pb_Data \<Rightarrow> bytes res" where
  "deserializeData X data = base64Decode X (data_bytes_base_64 data)"

definition grpc_serializeTransaction :: "ext \<Rightarrow> transaction \<Rightarrow> pb_Transaction" where
  "grpc_serializeTransaction X from =
     \<lparr>pbt_from = grpc_serializeAddress (tx_from from), pbt_to = grpc_serializeAddress (tx_to from),
      pbt_value = \<lparr>pb_value = big_str X (tx_amount from)\<rparr>, pbt_fee = tx_fee from,
      pbt_creation_time = \<lparr>seconds_since_epoch = tx_timestamp from\<rparr>, pbt_data = base64Encode X (tx_data from),
      pbt_signature = \<lparr>signature_bytes_at_base_64 = base64Encode X (tx_sign from)\<rparr>\<rparr>"

definition grpc_deserializeTransaction :: "ext \<Rightarrow> pb_Transaction \<Rightarrow> transaction res" where
  "grpc_deserializeTransaction X tx =
     (let txb = empty_builder in
      rbind (grpc_deserializeAddress (pbt_from tx)) (\<lambda>from. let txb = setFrom from txb in
      rbind (grpc_deserializeAddress (pbt_to tx)) (\<lambda>to_address. let txb = setTo to_address txb in
      rbind (big_parse X (pb_value (pbt_value tx))) (\<lambda>amount. let txb = setAmount amount txb;
        txb = setFee (pbt_fee tx) txb;
        txb = setTimestamp (seconds_since_epoch (pbt_creation_time tx)) txb in
      rbind (base64Decode X (pbt_data tx)) (\<lambda>data. let txb = setData data txb in
      rbind (rbind (base64Decode X (signature_bytes_at_base_64 (pbt_signature tx))) (fixed_bytes 65)) (\<lambda>sign.
      build_tx (setSign sign txb)))))))"

definition grpc_serializeBlock :: "ext \<Rightarrow> iblock \<Rightarrow> pb_Block" where
  "grpc_serializeBlock X from =
     \<lparr>pbb_coinbase = grpc_serializeAddress (blk_coinbase from), pbb_timestamp = \<lparr>seconds_since_epoch = blk_timestamp from\<rparr>,
      pbb_depth = blk_depth from, pbb_nonce = blk_nonce from, pbb_previous_block_hash = grpc_serializeHash X (blk_prev_block_hash from),
      pbb_transactions = map (grpc_serializeTransaction X) (blk_txs from)\<rparr>"

fun grpc_txs_loop :: "ext \<Rightarrow> pb_Transaction list \<Rightarrow> txset \<Rightarrow> txset res" where
  "grpc_txs_loop X [] txset = Inr txset"
| "grpc_txs_loop X (txv # rest) txset =
     rbind (grpc_deserializeTransaction X txv) (\<lambda>tx. grpc_txs_loop X rest (txset_add tx txset))"

definition grpc_deserializeBlock :: "ext \<Rightarrow> pb_Block \<Rightarrow> iblock res" where
  "grpc_deserializeBlock X block =
     (let depth = pbb_depth block in
      rbind (grpc_deserializeHash X (pbb_previous_block_hash block)) (\<lambda>prev_block_hash.
      let timestamp = seconds_since_epoch (pbb_timestamp block); nonce = pbb_nonce block in
      rbind (grpc_deserializeAddress (pbb_coinbase block)) (\<lambda>coinbase.
      rbind (grpc_txs_loop X (pbb_transactions block) []) (\<lambda>txset.
      buildImmutable X (bb_setTransactionsSet txset (bb_setCoinbase coinbase (bb_setTimestamp timestamp
        (bb_setPrevBlockHash prev_block_hash (bb_setNonce nonce (bb_setDepth depth builder_null))))))))))"

definition grpc_serializeTransactionStatus :: "tx_status \<Rightarrow> pb_TransactionStatus" where
  "grpc_serializeTransactionStatus from =
     \<lparr>pbs_status = serializeTransactionStatusCode (st_status from), pbs_type = serializeTransactionActionType (st_action from),
      pbs_message = st_message from, pbs_fee_left = st_fee_left from\<rparr>"

definition grpc_deserializeTransactionStatus :: "pb_TransactionStatus \<Rightarrow> tx_status res" where
  "grpc_deserializeTransactionStatus status =
     rbind (deserializeTransactionStatusCode (pbs_status status)) (\<lambda>status_code.
     rbind (deserializeTransactionActionType (pbs_type status)) (\<lambda>action_type.
     Inr (mk_TransactionStatus status_code action_type (pbs_fee_left status) (pbs_message status))))"

section \<open>The server\<close>

text \<open>
  The reply to a call: a message with status \<^verbatim>\<open>OK\<close>, or the status \<^verbatim>\<open>CANCELLED\<close> alone. A handler
  turns every exception into the second. When the service throws, the node may have been
  changed and the model does not follow it further (\<open>None\<close>).
\<close>

datatype 'm grpc_reply = Grpc_OK 'm | Grpc_CANCELLED

definition adapter_call :: "('m \<times> 'n) res \<Rightarrow> ('m grpc_reply \<times> 'n option) res" where
  "adapter_call r =
     (case r of
        Inr (response, nd) \<Rightarrow> Inr (Grpc_OK response, Some nd)
      | Inl e \<Rightarrow> if is_std_exception e then Inr (Grpc_CANCELLED, None) else Inl e)"

definition get_account :: "'s node_env \<Rightarrow> pb_Address \<Rightarrow> 's node \<Rightarrow> (pb_AccountInfo grpc_reply \<times> 's node option) res" where
  "get_account E request nd = adapter_call
     (rbind (grpc_deserializeAddress request) (\<lambda>address.
      let accountInfo = rpc_getAccountInfo (node_core nd) address
      in Inr (grpc_serializeAccountInfo (env_ext E) accountInfo, nd)))"

definition get_node_info :: "'s node_env \<Rightarrow> 's node \<Rightarrow> (pb_NodeInfo grpc_reply \<times> 's node option) res" where
  "get_node_info E nd = adapter_call
     (rbind (getNodeInfo E (node_core nd)) (\<lambda>info. Inr (grpc_serializeInfo (env_ext E) info, nd)))"

definition get_block_by_hash :: "'s node_env \<Rightarrow> pb_Hash \<Rightarrow> 's node \<Rightarrow> (pb_Block grpc_reply \<times> 's node option) res" where
  "get_block_by_hash E request nd = adapter_call
     (rbind (grpc_deserializeHash (env_ext E) request) (\<lambda>block_hash.
      rbind (getBlock (node_core nd) block_hash) (\<lambda>block.
      Inr (grpc_serializeBlock (env_ext E) block, nd))))"

definition get_block_by_number :: "'s node_env \<Rightarrow> pb_Number \<Rightarrow> 's node \<Rightarrow> (pb_Block grpc_reply \<times> 's node option) res" where
  "get_block_by_number E request nd = adapter_call
     (rbind (getBlock_number (node_core nd) (pb_number request)) (\<lambda>block.
      Inr (grpc_serializeBlock (env_ext E) block, nd)))"

definition get_transaction :: "'s node_env \<Rightarrow> pb_Hash \<Rightarrow> 's node \<Rightarrow> (pb_Transaction grpc_reply \<times> 's node option) res" where
  "get_transaction E request nd = adapter_call
     (rbind (rbind (base64Decode (env_ext E) (bytes_base_64 request)) sha256_of) (\<lambda>transaction_hash.
      rbind (rpc_getTransaction E (node_core nd) transaction_hash) (\<lambda>tx.
      Inr (grpc_serializeTransaction (env_ext E) tx, nd))))"

definition push_transaction ::
  "'s node_env \<Rightarrow> time \<Rightarrow> pb_Transaction \<Rightarrow> 's node \<Rightarrow> (pb_TransactionStatus grpc_reply \<times> 's node option) res" where
  "push_transaction E now request nd = adapter_call
     (rbind (grpc_deserializeTransaction (env_ext E) request) (\<lambda>tx.
      rbind (pushTransaction E now tx nd) (\<lambda>(result, nd).
      Inr (grpc_serializeTransactionStatus result, nd))))"

definition get_transaction_result :: "'s node_env \<Rightarrow> pb_Hash \<Rightarrow> 's node \<Rightarrow> (pb_TransactionStatus grpc_reply \<times> 's node option) res" where
  "get_transaction_result E request nd = adapter_call
     (rbind (grpc_deserializeHash (env_ext E) request) (\<lambda>transaction_hash.
      rbind (getTransactionStatus (node_core nd) transaction_hash) (\<lambda>result.
      Inr (grpc_serializeTransactionStatus result, nd))))"

section \<open>The client\<close>

text \<open>
  The client turns a status other than \<^verbatim>\<open>OK\<close> and a \<^verbatim>\<open>base::Error\<close> of the conversion into an
  \<^verbatim>\<open>RpcError\<close>; an exception of the standard library in the conversion escapes.
\<close>

definition grpc_client_reply :: "('m \<Rightarrow> 'a res) \<Rightarrow> 'm grpc_reply \<Rightarrow> 'a res" where
  "grpc_client_reply deserialize reply =
     (case reply of
        Grpc_OK m \<Rightarrow> (case deserialize m of Inr x \<Rightarrow> Inr x | Inl e \<Rightarrow> if is_base_error e then Inl RpcError else Inl e)
      | Grpc_CANCELLED \<Rightarrow> Inl RpcError)"

definition grpc_getAccountInfo :: "ext \<Rightarrow> (pb_Address \<Rightarrow> pb_AccountInfo grpc_reply res) \<Rightarrow> address \<Rightarrow> account_info res" where
  "grpc_getAccountInfo X stub address = rbind (stub (grpc_serializeAddress address)) (grpc_client_reply (grpc_deserializeAccountInfo X))"

definition grpc_getNodeInfo :: "ext \<Rightarrow> pb_NodeInfo grpc_reply res \<Rightarrow> rpc_info res" where
  "grpc_getNodeInfo X stub = rbind stub (grpc_client_reply (grpc_deserializeInfo X))"

definition grpc_getBlock :: "ext \<Rightarrow> (pb_Hash \<Rightarrow> pb_Block grpc_reply res) \<Rightarrow> sha256 \<Rightarrow> iblock res" where
  "grpc_getBlock X stub block_hash = rbind (stub (grpc_serializeHash X block_hash)) (grpc_client_reply (grpc_deserializeBlock X))"

definition grpc_getBlock_number :: "ext \<Rightarrow> (pb_Number \<Rightarrow> pb_Block grpc_reply res) \<Rightarrow> depth \<Rightarrow> iblock res" where
  "grpc_getBlock_number X stub block_number = rbind (stub (serializeNumber block_number)) (grpc_client_reply (grpc_deserializeBlock X))"

definition grpc_getTransaction :: "ext \<Rightarrow> (pb_Hash \<Rightarrow> pb_Transaction grpc_reply res) \<Rightarrow> sha256 \<Rightarrow> transaction res" where
  "grpc_getTransaction X stub transaction_hash =
     rbind (stub (grpc_serializeHash X transaction_hash)) (grpc_client_reply (grpc_deserializeTransaction X))"

definition grpc_pushTransaction :: "ext \<Rightarrow> (pb_Transaction \<Rightarrow> pb_TransactionStatus grpc_reply res) \<Rightarrow> transaction \<Rightarrow> tx_status res" where
  "grpc_pushTransaction X stub transaction =
     rbind (stub (grpc_serializeTransaction X transaction)) (grpc_client_reply grpc_deserializeTransactionStatus)"

definition grpc_getTransactionStatus :: "ext \<Rightarrow> (pb_Hash \<Rightarrow> pb_TransactionStatus grpc_reply res) \<Rightarrow> sha256 \<Rightarrow> tx_status res" where
  "grpc_getTransactionStatus X stub transaction_hash =
     rbind (stub (grpc_serializeHash X transaction_hash)) (grpc_client_reply grpc_deserializeTransactionStatus)"

section \<open>What the conversions keep\<close>

text \<open>
  A message type carries the values of a type when every valid value is read back from the message
  written for it.
\<close>

locale carrier =
  fixes wr :: "'a \<Rightarrow> 'm" and rd :: "'m \<Rightarrow> 'a res" and valid :: "'a \<Rightarrow> bool"
  assumes read_write: "valid x \<Longrightarrow> rd (wr x) = Inr x"
begin

lemma write_inj: "valid x \<Longrightarrow> valid y \<Longrightarrow> wr x = wr y \<Longrightarrow> x = y"
  by (metis read_write Inr_inject)

text \<open>A remote call whose result the message type carries: the client gets the result of the service.\<close>

lemma remote_result:
  assumes "\<And>x n. service = Inr (x, n) \<Longrightarrow> valid x"
  shows "rbind (rbind (adapter_call (rbind service (\<lambda>(x, n). Inr (wr x, n)))) (\<lambda>(reply, nd). Inr reply)) (grpc_client_reply rd)
    = remote (rbind service (\<lambda>(x, n). Inr x))"
proof (cases service)
  case (Inr r)
  obtain x n where "r = (x, n)" by (cases r)
  then show ?thesis using Inr read_write assms by (simp add: adapter_call_def grpc_client_reply_def remote_def)
qed (simp add: adapter_call_def grpc_client_reply_def remote_def)

text \<open>The same for a service that only reads the node.\<close>

lemma remote_query:
  assumes "\<And>x. service = Inr x \<Longrightarrow> valid x"
  shows "rbind (rbind (adapter_call (rbind service (\<lambda>x. Inr (wr x, nd)))) (\<lambda>(reply, nd). Inr reply)) (grpc_client_reply rd)
    = remote service"
proof -
  have "rbind service (\<lambda>x. Inr (wr x, nd)) = rbind (rbind service (\<lambda>x. Inr (x, nd))) (\<lambda>(x, n). Inr (wr x, n))"
    by (cases service) simp_all
  moreover have "rbind (rbind service (\<lambda>x. Inr (x, nd))) (\<lambda>(x, n). Inr x) = service" by (cases service) simp_all
  ultimately show ?thesis using remote_result [of "rbind service (\<lambda>x. Inr (x, nd))"] assms by (simp add: rbind_eq_Inr)
qed

text \<open>The argument of a call arrives as the client gave it.\<close>

lemma argument_arrives: "valid a \<Longrightarrow> rbind (rd (wr a)) f = f a"
  by (simp add: read_write)

end

lemma grpc_hash_read: "base64_ok X \<and> length h = 32 \<Longrightarrow> grpc_deserializeHash X (grpc_serializeHash X h) = Inr h"
  by (simp add: grpc_deserializeHash_def grpc_serializeHash_def sha256_of_eq)

lemma grpc_address_read: "wf_address a \<Longrightarrow> grpc_deserializeAddress (grpc_serializeAddress a) = Inr a"
  by (simp add: grpc_deserializeAddress_def grpc_serializeAddress_def address_of_bytes_def fixed_bytes_def wf_address_def)

lemma grpc_status_read: "grpc_deserializeTransactionStatus (grpc_serializeTransactionStatus st) = Inr st"
proof -
  have "deserializeTransactionStatusCode (serializeTransactionStatusCode c) = Inr c" for c
    by (cases c) (simp_all add: deserializeTransactionStatusCode_def)
  moreover have "deserializeTransactionActionType (serializeTransactionActionType t) = Inr t" for t
    by (cases t) (simp_all add: deserializeTransactionActionType_def)
  ultimately show ?thesis
    by (simp add: grpc_deserializeTransactionStatus_def grpc_serializeTransactionStatus_def mk_TransactionStatus_def)
qed

lemma grpc_info_read:
  "base64_ok X \<and> length (ri_top_block_hash i) = 32 \<and> ri_api_version i < 2 ^ 32 \<Longrightarrow> grpc_deserializeInfo X (grpc_serializeInfo X i) = Inr i"
  by (simp add: grpc_deserializeInfo_def grpc_serializeInfo_def grpc_hash_read unat_of_nat)

lemma big_read: "big_ok X \<Longrightarrow> n < 2 ^ 256 \<Longrightarrow> big_parse X (big_str X n) = Inr n"
  by (simp only: big_ok_def)

lemma grpc_transaction_read:
  assumes "base64_ok X \<and> big_ok X \<and> wf_tx tx"
  shows "grpc_deserializeTransaction X (grpc_serializeTransaction X tx) = Inr tx"
proof -
  have tx: "mk_Transaction (tx_from tx) (tx_to tx) (tx_amount tx) (tx_fee tx) (tx_timestamp tx) (tx_data tx) (tx_sign tx) = Inr tx"
    using assms by (simp add: mk_Transaction_def wf_tx_def)
  have wf: "wf_address (tx_from tx)" "wf_address (tx_to tx)" "tx_amount tx < 2 ^ 256" "length (tx_sign tx) = 65"
    using assms unfolding wf_tx_def by blast+
  have big: "big_parse X (big_str X (tx_amount tx)) = Inr (tx_amount tx)" using assms wf(3) by (intro big_read) simp_all
  show ?thesis using assms wf(1,2,4) tx
    by (simp add: grpc_deserializeTransaction_def grpc_serializeTransaction_def grpc_address_read big fixed_bytes_def build_tx_def
        setFrom_def setTo_def setAmount_def setFee_def setTimestamp_def setData_def setSign_def empty_builder_def Let_def)
qed

lemma grpc_hashes_read:
  assumes "base64_ok X" and "list_all (\<lambda>h. length h = 32) hs"
  shows "grpc_hashes_loop X (map (grpc_serializeHash X) hs) acc = Inr (acc @ hs)"
  using assms(2) by (induction hs arbitrary: acc) (simp_all add: grpc_hash_read assms(1))

lemma grpc_account_read:
  assumes "base64_ok X \<and> big_ok X \<and> wf_address (info_address a) \<and> info_balance a < 2 ^ 256
    \<and> list_all (\<lambda>h. length h = 32) (info_transactions_hashes a)"
  shows "grpc_deserializeAccountInfo X (grpc_serializeAccountInfo X a) = Inr a"
proof -
  have "grpc_deserializeAccountType (grpc_serializeAccountType t) = Inr t" for t
    by (cases t) (simp_all add: grpc_deserializeAccountType_def)
  moreover have "big_parse X (big_str X (info_balance a)) = Inr (info_balance a)" using assms by (intro big_read) blast+
  moreover have "wf_address (info_address a)" using assms by blast
  moreover have "grpc_hashes_loop X (map (grpc_serializeHash X) (info_transactions_hashes a)) [] = Inr (info_transactions_hashes a)"
    using assms grpc_hashes_read [of X "info_transactions_hashes a" "[]"] by simp
  ultimately show ?thesis
    by (simp add: grpc_deserializeAccountInfo_def grpc_serializeAccountInfo_def grpc_address_read)
qed

lemma grpc_txs_read:
  assumes "base64_ok X" and "big_ok X" and "list_all wf_tx txs" and "no_dups (acc @ txs)"
  shows "grpc_txs_loop X (map (grpc_serializeTransaction X) txs) acc = Inr (acc @ txs)"
  using assms(3,4)
proof (induction txs arbitrary: acc)
  case (Cons tx txs)
  have "\<not> txset_find acc tx" using Cons.prems(2) by (auto simp: no_dups_append txset_find_def list_ex_iff dest: tx_eq_sym)
  then have "txset_add tx acc = acc @ [tx]" by (simp add: txset_add_def)
  then show ?case using Cons.IH [of "acc @ [tx]"] Cons.prems by (simp add: grpc_transaction_read assms(1,2))
qed simp

lemma grpc_block_read:
  assumes "base64_ok X \<and> big_ok X \<and> wf_iblock X b \<and> no_dups (blk_txs b)"
  shows "grpc_deserializeBlock X (grpc_serializeBlock X b) = Inr b"
proof -
  have wf: "length (blk_prev_block_hash b) = 32" "wf_address (blk_coinbase b)" "list_all wf_tx (blk_txs b)"
    using assms by (auto simp: wf_iblock_def wf_mblock_def)
  have b: "mk_ImmutableBlock X (blk_depth b) (blk_nonce b) (blk_prev_block_hash b) (blk_timestamp b) (blk_coinbase b) (blk_txs b) = b"
    using assms by (simp add: wf_iblock_def mk_ImmutableBlock_fields)
  show ?thesis using wf assms b grpc_txs_read [of X "blk_txs b" "[]"]
    by (simp add: grpc_deserializeBlock_def grpc_serializeBlock_def grpc_hash_read grpc_address_read buildImmutable_def
        raiseIfNotEverythingIsSet_def bb_setDepth_def bb_setNonce_def bb_setPrevBlockHash_def bb_setTimestamp_def bb_setCoinbase_def
        bb_setTransactionsSet_def builder_null_def Let_def)
qed

interpretation address_message: carrier grpc_serializeAddress grpc_deserializeAddress wf_address
  by unfold_locales (rule grpc_address_read)

interpretation hash_message: carrier "grpc_serializeHash X" "grpc_deserializeHash X" "\<lambda>h. base64_ok X \<and> length h = 32" for X
  by unfold_locales (rule grpc_hash_read)

interpretation status_message: carrier grpc_serializeTransactionStatus grpc_deserializeTransactionStatus "\<lambda>_. True"
  by unfold_locales (rule grpc_status_read)

interpretation info_message: carrier "grpc_serializeInfo X" "grpc_deserializeInfo X"
  "\<lambda>i. base64_ok X \<and> length (ri_top_block_hash i) = 32 \<and> ri_api_version i < 2 ^ 32" for X
  by unfold_locales (rule grpc_info_read)

interpretation transaction_message: carrier "grpc_serializeTransaction X" "grpc_deserializeTransaction X" "\<lambda>tx. base64_ok X \<and> big_ok X \<and> wf_tx tx" for X
  by unfold_locales (rule grpc_transaction_read)

interpretation account_message: carrier "grpc_serializeAccountInfo X" "grpc_deserializeAccountInfo X"
  "\<lambda>a. base64_ok X \<and> big_ok X \<and> wf_address (info_address a) \<and> info_balance a < 2 ^ 256 \<and> list_all (\<lambda>h. length h = 32) (info_transactions_hashes a)" for X
  by unfold_locales (rule grpc_account_read)

interpretation block_message: carrier "grpc_serializeBlock X" "grpc_deserializeBlock X" "\<lambda>b. base64_ok X \<and> big_ok X \<and> wf_iblock X b \<and> no_dups (blk_txs b)" for X
  by unfold_locales (rule grpc_block_read)

section \<open>Properties\<close>

text \<open>A stub that carries the request to a handler of the server and its reply back.\<close>

definition stub :: "('q \<Rightarrow> 's node \<Rightarrow> ('m grpc_reply \<times> 's node option) res) \<Rightarrow> 's node \<Rightarrow> 'q \<Rightarrow> 'm grpc_reply res" where
  "stub method nd request = rbind (method request nd) (\<lambda>(reply, nd). Inr reply)"

lemma grpc_calls:
  assumes "base64_ok (env_ext E)" and "big_ok (env_ext E)" and "hash_ok (env_ext E)"
    and "length h = 32" and "wf_address a" and "wf_state (core_state_manager (node_core nd))"
    and "list_all (\<lambda>h. length h = 32) (info_transactions_hashes (rpc_getAccountInfo (node_core nd) a))"
    and "\<And>b. getBlock (node_core nd) h = Inr b \<or> getBlock_number (node_core nd) n = Inr b \<Longrightarrow> wf_iblock (env_ext E) b \<and> no_dups (blk_txs b)"
    and "\<And>t. rpc_getTransaction E (node_core nd) h = Inr t \<or> t = tx \<Longrightarrow> wf_tx t"
  shows "grpc_getBlock (env_ext E) (stub (get_block_by_hash E) nd) h = remote (getBlock (node_core nd) h)"
    and "grpc_getBlock_number (env_ext E) (stub (get_block_by_number E) nd) n = remote (getBlock_number (node_core nd) n)"
    and "grpc_getTransaction (env_ext E) (stub (get_transaction E) nd) h = remote (rpc_getTransaction E (node_core nd) h)"
    and "grpc_getTransactionStatus (env_ext E) (stub (get_transaction_result E) nd) h = remote (getTransactionStatus (node_core nd) h)"
    and "grpc_getAccountInfo (env_ext E) (stub (get_account E) nd) a = Inr (rpc_getAccountInfo (node_core nd) a)"
    and "grpc_getNodeInfo (env_ext E) (stub (\<lambda>_. get_node_info E) nd ()) = remote (getNodeInfo E (node_core nd))"
    and "grpc_pushTransaction (env_ext E) (stub (push_transaction E now) nd) tx = remote (rbind (pushTransaction E now tx nd) (\<lambda>(st, nd'). Inr st))"
    and "\<forall>st nd'. pushTransaction E now tx nd = Inr (st, nd') \<longrightarrow>
      push_transaction E now (grpc_serializeTransaction (env_ext E) tx) nd = Inr (Grpc_OK (grpc_serializeTransactionStatus st), Some nd')"
proof -
  let ?X = "env_ext E"
  note arrives = hash_message.argument_arrives [of ?X h, OF conjI [OF assms(1,4)]] address_message.argument_arrives [OF assms(5)]
    transaction_message.argument_arrives [of ?X tx]
  have tx: "base64_ok ?X \<and> big_ok ?X \<and> wf_tx tx" using assms(1,2,9) by blast
  have bal: "info_balance (rpc_getAccountInfo (node_core nd) a) < 2 ^ 256"
    using assms(6) by (simp add: rpc_getAccountInfo_def getAccountInfo_def wf_state_def toInfo_def split: option.split)
  have addr: "info_address (rpc_getAccountInfo (node_core nd) a) = a" by (simp add: rpc_getAccountInfo_def getAccountInfo_def split: option.split)
  show "grpc_getBlock ?X (stub (get_block_by_hash E) nd) h = remote (getBlock (node_core nd) h)"
    unfolding grpc_getBlock_def stub_def get_block_by_hash_def arrives
    by (rule block_message.remote_query) (use assms(1,2,8) in blast)
  show "grpc_getBlock_number ?X (stub (get_block_by_number E) nd) n = remote (getBlock_number (node_core nd) n)"
    unfolding grpc_getBlock_number_def stub_def get_block_by_number_def serializeNumber_def pb_Number.simps
    by (rule block_message.remote_query) (use assms(1,2,8) in blast)
  show "grpc_getTransaction ?X (stub (get_transaction E) nd) h = remote (rpc_getTransaction E (node_core nd) h)"
    unfolding grpc_getTransaction_def stub_def get_transaction_def grpc_deserializeHash_def [symmetric] arrives
    by (rule transaction_message.remote_query) (use assms(1,2,9) in blast)
  show "grpc_getTransactionStatus ?X (stub (get_transaction_result E) nd) h = remote (getTransactionStatus (node_core nd) h)"
    unfolding grpc_getTransactionStatus_def stub_def get_transaction_result_def arrives
    by (rule status_message.remote_query) simp
  show "grpc_getNodeInfo ?X (stub (\<lambda>_. get_node_info E) nd ()) = remote (getNodeInfo E (node_core nd))"
    unfolding grpc_getNodeInfo_def stub_def get_node_info_def
    by (rule info_message.remote_query) (use assms(1,3) in \<open>auto simp: getNodeInfo_def rbind_eq_Inr RPC_PUBLIC_API_VERSION_def\<close>)
  show "grpc_getAccountInfo ?X (stub (get_account E) nd) a = Inr (rpc_getAccountInfo (node_core nd) a)"
    using account_message.remote_query [of "Inr (rpc_getAccountInfo (node_core nd) a)" ?X nd] assms(1,2,5,7) bal addr
    by (simp add: grpc_getAccountInfo_def stub_def get_account_def arrives remote_def)
  show "grpc_pushTransaction ?X (stub (push_transaction E now) nd) tx = remote (rbind (pushTransaction E now tx nd) (\<lambda>(st, nd'). Inr st))"
    unfolding grpc_pushTransaction_def stub_def push_transaction_def arrives(3) [OF tx]
    by (rule status_message.remote_result) simp
  show "\<forall>st nd'. pushTransaction E now tx nd = Inr (st, nd') \<longrightarrow>
      push_transaction E now (grpc_serializeTransaction ?X tx) nd = Inr (Grpc_OK (grpc_serializeTransactionStatus st), Some nd')"
    by (simp add: push_transaction_def arrives(3) [OF tx] adapter_call_def)
qed



end
