(* ===== verification/Keys.thy ===== *)
theory Keys
  imports Address
begin

text \<open>
  Keys and the files that hold them, \<^verbatim>\<open>src/base/crypto.cpp\<close>: the file system as the code uses it, AES keys with
  their encryption, the file of a secp256k1 key, and the key vault of the node. OpenSSL's ciphers and the bytes
  of its random generator are arguments.
\<close>

section \<open>The file system\<close>

datatype file_node = Directory | Regular_file string

type_synonym files = "string \<rightharpoonup> file_node"

definition fs_exists :: "files \<Rightarrow> string \<Rightarrow> bool" where
  "fs_exists fs path \<longleftrightarrow> fs path \<noteq> None"

definition fs_is_directory :: "files \<Rightarrow> string \<Rightarrow> bool" where
  "fs_is_directory fs path \<longleftrightarrow> fs path = Some Directory"

text \<open>\<^verbatim>\<open>operator/\<close> of paths with a relative right operand, and \<^verbatim>\<open>parent_path\<close>\<close>

definition path_append :: "string \<Rightarrow> string \<Rightarrow> string" where
  "path_append dir name = (if dir = [] \<or> last dir = CHR ''/'' then dir @ name else dir @ CHR ''/'' # name)"

definition parent_path :: "string \<Rightarrow> string" where
  "parent_path path =
     (if CHR ''/'' \<notin> set path then []
      else let dir = rev (dropWhile (\<lambda>c. c = CHR ''/'') (dropWhile (\<lambda>c. c \<noteq> CHR ''/'') (rev path)))
           in if dir = [] then ''/'' else dir)"

text \<open>\<^verbatim>\<open>create_directories\<close> makes every directory on the way that is missing and throws when a file is in its place or the path is empty.\<close>

definition path_prefixes :: "string \<Rightarrow> string list" where
  "path_prefixes path = filter (\<lambda>p. p \<noteq> [] \<and> last p \<noteq> CHR ''/'')
     (map (\<lambda>i. take i path) (filter (\<lambda>i. i = length path \<or> path ! i = CHR ''/'') [0..<Suc (length path)]))"

fun create_all :: "string list \<Rightarrow> files \<Rightarrow> files res" where
  "create_all [] fs = Inr fs"
| "create_all (p # ps) fs =
     (case fs p of
        None \<Rightarrow> create_all ps (fs(p \<mapsto> Directory))
      | Some Directory \<Rightarrow> create_all ps fs
      | Some (Regular_file _) \<Rightarrow> Inl StdRuntimeError)"

definition createIfNotExists :: "string \<Rightarrow> files \<Rightarrow> files res" where
  "createIfNotExists directory fs = (if directory = [] then Inl StdRuntimeError else create_all (path_prefixes directory) fs)"

text \<open>A directory can be opened for reading, but its size is no length of a string.\<close>

definition readAllFile :: "string \<Rightarrow> files \<Rightarrow> string res" where
  "readAllFile path fs =
     (if \<not> fs_exists fs path then Inl InvalidArgument
      else case fs path of Some (Regular_file buffer) \<Rightarrow> Inr buffer | _ \<Rightarrow> Inl StdLengthError)"

text \<open>A file opens for writing when its directory exists and the path is not a directory itself.\<close>

definition can_open :: "files \<Rightarrow> string \<Rightarrow> bool" where
  "can_open fs path \<longleftrightarrow> path \<noteq> [] \<and> fs path \<noteq> Some Directory
     \<and> (let dir = parent_path path in dir = [] \<or> dir = ''/'' \<or> fs_is_directory fs dir)"

definition writeFile :: "string \<Rightarrow> string \<Rightarrow> files \<Rightarrow> files res" where
  "writeFile path data fs =
     rbind (if fs_exists fs path then Inr fs
            else let dir = parent_path path in if dir \<noteq> [] then createIfNotExists dir fs else Inr fs) (\<lambda>fs.
     if \<not> can_open fs path then Inl InvalidArgument else Inr (fs(path \<mapsto> Regular_file data)))"

definition makePrivateKeyPath :: "string \<Rightarrow> string" where
  "makePrivateKeyPath directory_path = path_append directory_path ''lkkey''"

section \<open>AES keys\<close>

datatype key_type = K256BIT | K128BIT

fun key_type_size :: "key_type \<Rightarrow> nat" where
  "key_type_size K256BIT = 32"
| "key_type_size K128BIT = 16"

definition iv_cbc_size :: nat where
  "iv_cbc_size = 16"

record aes_key =
  aes_type :: key_type
  aes_key :: bytes
  aes_iv :: bytes

text \<open>
  The ciphers of OpenSSL in CBC mode for a key type, a key and an initial vector: what \<^verbatim>\<open>EVP_EncryptUpdate\<close> and
  \<^verbatim>\<open>EVP_EncryptFinal_ex\<close> write together, and the same for decryption, which can fail.
\<close>

record evp =
  evp_encrypt :: "key_type \<Rightarrow> bytes \<Rightarrow> bytes \<Rightarrow> bytes \<Rightarrow> bytes"
  evp_decrypt :: "key_type \<Rightarrow> bytes \<Rightarrow> bytes \<Rightarrow> bytes \<Rightarrow> bytes option"

text \<open>The ciphertext has one block more than the plaintext has full blocks, and decryption inverts encryption.\<close>

definition evp_ok :: "evp \<Rightarrow> bool" where
  "evp_ok V \<longleftrightarrow> (\<forall>t key iv data. length (evp_encrypt V t key iv data) = 16 * (length data div 16 + 1)
     \<and> evp_decrypt V t key iv (evp_encrypt V t key iv data) = Some data)"

text \<open>The bytes \<open>rnd\<close> are those of the random generator.\<close>

definition generateKey :: "key_type \<Rightarrow> (nat \<Rightarrow> bytes) \<Rightarrow> bytes" where
  "generateKey type rnd = rnd (key_type_size type)"

definition mk_AesKey :: "key_type \<Rightarrow> (nat \<Rightarrow> bytes) \<Rightarrow> (nat \<Rightarrow> bytes) \<Rightarrow> aes_key res" where
  "mk_AesKey type rnd rnd' =
     rbind (fixed_bytes 16 (rnd' iv_cbc_size)) (\<lambda>iv. Inr \<lparr>aes_type = type, aes_key = generateKey type rnd, aes_iv = iv\<rparr>)"

definition aes_of_bytes :: "bytes \<Rightarrow> aes_key res" where
  "aes_of_bytes bs =
     rbind (if length bs = 48 then Inr K256BIT else if length bs = 32 then Inr K128BIT else Inl InvalidArgument) (\<lambda>type.
     let last_bit_number = key_type_size type in
     rbind (takePart bs 0 last_bit_number) (\<lambda>key.
     rbind (rbind (takePart bs last_bit_number (length bs)) (fixed_bytes 16)) (\<lambda>iv.
     Inr \<lparr>aes_type = type, aes_key = key, aes_iv = iv\<rparr>)))"

definition aes_toBytes :: "aes_key \<Rightarrow> bytes" where
  "aes_toBytes k = string_to_bytes (bytes_to_string (aes_key k) @ bytes_to_string (aes_iv k))"

definition aes_size :: "aes_key \<Rightarrow> nat" where
  "aes_size k = key_type_size (aes_type k)"

text \<open>
  The output buffer has twice the size of the input. What is written beyond it is a write outside
  the array.
\<close>

definition into_buffer :: "bytes \<Rightarrow> bytes \<Rightarrow> bytes res" where
  "into_buffer data written =
     (let output_data = replicate (length data * 2) 0
      in if length written > length output_data then Inl OutOfBounds
         else takePart (written @ drop (length written) output_data) 0 (length written))"

definition encrypt256Aes :: "evp \<Rightarrow> aes_key \<Rightarrow> bytes \<Rightarrow> bytes res" where
  "encrypt256Aes V k data = into_buffer data (evp_encrypt V K256BIT (aes_key k) (aes_iv k) data)"

definition decrypt256Aes :: "evp \<Rightarrow> aes_key \<Rightarrow> bytes \<Rightarrow> bytes res" where
  "decrypt256Aes V k data =
     (case evp_decrypt V K256BIT (aes_key k) (aes_iv k) data of None \<Rightarrow> Inl CryptoError | Some written \<Rightarrow> into_buffer data written)"

definition encrypt128Aes :: "evp \<Rightarrow> aes_key \<Rightarrow> bytes \<Rightarrow> bytes res" where
  "encrypt128Aes V k data = into_buffer data (evp_encrypt V K128BIT (aes_key k) (aes_iv k) data)"

definition decrypt128Aes :: "evp \<Rightarrow> aes_key \<Rightarrow> bytes \<Rightarrow> bytes res" where
  "decrypt128Aes V k data =
     (case evp_decrypt V K128BIT (aes_key k) (aes_iv k) data of None \<Rightarrow> Inl CryptoError | Some written \<Rightarrow> into_buffer data written)"

definition aes_encrypt :: "evp \<Rightarrow> aes_key \<Rightarrow> bytes \<Rightarrow> bytes res" where
  "aes_encrypt V k data = (case aes_type k of K256BIT \<Rightarrow> encrypt256Aes V k data | K128BIT \<Rightarrow> encrypt128Aes V k data)"

definition aes_decrypt :: "evp \<Rightarrow> aes_key \<Rightarrow> bytes \<Rightarrow> bytes res" where
  "aes_decrypt V k data = (case aes_type k of K256BIT \<Rightarrow> decrypt256Aes V k data | K128BIT \<Rightarrow> decrypt128Aes V k data)"

definition aes_save :: "string \<Rightarrow> aes_key \<Rightarrow> files \<Rightarrow> files res" where
  "aes_save path k fs = writeFile path (bytes_to_string (aes_toBytes k)) fs"

definition aes_read :: "string \<Rightarrow> files \<Rightarrow> aes_key res" where
  "aes_read path fs = rbind (readAllFile path fs) (\<lambda>s. aes_of_bytes (string_to_bytes s))"

section \<open>Secp256k1 key files\<close>

definition secp_generate :: "ext \<Rightarrow> (nat \<Rightarrow> bytes) \<Rightarrow> bytes res" where
  "secp_generate X rnd = rbind (fixed_bytes 32 (rnd 32)) (secp_key X)"

definition secp_save :: "string \<Rightarrow> bytes \<Rightarrow> files \<Rightarrow> files res" where
  "secp_save path key fs = writeFile path (toHex key) fs"

definition secp_load :: "ext \<Rightarrow> string \<Rightarrow> files \<Rightarrow> bytes res" where
  "secp_load X path fs =
     rbind (readAllFile path fs) (\<lambda>s. rbind (rbind (fromHex s) (fixed_bytes 32)) (secp_key X))"

definition serialize_secp :: "bytes serializer" where
  "serialize_secp key = serialize_fixed key"

definition deserialize_secp :: "ext \<Rightarrow> bytes deserializer" where
  "deserialize_secp X ia = rbind (deserialize_fixed 32 ia) (\<lambda>(bs, ia). rbind (secp_key X bs) (\<lambda>key. Inr (key, ia)))"

definition loadOrGenerateKey :: "ext \<Rightarrow> (nat \<Rightarrow> bytes) \<Rightarrow> string \<Rightarrow> files \<Rightarrow> (bytes \<times> files) res" where
  "loadOrGenerateKey X rnd keys_dir_path fs =
     (let private_key_path = makePrivateKeyPath keys_dir_path in
      if fs_exists fs private_key_path then rbind (secp_load X private_key_path fs) (\<lambda>key. Inr (key, fs))
      else rbind (secp_generate X rnd) (\<lambda>key. rbind (secp_save private_key_path key fs) (\<lambda>fs. Inr (key, fs))))"

section \<open>Facts\<close>

lemma create_all_keeps:
  "create_all ps fs = Inr fs' \<Longrightarrow> fs q = Some (Regular_file s) \<Longrightarrow> fs' q = Some (Regular_file s)"
proof (induction ps arbitrary: fs)
  case (Cons p ps)
  then show ?case by (cases "p = q") (auto split: option.splits file_node.splits)
qed simp

lemma create_all_directories:
  "create_all ps fs = Inr fs' \<Longrightarrow> p \<in> set ps \<or> fs p = Some Directory \<Longrightarrow> fs' p = Some Directory"
proof (induction ps arbitrary: fs)
  case (Cons q ps)
  then show ?case by (cases "p = q") (auto split: option.splits file_node.splits)
qed simp

text \<open>A key that is kept in a file: what is written as text is read back.\<close>

locale key_file =
  fixes to_text :: "'k \<Rightarrow> string" and of_text :: "string \<Rightarrow> 'k res" and valid :: "'k \<Rightarrow> bool"
  assumes of_to_text: "valid k \<Longrightarrow> of_text (to_text k) = Inr k"
begin

lemma save_load:
  assumes "valid k" and "writeFile path (to_text k) fs = Inr fs'"
  shows "rbind (readAllFile path fs') of_text = Inr k"
  using assms(2) of_to_text [OF assms(1)]
  by (auto simp: writeFile_def rbind_eq_Inr readAllFile_def fs_exists_def split: if_splits)

lemma save_keeps:
  assumes "writeFile path (to_text k) fs = Inr fs'" and "fs q = Some (Regular_file s)" and "q \<noteq> path"
  shows "fs' q = Some (Regular_file s)"
  using assms create_all_keeps
  by (auto simp: writeFile_def rbind_eq_Inr createIfNotExists_def Let_def split: if_splits)

end

definition wf_aes :: "aes_key \<Rightarrow> bool" where
  "wf_aes k \<longleftrightarrow> length (aes_key k) = key_type_size (aes_type k) \<and> length (aes_iv k) = 16"

lemma aes_toBytes_eq: "aes_toBytes k = aes_key k @ aes_iv k"
proof -
  have "string_to_bytes (s @ t) = string_to_bytes s @ string_to_bytes t" for s t by (simp add: string_to_bytes_def)
  then show ?thesis by (simp add: aes_toBytes_def)
qed

lemma aes_of_toBytes: "wf_aes k \<Longrightarrow> aes_of_bytes (aes_toBytes k) = Inr k"
  by (cases "aes_type k") (auto simp: aes_of_bytes_def aes_toBytes_eq wf_aes_def takePart_def fixed_bytes_def)

interpretation aes_file: key_file "\<lambda>k. bytes_to_string (aes_toBytes k)" "\<lambda>s. aes_of_bytes (string_to_bytes s)" wf_aes
  by unfold_locales (simp add: aes_of_toBytes)

interpretation secp_file: key_file toHex "\<lambda>s. rbind (rbind (fromHex s) (fixed_bytes 32)) (secp_key X)"
  "\<lambda>key. length key = 32 \<and> ec_seckey_verify X key" for X
  by unfold_locales (simp add: fixed_bytes_def secp_key_def)

lemma loadOrGenerateKey_result:
  assumes "loadOrGenerateKey X rnd dir fs = Inr (key, fs')"
  shows "fs_exists fs' (makePrivateKeyPath dir)" and "secp_load X (makePrivateKeyPath dir) fs' = Inr key"
proof -
  have gen: "length k = 32 \<and> ec_seckey_verify X k" if "secp_generate X rnd = Inr k" for k
    using that by (auto simp: secp_generate_def secp_key_def fixed_bytes_def split: if_splits)
  show "secp_load X (makePrivateKeyPath dir) fs' = Inr key"
    using assms secp_file.save_load [of _ X "makePrivateKeyPath dir" fs fs'] gen
    by (auto simp: loadOrGenerateKey_def rbind_eq_Inr Let_def secp_load_def secp_save_def split: if_splits)
  then show "fs_exists fs' (makePrivateKeyPath dir)" by (auto simp: secp_load_def rbind_eq_Inr readAllFile_def split: if_splits)
qed

section \<open>Properties\<close>

text \<open>
  The key of a node is stable: the key that a start of the node generated or loaded is the one every later start
  loads, whatever the random generator gives then, and nothing is written any more. No other file is changed.
\<close>

theorem key_vault_stable:
  assumes "loadOrGenerateKey X rnd dir fs = Inr (key, fs')"
  shows "loadOrGenerateKey X rnd' dir fs' = Inr (key, fs') \<and> length key = 32 \<and> ec_seckey_verify X key
    \<and> (\<forall>q s. q \<noteq> makePrivateKeyPath dir \<longrightarrow> fs q = Some (Regular_file s) \<longrightarrow> fs' q = Some (Regular_file s))"
proof (intro conjI allI impI)
  note result = loadOrGenerateKey_result [OF assms]
  show "loadOrGenerateKey X rnd' dir fs' = Inr (key, fs')" using result by (simp add: loadOrGenerateKey_def)
  show "length key = 32" "ec_seckey_verify X key"
    using result(2) by (auto simp: secp_load_def rbind_eq_Inr secp_key_def fixed_bytes_def split: if_splits)
  show "fs' q = Some (Regular_file s)" if "q \<noteq> makePrivateKeyPath dir" and "fs q = Some (Regular_file s)" for q s
    using assms that secp_file.save_keeps [of "makePrivateKeyPath dir" key fs fs' q s]
    by (auto simp: loadOrGenerateKey_def rbind_eq_Inr Let_def secp_save_def split: if_splits)
qed

theorem key_vault_stable_witness:
  "\<exists>fs'. loadOrGenerateKey demo_ext (\<lambda>n. replicate n 7) ''keys'' Map.empty = Inr (replicate 32 7, fs')
     \<and> loadOrGenerateKey demo_ext (\<lambda>n. replicate n 9) ''keys'' fs' = Inr (replicate 32 7, fs')"
proof -
  have path: "makePrivateKeyPath ''keys'' = ''keys/lkkey''" "parent_path ''keys/lkkey'' = ''keys''" "path_prefixes ''keys'' = [''keys'']"
    by (simp_all add: makePrivateKeyPath_def path_append_def parent_path_def path_prefixes_def upt_rec)
  have "loadOrGenerateKey demo_ext (\<lambda>n. replicate n 7) ''keys'' Map.empty
      = Inr (replicate 32 7, [''keys'' \<mapsto> Directory, ''keys/lkkey'' \<mapsto> Regular_file (toHex (replicate 32 7))])"
    by (simp add: loadOrGenerateKey_def path fs_exists_def secp_generate_def secp_save_def writeFile_def createIfNotExists_def can_open_def
        fs_is_directory_def fixed_bytes_def secp_key_def demo_ext_def)
  then show ?thesis using key_vault_stable [of demo_ext "\<lambda>n. replicate n 7" "''keys''" Map.empty] by blast
qed

text \<open>
  AES encryption can be undone for every message of eight bytes or more. The output buffer is too
  small for the single block that a shorter message encrypts to: the program then writes beyond it.
\<close>

theorem aes_roundtrip:
  assumes "evp_ok V"
  shows "if 8 \<le> length data then \<exists>c. aes_encrypt V k data = Inr c \<and> length c = 16 * (length data div 16 + 1) \<and> aes_decrypt V k c = Inr data
    else aes_encrypt V k data = Inl OutOfBounds"
proof -
  define c where "c = evp_encrypt V (aes_type k) (aes_key k) (aes_iv k) data"
  have c: "length c = 16 * (length data div 16 + 1)" "evp_decrypt V (aes_type k) (aes_key k) (aes_iv k) c = Some data"
    using assms by (simp_all add: evp_ok_def c_def)
  have enc: "aes_encrypt V k data = into_buffer data c"
    and dec: "aes_decrypt V k d = (case evp_decrypt V (aes_type k) (aes_key k) (aes_iv k) d of None \<Rightarrow> Inl CryptoError | Some written \<Rightarrow> into_buffer d written)" for d
    by (cases "aes_type k"; simp add: aes_encrypt_def aes_decrypt_def encrypt256Aes_def encrypt128Aes_def decrypt256Aes_def decrypt128Aes_def c_def)+
  show ?thesis
  proof (cases "8 \<le> length data")
    case True
    have "16 * (length data div 16) \<le> length data" by simp
    with True have fits: "length c \<le> length data * 2" unfolding c(1) by (cases "length data < 16") simp_all
    have small: "length data \<le> length c" and ne: "data \<noteq> []" using True unfolding c(1) by auto
    have "aes_encrypt V k data = Inr c"
      using fits c(1) by (simp add: enc into_buffer_def takePart_def)
    moreover have "aes_decrypt V k c = Inr data" using c(2) small ne by (simp add: dec into_buffer_def takePart_def)
    ultimately show ?thesis using True c(1) by simp
  next
    case False
    then have "length data * 2 < length c" unfolding c(1) by simp
    then show ?thesis using False by (simp add: enc into_buffer_def)
  qed
qed

text \<open>A cipher for the example: the message, filled up to full blocks with the number of bytes filled in.\<close>

definition demo_evp :: evp where
  "demo_evp = \<lparr>evp_encrypt = (\<lambda>t key iv data. let n = 16 - length data mod 16 in data @ replicate n (of_nat n)),
     evp_decrypt = (\<lambda>t key iv data. if data = [] then None else Some (take (length data - unat (last data)) data))\<rparr>"

lemma demo_evp_ok: "evp_ok demo_evp"
proof -
  have len: "length data + (16 - length data mod 16) = 16 * (length data div 16 + 1)" for data :: bytes
  proof -
    have "n + (16 - r) = 16 * (q + 1)" if "16 * q + r = n" and "r < 16" for n q r :: nat using that by auto
    from this [OF mult_div_mod_eq] show ?thesis by simp
  qed
  have word: "unat (of_nat n :: byte) = n" if "n < 256" for n using that by (simp add: unat_of_nat)
  have "unat (of_nat (16 - length data mod 16) :: byte) = 16 - length data mod 16" for data :: bytes
    by (rule word, rule le_less_trans [OF diff_le_self]) simp
  then show ?thesis using len by (auto simp: evp_ok_def demo_evp_def Let_def)
qed

theorem aes_roundtrip_witness:
  "\<exists>c. aes_encrypt demo_evp \<lparr>aes_type = K256BIT, aes_key = replicate 32 1, aes_iv = replicate 16 2\<rparr> [1, 2, 3, 4, 5, 6, 7, 8, 9] = Inr c
     \<and> aes_decrypt demo_evp \<lparr>aes_type = K256BIT, aes_key = replicate 32 1, aes_iv = replicate 16 2\<rparr> c = Inr [1, 2, 3, 4, 5, 6, 7, 8, 9]"
  using aes_roundtrip [OF demo_evp_ok, of "[1, 2, 3, 4, 5, 6, 7, 8, 9]" "\<lparr>aes_type = K256BIT, aes_key = replicate 32 1, aes_iv = replicate 16 2\<rparr>"]
  by auto

end
