(* ===== verification/PropertyTree.thy ===== *)
theory PropertyTree
  imports Keys
begin

text \<open>
  Property trees, \<^verbatim>\<open>src/base/property_tree.cpp\<close>: the class around the trees of Boost that hold configuration files and the
  metadata of contracts. A tree is a string and a list of named subtrees; finding and changing a subtree by
  its path and the JSON format are functions of Boost, the fields of an argument.
\<close>

datatype ptree = PTree (pt_data: string) (pt_children: "(string \<times> ptree) list")

text \<open>\<^verbatim>\<open>get_child_optional\<close>, \<^verbatim>\<open>put\<close>, \<^verbatim>\<open>put_child\<close>, and the JSON reader and writer, which both throw on what has no representation\<close>

record ptree_lib =
  get_child_optional :: "ptree \<Rightarrow> string \<Rightarrow> ptree option"
  put_value :: "string \<Rightarrow> string \<Rightarrow> ptree \<Rightarrow> ptree"
  put_child :: "string \<Rightarrow> ptree \<Rightarrow> ptree \<Rightarrow> ptree"
  read_json :: "string \<Rightarrow> ptree option"
  write_json :: "ptree \<Rightarrow> string option"

text \<open>
  What the documentation says of them: a path is a list of keys with dots between them, each the key of the first
  child with that name; storing something replaces what is found at the path or is appended; and what was
  written as JSON is read back.
\<close>

fun alist_put :: "'k \<Rightarrow> ('v option \<Rightarrow> 'v) \<Rightarrow> ('k \<times> 'v) list \<Rightarrow> ('k \<times> 'v) list" where
  "alist_put k f [] = [(k, f None)]"
| "alist_put k f ((k', v) # kvs) = (if k' = k then (k, f (Some v)) # kvs else (k', v) # alist_put k f kvs)"

definition key_ok :: "string \<Rightarrow> bool" where
  "key_ok k \<longleftrightarrow> k \<noteq> [] \<and> CHR ''.'' \<notin> set k"

definition ptree_ok :: "ptree_lib \<Rightarrow> bool" where
  "ptree_ok L \<longleftrightarrow>
     (\<forall>t k. key_ok k \<longrightarrow> get_child_optional L t k = map_of (pt_children t) k)
   \<and> (\<forall>t k p. key_ok k \<longrightarrow> p \<noteq> [] \<longrightarrow> get_child_optional L t (k @ CHR ''.'' # p) = Option.bind (map_of (pt_children t) k) (\<lambda>c. get_child_optional L c p))
   \<and> (\<forall>t k c. key_ok k \<longrightarrow> put_child L k c t = PTree (pt_data t) (alist_put k (\<lambda>_. c) (pt_children t)))
   \<and> (\<forall>t k p c c'. key_ok k \<longrightarrow> p \<noteq> [] \<longrightarrow> map_of (pt_children t) k = Some c' \<longrightarrow>
        put_child L (k @ CHR ''.'' # p) c t = PTree (pt_data t) (alist_put k (\<lambda>_. put_child L p c c') (pt_children t)))
   \<and> (\<forall>t k s. key_ok k \<longrightarrow> put_value L k s t =
        PTree (pt_data t) (alist_put k (\<lambda>old. PTree s (case old of Some c \<Rightarrow> pt_children c | None \<Rightarrow> [])) (pt_children t)))
   \<and> (\<forall>t s. write_json L t = Some s \<longrightarrow> read_json L s = Some t)"

section \<open>The class\<close>

definition PropertyTree_empty :: ptree where
  "PropertyTree_empty = PTree [] []"

definition readConfig :: "ptree_lib \<Rightarrow> string \<Rightarrow> files \<Rightarrow> ptree res" where
  "readConfig L config_file fs =
     (case fs config_file of
        None \<Rightarrow> Inl InaccessibleFile
      | Some Directory \<Rightarrow> Inl ParsingError
      | Some (Regular_file text) \<Rightarrow> (case read_json L text of Some t \<Rightarrow> Inr t | None \<Rightarrow> Inl ParsingError))"

definition parseJson :: "ptree_lib \<Rightarrow> string \<Rightarrow> ptree res" where
  "parseJson L json_string = (case read_json L json_string of Some t \<Rightarrow> Inr t | None \<Rightarrow> Inl ParsingError)"

text \<open>
  The file is emptied when it is opened, before the writer looks at the tree: the files are returned
  also when an exception is thrown.
\<close>

definition save_ptree :: "ptree_lib \<Rightarrow> ptree \<Rightarrow> string \<Rightarrow> files \<Rightarrow> unit res \<times> files" where
  "save_ptree L t path_to_save fs =
     (if \<not> can_open fs path_to_save then (Inl InaccessibleFile, fs)
      else case write_json L t of
             None \<Rightarrow> (Inl StdRuntimeError, fs(path_to_save \<mapsto> Regular_file []))
           | Some text \<Rightarrow> (Inr (), fs(path_to_save \<mapsto> Regular_file text)))"

definition hasKey :: "ptree_lib \<Rightarrow> ptree \<Rightarrow> string \<Rightarrow> bool" where
  "hasKey L t path \<longleftrightarrow> get_child_optional L t path \<noteq> None"

definition ptree_is_empty :: "ptree \<Rightarrow> bool" where
  "ptree_is_empty t \<longleftrightarrow> pt_children t = []"

text \<open>\<^verbatim>\<open>get_child\<close> and \<^verbatim>\<open>get<std::string>\<close> of Boost, which throw \<^verbatim>\<open>ptree_bad_path\<close>, a runtime error\<close>

definition bad_path :: error where
  "bad_path = StdRuntimeError"

definition get_child :: "ptree_lib \<Rightarrow> ptree \<Rightarrow> string \<Rightarrow> ptree res" where
  "get_child L t path = (case get_child_optional L t path of Some c \<Rightarrow> Inr c | None \<Rightarrow> Inl bad_path)"

definition pt_get :: "ptree_lib \<Rightarrow> ptree \<Rightarrow> string \<Rightarrow> string res" where
  "pt_get L t path = rbind (get_child L t path) (\<lambda>c. Inr (pt_data c))"

definition getSubTree :: "ptree_lib \<Rightarrow> ptree \<Rightarrow> string \<Rightarrow> ptree res" where
  "getSubTree L t path = get_child L t path"

definition PropertyTree_toString :: "ptree_lib \<Rightarrow> ptree \<Rightarrow> string res" where
  "PropertyTree_toString L t = (case write_json L t of Some text \<Rightarrow> Inr text | None \<Rightarrow> Inl StdRuntimeError)"

text \<open>The templates, with the conversion of the text to the type asked for as an argument\<close>

definition PropertyTree_get :: "ptree_lib \<Rightarrow> (string \<Rightarrow> 'r option) \<Rightarrow> ptree \<Rightarrow> string \<Rightarrow> 'r res" where
  "PropertyTree_get L conv t path =
     (case get_child_optional L t path of
        None \<Rightarrow> Inl KeyNotFound
      | Some c \<Rightarrow> (case conv (pt_data c) of Some r \<Rightarrow> Inr r | None \<Rightarrow> Inl KeyNotFound))"

definition PropertyTree_getVector :: "ptree_lib \<Rightarrow> (string \<Rightarrow> 'r option) \<Rightarrow> ptree \<Rightarrow> string \<Rightarrow> 'r list res" where
  "PropertyTree_getVector L conv t path =
     (case get_child_optional L t path of
        None \<Rightarrow> Inl KeyNotFound
      | Some c \<Rightarrow> (case those (map (\<lambda>(_, item). conv (pt_data item)) (pt_children c)) of Some rs \<Rightarrow> Inr rs | None \<Rightarrow> Inl KeyNotFound))"

section \<open>Facts\<close>

lemma map_of_alist_put: "map_of (alist_put k f kvs) k' = (if k' = k then Some (f (map_of kvs k)) else map_of kvs k')"
  by (induction kvs) auto

lemma key_okI [simp]:
  "key_ok ''type''" "key_ok ''name''" "key_ok ''inputs''" "key_ok ''outputs''" "key_ok ''internalType''" "key_ok ''output''" "key_ok ''abi''"
  by (simp_all add: key_ok_def)

lemma ptree_ok_get:
  assumes "ptree_ok L" and "key_ok k"
  shows "get_child_optional L t k = map_of (pt_children t) k"
    and "p \<noteq> [] \<Longrightarrow> get_child_optional L t (k @ CHR ''.'' # p) = Option.bind (map_of (pt_children t) k) (\<lambda>c. get_child_optional L c p)"
  using assms unfolding ptree_ok_def by blast+

lemma ptree_ok_put:
  assumes "ptree_ok L" and "key_ok k"
  shows "put_child L k c t = PTree (pt_data t) (alist_put k (\<lambda>_. c) (pt_children t))"
    and "p \<noteq> [] \<Longrightarrow> map_of (pt_children t) k = Some c' \<Longrightarrow>
      put_child L (k @ CHR ''.'' # p) c t = PTree (pt_data t) (alist_put k (\<lambda>_. put_child L p c c') (pt_children t))"
    and "put_value L k s t = PTree (pt_data t) (alist_put k (\<lambda>old. PTree s (case old of Some c \<Rightarrow> pt_children c | None \<Rightarrow> [])) (pt_children t))"
  using assms unfolding ptree_ok_def by blast+

lemma ptree_ok_json: "ptree_ok L \<Longrightarrow> write_json L t = Some s \<Longrightarrow> read_json L s = Some t"
  unfolding ptree_ok_def by blast

text \<open>What was saved is what a later start reads.\<close>

lemma save_readConfig:
  assumes "ptree_ok L" and "save_ptree L t path fs = (Inr (), fs')"
  shows "readConfig L path fs' = Inr t" and "\<And>q. q \<noteq> path \<Longrightarrow> fs' q = fs q"
  using assms ptree_ok_json [OF assms(1)] by (auto simp: save_ptree_def readConfig_def split: if_splits option.splits)

end
