(* ===== verification/Regex.thy ===== *)
theory Regex
  imports Prelude
begin

text \<open>
  The text searches that \<^verbatim>\<open>src/vm/tools.cpp\<close> makes with the standard library: \<^verbatim>\<open>std::string::find\<close>, and the matches of \<^verbatim>\<open>std::regex\<close> for
  the patterns of that file. Such a pattern is a sequence of atoms, each a set of characters, once or repeated. The
  matcher is the backtracking one of ECMAScript: a repetition takes as much as it can and gives back what the
  rest needs; \<^verbatim>\<open>sregex_iterator\<close> takes the leftmost match and goes on behind it.
\<close>

section \<open>Search for a text\<close>

fun str_find :: "string \<Rightarrow> string \<Rightarrow> nat option" where
  "str_find pat [] = (if pat = [] then Some 0 else None)"
| "str_find pat (c # s) = (if take (length pat) (c # s) = pat then Some 0 else map_option Suc (str_find pat s))"

text \<open>\<^verbatim>\<open>std::regex_replace\<close> of a text that stands for itself\<close>

function replace_all :: "string \<Rightarrow> string \<Rightarrow> string \<Rightarrow> string" where
  "replace_all pat rep s =
     (if s = [] \<or> pat = [] then s
      else if take (length pat) s = pat then rep @ replace_all pat rep (drop (length pat) s)
      else hd s # replace_all pat rep (tl s))"
  by pat_completeness auto
termination
  by (relation "measure (\<lambda>(pat, rep, s). length s)") auto

declare replace_all.simps [simp del]

section \<open>Patterns\<close>

datatype atom = One "char \<Rightarrow> bool" | Star "char \<Rightarrow> bool"

definition lit :: "string \<Rightarrow> atom list" where
  "lit s = map (\<lambda>c. One (\<lambda>x. x = c)) s"

text \<open>The matched prefix, if there is one\<close>

function re_match :: "atom list \<Rightarrow> string \<Rightarrow> string option" where
  "re_match [] s = Some []"
| "re_match (One p # r) [] = None"
| "re_match (One p # r) (c # s) = (if p c then map_option (Cons c) (re_match r s) else None)"
| "re_match (Star p # r) [] = re_match r []"
| "re_match (Star p # r) (c # s) =
     (case (if p c then re_match (Star p # r) s else None) of
        Some m \<Rightarrow> Some (c # m)
      | None \<Rightarrow> re_match r (c # s))"
  by pat_completeness auto
termination
  by (relation "measure (\<lambda>(r, s). length r + length s)") auto

lemma re_match_prefix: "re_match r s = Some m \<Longrightarrow> \<exists>t. s = m @ t"
  by (induction r s arbitrary: m rule: re_match.induct) (auto split: if_splits option.splits)

text \<open>All matches. An empty match would not advance; none of the patterns has one.\<close>

function re_iter :: "atom list \<Rightarrow> string \<Rightarrow> string list" where
  "re_iter r s =
     (case re_match r s of
        Some (c # m) \<Rightarrow> (c # m) # re_iter r (drop (length (c # m)) s)
      | _ \<Rightarrow> if s = [] then [] else re_iter r (tl s))"
  by pat_completeness auto
termination
  by (relation "measure (\<lambda>(r, s). length s)") (auto dest!: re_match_prefix simp: neq_Nil_conv)

declare re_iter.simps [simp del]

section \<open>Facts\<close>

lemma str_find_prefix: "str_find pat (pat @ s) = Some 0"
  by (cases pat; cases s) auto

lemma str_find_Some: "str_find pat s = Some i \<Longrightarrow> take (length pat) (drop i s) = pat"
  by (induction s arbitrary: i) (auto split: if_splits)

lemma str_find_in: "\<exists>i \<le> length pre. str_find pat (pre @ pat @ s) = Some i"
proof (induction pre)
  case Nil
  then show ?case using str_find_prefix [of pat s] by simp
next
  case (Cons c pre)
  then show ?case by (auto intro: exI [of _ 0])
qed

text \<open>When no occurrence starts in front of it, the text is found where it is.\<close>

lemma str_find_skip:
  assumes "\<And>i. i < length pre \<Longrightarrow> take (length pat) (drop i (pre @ pat @ s)) \<noteq> pat"
  shows "str_find pat (pre @ pat @ s) = Some (length pre)"
  using assms
proof (induction pre)
  case Nil
  then show ?case using str_find_prefix [of pat s] by simp
next
  case (Cons c pre)
  have "take (length pat) (c # pre @ pat @ s) \<noteq> pat" using Cons.prems [of 0] by simp
  moreover have "str_find pat (pre @ pat @ s) = Some (length pre)" using Cons.prems [of "Suc _"] by (intro Cons.IH) force
  ultimately show ?case by simp
qed

lemma str_find_hd:
  assumes "pat \<noteq> []" and "hd pat \<notin> set pre"
  shows "str_find pat (pre @ pat @ s) = Some (length pre)"
proof (rule str_find_skip)
  fix i assume "i < length pre"
  then have "hd (take (length pat) (drop i (pre @ pat @ s))) = pre ! i" using assms(1) by (simp add: hd_drop_conv_nth nth_append)
  then show "take (length pat) (drop i (pre @ pat @ s)) \<noteq> pat" using \<open>i < length pre\<close> assms(2) nth_mem by metis
qed

lemma re_match_lit: "re_match (lit t @ r) (t @ s) = map_option ((@) t) (re_match r s)"
  by (induction t) (auto simp: lit_def option.map_comp comp_def option.map_ident)

lemma re_match_lit_hd: "t \<noteq> [] \<Longrightarrow> c \<noteq> hd t \<Longrightarrow> re_match (lit t @ r) (c # s) = None"
  by (cases t) (auto simp: lit_def)

lemma re_iter_none: "re_match r s = None \<Longrightarrow> re_iter r s = (if s = [] then [] else re_iter r (tl s))"
  by (simp add: re_iter.simps)

lemma re_iter_Some: "re_match r s = Some m \<Longrightarrow> m \<noteq> [] \<Longrightarrow> re_iter r s = m # re_iter r (drop (length m) s)"
  by (cases m) (simp_all add: re_iter.simps)

text \<open>A greedy run followed by an end that occurs in it only at its end\<close>

lemma re_match_star_skip:
  assumes "re_match r (c # s) = None" and "p c"
  shows "re_match (Star p # r) (c # s) = map_option (Cons c) (re_match (Star p # r) s)"
  using assms by (auto split: option.splits)

end
