(* ===== verification/Encoder.thy ===== *)
theory Encoder
  imports Crypto
begin

text \<open>
  The encoder of contract calls, \<^verbatim>\<open>src/vm/encode_decode.cpp\<close>: C++ that Cython generates from a Python module whose lines it
  carries as comments. The parser of argument lists and the preparation of decoded values are modelled as the
  functions they are; the interpreter's codecs and the package \<^verbatim>\<open>web3\<close> are the fields of an argument. An exception
  of Python is \<open>None\<close>. Strings of Python are their UTF-8 bytes: every character the code looks for is ASCII.
\<close>

section \<open>Values of Python\<close>

datatype pyval =
    PyNone | PyBool bool | PyInt int | PyStr string | PyBytes bytes | PyOther string
  | PyList "pyval list" | PyTuple "pyval list" | PyDict "(string \<times> pyval) list"

text \<open>
  The UTF-8 decoder, \<^verbatim>\<open>isdecimal\<close> with \<^verbatim>\<open>int\<close> on strings that are not ASCII, the module \<^verbatim>\<open>json\<close>, and the methods of a contract
  object of \<^verbatim>\<open>web3\<close> made from an ABI: the text of the functions that take given arguments, the encoding of a call,
  the data of a deployment, and the arguments in the data of a call.
\<close>

record python =
  py_utf8 :: "string \<Rightarrow> bool"
  py_decimal :: "string \<Rightarrow> int option"
  json_loads :: "string \<Rightarrow> pyval option"
  json_dumps :: "pyval \<Rightarrow> string option"
  find_functions_by_args :: "pyval \<Rightarrow> pyval list \<Rightarrow> string option"
  encodeABI :: "pyval \<Rightarrow> string \<Rightarrow> string \<Rightarrow> pyval \<Rightarrow> string option"
  data_in_transaction :: "pyval \<Rightarrow> string \<Rightarrow> pyval list \<Rightarrow> string option"
  decode_function_input :: "pyval \<Rightarrow> string \<Rightarrow> pyval option"

definition is_digit :: "char \<Rightarrow> bool" where
  "is_digit c \<longleftrightarrow> 48 \<le> (of_char c :: nat) \<and> of_char c \<le> (57 :: nat)"

definition py_isdecimal_int :: "python \<Rightarrow> string \<Rightarrow> int option" where
  "py_isdecimal_int Y s =
     (if list_all (\<lambda>c. (of_char c :: nat) < 128) s
      then if s \<noteq> [] \<and> list_all is_digit s then Some (int (std_atoi s)) else None
      else py_decimal Y s)"

definition py_str :: "python \<Rightarrow> string \<Rightarrow> string option" where
  "py_str Y s = (if py_utf8 Y s then Some s else None)"

text \<open>\<^verbatim>\<open>metadata[key]\<close>, and \<^verbatim>\<open>*arguments\<close> in a call\<close>

definition py_item :: "string \<Rightarrow> pyval \<Rightarrow> pyval option" where
  "py_item key v = (case v of PyDict d \<Rightarrow> map_of d key | _ \<Rightarrow> None)"

definition py_unpack :: "pyval \<Rightarrow> pyval list option" where
  "py_unpack v = (case v of PyList xs \<Rightarrow> Some xs | PyTuple xs \<Rightarrow> Some xs | PyStr s \<Rightarrow> Some (map (\<lambda>c. PyStr [c]) s)
     | PyBytes bs \<Rightarrow> Some (map (\<lambda>b. PyInt (int (unat b))) bs) | PyDict d \<Rightarrow> Some (map (\<lambda>(k, _). PyStr k) d) | _ \<Rightarrow> None)"

section \<open>The parser of arguments\<close>

text \<open>The loop has the stack with its top first, the list of values, the current element, and the characters ahead.\<close>

function (sequential) convert :: "python \<Rightarrow> string \<Rightarrow> pyval option"
  and parseArgumentsToList :: "python \<Rightarrow> string \<Rightarrow> pyval option"
  and parse_loop :: "python \<Rightarrow> string \<Rightarrow> pyval list \<Rightarrow> string \<Rightarrow> string \<Rightarrow> pyval list option"
where
  "convert Y argument =
     (case py_isdecimal_int Y argument of
        Some n \<Rightarrow> Some (PyInt n)
      | None \<Rightarrow>
          if argument = ''true'' \<or> argument = ''True'' then Some (PyBool True)
          else if argument = ''false'' \<or> argument = ''False'' then Some (PyBool False)
          else if argument = [] then None
          else if hd argument = CHR ''['' \<and> last argument = CHR '']'' then parseArgumentsToList Y argument
          else Some (PyStr argument))"
| "parseArgumentsToList Y arguments =
     (if length arguments \<le> 2 \<or> hd arguments \<noteq> CHR ''['' \<or> last arguments \<noteq> CHR '']'' then Some (PyStr [])
      else map_option PyList (parse_loop Y [] [] [] (butlast (tl arguments))))"
| "parse_loop Y stack return_list element [] =
     (if element \<noteq> [] then
        if stack \<noteq> [] then None
        else map_option (\<lambda>v. return_list @ [v]) (convert Y element)
      else Some return_list)"
| "parse_loop Y stack return_list element (c # cs) =
     (if c = CHR ''['' then
        parse_loop Y (if stack = [] \<or> hd stack \<noteq> CHR 0x22 then c # stack else stack) return_list (element @ [c]) cs
      else if c = CHR '']'' then
        if stack \<noteq> [] \<and> hd stack = CHR ''['' then
          if tl stack = [] then
            (case convert Y (element @ [c]) of
               None \<Rightarrow> None
             | Some v \<Rightarrow> parse_loop Y (tl stack) (return_list @ [v]) [] cs)
          else parse_loop Y (tl stack) return_list element cs
        else parse_loop Y stack return_list element cs
      else if c = CHR 0x22 then
        parse_loop Y (if stack \<noteq> [] \<and> hd stack = CHR 0x22 then tl stack else c # stack) return_list element cs
      else if c = CHR '' '' then
        parse_loop Y stack return_list (if stack \<noteq> [] \<and> hd stack = CHR 0x22 then element @ [c] else element) cs
      else if c = CHR '','' then
        if stack \<noteq> [] then parse_loop Y stack return_list (element @ [c]) cs
        else (case convert Y element of
                None \<Rightarrow> None
              | Some v \<Rightarrow> parse_loop Y stack (return_list @ [v]) [] cs)
      else parse_loop Y stack return_list (element @ [c]) cs)"
  by pat_completeness auto
termination
  by (relation "measures
       [\<lambda>x. case x of Inl (Y, s) \<Rightarrow> 3 * length s + 1 | Inr (Inl (Y, s)) \<Rightarrow> 3 * length s
          | Inr (Inr (Y, stack, values, element, cs)) \<Rightarrow> 3 * (length element + length cs) + 2,
        \<lambda>x. case x of Inr (Inr (Y, stack, values, element, cs)) \<Rightarrow> length cs | _ \<Rightarrow> 0]")
     auto

section \<open>The functions called from C++\<close>

text \<open>\<^verbatim>\<open>metadata['output']['abi']\<close>\<close>

definition py_abi :: "pyval \<Rightarrow> pyval option" where
  "py_abi metadata = Option.bind (py_item ''output'' metadata) (py_item ''abi'')"

definition py_result :: "string option \<Rightarrow> string" where
  "py_result r = (case r of Some s \<Rightarrow> s | None \<Rightarrow> [])"

definition getMethodsByArguments :: "python \<Rightarrow> string \<Rightarrow> string \<Rightarrow> string" where
  "getMethodsByArguments Y arguments_c metadata_c = py_result
     (Option.bind (Option.bind (py_str Y metadata_c) (json_loads Y)) (\<lambda>metadata.
      Option.bind (py_str Y arguments_c) (\<lambda>arguments.
      Option.bind (py_abi metadata) (\<lambda>abi.
      Option.bind (Option.bind (parseArgumentsToList Y arguments) py_unpack) (\<lambda>parse_arguments.
      find_functions_by_args Y abi parse_arguments)))))"

definition encodeMessageFunction :: "python \<Rightarrow> string \<Rightarrow> string \<Rightarrow> string \<Rightarrow> string \<Rightarrow> string" where
  "encodeMessageFunction Y method_c arguments_c bytecode_c metadata_c = py_result
     (Option.bind (py_str Y method_c) (\<lambda>method.
      Option.bind (Option.bind (py_str Y arguments_c) (json_loads Y)) (\<lambda>arguments.
      Option.bind (py_str Y bytecode_c) (\<lambda>bytecode.
      Option.bind (Option.bind (py_str Y metadata_c) (json_loads Y)) (\<lambda>metadata.
      Option.bind (py_abi metadata) (\<lambda>abi.
      map_option (drop 2) (encodeABI Y abi bytecode method arguments)))))))"

definition encodeMessageConstructor :: "python \<Rightarrow> string \<Rightarrow> string \<Rightarrow> string \<Rightarrow> string" where
  "encodeMessageConstructor Y arguments_c bytecode_c metadata_c = py_result
     (Option.bind (Option.bind (py_str Y arguments_c) (json_loads Y)) (\<lambda>arguments.
      Option.bind (py_str Y bytecode_c) (\<lambda>bytecode.
      Option.bind (Option.bind (py_str Y metadata_c) (json_loads Y)) (\<lambda>metadata.
      Option.bind (py_abi metadata) (\<lambda>abi.
      Option.bind (py_unpack arguments) (\<lambda>arguments.
      data_in_transaction Y abi bytecode arguments))))))"

fun prepare_for_serialize :: "pyval \<Rightarrow> pyval" where
  "prepare_for_serialize (PyList items) = PyList (map prepare_for_serialize items)"
| "prepare_for_serialize (PyBytes decoded_data) = PyStr (toHex decoded_data)"
| "prepare_for_serialize (PyDict items) = PyDict (map (\<lambda>(item_key, v). (item_key, prepare_for_serialize v)) items)"
| "prepare_for_serialize decoded_data = decoded_data"

definition py_decodeMessage :: "python \<Rightarrow> string \<Rightarrow> string \<Rightarrow> string" where
  "py_decodeMessage Y method_metadata_c data_c = py_result
     (Option.bind (Option.bind (py_str Y method_metadata_c) (json_loads Y)) (\<lambda>method_metadata.
      Option.bind (py_str Y data_c) (\<lambda>data.
      Option.bind (decode_function_input Y (PyList [method_metadata]) data) (\<lambda>decoded.
      json_dumps Y (prepare_for_serialize decoded)))))"

section \<open>Facts\<close>

declare convert.simps [simp del] parseArgumentsToList.simps [simp del]

text \<open>The text of an argument as a user types it: a number, a truth value, or a string in quotes.\<close>

fun arg_text :: "pyval \<Rightarrow> string" where
  "arg_text (PyInt n) = (if 0 \<le> n then std_to_string (nat n) else CHR ''-'' # std_to_string (nat (- n)))"
| "arg_text (PyBool b) = (if b then ''true'' else ''false'')"
| "arg_text (PyStr s) = CHR 0x22 # s @ [CHR 0x22]"
| "arg_text _ = []"

fun atom_arg :: "pyval \<Rightarrow> bool" where
  "atom_arg (PyInt n) \<longleftrightarrow> 0 \<le> n"
| "atom_arg (PyBool b) \<longleftrightarrow> True"
| "atom_arg _ \<longleftrightarrow> False"

text \<open>A string keeps its meaning when it does not look like another value and has no quote and no closing bracket in it.\<close>

definition plain_string :: "python \<Rightarrow> string \<Rightarrow> bool" where
  "plain_string Y s \<longleftrightarrow> s \<noteq> [] \<and> CHR 0x22 \<notin> set s \<and> CHR '']'' \<notin> set s \<and> py_isdecimal_int Y s = None
     \<and> s \<notin> {''true'', ''True'', ''false'', ''False''}"

definition plain_arg :: "python \<Rightarrow> pyval \<Rightarrow> bool" where
  "plain_arg Y v \<longleftrightarrow> atom_arg v \<or> (\<exists>s. v = PyStr s \<and> plain_string Y s)"

text \<open>
  What can be typed: there is no way to write a quote inside a string; the empty string, to which a string
  of closing brackets amounts, is treated apart.
\<close>

fun typeable :: "pyval \<Rightarrow> bool" where
  "typeable (PyInt n) \<longleftrightarrow> True"
| "typeable (PyBool b) \<longleftrightarrow> True"
| "typeable (PyStr s) \<longleftrightarrow> CHR 0x22 \<notin> set s \<and> list_ex (\<lambda>c. c \<noteq> CHR '']'') s"
| "typeable _ \<longleftrightarrow> False"

text \<open>
  What it is taken for: the quotes are forgotten and closing brackets are dropped before the text is
  converted, so that a string of digits becomes a number and \<^verbatim>\<open>"true"\<close> a truth value; a negative number is no
  decimal and becomes a string.
\<close>

definition read_text :: "python \<Rightarrow> string \<Rightarrow> pyval" where
  "read_text Y s =
     (case py_isdecimal_int Y s of
        Some n \<Rightarrow> PyInt n
      | None \<Rightarrow>
          if s = ''true'' \<or> s = ''True'' then PyBool True
          else if s = ''false'' \<or> s = ''False'' then PyBool False
          else PyStr s)"

fun read_as :: "python \<Rightarrow> pyval \<Rightarrow> pyval" where
  "read_as Y (PyInt n) = (if 0 \<le> n then PyInt n else PyStr (arg_text (PyInt n)))"
| "read_as Y (PyStr s) = read_text Y (filter (\<lambda>c. c \<noteq> CHR '']'') s)"
| "read_as Y v = v"

fun join :: "string \<Rightarrow> string list \<Rightarrow> string" where
  "join sep [] = []"
| "join sep [t] = t"
| "join sep (t # ts) = t @ sep @ join sep ts"

definition list_text :: "string \<Rightarrow> pyval list \<Rightarrow> string" where
  "list_text sep vs = CHR ''['' # join sep (map arg_text vs) @ '']''"

definition ordinary :: "char \<Rightarrow> bool" where
  "ordinary c \<longleftrightarrow> c \<notin> {CHR ''['', CHR '']'', CHR 0x22, CHR '' '', CHR '',''}"

lemma std_to_string_nonempty: "std_to_string n \<noteq> []"
  by (auto simp: std_to_string_def digits_be.simps)

lemma std_to_string_digits: "list_all is_digit (std_to_string n)"
  by (auto simp: std_to_string_def list_all_iff is_digit_def dest!: digits_be_less)

lemma digit_ordinary: "is_digit c \<Longrightarrow> ordinary c \<and> (of_char c :: nat) < 128"
  by (auto simp: is_digit_def ordinary_def)

lemma isdecimal_number: "py_isdecimal_int Y (std_to_string n) = Some (int n)"
proof -
  have "list_all (\<lambda>c. (of_char c :: nat) < 128) (std_to_string n)"
    using std_to_string_digits [of n] by (auto simp: list_all_iff dest: digit_ordinary)
  then show ?thesis by (simp add: py_isdecimal_int_def std_to_string_digits std_to_string_nonempty std_atoi_to_string)
qed

lemma atom_text: "atom_arg v \<Longrightarrow> list_all ordinary (arg_text v) \<and> arg_text v \<noteq> []"
proof -
  have "list_all ordinary (std_to_string n)" for n
    using std_to_string_digits [of n] digit_ordinary by (auto simp: list_all_iff)
  then show "atom_arg v \<Longrightarrow> list_all ordinary (arg_text v) \<and> arg_text v \<noteq> []"
    by (cases v) (auto simp: std_to_string_nonempty ordinary_def)
qed

lemma convert_number: "convert Y (std_to_string n) = Some (PyInt (int n))"
  by (simp add: convert.simps isdecimal_number)

lemma convert_bool: "convert Y ''true'' = Some (PyBool True)" "convert Y ''false'' = Some (PyBool False)"
  by (simp_all add: convert.simps py_isdecimal_int_def is_digit_def)

lemma convert_atom: "atom_arg v \<Longrightarrow> convert Y (arg_text v) = Some v"
  by (cases v) (auto simp: convert_number convert_bool)

lemma convert_text:
  assumes "s \<noteq> []" and "CHR '']'' \<notin> set s"
  shows "convert Y s = Some (read_text Y s)"
proof -
  have "last s \<noteq> CHR '']''" using assms last_in_set [of s] by metis
  then show ?thesis using assms(1) by (auto simp: convert.simps read_text_def split: option.splits)
qed

lemma read_text_negative: "read_text Y (CHR ''-'' # std_to_string n) = PyStr (CHR ''-'' # std_to_string n)"
proof -
  have "list_all (\<lambda>c. (of_char c :: nat) < 128) (std_to_string n)"
    using std_to_string_digits [of n] by (auto simp: list_all_iff dest: digit_ordinary)
  then have "py_isdecimal_int Y (CHR ''-'' # std_to_string n) = None" by (simp add: py_isdecimal_int_def is_digit_def)
  then show ?thesis by (simp add: read_text_def)
qed

lemma loop_ordinary:
  "list_all ordinary t \<Longrightarrow> parse_loop Y stack vs el (t @ cs) = parse_loop Y stack vs (el @ t) cs"
  by (induction t arbitrary: el) (auto simp: ordinary_def)

lemma loop_quoted:
  "CHR 0x22 \<notin> set t \<Longrightarrow>
   parse_loop Y [CHR 0x22] vs el (t @ cs) = parse_loop Y [CHR 0x22] vs (el @ filter (\<lambda>c. c \<noteq> CHR '']'') t) cs"
proof (induction t arbitrary: el)
  case (Cons c t)
  have "c \<noteq> CHR 0x22" using Cons.prems by auto
  then have "parse_loop Y [CHR 0x22] vs el (c # t @ cs) = parse_loop Y [CHR 0x22] vs (if c = CHR '']'' then el else el @ [c]) (t @ cs)" by simp
  then show ?case using Cons.IH [of "if c = CHR '']'' then el else el @ [c]"] Cons.prems by (simp del: parse_loop.simps)
qed simp

text \<open>The element that a typed argument leaves behind\<close>

definition arg_element :: "pyval \<Rightarrow> string" where
  "arg_element v = (case v of PyStr s \<Rightarrow> filter (\<lambda>c. c \<noteq> CHR '']'') s | _ \<Rightarrow> arg_text v)"

lemma number_text: "list_all ordinary (arg_text (PyInt n)) \<and> arg_text (PyInt n) \<noteq> []"
proof -
  have "list_all ordinary (std_to_string m)" for m
    using std_to_string_digits [of m] digit_ordinary by (auto simp: list_all_iff)
  then show ?thesis by (simp add: std_to_string_nonempty ordinary_def)
qed

lemma typed_element:
  assumes "typeable v"
  shows "arg_element v \<noteq> []" and "convert Y (arg_element v) = Some (read_as Y v)"
proof -
  have "arg_element v \<noteq> [] \<and> convert Y (arg_element v) = Some (read_as Y v)"
  proof (cases "atom_arg v")
    case True
    then have "arg_element v = arg_text v" "read_as Y v = v" by (cases v; simp add: arg_element_def)+
    then show ?thesis using convert_atom [OF True] atom_text [OF True] by simp
  next
    case False
    then consider (negative) n where "v = PyInt n" "n < 0" | (quoted) s where "v = PyStr s" using assms by (cases v) auto
    then have "CHR '']'' \<notin> set (arg_element v) \<and> arg_element v \<noteq> [] \<and> read_as Y v = read_text Y (arg_element v)"
    proof cases
      case negative
      have "\<forall>c\<in>set (arg_text v). ordinary c" using number_text [of n] unfolding negative(1) list_all_iff by blast
      moreover have "\<not> ordinary (CHR '']'')" by (simp add: ordinary_def)
      ultimately have "CHR '']'' \<notin> set (arg_text v)" by blast
      moreover have "read_as Y v = read_text Y (arg_text v)" using negative(2) by (simp add: negative(1) read_text_negative)
      moreover have "arg_element v = arg_text v" by (simp add: arg_element_def negative(1))
      ultimately show ?thesis using number_text [of n] negative(1) by simp
    next
      case quoted
      then show ?thesis using assms by (simp add: arg_element_def filter_empty_conv list_ex_iff)
    qed
    then show ?thesis using convert_text by simp
  qed
  then show "arg_element v \<noteq> []" "convert Y (arg_element v) = Some (read_as Y v)" by auto
qed

lemma loop_arg:
  assumes "typeable v"
  shows "parse_loop Y [] vs [] (arg_text v @ cs) = parse_loop Y [] vs (arg_element v) cs"
proof (cases "\<exists>s. v = PyStr s")
  case False
  then have "arg_element v = arg_text v" "list_all ordinary (arg_text v)"
    using assms number_text by (cases v; auto simp: arg_element_def ordinary_def)+
  then show ?thesis using loop_ordinary [of "arg_text v" Y "[]" vs "[]" cs] by simp
next
  case True
  then show ?thesis using assms loop_quoted [of _ Y vs "[]" "CHR 0x22 # cs"] by (auto simp: arg_element_def)
qed

lemma loop_arg_sep:
  assumes "typeable v" and "sep = '','' \<or> sep = '', ''"
  shows "parse_loop Y [] vs [] (arg_text v @ sep @ cs) = parse_loop Y [] (vs @ [read_as Y v]) [] cs"
proof -
  have "parse_loop Y [] vs (arg_element v) (sep @ cs) = parse_loop Y [] (vs @ [read_as Y v]) [] cs"
    using assms(2) typed_element(2) [OF assms(1)] by auto
  then show ?thesis using loop_arg [OF assms(1), of Y vs "sep @ cs"] by simp
qed

lemma join_Cons: "ts \<noteq> [] \<Longrightarrow> join sep (t # ts) = t @ sep @ join sep ts"
  by (cases ts) auto

lemma loop_args_sep:
  assumes "list_all typeable ws" and "sep = '','' \<or> sep = '', ''"
  shows "parse_loop Y [] vs [] (concat (map (\<lambda>w. arg_text w @ sep) ws) @ cs) = parse_loop Y [] (vs @ map (read_as Y) ws) [] cs"
  using assms(1) by (induction ws arbitrary: vs) (simp_all add: loop_arg_sep [OF _ assms(2)])

lemma join_sep: "join sep (ts @ [t]) = concat (map (\<lambda>t. t @ sep) ts) @ t"
proof (induction ts)
  case (Cons u ts)
  then show ?case by (simp add: join_Cons)
qed simp

lemma loop_args:
  assumes "list_all typeable ws" and "ws \<noteq> []" and "sep = '','' \<or> sep = '', ''"
  shows "parse_loop Y [] vs [] (join sep (map arg_text ws)) = Some (vs @ map (read_as Y) ws)"
proof -
  obtain us u where ws: "ws = us @ [u]" using assms(2) by (metis rev_exhaust)
  then have u: "typeable u" and us: "list_all typeable us" using assms(1) by auto
  have join: "join sep (map arg_text ws) = concat (map (\<lambda>w. arg_text w @ sep) us) @ arg_text u"
    using join_sep [of sep "map arg_text us" "arg_text u"] by (simp add: ws comp_def)
  show ?thesis unfolding join
    using loop_args_sep [OF us assms(3), of Y vs "arg_text u"] loop_arg [OF u, of Y "vs @ map (read_as Y) us" "[]"] typed_element(1) [OF u] typed_element(2) [OF u, of Y]
    by (simp add: ws)
qed

lemma parse_bracketed:
  "t \<noteq> [] \<Longrightarrow> parseArgumentsToList Y (CHR ''['' # t @ '']'') = map_option PyList (parse_loop Y [] [] [] t)"
  by (simp add: parseArgumentsToList.simps butlast_append)

lemma parse_typed_list:
  assumes "list_all typeable ws" and "ws \<noteq> []" and "sep = '','' \<or> sep = '', ''"
  shows "parseArgumentsToList Y (list_text sep ws) = Some (PyList (map (read_as Y) ws))"
proof -
  have "join sep (map arg_text ws) \<noteq> []"
  proof
    assume "join sep (map arg_text ws) = []"
    then show False using loop_args [OF assms, of Y "[]"] assms(2) by simp
  qed
  then show ?thesis unfolding list_text_def using loop_args [OF assms, of Y "[]"] by (subst parse_bracketed) simp_all
qed

text \<open>The arguments that are taken for what they are.\<close>

lemma plain_typeable: "plain_arg Y v \<Longrightarrow> typeable v"
proof -
  have "list_ex (\<lambda>c. c \<noteq> CHR '']'') s" if "s \<noteq> []" "CHR '']'' \<notin> set s" for s
    using that by (cases s) auto
  then show "plain_arg Y v \<Longrightarrow> typeable v" by (cases v) (auto simp: plain_arg_def plain_string_def)
qed

lemma read_as_plain: "typeable v \<Longrightarrow> read_as Y v = v \<longleftrightarrow> plain_arg Y v"
proof (cases v)
  case (PyStr s)
  assume "typeable v"
  have "filter (\<lambda>c. c \<noteq> CHR '']'') s = s \<longleftrightarrow> CHR '']'' \<notin> set s" by (auto simp: filter_id_conv)
  then show ?thesis using PyStr \<open>typeable v\<close>
    by (auto simp: plain_arg_def plain_string_def read_text_def split: option.splits if_splits)
qed (auto simp: plain_arg_def)

lemma parse_plain_list:
  assumes "list_all (plain_arg Y) ws" and "ws \<noteq> []" and "sep = '','' \<or> sep = '', ''"
  shows "parseArgumentsToList Y (list_text sep ws) = Some (PyList ws)"
proof -
  have t: "list_all typeable ws" using assms(1) plain_typeable by (auto simp: list_all_iff)
  then have "map (read_as Y) ws = ws" using assms(1) read_as_plain by (intro map_idI) (auto simp: list_all_iff)
  then show ?thesis using parse_typed_list [OF t assms(2,3), of Y] by simp
qed

text \<open>A list of numbers and truth values as an argument: spaces are dropped, the brackets stay for the recursive call.\<close>

lemma loop_inner:
  assumes "list_all atom_arg ws" and "sep = '','' \<or> sep = '', ''"
  shows "parse_loop Y [CHR ''[''] vs el (join sep (map arg_text ws) @ cs) = parse_loop Y [CHR ''[''] vs (el @ join '','' (map arg_text ws)) cs"
  using assms(1)
proof (induction ws arbitrary: el)
  case (Cons w ws)
  have w: "parse_loop Y [CHR ''[''] vs el (arg_text w @ cs) = parse_loop Y [CHR ''[''] vs (el @ arg_text w) cs" for el cs
    using loop_ordinary atom_text Cons.prems by simp
  have "parse_loop Y [CHR ''[''] vs el (sep @ cs) = parse_loop Y [CHR ''[''] vs (el @ '','') cs" for el cs
    using assms(2) by auto
  then show ?case using w Cons by (cases "ws = []") (simp_all add: join_Cons)
qed simp

lemma convert_list_text:
  assumes "list_all atom_arg ws" and "ws \<noteq> []"
  shows "convert Y (list_text '','' ws) = Some (PyList ws)"
proof -
  have ascii: "list_all (\<lambda>c. (of_char c :: nat) < 128) (arg_text w)" if "atom_arg w" for w
    using that std_to_string_digits digit_ordinary by (cases w) (auto simp: list_all_iff)
  have "list_all (\<lambda>c. (of_char c :: nat) < 128) (join '','' (map arg_text ws))"
    using assms(1)
  proof (induction ws)
    case (Cons w ws)
    then show ?case using ascii [of w] by (cases "ws = []") (simp_all add: join_Cons)
  qed simp
  then have "py_isdecimal_int Y (list_text '','' ws) = None"
    by (simp add: py_isdecimal_int_def list_text_def is_digit_def)
  moreover have "list_all (plain_arg Y) ws" using assms(1) by (auto simp: list_all_iff plain_arg_def)
  ultimately show ?thesis
    using parse_plain_list [of Y ws "'',''"] assms(2) by (simp add: convert.simps list_text_def)
qed

lemma loop_list:
  assumes "list_all atom_arg ws" and "ws \<noteq> []" and "sep = '','' \<or> sep = '', ''"
  shows "parse_loop Y [] vs [] (list_text sep ws @ cs) = parse_loop Y [] (vs @ [PyList ws]) [] cs"
proof -
  have "parse_loop Y [] vs [] (list_text sep ws @ cs) = parse_loop Y [CHR ''[''] vs (''['' @ join '','' (map arg_text ws)) (CHR '']'' # cs)"
    using loop_inner [OF assms(1,3), of Y vs "''[''" "CHR '']'' # cs"] by (simp add: list_text_def)
  also have "\<dots> = parse_loop Y [] (vs @ [PyList ws]) [] cs"
    using convert_list_text [OF assms(1,2), of Y] by (simp add: list_text_def)
  finally show ?thesis .
qed

lemma convert_empty: "convert Y [] = None"
  by (simp add: convert.simps py_isdecimal_int_def)

lemma list_text_nonempty: "list_text sep ws \<noteq> []"
  by (simp add: list_text_def)

text \<open>What \<^verbatim>\<open>json.dumps\<close> can print: everything but bytes. The preparation replaces them in lists and dictionaries.\<close>

fun json_ready :: "pyval \<Rightarrow> bool" where
  "json_ready (PyBytes bs) \<longleftrightarrow> False"
| "json_ready (PyList xs) \<longleftrightarrow> list_all json_ready xs"
| "json_ready (PyTuple xs) \<longleftrightarrow> list_all json_ready xs"
| "json_ready (PyDict d) \<longleftrightarrow> list_all (\<lambda>(k, v). json_ready v) d"
| "json_ready v \<longleftrightarrow> True"

fun tuples_ready :: "pyval \<Rightarrow> bool" where
  "tuples_ready (PyTuple xs) \<longleftrightarrow> list_all json_ready xs"
| "tuples_ready (PyList xs) \<longleftrightarrow> list_all tuples_ready xs"
| "tuples_ready (PyDict d) \<longleftrightarrow> list_all (\<lambda>(k, v). tuples_ready v) d"
| "tuples_ready v \<longleftrightarrow> True"

lemma prepare_json_ready: "json_ready (prepare_for_serialize v) \<longleftrightarrow> tuples_ready v"
  by (induction v) (auto simp: list_all_iff split_beta snds.simps)

text \<open>
  An interpreter for the examples: all strings are valid, every JSON text is metadata whose ABI is that text, one
  function is found for any arguments, a call is encoded with zeros for the selector, and data is decoded as it is.
\<close>

definition demo_python :: python where
  "demo_python = \<lparr>py_utf8 = (\<lambda>_. True), py_decimal = (\<lambda>_. None),
     json_loads = (\<lambda>s. Some (PyDict [(''output'', PyDict [(''abi'', PyStr s)])])), json_dumps = (\<lambda>v. Some ''{}''),
     find_functions_by_args = (\<lambda>abi args. Some ''[<Function set(address)>]''),
     encodeABI = (\<lambda>abi bytecode method args. Some (''0x00000000'' @ method)),
     data_in_transaction = (\<lambda>abi bytecode args. Some (''0x'' @ bytecode)),
     decode_function_input = (\<lambda>abi data. Some (PyDict [(''data'', PyStr data)]))\<rparr>"

section \<open>Properties\<close>

text \<open>
  C13: what becomes of the arguments a user types. A list of numbers, truth values and quoted strings, separated by
  commas with or without a space, is parsed to one value for each, commas and spaces inside the strings included, and
  a list of non-negative numbers and truth values may be the last argument. The values are exactly those that were
  typed for non-negative numbers, truth values, and strings that have no closing bracket in them and do not look like
  a decimal number or a truth value, and for no others: the quotes are forgotten, so that \<^verbatim>\<open>"42"\<close> becomes the number and
  \<^verbatim>\<open>"true"\<close> the truth value, closing brackets inside a string are dropped, and a negative number becomes a string. An
  empty string is dropped at the end of the list, and makes the parser fail in front of other arguments. A string
  with a quote in it cannot be typed, and strings of closing brackets alone are not covered.
\<close>

theorem parse_arguments_roundtrip:
  assumes "list_all typeable vs" and "list_all atom_arg ws" and "sep = '','' \<or> sep = '', ''" and "vs \<noteq> []" and "ws \<noteq> []"
  shows "parseArgumentsToList Y (list_text sep vs) = Some (PyList (map (read_as Y) vs))
    \<and> parseArgumentsToList Y (CHR ''['' # (concat (map (\<lambda>v. arg_text v @ sep) vs) @ list_text sep ws) @ '']'')
        = Some (PyList (map (read_as Y) vs @ [PyList ws]))
    \<and> (\<forall>v\<in>set vs. read_as Y v = v \<longleftrightarrow> plain_arg Y v)
    \<and> parseArgumentsToList Y (list_text sep (vs @ [PyStr []])) = Some (PyList (map (read_as Y) vs))
    \<and> parseArgumentsToList Y (list_text sep (PyStr [] # vs)) = None"
proof (intro conjI)
  show "parseArgumentsToList Y (list_text sep vs) = Some (PyList (map (read_as Y) vs))" by (rule parse_typed_list [OF assms(1,4,3)])
  have "parse_loop Y [] [] [] (concat (map (\<lambda>v. arg_text v @ sep) vs) @ list_text sep ws) = Some (map (read_as Y) vs @ [PyList ws])"
    using loop_args_sep [OF assms(1,3), of Y "[]" "list_text sep ws"] loop_list [OF assms(2,5,3), of Y "map (read_as Y) vs" "[]"] by simp
  then show "parseArgumentsToList Y (CHR ''['' # (concat (map (\<lambda>v. arg_text v @ sep) vs) @ list_text sep ws) @ '']'')
      = Some (PyList (map (read_as Y) vs @ [PyList ws]))"
    by (subst parse_bracketed) (simp_all add: list_text_nonempty)
  show "\<forall>v\<in>set vs. read_as Y v = v \<longleftrightarrow> plain_arg Y v" using assms(1) read_as_plain by (simp add: list_all_iff)
  have "parse_loop Y [] us [] (arg_text (PyStr [])) = Some us" for us by simp
  then have "parse_loop Y [] [] [] (join sep (map arg_text (vs @ [PyStr []]))) = Some (map (read_as Y) vs)"
    using loop_args_sep [OF assms(1,3), of Y "[]" "arg_text (PyStr [])"] join_sep [of sep "map arg_text vs" "arg_text (PyStr [])"]
    by (simp add: comp_def del: arg_text.simps parse_loop.simps)
  then show "parseArgumentsToList Y (list_text sep (vs @ [PyStr []])) = Some (PyList (map (read_as Y) vs))"
    unfolding list_text_def by (subst parse_bracketed) (use join_sep [of sep "map arg_text vs"] in simp_all)
  have "parse_loop Y [] [] [] (arg_text (PyStr []) @ sep @ cs) = None" for cs using assms(3) convert_empty by auto
  then show "parseArgumentsToList Y (list_text sep (PyStr [] # vs)) = None"
    unfolding list_text_def by (subst parse_bracketed) (use assms(4) in \<open>simp_all add: join_Cons del: parse_loop.simps\<close>)
qed

theorem parse_arguments_roundtrip_witness:
  "parseArgumentsToList demo_python (list_text '', '' [PyInt 42, PyStr ''a, b'', PyStr ''7'', PyInt (- 1), PyBool True])
     = Some (PyList [PyInt 42, PyStr ''a, b'', PyInt 7, PyStr ''-1'', PyBool True])"
proof -
  let ?vs = "[PyInt 42, PyStr ''a, b'', PyStr ''7'', PyInt (- 1), PyBool True]"
  have "parseArgumentsToList demo_python (list_text '', '' ?vs) = Some (PyList (map (read_as demo_python) ?vs))"
    using parse_arguments_roundtrip [of ?vs "[PyInt 7]" "'', ''" demo_python] by simp
  moreover have "map (read_as demo_python) ?vs = [PyInt 42, PyStr ''a, b'', PyInt 7, PyStr ''-1'', PyBool True]" by code_simp
  ultimately show ?thesis by simp
qed

text \<open>
  A list can only be the last argument. When another argument follows it, the parser converts the empty
  element behind the list and fails, so that no function with such arguments is ever found.
\<close>

theorem list_argument_must_be_last:
  assumes "list_all (plain_arg Y) vs" and "list_all atom_arg ws" and "ws \<noteq> []" and "sep = '','' \<or> sep = '', ''"
    and "arguments = CHR ''['' # (concat (map (\<lambda>v. arg_text v @ sep) vs) @ list_text sep ws @ CHR '','' # rest) @ '']''"
  shows "parseArgumentsToList Y arguments = None \<and> getMethodsByArguments Y arguments metadata = []"
proof -
  have "list_all typeable vs" using assms(1) plain_typeable by (auto simp: list_all_iff)
  then have "parse_loop Y [] [] [] (concat (map (\<lambda>v. arg_text v @ sep) vs) @ list_text sep ws @ CHR '','' # rest) = None"
    using loop_args_sep [OF _ assms(4), of vs Y "[]" "list_text sep ws @ CHR '','' # rest"]
      loop_list [OF assms(2,3,4), of Y "map (read_as Y) vs" "CHR '','' # rest"] by (simp add: convert_empty)
  then have "parseArgumentsToList Y arguments = None" unfolding assms(5) by (subst parse_bracketed) simp_all
  then show ?thesis by (auto simp: getMethodsByArguments_def py_result_def py_str_def split: if_splits Option.bind_splits)
qed

theorem list_argument_must_be_last_witness:
  "parseArgumentsToList demo_python ''[[1,2],3]'' = None \<and> getMethodsByArguments demo_python ''[[1,2],3]'' ''{}'' = []"
proof (rule list_argument_must_be_last [of demo_python "[]" "[PyInt 1, PyInt 2]" "'',''" _ "''3''"])
  have "std_to_string 1 = ''1''" "std_to_string 2 = ''2''" by code_simp+
  then show "''[[1,2],3]'' = CHR ''['' # (concat (map (\<lambda>v. arg_text v @ '','') []) @ list_text '','' [PyInt 1, PyInt 2] @ CHR '','' # ''3'') @ '']''"
    by (simp add: list_text_def)
qed simp_all

end
