(* ===== verification/Keccak.thy ===== *)
theory Keccak
  imports Crypto
begin

unbundle bit_operations_syntax

text \<open>
  The Keccak-256 implementation in \<^verbatim>\<open>src/base/hash.cpp\<close>: tables packed into bytes, the permutation on 25
  lanes updated in place, and the context that absorbs a message piece by piece. A lane is a
  64-bit word; the buffer \<^verbatim>\<open>message\<close> is memory, so it is a list of 192 bytes, and a block is read from it as
  little-endian lanes, as on the hosts the code is written for. Pointers to the message carry
  their address, because the code distinguishes aligned blocks.
\<close>

section \<open>Tables\<close>

definition BLOCK_SIZE :: nat where
  "BLOCK_SIZE = (1600 - 256 * 2) div 8"

definition ROTL64 :: "64 word \<Rightarrow> nat \<Rightarrow> 64 word" where
  "ROTL64 qword n = push_bit n qword XOR drop_bit (64 - n) qword"

definition TYPE_ROUND_INFO :: nat where
  "TYPE_ROUND_INFO = 0"

definition TYPE_PI_TRANSFORM :: nat where
  "TYPE_PI_TRANSFORM = 24"

definition TYPE_RHO_TRANSFORM :: nat where
  "TYPE_RHO_TRANSFORM = 48"

definition constants :: bytes where
  "constants =
    [1, 26, 94, 112, 31, 33, 121, 85, 14, 12, 53, 38, 63, 79, 93, 83, 82, 72, 22, 102, 121, 88, 33, 116,
     1, 6, 9, 22, 14, 20, 2, 12, 13, 19, 23, 15, 4, 24, 21, 8, 16, 5, 3, 18, 17, 11, 7, 10,
     1, 62, 28, 27, 36, 44, 6, 55, 20, 3, 10, 43, 25, 39, 41, 45, 15, 21, 8, 18, 2, 61, 56, 14]"

definition getConstant :: "nat \<Rightarrow> nat \<Rightarrow> byte" where
  "getConstant type index = constants ! (type + index)"

definition get_round_constant :: "nat \<Rightarrow> 64 word" where
  "get_round_constant round =
     (let result = 0;
          roundInfo = getConstant TYPE_ROUND_INFO round;
          result = (if roundInfo AND push_bit 6 1 \<noteq> 0 then result OR push_bit 63 1 else result);
          result = (if roundInfo AND push_bit 5 1 \<noteq> 0 then result OR push_bit 31 1 else result);
          result = (if roundInfo AND push_bit 4 1 \<noteq> 0 then result OR push_bit 15 1 else result);
          result = (if roundInfo AND push_bit 3 1 \<noteq> 0 then result OR push_bit 7 1 else result);
          result = (if roundInfo AND push_bit 2 1 \<noteq> 0 then result OR push_bit 3 1 else result);
          result = (if roundInfo AND push_bit 1 1 \<noteq> 0 then result OR push_bit 1 1 else result);
          result = (if roundInfo AND push_bit 0 1 \<noteq> 0 then result OR push_bit 0 1 else result)
      in result)"

section \<open>The permutation\<close>

definition keccak_theta :: "64 word list \<Rightarrow> 64 word list" where
  "keccak_theta A =
     (let C = map (\<lambda>i. fold (\<lambda>j c. c XOR A ! (i + j)) [5, 10, 15, 20] (A ! i)) [0..<5];
          D = map (\<lambda>i. ROTL64 (C ! ((i + 1) mod 5)) 1 XOR C ! ((i + 4) mod 5)) [0..<5]
      in fold (\<lambda>i A. fold (\<lambda>j A. A[i + j := A ! (i + j) XOR D ! i]) [0, 5, 10, 15, 20] A) [0..<5] A)"

definition keccak_pi :: "64 word list \<Rightarrow> 64 word list" where
  "keccak_pi A =
     (let A1 = A ! 1;
          A = fold (\<lambda>i A. A[unat (getConstant TYPE_PI_TRANSFORM (i - 1)) := A ! unat (getConstant TYPE_PI_TRANSFORM i)]) [1..<24] A
      in A[10 := A1])"

definition chi_row :: "nat \<Rightarrow> 64 word list \<Rightarrow> 64 word list" where
  "chi_row i A =
     (let A0 = A ! (0 + i);
          A1 = A ! (1 + i);
          A = A[0 + i := A ! (0 + i) XOR (NOT A1 AND A ! (2 + i))];
          A = A[1 + i := A ! (1 + i) XOR (NOT (A ! (2 + i)) AND A ! (3 + i))];
          A = A[2 + i := A ! (2 + i) XOR (NOT (A ! (3 + i)) AND A ! (4 + i))];
          A = A[3 + i := A ! (3 + i) XOR (NOT (A ! (4 + i)) AND A0)];
          A = A[4 + i := A ! (4 + i) XOR (NOT A0 AND A1)]
      in A)"

definition keccak_chi :: "64 word list \<Rightarrow> 64 word list" where
  "keccak_chi A = fold chi_row [0, 5, 10, 15, 20] A"

definition rho_loop :: "64 word list \<Rightarrow> 64 word list" where
  "rho_loop state = fold (\<lambda>i s. s[i := ROTL64 (s ! i) (unat (getConstant TYPE_RHO_TRANSFORM (i - 1)))]) [1..<25] state"

definition sha3_round :: "nat \<Rightarrow> 64 word list \<Rightarrow> 64 word list" where
  "sha3_round round state =
     (let state = keccak_chi (keccak_pi (rho_loop (keccak_theta state)))
      in state[0 := state ! 0 XOR get_round_constant round])"

definition sha3_permutation :: "64 word list \<Rightarrow> 64 word list" where
  "sha3_permutation state = fold sha3_round [0..<24] state"

text \<open>Memory read as an array of lanes, and lanes written to memory.\<close>

definition qword_at :: "bytes \<Rightarrow> nat \<Rightarrow> 64 word" where
  "qword_at block i = of_nat (nat_of_le (take 8 (drop (8 * i) block)))"

definition le_str :: "64 word list \<Rightarrow> bytes" where
  "le_str lanes = concat (map (\<lambda>q. le_bytes 8 (unat q)) lanes)"

definition sha3_process_block :: "64 word list \<Rightarrow> bytes \<Rightarrow> 64 word list" where
  "sha3_process_block hash block =
     sha3_permutation (fold (\<lambda>i h. h[i := h ! i XOR qword_at block i]) [0..<17] hash)"

section \<open>The context\<close>

record SHA3_CTX =
  ctx_hash :: "64 word list"
  ctx_message :: bytes
  ctx_rest :: "16 word"

definition keccak_init :: SHA3_CTX where
  "keccak_init = \<lparr>ctx_hash = replicate 25 0, ctx_message = replicate 192 0, ctx_rest = 0\<rparr>"

text \<open>\<^verbatim>\<open>memcpy(buffer + offset, source, length source)\<close>\<close>

definition memcpy :: "nat \<Rightarrow> bytes \<Rightarrow> bytes \<Rightarrow> bytes" where
  "memcpy offset source buffer = take offset buffer @ source @ drop (offset + length source) buffer"

lemma block_size_word: "unat (of_nat BLOCK_SIZE :: 16 word) = 136"
  by (simp add: BLOCK_SIZE_def)

lemma size_minus_block: "of_nat BLOCK_SIZE \<le> (n :: 16 word) \<Longrightarrow> unat (n - of_nat BLOCK_SIZE) = unat n - 136"
  by (simp add: unat_sub block_size_word)

function keccak_blocks :: "nat \<Rightarrow> bytes \<Rightarrow> 16 word \<Rightarrow> SHA3_CTX \<Rightarrow> SHA3_CTX" where
  "keccak_blocks addr msg n ctx =
     (if n \<ge> of_nat BLOCK_SIZE then
        (if addr mod 8 = 0
         then keccak_blocks (addr + BLOCK_SIZE) (drop BLOCK_SIZE msg) (n - of_nat BLOCK_SIZE)
                (ctx\<lparr>ctx_hash := sha3_process_block (ctx_hash ctx) msg\<rparr>)
         else
           (let ctx = ctx\<lparr>ctx_message := memcpy 0 (take BLOCK_SIZE msg) (ctx_message ctx)\<rparr>
            in keccak_blocks (addr + BLOCK_SIZE) (drop BLOCK_SIZE msg) (n - of_nat BLOCK_SIZE)
                 (ctx\<lparr>ctx_hash := sha3_process_block (ctx_hash ctx) (ctx_message ctx)\<rparr>)))
      else if n \<noteq> 0 then ctx\<lparr>ctx_message := memcpy 0 (take (unat n) msg) (ctx_message ctx)\<rparr>
      else ctx)"
  by pat_completeness auto
termination
  by (relation "measure (\<lambda>(addr, msg, n, ctx). unat n)")
    (auto simp: size_minus_block word_le_nat_alt block_size_word)

declare keccak_blocks.simps [simp del]

definition keccak_update :: "nat \<Rightarrow> bytes \<Rightarrow> 16 word \<Rightarrow> SHA3_CTX \<Rightarrow> SHA3_CTX" where
  "keccak_update addr msg n ctx =
     (let idx = ctx_rest ctx;
          ctx = ctx\<lparr>ctx_rest := of_nat ((unat (ctx_rest ctx) + unat n) mod BLOCK_SIZE)\<rparr>
      in if idx \<noteq> 0 then
           (let left = of_nat (BLOCK_SIZE - unat idx) :: 16 word;
                ctx = ctx\<lparr>ctx_message := memcpy (unat idx) (take (unat (if n < left then n else left)) msg) (ctx_message ctx)\<rparr>
            in if n < left then ctx
               else keccak_blocks (addr + unat left) (drop (unat left) msg) (n - left)
                      (ctx\<lparr>ctx_hash := sha3_process_block (ctx_hash ctx) (ctx_message ctx)\<rparr>))
         else keccak_blocks addr msg n ctx)"

definition keccak_final :: "SHA3_CTX \<Rightarrow> SHA3_CTX \<times> bytes" where
  "keccak_final ctx =
     (let digest_length = 100 - BLOCK_SIZE div 2;
          rest = unat (ctx_rest ctx);
          m = memcpy rest (replicate (BLOCK_SIZE - rest) 0) (ctx_message ctx);
          m = m[rest := m ! rest OR 0x01];
          m = m[BLOCK_SIZE - 1 := m ! (BLOCK_SIZE - 1) OR 0x80];
          ctx = ctx\<lparr>ctx_message := m\<rparr>;
          ctx = ctx\<lparr>ctx_hash := sha3_process_block (ctx_hash ctx) (ctx_message ctx)\<rparr>
      in (ctx, take digest_length (le_str (ctx_hash ctx))))"

text \<open>The size of the data is passed as a 16-bit number.\<close>

definition keccak256_compute :: "nat \<Rightarrow> bytes \<Rightarrow> bytes" where
  "keccak256_compute addr data =
     snd (keccak_final (keccak_update addr data (of_nat (length data)) keccak_init))"

section \<open>The specification\<close>

text \<open>
  Keccak as its specification describes it: a state of five by five lanes, the lane at \<open>(x, y)\<close> stored
  at index \<open>x + 5 y\<close>, five step mappings given by coordinates, the offsets of \<open>\<rho>\<close> along the walk that
  starts at \<open>(1, 0)\<close>, and the round constants taken from a linear feedback shift register.
\<close>

definition lane :: "64 word list \<Rightarrow> nat \<Rightarrow> nat \<Rightarrow> 64 word" where
  "lane A x y = A ! (x mod 5 + 5 * (y mod 5))"

definition lanes :: "(nat \<Rightarrow> nat \<Rightarrow> 64 word) \<Rightarrow> 64 word list" where
  "lanes f = map (\<lambda>i. f (i mod 5) (i div 5)) [0..<25]"

definition column :: "64 word list \<Rightarrow> nat \<Rightarrow> 64 word" where
  "column A x = fold (\<lambda>y c. c XOR lane A x y) [1, 2, 3, 4] (lane A x 0)"

definition spec_theta :: "64 word list \<Rightarrow> 64 word list" where
  "spec_theta A = lanes (\<lambda>x y. lane A x y XOR (word_rotl 1 (column A (x + 1)) XOR column A (x + 4)))"

fun rho_walk :: "nat \<Rightarrow> nat \<times> nat" where
  "rho_walk 0 = (1, 0)"
| "rho_walk (Suc t) = (case rho_walk t of (x, y) \<Rightarrow> (y, (2 * x + 3 * y) mod 5))"

definition rho_offset :: "nat \<Rightarrow> nat \<Rightarrow> nat" where
  "rho_offset x y =
     (case find (\<lambda>t. rho_walk t = (x, y)) [0..<24] of
        Some t \<Rightarrow> (t + 1) * (t + 2) div 2 mod 64
      | None \<Rightarrow> 0)"

definition spec_rho :: "64 word list \<Rightarrow> 64 word list" where
  "spec_rho A = lanes (\<lambda>x y. word_rotl (rho_offset x y) (lane A x y))"

definition spec_pi :: "64 word list \<Rightarrow> 64 word list" where
  "spec_pi A = lanes (\<lambda>x y. lane A (x + 3 * y) x)"

definition spec_chi :: "64 word list \<Rightarrow> 64 word list" where
  "spec_chi A = lanes (\<lambda>x y. lane A x y XOR (NOT (lane A (x + 1) y) AND lane A (x + 2) y))"

definition lfsr_step :: "byte \<Rightarrow> byte" where
  "lfsr_step w = push_bit 1 w XOR (if bit w 7 then 0x71 else 0)"

definition spec_rc :: "nat \<Rightarrow> bool" where
  "spec_rc t = bit ((lfsr_step ^^ t) 1) 0"

definition spec_round_constant :: "nat \<Rightarrow> 64 word" where
  "spec_round_constant r = fold (\<lambda>j w. if spec_rc (j + 7 * r) then w OR push_bit (2 ^ j - 1) 1 else w) [0..<7] 0"

definition spec_iota :: "nat \<Rightarrow> 64 word list \<Rightarrow> 64 word list" where
  "spec_iota r A = A[0 := lane A 0 0 XOR spec_round_constant r]"

definition keccak_f :: "64 word list \<Rightarrow> 64 word list" where
  "keccak_f A = fold (\<lambda>r A. spec_iota r (spec_chi (spec_pi (spec_rho (spec_theta A))))) [0..<24] A"

section \<open>The permutation is the specified one\<close>

lemma ROTL64_rotl: "0 < n \<Longrightarrow> n < 64 \<Longrightarrow> ROTL64 q n = word_rotl n q"
  by (rule bit_word_eqI)
    (auto simp: ROTL64_def bit_simps mod_if less_diff_conv add.commute [of "64 :: nat"] dest: bit_imp_le_length)

lemma upt_lanes:
  "[0..<5] = [0, 1, 2, 3, 4 :: nat]"
  "[0..<25] = [0, 1, 2, 3, 4, 5, 6, 7, 8, 9, 10, 11, 12, 13, 14, 15, 16, 17, 18, 19, 20, 21, 22, 23, 24 :: nat]"
  "[Suc 0..<25] = [1, 2, 3, 4, 5, 6, 7, 8, 9, 10, 11, 12, 13, 14, 15, 16, 17, 18, 19, 20, 21, 22, 23, 24]"
  "[Suc 0..<24] = [1, 2, 3, 4, 5, 6, 7, 8, 9, 10, 11, 12, 13, 14, 15, 16, 17, 18, 19, 20, 21, 22, 23]"
  "[0..<7] = [0, 1, 2, 3, 4, 5, 6 :: nat]"
  "[0..<24] = [0, 1, 2, 3, 4, 5, 6, 7, 8, 9, 10, 11, 12, 13, 14, 15, 16, 17, 18, 19, 20, 21, 22, 23 :: nat]"
  by code_simp+

lemma list_update_numeral [simp]: "(x # xs)[numeral v := y] = x # xs[pred_numeral v := y]"
  by (simp add: numeral_eq_Suc)

lemma theta_spec: "keccak_theta (map a [0..<25]) = spec_theta (map a [0..<25])"
  by (simp add: keccak_theta_def spec_theta_def lanes_def lane_def column_def upt_lanes ROTL64_rotl Let_def)

lemma chi_spec: "keccak_chi (map a [0..<25]) = spec_chi (map a [0..<25])"
  by (simp add: keccak_chi_def chi_row_def spec_chi_def lanes_def lane_def upt_lanes Let_def)

lemma pi_spec: "keccak_pi (map a [0..<25]) = spec_pi (map a [0..<25])"
  by (simp add: keccak_pi_def spec_pi_def lanes_def lane_def upt_lanes Let_def getConstant_def constants_def TYPE_PI_TRANSFORM_def)

lemma rho_offsets:
  "rho_offset 0 0 = 0" "rho_offset (Suc 0) 0 = Suc 0" "rho_offset 2 0 = 62" "rho_offset 3 0 = 28" "rho_offset 4 0 = 27"
  "rho_offset 0 (Suc 0) = 36" "rho_offset (Suc 0) (Suc 0) = 44" "rho_offset 2 (Suc 0) = 6" "rho_offset 3 (Suc 0) = 55" "rho_offset 4 (Suc 0) = 20"
  "rho_offset 0 2 = 3" "rho_offset (Suc 0) 2 = 10" "rho_offset 2 2 = 43" "rho_offset 3 2 = 25" "rho_offset 4 2 = 39"
  "rho_offset 0 3 = 41" "rho_offset (Suc 0) 3 = 45" "rho_offset 2 3 = 15" "rho_offset 3 3 = 21" "rho_offset 4 3 = 8"
  "rho_offset 0 4 = 18" "rho_offset (Suc 0) 4 = 2" "rho_offset 2 4 = 61" "rho_offset 3 4 = 56" "rho_offset 4 4 = 14"
  by code_simp+

lemma rotl_0 [simp]: "word_rotl 0 w = w"
  by (rule bit_word_eqI) (simp add: bit_word_rotl_iff)

lemma rho_spec: "rho_loop (map a [0..<25]) = spec_rho (map a [0..<25])"
  by (simp add: rho_loop_def spec_rho_def lanes_def lane_def upt_lanes rho_offsets ROTL64_rotl getConstant_def constants_def
      TYPE_RHO_TRANSFORM_def)

lemma lfsr_step_numeral [simp]:
  "lfsr_step 1 = 2"
  "lfsr_step (numeral n) = push_bit 1 (numeral n) XOR (if bit (numeral n :: byte) 7 then 0x71 else 0)"
  by (simp_all add: lfsr_step_def)

text \<open>The state of the register at the start of each round.\<close>

definition lfsr_seeds :: "byte list" where
  "lfsr_seeds = [1, 128, 216, 26, 223, 9, 53, 79, 202, 112, 65, 236, 213, 205, 99, 171, 170, 42, 242, 232, 55, 62, 11, 68]"

lemma lfsr_power:
  "(lfsr_step ^^ 0) w = w" "(lfsr_step ^^ Suc 0) w = lfsr_step w" "(lfsr_step ^^ 2) w = lfsr_step (lfsr_step w)"
  "(lfsr_step ^^ 3) w = lfsr_step (lfsr_step (lfsr_step w))" "(lfsr_step ^^ 4) w = lfsr_step (lfsr_step (lfsr_step (lfsr_step w)))"
  "(lfsr_step ^^ 5) w = lfsr_step (lfsr_step (lfsr_step (lfsr_step (lfsr_step w))))"
  "(lfsr_step ^^ 6) w = lfsr_step (lfsr_step (lfsr_step (lfsr_step (lfsr_step (lfsr_step w)))))"
  "(lfsr_step ^^ 7) w = lfsr_step (lfsr_step (lfsr_step (lfsr_step (lfsr_step (lfsr_step (lfsr_step w))))))"
  by (simp_all add: numeral_eq_Suc)

lemma length_lfsr_seeds: "length lfsr_seeds = 24"
  by (simp add: lfsr_seeds_def)

lemma lfsr_seeds_step: "list_all2 (\<lambda>w w'. (lfsr_step ^^ 7) w = w') (butlast lfsr_seeds) (tl lfsr_seeds)"
  by (simp add: lfsr_seeds_def lfsr_power)

lemma lfsr_seed: "r < 24 \<Longrightarrow> (lfsr_step ^^ (7 * r)) 1 = lfsr_seeds ! r"
proof (induction r)
  case (Suc r)
  have "(lfsr_step ^^ (7 * Suc r)) 1 = (lfsr_step ^^ 7) ((lfsr_step ^^ (7 * r)) 1)"
    by (simp only: mult_Suc_right funpow_add o_apply)
  also have "\<dots> = lfsr_seeds ! Suc r"
    using Suc list_all2_nthD [OF lfsr_seeds_step, of r] by (simp add: nth_butlast nth_tl length_lfsr_seeds)
  finally show ?case .
qed (simp add: lfsr_seeds_def)

definition seeded_constant :: "byte \<Rightarrow> 64 word" where
  "seeded_constant s = fold (\<lambda>j w. if bit ((lfsr_step ^^ j) s) 0 then w OR push_bit (2 ^ j - 1) 1 else w) [0..<7] 0"

lemma spec_round_constant_seed: "r < 24 \<Longrightarrow> spec_round_constant r = seeded_constant (lfsr_seeds ! r)"
  by (simp add: spec_round_constant_def seeded_constant_def spec_rc_def funpow_add lfsr_seed)

lemma seeded_constants: "map get_round_constant [0..<24] = map seeded_constant lfsr_seeds"
  by (simp add: upt_lanes(5,6) lfsr_seeds_def seeded_constant_def get_round_constant_def getConstant_def constants_def
      TYPE_ROUND_INFO_def lfsr_power)

lemma round_constants: "r < 24 \<Longrightarrow> get_round_constant r = spec_round_constant r"
  using arg_cong [OF seeded_constants, of "\<lambda>xs. xs ! r"] spec_round_constant_seed [of r]
  by (simp add: length_lfsr_seeds)

lemma length_lanes [simp]: "length (lanes f) = 25"
  by (simp add: lanes_def)

lemma length_steps [simp]:
  "length (spec_theta A) = 25" "length (spec_rho A) = 25" "length (spec_pi A) = 25" "length (spec_chi A) = 25"
  "length (spec_iota r A) = length A"
  by (simp_all add: spec_theta_def spec_rho_def spec_pi_def spec_chi_def spec_iota_def)

lemma round_spec:
  assumes "length A = 25" and "r < 24"
  shows "sha3_round r A = spec_iota r (spec_chi (spec_pi (spec_rho (spec_theta A))))"
proof -
  have as_map: "B = map ((!) B) [0..<25]" if "length B = 25" for B :: "64 word list" using that map_nth [of B] by simp
  have eq: "keccak_theta B = spec_theta B" "rho_loop B = spec_rho B" "keccak_pi B = spec_pi B" "keccak_chi B = spec_chi B"
    if "length B = 25" for B
    using theta_spec [of "(!) B"] rho_spec [of "(!) B"] pi_spec [of "(!) B"] chi_spec [of "(!) B"] as_map [OF that] by simp_all
  show ?thesis using assms
    by (simp add: sha3_round_def eq spec_iota_def lane_def round_constants Let_def)
qed

lemma permutation_spec:
  assumes "length A = 25"
  shows "sha3_permutation A = keccak_f A \<and> length (keccak_f A) = 25"
proof -
  have "fold sha3_round rs B = fold (\<lambda>r A. spec_iota r (spec_chi (spec_pi (spec_rho (spec_theta A))))) rs B
      \<and> length (fold (\<lambda>r A. spec_iota r (spec_chi (spec_pi (spec_rho (spec_theta A))))) rs B) = 25" if "\<forall>r\<in>set rs. r < 24" "length B = 25" for rs B
    using that by (induction rs arbitrary: B) (simp_all add: round_spec)
  from this [of "[0..<24]" A] assms show ?thesis by (simp add: sha3_permutation_def keccak_f_def)
qed

section \<open>The sponge\<close>

text \<open>
  The reference for the context: full blocks of 136 bytes are added to the state and permuted, the
  message is padded with a one bit, zeros and a one bit, and the digest is the first 32 bytes of
  the state. A context stands for the state after its full blocks and the bytes that wait for
  the next one.
\<close>

definition absorb_block :: "64 word list \<Rightarrow> bytes \<Rightarrow> 64 word list" where
  "absorb_block A block = keccak_f (map (\<lambda>i. A ! i XOR (if i < 17 then qword_at block i else 0)) [0..<25])"

function absorb :: "64 word list \<Rightarrow> bytes \<Rightarrow> 64 word list \<times> bytes" where
  "absorb A msg = (if length msg < 136 then (A, msg) else absorb (absorb_block A (take 136 msg)) (drop 136 msg))"
  by pat_completeness auto
termination
  by (relation "measure (\<lambda>(A, msg). length msg)") auto

declare absorb.simps [simp del]

definition keccak_pad :: "bytes \<Rightarrow> bytes" where
  "keccak_pad pending =
     (if length pending = 135 then pending @ [0x81] else pending @ [0x01] @ replicate (134 - length pending) 0 @ [0x80])"

definition spec_keccak256 :: "bytes \<Rightarrow> bytes" where
  "spec_keccak256 msg = (case absorb (replicate 25 0) msg of (A, pending) \<Rightarrow> take 32 (le_str (absorb_block A (keccak_pad pending))))"

definition ctx_inv :: "SHA3_CTX \<Rightarrow> bool" where
  "ctx_inv ctx \<longleftrightarrow> length (ctx_hash ctx) = 25 \<and> length (ctx_message ctx) = 192 \<and> unat (ctx_rest ctx) < 136"

definition ctx_abs :: "SHA3_CTX \<Rightarrow> 64 word list \<times> bytes" where
  "ctx_abs ctx = (ctx_hash ctx, take (unat (ctx_rest ctx)) (ctx_message ctx))"

lemma fold_xor_lanes:
  "length h = 25 \<Longrightarrow> fold (\<lambda>i h. h[i := h ! i XOR f i]) [0..<n] h =
     map (\<lambda>i. h ! i XOR (if i < n then f i else 0)) [0..<25]" if "n \<le> 25"
  using that
proof (induction n)
  case 0
  then show ?case using map_nth [of h] by simp
next
  case (Suc n)
  then show ?case by (auto intro!: nth_equalityI simp: nth_list_update)
qed

lemma process_block_spec: "length h = 25 \<Longrightarrow> sha3_process_block h block = absorb_block h block"
  by (simp add: sha3_process_block_def absorb_block_def fold_xor_lanes permutation_spec)

lemma absorb_block_prefix: "136 \<le> length b \<Longrightarrow> absorb_block A (b @ c) = absorb_block A b"
proof -
  assume "136 \<le> length b"
  then have "qword_at (b @ c) i = qword_at b i" if "i < 17" for i using that by (simp add: qword_at_def)
  then have "map (\<lambda>i. A ! i XOR (if i < 17 then qword_at (b @ c) i else 0)) [0..<25]
      = map (\<lambda>i. A ! i XOR (if i < 17 then qword_at b i else 0)) [0..<25]" by auto
  then show ?thesis by (simp only: absorb_block_def)
qed

lemma absorb_block_take: "136 \<le> length b \<Longrightarrow> absorb_block A (take 136 b) = absorb_block A b"
  using absorb_block_prefix [of "take 136 b" A "drop 136 b"] by simp

lemma length_absorb_block [simp]: "length (absorb_block A b) = 25"
  by (simp add: absorb_block_def permutation_spec)

lemma absorb_short: "length msg < 136 \<Longrightarrow> absorb A msg = (A, msg)"
  by (simp add: absorb.simps)

lemma absorb_long: "136 \<le> length msg \<Longrightarrow> absorb A msg = absorb (absorb_block A msg) (drop 136 msg)"
  by (subst absorb.simps) (simp add: absorb_block_take)

lemma absorb_full: "length b = 136 \<Longrightarrow> absorb A (b @ c) = absorb (absorb_block A b) c"
  using absorb_long [of "b @ c" A] absorb_block_prefix [of b A c] by simp

lemma absorb_append: "absorb A (x @ y) = (case absorb A x of (B, p) \<Rightarrow> absorb B (p @ y))"
proof (induction A x rule: absorb.induct)
  case (1 A x)
  show ?case
  proof (cases "length x < 136")
    case False
    then have "absorb A (x @ y) = absorb (absorb_block A (take 136 x)) (drop 136 x @ y)"
      using absorb_long [of "x @ y" A] by (simp add: absorb_block_prefix absorb_block_take)
    then show ?thesis using 1 False absorb_long [of x A] by (simp add: absorb_block_take)
  qed (simp add: absorb_short)
qed

lemma absorb_fields: "length A = 25 \<Longrightarrow> length (fst (absorb A msg)) = 25 \<and> length (snd (absorb A msg)) = length msg mod 136"
proof (induction A msg rule: absorb.induct)
  case (1 A msg)
  show ?case
  proof (cases "length msg < 136")
    case False
    then show ?thesis using 1 absorb_long [of msg A] by (simp add: absorb_block_take le_mod_geq)
  qed (simp add: absorb_short 1)
qed

lemma length_memcpy [simp]: "offset + length source \<le> length buffer \<Longrightarrow> length (memcpy offset source buffer) = length buffer"
  by (simp add: memcpy_def)

lemma take_memcpy: "take (offset + length source) (memcpy offset source buffer) = take offset buffer @ source"
  if "offset \<le> length buffer"
  using that by (simp add: memcpy_def)

lemma keccak_blocks_spec:
  assumes "length (ctx_hash ctx) = 25" and "length (ctx_message ctx) = 192" and "unat n \<le> length msg"
  shows "\<exists>h m. keccak_blocks addr msg n ctx = ctx\<lparr>ctx_hash := h, ctx_message := m\<rparr> \<and> length m = 192
    \<and> (h, take (unat n mod 136) m) = absorb (ctx_hash ctx) (take (unat n) msg)"
  using assms
proof (induction addr msg n ctx rule: keccak_blocks.induct)
  case (1 addr msg n ctx)
  show ?case
  proof (cases "of_nat BLOCK_SIZE \<le> n")
    case True
    then have n: "136 \<le> unat n" by (simp add: word_le_nat_alt block_size_word)
    let ?h = "absorb_block (ctx_hash ctx) msg"
    have tail: "unat (n - of_nat BLOCK_SIZE) \<le> length (drop BLOCK_SIZE msg)"
      using size_minus_block [OF True] 1(5) by (simp add: BLOCK_SIZE_def)
    have goal: "\<exists>h m. c = ctx\<lparr>ctx_hash := h, ctx_message := m\<rparr> \<and> length m = 192
        \<and> (h, take (unat n mod 136) m) = absorb (ctx_hash ctx) (take (unat n) msg)"
      if "\<exists>h m. c = ctx\<lparr>ctx_hash := h, ctx_message := m\<rparr> \<and> length m = 192
        \<and> (h, take (unat (n - of_nat BLOCK_SIZE) mod 136) m) = absorb ?h (take (unat (n - of_nat BLOCK_SIZE)) (drop BLOCK_SIZE msg))" for c
    proof -
      have "absorb (ctx_hash ctx) (take (unat n) msg) = absorb ?h (take (unat n - 136) (drop 136 msg))"
        using absorb_long [of "take (unat n) msg" "ctx_hash ctx"] n 1(5) absorb_block_take [of "take (unat n) msg"] absorb_block_take [of msg]
        by (simp add: drop_take min_def)
      then show ?thesis using that size_minus_block [OF True] n by (simp add: BLOCK_SIZE_def le_mod_geq)
    qed
    show ?thesis
    proof (cases "addr mod 8 = 0")
      case aligned: True
      have "keccak_blocks addr msg n ctx = keccak_blocks (addr + BLOCK_SIZE) (drop BLOCK_SIZE msg) (n - of_nat BLOCK_SIZE)
          (ctx\<lparr>ctx_hash := ?h\<rparr>)" using True aligned 1(3) by (subst keccak_blocks.simps) (simp add: process_block_spec)
      moreover note 1(1) [OF True aligned]
      ultimately show ?thesis using goal tail 1(3,4) by (simp add: process_block_spec)
    next
      case unaligned: False
      let ?m = "memcpy 0 (take BLOCK_SIZE msg) (ctx_message ctx)"
      have m: "length ?m = 192" "absorb_block (ctx_hash ctx) ?m = ?h"
        using 1(4,5) n absorb_block_prefix [of "take 136 msg"] absorb_block_take [of msg] by (simp_all add: BLOCK_SIZE_def memcpy_def)
      have "keccak_blocks addr msg n ctx = keccak_blocks (addr + BLOCK_SIZE) (drop BLOCK_SIZE msg) (n - of_nat BLOCK_SIZE)
          (ctx\<lparr>ctx_message := ?m, ctx_hash := ?h\<rparr>)" using True unaligned 1(3) m
        by (subst keccak_blocks.simps) (simp add: process_block_spec)
      moreover note 1(2) [OF True unaligned refl]
      ultimately show ?thesis using goal tail 1(3) m by (simp add: process_block_spec)
    qed
  next
    case False
    then have n: "unat n < 136" by (simp add: word_le_nat_alt block_size_word)
    let ?m = "if n \<noteq> 0 then memcpy 0 (take (unat n) msg) (ctx_message ctx) else ctx_message ctx"
    have "keccak_blocks addr msg n ctx = ctx\<lparr>ctx_hash := ctx_hash ctx, ctx_message := ?m\<rparr>"
      using False by (subst keccak_blocks.simps) simp
    moreover have "length ?m = 192" using 1(4,5) n by simp
    moreover have "take (unat n) ?m = take (unat n) msg" using 1(4,5) by (simp add: memcpy_def)
    ultimately show ?thesis using n absorb_short [of "take (unat n) msg" "ctx_hash ctx"]
      by (intro exI [of _ "ctx_hash ctx"] exI [of _ ?m]) simp
  qed
qed

lemma new_rest: "unat (of_nat ((k + m) mod BLOCK_SIZE) :: 16 word) = (k + m) mod 136"
proof -
  have "(k + m) mod 136 < 136" by simp
  then have "(k + m) mod 136 < 2 ^ LENGTH(16)" by (rule less_trans) simp
  then show ?thesis by (simp add: BLOCK_SIZE_def unat_of_nat)
qed

lemma ctx_after_blocks:
  assumes "length (ctx_hash ctx) = 25" and "length (ctx_message ctx) = 192" and "unat n \<le> length msg"
    and "unat (ctx_rest ctx) = unat n mod 136"
  shows "ctx_inv (keccak_blocks addr msg n ctx)
    \<and> ctx_abs (keccak_blocks addr msg n ctx) = absorb (ctx_hash ctx) (take (unat n) msg)"
proof -
  obtain h m where "keccak_blocks addr msg n ctx = ctx\<lparr>ctx_hash := h, ctx_message := m\<rparr>" "length m = 192"
    "absorb (ctx_hash ctx) (take (unat n) msg) = (h, take (unat n mod 136) m)"
    using keccak_blocks_spec [OF assms(1-3), of addr] by auto
  then show ?thesis using absorb_fields [OF assms(1), of "take (unat n) msg"] assms(4) by (simp add: ctx_inv_def ctx_abs_def)
qed

lemma keccak_update_spec:
  assumes inv: "ctx_inv ctx" and n: "unat n \<le> length msg"
  shows "ctx_inv (keccak_update addr msg n ctx)
    \<and> ctx_abs (keccak_update addr msg n ctx) = absorb (ctx_hash ctx) (snd (ctx_abs ctx) @ take (unat n) msg)"
proof -
  let ?idx = "unat (ctx_rest ctx)"
  let ?ctx = "ctx\<lparr>ctx_rest := of_nat ((?idx + unat n) mod BLOCK_SIZE)\<rparr>"
  have idx: "?idx < 136" and len: "length (ctx_hash ctx) = 25" "length (ctx_message ctx) = 192" using inv by (auto simp: ctx_inv_def)
  show ?thesis
  proof (cases "ctx_rest ctx = 0")
    case True
    then show ?thesis using ctx_after_blocks [of ?ctx n msg addr] n len new_rest [of 0 "unat n"]
      by (simp add: keccak_update_def ctx_abs_def)
  next
    case False
    let ?left = "of_nat (BLOCK_SIZE - ?idx) :: 16 word"
    have left: "unat ?left = 136 - ?idx" by (simp only: unat_of_nat BLOCK_SIZE_def) simp
    let ?p = "take ?idx (ctx_message ctx)"
    have p: "length ?p = ?idx" "snd (ctx_abs ctx) = ?p" using idx len by (simp_all add: ctx_abs_def)
    show ?thesis
    proof (cases "n < ?left")
      case small: True
      then have k: "?idx + unat n < 136" using left idx by (simp add: word_less_nat_alt)
      let ?m = "memcpy ?idx (take (unat n) msg) (ctx_message ctx)"
      have "keccak_update addr msg n ctx = ?ctx\<lparr>ctx_message := ?m\<rparr>" using False small by (simp add: keccak_update_def Let_def)
      moreover have "take (?idx + unat n) ?m = ?p @ take (unat n) msg" "length ?m = 192"
        using take_memcpy [of ?idx "ctx_message ctx" "take (unat n) msg"] idx n len k by simp_all
      ultimately show ?thesis using absorb_short [of "?p @ take (unat n) msg" "ctx_hash ctx"] new_rest [of ?idx "unat n"] k p len n
        by (simp add: ctx_inv_def ctx_abs_def)
    next
      case large: False
      then have k: "136 - ?idx \<le> unat n" and minus: "unat (n - ?left) = unat n - (136 - ?idx)"
        using left by (simp_all add: word_less_nat_alt unat_sub word_le_nat_alt)
      let ?b = "?p @ take (136 - ?idx) msg"
      let ?m = "memcpy ?idx (take (136 - ?idx) msg) (ctx_message ctx)"
      have b: "length ?b = 136" using p k n idx by simp
      have m: "length ?m = 192" "absorb_block (ctx_hash ctx) ?m = absorb_block (ctx_hash ctx) ?b"
        using absorb_block_prefix [of ?b "ctx_hash ctx"] b idx n k len by (simp_all add: memcpy_def)
      let ?c = "?ctx\<lparr>ctx_message := ?m, ctx_hash := absorb_block (ctx_hash ctx) ?b\<rparr>"
      let ?a = "addr + (136 - ?idx)" and ?d = "drop (136 - ?idx) msg"
      have upd: "keccak_update addr msg n ctx = keccak_blocks ?a ?d (n - ?left) ?c"
        using False large left m len by (simp add: keccak_update_def process_block_spec Let_def)
      have "ctx_inv (keccak_blocks ?a ?d (n - ?left) ?c)
          \<and> ctx_abs (keccak_blocks ?a ?d (n - ?left) ?c) = absorb (ctx_hash ?c) (take (unat (n - ?left)) ?d)"
      proof (rule ctx_after_blocks)
        show "unat (n - ?left) \<le> length ?d" using diff_le_mono [OF n, of "136 - ?idx"] minus by simp
        have "?idx + unat n = 136 + (unat n - (136 - ?idx))" using k idx by simp
        then have "(?idx + unat n) mod 136 = (unat n - (136 - ?idx)) mod 136" by (metis mod_add_self1)
        then show "unat (ctx_rest ?c) = unat (n - ?left) mod 136" using new_rest [of ?idx "unat n"] minus by simp
      qed (use m in simp_all)
      moreover have "?p @ take (unat n) msg = ?b @ take (unat (n - ?left)) ?d" using k minus by (simp add: take_add [symmetric])
      ultimately show ?thesis by (simp add: upd p(2)) (simp only: absorb_full [OF b] append_assoc [symmetric])
    qed
  qed
qed

lemma keccak_final_spec:
  assumes "ctx_inv ctx"
  shows "snd (keccak_final ctx) = take 32 (le_str (absorb_block (ctx_hash ctx) (keccak_pad (snd (ctx_abs ctx)))))"
proof -
  let ?r = "unat (ctx_rest ctx)"
  let ?p = "take ?r (ctx_message ctx)"
  let ?m = "memcpy ?r (replicate (BLOCK_SIZE - ?r) 0) (ctx_message ctx)"
  let ?m1 = "?m[?r := ?m ! ?r OR 0x01]"
  let ?m2 = "?m1[BLOCK_SIZE - 1 := ?m1 ! (BLOCK_SIZE - 1) OR 0x80]"
  have r: "?r < 136" and len: "length (ctx_hash ctx) = 25" "length (ctx_message ctx) = 192" using assms by (auto simp: ctx_inv_def)
  have "take 136 ?m2 = keccak_pad ?p"
    by (rule nth_equalityI)
      (use r len in \<open>auto simp: keccak_pad_def BLOCK_SIZE_def memcpy_def nth_append nth_list_update nth_Cons split: nat.splits\<close>)
  then have "absorb_block (ctx_hash ctx) ?m2 = absorb_block (ctx_hash ctx) (keccak_pad ?p)"
    using absorb_block_take [of ?m2 "ctx_hash ctx"] r len by (simp add: BLOCK_SIZE_def)
  then show ?thesis using len by (simp add: keccak_final_def process_block_spec ctx_abs_def BLOCK_SIZE_def Let_def)
qed

lemma keccak_pieces:
  assumes "list_all (\<lambda>(addr, m). length m < 2 ^ 16) pieces" and "ctx_inv ctx"
  shows "ctx_inv (fold (\<lambda>(addr, m). keccak_update addr m (of_nat (length m))) pieces ctx)
    \<and> ctx_abs (fold (\<lambda>(addr, m). keccak_update addr m (of_nat (length m))) pieces ctx)
      = absorb (ctx_hash ctx) (snd (ctx_abs ctx) @ concat (map snd pieces))"
  using assms
proof (induction pieces arbitrary: ctx)
  case Nil
  then show ?case by (simp add: ctx_abs_def ctx_inv_def absorb_short)
next
  case (Cons piece pieces)
  obtain addr m where piece: "piece = (addr, m)" by (cases piece)
  have n: "unat (of_nat (length m) :: 16 word) = length m" using Cons.prems(1) piece by (simp add: unat_of_nat)
  let ?ctx = "keccak_update addr m (of_nat (length m)) ctx"
  have step: "ctx_inv ?ctx" "ctx_abs ?ctx = absorb (ctx_hash ctx) (snd (ctx_abs ctx) @ m)"
    using keccak_update_spec [OF Cons.prems(2), of "of_nat (length m)" m addr] n by simp_all
  have "absorb (ctx_hash ctx) (snd (ctx_abs ctx) @ m @ concat (map snd pieces))
      = absorb (ctx_hash ?ctx) (snd (ctx_abs ?ctx) @ concat (map snd pieces))"
    using absorb_append [of "ctx_hash ctx" "snd (ctx_abs ctx) @ m" "concat (map snd pieces)"] step(2)
    by (auto simp: ctx_abs_def split: prod.splits)
  then show ?case using Cons.IH [OF _ step(1)] Cons.prems(1) piece by simp
qed

lemma ctx_init: "ctx_inv keccak_init" "ctx_hash keccak_init = replicate 25 0" "ctx_abs keccak_init = (replicate 25 0, [])"
  by (simp_all add: ctx_inv_def ctx_abs_def keccak_init_def)

lemma keccak_stream:
  assumes "list_all (\<lambda>(addr, m). length m < 2 ^ 16) ps"
  shows "snd (keccak_final (fold (\<lambda>(addr, m). keccak_update addr m (of_nat (length m))) ps keccak_init))
      = spec_keccak256 (concat (map snd ps))" (is "snd (keccak_final ?ctx) = _")
proof -
  have "ctx_inv ?ctx" and "absorb (replicate 25 0) (concat (map snd ps)) = ctx_abs ?ctx"
    using keccak_pieces [OF assms ctx_init(1)] by (simp_all add: ctx_init)
  moreover have "fst (ctx_abs ?ctx) = ctx_hash ?ctx" by (simp add: ctx_abs_def)
  ultimately show ?thesis using keccak_final_spec [of ?ctx] by (simp add: spec_keccak256_def case_prod_beta)
qed

lemma keccak256_compute_spec:
  assumes "length data < 2 ^ 16"
  shows "keccak256_compute addr data = spec_keccak256 data" and "length (keccak256_compute addr data) = 32"
proof -
  show compute: "keccak256_compute addr data = spec_keccak256 data"
    using keccak_stream [of "[(addr, data)]"] assms by (simp add: keccak256_compute_def)
  have "length (le_str B) = 8 * length B" for B by (induction B) (simp_all add: le_str_def)
  then have "length (spec_keccak256 data) = 32" by (simp add: spec_keccak256_def split: prod.splits)
  then show "length (keccak256_compute addr data) = 32" using compute by simp
qed

text \<open>
  The length of the data is passed in 16 bits, so longer data is hashed as if it ended early: the
  64 KiB of zero bytes, for example, have the hash of the empty string.
\<close>

lemma keccak256_truncates:
  "length data = 2 ^ 16 \<Longrightarrow> keccak256_compute addr data = keccak256_compute addr []"
  by (simp add: keccak256_compute_def keccak_update_def keccak_init_def keccak_blocks.simps BLOCK_SIZE_def)

section \<open>Properties\<close>

text \<open>
  C20: the Keccak-256 of the program is the one of the specification: however a message is cut into
  pieces of less than 64 KiB, and wherever these lie in memory, the context ends with the digest
  of the padded message under the specified permutation. The packed tables for the rotation
  offsets, the lane permutation and the round constants are those of the specification.
\<close>

theorem keccak256_correct:
  assumes "list_all (\<lambda>(addr, m). length m < 2 ^ 16) pieces" and "length data < 2 ^ 16"
  shows "snd (keccak_final (fold (\<lambda>(addr, m). keccak_update addr m (of_nat (length m))) pieces keccak_init))
      = spec_keccak256 (concat (map snd pieces))
    \<and> keccak256_compute addr data = spec_keccak256 data
    \<and> length (keccak256_compute addr data) = 32"
  using keccak_stream [OF assms(1)] keccak256_compute_spec [OF assms(2)] by simp

theorem keccak256_correct_witness:
  "keccak256_compute 3 (replicate 300 7) = spec_keccak256 (replicate 300 7)
   \<and> snd (keccak_final (keccak_update 1 [8] 1 (keccak_update 0 (replicate 300 7) 300 keccak_init))) = spec_keccak256 (replicate 300 7 @ [8])"
  using keccak256_correct [of "[(0, replicate 300 7), (1, [8])]" "replicate 300 7" 3] by simp

end
