(* ===== verification/Hashes.thy ===== *)
theory Hashes
  imports Keccak
begin

text \<open>
  The other value classes of \<^verbatim>\<open>src/base/hash.cpp\<close>: \<^verbatim>\<open>Sha1\<close>, \<^verbatim>\<open>Ripemd160\<close>, \<^verbatim>\<open>Keccak256\<close> and \<^verbatim>\<open>Sha3\<close>, whose digest lengths
  differ. The first three wrap a byte string of fixed length; what they have in common is the
  locale \<open>fixed_hash\<close>, which \<^verbatim>\<open>Sha256\<close> satisfies too. The digests of OpenSSL are fields of \<open>digest_ext\<close>.
\<close>

section \<open>Digests of fixed length\<close>

datatype sha3_type = Sha3Type224 | Sha3Type256 | Sha3Type384 | Sha3Type512

record digest_ext =
  SHA1 :: "bytes \<Rightarrow> bytes"
  EVP_sha3 :: "sha3_type \<Rightarrow> bytes \<Rightarrow> bytes option"

definition sha1_of :: "bytes \<Rightarrow> bytes res" where
  "sha1_of data = rbind (fixed_bytes 20 data) (\<lambda>bs. if length bs \<noteq> 20 then Inl InvalidArgument else Inr bs)"

definition sha1_toHex :: "bytes \<Rightarrow> string" where
  "sha1_toHex h = toHex h"

definition sha1_fromHex :: "string \<Rightarrow> bytes res" where
  "sha1_fromHex hex_view = rbind (fromHex hex_view) sha1_of"

definition sha1_compute :: "digest_ext \<Rightarrow> bytes \<Rightarrow> bytes" where
  "sha1_compute D data = SHA1 D data"

definition serialize_sha1 :: "bytes serializer" where
  "serialize_sha1 h = serialize_fixed h"

definition deserialize_sha1 :: "bytes deserializer" where
  "deserialize_sha1 ia = deserialize_fixed 20 ia"

definition ripemd160_of :: "bytes \<Rightarrow> bytes res" where
  "ripemd160_of data = rbind (fixed_bytes 20 data) (\<lambda>bs. if length bs \<noteq> 20 then Inl InvalidArgument else Inr bs)"

definition ripemd160_toHex :: "bytes \<Rightarrow> string" where
  "ripemd160_toHex h = toHex h"

definition ripemd160_fromHex :: "string \<Rightarrow> bytes res" where
  "ripemd160_fromHex hex_view = rbind (fromHex hex_view) ripemd160_of"

definition serialize_ripemd160 :: "bytes serializer" where
  "serialize_ripemd160 h = serialize_fixed h"

definition deserialize_ripemd160 :: "bytes deserializer" where
  "deserialize_ripemd160 ia = deserialize_fixed 20 ia"

definition keccak256_of :: "bytes \<Rightarrow> bytes res" where
  "keccak256_of data = rbind (fixed_bytes 32 data) (\<lambda>bs. if length bs \<noteq> 32 then Inl InvalidArgument else Inr bs)"

definition keccak256_toHex :: "bytes \<Rightarrow> string" where
  "keccak256_toHex h = toHex h"

definition keccak256_fromHex :: "string \<Rightarrow> bytes res" where
  "keccak256_fromHex hex_view = rbind (fromHex hex_view) keccak256_of"

definition serialize_keccak256 :: "bytes serializer" where
  "serialize_keccak256 h = serialize_fixed h"

definition deserialize_keccak256 :: "bytes deserializer" where
  "deserialize_keccak256 ia = deserialize_fixed 32 ia"

section \<open>SHA-3\<close>

record sha3 =
  sha3_type :: sha3_type
  sha3_bytes :: bytes

fun sha3_type_size :: "sha3_type \<Rightarrow> nat" where
  "sha3_type_size Sha3Type224 = 28"
| "sha3_type_size Sha3Type256 = 32"
| "sha3_type_size Sha3Type384 = 48"
| "sha3_type_size Sha3Type512 = 64"

definition getSha3Type :: "nat \<Rightarrow> sha3_type res" where
  "getSha3Type n =
     (if n = sha3_type_size Sha3Type224 then Inr Sha3Type224
      else if n = sha3_type_size Sha3Type256 then Inr Sha3Type256
      else if n = sha3_type_size Sha3Type384 then Inr Sha3Type384
      else if n = sha3_type_size Sha3Type512 then Inr Sha3Type512
      else Inl InvalidArgument)"

definition mk_Sha3 :: "bytes \<Rightarrow> sha3 res" where
  "mk_Sha3 data = rbind (getSha3Type (length data)) (\<lambda>type. Inr \<lparr>sha3_type = type, sha3_bytes = data\<rparr>)"

definition sha3_toHex :: "sha3 \<Rightarrow> string" where
  "sha3_toHex h = toHex (sha3_bytes h)"

definition sha3_fromHex :: "string \<Rightarrow> sha3 res" where
  "sha3_fromHex hex_view = rbind (fromHex hex_view) mk_Sha3"

definition sha3_eq :: "sha3 \<Rightarrow> sha3 \<Rightarrow> bool" where
  "sha3_eq a b \<longleftrightarrow> sha3_bytes a = sha3_bytes b"

text \<open>Each of the three calls of the digest interface may fail; the length it reports is asserted.\<close>

definition sha3_compute :: "digest_ext \<Rightarrow> bytes \<Rightarrow> sha3_type \<Rightarrow> sha3 res" where
  "sha3_compute D data type =
     (case EVP_sha3 D type data of
        None \<Rightarrow> Inl CryptoError
      | Some ret \<Rightarrow> assert_that (sha3_type_size type = length ret) (mk_Sha3 ret))"

definition serialize_sha3 :: "sha3 serializer" where
  "serialize_sha3 h = serialize_bytes (sha3_bytes h)"

definition deserialize_sha3 :: "sha3 deserializer" where
  "deserialize_sha3 ia = rbind (deserialize_bytes ia) (\<lambda>(data, ia). rbind (mk_Sha3 data) (\<lambda>h. Inr (h, ia)))"

section \<open>What the classes share\<close>

locale fixed_hash = codec "\<lambda>h. length h = n" ser deser
  for n :: nat
    and ser :: "bytes serializer"
    and deser :: "bytes deserializer" +
  fixes of_bytes :: "bytes \<Rightarrow> bytes res"
    and to_hex :: "bytes \<Rightarrow> string"
    and from_hex :: "string \<Rightarrow> bytes res"
  assumes of_bytes: "of_bytes d = (if length d = n then Inr d else Inl InvalidArgument)"
    and to_hex: "to_hex h = toHex h"
    and from_hex: "from_hex s = rbind (fromHex s) of_bytes"
begin

lemma from_to_hex: "length h = n \<Longrightarrow> from_hex (to_hex h) = Inr h"
  by (simp add: from_hex to_hex of_bytes)

lemma from_hex_length: "from_hex s = Inr h \<Longrightarrow> length h = n"
  by (auto simp: from_hex of_bytes rbind_eq_Inr split: if_splits)

end

interpretation sha1_io: codec "\<lambda>h. length h = 20" serialize_sha1 deserialize_sha1
  using codec_fixed [of 20] by (simp add: serialize_sha1_def [abs_def] deserialize_sha1_def [abs_def])

interpretation ripemd160_io: codec "\<lambda>h. length h = 20" serialize_ripemd160 deserialize_ripemd160
  using codec_fixed [of 20] by (simp add: serialize_ripemd160_def [abs_def] deserialize_ripemd160_def [abs_def])

interpretation keccak256_io: codec "\<lambda>h. length h = 32" serialize_keccak256 deserialize_keccak256
  using codec_fixed [of 32] by (simp add: serialize_keccak256_def [abs_def] deserialize_keccak256_def [abs_def])

interpretation sha256_class: fixed_hash 32 serialize_sha256 deserialize_sha256 sha256_of sha256_toHex sha256_fromHex
  by unfold_locales (simp_all add: sha256_of_eq sha256_toHex_def sha256_fromHex_def)

interpretation sha1_class: fixed_hash 20 serialize_sha1 deserialize_sha1 sha1_of sha1_toHex sha1_fromHex
  by unfold_locales (simp_all add: sha1_of_def fixed_bytes_def sha1_toHex_def sha1_fromHex_def)

interpretation ripemd160_class:
  fixed_hash 20 serialize_ripemd160 deserialize_ripemd160 ripemd160_of ripemd160_toHex ripemd160_fromHex
  by unfold_locales (simp_all add: ripemd160_of_def fixed_bytes_def ripemd160_toHex_def ripemd160_fromHex_def)

interpretation keccak256_class:
  fixed_hash 32 serialize_keccak256 deserialize_keccak256 keccak256_of keccak256_toHex keccak256_fromHex
  by unfold_locales (simp_all add: keccak256_of_def fixed_bytes_def keccak256_toHex_def keccak256_fromHex_def)

lemma getSha3Type_size [simp]: "getSha3Type (sha3_type_size t) = Inr t"
  by (cases t) (simp_all add: getSha3Type_def)

definition wf_sha3 :: "sha3 \<Rightarrow> bool" where
  "wf_sha3 h \<longleftrightarrow> length (sha3_bytes h) = sha3_type_size (sha3_type h)"

lemma mk_Sha3_sized: "sha3_type_size t = length data \<Longrightarrow> mk_Sha3 data = Inr \<lparr>sha3_type = t, sha3_bytes = data\<rparr>"
  using getSha3Type_size [of t] by (simp add: mk_Sha3_def)

lemma mk_Sha3_wf: "mk_Sha3 data = Inr h \<Longrightarrow> wf_sha3 h \<and> sha3_bytes h = data"
  by (auto simp: mk_Sha3_def wf_sha3_def getSha3Type_def split: if_splits)

lemma mk_Sha3_bytes: "wf_sha3 h \<Longrightarrow> mk_Sha3 (sha3_bytes h) = Inr h"
  by (simp add: mk_Sha3_def wf_sha3_def)

interpretation sha3_io: codec wf_sha3 serialize_sha3 deserialize_sha3
proof
  fix h oa
  show "serialize_sha3 h oa = oa @ serialize_sha3 h []" unfolding serialize_sha3_def by (rule bytes_io.ser_append)
next
  fix h pre post
  assume "wf_sha3 h"
  then have "length (sha3_bytes h) < 2 ^ 63" by (cases "sha3_type h") (simp_all add: wf_sha3_def)
  from bytes_io.deser_ser [OF this] mk_Sha3_bytes [OF \<open>wf_sha3 h\<close>]
  show "deserialize_sha3 (arch pre (serialize_sha3 h [] @ post)) = Inr (h, arch (pre @ serialize_sha3 h []) post)"
    by (simp add: serialize_sha3_def deserialize_sha3_def)
qed

text \<open>
  A SHA-3 value always has the length of its type: constructing, computing and reading one keep
  it, so the type is determined by the bytes and comparing the bytes is enough.
\<close>

lemma sha3_values:
  shows "sha3_compute D data type = Inr h \<Longrightarrow> wf_sha3 h \<and> sha3_type h = type"
    and "sha3_fromHex s = Inr h \<Longrightarrow> wf_sha3 h"
    and "wf_sha3 h \<Longrightarrow> sha3_fromHex (sha3_toHex h) = Inr h"
    and "wf_sha3 h \<Longrightarrow> wf_sha3 h' \<Longrightarrow> sha3_eq h h' \<longleftrightarrow> h = h'"
proof -
  show "wf_sha3 h \<and> sha3_type h = type" if "sha3_compute D data type = Inr h"
    using that by (auto simp: sha3_compute_def mk_Sha3_sized wf_sha3_def assert_that_def split: option.splits if_splits)
  show "wf_sha3 h" if "sha3_fromHex s = Inr h" using that mk_Sha3_wf by (auto simp: sha3_fromHex_def rbind_eq_Inr)
  show "sha3_fromHex (sha3_toHex h) = Inr h" if "wf_sha3 h" using that by (simp add: sha3_fromHex_def sha3_toHex_def mk_Sha3_bytes)
  show "sha3_eq h h' \<longleftrightarrow> h = h'" if "wf_sha3 h" "wf_sha3 h'"
    unfolding sha3_eq_def using mk_Sha3_bytes [OF that(1)] mk_Sha3_bytes [OF that(2)] by (metis sum.inject(2))
qed

end
