(* ===== verification/Contracts.thy ===== *)
theory Contracts
  imports PropertyTree Regex Encoder Hashes
begin

text \<open>
  The tools for contracts: compiling a Solidity file (\<^verbatim>\<open>src/vm/vm.cpp\<close>), and turning a call into the data of a transaction and
  an output back into text with the metadata of a compiled contract (\<^verbatim>\<open>src/vm/tools.cpp\<close>). The processes of the compiler
  and of Python, the environment and the loader of the virtual machine are the fields of \<open>toolchain\<close>.
\<close>

text \<open>
  A process that starts gives its output, how many of its lines can be read while it still
  runs, and its exit code. \<open>tc_regex\<close> gives the matches for a method name that is not just letters, digits and
  underscores; \<open>None\<close> is a malformed expression. \<open>tc_addr\<close> is where bytes lie in memory.
\<close>

record toolchain =
  tc_ptree :: ptree_lib
  tc_python :: python
  tc_inittab :: bool
  tc_import :: bool
  tc_regex :: "string \<Rightarrow> string \<Rightarrow> string list option"
  tc_addr :: "bytes \<Rightarrow> nat"
  tc_search_path :: "string \<Rightarrow> string"
  tc_process :: "string \<Rightarrow> string list \<Rightarrow> (string \<times> nat \<times> int) option"
  tc_getenv :: "string \<Rightarrow> string option"

section \<open>Reading what the compiler has written\<close>

definition ID_METHOD_SIZE :: nat where
  "ID_METHOD_SIZE = 8"

definition treeToString :: "toolchain \<Rightarrow> ptree \<Rightarrow> string res" where
  "treeToString T t = (case write_json (tc_ptree T) t of Some text \<Rightarrow> Inr text | None \<Rightarrow> Inl StdRuntimeError)"

definition loadContractData :: "toolchain \<Rightarrow> files \<Rightarrow> string \<Rightarrow> (bytes \<times> ptree) res" where
  "loadContractData T fs path =
     (let compiled_file_path = path_append path ''compiled_code.bin'';
          contract_metadata = path_append path ''metadata.json''
      in if \<not> fs_exists fs compiled_file_path then Inl InvalidArgument
         else let bytecode = string_to_bytes (case fs compiled_file_path of Some (Regular_file text) \<Rightarrow> text | _ \<Rightarrow> [])
         in if \<not> fs_exists fs contract_metadata then Inl InvalidArgument
            else case (case fs contract_metadata of Some (Regular_file text) \<Rightarrow> read_json (tc_ptree T) text | _ \<Rightarrow> None) of
                   None \<Rightarrow> Inl RuntimeError
                 | Some metadata \<Rightarrow> Inr (bytecode, metadata))"

definition parseCall :: "string \<Rightarrow> (string \<times> string) res" where
  "parseCall call_string =
     (case str_find ''('' call_string of
        None \<Rightarrow> Inl InvalidArgument
      | Some first_bracket_pos \<Rightarrow>
          if last call_string \<noteq> CHR '')'' then Inl InvalidArgument
          else Inr (take first_bracket_pos call_string,
                    ''['' @ take (length call_string - first_bracket_pos - 2) (drop (first_bracket_pos + 1) call_string) @ '']''))"

text \<open>The clauses that turn a bad path into an invalid argument\<close>

definition catch_bad_path :: "'a res \<Rightarrow> 'a res" where
  "catch_bad_path r = (case r of Inl e \<Rightarrow> if e = bad_path then Inl InvalidArgument else Inl e | Inr x \<Rightarrow> Inr x)"

text \<open>Changing a tree through the references that a loop has: at the children of a node, and at a path\<close>

fun map_children :: "(ptree \<Rightarrow> ptree res) \<Rightarrow> (string \<times> ptree) list \<Rightarrow> (string \<times> ptree) list res" where
  "map_children f [] = Inr []"
| "map_children f ((k, t) # kts) = rbind (f t) (\<lambda>t. rbind (map_children f kts) (\<lambda>kts. Inr ((k, t) # kts)))"

definition for_children :: "(ptree \<Rightarrow> ptree res) \<Rightarrow> ptree \<Rightarrow> ptree res" where
  "for_children f t = rbind (map_children f (pt_children t)) (\<lambda>kts. Inr (PTree (pt_data t) kts))"

definition at_path :: "toolchain \<Rightarrow> string \<Rightarrow> (ptree \<Rightarrow> ptree res) \<Rightarrow> ptree \<Rightarrow> ptree res" where
  "at_path T path f t = rbind (get_child (tc_ptree T) t path) (\<lambda>c. rbind (f c) (\<lambda>c. Inr (put_child (tc_ptree T) path c t)))"

definition modify_input :: "toolchain \<Rightarrow> ptree \<Rightarrow> ptree res" where
  "modify_input T inputs =
     rbind (pt_get (tc_ptree T) inputs ''type'') (\<lambda>type.
     if str_find ''address'' type \<noteq> None then
       let type = ''bytes32'' @ drop 7 type
       in Inr (put_value (tc_ptree T) ''internalType'' type (put_value (tc_ptree T) ''type'' type inputs))
     else Inr inputs)"

definition modifyMetadataAddress :: "toolchain \<Rightarrow> ptree \<Rightarrow> ptree res" where
  "modifyMetadataAddress T metadata = catch_bad_path
     (at_path T ''output.abi'' (for_children (at_path T ''inputs'' (for_children (modify_input T)))) metadata)"

section \<open>Method identifiers\<close>

fun input_types :: "toolchain \<Rightarrow> (string \<times> ptree) list \<Rightarrow> string list res" where
  "input_types T [] = Inr []"
| "input_types T ((_, input) # inputs) =
     rbind (pt_get (tc_ptree T) input ''type'') (\<lambda>type. rbind (input_types T inputs) (\<lambda>types. Inr (type # types)))"

text \<open>The name with its bracket, the types with a comma behind each, the last comma erased\<close>

definition signature_text :: "string \<Rightarrow> string list \<Rightarrow> string" where
  "signature_text prefix types =
     (let signature = prefix @ concat (map (\<lambda>t. t @ '','') types)
      in (if last signature = CHR '','' then butlast signature else signature) @ '')'')"

definition compute_keccak :: "toolchain \<Rightarrow> string \<Rightarrow> bytes" where
  "compute_keccak T s = (let data = string_to_bytes s in keccak256_compute (tc_addr T data) data)"

definition getMethodId :: "toolchain \<Rightarrow> ptree \<Rightarrow> string res" where
  "getMethodId T method_metadata = catch_bad_path
     (rbind (pt_get (tc_ptree T) method_metadata ''type'') (\<lambda>type.
      if type = ''function'' then
        rbind (pt_get (tc_ptree T) method_metadata ''name'') (\<lambda>name.
        rbind (get_child (tc_ptree T) method_metadata ''inputs'') (\<lambda>inputs.
        rbind (input_types T (pt_children inputs)) (\<lambda>types.
        Inr (take ID_METHOD_SIZE (keccak256_toHex (compute_keccak T (signature_text (name @ ''('') types)))))))
      else Inr []))"

definition methodHash :: "toolchain \<Rightarrow> ptree \<Rightarrow> bytes res" where
  "methodHash T method_abi =
     rbind (pt_get (tc_ptree T) method_abi ''type'') (\<lambda>type.
     rbind (if type = ''function'' then rbind (pt_get (tc_ptree T) method_abi ''name'') (\<lambda>name. Inr (name @ ''('')) else Inr ''constructor('') (\<lambda>method.
     rbind (get_child (tc_ptree T) method_abi ''inputs'') (\<lambda>inputs.
     rbind (input_types T (pt_children inputs)) (\<lambda>types.
     Inr (compute_keccak T (signature_text method types))))))"

definition is_word_char :: "char \<Rightarrow> bool" where
  "is_word_char c \<longleftrightarrow> is_digit c \<or> (65 \<le> (of_char c :: nat) \<and> of_char c \<le> (90 :: nat))
     \<or> (97 \<le> (of_char c :: nat) \<and> of_char c \<le> (122 :: nat)) \<or> c = CHR ''_''"

definition function_pattern :: "string \<Rightarrow> atom list" where
  "function_pattern method_name = lit (''<Function '' @ method_name @ ''('') @ Star (\<lambda>c. c \<noteq> CHR '' '') # lit '')>''"

definition function_matches :: "toolchain \<Rightarrow> string \<Rightarrow> string \<Rightarrow> string list res" where
  "function_matches T methods method_name =
     (if list_all is_word_char method_name then Inr (re_iter (function_pattern method_name) methods)
      else case tc_regex T method_name methods of Some ms \<Rightarrow> Inr ms | None \<Rightarrow> Inl StdRuntimeError)"

fun first_signature :: "string \<Rightarrow> string list \<Rightarrow> string res" where
  "first_signature method_name [] = Inl LogicError"
| "first_signature method_name (matched_world # rest) =
     (case str_find method_name matched_world of
        Some pos \<Rightarrow> Inr (take (length matched_world - pos - 1) (drop pos matched_world))
      | None \<Rightarrow> first_signature method_name rest)"

definition getMethodSignature :: "toolchain \<Rightarrow> string \<Rightarrow> string \<Rightarrow> string res" where
  "getMethodSignature T methods method_name = rbind (function_matches T methods method_name) (first_signature method_name)"

text \<open>The inputs of the method that is found are replaced by its outputs, and its identifier in the data by the new one.\<close>

fun find_method :: "toolchain \<Rightarrow> string \<Rightarrow> (string \<times> ptree) list \<Rightarrow> (ptree \<times> string) res" where
  "find_method T data [] = Inl InvalidArgument"
| "find_method T data ((_, abi) # rest) =
     rbind (pt_get (tc_ptree T) abi ''type'') (\<lambda>type.
     if type = ''function'' then
       rbind (getMethodId T abi) (\<lambda>method_id.
       if method_id = take ID_METHOD_SIZE data then
         rbind (get_child (tc_ptree T) abi ''outputs'') (\<lambda>outputs.
         let changed_metadata = put_child (tc_ptree T) ''inputs'' outputs abi in
         rbind (getMethodId T changed_metadata) (\<lambda>new_method_id.
         if length data < ID_METHOD_SIZE then Inl StdOutOfRange
         else Inr (changed_metadata, new_method_id @ drop ID_METHOD_SIZE data)))
       else find_method T data rest)
     else find_method T data rest)"

definition getMethodInfo :: "toolchain \<Rightarrow> ptree \<Rightarrow> string \<Rightarrow> (ptree \<times> string) res" where
  "getMethodInfo T metadata data = catch_bad_path
     (rbind (get_child (tc_ptree T) metadata ''output.abi'') (\<lambda>abi. find_method T data (pt_children abi)))"

section \<open>Addresses in calls and outputs\<close>

fun is_address_output :: "toolchain \<Rightarrow> (string \<times> ptree) list \<Rightarrow> bool res" where
  "is_address_output T [] = Inr False"
| "is_address_output T ((_, output) # outputs) =
     rbind (pt_get (tc_ptree T) output ''type'') (\<lambda>type. if str_find ''address'' type \<noteq> None then Inr True else is_address_output T outputs)"

definition outputIsAddress :: "toolchain \<Rightarrow> ptree \<Rightarrow> bool res" where
  "outputIsAddress T method_metadata =
     rbind (get_child (tc_ptree T) method_metadata ''outputs'') (\<lambda>outputs. is_address_output T (pt_children outputs))"

definition is_hex_char :: "char \<Rightarrow> bool" where
  "is_hex_char c \<longleftrightarrow> is_digit c \<or> (65 \<le> (of_char c :: nat) \<and> of_char c \<le> (70 :: nat)) \<or> (97 \<le> (of_char c :: nat) \<and> of_char c \<le> (102 :: nat))"

definition address_pattern :: "atom list" where
  "address_pattern = lit ''0x'' @ replicate 40 (One is_hex_char)"

fun change_addresses :: "string list \<Rightarrow> string \<Rightarrow> string res" where
  "change_addresses [] changed_output = Inr changed_output"
| "change_addresses (matched_world # rest) changed_output =
     rbind (rbind (fromHex (drop 2 matched_world)) (fixed_bytes 20)) (\<lambda>raw_address.
     case str_find matched_world changed_output of
       None \<Rightarrow> Inl StdOutOfRange
     | Some pos \<Rightarrow> change_addresses rest (take pos changed_output @ base58Encode raw_address @ drop (pos + length matched_world) changed_output))"

definition changeAddressOutput :: "string \<Rightarrow> string res" where
  "changeAddressOutput output = change_addresses (re_iter address_pattern output) output"

definition is_space_char :: "char \<Rightarrow> bool" where
  "is_space_char c \<longleftrightarrow> (9 \<le> (of_char c :: nat) \<and> of_char c \<le> (13 :: nat)) \<or> c = CHR '' ''"

definition constructor_pattern :: "atom list" where
  "constructor_pattern =
     One (\<lambda>c. c = CHR ''('' \<or> c = CHR '','' \<or> is_space_char c \<or> c = CHR ''['') # lit ''Address(''
     @ [One is_word_char, Star is_word_char] @ lit '')''
     @ [One (\<lambda>c. c = CHR '')'' \<or> c = CHR '','' \<or> is_space_char c \<or> c = CHR '']'')]"

text \<open>More than 32 bytes make the length of the prefix wrap, beyond what a vector can hold.\<close>

fun replace_constructors :: "string list \<Rightarrow> string \<Rightarrow> string res" where
  "replace_constructors [] result = Inr result"
| "replace_constructors (matched_world # rest) result =
     (let constructor = take (length matched_world - 2) (drop 1 matched_world);
          base58_address = take (length constructor - 8 - 1) (drop 8 constructor)
      in rbind (base58Decode base58_address) (\<lambda>decoded_address.
         if length decoded_address > 32 then Inl StdLengthError
         else let hex_view_address = toHex (replicate (32 - length decoded_address) 0 @ decoded_address)
              in replace_constructors rest
                   (replace_all (''Address('' @ base58_address @ '')'') (CHR 0x22 # hex_view_address @ [CHR 0x22]) result)))"

definition replaceAddressConstructor :: "string \<Rightarrow> string res" where
  "replaceAddressConstructor call = replace_constructors (re_iter constructor_pattern call) call"

section \<open>Encoding and decoding\<close>

text \<open>
  What \<^verbatim>\<open>c_str\<close> passes on ends at the first null character. \<^verbatim>\<open>throw e\<close> throws a copy of the base class: an error of the
  program arrives as a plain \<^verbatim>\<open>base::Error\<close>.
\<close>

definition c_str :: "string \<Rightarrow> string" where
  "c_str s = takeWhile (\<lambda>c. c \<noteq> CHR 0x00) s"

definition rethrow :: "'a res \<Rightarrow> 'a res" where
  "rethrow r = (case r of Inl e \<Rightarrow> if is_base_error e then Inl BaseError else Inl e | Inr x \<Rightarrow> Inr x)"

definition encode_constructor :: "toolchain \<Rightarrow> bytes \<Rightarrow> ptree \<Rightarrow> string \<Rightarrow> string res" where
  "encode_constructor T bytecode metadata arguments =
     rbind (modifyMetadataAddress T metadata) (\<lambda>metadata.
     rbind (treeToString T metadata) (\<lambda>text.
     let encode_result = encodeMessageConstructor (tc_python T) (c_str arguments) (c_str (bytes_to_string bytecode)) (c_str text)
     in if length encode_result < ID_METHOD_SIZE then Inl RuntimeError else Inr (drop 2 encode_result)))"

definition encode_function :: "toolchain \<Rightarrow> bytes \<Rightarrow> ptree \<Rightarrow> string \<Rightarrow> string \<Rightarrow> string res" where
  "encode_function T bytecode metadata method arguments =
     rbind (treeToString T metadata) (\<lambda>text.
     let methods_signature = getMethodsByArguments (tc_python T) (c_str arguments) (c_str text)
     in if methods_signature = [] then Inl InvalidArgument
        else rbind (getMethodSignature T methods_signature method) (\<lambda>method_signature.
             let method_hash = compute_keccak T method_signature
             in rbind (modifyMetadataAddress T metadata) (\<lambda>metadata.
                rbind (treeToString T metadata) (\<lambda>text.
                let encode_result = encodeMessageFunction (tc_python T) (c_str method) (c_str arguments) (c_str (bytes_to_string bytecode)) (c_str text)
                in if length encode_result < ID_METHOD_SIZE then Inl RuntimeError
                   else Inr (take ID_METHOD_SIZE (keccak256_toHex method_hash) @ drop ID_METHOD_SIZE encode_result)))))"

definition encodeMessage :: "toolchain \<Rightarrow> files \<Rightarrow> string \<Rightarrow> string \<Rightarrow> string res" where
  "encodeMessage T fs contract_path data =
     (if \<not> tc_inittab T then Inl RuntimeError
      else if \<not> tc_import T then Inl RuntimeError
      else rethrow
        (rbind (loadContractData T fs contract_path) (\<lambda>(bytecode, metadata).
         rbind (parseCall data) (\<lambda>(method, arguments).
         if method = ''constructor'' then encode_constructor T bytecode metadata arguments
         else encode_function T bytecode metadata method arguments))))"

definition decodeMessage :: "toolchain \<Rightarrow> files \<Rightarrow> string \<Rightarrow> string \<Rightarrow> string res" where
  "decodeMessage T fs contract_path data =
     (if \<not> tc_inittab T then Inl RuntimeError
      else if \<not> tc_import T then Inl RuntimeError
      else rethrow
        (rbind (loadContractData T fs contract_path) (\<lambda>(bytecode, metadata).
         rbind (getMethodInfo T metadata data) (\<lambda>(method_metadata, new_data).
         rbind (treeToString T method_metadata) (\<lambda>text.
         let decode_result = py_decodeMessage (tc_python T) (c_str text) (c_str new_data)
         in if length decode_result \<noteq> 0 then
              rbind (outputIsAddress T method_metadata) (\<lambda>is_address.
              if is_address then changeAddressOutput decode_result else Inr decode_result)
            else Inl RuntimeError)))))"

definition encodeCall :: "toolchain \<Rightarrow> files \<Rightarrow> string \<Rightarrow> string \<Rightarrow> bytes option res" where
  "encodeCall T fs path_to_code_folder call =
     rbind (replaceAddressConstructor call) (\<lambda>formatted_call.
     rbind (encodeMessage T fs path_to_code_folder formatted_call) (\<lambda>tmp.
     rbind (fromHex tmp) (\<lambda>bs. Inr (Some bs))))"

definition decodeOutput :: "toolchain \<Rightarrow> files \<Rightarrow> string \<Rightarrow> string \<Rightarrow> string option res" where
  "decodeOutput T fs path_to_code_folder output =
     rbind (decodeMessage T fs path_to_code_folder output) (\<lambda>text. Inr (Some text))"

section \<open>Python as a process\<close>

function split_at :: "char \<Rightarrow> string \<Rightarrow> string list" where
  "split_at d s = (if d \<in> set s then takeWhile (\<lambda>c. c \<noteq> d) s # split_at d (tl (dropWhile (\<lambda>c. c \<noteq> d) s)) else [s])"
  by pat_completeness auto
termination
proof (relation "measure (\<lambda>(d, s). length s)", simp)
  fix d :: char and s :: string
  assume "d \<in> set s"
  then have "dropWhile (\<lambda>c. c \<noteq> d) s \<noteq> []" by (auto simp: dropWhile_eq_Nil_conv)
  moreover have "length (dropWhile (\<lambda>c. c \<noteq> d) s) \<le> length s" by (rule length_dropWhile_le)
  ultimately show "((d, tl (dropWhile (\<lambda>c. c \<noteq> d) s)), d, s) \<in> measure (\<lambda>(d, s). length s)"
    by (cases "dropWhile (\<lambda>c. c \<noteq> d) s") auto
qed

declare split_at.simps [simp del]

fun first_existing :: "files \<Rightarrow> string list \<Rightarrow> string option" where
  "first_existing fs [] = None"
| "first_existing fs (item # items) =
     (let current = path_append item ''python3.7'' in if fs_exists fs current then Some current else first_existing fs items)"

text \<open>An unset variable is read through a null pointer.\<close>

definition findPython :: "toolchain \<Rightarrow> files \<Rightarrow> string option res" where
  "findPython T fs =
     (case tc_getenv T ''PATH'' of
        None \<Rightarrow> Inl OutOfBounds
      | Some path_var \<Rightarrow> Inr (first_existing fs (split_at (CHR '':'') path_var)))"

definition callPython :: "toolchain \<Rightarrow> files \<Rightarrow> string list \<Rightarrow> string res" where
  "callPython T fs args =
     rbind (findPython T fs) (\<lambda>python_exec.
     case python_exec of
       None \<Rightarrow> Inl InaccessibleFile
     | Some exe \<Rightarrow>
         (case tc_process T exe args of
            None \<Rightarrow> Inl SystemCallFailed
          | Some (out, _, exit_code) \<Rightarrow> if exit_code \<noteq> 0 then Inl SystemCallFailed else Inr out))"

section \<open>The Solidity compiler\<close>

text \<open>Without a colon the position behind it wraps to zero.\<close>

definition parseInfoLine :: "string \<Rightarrow> (string \<times> string) res" where
  "parseInfoLine path =
     (if length path < 8 then Inl StdOutOfRange
      else let shrinked = (if length path < 16 then drop 8 path else take (length path - 16) (drop 8 path))
           in case str_find '':'' shrinked of
                Some delimiter_pos \<Rightarrow> Inr (take delimiter_pos shrinked, drop (delimiter_pos + 1) shrinked)
              | None \<Rightarrow> Inr (shrinked, shrinked))"

text \<open>The lines that \<^verbatim>\<open>std::getline\<close> reads: nothing behind the last line break.\<close>

definition getlines :: "string \<Rightarrow> string list" where
  "getlines out = (let lines = split_at (CHR 0x0A) out in if last lines = [] then butlast lines else lines)"

definition callCommand :: "toolchain \<Rightarrow> string \<Rightarrow> string list \<Rightarrow> string list res" where
  "callCommand T path_to_solc args =
     (case tc_process T path_to_solc args of
        None \<Rightarrow> Inl StdRuntimeError
      | Some (out, running, exit_code) \<Rightarrow> if exit_code \<noteq> 0 then Inl SystemCallFailed else Inr (take running (getlines out)))"

text \<open>The output in groups of four lines, the second with the name and the fourth with the value; an incomplete group is ignored.\<close>

fun contract_groups :: "(string \<Rightarrow> 'v res) \<Rightarrow> string list \<Rightarrow> (string \<times> 'v) list res" where
  "contract_groups f (_ # info_line # _ # text # rest) =
     rbind (f text) (\<lambda>v.
     rbind (parseInfoLine info_line) (\<lambda>(source_file, contract_name).
     rbind (contract_groups f rest) (\<lambda>vs. Inr ((contract_name, v) # vs))))"
| "contract_groups f _ = Inr []"

definition callCompilationCommand :: "toolchain \<Rightarrow> string \<Rightarrow> string \<Rightarrow> (string \<times> bytes) list res" where
  "callCompilationCommand T path_to_solc path_to_solidity_file =
     rbind (callCommand T path_to_solc [''--bin'', path_to_solidity_file]) (contract_groups fromHex)"

definition callMetadataCommand :: "toolchain \<Rightarrow> string \<Rightarrow> string \<Rightarrow> (string \<times> ptree) list res" where
  "callMetadataCommand T path_to_solc path_to_solidity_file =
     rbind (callCommand T path_to_solc [''--metadata'', path_to_solidity_file]) (contract_groups (parseJson (tc_ptree T)))"

record compiled_contract =
  cc_name :: string
  cc_code :: bytes
  cc_metadata :: ptree

text \<open>The last metadata with the name of the contract is kept.\<close>

definition compile :: "toolchain \<Rightarrow> files \<Rightarrow> string \<Rightarrow> compiled_contract list option res" where
  "compile T fs path_to_solidity_file =
     (let path_to_solc = tc_search_path T ''solc'' in
      if \<not> fs_exists fs path_to_solc then Inl InaccessibleFile
      else rbind (callCompilationCommand T path_to_solc path_to_solidity_file) (\<lambda>compilation_output.
           rbind (callMetadataCommand T path_to_solc path_to_solidity_file) (\<lambda>metadata_output.
           Inr (Some (map (\<lambda>(name, code).
             \<lparr>cc_name = name, cc_code = code,
              cc_metadata = fold (\<lambda>(n, m) metadata. if n = name then m else metadata) metadata_output PropertyTree_empty\<rparr>)
             compilation_output)))))"

section \<open>Loading the virtual machine\<close>

datatype loader_error =
    EVMC_LOADER_SUCCESS | EVMC_LOADER_CANNOT_OPEN | EVMC_LOADER_SYMBOL_NOT_FOUND | EVMC_LOADER_INVALID_ARGUMENT
  | EVMC_LOADER_VM_CREATION_FAILURE | EVMC_LOADER_ABI_VERSION_MISMATCH | EVMC_LOADER_INVALID_OPTION_NAME
  | EVMC_LOADER_INVALID_OPTION_VALUE

text \<open>
  Absolute paths, symbolic links (a link gives its target, or \<open>None\<close> when it cannot be read), the loader, and the
  check of the interface of what it loads.
\<close>

record 'v vm_loader =
  vl_absolute :: "string \<Rightarrow> string option"
  vl_symlink :: "string \<Rightarrow> string option option"
  vl_load :: "string \<Rightarrow> loader_error \<times> 'v option"
  vl_abi_compatible :: "'v \<Rightarrow> bool"

definition vl_absolute_res :: "'v vm_loader \<Rightarrow> string \<Rightarrow> string res" where
  "vl_absolute_res V path = (case vl_absolute V path of Some p \<Rightarrow> Inr p | None \<Rightarrow> Inl StdRuntimeError)"

definition getVmPath :: "'v vm_loader \<Rightarrow> files \<Rightarrow> string res" where
  "getVmPath V fs =
     rbind (vl_absolute_res V ''libevmone.so.0.4'') (\<lambda>lib_name.
     if fs_exists fs lib_name then
       (case vl_symlink V lib_name of
          Some (Some _) \<Rightarrow> Inl InaccessibleFile
        | Some None \<Rightarrow> vl_absolute_res V []
        | None \<Rightarrow> vl_absolute_res V lib_name)
     else Inl InaccessibleFile)"

definition load_vm :: "'v vm_loader \<Rightarrow> files \<Rightarrow> 'v res" where
  "load_vm V fs =
     rbind (getVmPath V fs) (\<lambda>path.
     case vl_load V path of
       (EVMC_LOADER_SUCCESS, Some vm_instance) \<Rightarrow> if vl_abi_compatible V vm_instance then Inr vm_instance else Inl VmError
     | (EVMC_LOADER_SUCCESS, None) \<Rightarrow> Inl LogicError
     | (EVMC_LOADER_CANNOT_OPEN, _) \<Rightarrow> Inl InaccessibleFile
     | _ \<Rightarrow> Inl VmError)"

section \<open>Facts\<close>

lemma parseCall_call:
  assumes "CHR ''('' \<notin> set name"
  shows "parseCall (name @ ''('' @ arguments @ '')'') = Inr (name, ''['' @ arguments @ '']'')"
  using str_find_hd [of "''(''" name "arguments @ '')''"] assms by (simp add: parseCall_def)

text \<open>The line in which the compiler names a contract\<close>

definition info_line :: "string \<Rightarrow> string \<Rightarrow> string" where
  "info_line source_file name = ''======= '' @ source_file @ '':'' @ name @ '' =======''"

lemma parseInfoLine_info_line:
  assumes "CHR '':'' \<notin> set source_file"
  shows "parseInfoLine (info_line source_file name) = Inr (source_file, name)"
  using str_find_hd [of "'':''" source_file name] assms by (simp add: parseInfoLine_def info_line_def)

lemma split_at_Cons:
  "d \<notin> set t \<Longrightarrow> split_at d (t @ d # s) = t # split_at d s" "d \<notin> set t \<Longrightarrow> split_at d t = [t]"
proof -
  assume "d \<notin> set t"
  then have "takeWhile (\<lambda>c. c \<noteq> d) (t @ d # s) = t" "dropWhile (\<lambda>c. c \<noteq> d) (t @ d # s) = d # s" by (induction t) auto
  then show "split_at d (t @ d # s) = t # split_at d s" by (subst split_at.simps) simp
qed (simp add: split_at.simps)

lemma split_at_nonempty: "split_at d s \<noteq> []"
  by (simp add: split_at.simps)

lemma getlines_lines:
  assumes "\<And>l. l \<in> set ls \<Longrightarrow> CHR 0x0A \<notin> set l"
  shows "getlines (concat (map (\<lambda>l. l @ [CHR 0x0A]) ls)) = ls"
proof -
  have "split_at (CHR 0x0A) (concat (map (\<lambda>l. l @ [CHR 0x0A]) ls)) = ls @ [[]]"
    using assms by (induction ls) (simp_all add: split_at_Cons)
  then show ?thesis by (simp add: getlines_def)
qed

text \<open>What the compiler prints for the contracts of a file: four lines for each\<close>

definition solc_lines :: "string \<Rightarrow> string \<Rightarrow> (string \<times> string) list \<Rightarrow> string list" where
  "solc_lines source_file heading contracts = concat (map (\<lambda>(name, text). [[], info_line source_file name, heading, text]) contracts)"

lemma contract_groups_solc:
  assumes "CHR '':'' \<notin> set source_file" and "\<forall>c\<in>set cs. f (shown c) = Inr (val c)"
  shows "contract_groups f (solc_lines source_file heading (map (\<lambda>c. (name c, shown c)) cs)) = Inr (map (\<lambda>c. (name c, val c)) cs)"
  using assms(2) by (induction cs) (simp_all add: solc_lines_def parseInfoLine_info_line [OF assms(1)])

text \<open>
  A compiler that prints the given contracts, and whose output is read to its end. The metadata is one
  line of JSON that the library reads as the tree of the contract; it need not be the text that
  \<^verbatim>\<open>write_json\<close> gives for that tree, which is spread over several lines.
\<close>

definition solc_prints :: "toolchain \<Rightarrow> string \<Rightarrow> compiled_contract list \<Rightarrow> bool" where
  "solc_prints T file cs \<longleftrightarrow>
     (\<exists>printed. list_all (\<lambda>c. read_json (tc_ptree T) (printed c) = Some (cc_metadata c)) cs
      \<and> (let solc = tc_search_path T ''solc'';
             text = (\<lambda>lines. concat (map (\<lambda>l. l @ [CHR 0x0A]) lines));
             bin = solc_lines file ''Binary:'' (map (\<lambda>c. (cc_name c, toHex (cc_code c))) cs);
             meta = solc_lines file ''Metadata:'' (map (\<lambda>c. (cc_name c, printed c)) cs)
         in list_all (\<lambda>l. CHR 0x0A \<notin> set l) (bin @ meta)
          \<and> (\<exists>n m. tc_process T solc [''--bin'', file] = Some (text bin, n, 0) \<and> tc_process T solc [''--metadata'', file] = Some (text meta, m, 0)
              \<and> length bin \<le> n \<and> length meta \<le> m)))"

lemma fold_metadata:
  "distinct (map cc_name cs) \<Longrightarrow> c \<in> set cs \<Longrightarrow>
   fold (\<lambda>(n, m) metadata. if n = cc_name c then m else metadata) (map (\<lambda>c. (cc_name c, cc_metadata c)) cs) t = cc_metadata c"
proof (induction cs arbitrary: t)
  case (Cons d cs)
  have skip: "fold (\<lambda>(n, m) metadata. if n = x then m else metadata) (map (\<lambda>c. (cc_name c, cc_metadata c)) cs) t = t"
    if "x \<notin> set (map cc_name cs)" for x t
    using that by (induction cs arbitrary: t) auto
  show ?case using Cons skip [of "cc_name c"] by (cases "c = d") auto
qed simp

lemma compile_solc:
  assumes "fs_exists fs (tc_search_path T ''solc'')" and "solc_prints T file cs"
    and "CHR '':'' \<notin> set file" and "distinct (map cc_name cs)"
  shows "compile T fs file = Inr (Some cs)"
proof -
  let ?solc = "tc_search_path T ''solc''"
  let ?bin = "solc_lines file ''Binary:'' (map (\<lambda>c. (cc_name c, toHex (cc_code c))) cs)"
  let ?text = "\<lambda>lines. concat (map (\<lambda>l. l @ [CHR 0x0A]) lines)"
  obtain printed n m where printed: "list_all (\<lambda>c. read_json (tc_ptree T) (printed c) = Some (cc_metadata c)) cs"
    and out: "list_all (\<lambda>l. CHR 0x0A \<notin> set l) (?bin @ solc_lines file ''Metadata:'' (map (\<lambda>c. (cc_name c, printed c)) cs))"
      "tc_process T ?solc [''--bin'', file] = Some (?text ?bin, n, 0)" "length ?bin \<le> n"
      "tc_process T ?solc [''--metadata'', file] = Some (?text (solc_lines file ''Metadata:'' (map (\<lambda>c. (cc_name c, printed c)) cs)), m, 0)"
      "length (solc_lines file ''Metadata:'' (map (\<lambda>c. (cc_name c, printed c)) cs)) \<le> m"
    using assms(2) unfolding solc_prints_def Let_def by blast
  let ?meta = "solc_lines file ''Metadata:'' (map (\<lambda>c. (cc_name c, printed c)) cs)"
  have bin: "callCommand T ?solc [''--bin'', file] = Inr ?bin" and meta: "callCommand T ?solc [''--metadata'', file] = Inr ?meta"
    using out getlines_lines [of ?bin] getlines_lines [of ?meta] by (auto simp: callCommand_def Let_def list_all_iff)
  have "callCompilationCommand T ?solc file = Inr (map (\<lambda>c. (cc_name c, cc_code c)) cs)"
    using contract_groups_solc [OF assms(3), where f = fromHex and name = cc_name and shown = "\<lambda>c. toHex (cc_code c)" and val = cc_code]
    by (simp add: callCompilationCommand_def bin)
  moreover have "\<forall>c\<in>set cs. parseJson (tc_ptree T) (printed c) = Inr (cc_metadata c)"
    using printed by (simp add: parseJson_def list_all_iff)
  then have "callMetadataCommand T ?solc file = Inr (map (\<lambda>c. (cc_name c, cc_metadata c)) cs)"
    using contract_groups_solc [OF assms(3), where f = "parseJson (tc_ptree T)" and name = cc_name]
    by (simp add: callMetadataCommand_def meta)
  moreover have "map (\<lambda>c. \<lparr>cc_name = cc_name c, cc_code = cc_code c,
      cc_metadata = fold (\<lambda>(n, m) metadata. if n = cc_name c then m else metadata) (map (\<lambda>c. (cc_name c, cc_metadata c)) cs) PropertyTree_empty\<rparr>) cs = cs"
    using fold_metadata [OF assms(4)] by (intro map_idI) simp
  ultimately show ?thesis by (simp add: compile_def assms(1) comp_def)
qed

text \<open>The functions that \<^verbatim>\<open>web3\<close> finds print as a list of names with their types.\<close>

definition function_text :: "string \<times> string \<Rightarrow> string" where
  "function_text f = ''<Function '' @ fst f @ ''('' @ snd f @ '')>''"

definition functions_text :: "(string \<times> string) list \<Rightarrow> string" where
  "functions_text fs = ''['' @ join '', '' (map function_text fs) @ '']''"

definition function_ok :: "string \<times> string \<Rightarrow> bool" where
  "function_ok f \<longleftrightarrow> list_all is_word_char (fst f) \<and> CHR '' '' \<notin> set (snd f) \<and> CHR ''<'' \<notin> set (snd f) \<and> CHR ''>'' \<notin> set (snd f)"

text \<open>The types end at the last bracket in front of the next space.\<close>

lemma types_no_match:
  "CHR ''>'' \<notin> set (takeWhile (\<lambda>c. c \<noteq> CHR '' '') s) \<Longrightarrow> re_match (Star (\<lambda>c. c \<noteq> CHR '' '') # lit '')>'') s = None"
proof (induction s)
  case (Cons c s)
  have "re_match (lit '')>'') (c # s) = None"
    using Cons.prems by (cases s) (auto simp: lit_def split: if_splits)
  then show ?case using Cons by (auto split: if_splits)
qed (simp add: lit_def)

lemma types_match:
  assumes "CHR '' '' \<notin> set t" and "CHR ''>'' \<notin> set (takeWhile (\<lambda>c. c \<noteq> CHR '' '') s)"
  shows "re_match (Star (\<lambda>c. c \<noteq> CHR '' '') # lit '')>'') (t @ '')>'' @ s) = Some (t @ '')>'')"
  using assms(1)
proof (induction t)
  case Nil
  have "re_match (lit '')>'') (CHR ''>'' # s) = None" by (simp add: lit_def)
  then have "re_match (Star (\<lambda>c. c \<noteq> CHR '' '') # lit '')>'') (CHR ''>'' # s) = None" using types_no_match [OF assms(2)] by simp
  then show ?case by (simp add: lit_def)
qed auto

lemma function_match:
  assumes "function_ok f" and "CHR ''>'' \<notin> set (takeWhile (\<lambda>c. c \<noteq> CHR '' '') s)"
  shows "re_match (function_pattern (fst f)) (function_text f @ s) = Some (function_text f)"
  using types_match [OF _ assms(2), of "snd f"] assms(1) re_match_lit [of "''<Function '' @ fst f @ ''(''" _ "snd f @ '')>'' @ s"]
  by (simp add: function_pattern_def function_text_def function_ok_def)

text \<open>Nothing but the beginning of an entry with the same name can be the beginning of a match.\<close>

lemma lit_conflict:
  assumes "\<nexists>u. s = t @ u"
  shows "re_match (lit t @ r) s = None"
  using assms
proof (induction t arbitrary: s)
  case (Cons c t)
  then show ?case by (cases s) (auto simp: lit_def)
qed simp

lemma word_stop:
  assumes "list_all is_word_char n" and "list_all is_word_char m" and "\<not> is_word_char c" and "\<not> is_word_char d"
    and "n @ c # s = m @ d # u"
  shows "n = m" and "c = d"
proof -
  have run: "takeWhile is_word_char (x @ e # v) = x" if "list_all is_word_char x" "\<not> is_word_char e" for x e v
    using that by (simp add: list_all_iff takeWhile_tail)
  show "n = m" using run [OF assms(1,3)] run [OF assms(2,4)] assms(5) by metis
  then show "c = d" using assms(5) by simp
qed

lemma no_word_chars [simp]:
  "\<not> is_word_char (CHR ''('')" "\<not> is_word_char (CHR '')'')" "\<not> is_word_char (CHR '' '')" "\<not> is_word_char (CHR '','')"
  by (simp_all add: is_word_char_def is_digit_def)

lemma function_other:
  assumes "function_ok f" and "list_all is_word_char m" and "fst f \<noteq> m"
  shows "re_match (function_pattern m) (function_text f @ s) = None"
proof -
  have "\<nexists>u. function_text f @ s = (''<Function '' @ m @ ''('') @ u"
    using word_stop(1) [of "fst f" m "CHR ''(''" "CHR ''(''" "snd f @ '')>'' @ s"] assms by (auto simp: function_text_def function_ok_def)
  then show ?thesis unfolding function_pattern_def by (rule lit_conflict)
qed

lemma iter_skip:
  assumes "CHR ''<'' \<notin> set t"
  shows "re_iter (function_pattern m) (t @ s) = re_iter (function_pattern m) s"
  using assms
proof (induction t)
  case (Cons c t)
  then have "re_match (function_pattern m) ((c # t) @ s) = None" by (auto simp: function_pattern_def lit_def)
  then show ?case using Cons by (simp add: re_iter_none)
qed simp

lemma iter_other:
  assumes "function_ok f" and "list_all is_word_char m" and "fst f \<noteq> m"
  shows "re_iter (function_pattern m) (function_text f @ s) = re_iter (function_pattern m) s"
proof -
  have "CHR ''<'' \<notin> set (fst f)" using assms(1) by (auto simp: function_ok_def list_all_iff is_word_char_def is_digit_def)
  then have "CHR ''<'' \<notin> set (tl (function_text f))" using assms(1) by (auto simp: function_text_def function_ok_def)
  moreover have "function_text f \<noteq> []" by (simp add: function_text_def)
  ultimately show ?thesis
    using iter_skip [of "tl (function_text f)" m s] re_iter_none [OF function_other [OF assms]] by (cases "function_text f") auto
qed

text \<open>So the first match is the first entry with the name.\<close>

lemma iter_functions:
  assumes "list_all function_ok fs" and "list_all is_word_char m"
  shows "(case find (\<lambda>f. fst f = m) fs of
            None \<Rightarrow> re_iter (function_pattern m) (join '', '' (map function_text fs) @ '']'') = []
          | Some f \<Rightarrow> \<exists>ms. re_iter (function_pattern m) (join '', '' (map function_text fs) @ '']'') = function_text f # ms)"
  using assms(1)
proof (induction fs)
  case Nil
  have "re_match (function_pattern m) '']'' = None" "re_match (function_pattern m) [] = None" by (simp_all add: function_pattern_def lit_def)
  then show ?case by (simp add: re_iter_none)
next
  case (Cons f fs)
  define rest where "rest = (if fs = [] then '']'' else '', '' @ join '', '' (map function_text fs) @ '']'')"
  have split: "join '', '' (function_text f # map function_text fs) @ '']'' = function_text f @ rest" by (simp add: rest_def join_Cons)
  have ne: "function_text f \<noteq> []" by (simp add: function_text_def)
  have "CHR ''>'' \<notin> set (takeWhile (\<lambda>c. c \<noteq> CHR '' '') rest)" by (simp add: rest_def)
  then have same: "re_match (function_pattern m) (function_text f @ rest) = Some (function_text f)" if "fst f = m"
    using function_match [of f rest] Cons.prems that by simp
  have "re_iter (function_pattern m) rest = re_iter (function_pattern m) (join '', '' (map function_text fs) @ '']'')"
    using iter_skip [of "'', ''"] by (simp add: rest_def)
  then show ?case
    using Cons re_iter_Some [OF same ne] iter_other [of f m rest] assms(2) by (auto simp: split split: option.splits)
qed

text \<open>A name is clear when it does not occur in front of itself in the text of a function.\<close>

definition name_clear :: "string \<Rightarrow> bool" where
  "name_clear m \<longleftrightarrow> list_all (\<lambda>i. take (length m) (drop i (''<Function '' @ m)) \<noteq> m) [0..<10]"

lemma getMethodSignature_functions:
  assumes "list_all function_ok fs" and "list_all is_word_char m"
  shows "getMethodSignature T (functions_text fs) m =
    (case find (\<lambda>f. fst f = m) fs of
       None \<Rightarrow> Inl LogicError
     | Some f \<Rightarrow> first_signature m [function_text f])"
proof -
  have "re_iter (function_pattern m) (functions_text fs) = re_iter (function_pattern m) (join '', '' (map function_text fs) @ '']'')"
    using iter_skip [of "''[''"] by (simp add: functions_text_def)
  moreover have "\<exists>i. str_find m (function_text f) = Some i" if "find (\<lambda>f. fst f = m) fs = Some f" for f
  proof -
    have "fst f = m" using that by (auto simp: find_Some_iff)
    then show ?thesis
      using str_find_in [where pre = "''<Function ''" and pat = m and s = "''('' @ snd f @ '')>''"] unfolding function_text_def by blast
  qed
  ultimately show ?thesis using iter_functions [OF assms] assms(2)
    by (fastforce simp: getMethodSignature_def function_matches_def split: option.splits)
qed

lemma take_cut: "i < length p \<Longrightarrow> take (length m) (drop i (p @ m @ s)) = take (length m) (drop i (p @ m))"
  by simp

lemma first_signature_clear:
  assumes "name_clear m"
  shows "first_signature m [function_text (m, types)] = Inr (m @ ''('' @ types @ '')'')"
proof -
  have "take (length m) (drop i (''<Function '' @ m @ ''('' @ types @ '')>'')) \<noteq> m" if "i < length (''<Function '')" for i
    using take_cut [OF that, of m "''('' @ types @ '')>''"] that assms unfolding name_clear_def list_all_iff by simp
  from str_find_skip [OF this] have "str_find m (function_text (m, types)) = Some 10" by (simp add: function_text_def)
  then show ?thesis by (simp add: function_text_def)
qed

lemma first_signature_unclear:
  assumes "\<not> name_clear m"
  shows "\<exists>s. first_signature m [function_text (m, types)] = Inr s \<and> s \<noteq> m @ ''('' @ types @ '')''"
proof -
  let ?t = "function_text (m, types)"
  obtain j where j: "j < 10" "take (length m) (drop j (''<Function '' @ m)) = m"
    using assms unfolding name_clear_def list_all_iff by auto
  then have "take (length m) (drop j ?t) = m"
    using take_cut [of j "''<Function ''" m "''('' @ types @ '')>''"] unfolding function_text_def fst_conv snd_conv by simp
  then have "?t = take j ?t @ m @ drop (length m) (drop j ?t)" by (metis append_take_drop_id)
  then obtain i where i: "i \<le> length (take j ?t)" "str_find m ?t = Some i" by (metis str_find_in)
  then have "i < 10" using j(1) by simp
  then have "length (take (length ?t - i - 1) (drop i ?t)) \<noteq> length (m @ ''('' @ types @ '')'')" by (simp add: function_text_def)
  then have "take (length ?t - i - 1) (drop i ?t) \<noteq> m @ ''('' @ types @ '')''" by metis
  then show ?thesis using i(2) by simp
qed

lemma signature_text_join: "signature_text (m @ ''('') types = m @ ''('' @ join '','' types @ '')''"
proof -
  have "concat (map (\<lambda>t. t @ '','') ts) = join '','' ts @ '',''" if "ts \<noteq> []" for ts
    using that
  proof (induction ts)
    case (Cons t ts)
    then show ?case by (cases "ts = []") (simp_all add: join_Cons)
  qed simp
  then show ?thesis by (cases "types = []") (simp_all add: signature_text_def butlast_append)
qed

text \<open>The first four bytes of the hash of a signature, as the Ethereum ABI defines them\<close>

definition selector :: "string \<Rightarrow> string list \<Rightarrow> string" where
  "selector name types = take 8 (toHex (spec_keccak256 (string_to_bytes (name @ ''('' @ join '','' types @ '')''))))"

lemma compute_keccak_selector:
  assumes "length (name @ ''('' @ join '','' types @ '')'') < 2 ^ 16"
  shows "take ID_METHOD_SIZE (keccak256_toHex (compute_keccak T (name @ ''('' @ join '','' types @ '')''))) = selector name types"
    and "length (selector name types) = 8"
proof -
  let ?data = "string_to_bytes (name @ ''('' @ join '','' types @ '')'')"
  have len: "length ?data < 2 ^ 16" using assms by (simp only: string_to_bytes_def length_map)
  have k: "keccak256_compute a ?data = spec_keccak256 ?data" "length (spec_keccak256 ?data) = 32" for a
    using keccak256_compute_spec [OF len, of a] by (simp_all only:)
  show "take ID_METHOD_SIZE (keccak256_toHex (compute_keccak T (name @ ''('' @ join '','' types @ '')''))) = selector name types"
    by (simp only: compute_keccak_def k Let_def selector_def ID_METHOD_SIZE_def keccak256_toHex_def)
  show "length (selector name types) = 8" using k(2) by (simp add: selector_def length_toHex)
qed

text \<open>An entry of an ABI for a function\<close>

definition function_entry :: "toolchain \<Rightarrow> ptree \<Rightarrow> string \<Rightarrow> string list \<Rightarrow> bool" where
  "function_entry T entry name types \<longleftrightarrow>
     pt_get (tc_ptree T) entry ''type'' = Inr ''function'' \<and> pt_get (tc_ptree T) entry ''name'' = Inr name
   \<and> rbind (get_child (tc_ptree T) entry ''inputs'') (\<lambda>inputs. input_types T (pt_children inputs)) = Inr types
   \<and> length (name @ ''('' @ join '','' types @ '')'') < 2 ^ 16"

lemma getMethodId_function:
  assumes "function_entry T entry name types"
  shows "getMethodId T entry = Inr (selector name types)"
  using assms compute_keccak_selector(1) [of name types T]
  by (auto simp: function_entry_def getMethodId_def catch_bad_path_def rbind_eq_Inr signature_text_join)

text \<open>An entry that is passed over in the search for an identifier\<close>

definition other_entry :: "toolchain \<Rightarrow> string \<Rightarrow> ptree \<Rightarrow> bool" where
  "other_entry T method_id entry \<longleftrightarrow>
     (\<exists>type. pt_get (tc_ptree T) entry ''type'' = Inr type \<and> (type = ''function'' \<longrightarrow> (\<exists>i. getMethodId T entry = Inr i \<and> i \<noteq> method_id)))"

lemma find_method_other:
  assumes "list_all (\<lambda>(k, e). other_entry T (take ID_METHOD_SIZE data) e) before"
  shows "find_method T data (before @ rest) = find_method T data rest"
  using assms
proof (induction before)
  case (Cons e before)
  then show ?case by (cases e) (auto simp: other_entry_def)
qed simp

lemma encodeMessage_function:
  assumes "encodeMessage T fs path (name @ ''('' @ arguments @ '')'') = Inr message" and "name \<noteq> ''constructor''" and "CHR ''('' \<notin> set name"
    and "loadContractData T fs path = Inr (bytecode, metadata)"
  shows "encode_function T bytecode metadata name (''['' @ arguments @ '']'') = Inr message"
  using assms parseCall_call [OF assms(3), of arguments]
  by (auto simp: encodeMessage_def rethrow_def split: if_splits sum.splits)

lemma encode_function_selector:
  assumes "encode_function T bytecode metadata name arguments = Inr message"
    and "treeToString T metadata = Inr shown" and "getMethodsByArguments (tc_python T) (c_str arguments) (c_str shown) = functions_text fs"
    and "list_all function_ok fs" and "list_all is_word_char name" and "name_clear name"
    and "find (\<lambda>f. fst f = name) fs = Some (name, join '','' types)" and "length (name @ ''('' @ join '','' types @ '')'') < 2 ^ 16"
  shows "take 8 message = selector name types"
proof -
  have sig: "getMethodSignature T (functions_text fs) name = Inr (name @ ''('' @ join '','' types @ '')'')"
    using getMethodSignature_functions [OF assms(4,5)] assms(7) first_signature_clear [OF assms(6)] by simp
  show ?thesis
    using assms(1-3) sig compute_keccak_selector(1) [OF assms(8), of T] compute_keccak_selector(2) [OF assms(8)]
    by (auto simp: encode_function_def rbind_eq_Inr Let_def ID_METHOD_SIZE_def split: if_splits)
qed

section \<open>A concrete tool chain for the examples\<close>

text \<open>
  Property trees with the documented paths, whose JSON format knows the metadata of one contract with a
  function \<^verbatim>\<open>set(address)\<close>, before and after its change for the encoder, and a compiler that prints this contract.
\<close>

fun get_path :: "string list \<Rightarrow> ptree \<Rightarrow> ptree option" where
  "get_path [] t = Some t"
| "get_path (k # ks) t = Option.bind (map_of (pt_children t) k) (get_path ks)"

fun put_path :: "string list \<Rightarrow> (ptree option \<Rightarrow> ptree) \<Rightarrow> ptree \<Rightarrow> ptree" where
  "put_path [] f t = t"
| "put_path [k] f t = PTree (pt_data t) (alist_put k f (pt_children t))"
| "put_path (k # ks) f t =
     PTree (pt_data t) (alist_put k (\<lambda>old. put_path ks f (case old of Some c \<Rightarrow> c | None \<Rightarrow> PTree [] [])) (pt_children t))"

definition demo_entry :: "string \<Rightarrow> ptree" where
  "demo_entry type = PTree []
     [(''type'', PTree ''function'' []), (''name'', PTree ''set'' []),
      (''inputs'', PTree [] [([], PTree [] [(''type'', PTree type []), (''internalType'', PTree type [])])]),
      (''outputs'', PTree [] [([], PTree [] [(''type'', PTree ''bool'' [])])])]"

definition demo_metadata :: "string \<Rightarrow> ptree" where
  "demo_metadata type = PTree [] [(''output'', PTree [] [(''abi'', PTree [] [([], demo_entry type)])])]"

definition demo_ptree :: ptree_lib where
  "demo_ptree =
     \<lparr>get_child_optional = (\<lambda>t path. get_path (split_at (CHR ''.'') path) t),
      put_value = (\<lambda>path s. put_path (split_at (CHR ''.'') path) (\<lambda>old. PTree s (case old of Some c \<Rightarrow> pt_children c | None \<Rightarrow> []))),
      put_child = (\<lambda>path c. put_path (split_at (CHR ''.'') path) (\<lambda>_. c)),
      read_json = (\<lambda>s. if s = ''{}'' then Some (demo_metadata ''address'') else if s = ''{ }'' then Some (demo_metadata ''bytes32'') else None),
      write_json = (\<lambda>t. if t = demo_metadata ''address'' then Some ''{}'' else if t = demo_metadata ''bytes32'' then Some ''{ }'' else None)\<rparr>"

lemma split_path: "key_ok k \<Longrightarrow> split_at (CHR ''.'') k = [k] \<and> split_at (CHR ''.'') (k @ CHR ''.'' # p) = k # split_at (CHR ''.'') p"
  by (simp add: key_ok_def split_at_Cons)

lemma put_path_Cons: "ks \<noteq> [] \<Longrightarrow> put_path (k # ks) f t =
  PTree (pt_data t) (alist_put k (\<lambda>old. put_path ks f (case old of Some c \<Rightarrow> c | None \<Rightarrow> PTree [] [])) (pt_children t))"
  by (cases ks) auto

lemma alist_put_cong: "map_of kvs k = Some v \<Longrightarrow> f (Some v) = g (Some v) \<Longrightarrow> alist_put k f kvs = alist_put k g kvs"
  by (induction kvs) auto

lemma get_path_Nil: "get_path [] = Some"
  by (rule ext) simp

lemma demo_ptree_ok: "ptree_ok demo_ptree"
proof -
  have "demo_metadata ''address'' \<noteq> demo_metadata ''bytes32''" by (simp add: demo_metadata_def demo_entry_def)
  then have "\<forall>t s. write_json demo_ptree t = Some s \<longrightarrow> read_json demo_ptree s = Some t" by (simp add: demo_ptree_def)
  then show ?thesis
    unfolding ptree_ok_def by (auto simp: demo_ptree_def split_path put_path_Cons split_at_nonempty get_path_Nil intro!: alist_put_cong)
qed

definition demo_contract :: compiled_contract where
  "demo_contract = \<lparr>cc_name = ''Box'', cc_code = [96, 128], cc_metadata = demo_metadata ''address''\<rparr>"

definition demo_toolchain :: toolchain where
  "demo_toolchain =
     \<lparr>tc_ptree = demo_ptree, tc_python = demo_python, tc_inittab = True, tc_import = True, tc_regex = (\<lambda>_ _. None), tc_addr = (\<lambda>_. 0),
      tc_search_path = (\<lambda>name. ''/usr/bin/'' @ name),
      tc_process = (\<lambda>exe args. Some (concat (map (\<lambda>l. l @ [CHR 0x0A])
        (if args ! 0 = ''--bin'' then solc_lines (args ! 1) ''Binary:'' [(''Box'', toHex [96, 128])]
         else solc_lines (args ! 1) ''Metadata:'' [(''Box'', ''{}'')])), 4, 0)),
      tc_getenv = (\<lambda>_. Some ''/usr/bin'')\<rparr>"

definition demo_files :: files where
  "demo_files = [''/usr/bin/solc'' \<mapsto> Regular_file [], ''Box'' \<mapsto> Directory,
     ''Box/compiled_code.bin'' \<mapsto> Regular_file ''6080'', ''Box/metadata.json'' \<mapsto> Regular_file ''{}'']"

lemmas demo_defs = demo_toolchain_def demo_ptree_def demo_metadata_def demo_entry_def demo_python_def

lemma demo_split: "split_at (CHR ''.'') ''output.abi'' = [''output'', ''abi'']" "key_ok k \<Longrightarrow> split_at (CHR ''.'') k = [k]"
  using split_path [of "''output''" "''abi''"] split_path [of "''abi''" "[]"] split_path [of k "[]"] by simp_all

lemma demo_load: "loadContractData demo_toolchain demo_files ''Box'' = Inr (string_to_bytes ''6080'', demo_metadata ''address'')"
  by (simp add: loadContractData_def demo_files_def path_append_def fs_exists_def demo_toolchain_def demo_ptree_def)

lemma demo_modify: "modifyMetadataAddress demo_toolchain (demo_metadata ''address'') = Inr (demo_metadata ''bytes32'')"
  by (simp add: modifyMetadataAddress_def catch_bad_path_def at_path_def for_children_def modify_input_def get_child_def pt_get_def demo_defs demo_split Let_def)

lemma demo_signature: "getMethodSignature demo_toolchain (functions_text [(''set'', ''address'')]) ''set'' = Inr ''set(address)''"
proof -
  have "name_clear ''set''" by (simp add: name_clear_def upt_rec)
  then show ?thesis
    using getMethodSignature_functions [of "[(''set'', ''address'')]" "''set''" demo_toolchain] first_signature_clear [of "''set''" "''address''"]
    by (simp add: function_ok_def is_word_char_def)
qed

lemma demo_tree_text:
  "treeToString demo_toolchain (demo_metadata ''address'') = Inr ''{}''" "treeToString demo_toolchain (demo_metadata ''bytes32'') = Inr ''{ }''"
  by (simp_all add: treeToString_def demo_toolchain_def demo_ptree_def demo_metadata_def demo_entry_def)

lemma demo_funs:
  "getMethodsByArguments (tc_python demo_toolchain) (c_str (''['' @ ''1'' @ '']'')) (c_str ''{}'') = functions_text [(''set'', ''address'')]"
proof -
  have "std_to_string 1 = ''1''" by code_simp
  then have "parseArgumentsToList demo_python ''[1]'' = Some (PyList [PyInt 1])"
    using parse_plain_list [of demo_python "[PyInt 1]" "'',''"] by (simp add: list_text_def plain_arg_def)
  then show ?thesis
    by (simp add: getMethodsByArguments_def c_str_def demo_toolchain_def py_str_def py_abi_def py_item_def py_unpack_def py_result_def
        functions_text_def function_text_def demo_python_def)
qed

lemma demo_encode:
  "encodeMessage demo_toolchain demo_files ''Box'' ''set(1)'' = Inr (selector ''set'' [''address''] @ ''set'')"
proof -
  have "length (''set'' @ ''('' @ join '','' [''address''] @ '')'') < 2 ^ 16" by simp
  note sel = compute_keccak_selector(1) [OF this, of demo_toolchain]
  have call: "parseCall ''set(1)'' = Inr (''set'', ''[1]'')" using parseCall_call [of "''set''" "''1''"] by simp
  have enc: "encodeMessageFunction (tc_python demo_toolchain) (c_str ''set'') (c_str ''[1]'') (c_str ''6080'') (c_str ''{ }'')
      = ''00000000set''"
    by (simp add: encodeMessageFunction_def py_str_def py_abi_def py_item_def py_result_def demo_toolchain_def demo_python_def c_str_def)
  have "functions_text [(''set'', ''address'')] \<noteq> []" by (simp add: functions_text_def)
  moreover have "tc_import demo_toolchain" "tc_inittab demo_toolchain" by (simp_all add: demo_toolchain_def)
  ultimately show ?thesis
    using sel demo_funs by (simp add: encodeMessage_def demo_load call encode_function_def demo_tree_text demo_signature demo_modify rethrow_def Let_def enc ID_METHOD_SIZE_def)
qed

section \<open>Properties\<close>

text \<open>
  C12: what is encoded for a method is decoded for that method. For a call of a function with a clear name, the message
  begins with the selector of the Ethereum ABI for the name and the types of the metadata (with addresses, although
  the arguments are encoded with addresses as 32 bytes); that is the identifier the decoder computes for the
  entry, and when no earlier entry has the same, the decoder takes this entry with its outputs as inputs
  and the rest of the message as it is.
\<close>

theorem encoded_call_selects_method:
  assumes "loadContractData T fs path = Inr (bytecode, metadata)" and "treeToString T metadata = Inr shown"
    and "getMethodsByArguments (tc_python T) (c_str (''['' @ arguments @ '']'')) (c_str shown) = functions_text funs"
    and "list_all function_ok funs" and "find (\<lambda>f. fst f = name) funs = Some (name, join '','' types)"
    and "list_all is_word_char name" and "name_clear name" and "name \<noteq> ''constructor''"
    and "get_child (tc_ptree T) metadata ''output.abi'' = Inr abi" and "pt_children abi = before @ (k, entry) # after"
    and "function_entry T entry name types" and "list_all (\<lambda>(k, e). other_entry T (selector name types) e) before"
    and "get_child (tc_ptree T) entry ''outputs'' = Inr outputs"
    and "function_entry T (put_child (tc_ptree T) ''inputs'' outputs entry) name out_types"
    and "encodeMessage T fs path (name @ ''('' @ arguments @ '')'') = Inr message"
  shows "take 8 message = selector name types \<and> getMethodId T entry = Inr (take 8 message)
    \<and> getMethodInfo T metadata message = Inr (put_child (tc_ptree T) ''inputs'' outputs entry, selector name out_types @ drop 8 message)"
proof -
  have "CHR ''('' \<notin> set name" using assms(6) by (auto simp: list_all_iff is_word_char_def is_digit_def)
  from encodeMessage_function [OF assms(15,8) this assms(1)]
  have sel: "take 8 message = selector name types"
    using encode_function_selector [of T bytecode metadata name "''['' @ arguments @ '']''" message shown funs types] assms
    by (simp add: function_entry_def)
  then have len: "8 \<le> length message"
    using compute_keccak_selector(2) [of name types] assms(11) by (metis function_entry_def length_take min.absorb_iff2)
  have "find_method T message (pt_children abi) = find_method T message ((k, entry) # after)"
    using assms(12) sel find_method_other [of T message before "(k, entry) # after"] by (simp add: assms(10) ID_METHOD_SIZE_def)
  also have "\<dots> = Inr (put_child (tc_ptree T) ''inputs'' outputs entry, selector name out_types @ drop 8 message)"
    using assms(11,13) len sel getMethodId_function [OF assms(11)] getMethodId_function [OF assms(14)]
    by (simp add: function_entry_def ID_METHOD_SIZE_def Let_def)
  finally show ?thesis
    using sel assms(9) getMethodId_function [OF assms(11)] by (simp add: getMethodInfo_def catch_bad_path_def)
qed

theorem encoded_call_selects_method_witness:
  "take 8 (selector ''set'' [''address''] @ ''set'') = selector ''set'' [''address'']
   \<and> getMethodId demo_toolchain (demo_entry ''address'') = Inr (take 8 (selector ''set'' [''address''] @ ''set''))
   \<and> getMethodInfo demo_toolchain (demo_metadata ''address'') (selector ''set'' [''address''] @ ''set'')
     = Inr (put_child demo_ptree ''inputs'' (PTree [] [([], PTree [] [(''type'', PTree ''bool'' [])])]) (demo_entry ''address''),
            selector ''set'' [''bool''] @ drop 8 (selector ''set'' [''address''] @ ''set''))"
proof -
  let ?outputs = "PTree [] [([], PTree [] [(''type'', PTree ''bool'' [])])]"
  have T: "tc_ptree demo_toolchain = demo_ptree" by (simp add: demo_toolchain_def)
  have "name_clear ''set''" by (simp add: name_clear_def upt_rec)
  moreover have "function_entry demo_toolchain (demo_entry ''address'') ''set'' [''address'']"
    "function_entry demo_toolchain (put_child (tc_ptree demo_toolchain) ''inputs'' ?outputs (demo_entry ''address'')) ''set'' [''bool'']"
    by (simp_all add: function_entry_def pt_get_def get_child_def demo_defs demo_split)
  moreover have "get_child (tc_ptree demo_toolchain) (demo_metadata ''address'') ''output.abi'' = Inr (PTree [] [([], demo_entry ''address'')])"
    "get_child (tc_ptree demo_toolchain) (demo_entry ''address'') ''outputs'' = Inr ?outputs"
    by (simp_all add: get_child_def demo_defs demo_split)
  ultimately show ?thesis
    using encoded_call_selects_method [OF demo_load demo_tree_text(1) demo_funs, where name = "''set''" and types = "[''address'']"
        and before = "[]" and after = "[]" and k = "[]" and entry = "demo_entry ''address''" and abi = "PTree [] [([], demo_entry ''address'')]"
        and outputs = ?outputs and out_types = "[''bool'']" and message = "selector ''set'' [''address''] @ ''set''"] demo_encode
    by (simp add: T function_ok_def is_word_char_def is_digit_def)
qed

text \<open>
  Which methods get the right selector: of the functions that \<^verbatim>\<open>web3\<close> lists, the first with the name is taken, and its
  signature is extracted correctly exactly when the name does not also occur further to the left in the text of the
  function: the search finds a method called \<^verbatim>\<open>on\<close>, \<^verbatim>\<open>t\<close> or \<^verbatim>\<open>Function\<close> inside the word \<^verbatim>\<open>Function\<close>, and its calls get a
  selector that no method has.
\<close>

theorem method_signature_iff_clear:
  assumes "list_all function_ok funs" and "list_all is_word_char name" and "find (\<lambda>f. fst f = name) funs = Some (name, types)"
  shows "\<exists>s. getMethodSignature T (functions_text funs) name = Inr s \<and> (s = name @ ''('' @ types @ '')'' \<longleftrightarrow> name_clear name)"
  using getMethodSignature_functions [OF assms(1,2), of T] assms(3) first_signature_clear [of name types] first_signature_unclear [of name types]
  by (cases "name_clear name") auto

theorem method_signature_iff_clear_witness:
  "(\<exists>s. getMethodSignature demo_toolchain (functions_text [(''set'', ''address''), (''on'', ''bool'')]) ''on'' = Inr s
      \<and> (s = ''on'' @ ''('' @ ''bool'' @ '')'' \<longleftrightarrow> name_clear ''on''))
   \<and> \<not> name_clear ''on'' \<and> name_clear ''set''"
proof (intro conjI method_signature_iff_clear)
  show "\<not> name_clear ''on''" "name_clear ''set''" by (simp_all add: name_clear_def upt_rec)
qed (simp_all add: function_ok_def is_word_char_def is_digit_def)

end
