(* ===== verification/AddressArguments.thy ===== *)
theory AddressArguments
  imports Contracts
begin

text \<open>
  What \<open>replaceAddressConstructor\<close> does with the addresses in a call: each \<^verbatim>\<open>Address(...)\<close> becomes the 32 bytes that the encoder
  wants, in hexadecimal digits and quotes.
\<close>

definition addr_call :: "bytes \<Rightarrow> string" where
  "addr_call a = ''Address('' @ base58Encode a @ '')''"

definition addr_hex :: "bytes \<Rightarrow> string" where
  "addr_hex a = CHR 0x22 # toHex (replicate (32 - length a) 0 @ a) @ [CHR 0x22]"

section \<open>Base58 text\<close>

lemma base58_word: "list_all is_word_char (base58Encode a)"
proof -
  have "list_all is_word_char pszBase58" by (simp add: pszBase58_def is_word_char_def is_digit_def)
  then have "is_word_char (pszBase58 ! d)" if "d < 58" for d using that length_base58_tables(1) by (simp add: list_all_iff)
  moreover have "is_word_char (CHR ''1'')" by (simp add: is_word_char_def is_digit_def)
  ultimately show ?thesis by (auto simp: base58Encode_digits list_all_iff dest!: digits_be_less)
qed

lemma base58_inject: "base58Encode a = base58Encode b \<longleftrightarrow> a = b"
  by (metis base58Decode_Encode sum.inject(2))

lemma base58_nonempty: "a \<noteq> [] \<Longrightarrow> base58Encode a \<noteq> []"
  using base58_inject [of a "[]"] base58Decode_Encode [of "[]"] by (auto simp: base58Encode_def Let_def)

section \<open>Finding the constructors\<close>

lemma run_match:
  assumes "list_all w b" and "\<not> w (CHR '')'')" and "cl c"
  shows "re_match (Star w # lit '')'' @ [One cl]) (b @ CHR '')'' # c # s) = Some (b @ [CHR '')'', c])"
  using assms by (induction b) (simp_all add: lit_def)

definition opens :: "char \<Rightarrow> bool" where
  "opens c \<longleftrightarrow> c = CHR ''('' \<or> c = CHR '' ''"

lemma constructor_match:
  assumes "opens p" and "a \<noteq> []" and "c = CHR '','' \<or> c = CHR '')''"
  shows "re_match constructor_pattern (p # addr_call a @ c # s) = Some (p # addr_call a @ [c])"
proof -
  obtain x b where b: "base58Encode a = x # b" "is_word_char x" "list_all is_word_char b"
    using base58_nonempty [OF assms(2)] base58_word [of a] by (cases "base58Encode a") auto
  let ?close = "\<lambda>c. c = CHR '')'' \<or> c = CHR '','' \<or> is_space_char c \<or> c = CHR '']''"
  have "re_match (lit ''Address('' @ [One is_word_char, Star is_word_char] @ lit '')'' @ [One ?close]) (''Address('' @ (x # b) @ CHR '')'' # c # s)
      = Some (''Address('' @ (x # b) @ [CHR '')'', c])"
    using run_match [OF b(3), of ?close c s] assms(3) b(2) by (subst re_match_lit) auto
  then show ?thesis using assms(1) b(1) by (auto simp: constructor_pattern_def addr_call_def opens_def is_space_char_def)
qed

lemma constructor_skip:
  assumes "is_word_char c \<or> c = CHR '')''"
  shows "re_iter constructor_pattern (c # s) = re_iter constructor_pattern s"
proof -
  have "\<not> (c = CHR ''('' \<or> c = CHR '','' \<or> is_space_char c \<or> c = CHR ''['')"
    using assms by (auto simp: is_word_char_def is_digit_def is_space_char_def)
  then have "re_match constructor_pattern (c # s) = None" by (simp add: constructor_pattern_def)
  then show ?thesis by (simp add: re_iter_none)
qed

definition inner :: "string \<Rightarrow> string" where
  "inner m = take (length m - 2) (drop 1 m)"

lemma iter_addresses:
  assumes "opens p" and "as \<noteq> []" and "[] \<notin> set as"
  shows "map inner (re_iter constructor_pattern (p # join '', '' (map addr_call as) @ '')'')) = map addr_call as"
  using assms
proof (induction as arbitrary: p)
  case (Cons a as)
  have ne: "a \<noteq> []" using Cons.prems by auto
  have in_a: "inner (p # addr_call a @ [c]) = addr_call a" for c by (simp add: inner_def)
  show ?case
  proof (cases "as = []")
    case True
    have "re_match constructor_pattern [] = None" by (simp add: constructor_pattern_def)
    then show ?thesis
      using re_iter_Some [OF constructor_match [OF _ ne, of p "CHR '')''" "[]"]] Cons.prems True in_a by (simp add: re_iter_none)
  next
    case False
    then show ?thesis
      using re_iter_Some [OF constructor_match [OF _ ne, of p "CHR '',''" "CHR '' '' # join '', '' (map addr_call as) @ '')''"]]
        Cons.IH [of "CHR '' ''"] Cons.prems in_a by (simp add: join_Cons opens_def)
  qed
qed simp

section \<open>Replacing them\<close>

lemma replace_all_skip:
  assumes "pat \<noteq> []" and "\<And>i u. i < length t \<Longrightarrow> drop i t @ s \<noteq> pat @ u"
  shows "replace_all pat rep (t @ s) = t @ replace_all pat rep s"
  using assms(2)
proof (induction t)
  case (Cons c t)
  have "take (length pat) (c # t @ s) \<noteq> pat" using Cons.prems [of 0] by (metis append_take_drop_id append_Cons drop_0 length_greater_0_conv list.discI)
  moreover have "replace_all pat rep (t @ s) = t @ replace_all pat rep s" using Cons.prems [of "Suc _"] by (intro Cons.IH) force
  ultimately show ?case using assms(1) by (simp add: replace_all.simps [of _ _ "c # _"])
qed simp

lemma replace_all_here: "pat \<noteq> [] \<Longrightarrow> replace_all pat rep (pat @ s) = rep @ replace_all pat rep s"
  by (simp add: replace_all.simps [of _ _ "pat @ s"])

lemma replace_all_no_A:
  assumes "CHR ''A'' \<notin> set t"
  shows "replace_all (addr_call a) rep (t @ s) = t @ replace_all (addr_call a) rep s"
proof (rule replace_all_skip)
  fix i u assume i: "i < length t"
  then have "hd (drop i t @ s) \<noteq> CHR ''A''" using assms nth_mem [OF i] by (metis drop_eq_Nil hd_append2 hd_drop_conv_nth leD)
  then show "drop i t @ s \<noteq> addr_call a @ u" by (auto simp: addr_call_def)
qed (simp add: addr_call_def)

lemma list_all_drop: "list_all P xs \<Longrightarrow> list_all P (drop i xs)"
  using set_drop_subset [of i xs] by (auto simp: list_all_iff)

text \<open>An occurrence begins with a whole word that is followed by an opening bracket.\<close>

lemma word_no_occurrence:
  assumes "list_all is_word_char w" and "\<not> is_word_char c" and "c \<noteq> CHR ''('' \<or> (\<forall>i. drop i w \<noteq> ''Address'')"
  shows "replace_all (addr_call a) rep (w @ c # s) = w @ replace_all (addr_call a) rep (c # s)"
proof (rule replace_all_skip)
  fix i u assume "i < length w"
  show "drop i w @ c # s \<noteq> addr_call a @ u"
  proof
    assume "drop i w @ c # s = addr_call a @ u"
    then have "drop i w @ c # s = ''Address'' @ CHR ''('' # base58Encode a @ '')'' @ u" by (simp add: addr_call_def)
    moreover have "list_all is_word_char ''Address''" by (simp add: is_word_char_def)
    ultimately have "drop i w = ''Address''" "c = CHR ''(''"
      using word_stop [OF list_all_drop [OF assms(1)] _ assms(2) no_word_chars(1)] by metis+
    then show False using assms(3) by simp
  qed
qed (simp add: addr_call_def)

lemma replace_other:
  assumes "a \<noteq> b"
  shows "replace_all (addr_call a) rep (addr_call b @ s) = addr_call b @ replace_all (addr_call a) rep s"
proof -
  have "take (length (addr_call a)) (addr_call b @ s) \<noteq> addr_call a"
  proof
    assume "take (length (addr_call a)) (addr_call b @ s) = addr_call a"
    then have "addr_call b @ s = addr_call a @ drop (length (addr_call a)) (addr_call b @ s)" by (metis append_take_drop_id)
    then have "base58Encode b @ CHR '')'' # s = base58Encode a @ CHR '')'' # drop (length (addr_call a)) (addr_call b @ s)" by (simp add: addr_call_def)
    then show False using word_stop(1) [OF base58_word base58_word] assms base58_inject by (metis no_word_chars(2))
  qed
  then have "replace_all (addr_call a) rep (addr_call b @ s) = CHR ''A'' # replace_all (addr_call a) rep (''ddress('' @ base58Encode b @ CHR '')'' # s)"
    by (subst replace_all.simps) (simp add: addr_call_def)
  also have "\<dots> = CHR ''A'' # ''ddress('' @ base58Encode b @ replace_all (addr_call a) rep (CHR '')'' # s)"
    using replace_all_no_A [of "''ddress(''" a rep] word_no_occurrence [where w = "base58Encode b" and c = "CHR '')''" and a = a and rep = rep and s = s] base58_word [of b] by simp
  also have "\<dots> = addr_call b @ replace_all (addr_call a) rep s"
    using replace_all_no_A [of "'')''" a rep s] by (simp add: addr_call_def)
  finally show ?thesis .
qed

lemma addr_hex_no_A: "CHR ''A'' \<notin> set (addr_hex a)"
proof -
  have no_A: "HEX_DIGITS ! i \<noteq> CHR ''A''" if "i < 16" for i
  proof -
    have "HEX_DIGITS ! i \<in> set HEX_DIGITS" using that by (intro nth_mem) (simp add: HEX_DIGITS_def)
    moreover have "CHR ''A'' \<notin> set HEX_DIGITS" by (simp add: HEX_DIGITS_def)
    ultimately show ?thesis by metis
  qed
  have "set (toHex bs) \<subseteq> {HEX_DIGITS ! i |i. i < 16}" for bs using nibbles(1,2) by (force simp: toHex_def)
  then show ?thesis using no_A by (fastforce simp: addr_hex_def)
qed

definition addr_text :: "bytes set \<Rightarrow> bytes \<Rightarrow> string" where
  "addr_text D a = (if a \<in> D then addr_hex a else addr_call a)"

lemma replace_in_list:
  "replace_all (addr_call a) (addr_hex a) (join '', '' (map (addr_text D) as) @ '')'') = join '', '' (map (addr_text (insert a D)) as) @ '')''"
proof (induction as)
  case Nil
  then show ?case using replace_all_no_A [of "'')''" a _ "[]"] by (simp add: replace_all.simps)
next
  case (Cons b as)
  have step: "replace_all (addr_call a) (addr_hex a) (addr_text D b @ s) = addr_text (insert a D) b @ replace_all (addr_call a) (addr_hex a) s" for s
    using replace_other [of a b] replace_all_no_A [OF addr_hex_no_A, of a "addr_hex a" b] replace_all_here [of "addr_call a"]
    by (auto simp: addr_text_def addr_call_def)
  show ?case
    using Cons step replace_all_no_A [of "'')''" a "addr_hex a" "[]"] replace_all_no_A [of "'', ''" a "addr_hex a"]
    by (cases "as = []") (simp_all add: join_Cons replace_all.simps [of _ _ "[]"])
qed

lemma replace_step:
  assumes "inner m = addr_call a" and "length a \<le> 32"
  shows "replace_constructors (m # ms) r = replace_constructors ms (replace_all (addr_call a) (addr_hex a) r)"
proof -
  have b: "take (length (addr_call a) - 8 - 1) (drop 8 (addr_call a)) = base58Encode a" by (simp add: addr_call_def)
  show ?thesis
    unfolding replace_constructors.simps inner_def [symmetric] Let_def assms(1) b
    using assms(2) by (simp add: addr_hex_def addr_call_def)
qed

lemma replace_constructors_inner:
  assumes "map inner ms = map addr_call as" and "list_all (\<lambda>a. length a \<le> 32) as" and "list_all is_word_char name" and "\<forall>i. drop i name \<noteq> ''Address''"
  shows "replace_constructors ms (name @ ''('' @ join '', '' (map (addr_text D) all) @ '')'')
    = Inr (name @ ''('' @ join '', '' (map (addr_text (set as \<union> D)) all) @ '')'')"
  using assms(1,2)
proof (induction as arbitrary: ms D)
  case (Cons a as)
  then obtain m ms' where ms: "ms = m # ms'" "inner m = addr_call a" "map inner ms' = map addr_call as" by auto
  have "replace_all (addr_call a) (addr_hex a) (name @ ''('' @ join '', '' (map (addr_text D) all) @ '')'')
      = name @ ''('' @ join '', '' (map (addr_text (insert a D)) all) @ '')''"
    using word_no_occurrence [OF assms(3), of "CHR ''(''" a] replace_all_no_A [of "''(''" a "addr_hex a"] assms(4) replace_in_list by simp
  then have "replace_constructors ms (name @ ''('' @ join '', '' (map (addr_text D) all) @ '')'')
      = replace_constructors ms' (name @ ''('' @ join '', '' (map (addr_text (insert a D)) all) @ '')'')"
    using Cons.prems(2) replace_step [OF ms(2)] by (simp add: ms(1))
  then show ?case using Cons.IH [OF ms(3), of "insert a D"] Cons.prems(2) by simp
qed simp

lemma name_skip:
  assumes "list_all is_word_char name"
  shows "re_iter constructor_pattern (name @ s) = re_iter constructor_pattern s"
  using assms by (induction name) (simp_all add: constructor_skip)

lemma no_arguments: "re_iter constructor_pattern ''()'' = []"
proof -
  have "re_match constructor_pattern ''()'' = None" "re_match constructor_pattern '')'' = None" "re_match constructor_pattern [] = None"
    by (simp_all add: constructor_pattern_def lit_def is_space_char_def)
  then show ?thesis by (simp add: re_iter_none)
qed

section \<open>Properties\<close>

text \<open>
  C24: the addresses in a call are passed to the encoder as 32 bytes. In a call whose arguments are addresses, separated by a
  comma and a space, every \<^verbatim>\<open>Address(...)\<close> with the base58 text of up to 32 bytes is replaced by these bytes, padded with zeros
  in front, as hexadecimal digits in quotes, and nothing else is changed. Separated by a comma alone, the second of two
  different addresses is not found: the comma belongs to the match of the first.
\<close>

theorem address_arguments_replaced:
  assumes "list_all is_word_char name" and "\<forall>i. drop i name \<noteq> ''Address''"
    and "list_all (\<lambda>a. a \<noteq> [] \<and> length a \<le> 32) as" and "a \<noteq> b" and "a \<noteq> [] \<and> length a \<le> 32"
  shows "replaceAddressConstructor (name @ ''('' @ join '', '' (map addr_call as) @ '')'') = Inr (name @ ''('' @ join '', '' (map addr_hex as) @ '')'')
    \<and> replaceAddressConstructor (name @ ''('' @ addr_call a @ '','' @ addr_call b @ '')'') = Inr (name @ ''('' @ addr_hex a @ '','' @ addr_call b @ '')'')"
proof
  have "map inner (re_iter constructor_pattern (name @ ''('' @ join '', '' (map addr_call as) @ '')'')) = map addr_call as"
    using name_skip [OF assms(1)] iter_addresses [of "CHR ''(''" as] assms(3) no_arguments
    by (cases "as = []") (auto simp: opens_def list_all_iff)
  moreover have "list_all (\<lambda>a. length a \<le> 32) as" using assms(3) by (auto simp: list_all_iff)
  moreover have "addr_text {} = addr_call" by (rule ext) (simp add: addr_text_def)
  moreover have "map (addr_text (set as \<union> {})) as = map addr_hex as" by (simp add: addr_text_def)
  ultimately show "replaceAddressConstructor (name @ ''('' @ join '', '' (map addr_call as) @ '')'') = Inr (name @ ''('' @ join '', '' (map addr_hex as) @ '')'')"
    unfolding replaceAddressConstructor_def by (metis replace_constructors_inner [OF _ _ assms(1,2), of _ as "{}" as])
next
  let ?b = "addr_call b @ '')''"
  have skip: "re_iter constructor_pattern ?b = []"
  proof -
    have "re_iter constructor_pattern ?b = re_iter constructor_pattern (''('' @ base58Encode b @ ''))'')"
      using name_skip [of "''Address''"] by (simp add: addr_call_def is_word_char_def)
    moreover have "re_match constructor_pattern (''('' @ base58Encode b @ ''))'') = None"
    proof -
      have "\<nexists>u. base58Encode b @ ''))'' = ''Address('' @ u"
        using word_stop(2) [OF base58_word, of "''Address''" "CHR '')''" "CHR ''(''" b] by (auto simp: is_word_char_def is_digit_def)
      then show ?thesis using lit_conflict [of "base58Encode b @ ''))''" "''Address(''"] by (simp add: constructor_pattern_def)
    qed
    moreover have "re_iter constructor_pattern (base58Encode b @ ''))'') = re_iter constructor_pattern []"
      using name_skip [OF base58_word] by (simp add: constructor_skip)
    moreover have "re_match constructor_pattern [] = None" by (simp add: constructor_pattern_def)
    ultimately show ?thesis by (simp add: re_iter_none)
  qed
  have "re_iter constructor_pattern (name @ ''('' @ addr_call a @ '','' @ ?b) = [''('' @ addr_call a @ '','']"
    using name_skip [OF assms(1)] re_iter_Some [OF constructor_match [of "CHR ''(''" a "CHR '',''" ?b]] assms(5) skip by (simp add: opens_def)
  moreover have "replace_all (addr_call a) (addr_hex a) (name @ ''('' @ addr_call a @ '','' @ ?b) = name @ ''('' @ addr_hex a @ '','' @ ?b"
    using word_no_occurrence [OF assms(1), of "CHR ''(''" a "addr_hex a"] assms(2) replace_all_no_A [of "''(''" a "addr_hex a"]
      replace_all_here [of "addr_call a" "addr_hex a"] replace_all_no_A [of "'',''" a "addr_hex a"] replace_other [OF assms(4)]
      replace_all_no_A [of "'')''" a "addr_hex a" "[]"] by (simp add: replace_all.simps [of _ _ "[]"] addr_call_def)
  ultimately show "replaceAddressConstructor (name @ ''('' @ addr_call a @ '','' @ addr_call b @ '')'') = Inr (name @ ''('' @ addr_hex a @ '','' @ addr_call b @ '')'')"
    using replace_step [of "''('' @ addr_call a @ '',''" a "[]"] assms(5) by (simp add: replaceAddressConstructor_def inner_def)
qed

theorem address_arguments_replaced_witness:
  "replaceAddressConstructor (''send('' @ join '', '' (map addr_call [[1, 2], [3]]) @ '')'') = Inr (''send('' @ join '', '' (map addr_hex [[1, 2], [3]]) @ '')'')
   \<and> replaceAddressConstructor (''send('' @ addr_call [1] @ '','' @ addr_call [2] @ '')'') = Inr (''send('' @ addr_hex [1] @ '','' @ addr_call [2] @ '')'')"
proof -
  have "\<forall>i. drop i ''send'' \<noteq> ''Address''"
  proof (intro allI notI)
    fix i assume "drop i ''send'' = ''Address''"
    then have "length (drop i ''send'') = length (''Address'')" by (rule arg_cong)
    then show False by (simp only: length_drop) simp
  qed
  then show ?thesis
    using address_arguments_replaced [of "''send''" "[[1, 2], [3]]" "[1]" "[2]"] by (simp add: is_word_char_def is_digit_def)
qed

end
