(* ===== verification/Client.thy ===== *)
theory Client
  imports Grpc AddressArguments
begin

text \<open>
  The command line client, \<^verbatim>\<open>src/client/\<close>: the options of a command (\<^verbatim>\<open>base/program_options.cpp\<close>), the dispatch to a
  subprogram (\<^verbatim>\<open>subprogram_router.cpp\<close>, \<^verbatim>\<open>main.cpp\<close>) and the commands themselves (\<^verbatim>\<open>actions.cpp\<close>). A command changes the files of the user and, through the RPC client it
  creates, the node; its outcome is an exit code or an exception, the text written to the
  standard output, and the world after it. The parsing of a command line is that of Boost, an argument.
\<close>

section \<open>Options\<close>

datatype option_type = Flag_option | String_option | Balance_option | U64_option

datatype option_value = Flag_value | String_value string | Balance_value balance | U64_value "64 word"

type_synonym options = "string \<rightharpoonup> option_value"

type_synonym options_description = "(string \<times> option_type) list"

record parser =
  parse_command_line :: "options_description \<Rightarrow> string list \<Rightarrow> options option"
  print_description :: "options_description \<Rightarrow> string"

definition empty_description :: options_description where
  "empty_description = [(''help'', Flag_option)]"

definition process_options :: "parser \<Rightarrow> options_description \<Rightarrow> string list \<Rightarrow> options res" where
  "process_options B desc argv = (case parse_command_line B desc argv of Some opts \<Rightarrow> Inr opts | None \<Rightarrow> Inl ParsingError)"

definition helpMessage :: "parser \<Rightarrow> options_description \<Rightarrow> string" where
  "helpMessage B desc = print_description B desc @ [CHR 0x0A]"

definition hasOption :: "options \<Rightarrow> string \<Rightarrow> bool" where
  "hasOption opts flag_name \<longleftrightarrow> opts flag_name \<noteq> None"

definition getString :: "options \<Rightarrow> string \<Rightarrow> string res" where
  "getString opts flag_name =
     (case opts flag_name of None \<Rightarrow> Inl ParsingError | Some (String_value s) \<Rightarrow> Inr s | _ \<Rightarrow> Inl InvalidArgument)"

definition getBalance_option :: "options \<Rightarrow> string \<Rightarrow> balance res" where
  "getBalance_option opts flag_name =
     (case opts flag_name of None \<Rightarrow> Inl ParsingError | Some (Balance_value b) \<Rightarrow> Inr b | _ \<Rightarrow> Inl InvalidArgument)"

definition getU64 :: "options \<Rightarrow> string \<Rightarrow> 64 word res" where
  "getU64 opts flag_name =
     (case opts flag_name of None \<Rightarrow> Inl ParsingError | Some (U64_value n) \<Rightarrow> Inr n | _ \<Rightarrow> Inl InvalidArgument)"

definition checkOptionEmptyAndWriteMessage :: "options \<Rightarrow> string \<Rightarrow> bool" where
  "checkOptionEmptyAndWriteMessage opts option \<longleftrightarrow> \<not> hasOption opts option"

section \<open>Subprograms\<close>

datatype 'a router = Router string "(string \<times> 'a router) list" "string list \<Rightarrow> 'a"

fun addSubprogram :: "string \<Rightarrow> (string list \<Rightarrow> 'a) \<Rightarrow> 'a router \<Rightarrow> 'a router res" where
  "addSubprogram name processor (Router router_name descendants main) =
     (if name = [] then Inl InvalidArgument
      else if map_of descendants name \<noteq> None then Inl InvalidArgument
      else Inr (Router router_name ((name, Router name [] processor) # descendants) main))"

fun router_process :: "'a \<Rightarrow> 'a router \<Rightarrow> string list \<Rightarrow> 'a" where
  "router_process raise (Router name descendants processor) (exe # sub_program # rest) =
     (case map_of descendants sub_program of
        Some it \<Rightarrow> router_process raise it (sub_program # rest)
      | None \<Rightarrow> if CHR ''-'' \<notin> set sub_program then raise else processor (exe # sub_program # rest))"
| "router_process raise (Router name descendants processor) argv = processor argv"

section \<open>The RPC clients\<close>

text \<open>
  The abstract class \<^verbatim>\<open>BaseRpc\<close> and its two implementations as clients. A query does not change the
  node; after a pushed transaction it is the node the server left, if the model follows it.
\<close>

record 's base_rpc =
  br_getAccountInfo :: "address \<Rightarrow> 's node \<Rightarrow> account_info res"
  br_getNodeInfo :: "'s node \<Rightarrow> rpc_info res"
  br_getBlock :: "sha256 \<Rightarrow> 's node \<Rightarrow> iblock res"
  br_getBlock_number :: "depth \<Rightarrow> 's node \<Rightarrow> iblock res"
  br_getTransaction :: "sha256 \<Rightarrow> 's node \<Rightarrow> transaction res"
  br_pushTransaction :: "transaction \<Rightarrow> 's node \<Rightarrow> tx_status res \<times> 's node option"
  br_getTransactionStatus :: "sha256 \<Rightarrow> 's node \<Rightarrow> tx_status res"

datatype client_mode = GRPC | HTTP

fun createRpcClient :: "'s node_env \<Rightarrow> 'j json \<Rightarrow> time \<Rightarrow> client_mode \<Rightarrow> 's base_rpc" where
  "createRpcClient E J now GRPC =
     (let X = env_ext E in
      \<lparr>br_getAccountInfo = (\<lambda>address nd. grpc_getAccountInfo X (stub (get_account E) nd) address),
       br_getNodeInfo = (\<lambda>nd. grpc_getNodeInfo X (stub (\<lambda>_. get_node_info E) nd ())),
       br_getBlock = (\<lambda>block_hash nd. grpc_getBlock X (stub (get_block_by_hash E) nd) block_hash),
       br_getBlock_number = (\<lambda>block_number nd. grpc_getBlock_number X (stub (get_block_by_number E) nd) block_number),
       br_getTransaction = (\<lambda>transaction_hash nd. grpc_getTransaction X (stub (get_transaction E) nd) transaction_hash),
       br_pushTransaction = (\<lambda>transaction nd. (grpc_pushTransaction X (stub (push_transaction E now) nd) transaction,
         case push_transaction E now (grpc_serializeTransaction X transaction) nd of Inr (reply, nd') \<Rightarrow> nd' | Inl _ \<Rightarrow> None)),
       br_getTransactionStatus = (\<lambda>transaction_hash nd. grpc_getTransactionStatus X (stub (get_transaction_result E) nd) transaction_hash)\<rparr>)"
| "createRpcClient E J now HTTP =
     (let X = env_ext E in
      \<lparr>br_getAccountInfo = (\<lambda>address nd. client_getAccountInfo X J (http_post E J now nd) address),
       br_getNodeInfo = (\<lambda>nd. client_getNodeInfo X J (http_post E J now nd)),
       br_getBlock = (\<lambda>block_hash nd. client_getBlock X J (http_post E J now nd) block_hash),
       br_getBlock_number = (\<lambda>block_number nd. client_getBlock_number X J (http_post E J now nd) block_number),
       br_getTransaction = (\<lambda>transaction_hash nd. client_getTransaction X J (http_post E J now nd) transaction_hash),
       br_pushTransaction = (\<lambda>transaction nd. (client_pushTransaction X J (http_post E J now nd) transaction,
         case handler E J now [''push_transaction''] (serializeTransaction X J transaction) nd of Inr (status, reply, nd') \<Rightarrow> nd' | Inl _ \<Rightarrow> None)),
       br_getTransactionStatus = (\<lambda>transaction_hash nd. client_getTransactionStatus X J (http_post E J now nd) transaction_hash)\<rparr>)"

section \<open>Running a command\<close>

text \<open>
  The world of a command, and what it depends on: the libraries, the clock of the client and of
  the node, and the random generator.
\<close>

record 's world =
  w_files :: files
  w_node :: "'s node option"

record ('s, 'j) client_env =
  cl_env :: "'s node_env"
  cl_json :: "'j json"
  cl_parser :: parser
  cl_now :: time
  cl_server_now :: time
  cl_rnd :: "nat \<Rightarrow> bytes"
  cl_tools :: toolchain

type_synonym 's outcome = "int res \<times> string \<times> 's world"

definition EXIT_OK :: int where
  "EXIT_OK = 0"

definition EXIT_FAIL :: int where
  "EXIT_FAIL = 1"

definition endl :: string where
  "endl = [CHR 0x0A]"

definition tab :: string where
  "tab = [CHR 0x09]"

definition rpc_client :: "('s, 'j) client_env \<Rightarrow> bool \<Rightarrow> 's base_rpc" where
  "rpc_client C is_http_mode = createRpcClient (cl_env C) (cl_json C) (cl_server_now C) (if is_http_mode then HTTP else GRPC)"

definition rpc_query :: "('s node \<Rightarrow> 'a res) \<Rightarrow> 's world \<Rightarrow> 'a res" where
  "rpc_query call w = (case w_node w of Some nd \<Rightarrow> call nd | None \<Rightarrow> Inl RpcError)"

definition print_or_raise :: "string res \<Rightarrow> 's world \<Rightarrow> 's outcome" where
  "print_or_raise text w = (case text of Inr s \<Rightarrow> (Inr EXIT_OK, s, w) | Inl e \<Rightarrow> (Inl e, [], w))"

text \<open>
  \<open>loadOptions\<close> returns \<open>None\<close> where the method returns \<^verbatim>\<open>EXIT_FAIL\<close>. What \<open>execute\<close> has printed and changed before an
  exception stays; the catch clauses cover every exception.
\<close>

definition action_run ::
  "('s, 'j) client_env \<Rightarrow> options_description \<Rightarrow> (options \<Rightarrow> files \<Rightarrow> 'a option res) \<Rightarrow> ('a \<Rightarrow> 's world \<Rightarrow> 's outcome) \<Rightarrow> string list \<Rightarrow> 's world \<Rightarrow> 's outcome" where
  "action_run C setupOptions loadOptions execute argv w =
     (let desc = empty_description @ setupOptions;
          handle_error = (\<lambda>e out w. if is_std_exception e then (Inr EXIT_FAIL, out, w) else (Inl e, out, w))
      in case process_options (cl_parser C) desc argv of
           Inl e \<Rightarrow> handle_error e [] w
         | Inr opts \<Rightarrow>
             if hasOption opts ''help'' then (Inr EXIT_OK, helpMessage (cl_parser C) desc @ endl @ endl, w)
             else (case loadOptions opts (w_files w) of
                     Inl e \<Rightarrow> handle_error e [] w
                   | Inr None \<Rightarrow> (Inr EXIT_FAIL, [], w)
                   | Inr (Some arg) \<Rightarrow>
                       (case execute arg w of
                          (Inl e, out, w) \<Rightarrow> handle_error e out w
                        | (Inr ret, out, w) \<Rightarrow> (Inr ret, out, w))))"

definition require :: "options \<Rightarrow> string \<Rightarrow> (options \<Rightarrow> string \<Rightarrow> 'v res) \<Rightarrow> ('v \<Rightarrow> 'a option res) \<Rightarrow> 'a option res" where
  "require opts option getValue rest =
     (if checkOptionEmptyAndWriteMessage opts option then Inr None else rbind (getValue opts option) rest)"


section \<open>Commands without a transaction\<close>

definition host_options :: options_description where
  "host_options = [(''host'', String_option), (''http'', Flag_option)]"

definition host_loadOptions :: "options \<Rightarrow> files \<Rightarrow> (string \<times> bool) option res" where
  "host_loadOptions opts fs = require opts ''host'' getString (\<lambda>host_address. Inr (Some (host_address, hasOption opts ''http'')))"

definition ActionTestConnection_execute :: "('s, 'j) client_env \<Rightarrow> string \<times> bool \<Rightarrow> 's world \<Rightarrow> 's outcome" where
  "ActionTestConnection_execute C arg w =
     (case arg of (host_address, is_http_mode) \<Rightarrow>
      print_or_raise (rbind (rpc_query (br_getNodeInfo (rpc_client C is_http_mode)) w) (\<lambda>answer.
        Inr (if RPC_PUBLIC_API_VERSION = ri_api_version answer then ''Connection test passed'' @ endl else ''Connection test failed'' @ endl))) w)"

definition cli_ActionNodeInfo_execute :: "('s, 'j) client_env \<Rightarrow> string \<times> bool \<Rightarrow> 's world \<Rightarrow> 's outcome" where
  "cli_ActionNodeInfo_execute C arg w =
     (case arg of (host_address, is_http_mode) \<Rightarrow>
      print_or_raise (rbind (rpc_query (br_getNodeInfo (rpc_client C is_http_mode)) w) (\<lambda>info.
        Inr (''Top block hash: '' @ sha256_toHex (ri_top_block_hash info) @ endl
           @ ''Top block number: '' @ std_to_string (unat (ri_top_block_number info)) @ endl))) w)"

definition keys_options :: options_description where
  "keys_options = [(''keys'', String_option)]"

definition keys_loadOptions :: "options \<Rightarrow> files \<Rightarrow> string option res" where
  "keys_loadOptions opts fs =
     require opts ''keys'' getString (\<lambda>keys_dir.
     if \<not> fs_exists fs keys_dir then Inr None
     else if \<not> fs_is_directory fs keys_dir then Inr None
     else Inr (Some keys_dir))"

definition keys_text :: "ext \<Rightarrow> bytes \<Rightarrow> string res" where
  "keys_text X priv =
     rbind (secp_toPublicKey X priv) (\<lambda>public_key.
     Inr (''Address: '' @ address_toString (address_of_public_key X public_key) @ endl
        @ ''Hash of public key: '' @ sha256_toHex (sha256_compute X public_key) @ endl
        @ ''Hash of private key: '' @ sha256_toHex (sha256_compute X priv) @ endl))"

text \<open>A path is printed in quotes.\<close>

definition std_quoted :: "string \<Rightarrow> string" where
  "std_quoted s = CHR 0x22 # concat (map (\<lambda>c. if c = CHR 0x22 \<or> c = CHR 0x5C then [CHR 0x5C, c] else [c]) s) @ [CHR 0x22]"

definition ActionGenerateKeys_execute :: "('s, 'j) client_env \<Rightarrow> string \<Rightarrow> 's world \<Rightarrow> 's outcome" where
  "ActionGenerateKeys_execute C keys_dir w =
     (let X = env_ext (cl_env C); private_path = makePrivateKeyPath keys_dir;
          generated = ''Generated key at '' @ std_quoted keys_dir @ endl
      in case secp_generate X (cl_rnd C) of
           Inl e \<Rightarrow> (Inl e, [], w)
         | Inr priv \<Rightarrow>
             if fs_exists (w_files w) private_path then (Inr EXIT_FAIL, [], w)
             else (case secp_save private_path priv (w_files w) of
                     Inl e \<Rightarrow> (Inl e, [], w)
                   | Inr fs \<Rightarrow>
                       (case keys_text X priv of
                          Inl e \<Rightarrow> (Inl e, generated @ ''Address: '', w\<lparr>w_files := fs\<rparr>)
                        | Inr text \<Rightarrow>
                            (case secp_save private_path priv fs of
                               Inl e \<Rightarrow> (Inl e, generated @ text, w\<lparr>w_files := fs\<rparr>)
                             | Inr fs \<Rightarrow> (Inr EXIT_OK, generated @ text, w\<lparr>w_files := fs\<rparr>)))))"

definition ActionKeysInfo_execute :: "('s, 'j) client_env \<Rightarrow> string \<Rightarrow> 's world \<Rightarrow> 's outcome" where
  "ActionKeysInfo_execute C keys_dir w =
     (let X = env_ext (cl_env C); private_path = makePrivateKeyPath keys_dir
      in if \<not> fs_exists (w_files w) private_path then (Inr EXIT_FAIL, [], w)
         else (case secp_load X private_path (w_files w) of
                 Inl e \<Rightarrow> (Inl e, [], w)
               | Inr priv \<Rightarrow>
                   (case keys_text X priv of Inl e \<Rightarrow> (Inl e, ''Address: '', w) | Inr text \<Rightarrow> (Inr EXIT_OK, text, w))))"

definition address_options :: options_description where
  "address_options = [(''host'', String_option), (''address'', String_option), (''http'', Flag_option)]"

definition address_loadOptions :: "options \<Rightarrow> files \<Rightarrow> (string \<times> address \<times> bool) option res" where
  "address_loadOptions opts fs =
     require opts ''host'' getString (\<lambda>host_address.
     require opts ''address'' getString (\<lambda>s.
     rbind (address_of_string s) (\<lambda>account_address.
     Inr (Some (host_address, account_address, hasOption opts ''http'')))))"

definition ActionGetBalance_execute :: "('s, 'j) client_env \<Rightarrow> string \<times> address \<times> bool \<Rightarrow> 's world \<Rightarrow> 's outcome" where
  "ActionGetBalance_execute C arg w =
     (case arg of (host_address, account_address, is_http_mode) \<Rightarrow>
      print_or_raise (rbind (rpc_query (br_getAccountInfo (rpc_client C is_http_mode) account_address) w) (\<lambda>result.
        Inr (''Balance of '' @ address_toString account_address @ '' is '' @ big_str (env_ext (cl_env C)) (info_balance result) @ endl))) w)"

definition account_text :: "ext \<Rightarrow> account_info \<Rightarrow> string" where
  "account_text X result =
     (if info_type result = CLIENT
      then ''Client address: '' @ address_toString (info_address result) @ endl
         @ tab @ ''Balance: '' @ big_str X (info_balance result) @ endl
         @ tab @ ''Nonce: '' @ std_to_string (unat (info_nonce result)) @ endl
         @ tab @ ''Transactions hashes: ['' @ endl
         @ concat (map (\<lambda>tx_hs. tab @ tab @ sha256_toHex tx_hs @ endl) (info_transactions_hashes result))
         @ tab @ tab @ '']'' @ endl
      else ''Contract address: '' @ address_toString (info_address result) @ endl
         @ tab @ ''Balance: '' @ big_str X (info_balance result) @ endl)"

definition ActionGetAccountInfo_execute :: "('s, 'j) client_env \<Rightarrow> string \<times> address \<times> bool \<Rightarrow> 's world \<Rightarrow> 's outcome" where
  "ActionGetAccountInfo_execute C arg w =
     (case arg of (host_address, account_address, is_http_mode) \<Rightarrow>
      print_or_raise (rbind (rpc_query (br_getAccountInfo (rpc_client C is_http_mode) account_address) w) (\<lambda>result.
        Inr (account_text (env_ext (cl_env C)) result))) w)"

section \<open>Transactions\<close>

fun action_type_message :: "action_type \<Rightarrow> string" where
  "action_type_message Transfer = ''transfer''"
| "action_type_message ContractCall = ''contract_call''"
| "action_type_message ContractCreation = ''contract_creation''"
| "action_type_message None_action = ''can_not_be_classified''"

text \<open>Two of the texts are exchanged in the code.\<close>

fun status_code_message :: "status_code \<Rightarrow> string" where
  "status_code_message Success = ''success''"
| "status_code_message Pending = ''pending''"
| "status_code_message NotEnoughBalance = ''bad_query_form''"
| "status_code_message BadQueryForm = ''not_enough_balance''"
| "status_code_message BadSign = ''bad_sign''"
| "status_code_message Revert = ''revert''"
| "status_code_message Failed = ''failed''"

definition writeTransactionStatus :: "ext \<Rightarrow> tx_status \<Rightarrow> string \<times> unit res" where
  "writeTransactionStatus X status =
     (let head = tab @ ''Type: '' @ action_type_message (st_action status) @ endl
               @ tab @ ''Status: '' @ status_code_message (st_status status) @ endl
               @ tab @ ''Fee left: '' @ std_to_string (unat (st_fee_left status)) @ endl
               @ tab @ ''Message: ''
      in if st_status status = Success \<and> st_action status = ContractCreation
         then (case address_of_string (st_message status) of
                 Inl e \<Rightarrow> (head @ ''new contract address '', Inl e)
               | Inr a \<Rightarrow> (head @ ''new contract address '' @ address_toString a @ endl, Inr ()))
         else if st_status status = Success \<and> st_action status = ContractCall
         then (case base64Decode X (st_message status) of
                 Inl e \<Rightarrow> (head, Inl e)
               | Inr bs \<Rightarrow> (head @ toHex bs @ endl, Inr ()))
         else (head @ st_message status @ endl, Inr ()))"

text \<open>The common end of the three commands that send a transaction\<close>

definition send_transaction :: "('s, 'j) client_env \<Rightarrow> bool \<Rightarrow> transaction res \<Rightarrow> 's world \<Rightarrow> 's outcome" where
  "send_transaction C is_http_mode built w =
     (let X = env_ext (cl_env C)
      in case built of
           Inl e \<Rightarrow> (Inl e, [], w)
         | Inr tx \<Rightarrow>
             (let out = ''Transaction with hash[hex]: '' @ sha256_toHex (hashOfTransaction X tx) @ endl
              in case w_node w of
                   None \<Rightarrow> (Inl RpcError, out, w)
                 | Some nd \<Rightarrow>
                     (case br_pushTransaction (rpc_client C is_http_mode) tx nd of
                        (Inl e, nd') \<Rightarrow> (Inl e, out, w\<lparr>w_node := nd'\<rparr>)
                      | (Inr result, nd') \<Rightarrow>
                          (case writeTransactionStatus X result of
                             (text, Inl e) \<Rightarrow> (Inl e, out @ text, w\<lparr>w_node := nd'\<rparr>)
                           | (text, Inr _) \<Rightarrow>
                               (Inr (if st_status result \<in> {Pending, Success} then EXIT_OK else EXIT_FAIL), out @ text, w\<lparr>w_node := nd'\<rparr>)))))"

definition transfer_options :: options_description where
  "transfer_options = [(''host'', String_option), (''to'', String_option), (''amount'', Balance_option),
     (''keys'', String_option), (''fee'', U64_option), (''http'', Flag_option)]"

record transfer_args =
  ta_host :: string
  ta_to :: address
  ta_amount :: balance
  ta_fee :: fee
  ta_keys_dir :: string
  ta_http :: bool

definition ActionTransfer_loadOptions :: "options \<Rightarrow> files \<Rightarrow> transfer_args option res" where
  "ActionTransfer_loadOptions opts fs =
     require opts ''host'' getString (\<lambda>host_address.
     require opts ''to'' getString (\<lambda>s.
     rbind (address_of_string s) (\<lambda>to_address.
     require opts ''amount'' getBalance_option (\<lambda>amount.
     require opts ''fee'' getU64 (\<lambda>fee.
     require opts ''keys'' getString (\<lambda>keys_dir.
     Inr (Some \<lparr>ta_host = host_address, ta_to = to_address, ta_amount = amount, ta_fee = fee, ta_keys_dir = keys_dir,
       ta_http = hasOption opts ''http''\<rparr>)))))))"

definition make_transaction :: "ext \<Rightarrow> files \<Rightarrow> time \<Rightarrow> string \<Rightarrow> address \<Rightarrow> balance \<Rightarrow> fee \<Rightarrow> bytes res \<Rightarrow> transaction res" where
  "make_transaction X fs now keys_dir to amount fee data =
     rbind (secp_load X (makePrivateKeyPath keys_dir) fs) (\<lambda>private_key.
     rbind (secp_toPublicKey X private_key) (\<lambda>public_key.
     rbind data (\<lambda>data.
     rbind (build_tx (setData data (setFee fee (setTimestamp now (setAmount amount (setTo to
       (setFrom (address_of_public_key X public_key) empty_builder))))))) (\<lambda>tx.
     sign_transaction X private_key tx))))"

definition ActionTransfer_execute :: "('s, 'j) client_env \<Rightarrow> transfer_args \<Rightarrow> 's world \<Rightarrow> 's outcome" where
  "ActionTransfer_execute C arg w =
     send_transaction C (ta_http arg) (make_transaction (env_ext (cl_env C)) (w_files w) (cl_now C) (ta_keys_dir arg) (ta_to arg)
       (ta_amount arg) (ta_fee arg) (Inr [])) w"

definition push_contract_options :: options_description where
  "push_contract_options = [(''host'', String_option), (''amount'', Balance_option), (''fee'', U64_option),
     (''keys'', String_option), (''message'', String_option), (''code'', String_option), (''http'', Flag_option)]"

record contract_args =
  ca_host :: string
  ca_keys_dir :: string
  ca_amount :: balance
  ca_fee :: fee
  ca_message :: bytes
  ca_http :: bool

definition ActionPushContract_loadOptions :: "options \<Rightarrow> files \<Rightarrow> contract_args option res" where
  "ActionPushContract_loadOptions opts fs =
     require opts ''host'' getString (\<lambda>host_address.
     require opts ''keys'' getString (\<lambda>keys_dir.
     require opts ''amount'' getBalance_option (\<lambda>amount.
     require opts ''fee'' getU64 (\<lambda>fee.
     rbind (if hasOption opts ''message'' then rbind (getString opts ''message'') fromHex else Inr []) (\<lambda>message.
     let finish = (\<lambda>message. Inr (Some \<lparr>ca_host = host_address, ca_keys_dir = keys_dir, ca_amount = amount, ca_fee = fee,
           ca_message = message, ca_http = hasOption opts ''http''\<rparr>))
     in if message = [] then
          require opts ''code'' getString (\<lambda>code_folder_path.
          let code_binary_file_path = path_append code_folder_path ''compiled_code.bin'' in
          if \<not> fs_exists fs code_binary_file_path then Inl InvalidArgument
          else rbind (fromHex (case fs code_binary_file_path of Some (Regular_file buf) \<Rightarrow> buf | _ \<Rightarrow> [])) finish)
        else finish message)))))"

definition ActionPushContract_execute :: "('s, 'j) client_env \<Rightarrow> contract_args \<Rightarrow> 's world \<Rightarrow> 's outcome" where
  "ActionPushContract_execute C arg w =
     send_transaction C (ca_http arg) (make_transaction (env_ext (cl_env C)) (w_files w) (cl_now C) (ca_keys_dir arg) address_null
       (ca_amount arg) (ca_fee arg) (Inr (ca_message arg))) w"

definition call_options :: options_description where
  "call_options = [(''host'', String_option), (''to'', String_option), (''amount'', Balance_option), (''fee'', U64_option),
     (''keys'', String_option), (''message'', String_option), (''http'', Flag_option)]"

definition ActionContractCall_loadOptions :: "options \<Rightarrow> files \<Rightarrow> (transfer_args \<times> string) option res" where
  "ActionContractCall_loadOptions opts fs =
     require opts ''host'' getString (\<lambda>host_address.
     require opts ''to'' getString (\<lambda>s.
     rbind (address_of_string s) (\<lambda>to_address.
     require opts ''amount'' getBalance_option (\<lambda>amount.
     require opts ''fee'' getU64 (\<lambda>fee.
     require opts ''keys'' getString (\<lambda>keys_dir.
     require opts ''message'' getString (\<lambda>message.
     Inr (Some (\<lparr>ta_host = host_address, ta_to = to_address, ta_amount = amount, ta_fee = fee, ta_keys_dir = keys_dir,
       ta_http = hasOption opts ''http''\<rparr>, message)))))))))"

definition ActionContractCall_execute :: "('s, 'j) client_env \<Rightarrow> transfer_args \<times> string \<Rightarrow> 's world \<Rightarrow> 's outcome" where
  "ActionContractCall_execute C arg w =
     (case arg of (ta, message) \<Rightarrow>
      send_transaction C (ta_http ta) (make_transaction (env_ext (cl_env C)) (w_files w) (cl_now C) (ta_keys_dir ta) (ta_to ta)
        (ta_amount ta) (ta_fee ta) (fromHex message)) w)"

definition hash_options :: options_description where
  "hash_options = [(''host'', String_option), (''hash'', String_option), (''http'', Flag_option)]"

definition cli_hash_loadOptions :: "options \<Rightarrow> files \<Rightarrow> (string \<times> sha256 \<times> bool) option res" where
  "cli_hash_loadOptions opts fs =
     require opts ''host'' getString (\<lambda>host_address.
     require opts ''hash'' getString (\<lambda>s.
     rbind (rbind (fromHex s) sha256_of) (\<lambda>transaction_hash.
     Inr (Some (host_address, transaction_hash, hasOption opts ''http'')))))"

text \<open>The lines of a transaction, up to the signature, whose check may throw\<close>

definition transaction_text :: "ext \<Rightarrow> string \<Rightarrow> transaction \<Rightarrow> string" where
  "transaction_text X indent tx =
     (let type_message = (if tx_to tx = address_null then ''contract creation''
                          else if tx_data tx = [] then ''transfer'' else ''contract call'')
      in indent @ ''Type: '' @ type_message @ endl
       @ indent @ ''From: '' @ address_toString (tx_from tx) @ endl
       @ indent @ ''To: '' @ address_toString (tx_to tx) @ endl
       @ indent @ ''Value: '' @ big_str X (tx_amount tx) @ endl
       @ indent @ ''Fee: '' @ std_to_string (unat (tx_fee tx)) @ endl
       @ indent @ ''Timestamp: '' @ std_to_string (unat (tx_timestamp tx)) @ endl
       @ indent @ ''Data: '' @ (if tx_data tx = [] then ''<empty>'' else toHex (tx_data tx)) @ endl
       @ indent @ ''Signature: '')"

definition cli_ActionGetTransaction_execute :: "('s, 'j) client_env \<Rightarrow> string \<times> sha256 \<times> bool \<Rightarrow> 's world \<Rightarrow> 's outcome" where
  "cli_ActionGetTransaction_execute C arg w =
     (let X = env_ext (cl_env C)
      in case arg of (host_address, transaction_hash, is_http_mode) \<Rightarrow>
         (case rpc_query (br_getTransaction (rpc_client C is_http_mode) transaction_hash) w of
            Inl e \<Rightarrow> (Inl e, [], w)
          | Inr tx \<Rightarrow>
              if tx_timestamp tx = 0 \<and> address_isNull (tx_from tx) then (Inr EXIT_OK, ''Cannot find given transaction'' @ endl, w)
              else (case checkSign X tx of
                      Inl e \<Rightarrow> (Inl e, transaction_text X tab tx, w)
                    | Inr ok \<Rightarrow> (Inr EXIT_OK, transaction_text X tab tx @ (if ok then ''verified'' else ''bad_signature'') @ endl, w))))"

definition cli_ActionGetTransactionStatus_execute :: "('s, 'j) client_env \<Rightarrow> string \<times> sha256 \<times> bool \<Rightarrow> 's world \<Rightarrow> 's outcome" where
  "cli_ActionGetTransactionStatus_execute C arg w =
     (case arg of (host_address, transaction_hash, is_http_mode) \<Rightarrow>
      (case rpc_query (br_getTransactionStatus (rpc_client C is_http_mode) transaction_hash) w of
         Inl e \<Rightarrow> (Inl e, [], w)
       | Inr result \<Rightarrow>
           (let out = ''Transaction with hash[hex]: '' @ sha256_toHex transaction_hash @ endl
            in case writeTransactionStatus (env_ext (cl_env C)) result of
                 (text, Inl e) \<Rightarrow> (Inl e, out @ text, w)
               | (text, Inr _) \<Rightarrow> (Inr EXIT_OK, out @ text, w))))"

section \<open>Blocks\<close>

definition block_options :: options_description where
  "block_options = [(''host'', String_option), (''hash'', String_option), (''number'', U64_option), (''http'', Flag_option)]"

definition cli_ActionGetBlock_loadOptions :: "options \<Rightarrow> files \<Rightarrow> (string \<times> sha256 \<times> depth \<times> bool) option res" where
  "cli_ActionGetBlock_loadOptions opts fs =
     require opts ''host'' getString (\<lambda>host_address.
     if hasOption opts ''hash'' then
       rbind (getString opts ''hash'') (\<lambda>s. rbind (rbind (fromHex s) sha256_of) (\<lambda>block_hash.
       Inr (Some (host_address, block_hash, 0, hasOption opts ''http''))))
     else if hasOption opts ''number'' then
       rbind (getU64 opts ''number'') (\<lambda>block_number. Inr (Some (host_address, sha256_null, block_number, hasOption opts ''http'')))
     else Inr None)"

fun transactions_text :: "ext \<Rightarrow> nat \<Rightarrow> transaction list \<Rightarrow> string \<times> unit res" where
  "transactions_text X tx_index [] = ([], Inr ())"
| "transactions_text X tx_index (tx # txs) =
     (let text = tab @ tab @ ''Transaction #'' @ std_to_string (tx_index + 1) @ endl @ transaction_text X (tab @ tab) tx
      in case checkSign X tx of
           Inl e \<Rightarrow> (text, Inl e)
         | Inr ok \<Rightarrow>
             (case transactions_text X (tx_index + 1) txs of
                (rest, r) \<Rightarrow> (text @ (if ok then ''verified'' else ''bad signature'') @ endl @ rest, r)))"

definition block_text :: "sha256 \<Rightarrow> iblock \<Rightarrow> string" where
  "block_text block_hash block =
     ''Block hash '' @ sha256_toHex block_hash @ endl
     @ tab @ ''Depth: '' @ std_to_string (unat (blk_depth block)) @ endl
     @ tab @ ''Timestamp: '' @ std_to_string (unat (blk_timestamp block)) @ endl
     @ tab @ ''Coinbase: '' @ address_toString (blk_coinbase block) @ endl
     @ tab @ ''Nonce: '' @ std_to_string (unat (blk_nonce block)) @ endl
     @ tab @ ''Previous block hash: '' @ sha256_toHex (blk_prev_block_hash block) @ endl
     @ tab @ ''Number of transactions: '' @ std_to_string (length (blk_txs block)) @ endl"

definition cli_ActionGetBlock_execute :: "('s, 'j) client_env \<Rightarrow> string \<times> sha256 \<times> depth \<times> bool \<Rightarrow> 's world \<Rightarrow> 's outcome" where
  "cli_ActionGetBlock_execute C arg w =
     (let X = env_ext (cl_env C)
      in case arg of (host_address, block_hash, block_number, is_http_mode) \<Rightarrow>
         (case (if block_hash = sha256_null then rpc_query (br_getBlock_number (rpc_client C is_http_mode) block_number) w
                else rpc_query (br_getBlock (rpc_client C is_http_mode) block_hash) w) of
            Inl e \<Rightarrow> (Inl e, [], w)
          | Inr block \<Rightarrow>
              if blk_timestamp block = 0 \<and> blk_depth block = - 1 then (Inr EXIT_OK, ''Cannot find given block'' @ endl, w)
              else let hash = (if block_hash = sha256_null then sha256_compute X (toBytes (serialize_iblock X) block) else block_hash)
                   in (case transactions_text X 0 (blk_txs block) of
                         (text, Inl e) \<Rightarrow> (Inl e, block_text hash block @ text, w)
                       | (text, Inr _) \<Rightarrow> (Inr EXIT_OK, block_text hash block @ text, w))))"

section \<open>Contracts\<close>

definition code_options :: options_description where
  "code_options = [(''code'', String_option)]"

definition ActionCompile_loadOptions :: "options \<Rightarrow> files \<Rightarrow> string option res" where
  "ActionCompile_loadOptions opts fs = require opts ''code'' getString (\<lambda>code_file_path. Inr (Some code_file_path))"

text \<open>
  One turn of the loop that saves the contracts. The stream for the code throws nothing: a file that cannot be
  opened is not written. Everything that is thrown ends the command with the failure code.
\<close>

definition save_contract :: "toolchain \<Rightarrow> compiled_contract \<Rightarrow> files \<Rightarrow> unit res \<times> files" where
  "save_contract T contract fs =
     (case createIfNotExists (cc_name contract) fs of
        Inl e \<Rightarrow> (Inl e, fs)
      | Inr fs \<Rightarrow>
          let code_path = path_append (cc_name contract) ''compiled_code.bin'';
              fs = (if can_open fs code_path then fs(code_path \<mapsto> Regular_file (toHex (cc_code contract))) else fs)
          in save_ptree (tc_ptree T) (cc_metadata contract) (path_append (cc_name contract) ''metadata.json'') fs)"

fun save_contracts :: "toolchain \<Rightarrow> compiled_contract list \<Rightarrow> files \<Rightarrow> int \<times> string \<times> files" where
  "save_contracts T [] fs = (EXIT_OK, [], fs)"
| "save_contracts T (contract # contracts) fs =
     (let out = tab @ cc_name contract @ endl
      in case save_contract T contract fs of
           (Inl e, fs) \<Rightarrow> (EXIT_FAIL, out, fs)
         | (Inr _, fs) \<Rightarrow> (case save_contracts T contracts fs of (ret, rest, fs) \<Rightarrow> (ret, out @ rest, fs)))"

definition catch_compiler_errors :: "'a res \<Rightarrow> ('a \<Rightarrow> 's outcome) \<Rightarrow> 's world \<Rightarrow> 's outcome" where
  "catch_compiler_errors r rest w =
     (case r of
        Inl e \<Rightarrow> if e = ParsingError \<or> e = SystemCallFailed then (Inr EXIT_FAIL, [], w) else (Inl e, [], w)
      | Inr x \<Rightarrow> rest x)"

definition ActionCompile_execute :: "('s, 'j) client_env \<Rightarrow> string \<Rightarrow> 's world \<Rightarrow> 's outcome" where
  "ActionCompile_execute C code_file_path w =
     catch_compiler_errors (compile (cl_tools C) (w_files w) code_file_path) (\<lambda>contracts.
       case contracts of
         None \<Rightarrow> (Inr EXIT_FAIL, [], w)
       | Some contracts \<Rightarrow>
           (case save_contracts (cl_tools C) contracts (w_files w) of
              (ret, out, fs) \<Rightarrow> (Inr ret, ''Compiled contracts:'' @ endl @ out, w\<lparr>w_files := fs\<rparr>))) w"

definition message_options :: options_description where
  "message_options = [(''code'', String_option), (''message'', String_option)]"

definition message_loadOptions :: "options \<Rightarrow> files \<Rightarrow> (string \<times> string) option res" where
  "message_loadOptions opts fs =
     require opts ''code'' getString (\<lambda>compiled_code_folder_path.
     require opts ''message'' getString (\<lambda>data.
     Inr (Some (compiled_code_folder_path, data))))"

definition ActionEncode_execute :: "('s, 'j) client_env \<Rightarrow> string \<times> string \<Rightarrow> 's world \<Rightarrow> 's outcome" where
  "ActionEncode_execute C arg w =
     (case arg of (compiled_code_folder_path, call_data) \<Rightarrow>
      catch_compiler_errors (encodeCall (cl_tools C) (w_files w) compiled_code_folder_path call_data) (\<lambda>output_message.
        case output_message of
          Some bs \<Rightarrow> (Inr EXIT_OK, toHex bs @ endl, w)
        | None \<Rightarrow> (Inr EXIT_FAIL, [], w)) w)"

definition ActionDecode_execute :: "('s, 'j) client_env \<Rightarrow> string \<times> string \<Rightarrow> 's world \<Rightarrow> 's outcome" where
  "ActionDecode_execute C arg w =
     (case arg of (compiled_code_folder_path, data_to_decode) \<Rightarrow>
      catch_compiler_errors (decodeOutput (cl_tools C) (w_files w) compiled_code_folder_path data_to_decode) (\<lambda>output_message.
        case output_message of
          Some s \<Rightarrow> (Inr EXIT_OK, s @ endl, w)
        | None \<Rightarrow> (Inr EXIT_FAIL, [], w)) w)"

section \<open>The program\<close>

definition commands :: "('s, 'j) client_env \<Rightarrow> (string \<times> (string list \<Rightarrow> 's world \<Rightarrow> 's outcome)) list" where
  "commands C =
     [(''connection_test'', action_run C host_options host_loadOptions (ActionTestConnection_execute C)),
      (''node_info'', action_run C host_options host_loadOptions (cli_ActionNodeInfo_execute C)),
      (''generate_keys'', action_run C keys_options keys_loadOptions (ActionGenerateKeys_execute C)),
      (''keys_info'', action_run C keys_options keys_loadOptions (ActionKeysInfo_execute C)),
      (''get_balance'', action_run C address_options address_loadOptions (ActionGetBalance_execute C)),
      (''get_account_info'', action_run C address_options address_loadOptions (ActionGetAccountInfo_execute C)),
      (''compile_contract'', action_run C code_options ActionCompile_loadOptions (ActionCompile_execute C)),
      (''encode_message'', action_run C message_options message_loadOptions (ActionEncode_execute C)),
      (''decode_message'', action_run C message_options message_loadOptions (ActionDecode_execute C)),
      (''transfer'', action_run C transfer_options ActionTransfer_loadOptions (ActionTransfer_execute C)),
      (''push_contract'', action_run C push_contract_options ActionPushContract_loadOptions (ActionPushContract_execute C)),
      (''call_contract'', action_run C call_options ActionContractCall_loadOptions (ActionContractCall_execute C)),
      (''get_transaction'', action_run C hash_options cli_hash_loadOptions (cli_ActionGetTransaction_execute C)),
      (''get_transaction_status'', action_run C hash_options cli_hash_loadOptions (cli_ActionGetTransactionStatus_execute C)),
      (''get_block'', action_run C block_options cli_ActionGetBlock_loadOptions (cli_ActionGetBlock_execute C))]"

definition mainProcess :: "('s, 'j) client_env \<Rightarrow> string \<Rightarrow> string list \<Rightarrow> 's world \<Rightarrow> 's outcome" where
  "mainProcess C command_list argv w =
     (let desc = empty_description @ [(''version'', Flag_option)]
      in case process_options (cl_parser C) desc argv of
           Inl e \<Rightarrow> (Inl e, [], w)
         | Inr opts \<Rightarrow>
             if hasOption opts ''help'' \<or> opts = Map.empty then (Inr EXIT_OK, helpMessage (cl_parser C) desc @ endl @ command_list @ endl, w)
             else if hasOption opts ''version'' then (Inr EXIT_OK, ''Likelib2 client 0.1'' @ endl, w)
             else (Inr EXIT_OK, [], w))"

fun add_commands :: "(string \<times> (string list \<Rightarrow> 'a)) list \<Rightarrow> 'a router \<Rightarrow> 'a router res" where
  "add_commands [] router = Inr router"
| "add_commands ((name, processor) # cs) router = rbind (addSubprogram name processor router) (add_commands cs)"

definition client_main :: "('s, 'j) client_env \<Rightarrow> string \<Rightarrow> string list \<Rightarrow> 's world \<Rightarrow> 's outcome" where
  "client_main C command_list argv w =
     (case rbind (add_commands (commands C) (Router ''client'' [] (mainProcess C command_list))) (\<lambda>router.
        Inr (router_process (\<lambda>w. (Inl InvalidArgument, [], w)) router argv w)) of
        Inr (Inr ret, out, w) \<Rightarrow> (Inr ret, out, w)
      | Inr (Inl e, out, w) \<Rightarrow> if is_std_exception e then (Inr EXIT_FAIL, out, w) else (Inl e, out, w)
      | Inl e \<Rightarrow> if is_std_exception e then (Inr EXIT_FAIL, [], w) else (Inl e, [], w))"

section \<open>Facts\<close>

lemma router_with_commands:
  assumes "distinct (map fst cs)" and "[] \<notin> set (map fst cs)" and "\<forall>name\<in>set (map fst cs). map_of ds name = None"
  shows "\<exists>ds'. add_commands cs (Router n ds p) = Inr (Router n ds' p)
    \<and> (\<forall>name. map_of ds' name = (case map_of cs name of Some f \<Rightarrow> Some (Router name [] f) | None \<Rightarrow> map_of ds name))"
  using assms
proof (induction cs arbitrary: ds)
  case (Cons c cs)
  obtain name f where c: "c = (name, f)" by (cases c)
  have "addSubprogram name f (Router n ds p) = Inr (Router n ((name, Router name [] f) # ds) p)"
    using Cons.prems by (auto simp: c)
  moreover have "map_of cs name = None" using Cons.prems(1) by (simp add: c map_of_eq_None_iff)
  moreover have "\<forall>m\<in>set (map fst cs). map_of ((name, Router name [] f) # ds) m = None" using Cons.prems by (force simp: c)
  moreover obtain ds' where "add_commands cs (Router n ((name, Router name [] f) # ds) p) = Inr (Router n ds' p)"
    "\<forall>m. map_of ds' m = (case map_of cs m of Some f \<Rightarrow> Some (Router m [] f) | None \<Rightarrow> map_of ((name, Router name [] f) # ds) m)"
    using Cons.IH [of "(name, Router name [] f) # ds"] Cons.prems calculation(3) by (auto simp: c)
  ultimately show ?case by (auto simp: c split: option.splits)
qed simp

text \<open>A command is run with the arguments behind the name of the program.\<close>

lemma client_main_command:
  assumes "map_of (commands C) name = Some command" and "args = [] \<or> CHR ''-'' \<in> set (hd args)"
  shows "client_main C command_list (exe # name # args) w =
    (case command (name # args) w of
       (Inl e, out, w) \<Rightarrow> if is_std_exception e then (Inr EXIT_FAIL, out, w) else (Inl e, out, w)
     | (Inr ret, out, w) \<Rightarrow> (Inr ret, out, w))"
proof -
  have "distinct (map fst (commands C))" "[] \<notin> set (map fst (commands C))" by (simp_all add: commands_def)
  then obtain ds where ds: "add_commands (commands C) (Router ''client'' [] (mainProcess C command_list))
      = Inr (Router ''client'' ds (mainProcess C command_list))"
    "map_of ds name = Some (Router name [] command)"
    using assms(1) router_with_commands [of "commands C" "[]" "''client''" "mainProcess C command_list"] by auto
  have "router_process raise (Router name [] command) (name # args) = command (name # args)" for raise
    using assms(2) by (cases args) auto
  then show ?thesis using ds by (simp add: client_main_def)
qed

end
