(* ===== verification/Commands.thy ===== *)
theory Commands
  imports Client
begin

text \<open>
  What the commands of the client achieve on a node, whichever RPC client carries them: the contract that both
  clients keep, the sending of a transaction, and the transfer command from the command line to the pool and the
  miner of the node.
\<close>

section \<open>The contract of the RPC clients\<close>

text \<open>
  A client is faithful when a pushed transaction has the effect and the result of the call of the service,
  and a query its result. \<open>fee_ok\<close> tells the fees it can carry, \<open>libs\<close> what it needs of the libraries.
\<close>

locale faithful_rpc =
  fixes rpc :: "'s base_rpc" and E :: "'s node_env" and now :: time and fee_ok :: "fee \<Rightarrow> bool" and libs :: bool
  assumes push: "libs \<Longrightarrow> wf_tx tx \<Longrightarrow> fee_ok (tx_fee tx) \<Longrightarrow> pushTransaction E now tx nd = Inr (st, nd') \<Longrightarrow> fee_ok (st_fee_left st) \<Longrightarrow>
      br_pushTransaction rpc tx nd = (Inr st, Some nd')"
    and account: "libs \<Longrightarrow> wf_address a \<Longrightarrow> wf_state (core_state_manager (node_core nd)) \<Longrightarrow>
      list_all (\<lambda>h. length h = 32) (info_transactions_hashes (rpc_getAccountInfo (node_core nd) a)) \<Longrightarrow>
      br_getAccountInfo rpc a nd = Inr (rpc_getAccountInfo (node_core nd) a)"
begin

lemma sent:
  assumes "libs" and "wf_tx tx" and "fee_ok (tx_fee tx)" and "w_node w = Some nd" and "rpc_client C http = rpc"
    and "pushTransaction E now tx nd = Inr (st, nd')" and "fee_ok (st_fee_left st)" and "st_status st = Pending"
  shows "\<exists>out. send_transaction C http (Inr tx) w = (Inr EXIT_OK, out, w\<lparr>w_node := Some nd'\<rparr>)"
  using assms(4,5,8) push [OF assms(1-3,6,7)] by (simp add: send_transaction_def writeTransactionStatus_def)

lemma balance_printed:
  assumes "libs" and "wf_address a" and "w_node w = Some nd" and "rpc_client C http = rpc"
    and "wf_state (core_state_manager (node_core nd))"
    and "list_all (\<lambda>h. length h = 32) (info_transactions_hashes (rpc_getAccountInfo (node_core nd) a))"
  shows "ActionGetBalance_execute C (host, a, http) w = (Inr EXIT_OK, ''Balance of '' @ address_toString a @ '' is ''
    @ big_str (env_ext (cl_env C)) (info_balance (rpc_getAccountInfo (node_core nd) a)) @ endl, w)"
  using assms(3,4) account [OF assms(1,2,5,6)]
  by (simp add: ActionGetBalance_execute_def rpc_query_def print_or_raise_def)

end

lemma grpc_faithful:
  fixes E :: "'s node_env"
  shows "faithful_rpc (createRpcClient E J now GRPC) E now (\<lambda>_. True) (base64_ok (env_ext E) \<and> big_ok (env_ext E))"
proof
  fix tx st and nd nd' :: "'s node"
  assume libs: "base64_ok (env_ext E) \<and> big_ok (env_ext E)" and tx: "wf_tx tx" and p: "pushTransaction E now tx nd = Inr (st, nd')"
  then have arrives: "rbind (grpc_deserializeTransaction (env_ext E) (grpc_serializeTransaction (env_ext E) tx)) f = f tx"
    for f :: "transaction \<Rightarrow> (pb_TransactionStatus \<times> 's node) res"
    using transaction_message.argument_arrives by blast
  show "br_pushTransaction (createRpcClient E J now GRPC) tx nd = (Inr st, Some nd')"
    using p by (simp add: Let_def grpc_pushTransaction_def stub_def push_transaction_def arrives adapter_call_def grpc_client_reply_def grpc_status_read)
next
  fix a and nd :: "'s node"
  assume libs: "base64_ok (env_ext E) \<and> big_ok (env_ext E)" and a: "wf_address a" and st: "wf_state (core_state_manager (node_core nd))"
    and hs: "list_all (\<lambda>h. length h = 32) (info_transactions_hashes (rpc_getAccountInfo (node_core nd) a))"
  have "info_balance (rpc_getAccountInfo (node_core nd) a) < 2 ^ 256" "info_address (rpc_getAccountInfo (node_core nd) a) = a"
    using st by (simp_all add: rpc_getAccountInfo_def getAccountInfo_def wf_state_def toInfo_def split: option.split)
  then have "grpc_deserializeAccountInfo (env_ext E) (grpc_serializeAccountInfo (env_ext E) (rpc_getAccountInfo (node_core nd) a))
      = Inr (rpc_getAccountInfo (node_core nd) a)" using libs a hs by (intro grpc_account_read) simp
  then show "br_getAccountInfo (createRpcClient E J now GRPC) a nd = Inr (rpc_getAccountInfo (node_core nd) a)"
    using a by (simp add: Let_def grpc_getAccountInfo_def stub_def get_account_def grpc_address_read adapter_call_def grpc_client_reply_def)
qed

lemma http_faithful:
  fixes E :: "'s node_env"
  shows "faithful_rpc (createRpcClient E J now HTTP) E now (\<lambda>fee. unat fee < 2 ^ 63) (json_ok J \<and> base64_ok (env_ext E) \<and> big_ok (env_ext E))"
proof
  fix tx st and nd nd' :: "'s node"
  assume libs: "json_ok J \<and> base64_ok (env_ext E) \<and> big_ok (env_ext E)" and tx: "wf_tx tx" "unat (tx_fee tx) < 2 ^ 63"
    and p: "pushTransaction E now tx nd = Inr (st, nd')" and st: "unat (st_fee_left st) < 2 ^ 63"
  have "client_pushTransaction (env_ext E) J (http_post E J now nd) tx = Inr st"
    using http_pushTransaction(1) [of J E tx now nd] libs tx p st by (simp add: remote_def)
  moreover obtain reply where "handler E J now [''push_transaction''] (serializeTransaction (env_ext E) J tx) nd = Inr (OK, reply, Some nd')"
    using http_pushTransaction(2) [of J E tx now nd st nd'] libs tx p st by auto
  ultimately show "br_pushTransaction (createRpcClient E J now HTTP) tx nd = (Inr st, Some nd')" by (simp add: Let_def)
next
  fix a and nd :: "'s node"
  assume libs: "json_ok J \<and> base64_ok (env_ext E) \<and> big_ok (env_ext E)" and a: "wf_address a" and st: "wf_state (core_state_manager (node_core nd))"
    and hs: "list_all (\<lambda>h. length h = 32) (info_transactions_hashes (rpc_getAccountInfo (node_core nd) a))"
  have bal: "info_balance (rpc_getAccountInfo (node_core nd) a) < 2 ^ 256"
    using st by (simp add: rpc_getAccountInfo_def getAccountInfo_def wf_state_def toInfo_def split: option.split)
  show "br_getAccountInfo (createRpcClient E J now HTTP) a nd = Inr (rpc_getAccountInfo (node_core nd) a)"
    using http_getAccountInfo [OF _ _ _ a bal hs, of J E now] libs by (simp add: Let_def)
qed

interpretation grpc_rpc: faithful_rpc "createRpcClient E J now GRPC" E now "\<lambda>_. True" "base64_ok (env_ext E) \<and> big_ok (env_ext E)" for E J now
  by (rule grpc_faithful)

interpretation http_rpc: faithful_rpc "createRpcClient E J now HTTP" E now "\<lambda>fee. unat fee < 2 ^ 63"
  "json_ok J \<and> base64_ok (env_ext E) \<and> big_ok (env_ext E)" for E J now
  by (rule http_faithful)

section \<open>Making a transaction\<close>

text \<open>What a key file and an unsigned transaction need for the signature to be made: libsecp256k1 signs with every valid key.\<close>

definition key_in :: "ext \<Rightarrow> files \<Rightarrow> string \<Rightarrow> bytes \<Rightarrow> bytes \<Rightarrow> bool" where
  "key_in X fs dir key pub \<longleftrightarrow> fs (makePrivateKeyPath dir) = Some (Regular_file (toHex key)) \<and> length key = 32
     \<and> ec_seckey_verify X key \<and> ec_pubkey_create X key = Some pub \<and> (\<forall>hash. ecdsa_sign_recoverable X hash key \<noteq> None)"

definition unsigned_tx :: "ext \<Rightarrow> bytes \<Rightarrow> time \<Rightarrow> address \<Rightarrow> balance \<Rightarrow> fee \<Rightarrow> bytes \<Rightarrow> transaction" where
  "unsigned_tx X pub now to amount fee data = \<lparr>tx_from = address_of_public_key X pub, tx_to = to, tx_amount = amount, tx_fee = fee,
     tx_timestamp = now, tx_data = data, tx_sign = Sign_empty\<rparr>"

lemma make_transaction_signed:
  assumes "secp_ok X" and "hash_ok X" and key: "key_in X fs dir key pub" and "wf_address to" and "amount + unat fee < 2 ^ 256"
    and "0 < amount + unat fee" and "length data < 2 ^ 63"
  obtains tx where "make_transaction X fs now dir to amount fee (Inr data) = Inr tx" and "tx_eq (unsigned_tx X pub now to amount fee data) tx"
    and "checkSign X tx = Inr True" and "wf_tx tx"
proof -
  let ?tx = "unsigned_tx X pub now to amount fee data"
  have load: "secp_load X (makePrivateKeyPath dir) fs = Inr key"
    using key by (simp add: key_in_def secp_load_def readAllFile_def fs_exists_def fixed_bytes_def secp_key_def)
  have pub: "secp_toPublicKey X key = Inr pub" using key by (simp add: key_in_def secp_toPublicKey_def)
  obtain sig rid where "ecdsa_sign_recoverable X (sha256_compute X (hashOfTransaction X ?tx)) key = Some (sig, rid)"
    using key by (force simp: key_in_def)
  moreover then have "length sig = 64" using assms(1) unfolding secp_ok_def by blast
  ultimately have "secp_sign X key (hashOfTransaction X ?tx) = Inr (sig @ [of_nat rid])" by (simp add: secp_sign_def fixed_bytes_def)
  then obtain tx where tx: "sign_transaction X key ?tx = Inr tx" "tx = ?tx\<lparr>tx_sign := sig @ [of_nat rid]\<rparr>" by (simp add: sign_transaction_def)
  have "\<not> (amount = 0 \<and> fee = 0)" using assms(6) by auto
  then have "make_transaction X fs now dir to amount fee (Inr data) = Inr tx"
    using load pub tx(1) by (simp add: make_transaction_def build_tx_def mk_Transaction_def unsigned_tx_def empty_builder_def setFrom_def setTo_def
        setAmount_def setTimestamp_def setFee_def setData_def)
  moreover have "tx_eq ?tx tx \<and> checkSign X tx = Inr True" using checkSign_sign [OF assms(1) pub tx(1)] by (simp add: unsigned_tx_def)
  moreover have "amount < 2 ^ 256" using assms(5) by (rule add_lessD1)
  then have "wf_tx tx" using assms(2,4,7) \<open>\<not> (amount = 0 \<and> fee = 0)\<close> \<open>length sig = 64\<close> unfolding tx(2) wf_tx_def unsigned_tx_def by simp
  ultimately show ?thesis using that by blast
qed

section \<open>The node\<close>

text \<open>A transaction that is admitted gives the miner a job, which contains it while the pool fits into a block.\<close>

lemma push_admitted:
  assumes "core_reachable E g (node_core nd)" and "leveldb_ok (env_leveldb E)" and "nth_element_ok (env_nth_element E)"
    and "wf_iblock (env_ext E) g" and "blk_depth g = 0"
    and price: "tx_price tx < 2 ^ 256" and sign: "checkSign (env_ext E) tx = Inr True"
    and new: "core_findTransaction E (node_core nd) (hashOfTransaction (env_ext E) tx) = None"
    and first: "\<forall>t\<in>set (core_pending_transactions (node_core nd)). tx_from t \<noteq> tx_from tx \<and> tx_price t + tx_price tx < 2 ^ 256"
    and m: "calcCost (core_pending_transactions (node_core nd)) = Inr m"
    and "hasAccount (core_state_manager (node_core nd)) (tx_from tx)" and "tx_price tx \<le> balance_of (core_state_manager (node_core nd)) (tx_from tx)"
  obtains nd' block cx where
    "pushTransaction E now tx nd = Inr (mk_TransactionStatus Pending None_action (tx_fee tx) [], nd')"
    and "core_pending_transactions (node_core nd') = core_pending_transactions (node_core nd) @ [tx]"
    and "node_miner nd' = findNonce block cx (node_miner nd)"
    and "length (core_pending_transactions (node_core nd)) < BC_MAX_TRANSACTIONS_IN_BLOCK \<longrightarrow> tx \<in> set (blk_txs block)"
proof -
  let ?c = "node_core nd" and ?st = "mk_TransactionStatus Pending None_action (tx_fee tx) []"
  define c' where "c' = addTransactionOutput (hashOfTransaction (env_ext E) tx) ?st (admit tx ?c)"
  have absent: "\<not> txset_find (core_pending_transactions ?c) tx" using first by (auto simp: txset_find_def tx_eq_def list_ex_iff)
  have room: "\<forall>t\<in>set (core_pending_transactions ?c). tx_price t + tx_price tx < 2 ^ 256" using first by blast
  have "List.find (\<lambda>t. tx_from t = tx_from tx) (core_pending_transactions ?c) = None" using first by (auto simp: find_None_iff)
  then have "affordable ?c tx \<and> \<not> refused_by_pending ?c tx" using assms(11,12) by (simp add: affordable_def refused_by_pending_def)
  then have add: "addPendingTransaction E tx ?c = Inr (?st, c')"
    using addPendingTransaction_decision [OF price sign new absent m room] by (simp add: c'_def Let_def)
  have c': "core_pending_transactions c' = core_pending_transactions ?c @ [tx]" "core_blockchain c' = core_blockchain ?c"
    "core_events c' = core_events ?c @ [Event_new_pending_transaction tx]"
    using absent by (simp_all add: c'_def admit_def txset_add_def)
  obtain bs con where inv: "pb_inv (env_ext E) (env_leveldb E) g (core_blockchain c') bs con"
    using pb_reachable_inv [OF assms(2)] core_reachable_inv [OF assms(2,1)] unfolding core_inv_def c'(2) by blast
  obtain txs rest where job: "getMiningData E now c' = Inr (mk_MutableBlock (of_nat (length bs)) 0 (blk_this_block_hash (last bs)) now
      (core_this_node_address c') txs, con_complexity con)" and sel: "mset txs + mset rest = mset (core_pending_transactions c')"
    "length txs = min BC_MAX_TRANSACTIONS_IN_BLOCK (length (core_pending_transactions c'))"
    by (rule getMiningData_template [OF inv assms(4,5,3), of now]) blast
  let ?block = "mk_MutableBlock (of_nat (length bs)) 0 (blk_this_block_hash (last bs)) now (core_this_node_address c') txs"
  have "txs \<noteq> []" using sel(2) c'(1) by (auto simp: BC_MAX_TRANSACTIONS_IN_BLOCK_def)
  then have disp: "node_dispatch E now [Event_new_pending_transaction tx] (nd\<lparr>node_core := c'\<rparr>)
      = Inr (nd\<lparr>node_core := c', node_miner := findNonce ?block (con_complexity con) (node_miner nd)\<rparr>)"
    using job by (simp add: onNewTransactionReceived_def give_job_def txset_isEmpty_def mk_MutableBlock_def)
  have "tx \<in> set (blk_txs ?block)" if "length (core_pending_transactions ?c) < BC_MAX_TRANSACTIONS_IN_BLOCK"
  proof -
    have "length txs = length (core_pending_transactions c')" using sel(2) that c'(1) by simp
    then have "rest = []" using arg_cong [OF sel(1), of size] by simp
    then have "mset txs = mset (core_pending_transactions c')" using sel(1) by simp
    then have "set txs = set (core_pending_transactions c')" by (rule mset_eq_setD)
    then show ?thesis using c'(1) by (simp add: mk_MutableBlock_def)
  qed
  moreover have "pushTransaction E now tx nd = Inr (?st, nd\<lparr>node_core := c', node_miner := findNonce ?block (con_complexity con) (node_miner nd)\<rparr>)"
    using add disp c'(3) by (simp add: pushTransaction_def)
  ultimately show ?thesis
    using that [of "nd\<lparr>node_core := c', node_miner := findNonce ?block (con_complexity con) (node_miner nd)\<rparr>" ?block "con_complexity con"] c'(1) by simp
qed

section \<open>Properties\<close>

text \<open>The options of a transfer as the user gave them\<close>

definition transfer_given :: "options \<Rightarrow> string \<Rightarrow> address \<Rightarrow> balance \<Rightarrow> fee \<Rightarrow> string \<Rightarrow> bool \<Rightarrow> bool" where
  "transfer_given opts host to amount fee dir http \<longleftrightarrow> opts ''help'' = None \<and> opts ''host'' = Some (String_value host)
     \<and> opts ''to'' = Some (String_value (address_toString to)) \<and> opts ''amount'' = Some (Balance_value amount)
     \<and> opts ''fee'' = Some (U64_value fee) \<and> opts ''keys'' = Some (String_value dir) \<and> hasOption opts ''http'' = http"

lemma transfer_loaded:
  assumes "transfer_given opts host to amount fee dir http" and "wf_address to"
  shows "ActionTransfer_loadOptions opts fs = Inr (Some \<lparr>ta_host = host, ta_to = to, ta_amount = amount, ta_fee = fee, ta_keys_dir = dir, ta_http = http\<rparr>)"
  using assms by (simp add: transfer_given_def ActionTransfer_loadOptions_def require_def checkOptionEmptyAndWriteMessage_def hasOption_def
      getString_def getBalance_option_def getU64_def address_of_string_toString)

lemma transfer_runs:
  assumes "process_options (cl_parser C) (empty_description @ transfer_options) (''transfer'' # args) = Inr opts"
    and "args = [] \<or> CHR ''-'' \<in> set (hd args)" and opts: "transfer_given opts host to amount fee dir http" "wf_address to"
    and "make_transaction (env_ext (cl_env C)) (w_files w) (cl_now C) dir to amount fee (Inr []) = Inr tx"
    and "send_transaction C http (Inr tx) w = (Inr EXIT_OK, out, w')"
  shows "client_main C command_list (exe # ''transfer'' # args) w = (Inr EXIT_OK, out, w')"
proof -
  have cmd: "map_of (commands C) ''transfer'' = Some (action_run C transfer_options ActionTransfer_loadOptions (ActionTransfer_execute C))"
    by (simp add: commands_def)
  have "\<not> hasOption opts ''help''" using opts(1) by (simp add: transfer_given_def hasOption_def)
  then have "action_run C transfer_options ActionTransfer_loadOptions (ActionTransfer_execute C) (''transfer'' # args) w = (Inr EXIT_OK, out, w')"
    using assms(1,5,6) transfer_loaded [OF opts] by (simp add: action_run_def ActionTransfer_execute_def)
  then show ?thesis using client_main_command [OF cmd assms(2)] by simp
qed

text \<open>
  C10: the transfer command does what it says. A user whose key is in the given directory and whose account
  covers the amount and the fee, and who has no pending transaction, runs the command against a node, over
  gRPC or over HTTP: it exits with success, and the node has a transaction in its pool that is from this user,
  carries a valid signature, the recipient, the amount and the fee of the command line and the time of the
  client; its miner works on a block, which contains the transaction unless the pool is larger than a block.
  Over HTTP this holds for fees below \<open>2 ^ 63\<close>.
\<close>

theorem transfer_command:
  fixes C :: "('s, 'j) client_env"
  defines "E \<equiv> cl_env C" and "X \<equiv> env_ext (cl_env C)"
  assumes libs: "base64_ok X" "big_ok X" "hash_ok X" "secp_ok X" "leveldb_ok (env_leveldb E)" "nth_element_ok (env_nth_element E)"
    and http: "http \<longrightarrow> json_ok (cl_json C) \<and> unat fee < 2 ^ 63"
    and args: "process_options (cl_parser C) (empty_description @ transfer_options) (''transfer'' # args) = Inr opts"
      "args = [] \<or> CHR ''-'' \<in> set (hd args)" "transfer_given opts host to amount fee dir http" "wf_address to"
    and key: "key_in X (w_files w) dir key pub"
    and node: "w_node w = Some nd" "core_reachable E g (node_core nd)" "wf_iblock X g" "blk_depth g = 0"
    and money: "0 < amount + unat fee" "amount + unat fee < 2 ^ 256"
      "hasAccount (core_state_manager (node_core nd)) (address_of_public_key X pub)"
      "amount + unat fee \<le> balance_of (core_state_manager (node_core nd)) (address_of_public_key X pub)"
    and new: "core_findTransaction E (node_core nd) (hashOfTransaction X (unsigned_tx X pub (cl_now C) to amount fee [])) = None"
      "calcCost (core_pending_transactions (node_core nd)) = Inr m"
      "\<forall>t\<in>set (core_pending_transactions (node_core nd)). tx_from t \<noteq> address_of_public_key X pub \<and> tx_price t + (amount + unat fee) < 2 ^ 256"
  shows "\<exists>tx out nd' block cx. client_main C command_list (exe # ''transfer'' # args) w = (Inr EXIT_OK, out, w\<lparr>w_node := Some nd'\<rparr>)
    \<and> core_pending_transactions (node_core nd') = core_pending_transactions (node_core nd) @ [tx]
    \<and> tx_from tx = address_of_public_key X pub \<and> checkSign X tx = Inr True \<and> tx_to tx = to \<and> tx_amount tx = amount \<and> tx_fee tx = fee
    \<and> tx_timestamp tx = cl_now C \<and> tx_data tx = []
    \<and> node_miner nd' = findNonce block cx (node_miner nd)
    \<and> (length (core_pending_transactions (node_core nd)) < BC_MAX_TRANSACTIONS_IN_BLOCK \<longrightarrow> tx \<in> set (blk_txs block))"
proof -
  let ?u = "unsigned_tx X pub (cl_now C) to amount fee []"
  obtain tx where tx: "make_transaction X (w_files w) (cl_now C) dir to amount fee (Inr []) = Inr tx" "tx_eq ?u tx" "checkSign X tx = Inr True" "wf_tx tx"
    by (rule make_transaction_signed [OF libs(4,3) key args(4) money(2,1), of "[]" "cl_now C"]) simp_all
  have fields: "tx_from tx = address_of_public_key X pub" "tx_to tx = to" "tx_amount tx = amount" "tx_fee tx = fee" "tx_timestamp tx = cl_now C" "tx_data tx = []"
    using tx(2) by (simp_all add: tx_eq_def unsigned_tx_def)
  have "core_findTransaction E (node_core nd) (hashOfTransaction X tx) = None" using new(1) hashOfTransaction_cong [OF tx(2)] by simp
  then obtain nd' block cx where push: "pushTransaction E (cl_server_now C) tx nd = Inr (mk_TransactionStatus Pending None_action (tx_fee tx) [], nd')"
    and pool: "core_pending_transactions (node_core nd') = core_pending_transactions (node_core nd) @ [tx]"
      "node_miner nd' = findNonce block cx (node_miner nd)"
      "length (core_pending_transactions (node_core nd)) < BC_MAX_TRANSACTIONS_IN_BLOCK \<longrightarrow> tx \<in> set (blk_txs block)"
    using push_admitted [OF node(2) libs(5,6), of tx m] node(3,4) money new(2,3) tx(3) fields unfolding X_def E_def by metis
  have "\<exists>out. send_transaction C http (Inr tx) w = (Inr EXIT_OK, out, w\<lparr>w_node := Some nd'\<rparr>)"
  proof (cases http)
    case True
    then show ?thesis using http_rpc.sent [OF _ tx(4) _ node(1) _ push, of "cl_json C" C http] http libs(1,2) fields(4)
      by (simp add: rpc_client_def X_def E_def mk_TransactionStatus_def)
  next
    case False
    then show ?thesis using grpc_rpc.sent [OF _ tx(4) _ node(1) _ push, of C http "cl_json C"] libs(1,2)
      by (simp add: rpc_client_def X_def E_def mk_TransactionStatus_def)
  qed
  then obtain out where "send_transaction C http (Inr tx) w = (Inr EXIT_OK, out, w\<lparr>w_node := Some nd'\<rparr>)" by blast
  from transfer_runs [OF args tx(1) [unfolded X_def] this] show ?thesis using pool tx(3) fields by blast
qed

text \<open>A user of the node of the example, with a key in the directory \<open>k\<close>, pays 15 with a fee of 5 over HTTP.\<close>

definition demo_options :: options where
  "demo_options = [''host'' \<mapsto> String_value ''node'', ''to'' \<mapsto> String_value (address_toString (replicate 20 2)), ''amount'' \<mapsto> Balance_value 15,
     ''fee'' \<mapsto> U64_value 5, ''keys'' \<mapsto> String_value ''k'', ''http'' \<mapsto> Flag_value]"

definition demo_client :: "(string \<rightharpoonup> string, json_value) client_env" where
  "demo_client = \<lparr>cl_env = demo_env, cl_json = demo_json, cl_parser = \<lparr>parse_command_line = (\<lambda>_ _. Some demo_options), print_description = (\<lambda>_. [])\<rparr>,
     cl_now = 7, cl_server_now = 8, cl_rnd = (\<lambda>n. replicate n 0), cl_tools = demo_toolchain\<rparr>"

lemma demo_key: "key_in demo_ext [''k/lkkey'' \<mapsto> Regular_file (toHex (replicate 32 1))] ''k'' (replicate 32 1) (fit 65 (replicate 32 1))"
  by (simp add: key_in_def makePrivateKeyPath_def path_append_def demo_ext_def fit_def)

lemma demo_user: "address_of_public_key demo_ext (fit 65 (replicate 32 1)) = replicate 20 1"
  by (simp add: address_of_public_key_def sha256_compute_def ripemd160_compute_def demo_ext_def fit_def)

theorem transfer_command_witness:
  "\<exists>w tx out nd'. client_main demo_client [] [''client'', ''transfer'', ''--http''] w = (Inr EXIT_OK, out, w\<lparr>w_node := Some nd'\<rparr>)
     \<and> core_pending_transactions (node_core nd') = [tx] \<and> tx_from tx = replicate 20 1 \<and> tx_amount tx = 15"
proof -
  obtain g bc and c :: "(string \<rightharpoonup> string) core" where g: "mk_Blockchain g = Inr bc" "core_reachable demo_env g c" "wf_iblock demo_ext g"
    "core_state_manager c = demo_accounts" "blk_depth g = 0" "core_pending_transactions c = []" "core_findTransaction demo_env c = (\<lambda>_. None)"
    by (rule demo_start)
  let ?nd = "\<lparr>node_core = c, node_miner = mk_CommonState \<lparr>cd_task = NONE, cd_block_to_mine = None, cd_complexity = None\<rparr>\<rparr>"
  let ?w = "\<lparr>w_files = [''k/lkkey'' \<mapsto> Regular_file (toHex (replicate 32 1))], w_node = Some ?nd\<rparr>"
  have env: "cl_env demo_client = demo_env" "env_ext demo_env = demo_ext" "cl_json demo_client = demo_json" by (simp_all add: demo_client_def demo_env_def)
  have given: "transfer_given demo_options ''node'' (replicate 20 2) 15 5 ''k'' True"
    by (simp add: transfer_given_def demo_options_def hasOption_def)
  have opts: "process_options (cl_parser demo_client) (empty_description @ transfer_options) (''transfer'' # [''--http'']) = Inr demo_options"
    by (simp add: process_options_def demo_client_def)
  have acc: "hasAccount demo_accounts (replicate 20 1)" "balance_of demo_accounts (replicate 20 1) = 100"
    using demo_accounts_facts by simp_all
  have "\<exists>tx out nd' block cx. client_main demo_client [] [''client'', ''transfer'', ''--http''] ?w = (Inr EXIT_OK, out, ?w\<lparr>w_node := Some nd'\<rparr>)
      \<and> core_pending_transactions (node_core nd') = core_pending_transactions (node_core ?nd) @ [tx]
      \<and> tx_from tx = address_of_public_key (env_ext (cl_env demo_client)) (fit 65 (replicate 32 1)) \<and> checkSign (env_ext (cl_env demo_client)) tx = Inr True
      \<and> tx_to tx = replicate 20 2 \<and> tx_amount tx = 15 \<and> tx_fee tx = 5 \<and> tx_timestamp tx = cl_now demo_client \<and> tx_data tx = []
      \<and> node_miner nd' = findNonce block cx (node_miner ?nd)
      \<and> (length (core_pending_transactions (node_core ?nd)) < BC_MAX_TRANSACTIONS_IN_BLOCK \<longrightarrow> tx \<in> set (blk_txs block))"
    by (rule transfer_command [OF _ _ _ _ _ _ _ opts _ given, where key = "replicate 32 1" and g = g and m = "\<lambda>_. None"])
      (use demo_base64 demo_ext_ok leveldb_ok_map nth_element_ok_sort demo_json_ok demo_key demo_user g acc in
        \<open>simp_all add: env wf_address_def LENGTH_IN_BYTES_def demo_env_def calcCost_def\<close>)
  then show ?thesis using g(6) demo_user by (intro exI [of _ ?w]) (auto simp: env)
qed

end
