(* ===== verification/Connector.thy ===== *)
theory Connector
  imports Protocol
begin

text \<open>
  Establishing connections: \<^verbatim>\<open>net::Connector\<close> (\<^verbatim>\<open>src/net/connector.cpp\<close>), whose attempt has two
  completion handlers that race, the one of the deadline and the one of the socket, and
  \<^verbatim>\<open>net::Acceptor\<close> (\<^verbatim>\<open>src/net/acceptor.cpp\<close>) with the loop of \<^verbatim>\<open>Host::accept\<close>. The sockets and timers of
  Boost.Asio are the events of the attempt: each handler that was given to Asio runs once.
\<close>

section \<open>Connector\<close>

datatype connect_status = SUCCESS | TIMEOUT | NETWORK_FAILURE

record connect_error =
  ce_status :: connect_status
  ce_ec :: nat

definition mk_ConnectError :: "connect_status \<Rightarrow> nat \<Rightarrow> connect_error" where
  "mk_ConnectError status ec = \<lparr>ce_status = status, ce_ec = ec\<rparr>"

definition getStatus :: "connect_error \<Rightarrow> connect_status" where
  "getStatus e = ce_status e"

definition getErrorCode :: "connect_error \<Rightarrow> nat" where
  "getErrorCode e = ce_ec e"

text \<open>The calls of the two callbacks, in order. The connection is known by the endpoint of its socket.\<close>

datatype connector_call = Call_on_connect endpoint | Call_on_fail connect_error

text \<open>
  An attempt: the shared \<^verbatim>\<open>ConnectEventStatus\<close> and which of the two handlers have still to run.
\<close>

record connect_attempt =
  at_is_already_connected :: bool
  at_deadline_waits :: bool
  at_socket_waits :: bool
  at_calls :: "connector_call list"

definition connector_connect :: connect_attempt where
  "connector_connect = \<lparr>at_is_already_connected = False, at_deadline_waits = True, at_socket_waits = True, at_calls = []\<rparr>"

text \<open>The handler of the deadline does not look at its error code, so a cancelled deadline runs it as well.\<close>

definition on_deadline :: "connect_attempt \<Rightarrow> connect_attempt" where
  "on_deadline a =
     (let a = a\<lparr>at_deadline_waits := False\<rparr>
      in if \<not> at_is_already_connected a
         then a\<lparr>at_calls := at_calls a @ [Call_on_fail (mk_ConnectError TIMEOUT 0)]\<rparr>
         else a)"

text \<open>The handler of the socket, with the error code (0: none) and the remote endpoint.\<close>

definition on_socket_connected :: "nat \<Rightarrow> endpoint \<Rightarrow> connect_attempt \<Rightarrow> connect_attempt" where
  "on_socket_connected ec ep a =
     (let a = a\<lparr>at_is_already_connected := True, at_socket_waits := False\<rparr>
      in if ec \<noteq> 0
         then a\<lparr>at_calls := at_calls a @ [Call_on_fail (mk_ConnectError NETWORK_FAILURE ec)]\<rparr>
         else a\<lparr>at_calls := at_calls a @ [Call_on_connect ep]\<rparr>)"

inductive attempt_step :: "connect_attempt \<Rightarrow> connect_attempt \<Rightarrow> bool" where
  deadline_runs: "at_deadline_waits a \<Longrightarrow> attempt_step a (on_deadline a)"
| socket_runs: "at_socket_waits a \<Longrightarrow> attempt_step a (on_socket_connected ec ep a)"

definition attempt_over :: "connect_attempt \<Rightarrow> bool" where
  "attempt_over a \<longleftrightarrow> \<not> at_deadline_waits a \<and> \<not> at_socket_waits a"

section \<open>Acceptor\<close>

text \<open>
  \<open>Accept_failed\<close> is a completion with an error code; the new peer lives at the given address.
  The flag says whether an accept operation is outstanding.
\<close>

datatype accept_completion = Accept_failed nat | Accepted_socket ptr endpoint

definition acceptor_completed :: "(ptr \<Rightarrow> endpoint \<Rightarrow> 's \<Rightarrow> 's res) \<Rightarrow> accept_completion \<Rightarrow> 's \<Rightarrow> 's res" where
  "acceptor_completed on_accept c s =
     (case c of
        Accept_failed ec \<Rightarrow> Inr s
      | Accepted_socket p ep \<Rightarrow> on_accept p ep s)"

definition host_accept :: "bool \<times> 's host \<Rightarrow> bool \<times> 's host" where
  "host_accept = (\<lambda>(outstanding, h). (True, h))"

text \<open>The completion of the outstanding operation, with the callback of \<^verbatim>\<open>Host::accept\<close>\<close>

definition host_accept_completed :: "'s node_env \<Rightarrow> net_ext \<Rightarrow> accept_completion \<Rightarrow> bool \<times> 's host \<Rightarrow> (bool \<times> 's host) res" where
  "host_accept_completed E N c = (\<lambda>(outstanding, h).
     acceptor_completed (\<lambda>p ep (outstanding, h). rbind (onAccept E N p ep h) (\<lambda>h. Inr (host_accept (outstanding, h)))) c (False, h))"

fun accept_run :: "'s node_env \<Rightarrow> net_ext \<Rightarrow> accept_completion list \<Rightarrow> bool \<times> 's host \<Rightarrow> (bool \<times> 's host) res" where
  "accept_run E N [] st = Inr st"
| "accept_run E N (c # cs) st =
     (if fst st then rbind (host_accept_completed E N c st) (accept_run E N cs) else Inr st)"

section \<open>Attempts\<close>

inductive_cases attempt_stepE: "attempt_step a b"

lemmas attempt_defs = connector_connect_def on_deadline_def on_socket_connected_def attempt_over_def

definition socket_call :: "nat \<Rightarrow> endpoint \<Rightarrow> connector_call" where
  "socket_call ec ep = (if ec \<noteq> 0 then Call_on_fail (mk_ConnectError NETWORK_FAILURE ec) else Call_on_connect ep)"

abbreviation time_out :: connector_call where
  "time_out \<equiv> Call_on_fail (mk_ConnectError TIMEOUT 0)"

definition attempt_inv :: "connect_attempt \<Rightarrow> bool" where
  "attempt_inv a \<longleftrightarrow> at_is_already_connected a = (\<not> at_socket_waits a)
     \<and> (if at_socket_waits a then at_calls a = (if at_deadline_waits a then [] else [time_out])
        else \<exists>ec ep. at_calls a = [socket_call ec ep] \<or> \<not> at_deadline_waits a \<and> at_calls a = [time_out, socket_call ec ep])"

lemma attempt_step_inv: "attempt_step a b \<Longrightarrow> attempt_inv a \<Longrightarrow> attempt_inv b"
  by (auto elim!: attempt_stepE simp: attempt_inv_def attempt_defs Let_def socket_call_def split: if_splits)

lemma attempt_reachable_inv: "attempt_step\<^sup>*\<^sup>* connector_connect a \<Longrightarrow> attempt_inv a"
  by (induction rule: rtranclp_induct) (simp_all add: attempt_inv_def connector_connect_def, metis attempt_inv_def attempt_step_inv)

text \<open>Both orders of the handlers are runs of the attempt.\<close>

lemma attempt_runs:
  "attempt_step\<^sup>*\<^sup>* connector_connect (on_deadline (on_socket_connected ec ep connector_connect))"
  "attempt_step\<^sup>*\<^sup>* connector_connect (on_socket_connected ec ep (on_deadline connector_connect))"
proof -
  have waits: "at_deadline_waits connector_connect" "at_socket_waits connector_connect"
    "at_deadline_waits (on_socket_connected ec ep connector_connect)" "at_socket_waits (on_deadline connector_connect)"
    by (simp_all add: attempt_defs Let_def)
  show "attempt_step\<^sup>*\<^sup>* connector_connect (on_deadline (on_socket_connected ec ep connector_connect))"
    using converse_rtranclp_into_rtranclp [OF socket_runs [OF waits(2)] r_into_rtranclp [of attempt_step, OF deadline_runs [OF waits(3)]]] .
  show "attempt_step\<^sup>*\<^sup>* connector_connect (on_socket_connected ec ep (on_deadline connector_connect))"
    using converse_rtranclp_into_rtranclp [OF deadline_runs [OF waits(1)] r_into_rtranclp [of attempt_step, OF socket_runs [OF waits(4)]]] .
qed

section \<open>The callbacks of the host\<close>

fun host_call :: "'s node_env \<Rightarrow> net_ext \<Rightarrow> time \<Rightarrow> ptr \<Rightarrow> endpoint \<Rightarrow> connector_call \<Rightarrow> 's host \<Rightarrow> 's host res" where
  "host_call E N now p ep (Call_on_connect session_ep) h = net_step E N now (Ev_connected p ep session_ep) h"
| "host_call E N now p ep (Call_on_fail e) h = net_step E N now (Ev_connect_failed ep) h"

fun host_calls :: "'s node_env \<Rightarrow> net_ext \<Rightarrow> time \<Rightarrow> ptr \<Rightarrow> endpoint \<Rightarrow> connector_call list \<Rightarrow> 's host \<Rightarrow> 's host res" where
  "host_calls E N now p ep [] h = Inr h"
| "host_calls E N now p ep (c # cs) h = rbind (host_call E N now p ep c h) (host_calls E N now p ep cs)"

lemma failure_then_call: "host_calls E N now p ep [time_out, c] h = host_calls E N now p ep [c] h"
  by (cases c) (simp_all add: connect_failed_def on_connect_def)

section \<open>Properties\<close>

text \<open>
  The outcomes of a connection attempt. Whatever the order of the deadline and the socket, an
  attempt that is over has called back once with the result of the socket, and in addition, before
  it, with a time-out when the deadline ran first: a connection can be reported after the attempt
  was reported as failed, but at most one connection is reported. For the host both are the same:
  it ends in the state that the result of the socket alone gives, with the endpoint no longer in
  process.
\<close>

theorem connect_attempt_outcomes:
  assumes "attempt_step\<^sup>*\<^sup>* connector_connect a" and "attempt_over a"
  shows "\<exists>ec ep. (at_calls a = [socket_call ec ep] \<or> at_calls a = [time_out, socket_call ec ep])
    \<and> (\<forall>E N now p e h. host_calls E N now p e (at_calls a) h = host_call E N now p e (socket_call ec ep) (h :: 's host))"
proof -
  have single: "host_calls E N now p e [c] h = host_call E N now p e c (h :: 's host)" for E N now p e h c
    by (cases "host_call E N now p e c h") (simp_all add: rbind_def)
  obtain ec ep where "at_calls a = [socket_call ec ep] \<or> at_calls a = [time_out, socket_call ec ep]"
    using attempt_reachable_inv [OF assms(1)] assms(2) by (auto simp: attempt_inv_def attempt_over_def)
  then show ?thesis using single failure_then_call by metis
qed

text \<open>A connection that is reported after the time-out\<close>

theorem connect_attempt_outcomes_witness:
  "at_calls (on_socket_connected 0 \<lparr>ep_address = 9, ep_port = 9\<rparr> (on_deadline connector_connect))
     = [time_out, Call_on_connect \<lparr>ep_address = 9, ep_port = 9\<rparr>]
   \<and> (\<exists>ec ep. at_calls (on_socket_connected 0 \<lparr>ep_address = 9, ep_port = 9\<rparr> (on_deadline connector_connect)) = [time_out, socket_call ec ep])"
  using connect_attempt_outcomes [OF attempt_runs(2), of 0 "\<lparr>ep_address = 9, ep_port = 9\<rparr>"]
  by (auto simp: attempt_defs)

text \<open>
  The accept loop runs until the first failure: the sockets accepted before it become peers as the
  events of the host say, and after it no operation is outstanding, so every later connection to
  the host is lost.
\<close>

fun accept_all :: "'s node_env \<Rightarrow> net_ext \<Rightarrow> (ptr \<times> endpoint) list \<Rightarrow> 's host \<Rightarrow> 's host res" where
  "accept_all E N [] h = Inr h"
| "accept_all E N ((p, ep) # xs) h = rbind (onAccept E N p ep h) (accept_all E N xs)"

theorem accept_loop_ends_at_failure:
  "accept_run E N (map (\<lambda>(p, ep). Accepted_socket p ep) xs @ Accept_failed ec # cs) (True, h)
     = rbind (accept_all E N xs h) (\<lambda>h. Inr (False, h))"
proof (induction xs arbitrary: h)
  case Nil
  show ?case by (cases cs) (simp_all add: host_accept_completed_def acceptor_completed_def)
next
  case (Cons x xs)
  then show ?case
    by (cases x; cases "onAccept E N (fst x) (snd x) h")
      (simp_all add: host_accept_completed_def acceptor_completed_def host_accept_def rbind_def)
qed

end
