(* ===== verification/ContractCommands.thy ===== *)
theory ContractCommands
  imports Client
begin

text \<open>
  What the commands for contracts leave behind: the files that \<^verbatim>\<open>compile_contract\<close> writes are the ones that \<^verbatim>\<open>encode_message\<close>,
  \<^verbatim>\<open>decode_message\<close> and \<^verbatim>\<open>push_contract\<close> read.
\<close>

section \<open>The folder of a contract\<close>

definition code_path :: "string \<Rightarrow> string" where
  "code_path name = path_append name ''compiled_code.bin''"

definition metadata_path :: "string \<Rightarrow> string" where
  "metadata_path name = path_append name ''metadata.json''"

definition simple_name :: "string \<Rightarrow> bool" where
  "simple_name name \<longleftrightarrow> name \<noteq> [] \<and> CHR ''/'' \<notin> set name"

lemma simple_last: "simple_name name \<Longrightarrow> last name \<noteq> CHR ''/''"
  unfolding simple_name_def using last_in_set by metis

lemma paths_simple:
  assumes "simple_name name"
  shows "code_path name = name @ ''/compiled_code.bin''" and "metadata_path name = name @ ''/metadata.json''"
  using assms simple_last [OF assms] by (simp_all add: code_path_def metadata_path_def path_append_def simple_name_def)

lemma prefixes_simple:
  assumes "simple_name name"
  shows "path_prefixes name = [name]"
proof -
  have "filter (\<lambda>i. i = length name \<or> name ! i = CHR ''/'') [0..<length name] = []"
    unfolding filter_empty_conv using assms nth_mem [of _ name] by (metis atLeastLessThan_iff less_irrefl set_upt simple_name_def)
  then show ?thesis using assms simple_last [OF assms] by (simp add: path_prefixes_def simple_name_def)
qed

lemma parent_simple:
  assumes "simple_name name" and "CHR ''/'' \<notin> set f"
  shows "parent_path (name @ CHR ''/'' # f) = name"
proof -
  have "dropWhile (\<lambda>c. c \<noteq> CHR ''/'') (rev f @ CHR ''/'' # rev name) = CHR ''/'' # rev name"
    using assms(2) by (subst dropWhile_append3) (auto simp: dropWhile_append)
  moreover have "dropWhile (\<lambda>c. c = CHR ''/'') (rev name) = rev name"
    using assms(1) simple_last [OF assms(1)] by (cases name rule: rev_cases) (auto simp: simple_name_def)
  ultimately show ?thesis using assms(1) by (simp add: parent_path_def simple_name_def)
qed

text \<open>No file lies where the directory is to be made, and no directory where the files are to be written.\<close>

definition folder_free :: "files \<Rightarrow> string \<Rightarrow> bool" where
  "folder_free fs name \<longleftrightarrow> (fs name = None \<or> fs name = Some Directory) \<and> fs (code_path name) \<noteq> Some Directory \<and> fs (metadata_path name) \<noteq> Some Directory"

definition contract_written :: "toolchain \<Rightarrow> compiled_contract \<Rightarrow> files \<Rightarrow> files" where
  "contract_written T c fs =
     fs(cc_name c \<mapsto> Directory, code_path (cc_name c) \<mapsto> Regular_file (toHex (cc_code c)),
        metadata_path (cc_name c) \<mapsto> Regular_file (the (write_json (tc_ptree T) (cc_metadata c))))"

lemma save_contract_written:
  assumes "simple_name (cc_name c)" and "folder_free fs (cc_name c)" and "write_json (tc_ptree T) (cc_metadata c) \<noteq> None"
  shows "save_contract T c fs = (Inr (), contract_written T c fs)"
proof -
  let ?n = "cc_name c"
  note paths = paths_simple [OF assms(1)]
  have ne: "?n \<noteq> []" using assms(1) by (simp add: simple_name_def)
  have dir: "createIfNotExists ?n fs = Inr (fs(?n \<mapsto> Directory))"
    using assms(2) ne by (auto simp: createIfNotExists_def prefixes_simple [OF assms(1)] folder_free_def fun_upd_idem)
  have parents: "parent_path (code_path ?n) = ?n" "parent_path (metadata_path ?n) = ?n"
    using parent_simple [OF assms(1), of "''compiled_code.bin''"] parent_simple [OF assms(1), of "''metadata.json''"] by (simp_all add: paths)
  have "can_open (fs(?n \<mapsto> Directory)) (code_path ?n)"
    "can_open (fs(?n \<mapsto> Directory, code_path ?n \<mapsto> Regular_file t)) (metadata_path ?n)" for t
    using assms(2) parents by (auto simp: can_open_def Let_def fs_is_directory_def folder_free_def paths)
  then show ?thesis
    using dir assms(3) by (auto simp: save_contract_def save_ptree_def Let_def contract_written_def code_path_def metadata_path_def)
qed

definition contract_paths :: "compiled_contract \<Rightarrow> string set" where
  "contract_paths c = {cc_name c, code_path (cc_name c), metadata_path (cc_name c)}"

lemma contract_written_other: "q \<notin> contract_paths c \<Longrightarrow> contract_written T c fs q = fs q"
  by (simp add: contract_written_def contract_paths_def)

lemma contract_written_at: "q \<in> contract_paths c \<Longrightarrow> contract_written T c fs q = contract_written T c Map.empty q"
  unfolding contract_paths_def by (elim insertE emptyE) (simp_all add: contract_written_def)

lemma fold_written_other:
  "q \<notin> \<Union> (contract_paths ` set cs) \<Longrightarrow> fold (contract_written T) cs fs q = fs q"
  by (induction cs arbitrary: fs) (simp_all add: contract_written_other)

lemma contract_paths_disjoint:
  assumes "simple_name (cc_name c)" and "simple_name (cc_name d)" and "cc_name c \<noteq> cc_name d"
  shows "contract_paths c \<inter> contract_paths d = {}"
proof -
  have cut: "takeWhile (\<lambda>x. x \<noteq> CHR ''/'') q = cc_name e" if "simple_name (cc_name e)" "q \<in> contract_paths e" for e q
  proof -
    have all: "takeWhile (\<lambda>x. x \<noteq> CHR ''/'') (cc_name e) = cc_name e"
      using that(1) unfolding simple_name_def takeWhile_eq_all_conv by metis
    then have "takeWhile (\<lambda>x. x \<noteq> CHR ''/'') (cc_name e @ CHR ''/'' # f) = cc_name e" for f by (simp add: takeWhile_tail)
    note tail = this
    have "q = cc_name e \<or> (\<exists>f. q = cc_name e @ CHR ''/'' # f)"
      using that(2) unfolding contract_paths_def paths_simple [OF that(1)] by blast
    then show ?thesis using all tail by metis
  qed
  show ?thesis
  proof (rule ccontr)
    assume "contract_paths c \<inter> contract_paths d \<noteq> {}"
    then obtain q where "q \<in> contract_paths c" "q \<in> contract_paths d" by blast
    then show False using cut [OF assms(1)] cut [OF assms(2)] assms(3) by metis
  qed
qed

lemma save_contracts_written:
  assumes "distinct (map cc_name cs)" and "\<forall>c\<in>set cs. simple_name (cc_name c) \<and> folder_free fs (cc_name c) \<and> write_json (tc_ptree T) (cc_metadata c) \<noteq> None"
  shows "\<exists>out. save_contracts T cs fs = (EXIT_OK, out, fold (contract_written T) cs fs)"
  using assms
proof (induction cs arbitrary: fs)
  case (Cons c cs)
  have "folder_free (contract_written T c fs) (cc_name d)" if "d \<in> set cs" for d
  proof -
    have "contract_paths c \<inter> contract_paths d = {}" using contract_paths_disjoint [of c d] Cons.prems that by auto
    then have "cc_name d \<notin> contract_paths c" "code_path (cc_name d) \<notin> contract_paths c" "metadata_path (cc_name d) \<notin> contract_paths c"
      by (auto simp: contract_paths_def)
    then show ?thesis using Cons.prems that by (simp add: folder_free_def contract_written_other)
  qed
  then have "\<exists>out. save_contracts T cs (contract_written T c fs) = (EXIT_OK, out, fold (contract_written T) cs (contract_written T c fs))"
    using Cons by simp
  then show ?case using save_contract_written [of c fs T] Cons.prems by (auto simp: Let_def)
qed simp

lemma fold_written_at:
  assumes "distinct (map cc_name cs)" and "\<forall>c\<in>set cs. simple_name (cc_name c)" and "c \<in> set cs" and "q \<in> contract_paths c"
  shows "fold (contract_written T) cs fs q = contract_written T c Map.empty q"
  using assms
proof (induction cs arbitrary: fs)
  case (Cons d cs)
  show ?case
  proof (cases "c = d")
    case True
    have "q \<notin> \<Union> (contract_paths ` set cs)"
    proof
      assume "q \<in> \<Union> (contract_paths ` set cs)"
      then obtain e where e: "e \<in> set cs" "q \<in> contract_paths e" by blast
      then have "cc_name e \<noteq> cc_name d" using Cons.prems(1) by (metis distinct.simps(2) imageI list.map(2) list.set_map)
      then show False using contract_paths_disjoint [of e d] Cons.prems(2,4) e True by auto
    qed
    then show ?thesis using True contract_written_at [OF Cons.prems(4)] by (simp add: fold_written_other)
  next
    case False
    then show ?thesis using Cons by simp
  qed
qed simp

lemma written_loads:
  assumes "ptree_ok (tc_ptree T)" and "\<forall>q\<in>contract_paths c. fs q = contract_written T c Map.empty q" and "simple_name (cc_name c)"
    and "write_json (tc_ptree T) (cc_metadata c) \<noteq> None"
  shows "loadContractData T fs (cc_name c) = Inr (string_to_bytes (toHex (cc_code c)), cc_metadata c)"
proof -
  have "fs (code_path (cc_name c)) = Some (Regular_file (toHex (cc_code c)))"
    "fs (metadata_path (cc_name c)) = Some (Regular_file (the (write_json (tc_ptree T) (cc_metadata c))))"
    using assms(2,3) by (simp_all add: contract_paths_def contract_written_def paths_simple)
  moreover have "read_json (tc_ptree T) (the (write_json (tc_ptree T) (cc_metadata c))) = Some (cc_metadata c)"
    using assms(4) ptree_ok_json [OF assms(1)] by auto
  ultimately show ?thesis by (simp add: loadContractData_def fs_exists_def code_path_def metadata_path_def)
qed

section \<open>Properties\<close>

text \<open>
  C11: a compiled contract can be used. When the Solidity compiler prints the contracts of a file, the metadata of each as one
  line of JSON, and its output is read to the end, the command \<^verbatim>\<open>compile_contract\<close> succeeds; afterwards the folder of every contract holds its code, as
  \<^verbatim>\<open>push_contract\<close> deploys it, and the metadata that \<^verbatim>\<open>encode_message\<close> and \<^verbatim>\<open>decode_message\<close> load, the same tree that the
  compiler printed, though \<^verbatim>\<open>write_json\<close> stores it as another text. No file outside the folders is changed.
\<close>

theorem compile_command:
  assumes "ptree_ok (tc_ptree (cl_tools C))" and "solc_prints (cl_tools C) file cs" and "CHR '':'' \<notin> set file"
    and "fs_exists (w_files w) (tc_search_path (cl_tools C) ''solc'')" and "distinct (map cc_name cs)"
    and "\<forall>c\<in>set cs. simple_name (cc_name c) \<and> folder_free (w_files w) (cc_name c) \<and> write_json (tc_ptree (cl_tools C)) (cc_metadata c) \<noteq> None"
    and "process_options (cl_parser C) (empty_description @ code_options) (''compile_contract'' # args) = Inr opts"
    and "\<not> hasOption opts ''help''" and "opts ''code'' = Some (String_value file)" and "args = [] \<or> CHR ''-'' \<in> set (hd args)"
  shows "\<exists>out fs'. client_main C command_list (exe # ''compile_contract'' # args) w = (Inr EXIT_OK, out, w\<lparr>w_files := fs'\<rparr>)
    \<and> (\<forall>c\<in>set cs. loadContractData (cl_tools C) fs' (cc_name c) = Inr (string_to_bytes (toHex (cc_code c)), cc_metadata c)
         \<and> rbind (readAllFile (path_append (cc_name c) ''compiled_code.bin'') fs') fromHex = Inr (cc_code c))
    \<and> (\<forall>q. q \<notin> \<Union> (contract_paths ` set cs) \<longrightarrow> fs' q = w_files w q)"
proof -
  let ?T = "cl_tools C" and ?fs = "fold (contract_written (cl_tools C)) cs (w_files w)"
  have comp: "compile ?T (w_files w) file = Inr (Some cs)"
    by (rule compile_solc [OF assms(4,2,3,5)])
  obtain out where "save_contracts ?T cs (w_files w) = (EXIT_OK, out, ?fs)" using save_contracts_written [OF assms(5)] assms(6) by blast
  with comp have exec: "ActionCompile_execute C file w = (Inr EXIT_OK, ''Compiled contracts:'' @ endl @ out, w\<lparr>w_files := ?fs\<rparr>)"
    by (simp add: ActionCompile_execute_def catch_compiler_errors_def)
  have opts: "ActionCompile_loadOptions opts (w_files w) = Inr (Some file)"
    using assms(9) by (simp add: ActionCompile_loadOptions_def require_def checkOptionEmptyAndWriteMessage_def hasOption_def getString_def)
  have "map_of (commands C) ''compile_contract'' = Some (action_run C code_options ActionCompile_loadOptions (ActionCompile_execute C))"
    by (simp add: commands_def)
  from client_main_command [OF this assms(10)]
  have main: "client_main C command_list (exe # ''compile_contract'' # args) w = (Inr EXIT_OK, ''Compiled contracts:'' @ endl @ out, w\<lparr>w_files := ?fs\<rparr>)"
    using assms(7,8) opts exec by (simp add: action_run_def Let_def)
  have "loadContractData ?T ?fs (cc_name c) = Inr (string_to_bytes (toHex (cc_code c)), cc_metadata c)
      \<and> rbind (readAllFile (path_append (cc_name c) ''compiled_code.bin'') ?fs) fromHex = Inr (cc_code c)" if c: "c \<in> set cs" for c
  proof
    have at: "\<forall>q\<in>contract_paths c. ?fs q = contract_written ?T c Map.empty q" using fold_written_at [OF assms(5) _ c] assms(6) by blast
    then show "loadContractData ?T ?fs (cc_name c) = Inr (string_to_bytes (toHex (cc_code c)), cc_metadata c)"
      using written_loads [OF assms(1), of c] assms(6) c by blast
    have "?fs (code_path (cc_name c)) = Some (Regular_file (toHex (cc_code c)))"
      using at assms(6) c by (auto simp: contract_paths_def contract_written_def paths_simple)
    then show "rbind (readAllFile (path_append (cc_name c) ''compiled_code.bin'') ?fs) fromHex = Inr (cc_code c)"
      by (simp add: readAllFile_def fs_exists_def code_path_def)
  qed
  then show ?thesis
    using main fold_written_other [of _ cs ?T "w_files w"] by (intro exI [of _ "''Compiled contracts:'' @ endl @ out"] exI [of _ ?fs] conjI) blast+
qed

text \<open>
  The compiler prints the metadata of the example on one line; the library writes it with one entry per
  line and a line break at the end, and reads both. A backquote stands for a double quote.
\<close>

definition json_lines :: "string list \<Rightarrow> string" where
  "json_lines ls = map (\<lambda>c. if c = CHR 0x60 then CHR 0x22 else c) (concat (map (\<lambda>l. l @ [CHR 0x0A]) ls))"

definition demo_solc_text :: string where
  "demo_solc_text = butlast (json_lines [''{`output`:{`abi`:[{`type`:`function`,`name`:`set`,'' @
     ''`inputs`:[{`type`:`address`,`internalType`:`address`}],`outputs`:[{`type`:`bool`}]}]}}''])"

definition demo_written_text :: string where
  "demo_written_text = json_lines
     [''{'', ''    `output`: {'', ''        `abi`: ['', ''            {'', ''                `type`: `function`,'',
      ''                `name`: `set`,'', ''                `inputs`: ['', ''                    {'',
      ''                        `type`: `address`,'', ''                        `internalType`: `address`'', ''                    }'',
      ''                ],'', ''                `outputs`: ['', ''                    {'', ''                        `type`: `bool`'',
      ''                    }'', ''                ]'', ''            }'', ''        ]'', ''    }'', ''}'']"

definition demo_boost :: ptree_lib where
  "demo_boost = demo_ptree\<lparr>
     read_json := (\<lambda>s. if s = demo_solc_text \<or> s = demo_written_text then Some (demo_metadata ''address'') else None),
     write_json := (\<lambda>t. if t = demo_metadata ''address'' then Some demo_written_text else None)\<rparr>"

definition demo_compiler :: toolchain where
  "demo_compiler = demo_toolchain\<lparr>tc_ptree := demo_boost,
     tc_process := (\<lambda>exe args. Some (concat (map (\<lambda>l. l @ [CHR 0x0A])
        (if args ! 0 = ''--bin'' then solc_lines (args ! 1) ''Binary:'' [(''Box'', toHex [96, 128])]
         else solc_lines (args ! 1) ''Metadata:'' [(''Box'', demo_solc_text)])), 4, 0))\<rparr>"

lemma demo_boost_ok: "ptree_ok demo_boost"
  using demo_ptree_ok by (simp add: ptree_ok_def demo_boost_def)

definition demo_compile_client :: "(string \<rightharpoonup> string, json_value) client_env" where
  "demo_compile_client = \<lparr>cl_env = demo_env, cl_json = demo_json,
     cl_parser = \<lparr>parse_command_line = (\<lambda>_ _. Some [''code'' \<mapsto> String_value ''box.sol'']), print_description = (\<lambda>_. [])\<rparr>,
     cl_now = 7, cl_server_now = 8, cl_rnd = (\<lambda>n. replicate n 0), cl_tools = demo_compiler\<rparr>"

lemma demo_solc_prints: "solc_prints demo_compiler ''box.sol'' [demo_contract]"
proof -
  have hex: "toHex [96, 128] = ''6080''" by code_simp
  have one_line: "CHR 0x0A \<notin> set demo_solc_text" by code_simp
  show ?thesis unfolding solc_prints_def Let_def
    by (rule exI [of _ "\<lambda>_. demo_solc_text"])
      (use hex one_line in \<open>simp add: demo_compiler_def demo_boost_def demo_toolchain_def demo_contract_def solc_lines_def info_line_def\<close>)
qed

text \<open>The stored text differs from the printed one\<close>

theorem compile_command_witness:
  "\<exists>out fs'. client_main demo_compile_client [] [''client'', ''compile_contract''] \<lparr>w_files = [''/usr/bin/solc'' \<mapsto> Regular_file []], w_node = None\<rparr>
       = (Inr EXIT_OK, out, \<lparr>w_files = fs', w_node = None\<rparr>)
     \<and> loadContractData demo_compiler fs' ''Box'' = Inr (string_to_bytes (toHex [96, 128]), demo_metadata ''address'')
     \<and> rbind (readAllFile (path_append ''Box'' ''compiled_code.bin'') fs') fromHex = Inr [96, 128]
     \<and> demo_written_text \<noteq> demo_solc_text"
proof -
  let ?w = "\<lparr>w_files = [''/usr/bin/solc'' \<mapsto> Regular_file []], w_node = None\<rparr> :: (string \<rightharpoonup> string) world"
  have T: "cl_tools demo_compile_client = demo_compiler" "tc_ptree demo_compiler = demo_boost" "tc_search_path demo_compiler ''solc'' = ''/usr/bin/solc''"
    by (simp_all add: demo_compile_client_def demo_compiler_def demo_toolchain_def)
  have box: "simple_name (cc_name demo_contract)" "write_json demo_boost (cc_metadata demo_contract) \<noteq> None"
    by (simp_all add: demo_contract_def simple_name_def demo_boost_def)
  have free: "folder_free (w_files ?w) (cc_name demo_contract)"
    using paths_simple [OF box(1)] by (simp add: folder_free_def demo_contract_def)
  have opts: "process_options (cl_parser demo_compile_client) (empty_description @ code_options) [''compile_contract''] = Inr [''code'' \<mapsto> String_value ''box.sol'']"
    by (simp add: process_options_def demo_compile_client_def)
  have "demo_written_text \<noteq> demo_solc_text" by code_simp
  then show ?thesis
    using compile_command [of demo_compile_client "''box.sol''" "[demo_contract]" ?w "[]" _ "[]" "''client''", OF _ _ _ _ _ _ opts]
      demo_boost_ok demo_solc_prints box free
    by (force simp: T fs_exists_def hasOption_def demo_contract_def)
qed

end
