(* ===== verification/Startup.thy ===== *)
theory Startup
  imports Connector ContractCommands
begin

text \<open>
  Starting a node: \<^verbatim>\<open>src/node/main.cpp\<close>, the configuration (\<^verbatim>\<open>node/soft_config.cpp\<close>), the constructors of
  \<^verbatim>\<open>Node\<close>, \<^verbatim>\<open>KeyVault\<close>, \<^verbatim>\<open>PersistentBlockchain\<close>, \<^verbatim>\<open>Host\<close>, \<^verbatim>\<open>RatingManager\<close>, \<^verbatim>\<open>RpcServer\<close> and \<^verbatim>\<open>Miner\<close> that read it, the
  opening of databases (\<^verbatim>\<open>base/database.cpp\<close>) and the start of the network and of the servers.
  What the operating system and the libraries decide is an argument, the record \<open>startup\<close>:
  opening a LevelDB directory, binding the listening socket, the texts that Boost converts to
  numbers, the random bytes and the loading of the virtual machine.
\<close>

section \<open>The disk\<close>

text \<open>Files and directories, the contents of the databases by their directory, and the databases this process has open.\<close>

record 's disk =
  dk_files :: files
  dk_databases :: "string \<rightharpoonup> 's"
  dk_open :: "string list"

definition remove_all :: "string \<Rightarrow> 's disk \<Rightarrow> 's disk" where
  "remove_all path d =
     (let below = (\<lambda>q. q = path \<or> take (Suc (length path)) q = path @ ''/'')
      in d\<lparr>dk_files := (\<lambda>q. if below q then None else dk_files d q), dk_databases := (\<lambda>q. if below q then None else dk_databases d q)\<rparr>)"

record 's startup =
  su_env :: "'s node_env"
  su_net :: net_ext
  su_ptree :: ptree_lib
  su_bool :: "string \<Rightarrow> bool option"
  su_ushort :: "string \<Rightarrow> 16 word option"
  su_size :: "string \<Rightarrow> nat option"
  su_random :: "nat \<Rightarrow> bytes"
  su_open :: "string \<Rightarrow> 's disk \<Rightarrow> 's option"
  su_vm :: "evm vm_loader"
  su_bind :: "endpoint \<Rightarrow> bool"
  su_uri_valid :: "string \<Rightarrow> bool"
  su_http_open :: "string \<Rightarrow> bool"
  su_grpc_port :: "string \<Rightarrow> int"
  su_hardware_concurrency :: nat
  su_parser :: parser

section \<open>Databases\<close>

definition Database_open :: "'s startup \<Rightarrow> bool \<Rightarrow> string \<Rightarrow> 's disk \<Rightarrow> ('s database \<times> 's disk) res" where
  "Database_open S inited path d =
     (if inited then Inl LogicError
      else case su_open S path d of
             None \<Rightarrow> Inl DatabaseError
           | Some ldb \<Rightarrow> Inr (\<lparr>db_inited = True, db_handle = ldb\<rparr>,
               d\<lparr>dk_files := (dk_files d)(path \<mapsto> Directory), dk_open := path # dk_open d\<rparr>))"

definition mk_Database :: "'s startup \<Rightarrow> string \<Rightarrow> 's disk \<Rightarrow> ('s database \<times> 's disk) res" where
  "mk_Database S path d = Database_open S False path d"

definition createDefaultDatabaseInstance :: "'s startup \<Rightarrow> string \<Rightarrow> 's disk \<Rightarrow> ('s database \<times> 's disk) res" where
  "createDefaultDatabaseInstance S path d =
     rbind (createIfNotExists path (dk_files d)) (\<lambda>fs. mk_Database S path (d\<lparr>dk_files := fs\<rparr>))"

definition createClearDatabaseInstance :: "'s startup \<Rightarrow> string \<Rightarrow> 's disk \<Rightarrow> ('s database \<times> 's disk) res" where
  "createClearDatabaseInstance S path d =
     (let d = (if fs_exists (dk_files d) path then remove_all path d else d)
      in createDefaultDatabaseInstance S path d)"

section \<open>Constructors that read the configuration\<close>

definition mk_SoftConfig :: "'s startup \<Rightarrow> string \<Rightarrow> 's disk \<Rightarrow> ptree res" where
  "mk_SoftConfig S path d = readConfig (su_ptree S) path (dk_files d)"

definition mk_KeyVault :: "'s startup \<Rightarrow> ptree \<Rightarrow> 's disk \<Rightarrow> (bytes \<times> 's disk) res" where
  "mk_KeyVault S config d =
     rbind (PropertyTree_get (su_ptree S) Some config ''keys_dir'') (\<lambda>keys_folder.
     rbind (loadOrGenerateKey (env_ext (su_env S)) (su_random S) keys_folder (dk_files d)) (\<lambda>(key, fs).
     Inr (key, d\<lparr>dk_files := fs\<rparr>)))"

definition open_PersistentBlockchain :: "'s startup \<Rightarrow> ptree \<Rightarrow> 's disk \<Rightarrow> ('s database \<times> 's disk) res" where
  "open_PersistentBlockchain S config d =
     rbind (PropertyTree_get (su_ptree S) Some config ''database.path'') (\<lambda>database_path.
     rbind (PropertyTree_get (su_ptree S) (su_bool S) config ''database.clean'') (\<lambda>clean.
     if clean then createClearDatabaseInstance S database_path d
     else createDefaultDatabaseInstance S database_path d))"

definition mk_RatingManager :: "'s startup \<Rightarrow> ptree \<Rightarrow> 's disk \<Rightarrow> ('s database \<times> 's disk) res" where
  "mk_RatingManager S config d =
     rbind (PropertyTree_get (su_ptree S) Some config ''net.peers_db'') (\<lambda>path. mk_Database S path d)"

text \<open>\<^verbatim>\<open>Acceptor::Acceptor\<close> opens, binds and listens, and throws when the system refuses.\<close>

definition mk_Acceptor :: "'s startup \<Rightarrow> endpoint \<Rightarrow> unit res" where
  "mk_Acceptor S listen_endpoint = (if su_bind S listen_endpoint then Inr () else Inl StdRuntimeError)"

text \<open>The members of \<^verbatim>\<open>Host\<close> in the order of their declaration\<close>

definition open_Host :: "'s startup \<Rightarrow> ptree \<Rightarrow> 's disk \<Rightarrow> (endpoint \<times> 16 word \<times> 's database \<times> 's disk) res" where
  "open_Host S config d =
     rbind (PropertyTree_get (su_ptree S) Some config ''net.listen_addr'') (\<lambda>listen_addr.
     rbind (endpoint_of_string (su_net S) listen_addr) (\<lambda>listen_ip.
     rbind (PropertyTree_get (su_ptree S) (su_ushort S) config ''net.public_port'') (\<lambda>server_public_port.
     rbind (mk_RatingManager S config d) (\<lambda>(rating_db, d).
     rbind (mk_Acceptor S listen_ip) (\<lambda>_.
     Inr (listen_ip, server_public_port, rating_db, d))))))"

text \<open>
  The constructor of \<^verbatim>\<open>Core\<close>: its members up to the virtual machine, and then its body, which loads the
  stored chain and replays it (\<^const>\<open>mk_Core\<close>). \<open>None\<close>: the walk through the stored blocks does not end.
\<close>

definition core_members :: "'s startup \<Rightarrow> bytes \<Rightarrow> unit res" where
  "core_members S key =
     (let X = env_ext (su_env S) in
      rbind (secp_toPublicKey X key) (\<lambda>pub.
      rbind (core_getGenesisBlock X) (\<lambda>genesis.
      rbind (mk_Blockchain genesis) (\<lambda>_. Inr ()))))"

definition start_core ::
    "'s startup \<Rightarrow> time \<Rightarrow> store \<Rightarrow> ptree \<Rightarrow> bytes \<Rightarrow> 's disk \<Rightarrow> ('s node_env \<times> 's host \<times> 's disk) res option" where
  "start_core S now peers config key d =
     (case rbind (core_members S key) (\<lambda>_.
           rbind (open_PersistentBlockchain S config d) (\<lambda>(db, d).
           rbind (open_Host S config d) (\<lambda>(listen_ip, server_public_port, rating_db, d).
           rbind (load_vm (su_vm S) (dk_files d)) (\<lambda>vm.
           Inr (db, listen_ip, server_public_port, rating_db, vm, d))))) of
        Inl e \<Rightarrow> Some (Inl e)
      | Inr (db, listen_ip, server_public_port, rating_db, vm, d) \<Rightarrow>
          (let E = su_env S\<lparr>env_vm := vm\<rparr>
           in map_option (\<lambda>r. rbind r (\<lambda>core. Inr (E, mk_Host listen_ip server_public_port rating_db peers core, d)))
                (mk_Core E now key db)))"

section \<open>The servers\<close>

record rpc_server =
  rs_grpc_listening_address :: "string option"
  rs_http_listening_address :: "string option"

text \<open>An address that is set stands for the bit of the server in \<^verbatim>\<open>_mode\<close>. The HTTP listener throws on an invalid address.\<close>

definition mk_RpcServer :: "'s startup \<Rightarrow> ptree \<Rightarrow> rpc_server res" where
  "mk_RpcServer S config =
     (let P = su_ptree S in
      rbind (if hasKey P config ''rpc.grpc_address''
             then rbind (PropertyTree_get P Some config ''rpc.grpc_address'') (\<lambda>a. Inr (Some a)) else Inr None) (\<lambda>grpc.
      rbind (if hasKey P config ''rpc.http_address''
             then rbind (PropertyTree_get P Some config ''rpc.http_address'') (\<lambda>a.
                    let address = ''http://'' @ a in if su_uri_valid S address then Inr (Some address) else Inl StdRuntimeError)
             else Inr None) (\<lambda>http.
      if grpc = None \<and> http = None then Inl InvalidArgument
      else Inr \<lparr>rs_grpc_listening_address = grpc, rs_http_listening_address = http\<rparr>)))"

definition http_server_run :: "'s startup \<Rightarrow> string \<Rightarrow> unit res" where
  "http_server_run S address = (if su_http_open S address then Inr () else Inl StdRuntimeError)"

definition grpc_server_run :: "'s startup \<Rightarrow> string \<Rightarrow> unit res" where
  "grpc_server_run S address =
     (let selected_port = su_grpc_port S address
      in if selected_port = -1 \<or> selected_port = 0 then Inl RpcError else Inr ())"

text \<open>Which servers listen after the call, and the exception it ended with\<close>

definition RpcServer_run :: "'s startup \<Rightarrow> rpc_server \<Rightarrow> string list \<times> unit res" where
  "RpcServer_run S r =
     (case (case rs_http_listening_address r of Some a \<Rightarrow> rbind (http_server_run S a) (\<lambda>_. Inr [a]) | None \<Rightarrow> Inr []) of
        Inl e \<Rightarrow> ([], Inl e)
      | Inr running \<Rightarrow>
          (case rs_grpc_listening_address r of
             Some a \<Rightarrow> (case grpc_server_run S a of Inl e \<Rightarrow> (running, Inl e) | Inr _ \<Rightarrow> (running @ [a], Inr ()))
           | None \<Rightarrow> (running, Inr ())))"

text \<open>Closing the listeners that are open; the destructor calls it.\<close>

definition RpcServer_stop :: "rpc_server \<Rightarrow> string list \<Rightarrow> string list" where
  "RpcServer_stop r running =
     (let running = (case rs_http_listening_address r of Some a \<Rightarrow> removeAll a running | None \<Rightarrow> running)
      in case rs_grpc_listening_address r of Some a \<Rightarrow> removeAll a running | None \<Rightarrow> running)"

section \<open>The node\<close>

definition calcThreadsNum :: "'s startup \<Rightarrow> ptree \<Rightarrow> nat res" where
  "calcThreadsNum S config =
     (if hasKey (su_ptree S) config ''miner.threads''
      then PropertyTree_get (su_ptree S) (su_size S) config ''miner.threads''
      else Inr (su_hardware_concurrency S))"

text \<open>A running node: the environment with the loaded virtual machine, host and core, the miner, and the servers that listen\<close>

record 's running_node =
  rn_env :: "'s node_env"
  rn_host :: "'s host"
  rn_miner :: miner_sys
  rn_rpc :: rpc_server
  rn_listening :: "string list"

definition mk_Node :: "'s startup \<Rightarrow> time \<Rightarrow> store \<Rightarrow> ptree \<Rightarrow> 's disk \<Rightarrow> ('s running_node \<times> 's disk) res option" where
  "mk_Node S now peers config d =
     (case mk_KeyVault S config d of
        Inl e \<Rightarrow> Some (Inl e)
      | Inr (key, d) \<Rightarrow>
          map_option (\<lambda>r.
            rbind r (\<lambda>(E, h, d).
            rbind (mk_RpcServer S config) (\<lambda>rpc.
            rbind (calcThreadsNum S config) (\<lambda>num_threads.
            Inr (\<lparr>rn_env = E, rn_host = h, rn_miner = mk_Miner num_threads, rn_rpc = rpc, rn_listening = []\<rparr>, d)))))
          (start_core S now peers config key d))"

definition host_bootstrap :: "'s startup \<Rightarrow> 's node_env \<Rightarrow> ptree \<Rightarrow> 's host \<Rightarrow> 's host res" where
  "host_bootstrap S E config h =
     (if hasKey (su_ptree S) config ''nodes''
      then rbind (PropertyTree_getVector (su_ptree S) Some config ''nodes'') (\<lambda>nodes. bootstrap E (su_net S) nodes h)
      else Inr h)"

text \<open>\<^verbatim>\<open>Host::run\<close> also starts to accept connections, the heart beat and the thread of the network.\<close>

definition Host_run :: "'s startup \<Rightarrow> 's node_env \<Rightarrow> ptree \<Rightarrow> 's host \<Rightarrow> 's host res" where
  "Host_run S E config h = host_bootstrap S E config (snd (host_accept (False, h)))"

text \<open>Exceptions of the servers are caught and logged.\<close>

definition Node_run :: "'s startup \<Rightarrow> ptree \<Rightarrow> 's running_node \<Rightarrow> 's running_node res" where
  "Node_run S config n =
     rbind (Host_run S (rn_env n) config (rn_host n)) (\<lambda>h.
     Inr (n\<lparr>rn_host := h, rn_listening := fst (RpcServer_run S (rn_rpc n))\<rparr>))"

section \<open>The program\<close>

definition CONFIG_PATH :: string where
  "CONFIG_PATH = ''config.json''"

definition node_options :: options_description where
  "node_options = empty_description @ [(''config'', String_option)]"

text \<open>
  What \<^verbatim>\<open>main\<close> comes to: an exit code, or a node that runs (for a year). The default of the option is the
  text of \<open>CONFIG_PATH\<close>. Exceptions end with the code for failure; \<open>Broken\<close> is a failed assertion, which exits on its own, or
  undefined behaviour.
\<close>

datatype 's main_outcome = Exit int | Running "'s running_node" "'s disk" | Broken error

definition main_try :: "'s startup \<Rightarrow> time \<Rightarrow> store \<Rightarrow> string list \<Rightarrow> 's disk \<Rightarrow> 's main_outcome res option" where
  "main_try S now peers argv d =
     (case process_options (su_parser S) node_options argv of
        Inl e \<Rightarrow> Some (Inl e)
      | Inr options \<Rightarrow>
          if hasOption options ''help'' then Some (Inr (Exit EXIT_OK))
          else
            (case getString (case options ''config'' of None \<Rightarrow> options(''config'' \<mapsto> String_value CONFIG_PATH) | Some _ \<Rightarrow> options) ''config'' of
               Inl e \<Rightarrow> Some (Inl e)
             | Inr config_file_path \<Rightarrow>
                 if \<not> fs_exists (dk_files d) config_file_path then Some (Inr (Exit EXIT_FAIL))
                 else
                   (case mk_SoftConfig S config_file_path d of
                      Inl e \<Rightarrow> Some (Inl e)
                    | Inr exe_config \<Rightarrow>
                        map_option (\<lambda>r. rbind r (\<lambda>(n, d). rbind (Node_run S exe_config n) (\<lambda>n. Inr (Running n d))))
                          (mk_Node S now peers exe_config d))))"

definition node_main :: "'s startup \<Rightarrow> time \<Rightarrow> store \<Rightarrow> string list \<Rightarrow> 's disk \<Rightarrow> 's main_outcome option" where
  "node_main S now peers argv d =
     map_option (\<lambda>r. case r of Inl e \<Rightarrow> if is_std_exception e then Exit EXIT_FAIL else Broken e | Inr outcome \<Rightarrow> outcome) (main_try S now peers argv d)"

section \<open>The genesis block\<close>

lemma genesis_address_bytes:
  "address_of_string genesis_address = Inr [225, 255, 136, 17, 42, 71, 12, 56, 62, 104, 11, 161, 73, 47, 89, 230, 212, 190, 76, 46]"
proof -
  let ?a = "[225, 255, 136, 17, 42, 71, 12, 56, 62, 104, 11, 161, 73, 47, 89, 230, 212, 190, 76, 46] :: bytes"
  let ?ds = "[3, 8, 35, 38, 48, 28, 38, 10, 0, 39, 26, 15, 54, 4, 30, 32, 25, 52, 5, 45, 32, 12, 49, 45, 51, 19, 49, 0] :: nat list"
  have "nat_of_bytes ?a = val_be 58 ?ds" by (simp add: nat_of_bytes_def val_be_def)
  moreover have "digits_be 58 (val_be 58 ?ds) = ?ds" by (subst digits_be_val_be) simp_all
  moreover have "map (\<lambda>d. pszBase58 ! d) ?ds = genesis_address" by (simp add: pszBase58_def genesis_address_def)
  ultimately have "base58Encode ?a = genesis_address" by (simp add: base58Encode_digits)
  then have "base58Decode genesis_address = Inr ?a" using base58Decode_Encode [of ?a] by simp
  then show ?thesis by (simp add: address_of_string_def fixed_bytes_def LENGTH_IN_BYTES_def)
qed

lemma genesis_block:
  obtains g a tx where "core_getGenesisBlock X = Inr g" and "wf_iblock X g" and "blk_txs g = [tx]" and "blk_depth g = 0"
    and "blk_timestamp g = 1583789617" and "tx_to tx = a" and "tx_amount tx = 2 ^ 32" and "address_of_string genesis_address = Inr a"
proof -
  obtain a where a: "address_of_string genesis_address = Inr a" "wf_address a"
    using genesis_address_bytes by (simp add: wf_address_def LENGTH_IN_BYTES_def)
  let ?tx = "\<lparr>tx_from = address_null, tx_to = a, tx_amount = 2 ^ 32, tx_fee = 0, tx_timestamp = 1583789617, tx_data = [], tx_sign = Sign_empty\<rparr>"
  let ?g = "mk_ImmutableBlock X 0 0 sha256_null 1583789617 a [?tx]"
  have "core_getGenesisBlock X = Inr ?g"
    by (simp add: core_getGenesisBlock_def a(1) mk_Transaction_def txset_add_def txset_find_def buildImmutable_def
        raiseIfNotEverythingIsSet_def builder_null_def bb_setDepth_def
        bb_setNonce_def bb_setPrevBlockHash_def bb_setTimestamp_def bb_setCoinbase_def bb_setTransactionsSet_def)
  moreover have "wf_iblock X ?g" using a(2) by (simp add: wf_iblock_mk wf_tx_def sha256_null_def Sign_empty_def)
  ultimately show ?thesis using that a(1) by (simp add: mk_ImmutableBlock_fields)
qed

section \<open>Starting the core\<close>

lemma replay_frame:
  "replay_loop E ds c = Inr c' \<Longrightarrow> core_blockchain c' = core_blockchain c \<and> core_pending_transactions c' = core_pending_transactions c
     \<and> core_events c' = core_events c \<and> core_this_node_address c' = core_this_node_address c"
  by (induction ds arbitrary: c) (auto simp: rbind_eq_Inr split: option.splits dest!: performTransactions_frame)

text \<open>A stored chain comes back; the accounts are what its transactions make of the genesis state.\<close>

lemma mk_Core_stored:
  assumes libs: "leveldb_ok (env_leveldb E)" "big_ok (env_ext E)" "hash_ok (env_ext E)" and key: "secp_toPublicKey (env_ext E) key = Inr pub"
    and g: "core_getGenesisBlock (env_ext E) = Inr g" and pb: "pb_reachable (env_ext E) (env_leveldb E) g pb"
    and past: "\<forall>h b. findBlock (pb_chain pb) h = Some b \<longrightarrow> blk_timestamp b \<le> now + SECONDS_IN_DAY"
  shows "mk_Core E now key (pb_database pb) =
    (let c = \<lparr>core_this_node_address = address_of_public_key (env_ext E) pub, core_state_manager = updateFromGenesis g (\<lambda>_. None),
              core_blockchain = pb, core_pending_transactions = [], core_tx_outputs = (\<lambda>_. None), core_events = []\<rparr>
     in Some (rbind (core_getTopBlock c) (\<lambda>top. replay_loop E (map of_nat [1..<Suc (unat (blk_depth top))]) c)))"
proof -
  obtain bc where bc: "mk_Blockchain g = Inr bc" using mk_Blockchain_total by blast
  have "wf_iblock (env_ext E) g" using g genesis_block by (metis sum.inject(2))
  then have "load (env_ext E) (env_leveldb E) now \<lparr>pb_chain = bc, pb_database = pb_database pb\<rparr> = Some (Inr pb)"
    by (rule load_reachable [OF libs _ pb past bc])
  then show ?thesis by (simp add: mk_Core_def key g bc Let_def)
qed

lemma mk_Core_fresh:
  assumes libs: "leveldb_ok (env_leveldb E)" "big_ok (env_ext E)" "hash_ok (env_ext E)" and key: "secp_toPublicKey (env_ext E) key = Inr pub"
    and g: "core_getGenesisBlock (env_ext E) = Inr g" and bc: "mk_Blockchain g = Inr bc" and db: "db_inited db" "\<And>k. db_lookup (env_leveldb E) db k = None"
    and now: "1583789617 \<le> now + SECONDS_IN_DAY"
  shows "mk_Core E now key db = Some (Inr \<lparr>core_this_node_address = address_of_public_key (env_ext E) pub,
      core_state_manager = updateFromGenesis g (\<lambda>_. None), core_blockchain = \<lparr>pb_chain = bc, pb_database = db\<rparr>,
      core_pending_transactions = [], core_tx_outputs = (\<lambda>_. None), core_events = []\<rparr>)"
proof -
  let ?pb = "\<lparr>pb_chain = bc, pb_database = db\<rparr>"
  have gen: "blk_depth g = 0" "blk_timestamp g = 1583789617" using g genesis_block by (metis sum.inject(2))+
  obtain con where con: "bc = mk_bc ([g], con)" using bc by (auto simp: mk_Blockchain_eq rbind_eq_Inr)
  have "findBlock bc = (\<lambda>h. if h = blk_this_block_hash g then Some g else None)" by (auto simp: con findBlock_def mk_bc_def)
  then have past: "\<forall>h b. findBlock (pb_chain ?pb) h = Some b \<longrightarrow> blk_timestamp b \<le> now + SECONDS_IN_DAY"
    using gen(2) now by simp
  have "getTopBlock bc = Inr g" by (simp add: con getTopBlock_def mk_bc_def)
  then show ?thesis using mk_Core_stored [OF libs key g pb_start [OF bc db] past] gen(1)
    by (simp add: core_getTopBlock_def)
qed

section \<open>Opening the databases\<close>

text \<open>
  What LevelDB documents: an existing database is opened with what it holds, and a new one holds nothing. A
  database is kept in a directory.
\<close>

definition open_ok :: "'s startup \<Rightarrow> bool" where
  "open_ok S \<longleftrightarrow> (\<forall>path d s. su_open S path d = Some s \<longrightarrow>
     (case dk_databases d path of Some s' \<Rightarrow> s = s' | None \<Rightarrow> \<forall>k. ldb_Get (env_leveldb (su_env S)) s k = GetNotFound))"

definition disk_ok :: "'s disk \<Rightarrow> bool" where
  "disk_ok d \<longleftrightarrow> (\<forall>path. dk_databases d path \<noteq> None \<longrightarrow> dk_files d path = Some Directory)"

text \<open>What is found at the path of the chain: nothing after a clean start, otherwise what was there.\<close>

definition stored_chain :: "bool \<Rightarrow> string \<Rightarrow> 's disk \<Rightarrow> 's option" where
  "stored_chain clean path d = (if clean then None else dk_databases d path)"

lemma open_chain:
  assumes "open_ok S" and "disk_ok d" and "open_PersistentBlockchain S config d = Inr (db, d')"
    and "PropertyTree_get (su_ptree S) Some config ''database.path'' = Inr path"
    and "PropertyTree_get (su_ptree S) (su_bool S) config ''database.clean'' = Inr clean"
  shows "db_inited db" and "stored_chain clean path d = Some s \<Longrightarrow> db_handle db = s"
    and "stored_chain clean path d = None \<Longrightarrow> db_lookup (env_leveldb (su_env S)) db k = None"
proof -
  let ?d = "if clean \<and> fs_exists (dk_files d) path then remove_all path d else d"
  have "createDefaultDatabaseInstance S path ?d = Inr (db, d')"
    using assms(3) unfolding open_PersistentBlockchain_def assms(4,5) rbind_Inr by (simp add: createClearDatabaseInstance_def split: if_splits)
  then obtain fs where open': "su_open S path (?d\<lparr>dk_files := fs\<rparr>) = Some (db_handle db)" and init: "db_inited db"
    by (auto simp: createDefaultDatabaseInstance_def mk_Database_def Database_open_def rbind_eq_Inr split: option.splits)
  have "dk_databases ?d path = stored_chain clean path d"
    using assms(2) by (auto simp: stored_chain_def remove_all_def Let_def disk_ok_def fs_exists_def)
  then have "case stored_chain clean path d of Some s' \<Rightarrow> db_handle db = s' | None \<Rightarrow> \<forall>k. ldb_Get (env_leveldb (su_env S)) (db_handle db) k = GetNotFound"
    using assms(1) [unfolded open_ok_def, rule_format, OF open'] by simp
  then show "stored_chain clean path d = Some s \<Longrightarrow> db_handle db = s"
    "stored_chain clean path d = None \<Longrightarrow> db_lookup (env_leveldb (su_env S)) db k = None"
    by (simp_all add: db_lookup_def)
  show "db_inited db" by (rule init)
qed

lemma key_vault_keeps_disk:
  assumes "mk_KeyVault S config d = Inr (key, d')"
  shows "dk_databases d' = dk_databases d" and "disk_ok d \<Longrightarrow> disk_ok d'"
proof -
  obtain dir fs where k: "loadOrGenerateKey (env_ext (su_env S)) (su_random S) dir (dk_files d) = Inr (key, fs)" and d': "d' = d\<lparr>dk_files := fs\<rparr>"
    using assms by (auto simp: mk_KeyVault_def rbind_eq_Inr)
  have "fs p = Some Directory" if "dk_files d p = Some Directory" for p
    using k that create_all_directories
    by (auto simp: loadOrGenerateKey_def rbind_eq_Inr Let_def secp_save_def writeFile_def createIfNotExists_def can_open_def split: if_splits)
  then show "dk_databases d' = dk_databases d" "disk_ok d \<Longrightarrow> disk_ok d'" by (auto simp: d' disk_ok_def)
qed

section \<open>Properties\<close>

text \<open>The constructors before the body of \<^verbatim>\<open>Core\<close> succeed, and what they read and open.\<close>

record 's opened =
  op_key :: bytes
  op_public_key :: bytes
  op_database :: "'s database"
  op_listen_ip :: endpoint
  op_public_port :: "16 word"
  op_rating_db :: "'s database"
  op_vm :: evm
  op_rpc :: rpc_server
  op_threads :: nat
  op_disk :: "'s disk"

definition opens :: "'s startup \<Rightarrow> ptree \<Rightarrow> 's disk \<Rightarrow> 's opened \<Rightarrow> bool" where
  "opens S config d o' \<longleftrightarrow> (\<exists>d1 d2. mk_KeyVault S config d = Inr (op_key o', d1)
     \<and> secp_toPublicKey (env_ext (su_env S)) (op_key o') = Inr (op_public_key o')
     \<and> open_PersistentBlockchain S config d1 = Inr (op_database o', d2)
     \<and> open_Host S config d2 = Inr (op_listen_ip o', op_public_port o', op_rating_db o', op_disk o')
     \<and> load_vm (su_vm S) (dk_files (op_disk o')) = Inr (op_vm o')
     \<and> mk_RpcServer S config = Inr (op_rpc o') \<and> calcThreadsNum S config = Inr (op_threads o'))"

lemma mk_Node_core:
  assumes "opens S config d o'"
  shows "mk_Node S now peers config d = map_option (\<lambda>r. rbind r (\<lambda>core.
      Inr (\<lparr>rn_env = su_env S\<lparr>env_vm := op_vm o'\<rparr>, rn_host = mk_Host (op_listen_ip o') (op_public_port o') (op_rating_db o') peers core,
        rn_miner = mk_Miner (op_threads o'), rn_rpc = op_rpc o', rn_listening = []\<rparr>, op_disk o')))
    (mk_Core (su_env S\<lparr>env_vm := op_vm o'\<rparr>) now (op_key o') (op_database o'))"
proof -
  obtain g where "core_getGenesisBlock (env_ext (su_env S)) = Inr g" by (rule genesis_block)
  moreover obtain bc where "mk_Blockchain g = Inr bc" using mk_Blockchain_total by blast
  ultimately have "core_members S (op_key o') = Inr ()" using assms by (auto simp: core_members_def opens_def)
  then show ?thesis using assms
    by (auto simp: opens_def mk_Node_def start_core_def option.map_comp comp_def Let_def rbind_def split: sum.splits intro!: option.map_cong)
qed

text \<open>The database of ratings is open.\<close>

lemma mk_Database_inited: "mk_Database S path d = Inr (db, d') \<Longrightarrow> db_inited db"
  by (auto simp: mk_Database_def Database_open_def rbind_eq_Inr split: option.splits if_splits)

lemma opened_rating_db: "opens S config d o' \<Longrightarrow> db_inited (op_rating_db o')"
  by (auto simp: opens_def open_Host_def mk_RatingManager_def rbind_eq_Inr dest: mk_Database_inited)

text \<open>
  C7: a new node. When the constructors that read the configuration succeed and the database of the chain is new,
  or the configuration asks for a clean start, the node comes up: its chain is the genesis block alone, the money of
  the system is the \<open>2 ^ 32\<close> of the genesis address, its address is that of its key, nothing is pending, the miner
  idles with the configured number of threads, and the host is a start state of the network model, from which all
  its invariants hold.
\<close>

theorem new_node_starts:
  assumes libs: "leveldb_ok (env_leveldb (su_env S))" "big_ok (env_ext (su_env S))" "hash_ok (env_ext (su_env S))" "open_ok S" "disk_ok d"
    and opened: "opens S config d o'" and peers: "\<forall>q. pr_sync_blocks (peers q) = []" and now: "1583789617 \<le> now + SECONDS_IN_DAY"
    and config: "PropertyTree_get (su_ptree S) Some config ''database.path'' = Inr path"
      "PropertyTree_get (su_ptree S) (su_bool S) config ''database.clean'' = Inr clean"
    and new: "clean \<or> dk_databases d path = None"
  shows "\<exists>n g a. mk_Node S now peers config d = Some (Inr (n, op_disk o'))
    \<and> core_getGenesisBlock (env_ext (su_env S)) = Inr g \<and> address_of_string genesis_address = Inr a
    \<and> host_reachable (rn_env n) N g (rn_host n) \<and> host_inv (rn_env n) g (rn_host n)
    \<and> getTopBlock (pb_chain (core_blockchain (h_core (rn_host n)))) = Inr g
    \<and> core_this_node_address (h_core (rn_host n)) = address_of_public_key (env_ext (su_env S)) (op_public_key o')
    \<and> core_pending_transactions (h_core (rn_host n)) = []
    \<and> balance_of (core_state_manager (h_core (rn_host n))) a = 2 ^ 32 \<and> total_money (core_state_manager (h_core (rn_host n))) = 2 ^ 32
    \<and> rn_miner n = mk_Miner (op_threads o')"
proof -
  let ?E = "su_env S\<lparr>env_vm := op_vm o'\<rparr>" and ?X = "env_ext (su_env S)"
  obtain g a tx where g: "core_getGenesisBlock ?X = Inr g" "blk_txs g = [tx]" "tx_to tx = a" "tx_amount tx = 2 ^ 32"
    "address_of_string genesis_address = Inr a" by (rule genesis_block [of ?X])
  obtain bc where bc: "mk_Blockchain g = Inr bc" using mk_Blockchain_total by blast
  have pub: "secp_toPublicKey ?X (op_key o') = Inr (op_public_key o')" using opened by (auto simp: opens_def)
  obtain d1 d2 where d1: "mk_KeyVault S config d = Inr (op_key o', d1)" "open_PersistentBlockchain S config d1 = Inr (op_database o', d2)"
    using opened by (auto simp: opens_def)
  have none: "stored_chain clean path d1 = None" using new key_vault_keeps_disk(1) [OF d1(1)] by (auto simp: stored_chain_def)
  note db = open_chain [OF libs(4) key_vault_keeps_disk(2) [OF d1(1) libs(5)] d1(2) config]
  define core where "core = \<lparr>core_this_node_address = address_of_public_key ?X (op_public_key o'), core_state_manager = updateFromGenesis g (\<lambda>_. None),
    core_blockchain = \<lparr>pb_chain = bc, pb_database = op_database o'\<rparr>, core_pending_transactions = [], core_tx_outputs = (\<lambda>_. None), core_events = []\<rparr>"
  have "mk_Core ?E now (op_key o') (op_database o') = Some (Inr core)"
    using mk_Core_fresh [of ?E "op_key o'" "op_public_key o'" g bc "op_database o'" now] libs(1-3) pub g(1) bc db(1) db(3) [OF none] now
    by (simp add: core_def)
  moreover have "core_reachable ?E g core" by (rule core_start [OF bc db(1)]) (use db(3) [OF none] in \<open>simp_all add: core_def\<close>)
  moreover from this have "host_reachable ?E N g (mk_Host ip port (op_rating_db o') peers core)" for ip port
    by (rule host_start) (use libs(3) peers opened_rating_db [OF opened] in \<open>simp_all add: core_def\<close>)
  moreover have "host_inv ?E g h" if "host_reachable ?E N g h" for h using host_reachable_inv [OF _ _ that] libs(1,2) by simp
  moreover have "getTopBlock bc = Inr g" using bc by (auto simp: mk_Blockchain_eq rbind_eq_Inr getTopBlock_def mk_bc_def)
  moreover have "core_state_manager core = [a \<mapsto> setBalance (2 ^ 32) (mk_AccountState CLIENT)]"
    using g(2-4) by (simp add: core_def updateFromGenesis_def std_map_insert_def)
  ultimately show ?thesis using g(1,5) mk_Node_core [OF opened, of now peers]
    by (simp add: mk_Host_def balance_of_def total_money_def setBalance_def core_def)
qed

text \<open>
  C8: a restarted node. When the database of the chain holds what an earlier run of a node left there, after any
  sequence of transactions and blocks, and no clean start is asked for, the start ends, with the failure of a
  transaction of the replay or with a node that has exactly the chain of the earlier run, the address of its key and
  an empty pool. With a clean start the same disk gives a node that has the genesis block alone.
\<close>

theorem node_restarts:
  assumes libs: "leveldb_ok (env_leveldb (su_env S))" "big_ok (env_ext (su_env S))" "hash_ok (env_ext (su_env S))" "open_ok S" "disk_ok d"
    and opened: "opens S config d o'"
    and config: "PropertyTree_get (su_ptree S) Some config ''database.path'' = Inr path"
      "PropertyTree_get (su_ptree S) (su_bool S) config ''database.clean'' = Inr clean"
    and g: "core_getGenesisBlock (env_ext (su_env S)) = Inr g" and earlier: "core_reachable (su_env S) g c"
    and stored: "dk_databases d path = Some (db_handle (pb_database (core_blockchain c)))"
    and past: "\<forall>h b. findBlock (pb_chain (core_blockchain c)) h = Some b \<longrightarrow> blk_timestamp b \<le> now + SECONDS_IN_DAY" "1583789617 \<le> now + SECONDS_IN_DAY"
  shows "\<exists>r. mk_Node S now peers config d = Some r \<and> (clean \<longrightarrow> (\<exists>n. r = Inr (n, op_disk o')))
    \<and> (\<forall>n d'. r = Inr (n, d') \<longrightarrow> core_pending_transactions (h_core (rn_host n)) = []
        \<and> core_this_node_address (h_core (rn_host n)) = address_of_public_key (env_ext (su_env S)) (op_public_key o')
        \<and> (if clean then getTopBlock (pb_chain (core_blockchain (h_core (rn_host n)))) = Inr g
           else core_blockchain (h_core (rn_host n)) = core_blockchain c))"
proof -
  let ?E = "su_env S\<lparr>env_vm := op_vm o'\<rparr>" and ?X = "env_ext (su_env S)" and ?L = "env_leveldb (su_env S)"
  have pub: "secp_toPublicKey ?X (op_key o') = Inr (op_public_key o')" using opened by (auto simp: opens_def)
  obtain d1 d2 where d1: "mk_KeyVault S config d = Inr (op_key o', d1)" "open_PersistentBlockchain S config d1 = Inr (op_database o', d2)"
    using opened by (auto simp: opens_def)
  note db = open_chain [OF libs(4) key_vault_keeps_disk(2) [OF d1(1) libs(5)] d1(2) config]
  note node = mk_Node_core [OF opened, of now peers]
  show ?thesis
  proof (cases clean)
    case True
    obtain bc where bc: "mk_Blockchain g = Inr bc" using mk_Blockchain_total by blast
    have "getTopBlock bc = Inr g" using bc by (auto simp: mk_Blockchain_eq rbind_eq_Inr getTopBlock_def mk_bc_def)
    moreover have "stored_chain clean path d1 = None" using True by (simp add: stored_chain_def)
    ultimately show ?thesis
      using mk_Core_fresh [of ?E "op_key o'" "op_public_key o'" g bc "op_database o'" now] libs(1-3) pub g bc db(1,3) past(2) True node
      by (simp add: mk_Host_def)
  next
    case False
    have pb: "pb_reachable ?X ?L g (core_blockchain c)" using core_reachable_inv [OF libs(1) earlier] by (simp add: core_inv_def)
    then have "db_inited (pb_database (core_blockchain c))" using pb_reachable_inv [OF libs(1)] by (auto simp: pb_inv_def db_stores_def)
    moreover have "stored_chain clean path d1 = Some (db_handle (pb_database (core_blockchain c)))"
      using False stored key_vault_keeps_disk(1) [OF d1(1)] by (simp add: stored_chain_def)
    ultimately have "op_database o' = pb_database (core_blockchain c)" using db(1,2) by simp
    then show ?thesis
      using mk_Core_stored [of ?E "op_key o'" "op_public_key o'" g "core_blockchain c" now] libs(1-3) pub g pb past(1) node False
      by (auto simp: mk_Host_def Let_def rbind_eq_Inr dest!: replay_frame)
  qed
qed

text \<open>
  The servers start in a fixed order: when the HTTP server cannot listen, the gRPC server is not started either, and
  the node runs on without any interface, since the exception is caught.
\<close>

lemma http_failure_stops_grpc:
  assumes "rs_http_listening_address (rn_rpc n) = Some a" and "\<not> su_http_open S a" and "Node_run S config n = Inr n'"
  shows "rn_listening n' = []"
  using assms by (auto simp: Node_run_def rbind_eq_Inr RpcServer_run_def http_server_run_def)

lemma stop_closes_all: "RpcServer_stop r (fst (RpcServer_run S r)) = []"
  by (auto simp: RpcServer_stop_def RpcServer_run_def rbind_def split: option.splits sum.splits)

text \<open>The program runs the node, without contacting anybody when the configuration lists no other nodes, or exits with failure.\<close>

lemma main_runs:
  assumes "process_options (su_parser S) node_options argv = Inr options" and "\<not> hasOption options ''help''"
    and "options ''config'' = Some (String_value path)" and "mk_SoftConfig S path d = Inr config"
    and "mk_Node S now peers config d = Some (Inr (n, d'))" and "\<not> hasKey (su_ptree S) config ''nodes''"
  shows "node_main S now peers argv d = Some (Running (n\<lparr>rn_listening := fst (RpcServer_run S (rn_rpc n))\<rparr>) d')"
proof -
  have "fs_exists (dk_files d) path" using assms(4) by (auto simp: mk_SoftConfig_def readConfig_def fs_exists_def split: option.splits)
  moreover have "getString options ''config'' = Inr path" unfolding getString_def assms(3) by simp
  moreover have "Node_run S config n = Inr (n\<lparr>rn_listening := fst (RpcServer_run S (rn_rpc n))\<rparr>)"
    using assms(6) by (simp add: Node_run_def Host_run_def host_bootstrap_def host_accept_def)
  ultimately show ?thesis unfolding node_main_def main_try_def assms(1) using assms(2-5) by (simp only: sum.case if_False option.case) simp
qed

lemma main_fails:
  assumes "process_options (su_parser S) node_options argv = Inr options" and "\<not> hasOption options ''help''"
    and "options ''config'' = Some (String_value path)" and "mk_SoftConfig S path d = Inl e"
  shows "node_main S now peers argv d = Some (Exit EXIT_FAIL)"
proof -
  have "is_std_exception e" using assms(4) by (auto simp: mk_SoftConfig_def readConfig_def split: option.splits file_node.splits)
  moreover have "getString options ''config'' = Inr path" unfolding getString_def assms(3) by simp
  ultimately show ?thesis unfolding node_main_def main_try_def assms(1) using assms(2-4) by (simp only: sum.case if_False option.case) simp
qed

section \<open>An example\<close>

definition demo_startup :: "(string \<rightharpoonup> string) startup" where
  "demo_startup = \<lparr>su_env = demo_env, su_net = demo_net, su_ptree = demo_ptree, su_bool = (\<lambda>s. Some (s = ''true'')), su_ushort = (\<lambda>_. Some 1),
     su_size = (\<lambda>_. Some 2), su_random = (\<lambda>n. replicate n 7),
     su_open = (\<lambda>path d. Some (case dk_databases d path of Some s \<Rightarrow> s | None \<Rightarrow> Map.empty)),
     su_vm = \<lparr>vl_absolute = Some, vl_symlink = (\<lambda>_. None), vl_load = (\<lambda>_. (EVMC_LOADER_SUCCESS, Some failing_vm)), vl_abi_compatible = (\<lambda>_. True)\<rparr>,
     su_bind = (\<lambda>_. True), su_uri_valid = (\<lambda>_. True), su_http_open = (\<lambda>_. True), su_grpc_port = (\<lambda>_. 1), su_hardware_concurrency = 4,
     su_parser = \<lparr>parse_command_line = (\<lambda>_ _. Some Map.empty), print_description = (\<lambda>_. [])\<rparr>\<rparr>"

definition demo_config :: "bool \<Rightarrow> ptree" where
  "demo_config clean = PTree [] [(''keys_dir'', PTree ''keys'' []),
     (''database'', PTree [] [(''path'', PTree ''db'' []), (''clean'', PTree (if clean then ''true'' else ''false'') [])]),
     (''net'', PTree [] [(''listen_addr'', PTree ''1:1'' []), (''public_port'', PTree ''1'' []), (''peers_db'', PTree ''peers'' [])]),
     (''rpc'', PTree [] [(''grpc_address'', PTree ''1:2'' [])]), (''miner'', PTree [] [(''threads'', PTree ''2'' [])])]"

definition demo_disk :: "(string \<rightharpoonup> string) disk" where
  "demo_disk = \<lparr>dk_files = [''libevmone.so.0.4'' \<mapsto> Regular_file [], ''db'' \<mapsto> Directory], dk_databases = [''db'' \<mapsto> Map.empty], dk_open = []\<rparr>"

lemma demo_values:
  "PropertyTree_get demo_ptree Some (demo_config clean) ''keys_dir'' = Inr ''keys''"
  "PropertyTree_get demo_ptree Some (demo_config clean) ''database.path'' = Inr ''db''"
  "PropertyTree_get demo_ptree (\<lambda>s. Some (s = ''true'')) (demo_config clean) ''database.clean'' = Inr clean"
  "PropertyTree_get demo_ptree Some (demo_config clean) ''net.listen_addr'' = Inr ''1:1''"
  "PropertyTree_get demo_ptree (\<lambda>_. Some 1) (demo_config clean) ''net.public_port'' = Inr 1"
  "PropertyTree_get demo_ptree Some (demo_config clean) ''net.peers_db'' = Inr ''peers''"
  "PropertyTree_get demo_ptree Some (demo_config clean) ''rpc.grpc_address'' = Inr ''1:2''"
  "PropertyTree_get demo_ptree (\<lambda>_. Some 2) (demo_config clean) ''miner.threads'' = Inr 2"
  "hasKey demo_ptree (demo_config clean) ''rpc.grpc_address''" "\<not> hasKey demo_ptree (demo_config clean) ''rpc.http_address''"
  "hasKey demo_ptree (demo_config clean) ''miner.threads''"
  by (simp_all add: PropertyTree_get_def hasKey_def demo_ptree_def demo_config_def split_at.simps)

lemma demo_startup_facts:
  "su_ptree demo_startup = demo_ptree" "su_env demo_startup = demo_env" "su_net demo_startup = demo_net"
  "su_bool demo_startup = (\<lambda>s. Some (s = ''true''))" "su_ushort demo_startup = (\<lambda>_. Some 1)" "su_size demo_startup = (\<lambda>_. Some 2)"
  "su_random demo_startup = (\<lambda>n. replicate n 7)" "su_bind demo_startup = (\<lambda>_. True)"
  "su_open demo_startup path d = Some (case dk_databases d path of Some s \<Rightarrow> s | None \<Rightarrow> Map.empty)"
  by (simp_all add: demo_startup_def)

lemma demo_node_key:
  "loadOrGenerateKey demo_ext (\<lambda>n. replicate n 7) ''keys'' (dk_files demo_disk)
     = Inr (replicate 32 7, (dk_files demo_disk)(''keys'' \<mapsto> Directory, ''keys/lkkey'' \<mapsto> Regular_file (toHex (replicate 32 7))))"
proof -
  have path: "makePrivateKeyPath ''keys'' = ''keys/lkkey''" "parent_path ''keys/lkkey'' = ''keys''" "path_prefixes ''keys'' = [''keys'']"
    by (simp_all add: makePrivateKeyPath_def path_append_def parent_path_def path_prefixes_def upt_rec)
  show ?thesis
    by (simp add: loadOrGenerateKey_def path fs_exists_def secp_generate_def secp_save_def writeFile_def createIfNotExists_def can_open_def
        fs_is_directory_def fixed_bytes_def secp_key_def demo_ext_def demo_disk_def)
qed

lemma demo_opens:
  obtains o' where "opens demo_startup (demo_config clean) demo_disk o'" and "op_threads o' = 2"
proof -
  let ?C = "demo_config clean"
  obtain fs where key: "mk_KeyVault demo_startup ?C demo_disk = Inr (replicate 32 7, demo_disk\<lparr>dk_files := fs\<rparr>)"
    and fs: "fs ''db'' = Some Directory" "fs ''libevmone.so.0.4'' \<noteq> None"
    unfolding mk_KeyVault_def demo_startup_facts demo_values rbind_Inr
    by (simp add: demo_env_def demo_node_key) (simp add: demo_disk_def)
  let ?d = "demo_disk\<lparr>dk_files := fs\<rparr>"
  have dirs: "createIfNotExists ''db'' fs' = Inr (fs'(''db'' \<mapsto> Directory))" if "fs' ''db'' = Some Directory \<or> fs' ''db'' = None" for fs'
    using that by (auto simp: createIfNotExists_def path_prefixes_def upt_rec fun_upd_idem)
  obtain db d2 where db: "open_PersistentBlockchain demo_startup ?C ?d = Inr (db, d2)" and d2: "dk_files d2 ''libevmone.so.0.4'' \<noteq> None"
  proof -
    have create: "\<exists>db d2. createDefaultDatabaseInstance demo_startup ''db'' d = Inr (db, d2) \<and> dk_files d2 = (dk_files d)(''db'' \<mapsto> Directory)"
      if "dk_files d ''db'' = Some Directory \<or> dk_files d ''db'' = None" for d
      using that by (simp add: createDefaultDatabaseInstance_def mk_Database_def Database_open_def demo_startup_facts dirs)
    have "dk_files (remove_all ''db'' ?d) ''db'' = None" "dk_files (remove_all ''db'' ?d) ''libevmone.so.0.4'' \<noteq> None" "fs_exists (dk_files ?d) ''db''"
      using fs by (simp_all add: remove_all_def fs_exists_def)
    then have "\<exists>db d2. (if clean then createClearDatabaseInstance demo_startup ''db'' ?d else createDefaultDatabaseInstance demo_startup ''db'' ?d)
        = Inr (db, d2) \<and> dk_files d2 ''libevmone.so.0.4'' \<noteq> None"
      using create [of "remove_all ''db'' ?d"] create [of ?d] fs by (auto simp: createClearDatabaseInstance_def)
    then show ?thesis using that unfolding open_PersistentBlockchain_def demo_startup_facts demo_values rbind_Inr by blast
  qed
  obtain ep where ep: "endpoint_of_string demo_net ''1:1'' = Inr ep" by (simp add: endpoint_of_string_def demo_net_def Let_def)
  obtain rdb d3 where host: "open_Host demo_startup ?C d2 = Inr (ep, 1, rdb, d3)" and d3: "dk_files d3 ''libevmone.so.0.4'' \<noteq> None"
    using d2 unfolding open_Host_def mk_RatingManager_def demo_startup_facts demo_values rbind_Inr ep
    by (auto simp: mk_Database_def Database_open_def mk_Acceptor_def demo_startup_facts)
  have vm: "load_vm (su_vm demo_startup) (dk_files d3) = Inr failing_vm"
    using d3 by (simp add: load_vm_def getVmPath_def vl_absolute_res_def demo_startup_def fs_exists_def)
  obtain rpc where rpc: "mk_RpcServer demo_startup ?C = Inr rpc"
    unfolding mk_RpcServer_def demo_startup_facts Let_def using demo_values(7,9,10) [of clean] by simp
  have "calcThreadsNum demo_startup ?C = Inr 2"
    unfolding calcThreadsNum_def demo_startup_facts using demo_values(8,11) [of clean] by simp
  moreover obtain pub where "secp_toPublicKey demo_ext (replicate 32 7) = Inr pub" by (simp add: secp_toPublicKey_def demo_ext_def)
  ultimately show ?thesis using that [of "\<lparr>op_key = replicate 32 7, op_public_key = pub, op_database = db, op_listen_ip = ep, op_public_port = 1,
      op_rating_db = rdb, op_vm = failing_vm, op_rpc = rpc, op_threads = 2, op_disk = d3\<rparr>"] key db host vm rpc
    by (auto simp: opens_def demo_startup_facts demo_env_def)
qed

lemma demo_libs:
  "leveldb_ok (env_leveldb (su_env demo_startup))" "big_ok (env_ext (su_env demo_startup))" "hash_ok (env_ext (su_env demo_startup))"
  "open_ok demo_startup" "disk_ok demo_disk"
  using leveldb_ok_map demo_ext_ok
  by (auto simp: demo_startup_facts demo_env_def open_ok_def disk_ok_def demo_disk_def map_leveldb_def split: option.splits)

theorem new_node_starts_witness:
  "\<exists>n d' g. mk_Node demo_startup 1583789617 (\<lambda>q. demo_peer q address_null) (demo_config True) demo_disk = Some (Inr (n, d'))
     \<and> core_getGenesisBlock demo_ext = Inr g \<and> getTopBlock (pb_chain (core_blockchain (h_core (rn_host n)))) = Inr g
     \<and> host_reachable (rn_env n) demo_net g (rn_host n) \<and> total_money (core_state_manager (h_core (rn_host n))) = 2 ^ 32
     \<and> rn_miner n = mk_Miner 2"
proof -
  obtain o' where o': "opens demo_startup (demo_config True) demo_disk o'" "op_threads o' = 2" by (rule demo_opens)
  have peers: "\<forall>q. pr_sync_blocks (demo_peer q address_null) = []" by (simp add: demo_peer_def)
  have now: "1583789617 \<le> (1583789617 :: time) + SECONDS_IN_DAY" by (simp add: SECONDS_IN_DAY_def)
  note vals = demo_values(2,3) [of True, folded demo_startup_facts(1,4)]
  from new_node_starts [OF demo_libs o'(1) peers now vals, where N = demo_net] o'(2)
  show ?thesis unfolding demo_startup_facts(2) by (simp add: demo_env_def) blast
qed

theorem node_restarts_witness:
  "\<exists>c g r. core_getGenesisBlock demo_ext = Inr g \<and> core_reachable demo_env g c
     \<and> mk_Node demo_startup 1583789617 (\<lambda>q. demo_peer q address_null) (demo_config False) demo_disk = Some r
     \<and> (\<forall>n d'. r = Inr (n, d') \<longrightarrow> core_blockchain (h_core (rn_host n)) = core_blockchain c)"
proof -
  obtain o' where o': "opens demo_startup (demo_config False) demo_disk o'" by (rule demo_opens)
  obtain g where g: "core_getGenesisBlock demo_ext = Inr g" and gt: "blk_timestamp g = 1583789617" by (rule genesis_block [of demo_ext])
  obtain bc where bc: "mk_Blockchain g = Inr bc" using mk_Blockchain_total by blast
  let ?c = "demo_core_on bc"
  have c: "core_reachable demo_env g ?c" by (rule demo_core_reachable [OF bc])
  have now: "1583789617 \<le> (1583789617 :: time) + SECONDS_IN_DAY" by (simp add: SECONDS_IN_DAY_def)
  have "findBlock bc = (\<lambda>h. if h = blk_this_block_hash g then Some g else None)"
    using bc by (auto simp: mk_Blockchain_eq rbind_eq_Inr findBlock_def mk_bc_def)
  then have past: "\<forall>h b. findBlock (pb_chain (core_blockchain ?c)) h = Some b \<longrightarrow> blk_timestamp b \<le> 1583789617 + SECONDS_IN_DAY"
    using gt now by simp
  have stored: "dk_databases demo_disk ''db'' = Some (db_handle (pb_database (core_blockchain ?c)))" by (simp add: demo_disk_def)
  have g': "core_getGenesisBlock (env_ext (su_env demo_startup)) = Inr g" and c': "core_reachable (su_env demo_startup) g ?c"
    using g c by (simp_all add: demo_startup_facts demo_env_def)
  note vals = demo_values(2,3) [of False, folded demo_startup_facts(1,4)]
  from node_restarts [OF demo_libs o' vals g' c' stored past now, of "\<lambda>q. demo_peer q address_null"] g c
  show ?thesis by auto
qed

end
