(* ===== verification/Explorer.thy ===== *)
theory Explorer
  imports Client
begin

text \<open>
  The transactions explorer, \<^verbatim>\<open>src/gui/\<close>: the data model, the two tables of the window, the window with its events,
  and the thread that polls a node and fills them. wxWidgets is a parameter where it converts text to numbers; its
  labels, tables and queue of events are the fields of the window. The user and the thread interleave.
\<close>

section \<open>The data model\<close>

record data_model =
  dm_topBlockNumber :: "64 word"
  dm_blocks :: "iblock list"
  dm_transactions :: "transaction list"

definition mk_DataModel :: data_model where
  "mk_DataModel = \<lparr>dm_topBlockNumber = 0, dm_blocks = [], dm_transactions = []\<rparr>"

definition dm_Clear :: "data_model \<Rightarrow> data_model" where
  "dm_Clear m = m\<lparr>dm_blocks := [], dm_transactions := []\<rparr>"

definition AppendBlock :: "iblock \<Rightarrow> data_model \<Rightarrow> data_model" where
  "AppendBlock block m = m\<lparr>dm_blocks := dm_blocks m @ [block]\<rparr>"

definition AppendTransaction :: "transaction \<Rightarrow> data_model \<Rightarrow> data_model" where
  "AppendTransaction tx m = m\<lparr>dm_transactions := dm_transactions m @ [tx]\<rparr>"

definition setTopBlockNumber :: "64 word \<Rightarrow> data_model \<Rightarrow> data_model" where
  "setTopBlockNumber n m = m\<lparr>dm_topBlockNumber := n\<rparr>"

section \<open>The tables\<close>

text \<open>The number of a row is an \<^verbatim>\<open>int\<close>; the theorems below are about fewer than \<^term>\<open>2 ^ 31 :: nat\<close> rows.\<close>

text \<open>
  What the window uses of wxWidgets: \<^verbatim>\<open>wxString::ToULong\<close> reads back the decimal digits of every number of 64 bits,
  and \<^verbatim>\<open>wxTextFile::Eof\<close>, of the index of the current line and the number of lines, holds when the current line is the
  last one, as its documentation says.
\<close>

record wx =
  wx_ToULong :: "string \<Rightarrow> 64 word option"
  wx_Eof :: "nat \<Rightarrow> nat \<Rightarrow> bool"

definition wx_ok :: "wx \<Rightarrow> bool" where
  "wx_ok W \<longleftrightarrow> (\<forall>n :: 64 word. wx_ToULong W (std_to_string (unat n)) = Some n) \<and> (\<forall>i n. i < n \<longrightarrow> wx_Eof W i n = (Suc i = n))"

record block_info =
  bi_number :: "64 word"
  bi_hash :: string
  bi_depth :: "64 word"
  bi_timestamp :: "32 word"
  bi_coinbase :: string
  bi_nonce :: "64 word"

text \<open>The nonce of a new row has no initial value; it is an argument.\<close>

definition empty_BlockInfo :: "64 word \<Rightarrow> block_info" where
  "empty_BlockInfo nonce = \<lparr>bi_number = 0, bi_hash = [], bi_depth = 0, bi_timestamp = 0, bi_coinbase = [], bi_nonce = nonce\<rparr>"

definition BlocksTable_GetValue :: "nat \<Rightarrow> nat \<Rightarrow> block_info list \<Rightarrow> string res" where
  "BlocksTable_GetValue row col rows =
     (if row < length rows then
        (let r = rows ! row in
         if col = 0 then Inr (std_to_string (unat (bi_number r)))
         else if col = 1 then Inr (bi_hash r)
         else if col = 2 then Inr (std_to_string (unat (bi_depth r)))
         else if col = 3 then Inr (std_to_string (unat (bi_timestamp r)))
         else if col = 4 then Inr (bi_coinbase r)
         else if col = 5 then Inr (std_to_string (unat (bi_nonce r)))
         else Inl AssertionFailed)
      else Inr [])"

text \<open>A text that is no number leaves the row as it is.\<close>

definition set_number :: "wx \<Rightarrow> string \<Rightarrow> (64 word \<Rightarrow> 'r \<Rightarrow> 'r) \<Rightarrow> nat \<Rightarrow> 'r list \<Rightarrow> 'r list" where
  "set_number W val f row rows = (case wx_ToULong W val of Some n \<Rightarrow> rows[row := f n (rows ! row)] | None \<Rightarrow> rows)"

definition BlocksTable_SetValue :: "wx \<Rightarrow> nat \<Rightarrow> nat \<Rightarrow> string \<Rightarrow> block_info list \<Rightarrow> block_info list res" where
  "BlocksTable_SetValue W row col val rows =
     (if row < length rows then
        if col = 0 then Inr (set_number W val (\<lambda>n. bi_number_update (\<lambda>_. n)) row rows)
        else if col = 1 then Inr (rows[row := (rows ! row)\<lparr>bi_hash := val\<rparr>])
        else if col = 2 then Inr (set_number W val (\<lambda>n. bi_depth_update (\<lambda>_. n)) row rows)
        else if col = 3 then Inr (set_number W val (\<lambda>n. bi_timestamp_update (\<lambda>_. ucast n)) row rows)
        else if col = 4 then Inr (rows[row := (rows ! row)\<lparr>bi_coinbase := val\<rparr>])
        else if col = 5 then Inr (set_number W val (\<lambda>n. bi_nonce_update (\<lambda>_. n)) row rows)
        else Inl AssertionFailed
      else Inr rows)"

record tx_info =
  ti_number :: "32 word"
  ti_type :: string
  ti_from :: string
  ti_to :: string
  ti_value :: string
  ti_fee :: "64 word"
  ti_timestamp :: "32 word"
  ti_data :: string
  ti_signature :: bool

definition empty_TxInfo :: tx_info where
  "empty_TxInfo = \<lparr>ti_number = 0, ti_type = [], ti_from = [], ti_to = [], ti_value = [], ti_fee = 0, ti_timestamp = 0, ti_data = [], ti_signature = False\<rparr>"

definition TxsTable_GetValue :: "nat \<Rightarrow> nat \<Rightarrow> tx_info list \<Rightarrow> string res" where
  "TxsTable_GetValue row col rows =
     (if row < length rows then
        (let r = rows ! row in
         if col = 0 then Inr (std_to_string (unat (ti_number r)))
         else if col = 1 then Inr (ti_type r)
         else if col = 2 then Inr (ti_from r)
         else if col = 3 then Inr (ti_to r)
         else if col = 4 then Inr (ti_value r)
         else if col = 5 then Inr (std_to_string (unat (ti_fee r)))
         else if col = 6 then Inr (std_to_string (unat (ti_timestamp r)))
         else if col = 7 then Inr (if ti_data r = [] then ''<empty>'' else ti_data r)
         else if col = 8 then Inr (if ti_signature r then ''verified'' else ''bad signature'')
         else Inl AssertionFailed)
      else Inr [])"

definition TxsTable_SetValue :: "wx \<Rightarrow> nat \<Rightarrow> nat \<Rightarrow> string \<Rightarrow> tx_info list \<Rightarrow> tx_info list res" where
  "TxsTable_SetValue W row col val rows =
     (if row < length rows then
        if col = 0 then Inr (set_number W val (\<lambda>n. ti_number_update (\<lambda>_. ucast n)) row rows)
        else if col = 1 then Inr (rows[row := (rows ! row)\<lparr>ti_type := val\<rparr>])
        else if col = 2 then Inr (rows[row := (rows ! row)\<lparr>ti_from := val\<rparr>])
        else if col = 3 then Inr (rows[row := (rows ! row)\<lparr>ti_to := val\<rparr>])
        else if col = 4 then Inr (rows[row := (rows ! row)\<lparr>ti_value := val\<rparr>])
        else if col = 5 then Inr (set_number W val (\<lambda>n. ti_fee_update (\<lambda>_. n)) row rows)
        else if col = 6 then Inr (set_number W val (\<lambda>n. ti_timestamp_update (\<lambda>_. ucast n)) row rows)
        else if col = 7 then Inr (rows[row := (rows ! row)\<lparr>ti_data := val\<rparr>])
        else if col = 8 then
          (if val = ''verified'' then Inr (rows[row := (rows ! row)\<lparr>ti_signature := True\<rparr>])
           else if val = ''bad signature'' then Inr (rows[row := (rows ! row)\<lparr>ti_signature := False\<rparr>])
           else Inl AssertionFailed)
        else Inl AssertionFailed
      else Inr rows)"

text \<open>The operations on rows are the same text in both classes; the arguments are the rows and a new row.\<close>

definition table_Clear :: "'r list \<Rightarrow> 'r list" where
  "table_Clear rows = []"

definition table_InsertRows :: "'r \<Rightarrow> nat \<Rightarrow> nat \<Rightarrow> 'r list \<Rightarrow> bool \<times> 'r list" where
  "table_InsertRows new pos numRows rows =
     (if numRows = 0 \<or> length rows \<le> pos then (False, rows)
      else (True, take pos rows @ replicate numRows new @ drop pos rows))"

definition table_AppendRows :: "'r \<Rightarrow> nat \<Rightarrow> 'r list \<Rightarrow> bool \<times> 'r list" where
  "table_AppendRows new numRows rows = (if numRows = 0 then (False, rows) else (True, rows @ replicate numRows new))"

text \<open>Erasing beyond the last row is undefined.\<close>

definition table_DeleteRows :: "nat \<Rightarrow> nat \<Rightarrow> 'r list \<Rightarrow> (bool \<times> 'r list) res" where
  "table_DeleteRows pos numRows rows =
     (if numRows = 0 then Inr (False, rows)
      else if length rows < pos + numRows then Inl OutOfBounds
      else Inr (True, take pos rows @ drop (pos + numRows) rows))"

definition BlocksTable_LABELS :: "string list" where
  "BlocksTable_LABELS = [''Number'', ''Hash'', ''Depth'', ''Timestamp'', ''Coinbase'', ''Nonce'']"

definition TxsTable_LABELS :: "string list" where
  "TxsTable_LABELS = [''Number'', ''Type'', ''From'', ''To'', ''Value'', ''Fee'', ''Timestamp'', ''Data'', ''Signature'']"

definition GetColLabelValue :: "string list \<Rightarrow> nat \<Rightarrow> string" where
  "GetColLabelValue labels col = (if col < length labels then labels ! col else [])"

section \<open>The window\<close>

text \<open>The events that the thread sends to the window\<close>

datatype gui_event = UPDATE_TABLES | SET_BLOCK_HASH string | SET_BLOCK_NUMBER string | CONNECTION_STATUS_CHANGED string

record main_frame =
  mf_endpoint :: string
  mf_protocol :: string
  mf_status :: "string \<times> string \<times> string"
  mf_textBlockNumber :: string
  mf_textBlockHash :: string
  mf_blocks :: "block_info list"
  mf_txs :: "tx_info list"
  mf_textLog :: string
  mf_nodesEndpoints :: "string list"
  mf_dataModel :: data_model
  mf_pending :: "gui_event list"

text \<open>The loop over the lines of the file with the nodes, from the line with an index on\<close>

fun load_endpoints :: "wx \<Rightarrow> nat \<Rightarrow> nat \<Rightarrow> string list \<Rightarrow> string list" where
  "load_endpoints W n i [] = []"
| "load_endpoints W n i (line # lines) = (if wx_Eof W i n then [] else line # load_endpoints W n (Suc i) lines)"

definition loadEndpointsFromFile :: "wx \<Rightarrow> string list \<Rightarrow> string list" where
  "loadEndpointsFromFile W lines = load_endpoints W (length lines) 0 lines"

definition mk_MainFrame :: "wx \<Rightarrow> string list \<Rightarrow> main_frame" where
  "mk_MainFrame W lines =
     (let nodesEndpoints = loadEndpointsFromFile W lines;
          endpoint = (case nodesEndpoints of [] \<Rightarrow> [] | e # _ \<Rightarrow> e)
      in \<lparr>mf_endpoint = endpoint, mf_protocol = ''HTTP'', mf_status = (endpoint, ''HTTP'', ''Not connected''),
          mf_textBlockNumber = ''<no number>'', mf_textBlockHash = ''<no hash>'', mf_blocks = [], mf_txs = [], mf_textLog = [],
          mf_nodesEndpoints = nodesEndpoints, mf_dataModel = mk_DataModel, mf_pending = []\<rparr>)"

definition OnNodeEndpointChanged :: "string \<Rightarrow> main_frame \<Rightarrow> main_frame" where
  "OnNodeEndpointChanged s f = f\<lparr>mf_endpoint := s\<rparr>"

definition OnProtocolChanged :: "string \<Rightarrow> main_frame \<Rightarrow> main_frame" where
  "OnProtocolChanged s f = f\<lparr>mf_protocol := s\<rparr>"

text \<open>The handler of the hash writes the label of the number, and the other way round.\<close>

definition OnSetBlockHash :: "string \<Rightarrow> main_frame \<Rightarrow> main_frame" where
  "OnSetBlockHash s f = f\<lparr>mf_textBlockNumber := s\<rparr>"

definition OnSetBlockNumber :: "string \<Rightarrow> main_frame \<Rightarrow> main_frame" where
  "OnSetBlockNumber s f = f\<lparr>mf_textBlockHash := s\<rparr>"

definition BeforeFirst :: "char \<Rightarrow> string \<Rightarrow> string \<times> string" where
  "BeforeFirst c s = (takeWhile (\<lambda>x. x \<noteq> c) s, tl (dropWhile (\<lambda>x. x \<noteq> c) s))"

definition OnConnectionStatusChanged :: "string \<Rightarrow> main_frame \<Rightarrow> main_frame" where
  "OnConnectionStatusChanged s f =
     (let (part0, rest) = BeforeFirst (CHR ''|'') s;
          (part1, rest) = BeforeFirst (CHR ''|'') rest
      in f\<lparr>mf_status := (part0, part1, rest)\<rparr>)"

section \<open>Filling the tables\<close>

fun set_cells :: "(nat \<Rightarrow> nat \<Rightarrow> string \<Rightarrow> 'r list \<Rightarrow> 'r list res) \<Rightarrow> nat \<Rightarrow> (nat \<times> string) list \<Rightarrow> 'r list \<Rightarrow> 'r list res" where
  "set_cells SetValue i [] rows = Inr rows"
| "set_cells SetValue i ((col, val) # cells) rows = rbind (SetValue i col val rows) (set_cells SetValue i cells)"

definition block_cells :: "nat \<Rightarrow> iblock \<Rightarrow> (nat \<times> string) list" where
  "block_cells i block =
     [(0, std_to_string i), (1, sha256_toHex (blk_this_block_hash block)), (2, std_to_string (unat (blk_depth block))),
      (3, std_to_string (unat (blk_timestamp block))), (4, address_toString (blk_coinbase block)), (5, std_to_string (unat (blk_nonce block)))]"

fun fill_blocks :: "wx \<Rightarrow> nat \<Rightarrow> iblock list \<Rightarrow> block_info list \<Rightarrow> block_info list res" where
  "fill_blocks W i [] rows = Inr rows"
| "fill_blocks W i (block # blocks) rows =
     rbind (set_cells (BlocksTable_SetValue W) i (block_cells i block) rows) (fill_blocks W (Suc i) blocks)"

definition updateBlocksTable :: "wx \<Rightarrow> 64 word \<Rightarrow> main_frame \<Rightarrow> main_frame res" where
  "updateBlocksTable W nonce f =
     (let rows = table_Clear (mf_blocks f); numberBlocks = length (dm_blocks (mf_dataModel f))
      in case table_AppendRows (empty_BlockInfo nonce) numberBlocks rows of
           (False, rows) \<Rightarrow> Inr (f\<lparr>mf_blocks := rows,
             mf_textLog := mf_textLog f @ ''An error when updateBlockTable. Could not append '' @ std_to_string numberBlocks @ ''blocks'' @ endl\<rparr>)
         | (True, rows) \<Rightarrow> rbind (fill_blocks W 0 (dm_blocks (mf_dataModel f)) rows) (\<lambda>rows. Inr (f\<lparr>mf_blocks := rows\<rparr>)))"

text \<open>The check of the signature may throw, after the other cells are set.\<close>

definition tx_cells :: "ext \<Rightarrow> nat \<Rightarrow> transaction \<Rightarrow> (nat \<times> string) list" where
  "tx_cells X i tx =
     [(0, std_to_string i),
      (1, if tx_to tx = address_null then ''contract creation'' else if tx_data tx = [] then ''transfer'' else ''contract call''),
      (2, address_toString (tx_from tx)), (3, address_toString (tx_to tx)), (4, big_str X (tx_amount tx)),
      (5, std_to_string (unat (tx_fee tx))), (6, std_to_string (unat (tx_timestamp tx))),
      (7, if tx_data tx = [] then ''<empty>'' else toHex (tx_data tx))]"

definition sign_cell :: "bool \<Rightarrow> nat \<times> string" where
  "sign_cell ok = (8, if ok then ''verified'' else ''bad signature'')"

fun fill_txs :: "ext \<Rightarrow> wx \<Rightarrow> nat \<Rightarrow> transaction list \<Rightarrow> tx_info list \<Rightarrow> tx_info list res" where
  "fill_txs X W i [] rows = Inr rows"
| "fill_txs X W i (tx # txs) rows =
     rbind (set_cells (TxsTable_SetValue W) i (tx_cells X i tx) rows) (\<lambda>rows.
     rbind (checkSign X tx) (\<lambda>ok.
     rbind (set_cells (TxsTable_SetValue W) i [sign_cell ok] rows) (fill_txs X W (Suc i) txs)))"

definition updateTransactionsTable :: "ext \<Rightarrow> wx \<Rightarrow> main_frame \<Rightarrow> main_frame res" where
  "updateTransactionsTable X W f =
     (let rows = table_Clear (mf_txs f); numberTransactions = length (dm_transactions (mf_dataModel f))
      in case table_AppendRows empty_TxInfo numberTransactions rows of
           (False, rows) \<Rightarrow> Inr (f\<lparr>mf_txs := rows,
             mf_textLog := mf_textLog f @ ''An error when updateTransactionTable. Could not append '' @ std_to_string numberTransactions @ ''transactions'' @ endl\<rparr>)
         | (True, rows) \<Rightarrow> rbind (fill_txs X W 0 (dm_transactions (mf_dataModel f)) rows) (\<lambda>rows. Inr (f\<lparr>mf_txs := rows\<rparr>)))"

definition OnUpdateTables :: "ext \<Rightarrow> wx \<Rightarrow> 64 word \<Rightarrow> main_frame \<Rightarrow> main_frame res" where
  "OnUpdateTables X W nonce f = rbind (updateBlocksTable W nonce f) (updateTransactionsTable X W)"

fun handle_event :: "ext \<Rightarrow> wx \<Rightarrow> 64 word \<Rightarrow> gui_event \<Rightarrow> main_frame \<Rightarrow> main_frame res" where
  "handle_event X W nonce UPDATE_TABLES f = OnUpdateTables X W nonce f"
| "handle_event X W nonce (SET_BLOCK_HASH s) f = Inr (OnSetBlockHash s f)"
| "handle_event X W nonce (SET_BLOCK_NUMBER s) f = Inr (OnSetBlockNumber s f)"
| "handle_event X W nonce (CONNECTION_STATUS_CHANGED s) f = Inr (OnConnectionStatusChanged s f)"

section \<open>The thread\<close>

text \<open>The client for a mode and an endpoint, whose constructor may reject the endpoint, and its queries to the node there\<close>

record queries =
  q_createRpcClient :: "client_mode \<Rightarrow> string \<Rightarrow> unit res"
  q_getNodeInfo :: "client_mode \<Rightarrow> string \<Rightarrow> rpc_info res"
  q_getBlock :: "client_mode \<Rightarrow> string \<Rightarrow> depth \<Rightarrow> iblock res"

record update_thread =
  ut_running :: bool
  ut_rpcClient :: "(client_mode \<times> string) option"
  ut_endpoint :: string
  ut_protocol :: string

definition mk_UpdateThread :: update_thread where
  "mk_UpdateThread = \<lparr>ut_running = False, ut_rpcClient = None, ut_endpoint = [], ut_protocol = []\<rparr>"

definition thread_stop :: "update_thread \<Rightarrow> update_thread" where
  "thread_stop t = t\<lparr>ut_running := False\<rparr>"

definition AddPendingEvent :: "gui_event \<Rightarrow> main_frame \<Rightarrow> main_frame" where
  "AddPendingEvent e f = f\<lparr>mf_pending := mf_pending f @ [e]\<rparr>"

text \<open>The loop over the numbers of the blocks; the result says whether the end of the function is reached.\<close>

fun load_blocks :: "(depth \<Rightarrow> iblock res) \<Rightarrow> depth list \<Rightarrow> data_model \<Rightarrow> (bool \<times> data_model) res" where
  "load_blocks fetch [] m = Inr (True, m)"
| "load_blocks fetch (n # ns) m =
     (case fetch n of
        Inl e \<Rightarrow> if is_std_exception e then Inr (False, m) else Inl e
      | Inr block \<Rightarrow>
          if blk_timestamp block = 0 \<and> blk_depth block = - 1 then Inr (True, m)
          else load_blocks fetch ns (fold AppendTransaction (blk_txs block) (AppendBlock block m)))"

definition loadDataModelFromNode :: "(depth \<Rightarrow> iblock res) \<Rightarrow> main_frame \<Rightarrow> main_frame res" where
  "loadDataModelFromNode fetch f =
     (let m = dm_Clear (mf_dataModel f); topBlockNumber = dm_topBlockNumber m
      in rbind (load_blocks fetch (map of_nat [0..<unat topBlockNumber]) m) (\<lambda>(reached, m).
           let f = f\<lparr>mf_dataModel := m\<rparr> in Inr (if reached then AddPendingEvent UPDATE_TABLES f else f)))"

definition status_text :: "update_thread \<Rightarrow> string \<Rightarrow> string" where
  "status_text t s = ut_endpoint t @ ''|'' @ ut_protocol t @ ''|'' @ s"

definition not_available :: "update_thread \<Rightarrow> main_frame \<Rightarrow> main_frame" where
  "not_available t f =
     (let f = AddPendingEvent (SET_BLOCK_HASH ''<no hash>'') f;
          f = AddPendingEvent (SET_BLOCK_NUMBER ''<no number>'') f;
          f = AddPendingEvent (CONNECTION_STATUS_CHANGED (status_text t ''Not Available'')) f
      in f\<lparr>mf_dataModel := setTopBlockNumber 0 (mf_dataModel f)\<rparr>)"

definition poll :: "queries \<Rightarrow> update_thread \<Rightarrow> main_frame \<Rightarrow> main_frame res" where
  "poll Q t f =
     (case ut_rpcClient t of
        None \<Rightarrow> Inl AssertionFailed
      | Some (mode, address) \<Rightarrow>
          (case q_getNodeInfo Q mode address of
             Inl e \<Rightarrow> if is_std_exception e then Inr (not_available t f) else Inl e
           | Inr nodeInfo \<Rightarrow>
               if RPC_PUBLIC_API_VERSION = ri_api_version nodeInfo then
                 (let f = AddPendingEvent (SET_BLOCK_HASH (sha256_toHex (ri_top_block_hash nodeInfo))) f;
                      f = AddPendingEvent (SET_BLOCK_NUMBER (std_to_string (unat (ri_top_block_number nodeInfo)))) f;
                      f = AddPendingEvent (CONNECTION_STATUS_CHANGED (status_text t ''Available'')) f
                  in if dm_topBlockNumber (mf_dataModel f) < ri_top_block_number nodeInfo
                     then loadDataModelFromNode (q_getBlock Q mode address)
                            (f\<lparr>mf_dataModel := setTopBlockNumber (ri_top_block_number nodeInfo) (mf_dataModel f)\<rparr>)
                     else Inr f)
               else Inr (not_available t f)))"

text \<open>One turn of the loop of the thread. The second test reads the protocol of the last client, not the chosen one.\<close>

definition thread_turn :: "queries \<Rightarrow> update_thread \<times> main_frame \<Rightarrow> (update_thread \<times> main_frame) res" where
  "thread_turn Q = (\<lambda>(t, f).
     (let endpoint = mf_endpoint f; protocol = mf_protocol f;
          needCreateClient = (endpoint \<noteq> ut_endpoint t \<or> protocol \<noteq> ut_protocol t \<or> ut_rpcClient t = None);
          go = (\<lambda>t. rbind (poll Q t f) (\<lambda>f. Inr (t, f)));
          connect = (\<lambda>mode. rbind (q_createRpcClient Q mode endpoint) (\<lambda>_.
            go (t\<lparr>ut_rpcClient := Some (mode, endpoint), ut_endpoint := endpoint, ut_protocol := protocol\<rparr>)))
      in if needCreateClient then
           if protocol = ''HTTP'' then connect HTTP
           else if ut_protocol t = ''GRPC'' then connect GRPC
           else Inr (t\<lparr>ut_endpoint := [], ut_protocol := []\<rparr>, f)
         else go t))"

text \<open>The start of the thread in \<^verbatim>\<open>TxsExplorer::OnInit\<close>\<close>

definition OnInit :: "wx \<Rightarrow> string list \<Rightarrow> update_thread \<times> main_frame" where
  "OnInit W lines = (mk_UpdateThread\<lparr>ut_running := True\<rparr>, mk_MainFrame W lines)"

text \<open>
  The user chooses in the two boxes, the window handles the events that wait, and the thread takes its turns, in any order.
\<close>

inductive gui_step :: "ext \<Rightarrow> wx \<Rightarrow> queries \<Rightarrow> update_thread \<times> main_frame \<Rightarrow> update_thread \<times> main_frame \<Rightarrow> bool" for X W Q where
  user_endpoint: "e \<in> set (mf_nodesEndpoints f) \<Longrightarrow> gui_step X W Q (t, f) (t, OnNodeEndpointChanged e f)"
| user_protocol: "p \<in> {''HTTP'', ''GRPC''} \<Longrightarrow> gui_step X W Q (t, f) (t, OnProtocolChanged p f)"
| event: "mf_pending f = e # es \<Longrightarrow> handle_event X W nonce e (f\<lparr>mf_pending := es\<rparr>) = Inr f' \<Longrightarrow> gui_step X W Q (t, f) (t, f')"
| turn: "ut_running t \<Longrightarrow> thread_turn Q (t, f) = Inr s \<Longrightarrow> gui_step X W Q (t, f) s"

fun handle_events :: "ext \<Rightarrow> wx \<Rightarrow> 64 word \<Rightarrow> gui_event list \<Rightarrow> main_frame \<Rightarrow> main_frame res" where
  "handle_events X W nonce [] f = Inr f"
| "handle_events X W nonce (e # es) f = rbind (handle_event X W nonce e f) (handle_events X W nonce es)"

section \<open>What the tables show\<close>

text \<open>
  A table shows the text that was put into a cell, when the text is one the column can hold, and changes no other
  cell. What follows from it for rows that are filled cell by cell is the same for both tables.
\<close>

locale grid_table =
  fixes GetValue :: "nat \<Rightarrow> nat \<Rightarrow> 'r list \<Rightarrow> string res" and SetValue :: "nat \<Rightarrow> nat \<Rightarrow> string \<Rightarrow> 'r list \<Rightarrow> 'r list res"
    and cell_ok :: "nat \<Rightarrow> string \<Rightarrow> bool"
  assumes set_get: "row < length rows \<Longrightarrow> cell_ok col val \<Longrightarrow> \<exists>rows'. SetValue row col val rows = Inr rows' \<and> length rows' = length rows
      \<and> GetValue row col rows' = Inr val \<and> (\<forall>r c. (r, c) \<noteq> (row, col) \<longrightarrow> GetValue r c rows' = GetValue r c rows)"
begin

lemma set_cells_get:
  assumes "i < length rows" and "\<forall>(c, v)\<in>set cells. cell_ok c v" and "distinct (map fst cells)"
  shows "\<exists>rows'. set_cells SetValue i cells rows = Inr rows' \<and> length rows' = length rows \<and> (\<forall>(c, v)\<in>set cells. GetValue i c rows' = Inr v)
    \<and> (\<forall>r c. (r \<noteq> i \<or> c \<notin> fst ` set cells) \<longrightarrow> GetValue r c rows' = GetValue r c rows)"
  using assms
proof (induction cells arbitrary: rows)
  case (Cons cell cells)
  obtain col val where cell: "cell = (col, val)" by fastforce
  obtain r1 where r1: "SetValue i col val rows = Inr r1" "length r1 = length rows" "GetValue i col r1 = Inr val"
    "\<forall>r c. (r, c) \<noteq> (i, col) \<longrightarrow> GetValue r c r1 = GetValue r c rows"
    using set_get [of i rows col val] Cons.prems by (auto simp: cell)
  obtain r2 where r2: "set_cells SetValue i cells r1 = Inr r2" "length r2 = length r1" "\<forall>(c, v)\<in>set cells. GetValue i c r2 = Inr v"
    "\<forall>r c. (r \<noteq> i \<or> c \<notin> fst ` set cells) \<longrightarrow> GetValue r c r2 = GetValue r c r1"
    using Cons.IH [of r1] Cons.prems r1(2) by auto
  have "GetValue i col r2 = Inr val" using r2(4) r1(3) Cons.prems(3) by (simp add: cell)
  then show ?case using r1 r2 by (simp add: cell)
qed simp

end

text \<open>A column of numbers holds the digits of a number that is read back as that number.\<close>

definition number_ok :: "wx \<Rightarrow> 'a::len itself \<Rightarrow> string \<Rightarrow> bool" where
  "number_ok W T val \<longleftrightarrow> (\<exists>n :: 'a word. wx_ToULong W val = Some (ucast n) \<and> ucast (ucast n :: 64 word) = n \<and> val = std_to_string (unat n))"

definition block_cell_ok :: "wx \<Rightarrow> nat \<Rightarrow> string \<Rightarrow> bool" where
  "block_cell_ok W col val \<longleftrightarrow> (if col = 0 \<or> col = 2 \<or> col = 5 then number_ok W TYPE(64) val else if col = 3 then number_ok W TYPE(32) val else col < 6)"

definition tx_cell_ok :: "wx \<Rightarrow> nat \<Rightarrow> string \<Rightarrow> bool" where
  "tx_cell_ok W col val \<longleftrightarrow> (if col = 5 then number_ok W TYPE(64) val else if col = 0 \<or> col = 6 then number_ok W TYPE(32) val
     else if col = 7 then val \<noteq> [] else if col = 8 then val = ''verified'' \<or> val = ''bad signature'' else col < 9)"

lemma number_ok_64: "wx_ok W \<Longrightarrow> number_ok W TYPE(64) (std_to_string (unat (n :: 64 word)))"
  by (auto simp: number_ok_def wx_ok_def intro: exI [of _ n])

lemma ucast_32_64: "ucast (ucast (n :: 32 word) :: 64 word) = n" "unat (ucast n :: 64 word) = unat n"
proof -
  have "unat n < 2 ^ 64" using unsigned_less [of n, where ?'a = nat] by simp
  then show *: "unat (ucast n :: 64 word) = unat n" by (simp add: unsigned_ucast_eq take_bit_nat_eq_self)
  have "unat (ucast (ucast n :: 64 word) :: 32 word) = unat n"
    using unsigned_less [of n, where ?'a = nat] by (simp add: unsigned_ucast_eq [where ?'c = 32] * take_bit_nat_eq_self)
  then show "ucast (ucast n :: 64 word) = n" by (rule word_unat_eq_iff [THEN iffD2])
qed

lemma number_ok_32: "wx_ok W \<Longrightarrow> number_ok W TYPE(32) (std_to_string (unat (n :: 32 word)))"
proof -
  assume "wx_ok W"
  then have "wx_ToULong W (std_to_string (unat n)) = Some (ucast n)" unfolding wx_ok_def by (metis ucast_32_64(2))
  then show ?thesis unfolding number_ok_def using ucast_32_64(1) by blast
qed

lemma less_6_cases: "(c :: nat) < 6 \<longleftrightarrow> c = 0 \<or> c = 1 \<or> c = 2 \<or> c = 3 \<or> c = 4 \<or> c = 5"
  and less_9_cases: "(c :: nat) < 9 \<longleftrightarrow> c = 0 \<or> c = 1 \<or> c = 2 \<or> c = 3 \<or> c = 4 \<or> c = 5 \<or> c = 6 \<or> c = 7 \<or> c = 8"
  by auto

interpretation blocks_grid: grid_table BlocksTable_GetValue "BlocksTable_SetValue W" "block_cell_ok W" for W
proof
  fix row col :: nat and rows :: "block_info list" and val
  assume row: "row < length rows" and ok: "block_cell_ok W col val"
  then have "col < 6" by (auto simp: block_cell_ok_def split: if_splits)
  then consider "col = 0" | "col = 1" | "col = 2" | "col = 3" | "col = 4" | "col = 5" by (auto simp: less_6_cases)
  then show "\<exists>rows'. BlocksTable_SetValue W row col val rows = Inr rows' \<and> length rows' = length rows \<and> BlocksTable_GetValue row col rows' = Inr val
    \<and> (\<forall>r c. (r, c) \<noteq> (row, col) \<longrightarrow> BlocksTable_GetValue r c rows' = BlocksTable_GetValue r c rows)"
    by cases (use row ok in \<open>auto simp: BlocksTable_SetValue_def BlocksTable_GetValue_def block_cell_ok_def number_ok_def set_number_def nth_list_update Let_def\<close>)
qed

text \<open>One row of the table of transactions\<close>

definition tx_cell :: "tx_info \<Rightarrow> nat \<Rightarrow> string res" where
  "tx_cell r c = TxsTable_GetValue 0 c [r]"

lemma TxsTable_row: "row < length rows \<Longrightarrow> TxsTable_GetValue row c rows = tx_cell (rows ! row) c"
  by (simp add: tx_cell_def TxsTable_GetValue_def)

lemma TxsTable_updated:
  assumes "row < length rows" and "SetValue row col val rows = Inr (rows[row := r])" and "tx_cell r col = Inr val"
    and "\<And>c. c \<noteq> col \<Longrightarrow> tx_cell r c = tx_cell (rows ! row) c"
  shows "\<exists>rows'. SetValue row col val rows = Inr rows' \<and> length rows' = length rows \<and> TxsTable_GetValue row col rows' = Inr val
    \<and> (\<forall>r c. (r, c) \<noteq> (row, col) \<longrightarrow> TxsTable_GetValue r c rows' = TxsTable_GetValue r c rows)"
proof -
  have "TxsTable_GetValue q c (rows[row := r]) = TxsTable_GetValue q c rows" if "(q, c) \<noteq> (row, col)" for q c
  proof (cases "q < length rows")
    case True
    then show ?thesis using that assms(1,4) by (cases "q = row") (simp_all add: TxsTable_row)
  qed (simp add: TxsTable_GetValue_def)
  then show ?thesis using assms(1-3) by (simp add: TxsTable_row)
qed

lemmas tx_table_defs = tx_cell_def TxsTable_GetValue_def TxsTable_SetValue_def

text \<open>A change of one cell, by the kind of its column\<close>

definition tx_cell_set :: "wx \<Rightarrow> nat \<Rightarrow> nat \<Rightarrow> string \<Rightarrow> tx_info list \<Rightarrow> bool" where
  "tx_cell_set W row col val rows \<longleftrightarrow>
     (\<exists>r. TxsTable_SetValue W row col val rows = Inr (rows[row := r]) \<and> tx_cell r col = Inr val \<and> (\<forall>c. c \<noteq> col \<longrightarrow> tx_cell r c = tx_cell (rows ! row) c))"

lemma tx_cell_setI:
  "TxsTable_SetValue W row col val rows = Inr (rows[row := r]) \<Longrightarrow> tx_cell r col = Inr val \<Longrightarrow> (\<And>c. c \<noteq> col \<Longrightarrow> tx_cell r c = tx_cell (rows ! row) c)
    \<Longrightarrow> tx_cell_set W row col val rows"
  by (auto simp: tx_cell_set_def)

lemma tx_number_set:
  assumes row: "row < length rows" and ok: "tx_cell_ok W col val" and col: "col = 0 \<or> col = 5 \<or> col = 6"
  shows "tx_cell_set W row col val rows"
proof -
  let ?r = "rows ! row"
  consider (a) n :: "32 word" where "col = 0" "wx_ToULong W val = Some (ucast n)" "ucast (ucast n :: 64 word) = n" "val = std_to_string (unat n)"
    | (b) n :: "64 word" where "col = 5" "wx_ToULong W val = Some (ucast n)" "val = std_to_string (unat n)"
    | (c) n :: "32 word" where "col = 6" "wx_ToULong W val = Some (ucast n)" "ucast (ucast n :: 64 word) = n" "val = std_to_string (unat n)"
    using ok col unfolding tx_cell_ok_def number_ok_def by (auto split: if_splits)
  then show ?thesis
  proof cases
    case a
    show ?thesis by (rule tx_cell_setI [of _ _ _ _ _ "?r\<lparr>ti_number := n\<rparr>"]) (use a row in \<open>simp_all add: tx_table_defs set_number_def Let_def\<close>)
  next
    case b
    show ?thesis by (rule tx_cell_setI [of _ _ _ _ _ "?r\<lparr>ti_fee := n\<rparr>"]) (use b row in \<open>simp_all add: tx_table_defs set_number_def Let_def\<close>)
  next
    case c
    show ?thesis by (rule tx_cell_setI [of _ _ _ _ _ "?r\<lparr>ti_timestamp := n\<rparr>"]) (use c row in \<open>simp_all add: tx_table_defs set_number_def Let_def\<close>)
  qed
qed

lemma tx_text_set:
  assumes row: "row < length rows"
  shows "tx_cell_set W row 1 val rows" "tx_cell_set W row 2 val rows" "tx_cell_set W row 3 val rows" "tx_cell_set W row 4 val rows"
    and "val \<noteq> [] \<Longrightarrow> tx_cell_set W row 7 val rows"
proof -
  let ?r = "rows ! row"
  show "tx_cell_set W row 1 val rows" by (rule tx_cell_setI [of _ _ _ _ _ "?r\<lparr>ti_type := val\<rparr>"]) (use row in \<open>simp_all add: tx_table_defs Let_def\<close>)
  show "tx_cell_set W row 2 val rows" by (rule tx_cell_setI [of _ _ _ _ _ "?r\<lparr>ti_from := val\<rparr>"]) (use row in \<open>simp_all add: tx_table_defs Let_def\<close>)
  show "tx_cell_set W row 3 val rows" by (rule tx_cell_setI [of _ _ _ _ _ "?r\<lparr>ti_to := val\<rparr>"]) (use row in \<open>simp_all add: tx_table_defs Let_def\<close>)
  show "tx_cell_set W row 4 val rows" by (rule tx_cell_setI [of _ _ _ _ _ "?r\<lparr>ti_value := val\<rparr>"]) (use row in \<open>simp_all add: tx_table_defs Let_def\<close>)
  show "val \<noteq> [] \<Longrightarrow> tx_cell_set W row 7 val rows"
    by (rule tx_cell_setI [of _ _ _ _ _ "?r\<lparr>ti_data := val\<rparr>"]) (use row in \<open>simp_all add: tx_table_defs Let_def\<close>)
qed

lemma tx_sign_set:
  assumes row: "row < length rows" and val: "val = ''verified'' \<or> val = ''bad signature''"
  shows "tx_cell_set W row 8 val rows"
  using val
proof
  assume val: "val = ''verified''"
  show ?thesis by (rule tx_cell_setI [of _ _ _ _ _ "(rows ! row)\<lparr>ti_signature := True\<rparr>"]) (use row val in \<open>simp_all add: tx_table_defs Let_def\<close>)
next
  assume val: "val = ''bad signature''"
  show ?thesis by (rule tx_cell_setI [of _ _ _ _ _ "(rows ! row)\<lparr>ti_signature := False\<rparr>"]) (use row val in \<open>simp_all add: tx_table_defs Let_def\<close>)
qed

interpretation txs_grid: grid_table TxsTable_GetValue "TxsTable_SetValue W" "tx_cell_ok W" for W
proof
  fix row col :: nat and rows :: "tx_info list" and val
  assume row: "row < length rows" and ok: "tx_cell_ok W col val"
  have "col < 9" using ok by (auto simp: tx_cell_ok_def split: if_splits)
  then consider (num) "col = 0 \<or> col = 5 \<or> col = 6" | (str) "col = 1 \<or> col = 2 \<or> col = 3 \<or> col = 4" | (data) "col = 7" | (sign) "col = 8"
    by (auto simp: less_9_cases)
  then have "tx_cell_set W row col val rows"
  proof cases
    case num
    then show ?thesis by (rule tx_number_set [OF row ok])
  next
    case str
    then show ?thesis using tx_text_set(1-4) [OF row] by blast
  next
    case data
    then have "val \<noteq> []" using ok by (simp add: tx_cell_ok_def)
    then show ?thesis using tx_text_set(5) [OF row] data by simp
  next
    case sign
    then have "val = ''verified'' \<or> val = ''bad signature''" using ok by (simp add: tx_cell_ok_def)
    then show ?thesis unfolding sign by (rule tx_sign_set [OF row])
  qed
  then show "\<exists>rows'. TxsTable_SetValue W row col val rows = Inr rows' \<and> length rows' = length rows \<and> TxsTable_GetValue row col rows' = Inr val
    \<and> (\<forall>r c. (r, c) \<noteq> (row, col) \<longrightarrow> TxsTable_GetValue r c rows' = TxsTable_GetValue r c rows)"
    unfolding tx_cell_set_def using TxsTable_updated [OF row, of "TxsTable_SetValue W" col val] by blast
qed

section \<open>The whole tables\<close>

text \<open>Both loops fill a list of rows of cells.\<close>

fun fill_rows :: "(nat \<Rightarrow> nat \<Rightarrow> string \<Rightarrow> 'r list \<Rightarrow> 'r list res) \<Rightarrow> nat \<Rightarrow> (nat \<times> string) list list \<Rightarrow> 'r list \<Rightarrow> 'r list res" where
  "fill_rows SetValue i [] rows = Inr rows"
| "fill_rows SetValue i (cells # rest) rows = rbind (set_cells SetValue i cells rows) (fill_rows SetValue (Suc i) rest)"

definition shows_cells :: "(nat \<Rightarrow> nat \<Rightarrow> 'r list \<Rightarrow> string res) \<Rightarrow> 'r list \<Rightarrow> nat \<Rightarrow> (nat \<times> string) list \<Rightarrow> bool" where
  "shows_cells GetValue rows i cells \<longleftrightarrow> (\<forall>(c, v)\<in>set cells. GetValue i c rows = Inr v)"

text \<open>A row of cells with distinct columns and texts that the columns can hold\<close>

definition row_ok :: "(nat \<Rightarrow> string \<Rightarrow> bool) \<Rightarrow> (nat \<times> string) list \<Rightarrow> bool" where
  "row_ok ok cells \<longleftrightarrow> (\<forall>(c, v)\<in>set cells. ok c v) \<and> distinct (map fst cells)"

context grid_table
begin

lemma fill_rows_get:
  assumes "i + length cs \<le> length rows" and "\<forall>cells\<in>set cs. row_ok cell_ok cells"
  shows "\<exists>rows'. fill_rows SetValue i cs rows = Inr rows' \<and> length rows' = length rows
    \<and> (\<forall>k < length cs. shows_cells GetValue rows' (i + k) (cs ! k)) \<and> (\<forall>r c. r < i \<longrightarrow> GetValue r c rows' = GetValue r c rows)"
  using assms
proof (induction cs arbitrary: i rows)
  case (Cons cells cs)
  obtain r1 where r1: "set_cells SetValue i cells rows = Inr r1" "length r1 = length rows" "\<forall>(c, v)\<in>set cells. GetValue i c r1 = Inr v"
    "\<forall>r c. (r \<noteq> i \<or> c \<notin> fst ` set cells) \<longrightarrow> GetValue r c r1 = GetValue r c rows"
    using set_cells_get [of i rows cells] Cons.prems by (auto simp: row_ok_def)
  obtain r2 where r2: "fill_rows SetValue (Suc i) cs r1 = Inr r2" "length r2 = length r1"
    "\<forall>k < length cs. shows_cells GetValue r2 (Suc i + k) (cs ! k)" "\<forall>r c. r < Suc i \<longrightarrow> GetValue r c r2 = GetValue r c r1"
    using Cons.IH [of "Suc i" r1] Cons.prems r1(2) by auto
  have "shows_cells GetValue r2 (i + k) ((cells # cs) ! k)" if "k < length (cells # cs)" for k
    using that r1(3) r2(3,4) by (cases k) (auto simp: shows_cells_def)
  then show ?case using r1 r2 by simp
qed simp

end

lemma fill_blocks_rows:
  "fill_blocks W i blocks rows = fill_rows (BlocksTable_SetValue W) i (map (\<lambda>(k, b). block_cells k b) (enumerate i blocks)) rows"
  by (induction blocks arbitrary: i rows) (simp_all add: rbind_def split: sum.splits)

lemma set_cells_append: "set_cells S i (as @ bs) rows = rbind (set_cells S i as rows) (set_cells S i bs)"
  by (induction as arbitrary: rows) (auto simp: rbind_def split: sum.splits)

lemma fill_txs_rows:
  assumes "\<forall>tx\<in>set txs. checkSign X tx = Inr (ok tx)"
  shows "fill_txs X W i txs rows
    = fill_rows (TxsTable_SetValue W) i (map (\<lambda>(k, tx). tx_cells X k tx @ [sign_cell (ok tx)]) (enumerate i txs)) rows"
  using assms by (induction txs arbitrary: i rows) (auto simp: set_cells_append rbind_def split: sum.splits)

lemma number_ok_nat: "wx_ok W \<Longrightarrow> i < 2 ^ 64 \<Longrightarrow> number_ok W TYPE(64) (std_to_string i)"
  using number_ok_64 [of W "of_nat i"] by (simp add: unat_of_nat take_bit_nat_eq_self)

lemma number_ok_nat_32: "wx_ok W \<Longrightarrow> i < 2 ^ 32 \<Longrightarrow> number_ok W TYPE(32) (std_to_string i)"
  using number_ok_32 [of W "of_nat i"] by (simp add: unat_of_nat take_bit_nat_eq_self)

lemma block_cells_ok:
  assumes "wx_ok W" and "i < 2 ^ 64"
  shows "row_ok (block_cell_ok W) (block_cells i b)"
  using number_ok_nat [OF assms] number_ok_64 [OF assms(1)] number_ok_32 [OF assms(1)] by (simp add: row_ok_def block_cells_def block_cell_ok_def)

lemma tx_cells_ok:
  assumes "wx_ok W" and "i < 2 ^ 32"
  shows "row_ok (tx_cell_ok W) (tx_cells X i tx @ [sign_cell ok])"
proof -
  have "toHex (tx_data tx) \<noteq> []" if "tx_data tx \<noteq> []" using that by (cases "tx_data tx") (simp_all add: toHex_def)
  then have "tx_cell_ok W 7 (if tx_data tx = [] then ''<empty>'' else toHex (tx_data tx))" by (simp add: tx_cell_ok_def)
  moreover have "tx_cell_ok W 8 (snd (sign_cell ok))" by (simp add: tx_cell_ok_def sign_cell_def)
  moreover have "tx_cell_ok W 0 (std_to_string i)" "tx_cell_ok W 5 (std_to_string (unat (tx_fee tx)))" "tx_cell_ok W 6 (std_to_string (unat (tx_timestamp tx)))"
    using number_ok_nat_32 [OF assms] number_ok_64 [OF assms(1)] number_ok_32 [OF assms(1)] by (simp_all add: tx_cell_ok_def)
  moreover have "tx_cell_ok W 1 v" "tx_cell_ok W 2 v" "tx_cell_ok W 3 v" "tx_cell_ok W 4 v" for v by (simp_all add: tx_cell_ok_def)
  ultimately show ?thesis by (simp add: row_ok_def tx_cells_def sign_cell_def del: if_split)
qed

text \<open>The table of blocks shows the blocks of the data model, one row for each.\<close>

definition shows_blocks :: "block_info list \<Rightarrow> iblock list \<Rightarrow> bool" where
  "shows_blocks rows blocks \<longleftrightarrow> length rows = length blocks \<and> (\<forall>i < length blocks. shows_cells BlocksTable_GetValue rows i (block_cells i (blocks ! i)))"

definition shows_txs :: "ext \<Rightarrow> (transaction \<Rightarrow> bool) \<Rightarrow> tx_info list \<Rightarrow> transaction list \<Rightarrow> bool" where
  "shows_txs X ok rows txs \<longleftrightarrow> length rows = length txs
     \<and> (\<forall>i < length txs. shows_cells TxsTable_GetValue rows i (tx_cells X i (txs ! i) @ [sign_cell (ok (txs ! i))]))"

lemma updateBlocksTable_shows:
  assumes "wx_ok W" and "length (dm_blocks (mf_dataModel f)) < 2 ^ 64" and "dm_blocks (mf_dataModel f) \<noteq> []"
  shows "\<exists>rows. updateBlocksTable W nonce f = Inr (f\<lparr>mf_blocks := rows\<rparr>) \<and> shows_blocks rows (dm_blocks (mf_dataModel f))"
proof -
  let ?bs = "dm_blocks (mf_dataModel f)" let ?rows = "replicate (length ?bs) (empty_BlockInfo nonce)"
  let ?cs = "map (\<lambda>(k, b). block_cells k b) (enumerate 0 ?bs)"
  have "\<forall>cells\<in>set ?cs. row_ok (block_cell_ok W) cells"
    using assms(2) by (auto simp: in_set_enumerate_eq intro!: block_cells_ok [OF assms(1)])
  from blocks_grid.fill_rows_get [of 0 ?cs ?rows W, OF _ this] obtain rows where
    rows: "fill_blocks W 0 ?bs ?rows = Inr rows" "length rows = length ?bs" "\<forall>k < length ?bs. shows_cells BlocksTable_GetValue rows k (?cs ! k)"
    by (auto simp: fill_blocks_rows)
  then have "shows_blocks rows ?bs" by (simp add: shows_blocks_def nth_enumerate_eq)
  moreover have "updateBlocksTable W nonce f = Inr (f\<lparr>mf_blocks := rows\<rparr>)"
    using assms(3) rows(1) by (simp add: updateBlocksTable_def table_Clear_def table_AppendRows_def)
  ultimately show ?thesis by blast
qed

lemma updateTransactionsTable_shows:
  assumes "wx_ok W" and "length (dm_transactions (mf_dataModel f)) < 2 ^ 32" and "\<forall>tx\<in>set (dm_transactions (mf_dataModel f)). checkSign X tx = Inr (ok tx)"
  shows "\<exists>rows log. updateTransactionsTable X W f = Inr (f\<lparr>mf_txs := rows, mf_textLog := log\<rparr>) \<and> shows_txs X ok rows (dm_transactions (mf_dataModel f))"
proof (cases "dm_transactions (mf_dataModel f) = []")
  case True
  then show ?thesis by (auto simp: updateTransactionsTable_def table_Clear_def table_AppendRows_def shows_txs_def)
next
  case False
  let ?txs = "dm_transactions (mf_dataModel f)" let ?rows = "replicate (length ?txs) empty_TxInfo"
  let ?cs = "map (\<lambda>(k, tx). tx_cells X k tx @ [sign_cell (ok tx)]) (enumerate 0 ?txs)"
  have "\<forall>cells\<in>set ?cs. row_ok (tx_cell_ok W) cells"
    using assms(2) by (auto simp: in_set_enumerate_eq intro!: tx_cells_ok [OF assms(1)])
  from txs_grid.fill_rows_get [of 0 ?cs ?rows W, OF _ this] obtain rows where
    rows: "fill_txs X W 0 ?txs ?rows = Inr rows" "length rows = length ?txs" "\<forall>k < length ?txs. shows_cells TxsTable_GetValue rows k (?cs ! k)"
    by (auto simp: fill_txs_rows [OF assms(3)])
  then have "shows_txs X ok rows ?txs" by (simp add: shows_txs_def nth_enumerate_eq)
  moreover have "updateTransactionsTable X W f = Inr (f\<lparr>mf_txs := rows\<rparr>)"
    using False rows(1) by (simp add: updateTransactionsTable_def table_Clear_def table_AppendRows_def)
  moreover have "f\<lparr>mf_txs := rows\<rparr> = f\<lparr>mf_txs := rows, mf_textLog := mf_textLog f\<rparr>" by simp
  ultimately show ?thesis by metis
qed

lemma fold_AppendTransaction: "fold AppendTransaction txs m = m\<lparr>dm_transactions := dm_transactions m @ txs\<rparr>"
  by (induction txs arbitrary: m) (simp_all add: AppendTransaction_def)

lemma load_blocks_all:
  assumes "\<forall>n\<in>set ns. fetch n = Inr (chain n) \<and> \<not> (blk_timestamp (chain n) = 0 \<and> blk_depth (chain n) = - 1)"
  shows "load_blocks fetch ns m
    = Inr (True, m\<lparr>dm_blocks := dm_blocks m @ map chain ns, dm_transactions := dm_transactions m @ concat (map (blk_txs \<circ> chain) ns)\<rparr>)"
  using assms by (induction ns arbitrary: m) (auto simp: fold_AppendTransaction AppendBlock_def)

lemma poll_loads:
  assumes client: "ut_rpcClient t = Some (mode, address)" "q_getNodeInfo Q mode address = Inr info" "ri_api_version info = RPC_PUBLIC_API_VERSION"
    and more: "dm_topBlockNumber (mf_dataModel f) < ri_top_block_number info"
    and blocks: "\<forall>n < ri_top_block_number info. q_getBlock Q mode address n = Inr (chain n) \<and> \<not> (blk_timestamp (chain n) = 0 \<and> blk_depth (chain n) = - 1)"
  shows "poll Q t f = Inr (f\<lparr>mf_pending := mf_pending f @
      [SET_BLOCK_HASH (sha256_toHex (ri_top_block_hash info)), SET_BLOCK_NUMBER (std_to_string (unat (ri_top_block_number info))),
       CONNECTION_STATUS_CHANGED (status_text t ''Available''), UPDATE_TABLES],
     mf_dataModel := \<lparr>dm_topBlockNumber = ri_top_block_number info, dm_blocks = map (chain \<circ> of_nat) [0..<unat (ri_top_block_number info)],
       dm_transactions = concat (map (blk_txs \<circ> (chain \<circ> of_nat)) [0..<unat (ri_top_block_number info)])\<rparr>\<rparr>)"
proof -
  let ?n = "ri_top_block_number info"
  have "(of_nat k :: 64 word) < ?n" if "k < unat ?n" for k
    using that unsigned_less [of ?n, where ?'a = nat] by (simp add: word_less_nat_alt unat_of_nat take_bit_nat_eq_self)
  then have "\<forall>n\<in>set (map of_nat [0..<unat ?n]). q_getBlock Q mode address n = Inr (chain n) \<and> \<not> (blk_timestamp (chain n) = 0 \<and> blk_depth (chain n) = - 1)"
    using blocks by auto
  note loaded = load_blocks_all [OF this]
  show ?thesis
    using client more by (simp add: poll_def loadDataModelFromNode_def loaded dm_Clear_def setTopBlockNumber_def AddPendingEvent_def Let_def comp_def)
qed

text \<open>C37: the explorer after a poll of a node whose top block has a higher number than the last one seen, when the events
  that wait are handled: the tables show blocks 0 to \<^emph>\<open>n\<close> - 1 and their transactions, cell by cell, and so never the
  top block \<^emph>\<open>n\<close>; the label of the number shows the hash of the top block and the label of the hash its number.\<close>

theorem explorer_shows_chain:
  assumes wx: "wx_ok W" and client: "ut_rpcClient t = Some (mode, address)" "q_getNodeInfo Q mode address = Inr info" "ri_api_version info = RPC_PUBLIC_API_VERSION"
    and more: "dm_topBlockNumber (mf_dataModel f) < ri_top_block_number info" and idle: "mf_pending f = []"
    and blocks: "\<forall>n < ri_top_block_number info. q_getBlock Q mode address n = Inr (chain n) \<and> \<not> (blk_timestamp (chain n) = 0 \<and> blk_depth (chain n) = - 1)"
    and bs: "bs = map (chain \<circ> of_nat) [0..<unat (ri_top_block_number info)]" and txs: "txs = concat (map blk_txs bs)"
    and signs: "\<forall>tx\<in>set txs. checkSign X tx = Inr (ok tx)" and few: "length bs < 2 ^ 31" "length txs < 2 ^ 31"
  shows "\<exists>f1 f2. poll Q t f = Inr f1 \<and> handle_events X W nonce (mf_pending f1) (f1\<lparr>mf_pending := []\<rparr>) = Inr f2
    \<and> shows_blocks (mf_blocks f2) bs \<and> shows_txs X ok (mf_txs f2) txs
    \<and> mf_textBlockNumber f2 = sha256_toHex (ri_top_block_hash info) \<and> mf_textBlockHash f2 = std_to_string (unat (ri_top_block_number info))"
proof -
  let ?n = "ri_top_block_number info"
  define m where "m = \<lparr>dm_topBlockNumber = ?n, dm_blocks = bs, dm_transactions = txs\<rparr>"
  define f1 where "f1 = f\<lparr>mf_pending := mf_pending f @
      [SET_BLOCK_HASH (sha256_toHex (ri_top_block_hash info)), SET_BLOCK_NUMBER (std_to_string (unat ?n)),
       CONNECTION_STATUS_CHANGED (status_text t ''Available''), UPDATE_TABLES], mf_dataModel := m\<rparr>"
  define g where "g = OnConnectionStatusChanged (status_text t ''Available'') (OnSetBlockNumber (std_to_string (unat ?n))
      (OnSetBlockHash (sha256_toHex (ri_top_block_hash info)) (f1\<lparr>mf_pending := []\<rparr>)))"
  have g: "mf_dataModel g = m" "mf_textBlockNumber g = sha256_toHex (ri_top_block_hash info)" "mf_textBlockHash g = std_to_string (unat ?n)"
    by (simp_all add: g_def f1_def OnConnectionStatusChanged_def OnSetBlockNumber_def OnSetBlockHash_def split: prod.splits)
  have polled: "poll Q t f = Inr f1"
    using poll_loads [OF client more blocks] by (simp add: f1_def m_def bs txs)
  have events: "handle_events X W nonce (mf_pending f1) (f1\<lparr>mf_pending := []\<rparr>) = OnUpdateTables X W nonce g"
    by (simp add: idle f1_def g_def rbind_def split: sum.splits)
  have "0 < ?n" using more by (simp add: word_less_nat_alt)
  then have "bs \<noteq> []" by (simp add: bs word_less_nat_alt)
  then obtain rows where rows: "updateBlocksTable W nonce g = Inr (g\<lparr>mf_blocks := rows\<rparr>)" "shows_blocks rows bs"
    using updateBlocksTable_shows [OF wx, of g nonce] g(1) few(1) by (auto simp: m_def)
  obtain trows log where trows: "updateTransactionsTable X W (g\<lparr>mf_blocks := rows\<rparr>) = Inr (g\<lparr>mf_blocks := rows, mf_txs := trows, mf_textLog := log\<rparr>)"
    "shows_txs X ok trows txs"
    using updateTransactionsTable_shows [OF wx, of "g\<lparr>mf_blocks := rows\<rparr>" X ok] g(1) signs few(2) by (auto simp: m_def)
  then show ?thesis using polled events rows g(2,3) by (simp add: OnUpdateTables_def)
qed

section \<open>The protocol that is never used\<close>

definition http_only :: "update_thread \<Rightarrow> bool" where
  "http_only t \<longleftrightarrow> ut_protocol t \<in> {[], ''HTTP''} \<and> (\<forall>a. ut_rpcClient t \<noteq> Some (GRPC, a))"

lemma thread_turn_http_only:
  assumes "http_only t" and "thread_turn Q (t, f) = Inr (t', f')"
  shows "http_only t'"
proof -
  have "ut_protocol t \<noteq> ''GRPC''" using assms(1) by (auto simp: http_only_def)
  then show ?thesis
    using assms by (auto simp: thread_turn_def http_only_def Let_def rbind_eq_Inr split: if_splits)
qed

lemma gui_step_http_only: "gui_step X W Q (t, f) (t', f') \<Longrightarrow> http_only t \<Longrightarrow> http_only t'"
  by (erule gui_step.cases) (auto dest: thread_turn_http_only)

lemma gui_run_http_only:
  assumes "(gui_step X W Q)\<^sup>*\<^sup>* (OnInit W lines) s"
  shows "http_only (fst s)"
  using assms
proof (induction rule: rtranclp_induct)
  case base
  show ?case by (simp add: OnInit_def mk_UpdateThread_def http_only_def)
next
  case (step s s')
  then show ?case by (cases s; cases s') (auto dest: gui_step_http_only)
qed

text \<open>In every run of the explorer, with the choices of the user, the events and the turns of the thread in any
  order, the thread never has a client of the protocol GRPC; while the user has chosen it, a turn of the thread asks no
  node and leaves the window as it is.\<close>

theorem explorer_never_uses_grpc:
  assumes "(gui_step X W Q)\<^sup>*\<^sup>* (OnInit W lines) (t, f)"
  shows "(\<forall>a. ut_rpcClient t \<noteq> Some (GRPC, a)) \<and> (mf_protocol f = ''GRPC'' \<longrightarrow> thread_turn Q (t, f) = Inr (t\<lparr>ut_endpoint := [], ut_protocol := []\<rparr>, f))"
proof -
  have t: "ut_protocol t \<in> {[], ''HTTP''}" "\<forall>a. ut_rpcClient t \<noteq> Some (GRPC, a)" using gui_run_http_only [OF assms] by (simp_all add: http_only_def)
  have neq: "ut_protocol t \<noteq> ''GRPC''" using t(1) by auto
  have "thread_turn Q (t, f) = Inr (t\<lparr>ut_endpoint := [], ut_protocol := []\<rparr>, f)" if "mf_protocol f = ''GRPC''"
    using that neq by (simp add: thread_turn_def Let_def)
  then show ?thesis using t(2) by blast
qed

text \<open>The endpoints the user can choose are the lines of the file without the last one.\<close>

lemma load_endpoints_butlast:
  assumes "wx_ok W" and "i + length lines = n"
  shows "load_endpoints W n i lines = butlast lines"
  using assms(2)
proof (induction lines arbitrary: i)
  case (Cons line lines)
  have "wx_Eof W i n = (Suc i = n)" using assms(1) Cons.prems by (auto simp: wx_ok_def)
  then show ?case using Cons by (cases lines) simp_all
qed simp

theorem last_endpoint_is_dropped: "wx_ok W \<Longrightarrow> loadEndpointsFromFile W lines = butlast lines"
  by (simp add: loadEndpointsFromFile_def load_endpoints_butlast)

section \<open>An explorer of a node with two blocks\<close>

definition demo_wx :: wx where
  "demo_wx = \<lparr>wx_ToULong = (\<lambda>s. Some (of_nat (std_atoi s))), wx_Eof = (\<lambda>i n. Suc i = n)\<rparr>"

definition demo_unsigned_tx :: transaction where
  "demo_unsigned_tx = demo_tx\<lparr>tx_sign := []\<rparr>"

definition demo_first_block :: iblock where
  "demo_first_block = mk_ImmutableBlock demo_ext 0 7 sha256_null 7 address_null [demo_unsigned_tx]"

definition demo_queries :: queries where
  "demo_queries = \<lparr>q_createRpcClient = (\<lambda>mode address. Inr ()),
     q_getNodeInfo = (\<lambda>mode address. Inr \<lparr>ri_top_block_hash = sha256_null, ri_top_block_number = 1, ri_api_version = 1\<rparr>),
     q_getBlock = (\<lambda>mode address n. Inr demo_first_block)\<rparr>"

definition demo_thread :: update_thread where
  "demo_thread = \<lparr>ut_running = True, ut_rpcClient = Some (HTTP, ''node:50051''), ut_endpoint = ''node:50051'', ut_protocol = ''HTTP''\<rparr>"

lemma demo_wx_ok: "wx_ok demo_wx"
  by (simp add: wx_ok_def demo_wx_def std_atoi_to_string)

theorem explorer_shows_chain_witness:
  "\<exists>f1 f2. poll demo_queries demo_thread (mk_MainFrame demo_wx []) = Inr f1
    \<and> handle_events demo_ext demo_wx 0 (mf_pending f1) (f1\<lparr>mf_pending := []\<rparr>) = Inr f2
    \<and> shows_blocks (mf_blocks f2) [demo_first_block] \<and> shows_txs demo_ext (\<lambda>_. False) (mf_txs f2) [demo_unsigned_tx]
    \<and> mf_textBlockNumber f2 = sha256_toHex sha256_null \<and> mf_textBlockHash f2 = std_to_string 1"
proof -
  let ?info = "\<lparr>ri_top_block_hash = sha256_null, ri_top_block_number = 1, ri_api_version = 1\<rparr>"
  have frame: "mf_pending (mk_MainFrame demo_wx []) = []" "dm_topBlockNumber (mf_dataModel (mk_MainFrame demo_wx [])) = 0"
    by (simp_all add: mk_MainFrame_def mk_DataModel_def Let_def)
  have sign: "checkSign demo_ext demo_unsigned_tx = Inr False" by (simp add: checkSign_def demo_unsigned_tx_def)
  have block: "blk_timestamp demo_first_block = 7" "blk_txs demo_first_block = [demo_unsigned_tx]"
    by (simp_all add: demo_first_block_def mk_ImmutableBlock_def mk_MutableBlock_def mblock.defs)
  have client: "ut_rpcClient demo_thread = Some (HTTP, ''node:50051'')" by (simp only: demo_thread_def update_thread.simps)
  have info: "q_getNodeInfo demo_queries HTTP ''node:50051'' = Inr ?info" and version: "ri_api_version ?info = RPC_PUBLIC_API_VERSION"
    by (simp_all only: demo_queries_def queries.simps rpc_info.simps RPC_PUBLIC_API_VERSION_def)
  have blocks: "\<forall>n < ri_top_block_number ?info. q_getBlock demo_queries HTTP ''node:50051'' n = Inr demo_first_block
      \<and> \<not> (blk_timestamp demo_first_block = 0 \<and> blk_depth demo_first_block = - 1)"
    using block(1) by (simp add: demo_queries_def)
  have more: "dm_topBlockNumber (mf_dataModel (mk_MainFrame demo_wx [])) < ri_top_block_number ?info" by (simp add: frame)
  have signs: "\<forall>tx\<in>set [demo_unsigned_tx]. checkSign demo_ext tx = Inr False" by (simp add: sign)
  have lists: "[demo_first_block] = map ((\<lambda>_. demo_first_block) \<circ> of_nat) [0..<unat (ri_top_block_number ?info)]"
    "[demo_unsigned_tx] = concat (map blk_txs [demo_first_block])" "length [demo_first_block] < 2 ^ 31" "length [demo_unsigned_tx] < 2 ^ 31"
    using block(2) by simp_all
  show ?thesis
    using explorer_shows_chain [where X = demo_ext and nonce = 0 and chain = "\<lambda>_. demo_first_block" and ok = "\<lambda>_. False",
        OF demo_wx_ok client info version more frame(1) blocks lists(1,2) signs lists(3,4)]
    unfolding rpc_info.simps unsigned_1 .
qed

theorem explorer_never_uses_grpc_witness:
  "(gui_step demo_ext demo_wx demo_queries)\<^sup>*\<^sup>* (OnInit demo_wx []) (fst (OnInit demo_wx []), OnProtocolChanged ''GRPC'' (snd (OnInit demo_wx [])))
   \<and> thread_turn demo_queries (fst (OnInit demo_wx []), OnProtocolChanged ''GRPC'' (snd (OnInit demo_wx [])))
     = Inr (mk_UpdateThread\<lparr>ut_running := True, ut_endpoint := [], ut_protocol := []\<rparr>, OnProtocolChanged ''GRPC'' (snd (OnInit demo_wx [])))"
proof -
  have run: "(gui_step demo_ext demo_wx demo_queries)\<^sup>*\<^sup>* (OnInit demo_wx []) (fst (OnInit demo_wx []), OnProtocolChanged ''GRPC'' (snd (OnInit demo_wx [])))"
    by (rule r_into_rtranclp) (use user_protocol [of "''GRPC''"] in \<open>simp add: OnInit_def\<close>)
  then show ?thesis using explorer_never_uses_grpc [OF run] by (simp add: OnInit_def OnProtocolChanged_def)
qed

end
