(* ===== verification/EvmcTypes.thy ===== *)
theory EvmcTypes
  imports Serialization
begin

text \<open>
  The addresses and 256-bit values that the virtual machine and its host exchange,
  \<^verbatim>\<open>src/vm/evmc/include/evmc/evmc.hpp\<close>: their constructors, the comparisons over words of 64 and 32 bits, the hash
  and the literals. The comparisons are those of lists of bytes and of big-endian numbers.
\<close>

section \<open>Loading words\<close>

unbundle bit_operations_syntax

definition load64be :: "bytes \<Rightarrow> nat \<Rightarrow> 64 word" where
  "load64be bs i =
     push_bit 56 (ucast (bs ! i)) OR push_bit 48 (ucast (bs ! (i + 1))) OR push_bit 40 (ucast (bs ! (i + 2)))
     OR push_bit 32 (ucast (bs ! (i + 3))) OR push_bit 24 (ucast (bs ! (i + 4))) OR push_bit 16 (ucast (bs ! (i + 5)))
     OR push_bit 8 (ucast (bs ! (i + 6))) OR ucast (bs ! (i + 7))"

definition load32be :: "bytes \<Rightarrow> nat \<Rightarrow> 32 word" where
  "load32be bs i =
     push_bit 24 (ucast (bs ! i)) OR push_bit 16 (ucast (bs ! (i + 1))) OR push_bit 8 (ucast (bs ! (i + 2))) OR ucast (bs ! (i + 3))"

text \<open>The constructors from an integer, which is put into the last eight bytes\<close>

definition u64_bytes :: "64 word \<Rightarrow> bytes" where
  "u64_bytes v =
     [ucast (drop_bit 56 v), ucast (drop_bit 48 v), ucast (drop_bit 40 v), ucast (drop_bit 32 v),
      ucast (drop_bit 24 v), ucast (drop_bit 16 v), ucast (drop_bit 8 v), ucast (drop_bit 0 v)]"

definition evmc_address_of_u64 :: "64 word \<Rightarrow> bytes" where
  "evmc_address_of_u64 v = replicate 12 0 @ u64_bytes v"

definition evmc_bytes32_of_u64 :: "64 word \<Rightarrow> bytes" where
  "evmc_bytes32_of_u64 v = replicate 24 0 @ u64_bytes v"

section \<open>Comparisons and hashes\<close>

definition evmc_address_eq :: "bytes \<Rightarrow> bytes \<Rightarrow> bool" where
  "evmc_address_eq a b \<longleftrightarrow> load64be a 0 = load64be b 0 \<and> load64be a 8 = load64be b 8 \<and> load32be a 16 = load32be b 16"

definition evmc_address_neq :: "bytes \<Rightarrow> bytes \<Rightarrow> bool" where
  "evmc_address_neq a b \<longleftrightarrow> \<not> evmc_address_eq a b"

definition evmc_address_less :: "bytes \<Rightarrow> bytes \<Rightarrow> bool" where
  "evmc_address_less a b \<longleftrightarrow>
     load64be a 0 < load64be b 0
     \<or> load64be a 0 = load64be b 0 \<and> (load64be a 8 < load64be b 8
         \<or> load64be a 8 = load64be b 8 \<and> load32be a 16 < load32be b 16)"

definition evmc_address_greater :: "bytes \<Rightarrow> bytes \<Rightarrow> bool" where
  "evmc_address_greater a b \<longleftrightarrow> evmc_address_less b a"

definition evmc_address_le :: "bytes \<Rightarrow> bytes \<Rightarrow> bool" where
  "evmc_address_le a b \<longleftrightarrow> \<not> evmc_address_less b a"

definition evmc_address_ge :: "bytes \<Rightarrow> bytes \<Rightarrow> bool" where
  "evmc_address_ge a b \<longleftrightarrow> \<not> evmc_address_less a b"

definition evmc_bytes32_eq :: "bytes \<Rightarrow> bytes \<Rightarrow> bool" where
  "evmc_bytes32_eq a b \<longleftrightarrow> load64be a 0 = load64be b 0 \<and> load64be a 8 = load64be b 8
     \<and> load64be a 16 = load64be b 16 \<and> load64be a 24 = load64be b 24"

definition evmc_bytes32_neq :: "bytes \<Rightarrow> bytes \<Rightarrow> bool" where
  "evmc_bytes32_neq a b \<longleftrightarrow> \<not> evmc_bytes32_eq a b"

definition evmc_bytes32_less :: "bytes \<Rightarrow> bytes \<Rightarrow> bool" where
  "evmc_bytes32_less a b \<longleftrightarrow>
     load64be a 0 < load64be b 0
     \<or> load64be a 0 = load64be b 0 \<and> (load64be a 8 < load64be b 8
         \<or> load64be a 8 = load64be b 8 \<and> (load64be a 16 < load64be b 16
             \<or> load64be a 16 = load64be b 16 \<and> load64be a 24 < load64be b 24))"

definition evmc_bytes32_greater :: "bytes \<Rightarrow> bytes \<Rightarrow> bool" where
  "evmc_bytes32_greater a b \<longleftrightarrow> evmc_bytes32_less b a"

definition evmc_bytes32_le :: "bytes \<Rightarrow> bytes \<Rightarrow> bool" where
  "evmc_bytes32_le a b \<longleftrightarrow> \<not> evmc_bytes32_less b a"

definition evmc_bytes32_ge :: "bytes \<Rightarrow> bytes \<Rightarrow> bool" where
  "evmc_bytes32_ge a b \<longleftrightarrow> \<not> evmc_bytes32_less a b"

definition evmc_address_is_zero :: "bytes \<Rightarrow> bool" where
  "evmc_address_is_zero a = evmc_address_eq a (replicate 20 0)"

definition evmc_address_bool :: "bytes \<Rightarrow> bool" where
  "evmc_address_bool a = (\<not> evmc_address_is_zero a)"

definition evmc_bytes32_is_zero :: "bytes \<Rightarrow> bool" where
  "evmc_bytes32_is_zero a = evmc_bytes32_eq a (replicate 32 0)"

definition evmc_bytes32_bool :: "bytes \<Rightarrow> bool" where
  "evmc_bytes32_bool a = (\<not> evmc_bytes32_is_zero a)"

definition fnv_prime :: "64 word" where
  "fnv_prime = 0x100000001b3"

definition fnv_offset_basis :: "64 word" where
  "fnv_offset_basis = 0xcbf29ce484222325"

definition fnv1a_by64 :: "64 word \<Rightarrow> 64 word \<Rightarrow> 64 word" where
  "fnv1a_by64 h x = (h XOR x) * fnv_prime"

definition evmc_address_hash :: "bytes \<Rightarrow> 64 word" where
  "evmc_address_hash s = fnv1a_by64 (fnv1a_by64 (fnv1a_by64 fnv_offset_basis (load64be s 0)) (load64be s 8)) (ucast (load32be s 16))"

definition evmc_bytes32_hash :: "bytes \<Rightarrow> 64 word" where
  "evmc_bytes32_hash s =
     fnv1a_by64 (fnv1a_by64 (fnv1a_by64 (fnv1a_by64 fnv_offset_basis (load64be s 0)) (load64be s 8)) (load64be s 16)) (load64be s 24)"

section \<open>Literals\<close>

text \<open>Characters are signed bytes.\<close>

definition char_int :: "char \<Rightarrow> int" where
  "char_int c = sint (of_char c :: 8 word)"

definition evmc_from_hex :: "char \<Rightarrow> int" where
  "evmc_from_hex c =
     (if 97 \<le> char_int c \<and> char_int c \<le> 102 then char_int c - (97 - 10)
      else if 65 \<le> char_int c \<and> char_int c \<le> 70 then char_int c - (65 - 10)
      else char_int c - 48)"

definition literal_byte :: "string \<Rightarrow> nat \<Rightarrow> byte" where
  "literal_byte s i = word_of_int (push_bit 4 (evmc_from_hex (s ! (2 * i))) OR evmc_from_hex (s ! (2 * i + 1)))"

text \<open>A literal of a type with a number of bytes; what is thrown is a text.\<close>

definition from_literal :: "nat \<Rightarrow> string \<Rightarrow> string + bytes" where
  "from_literal n s =
     (if s = ''0'' then Inr (replicate n 0)
      else if take 2 s \<noteq> ''0x'' then Inl ''literal must be in hexadecimal notation''
      else if length (drop 2 s) \<noteq> n * 2 then Inl ''literal must match the result type size''
      else Inr (map (literal_byte (drop 2 s)) [0..<n]))"

section \<open>Words and numbers\<close>

lemma push_or_byte:
  fixes w :: "'a::len word"
  assumes "unat w < 256 ^ n" and "8 * Suc n \<le> LENGTH('a)"
  shows "unat (push_bit 8 w OR ucast (b :: byte)) = 256 * unat w + unat b"
proof -
  have "(256 :: nat) ^ Suc n = 2 ^ (8 * Suc n)" by (simp only: power_mult) simp
  also have "\<dots> \<le> 2 ^ LENGTH('a)" using assms(2) by (rule power_increasing) simp
  finally have le: "(256 :: nat) ^ Suc n \<le> 2 ^ LENGTH('a)" .
  have small: "unat w * 256 + 255 < 256 ^ Suc n" using assms(1) by simp
  have b: "unat b < 256" using unsigned_less [of b, where ?'a = nat] by simp
  have "unat (push_bit 8 w) = take_bit LENGTH('a) (push_bit 8 (unat w))" by (rule unsigned_push_bit_eq)
  then have shift: "unat (push_bit 8 w) = 256 * unat w"
    using small le by (simp only: push_bit_eq_mult [of 8 "unat w"]) (simp add: take_bit_nat_eq_self)
  have "unat b < 2 ^ LENGTH('a)" using b small le by linarith
  then have byte: "unat (ucast b :: 'a word) = unat b"
    by (simp add: unsigned_ucast_eq take_bit_nat_eq_self)
  have "push_bit 8 w AND ucast b = 0"
    by (rule bit_eqI) (auto simp: bit_simps dest: bit_imp_le_length)
  then have "push_bit 8 w OR ucast b = push_bit 8 w + ucast b" by (simp add: disjunctive_add_eq_or)
  moreover have "unat (push_bit 8 w) + unat (ucast b :: 'a word) < 2 ^ LENGTH('a)" unfolding shift byte using b small le by linarith
  ultimately show ?thesis using shift byte by (simp add: unat_add_lem [THEN iffD1])
qed

definition word_be :: "bytes \<Rightarrow> 'a::len word" where
  "word_be bs = foldl (\<lambda>w b. push_bit 8 w OR ucast b) 0 bs"

lemma nat_of_bytes_append: "nat_of_bytes (as @ bs) = nat_of_bytes as * 256 ^ length bs + nat_of_bytes bs"
  by (simp add: nat_of_bytes_def val_be_append)

lemma unat_word_be: "8 * length bs \<le> LENGTH('a) \<Longrightarrow> unat (word_be bs :: 'a::len word) = nat_of_bytes bs"
proof (induction bs rule: rev_induct)
  case (snoc b bs)
  then have "unat (word_be bs :: 'a word) = nat_of_bytes bs" by simp
  then show ?case
    using snoc.prems push_or_byte [of "word_be bs :: 'a word" "length bs" b] nat_of_bytes_bound [of bs]
    by (simp add: word_be_def nat_of_bytes_append nat_of_bytes_Cons [of b "[]"] nat_of_bytes_def [of "[]"])
qed (simp add: word_be_def nat_of_bytes_def)

lemma take_8: "i + 8 \<le> length bs \<Longrightarrow>
    take 8 (drop i bs) = [bs ! i, bs ! (i + 1), bs ! (i + 2), bs ! (i + 3), bs ! (i + 4), bs ! (i + 5), bs ! (i + 6), bs ! (i + 7)]"
  by (rule nth_equalityI) (auto simp: less_Suc_eq numeral_eq_Suc)

lemma take_4: "i + 4 \<le> length bs \<Longrightarrow> take 4 (drop i bs) = [bs ! i, bs ! (i + 1), bs ! (i + 2), bs ! (i + 3)]"
  by (rule nth_equalityI) (auto simp: less_Suc_eq numeral_eq_Suc)

lemma load64be_word: "i + 8 \<le> length bs \<Longrightarrow> load64be bs i = word_be (take 8 (drop i bs))"
  by (simp only: take_8 word_be_def load64be_def foldl.simps push_bit_or push_bit_push_bit push_bit_of_0 or.left_neutral ac_simps) (simp add: ac_simps)

lemma load32be_word: "i + 4 \<le> length bs \<Longrightarrow> load32be bs i = word_be (take 4 (drop i bs))"
  by (simp only: take_4 word_be_def load32be_def foldl.simps push_bit_or push_bit_push_bit push_bit_of_0 or.left_neutral ac_simps) (simp add: ac_simps)

lemma unat_load64be: "i + 8 \<le> length bs \<Longrightarrow> unat (load64be bs i) = nat_of_bytes (take 8 (drop i bs))"
  by (simp add: load64be_word unat_word_be)

lemma unat_load32be: "i + 4 \<le> length bs \<Longrightarrow> unat (load32be bs i) = nat_of_bytes (take 4 (drop i bs))"
  by (simp add: load32be_word unat_word_be)

text \<open>Comparing the parts of two numbers from the first to the last compares the numbers.\<close>

lemma parts_less:
  fixes h h' l l' M :: nat
  assumes "l < M" and "l' < M"
  shows "h * M + l < h' * M + l' \<longleftrightarrow> h < h' \<or> h = h' \<and> l < l'"
proof -
  have *: "x * M + y < x' * M + y'" if "x < x'" "y < M" for x x' y y' :: nat
  proof -
    have "x * M + y < Suc x * M" using that(2) by simp
    also have "\<dots> \<le> x' * M" using that(1) by (intro mult_le_mono1) simp
    finally show ?thesis by simp
  qed
  show ?thesis using *[of h h' l l'] *[of h' h l' l] assms by (cases h h' rule: linorder_cases) (simp_all add: not_less less_imp_le)
qed

lemma parts_eq:
  fixes h h' l l' M :: nat
  assumes "l < M" and "l' < M"
  shows "h * M + l = h' * M + l' \<longleftrightarrow> h = h' \<and> l = l'"
  using parts_less [OF assms] parts_less [OF assms(2,1)] by (metis nat_neq_iff)

lemma nat_of_bytes_eq_iff: "length a = length b \<Longrightarrow> nat_of_bytes a = nat_of_bytes b \<longleftrightarrow> a = b"
proof (induction a b rule: list_induct2)
  case (Cons x xs y ys)
  then show ?case
    using parts_eq [of "nat_of_bytes xs" "256 ^ length xs" "nat_of_bytes ys"] nat_of_bytes_bound [of xs] nat_of_bytes_bound [of ys]
    by (simp add: nat_of_bytes_Cons word_unat_eq_iff)
qed simp

text \<open>The first eight bytes of a list and the rest\<close>

lemma nat_of_bytes_take_drop: "nat_of_bytes bs = nat_of_bytes (take n bs) * 256 ^ (length bs - n) + nat_of_bytes (drop n bs)"
  using nat_of_bytes_append [of "take n bs" "drop n bs"] by simp

lemma bytes_less_take_drop:
  assumes "length a = length b"
  shows "nat_of_bytes a < nat_of_bytes b \<longleftrightarrow> nat_of_bytes (take n a) < nat_of_bytes (take n b)
    \<or> nat_of_bytes (take n a) = nat_of_bytes (take n b) \<and> nat_of_bytes (drop n a) < nat_of_bytes (drop n b)"
  using parts_less [of "nat_of_bytes (drop n a)" "256 ^ (length a - n)" "nat_of_bytes (drop n b)"]
    nat_of_bytes_bound [of "drop n a"] nat_of_bytes_bound [of "drop n b"] assms
  by (simp add: nat_of_bytes_take_drop [of a n] nat_of_bytes_take_drop [of b n])

lemma bytes_eq_take_drop: "length a = length b \<Longrightarrow> a = b \<longleftrightarrow> take n a = take n b \<and> drop n a = drop n b"
  by (metis append_take_drop_id)

lemma load64be_eq: "length a = length b \<Longrightarrow> i + 8 \<le> length b \<Longrightarrow> load64be a i = load64be b i \<longleftrightarrow> take 8 (drop i a) = take 8 (drop i b)"
  by (simp add: word_unat_eq_iff unat_load64be nat_of_bytes_eq_iff)

lemma load32be_eq: "length a = length b \<Longrightarrow> i + 4 \<le> length b \<Longrightarrow> load32be a i = load32be b i \<longleftrightarrow> take 4 (drop i a) = take 4 (drop i b)"
  by (simp add: word_unat_eq_iff unat_load32be nat_of_bytes_eq_iff)

theorem evmc_comparisons:
  "length a = 20 \<Longrightarrow> length b = 20 \<Longrightarrow> evmc_address_eq a b \<longleftrightarrow> a = b"
  "length a = 20 \<Longrightarrow> length b = 20 \<Longrightarrow> evmc_address_less a b \<longleftrightarrow> nat_of_bytes a < nat_of_bytes b"
  "length a = 32 \<Longrightarrow> length b = 32 \<Longrightarrow> evmc_bytes32_eq a b \<longleftrightarrow> a = b"
  "length a = 32 \<Longrightarrow> length b = 32 \<Longrightarrow> evmc_bytes32_less a b \<longleftrightarrow> nat_of_bytes a < nat_of_bytes b"
proof -
  assume len: "length a = 20" "length b = 20"
  have parts: "a = b \<longleftrightarrow> take 8 a = take 8 b \<and> take 8 (drop 8 a) = take 8 (drop 8 b) \<and> take 4 (drop 16 a) = take 4 (drop 16 b)"
    using len by (simp add: bytes_eq_take_drop [of a b 8] bytes_eq_take_drop [of "drop 8 a" "drop 8 b" 8])
  show "evmc_address_eq a b \<longleftrightarrow> a = b"
    using len by (simp add: evmc_address_eq_def load64be_eq load32be_eq parts)
  show "evmc_address_less a b \<longleftrightarrow> nat_of_bytes a < nat_of_bytes b"
    using len by (simp add: evmc_address_less_def word_less_nat_alt word_unat_eq_iff unat_load64be unat_load32be
        bytes_less_take_drop [of a b 8] bytes_less_take_drop [of "drop 8 a" "drop 8 b" 8])
next
  assume len: "length a = 32" "length b = 32"
  have parts: "a = b \<longleftrightarrow> take 8 a = take 8 b \<and> take 8 (drop 8 a) = take 8 (drop 8 b) \<and> take 8 (drop 16 a) = take 8 (drop 16 b)
      \<and> take 8 (drop 24 a) = take 8 (drop 24 b)"
    using len by (simp add: bytes_eq_take_drop [of a b 8] bytes_eq_take_drop [of "drop 8 a" "drop 8 b" 8] bytes_eq_take_drop [of "drop 16 a" "drop 16 b" 8])
  show "evmc_bytes32_eq a b \<longleftrightarrow> a = b"
    using len by (simp add: evmc_bytes32_eq_def load64be_eq parts)
  show "evmc_bytes32_less a b \<longleftrightarrow> nat_of_bytes a < nat_of_bytes b"
    using len by (simp add: evmc_bytes32_less_def word_less_nat_alt word_unat_eq_iff unat_load64be
        bytes_less_take_drop [of a b 8] bytes_less_take_drop [of "drop 8 a" "drop 8 b" 8] bytes_less_take_drop [of "drop 16 a" "drop 16 b" 8])
qed

text \<open>The constructors from a number keep the number.\<close>

lemma nat_of_bytes_zeros: "nat_of_bytes (replicate n 0 @ bs) = nat_of_bytes bs"
  by (induction n) (simp_all add: nat_of_bytes_Cons)

lemma byte_at: "(ucast (drop_bit k v) :: byte) = of_nat (unat v div 2 ^ k mod 256)"
proof -
  have "unat (ucast (drop_bit k v) :: byte) = unat v div 2 ^ k mod 256"
    by (simp add: unsigned_ucast_eq take_bit_eq_mod unat_drop_bit_eq drop_bit_eq_div [of k "unat v"] del: unsigned_drop_bit_eq)
  then have "of_nat (unat (ucast (drop_bit k v) :: byte)) = (of_nat (unat v div 2 ^ k mod 256) :: byte)" by (rule arg_cong)
  then show ?thesis by simp
qed

lemma u64_bytes_le: "u64_bytes v = rev (le_bytes 8 (unat v))"
proof -
  have "le_bytes 8 n = map (\<lambda>k. of_nat (n div 2 ^ k mod 256)) [0, 8, 16, 24, 32, 40, 48, 56]" for n
  proof -
    have "le_bytes 8 n = le_bytes (Suc (Suc (Suc (Suc (Suc (Suc (Suc (Suc 0)))))))) n" by (simp only: numeral_eq_Suc pred_numeral_simps BitM.simps)
    then show ?thesis by (simp add: div_mult2_eq [symmetric])
  qed
  then show ?thesis using byte_at [of 0 v] by (simp add: u64_bytes_def byte_at)
qed

lemma u64_bytes_value: "nat_of_bytes (u64_bytes v) = unat v"
  using nat_of_bytes_rev_le_bytes [of "unat v" 8] unsigned_less [of v, where ?'a = nat] by (simp add: u64_bytes_le)

lemma evmc_of_u64_value:
  "nat_of_bytes (evmc_address_of_u64 v) = unat v" "length (evmc_address_of_u64 v) = 20"
  "nat_of_bytes (evmc_bytes32_of_u64 v) = unat v" "length (evmc_bytes32_of_u64 v) = 32"
  unfolding evmc_address_of_u64_def evmc_bytes32_of_u64_def nat_of_bytes_zeros u64_bytes_value by (simp_all add: u64_bytes_def)

section \<open>Literals and hexadecimal text\<close>

lemma evmc_from_hex_digit: "hexToInt c = Inr d \<Longrightarrow> evmc_from_hex c = int d \<and> d < 16"
proof -
  have "\<forall>c. case hexToInt c of Inr d \<Rightarrow> evmc_from_hex c = int d \<and> d < 16 | Inl e \<Rightarrow> True" by code_simp
  then show "hexToInt c = Inr d \<Longrightarrow> evmc_from_hex c = int d \<and> d < 16" by (auto dest: spec [of _ c])
qed

lemma literal_byte_Cons: "literal_byte (h # l # s) (Suc i) = literal_byte s i"
  by (simp add: literal_byte_def)

lemma literal_byte_hex:
  assumes "hexToInt h = Inr x" and "hexToInt l = Inr y"
  shows "literal_byte (h # l # s) 0 = of_nat (x * 16 + y)"
proof -
  have d: "evmc_from_hex h = int x" "evmc_from_hex l = int y" "x < 16" "y < 16" using evmc_from_hex_digit assms by blast+
  have "push_bit 4 x AND take_bit 4 y = 0" by (rule bit_eqI) (auto simp: bit_simps)
  moreover have "take_bit 4 y = y" using d(4) by (simp add: take_bit_nat_eq_self)
  ultimately have "push_bit 4 x OR y = push_bit 4 x + y" by (simp add: disjunctive_add_eq_or)
  moreover have "push_bit 4 (int x) OR int y = int (push_bit 4 x OR y)" by (simp only: of_nat_or_eq of_nat_push_bit)
  moreover have "push_bit 4 x = x * 16" by (simp add: push_bit_eq_mult)
  ultimately have "push_bit 4 (int x) OR int y = int (x * 16 + y)" by simp
  then show ?thesis by (simp add: literal_byte_def d(1,2))
qed

lemma literal_bytes_fromHex:
  "fromHex_loop s = Inr bs \<Longrightarrow> length s = 2 * n \<Longrightarrow> map (literal_byte s) [0..<n] = bs"
proof (induction s arbitrary: bs n rule: fromHex_loop.induct)
  case (1 h l rest)
  obtain x y cs where s: "hexToInt h = Inr x" "hexToInt l = Inr y" "fromHex_loop rest = Inr cs" "bs = of_nat (x * 16 + y) # cs"
    using 1(2) by (auto simp: rbind_eq_Inr)
  obtain m where n: "n = Suc m" using 1(3) by (cases n) auto
  have "map (literal_byte rest) [0..<m] = cs" using 1(1) [OF s(1,2), of cs m] s(3) 1(3) n by simp
  then show ?case
    using literal_byte_hex [OF s(1,2)] by (simp add: n s(4) literal_byte_Cons map_upt_Suc del: upt_Suc)
qed auto

text \<open>A literal has the bytes that its hexadecimal digits denote.\<close>

theorem from_literal_fromHex:
  assumes "fromHex s = Inr bs"
  shows "from_literal (length bs) (''0x'' @ s) = Inr bs"
proof -
  have s: "fromHex_loop s = Inr bs" "even (length s)" using assms by (auto simp: fromHex_def mod_2_eq_odd split: if_splits)
  then have "length s = 2 * length bs"
  proof (induction s arbitrary: bs rule: fromHex_loop.induct)
    case (1 h l rest)
    then show ?case by (auto simp: rbind_eq_Inr)
  qed auto
  then show ?thesis using literal_bytes_fromHex [OF s(1)] by (simp add: from_literal_def)
qed

end
