(* ===== verification/Loader.thy ===== *)
theory Loader
  imports Contracts
begin

text \<open>
  Loading of virtual machines, \<^verbatim>\<open>src/vm/evmc/lib/loader/loader.c\<close>, and what it uses of
  \<^verbatim>\<open>src/vm/evmc/include/evmc/helpers.h\<close>: the name of the function that creates a machine, loading, creation and
  configuration with their error codes and messages, and what \<^verbatim>\<open>vm::load\<close> makes of them. The dynamic linker and
  the loaded machine are a parameter. Strings are C strings and contain no null character; the pointer to the error code
  is not null.
\<close>

section \<open>State\<close>

datatype set_option_result =
    EVMC_SET_OPTION_SUCCESS | EVMC_SET_OPTION_INVALID_NAME | EVMC_SET_OPTION_INVALID_VALUE | EVMC_SET_OPTION_OTHER int

text \<open>The functions \<^verbatim>\<open>dlopen\<close>, \<^verbatim>\<open>dlerror\<close> (for a name that could not be opened) and \<^verbatim>\<open>dlsym\<close>; a loaded function that creates
  a machine; and the fields of a machine: whether it can set options, and setting one, which gives the machine with the option\<close>

record ('h, 'f, 'v) dynamic_linker =
  dl_open :: "string \<Rightarrow> 'h option"
  dl_error :: "string \<Rightarrow> string option"
  dl_sym :: "'h \<Rightarrow> string \<Rightarrow> 'f option"
  dl_create :: "'f \<Rightarrow> 'v option"
  vm_abi_version :: "'v \<Rightarrow> int"
  vm_name :: "'v \<Rightarrow> string"
  vm_has_set_option :: "'v \<Rightarrow> bool"
  vm_set_option :: "'v \<Rightarrow> string \<Rightarrow> string \<Rightarrow> set_option_result \<times> 'v"

text \<open>The last message is a null pointer, points to the buffer of the loader, or is a text of the linker.\<close>

datatype error_ref = NO_MSG | BUFFER_MSG | LINKER_MSG string

record ('h, 'v) loader =
  ld_last_error_msg :: error_ref
  ld_buffer :: string
  ld_closed :: "'h list"
  ld_destroyed :: "'v list"

section \<open>Operations\<close>

definition PATH_MAX_LENGTH :: nat where
  "PATH_MAX_LENGTH = 4096"

definition LAST_ERROR_MSG_BUFFER_SIZE :: nat where
  "LAST_ERROR_MSG_BUFFER_SIZE = 511"

definition EVMC_ABI_VERSION :: int where
  "EVMC_ABI_VERSION = 7"

definition strcpy_sx :: "nat \<Rightarrow> string \<Rightarrow> int \<times> string" where
  "strcpy_sx destsz src = (if destsz \<le> length src then (1, []) else (0, src))"

text \<open>A formatted text that does not fit is cut off in the buffer, and the last message stays what it was.\<close>

definition set_error :: "loader_error \<Rightarrow> string \<Rightarrow> ('h, 'v) loader \<Rightarrow> loader_error \<times> ('h, 'v) loader" where
  "set_error error_code msg l =
     (error_code, l\<lparr>ld_buffer := take (LAST_ERROR_MSG_BUFFER_SIZE - 1) msg,
        ld_last_error_msg := (if length msg < LAST_ERROR_MSG_BUFFER_SIZE then BUFFER_MSG else ld_last_error_msg l)\<rparr>)"

definition int_text :: "int \<Rightarrow> string" where
  "int_text i = (if i < 0 then ''-'' @ std_to_string (nat (- i)) else std_to_string (nat i))"

definition quoted :: "string \<Rightarrow> string" where
  "quoted s = [CHR 0x27] @ s @ [CHR 0x27]"

definition strrchr :: "string \<Rightarrow> char \<Rightarrow> nat option" where
  "strrchr s c = (if c \<in> set s then Some (length s - 1 - length (takeWhile (\<lambda>x. x \<noteq> c) (rev s))) else None)"

text \<open>The name that is searched in the library\<close>

definition create_name :: "string \<Rightarrow> string" where
  "create_name filename =
     (let name = (case strrchr filename (CHR ''/'') of Some sep_pos \<Rightarrow> drop (sep_pos + 1) filename | None \<Rightarrow> filename);
          name = (if take 3 name = ''lib'' then drop 3 name else name);
          prefixed_name = ''evmc_create_'' @ snd (strcpy_sx PATH_MAX_LENGTH name);
          prefixed_name = takeWhile (\<lambda>c. c \<noteq> CHR ''.'') prefixed_name
      in take (length ''evmc_create_'') prefixed_name
         @ map (\<lambda>c. if c = CHR ''-'' then CHR ''_'' else c) (drop (length ''evmc_create_'') prefixed_name))"

definition evmc_load ::
  "('h, 'f, 'v) dynamic_linker \<Rightarrow> string option \<Rightarrow> ('h, 'v) loader \<Rightarrow> loader_error \<times> 'f option \<times> ('h, 'v) loader" where
  "evmc_load D filename_ptr l =
     (let l = l\<lparr>ld_last_error_msg := NO_MSG\<rparr>;
          failure = (\<lambda>(ec, l). (ec, None, l))
      in case filename_ptr of
           None \<Rightarrow> failure (set_error EVMC_LOADER_INVALID_ARGUMENT ''invalid argument: file name cannot be null'' l)
         | Some filename \<Rightarrow>
             if length filename = 0 then
               failure (set_error EVMC_LOADER_INVALID_ARGUMENT ''invalid argument: file name cannot be empty'' l)
             else if PATH_MAX_LENGTH < length filename then
               failure (set_error EVMC_LOADER_INVALID_ARGUMENT
                 (''invalid argument: file name is too long ('' @ int_text (sint (of_nat (length filename) :: 32 word))
                  @ '', maximum allowed length is '' @ std_to_string PATH_MAX_LENGTH @ '')'') l)
             else
               (case dl_open D filename of
                  None \<Rightarrow>
                    (case dl_error D filename of
                       Some msg \<Rightarrow> (EVMC_LOADER_CANNOT_OPEN, None, l\<lparr>ld_last_error_msg := LINKER_MSG msg\<rparr>)
                     | None \<Rightarrow> failure (set_error EVMC_LOADER_CANNOT_OPEN (''cannot open '' @ filename) l))
                | Some h \<Rightarrow>
                    (case (case dl_sym D h (create_name filename) of Some f \<Rightarrow> Some f | None \<Rightarrow> dl_sym D h ''evmc_create'') of
                       Some create_fn \<Rightarrow> (EVMC_LOADER_SUCCESS, Some create_fn, l)
                     | None \<Rightarrow>
                         failure (set_error EVMC_LOADER_SYMBOL_NOT_FOUND (''EVMC create function not found in '' @ filename)
                           (l\<lparr>ld_closed := ld_closed l @ [h]\<rparr>)))))"

definition evmc_last_error_msg :: "('h, 'v) loader \<Rightarrow> string option \<times> ('h, 'v) loader" where
  "evmc_last_error_msg l =
     ((case ld_last_error_msg l of NO_MSG \<Rightarrow> None | BUFFER_MSG \<Rightarrow> Some (ld_buffer l) | LINKER_MSG msg \<Rightarrow> Some msg),
      l\<lparr>ld_last_error_msg := NO_MSG\<rparr>)"

definition evmc_is_abi_compatible :: "('h, 'f, 'v) dynamic_linker \<Rightarrow> 'v \<Rightarrow> bool" where
  "evmc_is_abi_compatible D vm = (vm_abi_version D vm = EVMC_ABI_VERSION)"

definition evmc_destroy :: "'v \<Rightarrow> ('h, 'v) loader \<Rightarrow> ('h, 'v) loader" where
  "evmc_destroy vm l = l\<lparr>ld_destroyed := ld_destroyed l @ [vm]\<rparr>"

definition evmc_load_and_create ::
  "('h, 'f, 'v) dynamic_linker \<Rightarrow> string \<Rightarrow> ('h, 'v) loader \<Rightarrow> loader_error \<times> 'v option \<times> ('h, 'v) loader" where
  "evmc_load_and_create D filename l =
     (case evmc_load D (Some filename) l of
        (ec, None, l) \<Rightarrow> (ec, None, l)
      | (_, Some create_fn, l) \<Rightarrow>
          (case dl_create D create_fn of
             None \<Rightarrow>
               (case set_error EVMC_LOADER_VM_CREATION_FAILURE (''creating EVMC VM of '' @ filename @ '' has failed'') l of
                  (ec, l) \<Rightarrow> (ec, None, l))
           | Some vm \<Rightarrow>
               if \<not> evmc_is_abi_compatible D vm then
                 (case set_error EVMC_LOADER_ABI_VERSION_MISMATCH
                    (''EVMC ABI version '' @ int_text (vm_abi_version D vm) @ '' of '' @ filename
                     @ '' mismatches the expected version '' @ int_text EVMC_ABI_VERSION) l of
                    (ec, l) \<Rightarrow> (ec, None, evmc_destroy vm l))
               else (EVMC_LOADER_SUCCESS, Some vm, l)))"

text \<open>The token before the delimiter and what follows it\<close>

definition get_token :: "char \<Rightarrow> string \<Rightarrow> string \<times> string" where
  "get_token delim s = (takeWhile (\<lambda>c. c \<noteq> delim) s, if delim \<in> set s then tl (dropWhile (\<lambda>c. c \<noteq> delim) s) else [])"

lemma get_token_shorter: "s \<noteq> [] \<Longrightarrow> length (snd (get_token d s)) < length s"
  using length_dropWhile_le [of "\<lambda>c. c \<noteq> d" s] by (cases s) (auto simp: get_token_def)

text \<open>The loop over the options; the result has the machine with the options set so far.\<close>

function set_options ::
  "('h, 'f, 'v) dynamic_linker \<Rightarrow> (string \<Rightarrow> string) \<Rightarrow> string \<Rightarrow> 'v \<Rightarrow> ('h, 'v) loader \<Rightarrow> loader_error \<times> 'v \<times> ('h, 'v) loader" where
  "set_options D label options vm l =
     (if options = [] then (EVMC_LOADER_SUCCESS, vm, l)
      else
        let (option, rest) = get_token (CHR '','') options; (name, val) = get_token (CHR ''='') option;
            (r, vm) = vm_set_option D vm name val;
            failure = (\<lambda>(ec, l). (ec, vm, l)); head = label (vm_name D vm)
        in case r of
             EVMC_SET_OPTION_SUCCESS \<Rightarrow> set_options D label rest vm l
           | EVMC_SET_OPTION_INVALID_NAME \<Rightarrow>
               failure (set_error EVMC_LOADER_INVALID_OPTION_NAME (head @ '': unknown option '' @ quoted name) l)
           | EVMC_SET_OPTION_INVALID_VALUE \<Rightarrow>
               failure (set_error EVMC_LOADER_INVALID_OPTION_VALUE
                 (head @ '': unsupported value '' @ quoted val @ '' for option '' @ quoted name) l)
           | EVMC_SET_OPTION_OTHER _ \<Rightarrow>
               failure (set_error EVMC_LOADER_INVALID_OPTION_VALUE
                 (head @ '': unknown error when setting value '' @ quoted val @ '' for option '' @ quoted name) l))"
  by pat_completeness auto
termination
  by (relation "measure (\<lambda>(D, label, options, vm, l). length options)") (simp_all, metis get_token_shorter snd_conv)

declare set_options.simps [simp del]

text \<open>The message names the machine and the path.\<close>

definition evmc_load_and_configure ::
  "('h, 'f, 'v) dynamic_linker \<Rightarrow> string \<Rightarrow> ('h, 'v) loader \<Rightarrow> loader_error \<times> 'v option \<times> ('h, 'v) loader" where
  "evmc_load_and_configure D config l =
     (case strcpy_sx PATH_MAX_LENGTH config of
        (r, config_copy) \<Rightarrow>
          if r \<noteq> 0 then
            (case set_error EVMC_LOADER_INVALID_ARGUMENT
               (''invalid argument: configuration is too long (maximum allowed length is '' @ std_to_string PATH_MAX_LENGTH @ '')'') l of
               (ec, l) \<Rightarrow> (ec, None, l))
          else
            let (path, options) = get_token (CHR '','') config_copy; label = (\<lambda>name. name @ '' ('' @ path @ '')'') in
            case evmc_load_and_create D path l of
              (ec, None, l) \<Rightarrow> (ec, None, l)
            | (_, Some vm, l) \<Rightarrow>
                (case (if \<not> vm_has_set_option D vm \<and> options \<noteq> [] then
                         (case set_error EVMC_LOADER_INVALID_OPTION_NAME (label (vm_name D vm) @ '' does not support any options'') l of
                            (ec, l) \<Rightarrow> (ec, vm, l))
                       else set_options D label options vm l) of
                   (ec, vm, l) \<Rightarrow> if ec = EVMC_LOADER_SUCCESS then (ec, Some vm, l) else (ec, None, evmc_destroy vm l)))"

text \<open>The helper that sets one option, and the loader as \<^verbatim>\<open>vm::load\<close> uses it, with the check of the interface that
  \<^verbatim>\<open>evmc::VM\<close> has\<close>

definition evmc_set_option :: "('h, 'f, 'v) dynamic_linker \<Rightarrow> 'v \<Rightarrow> string \<Rightarrow> string \<Rightarrow> set_option_result \<times> 'v" where
  "evmc_set_option D vm name val = (if vm_has_set_option D vm then vm_set_option D vm name val else (EVMC_SET_OPTION_INVALID_NAME, vm))"

definition VM_is_abi_compatible :: "('h, 'f, 'v) dynamic_linker \<Rightarrow> 'v \<Rightarrow> bool" where
  "VM_is_abi_compatible D vm = (vm_abi_version D vm = EVMC_ABI_VERSION)"

definition evmc_vm_loader ::
  "('h, 'f, 'v) dynamic_linker \<Rightarrow> ('h, 'v) loader \<Rightarrow> (string \<Rightarrow> string option) \<Rightarrow> (string \<Rightarrow> string option option) \<Rightarrow> 'v vm_loader" where
  "evmc_vm_loader D l absolute symlink =
     \<lparr>vl_absolute = absolute, vl_symlink = symlink,
      vl_load = (\<lambda>path. case evmc_load_and_create D path l of (ec, vm, _) \<Rightarrow> (ec, vm)),
      vl_abi_compatible = VM_is_abi_compatible D\<rparr>"

section \<open>The name of the create function\<close>

lemma strrchr_last: "c \<notin> set name \<Longrightarrow> strrchr (dir @ c # name) c = Some (length dir)"
proof -
  assume "c \<notin> set name"
  then have "takeWhile (\<lambda>x. x \<noteq> c) (rev name @ c # rev dir) = rev name"
    by (subst takeWhile_append2) auto
  then show ?thesis by (simp add: strrchr_def)
qed

text \<open>For a library \<^verbatim>\<open>dir/libname.ext\<close>, as the documentation of the loader says\<close>

lemma create_name_library:
  assumes "CHR ''/'' \<notin> set name" "CHR ''/'' \<notin> set ext" "CHR ''.'' \<notin> set name" "length name + length ext + 1 < PATH_MAX_LENGTH"
  shows "create_name (dir @ ''/lib'' @ name @ ''.'' @ ext) = ''evmc_create_'' @ map (\<lambda>c. if c = CHR ''-'' then CHR ''_'' else c) name"
proof -
  let ?file = "''lib'' @ name @ ''.'' @ ext"
  have pos: "strrchr (dir @ CHR ''/'' # ?file) (CHR ''/'') = Some (length dir)" by (rule strrchr_last) (use assms in auto)
  have copied: "strcpy_sx PATH_MAX_LENGTH (name @ ''.'' @ ext) = (0, name @ ''.'' @ ext)" using assms(4) by (simp add: strcpy_sx_def)
  have trimmed: "takeWhile (\<lambda>c. c \<noteq> CHR ''.'') (''evmc_create_'' @ name @ ''.'' @ ext) = ''evmc_create_'' @ name"
    using assms(3) by (subst takeWhile_append2) (auto simp: takeWhile_append2 takeWhile_tail)
  have "dir @ ''/lib'' @ name @ ''.'' @ ext = dir @ CHR ''/'' # ?file" by simp
  then show ?thesis
    unfolding create_name_def pos Let_def
    by (simp only: pos option.case) (simp add: copied [simplified] trimmed [simplified])
qed

section \<open>Error codes\<close>

text \<open>A create function, or a machine, is returned exactly with the code of success.\<close>

lemma set_error_code [simp]: "fst (set_error ec msg l) = ec" "ld_destroyed (snd (set_error ec msg l)) = ld_destroyed l" "ld_closed (snd (set_error ec msg l)) = ld_closed l"
  by (simp_all add: set_error_def)

lemma evmc_load_code:
  assumes "evmc_load D filename l = (ec, f, l')"
  shows "(ec = EVMC_LOADER_SUCCESS \<longleftrightarrow> f \<noteq> None) \<and> ld_destroyed l' = ld_destroyed l"
  using assms by (auto simp: evmc_load_def set_error_def Let_def split: option.splits if_splits dest: sym [of "Some _"])

lemma evmc_load_and_create_code:
  assumes "evmc_load_and_create D filename l = (ec, vm, l')"
  shows "(ec = EVMC_LOADER_SUCCESS \<longleftrightarrow> vm \<noteq> None) \<and> (\<forall>v. vm = Some v \<longrightarrow> evmc_is_abi_compatible D v \<and> ld_destroyed l' = ld_destroyed l)"
  using assms evmc_load_code [of D "Some filename" l]
  by (auto simp: evmc_load_and_create_def set_error_def split: prod.splits option.splits if_splits dest: sym [of "Some _"])

text \<open>What the loader does with a library that can be opened, in one place\<close>

definition created_vm :: "('h, 'f, 'v) dynamic_linker \<Rightarrow> 'h \<Rightarrow> string \<Rightarrow> 'v option" where
  "created_vm D h name =
     (case (case dl_sym D h name of Some f \<Rightarrow> Some f | None \<Rightarrow> dl_sym D h ''evmc_create'') of Some f \<Rightarrow> dl_create D f | None \<Rightarrow> None)"

lemma evmc_load_and_create_result:
  assumes "filename \<noteq> []" and "length filename \<le> PATH_MAX_LENGTH"
  shows "fst (snd (evmc_load_and_create D filename l)) =
      (case dl_open D filename of None \<Rightarrow> None | Some h \<Rightarrow>
         (case created_vm D h (create_name filename) of Some vm \<Rightarrow> if evmc_is_abi_compatible D vm then Some vm else None | None \<Rightarrow> None))"
    and "fst (evmc_load_and_create D filename l) = EVMC_LOADER_CANNOT_OPEN \<longleftrightarrow> dl_open D filename = None"
  using assms by (auto simp: evmc_load_and_create_def evmc_load_def set_error_def created_vm_def Let_def split: option.splits if_splits prod.splits)

text \<open>Loading the virtual machine of the node from the directory of the process, with the loader of the library. The
  machine is the one that the function \<^verbatim>\<open>evmc_create_evmone\<close>, or else \<^verbatim>\<open>evmc_create\<close>, of the library creates, when its
  interface has version 7; a library that cannot be opened is an inaccessible file, everything else an error of the
  virtual machine, and never a logic error.\<close>

theorem vm_load_outcomes:
  assumes path: "path = dir @ ''/libevmone.so.0.4''" "length path \<le> PATH_MAX_LENGTH"
    and absolute: "absolute ''libevmone.so.0.4'' = Some path" "absolute path = Some path"
    and found: "fs_exists fs path" "symlink path = None"
  shows "load_vm (evmc_vm_loader D l absolute symlink) fs =
      (case dl_open D path of
         None \<Rightarrow> Inl InaccessibleFile
       | Some h \<Rightarrow>
           (case created_vm D h ''evmc_create_evmone'' of
              Some vm \<Rightarrow> if vm_abi_version D vm = 7 then Inr vm else Inl VmError
            | None \<Rightarrow> Inl VmError))"
proof -
  have "path = dir @ ''/lib'' @ ''evmone'' @ ''.'' @ ''so.0.4''" by (simp add: path(1))
  then have name: "create_name path = ''evmc_create_evmone''"
    using create_name_library [of "''evmone''" "''so.0.4''" dir] by (simp add: PATH_MAX_LENGTH_def)
  have nonempty: "path \<noteq> []" by (simp add: path(1))
  have vm_path: "getVmPath (evmc_vm_loader D l absolute symlink) fs = Inr path"
    unfolding getVmPath_def vl_absolute_res_def evmc_vm_loader_def vm_loader.simps absolute option.case rbind_Inr using found absolute(2) by simp
  obtain ec vm l' where load: "evmc_load_and_create D path l = (ec, vm, l')" by (metis prod_cases3)
  note code = evmc_load_and_create_code [OF load] and result = evmc_load_and_create_result [OF nonempty path(2), of D l, unfolded load name prod.sel]
  have loaded: "load_vm (evmc_vm_loader D l absolute symlink) fs = (case vm of Some v \<Rightarrow> Inr v | None \<Rightarrow> Inl (if ec = EVMC_LOADER_CANNOT_OPEN then InaccessibleFile else VmError))"
    using code unfolding load_vm_def vm_path rbind_Inr
    by (cases ec) (auto simp: evmc_vm_loader_def load VM_is_abi_compatible_def evmc_is_abi_compatible_def split: option.splits)
  show ?thesis unfolding loaded using result
    by (auto simp: evmc_is_abi_compatible_def EVMC_ABI_VERSION_def split: option.splits)
qed

section \<open>Options\<close>

lemma get_token_delimiter: "d \<notin> set t \<Longrightarrow> get_token d (t @ d # s) = (t, s)"
  by (induction t) (auto simp: get_token_def)

lemma get_token_all: "d \<notin> set t \<Longrightarrow> get_token d t = (t, [])"
  by (simp add: get_token_def takeWhile_eq_all_conv) metis

text \<open>Options as they are written, one after the other until the first that is refused, and the text of a configuration\<close>

fun set_all :: "('h, 'f, 'v) dynamic_linker \<Rightarrow> (string \<times> string) list \<Rightarrow> 'v \<Rightarrow> set_option_result \<times> 'v + 'v" where
  "set_all D [] vm = Inr vm"
| "set_all D ((name, val) # opts) vm =
     (case vm_set_option D vm name val of (r, vm) \<Rightarrow> if r = EVMC_SET_OPTION_SUCCESS then set_all D opts vm else Inl (r, vm))"

definition option_error :: "set_option_result \<Rightarrow> loader_error" where
  "option_error r = (if r = EVMC_SET_OPTION_INVALID_NAME then EVMC_LOADER_INVALID_OPTION_NAME else EVMC_LOADER_INVALID_OPTION_VALUE)"

fun options_text :: "(string \<times> string) list \<Rightarrow> string" where
  "options_text [] = []"
| "options_text [(name, val)] = name @ CHR ''='' # val"
| "options_text ((name, val) # opt # opts) = (name @ CHR ''='' # val) @ CHR '','' # options_text (opt # opts)"

definition clear_option :: "string \<times> string \<Rightarrow> bool" where
  "clear_option opt \<longleftrightarrow> CHR '','' \<notin> set (fst opt) \<and> CHR ''='' \<notin> set (fst opt) \<and> CHR '','' \<notin> set (snd opt)"

definition config_text :: "string \<Rightarrow> (string \<times> string) list \<Rightarrow> string" where
  "config_text path opts = (if opts = [] then path else path @ CHR '','' # options_text opts)"

text \<open>One turn of the loop for an option that is written out\<close>

lemma set_options_step:
  assumes "get_token (CHR '','') options = (name @ CHR ''='' # val, rest)" and "CHR ''='' \<notin> set name" and "options \<noteq> []"
    and "vm_set_option D vm name val = (r, vm')"
  shows "r = EVMC_SET_OPTION_SUCCESS \<Longrightarrow> set_options D label options vm l = set_options D label rest vm' l"
    and "r \<noteq> EVMC_SET_OPTION_SUCCESS \<Longrightarrow> \<exists>l'. set_options D label options vm l = (option_error r, vm', l') \<and> ld_destroyed l' = ld_destroyed l"
proof -
  note unfolded = set_options.simps [of D label options vm l] assms(1,4) get_token_delimiter [OF assms(2), of val] Let_def
  show "r = EVMC_SET_OPTION_SUCCESS \<Longrightarrow> set_options D label options vm l = set_options D label rest vm' l"
    using assms(3) by (simp add: unfolded)
  assume "r \<noteq> EVMC_SET_OPTION_SUCCESS"
  then obtain ec msg where "set_options D label options vm l = (case set_error ec msg l of (ec, l') \<Rightarrow> (ec, vm', l'))" and ec: "ec = option_error r"
    using assms(3) by (cases r) (simp_all add: unfolded option_error_def)
  then have "set_options D label options vm l = (ec, vm', snd (set_error ec msg l))" by (simp add: set_error_def)
  then show "\<exists>l'. set_options D label options vm l = (option_error r, vm', l') \<and> ld_destroyed l' = ld_destroyed l"
    using ec by (metis set_error_code(2))
qed

lemma set_options_all:
  assumes "\<forall>opt\<in>set opts. clear_option opt"
  shows "case set_all D opts vm of
      Inr vm' \<Rightarrow> set_options D label (options_text opts) vm l = (EVMC_LOADER_SUCCESS, vm', l)
    | Inl (r, vm') \<Rightarrow> r \<noteq> EVMC_SET_OPTION_SUCCESS \<and> (\<exists>l'. set_options D label (options_text opts) vm l = (option_error r, vm', l') \<and> ld_destroyed l' = ld_destroyed l)"
  using assms
proof (induction opts arbitrary: vm rule: options_text.induct)
  case 1
  show ?case by (simp add: set_options.simps)
next
  case (2 name val)
  have token: "get_token (CHR '','') (options_text [(name, val)]) = (name @ CHR ''='' # val, [])"
    using 2 get_token_all [of "CHR '',''" "name @ CHR ''='' # val"] by (simp add: clear_option_def)
  have eq: "CHR ''='' \<notin> set name" using 2 by (simp add: clear_option_def)
  obtain r vm' where r: "vm_set_option D vm name val = (r, vm')" by fastforce
  have "options_text [(name, val)] \<noteq> []" by simp
  note step = set_options_step [OF token eq this r, of label l]
  show ?case using step by (cases "r = EVMC_SET_OPTION_SUCCESS") (simp_all add: r set_options.simps [of _ _ "[]"])
next
  case (3 name val opt opts)
  have token: "get_token (CHR '','') (options_text ((name, val) # opt # opts)) = (name @ CHR ''='' # val, options_text (opt # opts))"
    using 3(2) get_token_delimiter [of "CHR '',''" "name @ CHR ''='' # val" "options_text (opt # opts)"] by (simp add: clear_option_def)
  have eq: "CHR ''='' \<notin> set name" using 3(2) by (simp add: clear_option_def)
  obtain r vm' where r: "vm_set_option D vm name val = (r, vm')" by fastforce
  have "options_text ((name, val) # opt # opts) \<noteq> []" by simp
  note step = set_options_step [OF token eq this r, of label l]
  show ?case using step 3(1) [of vm'] 3(2) by (cases "r = EVMC_SET_OPTION_SUCCESS") (auto simp: r split: sum.splits)
qed

text \<open>Configuration of a virtual machine that could be created. The options of the configuration are set in the order
  in which they are written; when the machine takes them all it is returned, and otherwise the first that it refuses
  decides the error code and the machine is destroyed, once.\<close>

theorem configured_vm:
  assumes opts: "\<forall>opt\<in>set opts. clear_option opt" and path: "CHR '','' \<notin> set path" and fits: "length (config_text path opts) < PATH_MAX_LENGTH"
    and created: "evmc_load_and_create D path l = (EVMC_LOADER_SUCCESS, Some vm, l1)" and able: "vm_has_set_option D vm"
  shows "case set_all D opts vm of
      Inr vm' \<Rightarrow> evmc_load_and_configure D (config_text path opts) l = (EVMC_LOADER_SUCCESS, Some vm', l1)
    | Inl (r, vm') \<Rightarrow> \<exists>l2. evmc_load_and_configure D (config_text path opts) l = (option_error r, None, l2) \<and> ld_destroyed l2 = ld_destroyed l1 @ [vm']"
proof -
  define label where "label = (\<lambda>name. name @ '' ('' @ path @ '')'')"
  have token: "get_token (CHR '','') (config_text path opts) = (path, options_text opts)"
    using path by (auto simp: config_text_def get_token_delimiter get_token_all)
  have copied: "strcpy_sx PATH_MAX_LENGTH (config_text path opts) = (0, config_text path opts)" using fits by (simp add: strcpy_sx_def)
  have run: "evmc_load_and_configure D (config_text path opts) l = (case set_options D label (options_text opts) vm l1 of
      (ec, vm, l) \<Rightarrow> if ec = EVMC_LOADER_SUCCESS then (ec, Some vm, l) else (ec, None, evmc_destroy vm l))"
    unfolding evmc_load_and_configure_def copied by (simp add: token created able label_def Let_def)
  have "option_error r \<noteq> EVMC_LOADER_SUCCESS" for r by (simp add: option_error_def)
  then show ?thesis
    using set_options_all [OF opts, where D = D and vm = vm and label = label and l = l1] unfolding run by (auto simp: evmc_destroy_def split: sum.splits)
qed

section \<open>A machine with options\<close>

text \<open>A library whose machine is the list of the options that were set; it knows the option \<^verbatim>\<open>O\<close>.\<close>

definition demo_linker :: "(unit, unit, (string \<times> string) list) dynamic_linker" where
  "demo_linker =
     \<lparr>dl_open = (\<lambda>filename. Some ()), dl_error = (\<lambda>_. None), dl_sym = (\<lambda>_ name. if name = ''evmc_create_evmone'' then Some () else None),
      dl_create = (\<lambda>_. Some []), vm_abi_version = (\<lambda>_. 7), vm_name = (\<lambda>_. ''evmone''), vm_has_set_option = (\<lambda>_. True),
      vm_set_option = (\<lambda>vm name val. if name = ''O'' then (EVMC_SET_OPTION_SUCCESS, vm @ [(name, val)]) else (EVMC_SET_OPTION_INVALID_NAME, vm))\<rparr>"

definition demo_loader :: "(unit, (string \<times> string) list) loader" where
  "demo_loader = \<lparr>ld_last_error_msg = NO_MSG, ld_buffer = [], ld_closed = [], ld_destroyed = []\<rparr>"

theorem vm_load_outcomes_witness:
  "load_vm (evmc_vm_loader demo_linker demo_loader (\<lambda>p. Some ''/n/libevmone.so.0.4'') (\<lambda>_. None)) [''/n/libevmone.so.0.4'' \<mapsto> Regular_file []] = Inr []"
  using vm_load_outcomes [where path = "''/n/libevmone.so.0.4''" and dir = "''/n''" and absolute = "\<lambda>p. Some ''/n/libevmone.so.0.4''"
      and fs = "[''/n/libevmone.so.0.4'' \<mapsto> Regular_file []]" and symlink = "\<lambda>_. None" and D = demo_linker and l = demo_loader]
  by (simp add: PATH_MAX_LENGTH_def fs_exists_def demo_linker_def created_vm_def)

theorem configured_vm_witness:
  "evmc_load_and_configure demo_linker (config_text ''/n/libevmone.so'' [(''O'', ''2'')]) demo_loader = (EVMC_LOADER_SUCCESS, Some [(''O'', ''2'')], demo_loader)
   \<and> (\<exists>l2. evmc_load_and_configure demo_linker (config_text ''/n/libevmone.so'' [(''O'', ''2''), (''x'', [])]) demo_loader
        = (EVMC_LOADER_INVALID_OPTION_NAME, None, l2) \<and> ld_destroyed l2 = [[(''O'', ''2'')]])"
proof -
  have name: "create_name ''/n/libevmone.so'' = ''evmc_create_evmone''" by code_simp
  have created: "evmc_load_and_create demo_linker ''/n/libevmone.so'' demo_loader = (EVMC_LOADER_SUCCESS, Some [], demo_loader)"
    by (simp add: evmc_load_and_create_def evmc_load_def name demo_linker_def demo_loader_def PATH_MAX_LENGTH_def evmc_is_abi_compatible_def EVMC_ABI_VERSION_def)
  have able: "vm_has_set_option demo_linker []" by (simp add: demo_linker_def)
  have all: "set_all demo_linker [(''O'', ''2'')] [] = Inr [(''O'', ''2'')]"
    "set_all demo_linker [(''O'', ''2''), (''x'', [])] [] = Inl (EVMC_SET_OPTION_INVALID_NAME, [(''O'', ''2'')])" by (simp_all add: demo_linker_def)
  have first: "case set_all demo_linker [(''O'', ''2'')] [] of
      Inr vm' \<Rightarrow> evmc_load_and_configure demo_linker (config_text ''/n/libevmone.so'' [(''O'', ''2'')]) demo_loader = (EVMC_LOADER_SUCCESS, Some vm', demo_loader)
    | Inl (r, vm') \<Rightarrow> \<exists>l2. evmc_load_and_configure demo_linker (config_text ''/n/libevmone.so'' [(''O'', ''2'')]) demo_loader = (option_error r, None, l2)
        \<and> ld_destroyed l2 = ld_destroyed demo_loader @ [vm']"
    by (rule configured_vm [OF _ _ _ created able]) (simp_all add: clear_option_def config_text_def PATH_MAX_LENGTH_def)
  have second: "case set_all demo_linker [(''O'', ''2''), (''x'', [])] [] of
      Inr vm' \<Rightarrow> evmc_load_and_configure demo_linker (config_text ''/n/libevmone.so'' [(''O'', ''2''), (''x'', [])]) demo_loader = (EVMC_LOADER_SUCCESS, Some vm', demo_loader)
    | Inl (r, vm') \<Rightarrow> \<exists>l2. evmc_load_and_configure demo_linker (config_text ''/n/libevmone.so'' [(''O'', ''2''), (''x'', [])]) demo_loader = (option_error r, None, l2)
        \<and> ld_destroyed l2 = ld_destroyed demo_loader @ [vm']"
    by (rule configured_vm [OF _ _ _ created able]) (simp_all add: clear_option_def config_text_def PATH_MAX_LENGTH_def)
  have "option_error EVMC_SET_OPTION_INVALID_NAME = EVMC_LOADER_INVALID_OPTION_NAME" "ld_destroyed demo_loader = []"
    by (simp_all add: option_error_def demo_loader_def)
  then show ?thesis using first second unfolding all sum.case prod.case by simp
qed

end
