(* ===== verification/Ownership.thy ===== *)
theory Ownership
  imports Bytes "HOL-Library.Multiset"
begin

text \<open>
  The classes \<^verbatim>\<open>result\<close> and \<^verbatim>\<open>VM\<close> of \<^verbatim>\<open>src/vm/evmc/include/evmc/evmc.hpp\<close>, which own the memory of an output and a
  virtual machine, and the results that \<^verbatim>\<open>src/vm/evmc/include/evmc/helpers.h\<close> makes. The objects that live are a list, in
  which a destroyed object leaves a gap. Nothing that was created is released twice or lost, whatever the order of the
  operations.
\<close>

section \<open>Objects that own something\<close>

text \<open>
  The argument \<open>held\<close> is what the destructor of an object releases, the argument \<open>moved\<close> the object after its value was
  moved away. Using an object that does not live is undefined.
\<close>

record ('o, 'r) owners =
  ow_objects :: "'o option list"
  ow_created :: "'r list"
  ow_released :: "'r list"
  ow_raw :: "'r list"

definition live :: "nat \<Rightarrow> ('o, 'r) owners \<Rightarrow> 'o res" where
  "live i w = (if i < length (ow_objects w) then (case ow_objects w ! i of Some x \<Rightarrow> Inr x | None \<Rightarrow> Inl OutOfBounds) else Inl OutOfBounds)"

definition put :: "nat \<Rightarrow> 'o option \<Rightarrow> ('o, 'r) owners \<Rightarrow> ('o, 'r) owners" where
  "put i x w = w\<lparr>ow_objects := (ow_objects w)[i := x]\<rparr>"

definition opt_list :: "'a option \<Rightarrow> 'a list" where
  "opt_list x = (case x of Some y \<Rightarrow> [y] | None \<Rightarrow> [])"

definition own_construct :: "('o \<Rightarrow> 'r option) \<Rightarrow> 'o \<Rightarrow> ('o, 'r) owners \<Rightarrow> ('o, 'r) owners" where
  "own_construct held x w = w\<lparr>ow_objects := ow_objects w @ [Some x], ow_created := ow_created w @ opt_list (held x)\<rparr>"

definition own_destruct :: "('o \<Rightarrow> 'r option) \<Rightarrow> nat \<Rightarrow> ('o, 'r) owners \<Rightarrow> ('o, 'r) owners res" where
  "own_destruct held i w = rbind (live i w) (\<lambda>x. Inr ((put i None w)\<lparr>ow_released := ow_released w @ opt_list (held x)\<rparr>))"

definition own_move :: "('o \<Rightarrow> 'o) \<Rightarrow> nat \<Rightarrow> ('o, 'r) owners \<Rightarrow> ('o, 'r) owners res" where
  "own_move moved other w =
     rbind (live other w) (\<lambda>x.
     let w = put other (Some (moved x)) w in Inr (w\<lparr>ow_objects := ow_objects w @ [Some x]\<rparr>))"

text \<open>The destructor runs on the object that is assigned to, then its value is replaced, then the other object is emptied.\<close>

definition own_assign :: "('o \<Rightarrow> 'r option) \<Rightarrow> ('o \<Rightarrow> 'o) \<Rightarrow> nat \<Rightarrow> nat \<Rightarrow> ('o, 'r) owners \<Rightarrow> ('o, 'r) owners res" where
  "own_assign held moved i other w =
     rbind (live i w) (\<lambda>x.
     let w = w\<lparr>ow_released := ow_released w @ opt_list (held x)\<rparr> in
     rbind (live other w) (\<lambda>y. Inr (put other (Some (moved y)) (put i (Some y) w))))"

section \<open>Results\<close>

text \<open>The output is a buffer in memory, with an address; the field \<^verbatim>\<open>release\<close> is null or not.\<close>

record raw_result =
  rr_status_code :: int
  rr_gas_left :: int
  rr_output_data :: "nat option"
  rr_output :: bytes
  rr_release :: bool

definition EVMC_OUT_OF_MEMORY :: int where
  "EVMC_OUT_OF_MEMORY = - 3"

text \<open>The first argument is the address that \<^verbatim>\<open>malloc\<close> returns, if any.\<close>

definition evmc_make_result :: "nat option \<Rightarrow> int \<Rightarrow> int \<Rightarrow> bytes \<Rightarrow> raw_result" where
  "evmc_make_result malloc status_code gas_left output =
     (let result = \<lparr>rr_status_code = 0, rr_gas_left = 0, rr_output_data = None, rr_output = [], rr_release = False\<rparr> in
      if output \<noteq> [] then
        (case malloc of
           None \<Rightarrow> result\<lparr>rr_status_code := EVMC_OUT_OF_MEMORY\<rparr>
         | Some buffer \<Rightarrow> result\<lparr>rr_output_data := Some buffer, rr_output := output, rr_release := True,
                                 rr_status_code := status_code, rr_gas_left := gas_left\<rparr>)
      else result\<lparr>rr_status_code := status_code, rr_gas_left := gas_left\<rparr>)"

definition result_held :: "raw_result \<Rightarrow> nat option" where
  "result_held r = (if rr_release r then rr_output_data r else None)"

definition result_moved :: "raw_result \<Rightarrow> raw_result" where
  "result_moved r = r\<lparr>rr_release := False\<rparr>"

definition mk_result :: "nat option \<Rightarrow> int \<Rightarrow> int \<Rightarrow> bytes \<Rightarrow> (raw_result, nat) owners \<Rightarrow> (raw_result, nat) owners" where
  "mk_result malloc status_code gas_left output = own_construct result_held (evmc_make_result malloc status_code gas_left output)"

definition result_destructor :: "nat \<Rightarrow> (raw_result, nat) owners \<Rightarrow> (raw_result, nat) owners res" where
  "result_destructor = own_destruct result_held"

definition result_move_constructor :: "nat \<Rightarrow> (raw_result, nat) owners \<Rightarrow> (raw_result, nat) owners res" where
  "result_move_constructor = own_move result_moved"

definition result_move_assign :: "nat \<Rightarrow> nat \<Rightarrow> (raw_result, nat) owners \<Rightarrow> (raw_result, nat) owners res" where
  "result_move_assign = own_assign result_held result_moved"

definition release_raw :: "nat \<Rightarrow> (raw_result, nat) owners \<Rightarrow> (raw_result \<times> (raw_result, nat) owners) res" where
  "release_raw i w =
     rbind (live i w) (\<lambda>out. Inr (out, (put i (Some (result_moved out)) w)\<lparr>ow_raw := ow_raw w @ opt_list (result_held out)\<rparr>))"

text \<open>A raw result is given to the class again, or released by hand.\<close>

definition result_of_raw :: "raw_result \<Rightarrow> (raw_result, nat) owners \<Rightarrow> (raw_result, nat) owners" where
  "result_of_raw r w = w\<lparr>ow_objects := ow_objects w @ [Some r], ow_raw := fold remove1 (opt_list (result_held r)) (ow_raw w)\<rparr>"

definition evmc_release_result :: "raw_result \<Rightarrow> (raw_result, nat) owners \<Rightarrow> (raw_result, nat) owners" where
  "evmc_release_result r w =
     w\<lparr>ow_released := ow_released w @ opt_list (result_held r), ow_raw := fold remove1 (opt_list (result_held r)) (ow_raw w)\<rparr>"

section \<open>Virtual machines\<close>

text \<open>The object has the pointer to the machine, or null.\<close>

definition VM_construct :: "'v \<Rightarrow> ('v option, 'v) owners \<Rightarrow> ('v option, 'v) owners" where
  "VM_construct vm = own_construct id (Some vm)"

definition VM_destructor :: "nat \<Rightarrow> ('v option, 'v) owners \<Rightarrow> ('v option, 'v) owners res" where
  "VM_destructor = own_destruct id"

definition VM_move_constructor :: "nat \<Rightarrow> ('v option, 'v) owners \<Rightarrow> ('v option, 'v) owners res" where
  "VM_move_constructor = own_move (\<lambda>_. None)"

definition VM_move_assign :: "nat \<Rightarrow> nat \<Rightarrow> ('v option, 'v) owners \<Rightarrow> ('v option, 'v) owners res" where
  "VM_move_assign = own_assign id (\<lambda>_. None)"

definition VM_bool :: "'v option \<Rightarrow> bool" where
  "VM_bool vm = (vm \<noteq> None)"

section \<open>Nothing is released twice or lost\<close>

definition owned :: "('o \<Rightarrow> 'r option) \<Rightarrow> 'o option list \<Rightarrow> 'r multiset" where
  "owned held xs = mset (concat (map (\<lambda>x. case x of Some y \<Rightarrow> opt_list (held y) | None \<Rightarrow> []) xs))"

text \<open>What was created was released, was given away, or belongs to one object.\<close>

definition accounted :: "('o \<Rightarrow> 'r option) \<Rightarrow> ('o, 'r) owners \<Rightarrow> bool" where
  "accounted held w \<longleftrightarrow> mset (ow_created w) = mset (ow_released w) + mset (ow_raw w) + owned held (ow_objects w)"

lemma owned_append [simp]: "owned held (xs @ ys) = owned held xs + owned held ys"
  by (simp add: owned_def)

lemma owned_single [simp]: "owned held [Some x] = mset (opt_list (held x))" "owned held [None] = {#}" "owned held [] = {#}"
  by (simp_all add: owned_def)

lemma owned_update:
  assumes "i < length xs" and "xs ! i = Some x"
  shows "owned held (xs[i := y]) + mset (opt_list (held x)) = owned held xs + owned held [y]"
proof -
  have "owned held xs = owned held (take i xs) + (owned held [Some x] + owned held (drop (Suc i) xs))"
    using id_take_nth_drop [OF assms(1)] assms(2) owned_append [of held "take i xs" "Some x # drop (Suc i) xs"] owned_append [of held "[Some x]" "drop (Suc i) xs"]
    by simp
  moreover have "owned held (xs[i := y]) = owned held (take i xs) + (owned held [y] + owned held (drop (Suc i) xs))"
    using upd_conv_take_nth_drop [OF assms(1), of y] owned_append [of held "take i xs" "y # drop (Suc i) xs"] owned_append [of held "[y]" "drop (Suc i) xs"]
    by simp
  ultimately show ?thesis by simp
qed

lemma live_iff: "live i w = Inr x \<longleftrightarrow> i < length (ow_objects w) \<and> ow_objects w ! i = Some x"
  by (auto simp: live_def split: option.splits)

text \<open>Nothing is released twice, nothing that still has an owner is released, nothing has two owners, and what has no owner is released.\<close>

definition released_once :: "('o \<Rightarrow> 'r option) \<Rightarrow> ('o, 'r) owners \<Rightarrow> bool" where
  "released_once held w \<longleftrightarrow>
     distinct (ow_released w) \<and> set (ow_released w) \<inter> (set (ow_raw w) \<union> set_mset (owned held (ow_objects w))) = {}
     \<and> (\<forall>b. count (mset (ow_raw w) + owned held (ow_objects w)) b \<le> 1)
     \<and> (ow_raw w = [] \<and> owned held (ow_objects w) = {#} \<longrightarrow> set (ow_released w) = set (ow_created w))"

lemma accounted_released_once:
  assumes "accounted held w" and "distinct (ow_created w)"
  shows "released_once held w"
proof -
  let ?h = "owned held (ow_objects w)"
  have eq: "mset (ow_created w) = mset (ow_released w) + mset (ow_raw w) + ?h" and "distinct (ow_created w)"
    using assms by (simp_all add: accounted_def)
  then have le: "count (mset (ow_released w)) b + count (mset (ow_raw w)) b + count ?h b \<le> 1" for b
    by (metis count_union distinct_count_atmost_1 le_numeral_extra(4) le_zero_eq nat_le_linear)
  have "count (mset (ow_released w)) b \<le> 1" for b using le [of b] by simp
  then have "distinct (ow_released w)" by (metis count_greater_zero_iff distinct_count_atmost_1 le_antisym not_in_iff Suc_leI One_nat_def set_mset_mset)
  moreover have "set (ow_released w) \<inter> (set (ow_raw w) \<union> set_mset ?h) = {}"
  proof -
    have False if "b \<in> set (ow_released w)" "b \<in> set (ow_raw w) \<or> b \<in># ?h" for b
    proof -
      have "0 < count (mset (ow_released w)) b" "0 < count (mset (ow_raw w)) b + count ?h b"
        using that by (auto simp: count_greater_zero_iff)
      then show False using le [of b] by linarith
    qed
    then show ?thesis by blast
  qed
  moreover have "count (mset (ow_raw w) + ?h) b \<le> 1" for b using le [of b] by simp
  moreover have "set (ow_released w) = set (ow_created w)" if "ow_raw w = []" "?h = {#}"
    using eq that by (metis add.right_neutral mset_zero_iff set_mset_mset)
  ultimately show ?thesis unfolding released_once_def by blast
qed

text \<open>The contract of a class whose objects own something: a moved object owns nothing.\<close>

locale unique_owner =
  fixes held :: "'o \<Rightarrow> 'r option" and moved :: "'o \<Rightarrow> 'o"
  assumes held_moved: "held (moved x) = None"
begin

lemma construct_accounted: "accounted held w \<Longrightarrow> accounted held (own_construct held x w)"
  by (simp add: accounted_def own_construct_def)

lemma destruct_accounted:
  assumes "accounted held w" and "own_destruct held i w = Inr w'"
  shows "accounted held w'"
proof -
  obtain x where x: "i < length (ow_objects w)" "ow_objects w ! i = Some x" and w': "w' = (put i None w)\<lparr>ow_released := ow_released w @ opt_list (held x)\<rparr>"
    using assms(2) by (auto simp: own_destruct_def rbind_eq_Inr live_iff)
  show ?thesis using assms(1) owned_update [OF x, of held None] by (simp add: accounted_def w' put_def add.commute)
qed

lemma move_accounted:
  assumes "accounted held w" and "own_move moved other w = Inr w'"
  shows "accounted held w'"
proof -
  obtain x where x: "other < length (ow_objects w)" "ow_objects w ! other = Some x"
    and w': "w' = w\<lparr>ow_objects := (ow_objects w)[other := Some (moved x)] @ [Some x]\<rparr>"
    using assms(2) by (auto simp: own_move_def rbind_eq_Inr live_iff put_def Let_def)
  show ?thesis using assms(1) owned_update [OF x, of held "Some (moved x)"] by (simp add: accounted_def w' held_moved opt_list_def [of None])
qed

lemma assign_accounted:
  assumes "accounted held w" and "own_assign held moved i other w = Inr w'"
  shows "accounted held w'"
proof -
  obtain x y where x: "i < length (ow_objects w)" "ow_objects w ! i = Some x" and y: "other < length (ow_objects w)" "ow_objects w ! other = Some y"
    and w': "w' = w\<lparr>ow_released := ow_released w @ opt_list (held x), ow_objects := (ow_objects w)[i := Some y, other := Some (moved y)]\<rparr>"
    using assms(2) by (auto simp: own_assign_def rbind_eq_Inr live_iff put_def Let_def)
  have y': "other < length ((ow_objects w)[i := Some y])" "(ow_objects w)[i := Some y] ! other = Some y" using y by (cases "i = other"; simp)+
  let ?last = "owned held ((ow_objects w)[i := Some y, other := Some (moved y)])"
  have "owned held (ow_objects w) + mset (opt_list (held y)) = (?last + mset (opt_list (held x))) + mset (opt_list (held y))"
    using owned_update [OF x, of held "Some y"] owned_update [OF y', of held "Some (moved y)"]
    by (simp add: held_moved opt_list_def [of None] ac_simps)
  then have "owned held (ow_objects w) = ?last + mset (opt_list (held x))" by (simp only: add_right_cancel)
  then show ?thesis using assms(1) by (simp add: accounted_def w' ac_simps)
qed

end

interpretation result_owner: unique_owner result_held result_moved
  by unfold_locales (simp add: result_held_def result_moved_def)

interpretation VM_owner: unique_owner id "\<lambda>_. None"
  by unfold_locales simp

text \<open>
  The states that the class \<^verbatim>\<open>result\<close> can reach. A buffer is named by its allocation, so that a new one differs from all
  earlier ones; only raw results that were given away are given back or released by hand.
\<close>

definition no_owners :: "('o, 'r) owners" where
  "no_owners = \<lparr>ow_objects = [], ow_created = [], ow_released = [], ow_raw = []\<rparr>"

inductive result_reachable :: "(raw_result, nat) owners \<Rightarrow> bool" where
  start: "result_reachable no_owners"
| make: "result_reachable w \<Longrightarrow> malloc = None \<or> (\<exists>b. malloc = Some b \<and> b \<notin> set (ow_created w)) \<Longrightarrow> result_reachable (mk_result malloc status gas output w)"
| destruct: "result_reachable w \<Longrightarrow> result_destructor i w = Inr w' \<Longrightarrow> result_reachable w'"
| move: "result_reachable w \<Longrightarrow> result_move_constructor i w = Inr w' \<Longrightarrow> result_reachable w'"
| assign: "result_reachable w \<Longrightarrow> result_move_assign i j w = Inr w' \<Longrightarrow> result_reachable w'"
| give: "result_reachable w \<Longrightarrow> release_raw i w = Inr (out, w') \<Longrightarrow> result_reachable w'"
| take: "result_reachable w \<Longrightarrow> set (opt_list (result_held r)) \<subseteq> set (ow_raw w) \<Longrightarrow> result_reachable (result_of_raw r w)"
| release: "result_reachable w \<Longrightarrow> set (opt_list (result_held r)) \<subseteq> set (ow_raw w) \<Longrightarrow> result_reachable (evmc_release_result r w)"

lemma remove_raw:
  assumes "set (opt_list x) \<subseteq> set raw"
  shows "mset (fold remove1 (opt_list x) raw) + mset (opt_list x) = mset raw"
  using assms by (cases x) (simp_all add: opt_list_def)

lemma created_unchanged:
  "own_destruct held i w = Inr w' \<Longrightarrow> ow_created w' = ow_created w" "own_move moved i w = Inr w' \<Longrightarrow> ow_created w' = ow_created w"
  "own_assign held moved i j w = Inr w' \<Longrightarrow> ow_created w' = ow_created w"
  by (auto simp: own_destruct_def own_move_def own_assign_def rbind_eq_Inr put_def Let_def)

lemma release_raw_accounted:
  assumes "accounted result_held w" and "release_raw i w = Inr (out, w')"
  shows "accounted result_held w' \<and> ow_created w' = ow_created w"
proof -
  have x: "i < length (ow_objects w)" "ow_objects w ! i = Some out"
    and w': "w' = (put i (Some (result_moved out)) w)\<lparr>ow_raw := ow_raw w @ opt_list (result_held out)\<rparr>"
    using assms(2) by (auto simp: release_raw_def rbind_eq_Inr live_iff)
  show ?thesis
    using assms(1) owned_update [OF x, of result_held "Some (result_moved out)"]
    by (simp add: accounted_def w' put_def result_owner.held_moved opt_list_def [of None] add.commute)
qed

lemma result_reachable_accounted: "result_reachable w \<Longrightarrow> accounted result_held w \<and> distinct (ow_created w)"
proof (induction rule: result_reachable.induct)
  case start
  show ?case by (simp add: no_owners_def accounted_def)
next
  case (make w malloc status gas data)
  have "result_held (evmc_make_result malloc status gas data) = None \<or> result_held (evmc_make_result malloc status gas data) = malloc"
    by (auto simp: result_held_def evmc_make_result_def Let_def split: option.splits if_splits)
  then have "distinct (ow_created (mk_result malloc status gas data w))"
    using make(2,3) by (auto simp: mk_result_def own_construct_def opt_list_def split: option.splits)
  then show ?case using make(3) result_owner.construct_accounted by (simp add: mk_result_def)
next
  case (destruct w i w')
  then show ?case using result_owner.destruct_accounted created_unchanged(1) unfolding result_destructor_def by metis
next
  case (move w i w')
  then show ?case using result_owner.move_accounted created_unchanged(2) unfolding result_move_constructor_def by metis
next
  case (assign w i j w')
  then show ?case using result_owner.assign_accounted created_unchanged(3) unfolding result_move_assign_def by metis
next
  case (give w i out w')
  then show ?case using release_raw_accounted by metis
next
  case (take w r)
  then show ?case using remove_raw [OF take(2)] by (simp add: accounted_def result_of_raw_def ac_simps)
next
  case (release w r)
  then show ?case using remove_raw [OF release(2)] by (simp add: accounted_def evmc_release_result_def ac_simps)
qed

text \<open>The memory of results. Whatever sequence of constructions, moves, assignments, releases and destructions has
  run, no buffer was freed twice, no buffer that an object or the holder of a raw result still has was freed, no two of
  them have the same buffer, and when they are all gone every buffer that was allocated has been freed.\<close>

theorem result_memory_safe:
  assumes "result_reachable w"
  shows "released_once result_held w"
  using accounted_released_once result_reachable_accounted [OF assms] by blast

inductive VM_reachable :: "('v option, 'v) owners \<Rightarrow> bool" where
  start: "VM_reachable no_owners"
| construct: "VM_reachable w \<Longrightarrow> vm \<notin> set (ow_created w) \<Longrightarrow> VM_reachable (VM_construct vm w)"
| destruct: "VM_reachable w \<Longrightarrow> VM_destructor i w = Inr w' \<Longrightarrow> VM_reachable w'"
| move: "VM_reachable w \<Longrightarrow> VM_move_constructor i w = Inr w' \<Longrightarrow> VM_reachable w'"
| assign: "VM_reachable w \<Longrightarrow> VM_move_assign i j w = Inr w' \<Longrightarrow> VM_reachable w'"

lemma VM_reachable_accounted: "VM_reachable w \<Longrightarrow> accounted id w \<and> distinct (ow_created w)"
proof (induction rule: VM_reachable.induct)
  case start
  show ?case by (simp add: no_owners_def accounted_def)
next
  case (construct w vm)
  then have "distinct (ow_created (VM_construct vm w))" by (simp add: VM_construct_def own_construct_def opt_list_def)
  then show ?case using construct VM_owner.construct_accounted unfolding VM_construct_def by metis
next
  case (destruct w i w')
  then show ?case using VM_owner.destruct_accounted created_unchanged(1) unfolding VM_destructor_def by metis
next
  case (move w i w')
  then show ?case using VM_owner.move_accounted created_unchanged(2) unfolding VM_move_constructor_def by metis
next
  case (assign w i j w')
  then show ?case using VM_owner.assign_accounted created_unchanged(3) unfolding VM_move_assign_def by metis
qed

text \<open>A virtual machine is destroyed exactly once, by the last object that has it.\<close>

theorem VM_destroyed_once: "VM_reachable w \<Longrightarrow> released_once id w"
  using accounted_released_once VM_reachable_accounted by blast

text \<open>A result with one byte of output that is moved, and whose two objects are then destroyed\<close>

theorem result_memory_safe_witness:
  "\<exists>w. result_reachable w \<and> ow_objects w = [None, None] \<and> ow_released w = [1] \<and> released_once result_held w"
proof -
  let ?w1 = "mk_result (Some 1) 0 5 [7] no_owners"
  have r1: "result_reachable ?w1" by (rule result_reachable.make [OF result_reachable.start]) (simp add: no_owners_def)
  obtain w2 where w2: "result_move_constructor 0 ?w1 = Inr w2"
    and "ow_objects w2 = [Some ((evmc_make_result (Some 1) 0 5 [7])\<lparr>rr_release := False\<rparr>), Some (evmc_make_result (Some 1) 0 5 [7])]" "ow_released w2 = []"
    by (simp add: result_move_constructor_def own_move_def mk_result_def own_construct_def no_owners_def live_def put_def result_moved_def Let_def)
  then obtain w3 where w3: "result_destructor 0 w2 = Inr w3" and "ow_objects w3 = [None, Some (evmc_make_result (Some 1) 0 5 [7])]" "ow_released w3 = []"
    by (simp add: result_destructor_def own_destruct_def live_def put_def result_held_def opt_list_def)
  then obtain w4 where w4: "result_destructor 1 w3 = Inr w4" and final: "ow_objects w4 = [None, None]" "ow_released w4 = [1]"
    by (simp add: result_destructor_def own_destruct_def live_def put_def result_held_def opt_list_def evmc_make_result_def)
  have "result_reachable w4"
    using result_reachable.destruct [OF result_reachable.destruct [OF result_reachable.move [OF r1 w2] w3] w4] .
  then show ?thesis using final result_memory_safe [of w4] by blast
qed

end
