(* ===== verification/Logging.thy ===== *)
theory Logging
  imports Bytes
begin

text \<open>
  The set-up of logging, \<^verbatim>\<open>src/base/log.cpp\<close>: the sinks and the filters that a mode gives, and which messages then reach
  which sink. Of Boost.Log the model has the state of its core, a filter and a list of sinks with filters of their own,
  and the documented way of a record: it is dropped by the filter of the core, or given to every sink whose filter lets
  it through, or to a default sink when there is none.
\<close>

section \<open>Levels\<close>

datatype severity = Trace | Debug | Info | Warning | Error | Fatal

fun rank :: "severity \<Rightarrow> nat" where
  "rank Trace = 0" | "rank Debug = 1" | "rank Info = 2" | "rank Warning = 3" | "rank Error = 4" | "rank Fatal = 5"

lemma rank_inject: "rank a = rank b \<longleftrightarrow> a = b"
  by (cases a; cases b) simp_all

instantiation severity :: linorder
begin

definition less_eq_severity :: "severity \<Rightarrow> severity \<Rightarrow> bool" where
  "less_eq_severity a b \<longleftrightarrow> rank a \<le> rank b"

definition less_severity :: "severity \<Rightarrow> severity \<Rightarrow> bool" where
  "less_severity a b \<longleftrightarrow> rank a < rank b"

instance
  by standard (auto simp: less_eq_severity_def less_severity_def rank_inject)

end

section \<open>Set-up\<close>

datatype sink_kind = CLOG | TEXT_FILE string nat nat

record sink =
  sk_kind :: sink_kind
  sk_auto_flush :: bool
  sk_filter :: "severity \<Rightarrow> bool"

record log_core =
  lc_filter :: "severity \<Rightarrow> bool"
  lc_sinks :: "sink list"
  lc_common_attributes :: bool

definition initial_core :: log_core where
  "initial_core = \<lparr>lc_filter = (\<lambda>_. True), lc_sinks = [], lc_common_attributes = False\<rparr>"

definition Sink_STDOUT :: "64 word" where
  "Sink_STDOUT = 0x1"

definition Sink_FILE :: "64 word" where
  "Sink_FILE = 0x2"

definition clearLoggerSettings :: "log_core \<Rightarrow> log_core" where
  "clearLoggerSettings c = c\<lparr>lc_sinks := []\<rparr>"

text \<open>The date is that of the clock, as a text.\<close>

definition severity_text :: "severity \<Rightarrow> string" where
  "severity_text s = (case s of Trace \<Rightarrow> ''trace'' | Debug \<Rightarrow> ''debug'' | Info \<Rightarrow> ''info'' | Warning \<Rightarrow> ''warning'' | Error \<Rightarrow> ''error'' | Fatal \<Rightarrow> ''fatal'')"

definition formatter :: "string \<Rightarrow> severity \<Rightarrow> string \<Rightarrow> string" where
  "formatter dateAsString s smessage = dateAsString @ '' | '' @ severity_text s @ '' | '' @ smessage"

definition LOG_FOLDER :: string where
  "LOG_FOLDER = ''logs''"

definition LOG_FILE_FORMAT :: string where
  "LOG_FILE_FORMAT = ''%m-%d-%Y_%H-%M-%S_%N.log''"

definition LOG_FILE_MAX_SIZE :: nat where
  "LOG_FILE_MAX_SIZE = 5 * 1024 * 1024"

definition LOG_MAX_FILE_COUNT :: nat where
  "LOG_MAX_FILE_COUNT = 512"

definition file_sink :: sink where
  "file_sink = \<lparr>sk_kind = TEXT_FILE (LOG_FOLDER @ ''/'' @ LOG_FILE_FORMAT) LOG_FILE_MAX_SIZE LOG_MAX_FILE_COUNT, sk_auto_flush = True, sk_filter = (\<lambda>_. True)\<rparr>"

definition setFileSink :: "log_core \<Rightarrow> log_core" where
  "setFileSink c = c\<lparr>lc_sinks := lc_sinks c @ [file_sink]\<rparr>"

definition stdout_sink :: sink where
  "stdout_sink = \<lparr>sk_kind = CLOG, sk_auto_flush = True, sk_filter = (\<lambda>s. Debug \<le> s)\<rparr>"

definition setStdoutSink :: "log_core \<Rightarrow> log_core" where
  "setStdoutSink c = c\<lparr>lc_sinks := lc_sinks c @ [stdout_sink]\<rparr>"

definition disableLogger :: "log_core \<Rightarrow> log_core" where
  "disableLogger c = c\<lparr>lc_filter := (\<lambda>s. Fatal < s)\<rparr>"

unbundle bit_operations_syntax

definition initLog :: "64 word \<Rightarrow> log_core \<Rightarrow> log_core" where
  "initLog mode c =
     (let c = clearLoggerSettings c in
      if mode = 0 then disableLogger c
      else
        let c = (if mode AND Sink_STDOUT \<noteq> 0 then setStdoutSink c else c);
            c = (if mode AND Sink_FILE \<noteq> 0 then setFileSink c else c)
        in c\<lparr>lc_common_attributes := True\<rparr>)"

text \<open>The sinks that a message reaches; \<open>None\<close> stands for the default sink. In a build that is not for debugging the macro
  \<^verbatim>\<open>LOG_DEBUG\<close> drops its message.\<close>

definition reached :: "severity \<Rightarrow> log_core \<Rightarrow> sink option list" where
  "reached s c =
     (if lc_filter c s then
        (if lc_sinks c = [] then [None] else map Some (filter (\<lambda>k. sk_filter k s) (lc_sinks c)))
      else [])"

definition log_message :: "bool \<Rightarrow> string \<Rightarrow> severity \<Rightarrow> string \<Rightarrow> log_core \<Rightarrow> (sink option \<times> string) list" where
  "log_message debug_build date s smessage c =
     (if s = Debug \<and> \<not> debug_build then [] else map (\<lambda>k. (k, formatter date s smessage)) (reached s c))"

section \<open>What reaches the sinks\<close>

text \<open>The modes of the node, of the client and the one that disables logging, on a core as the library has it at the start\<close>

theorem initLog_modes:
  "reached s (initLog (Sink_FILE OR Sink_STDOUT) initial_core) = (if Debug \<le> s then [Some stdout_sink] else []) @ [Some file_sink]"
  "reached s (initLog Sink_FILE initial_core) = [Some file_sink]"
  "reached s (initLog Sink_STDOUT initial_core) = (if Debug \<le> s then [Some stdout_sink] else [])"
  "reached s (initLog 0 c) = []"
proof -
  have "\<not> Fatal < s" by (cases s) (simp_all add: less_severity_def)
  then show "reached s (initLog 0 c) = []" by (simp add: reached_def initLog_def disableLogger_def clearLoggerSettings_def)
qed (simp_all add: reached_def initLog_def initial_core_def clearLoggerSettings_def setStdoutSink_def setFileSink_def Sink_FILE_def Sink_STDOUT_def
      stdout_sink_def file_sink_def)

text \<open>Removing the sinks leaves the filter of the core, so a logger that was disabled once stays silent in every later mode.\<close>

theorem disabled_log_stays_silent: "reached s (initLog mode (initLog 0 c)) = []"
proof -
  have "\<not> Fatal < s" by (cases s) (simp_all add: less_severity_def)
  moreover have "lc_filter (initLog mode (initLog 0 c)) = (\<lambda>s. Fatal < s)"
    by (simp add: initLog_def disableLogger_def clearLoggerSettings_def setStdoutSink_def setFileSink_def Let_def)
  ultimately show ?thesis by (simp add: reached_def)
qed

end
