(* ===== verification/Spec2Isabelle.thy ===== *)
theory Spec2Isabelle
  imports Requests Commands Startup Explorer EvmcTypes Loader Ownership Logging
begin

text \<open>
  Likelib is a proof-of-work blockchain node with accounts and smart contracts, written in C++.
  This library models the node from its bytes up to its network protocol and proves what makes
  it correct. Paths are relative to \<^verbatim>\<open>src/\<close>, the source directory of the program.

  \<^bold>\<open>The program and the theories.\<close>

  \<^item> \<^verbatim>\<open>base/\<close>: the error classes and assertions (theory \<open>Prelude\<close>, one datatype \<open>error\<close> and results
    \<open>error + 'a\<close>), byte strings with their text encodings (\<open>Bytes\<close>), the archives
    (\<open>Serialization\<close>: a writer is a function on the bytes written so far, a reader a function from an
    archive with a position to a value and the archive behind it), time stamps (\<open>Time\<close>), SHA-256, keys
    and checked integers (\<open>Crypto\<close>), the implementation of Keccak-256 (\<open>Keccak\<close>) and the other hash classes
    (\<open>Hashes\<close>), keys and their files (\<open>Keys\<close>), the database wrapper (\<open>Persistence\<close>), property trees
    (\<open>PropertyTree\<close>), observers and pools of objects (\<open>Pools\<close>), the set-up of logging (\<open>Logging\<close>).
  \<^item> \<^verbatim>\<open>core/\<close>, the ledger: addresses (\<open>Address\<close>), transactions and their pool (\<open>Transaction\<close>,
    \<open>TransactionsSet\<close>), blocks (\<open>Block\<close>), proof of work (\<open>Consensus\<close>), the chain in memory (\<open>Blockchain\<close>) and on disk
    (\<open>Persistence\<close>), the accounts (\<open>Managers\<close>), the callbacks of the virtual machine (\<open>EthHost\<close>, with the
    conversions of \<^verbatim>\<open>vm/tools.cpp\<close> in \<open>VmTools\<close>), and the class \<open>Core\<close> that owns all of it
    (\<open>Core\<close> holds the definitions, \<open>Execution\<close> what executing transactions does, \<open>Unwinding\<close> the state that an
    exception leaves, \<open>Admission\<close> what the handlers of transactions and blocks do).
  \<^item> \<^verbatim>\<open>vm/\<close>, contracts: the searches in texts (\<open>Regex\<close>), compiling a Solidity file and encoding and decoding of calls with
    the metadata of a contract (\<open>Contracts\<close>), the addresses in a call (\<open>AddressArguments\<close>), and the encoder that Cython
    generates into \<^verbatim>\<open>vm/encode_decode.cpp\<close> (\<open>Encoder\<close>: the functions of the Python module, from the lines it quotes).
    Of the vendored library \<^verbatim>\<open>vm/evmc/\<close>, what the program uses: values and their comparisons (\<open>EvmcTypes\<close>), the loader of
    virtual machines (\<open>Loader\<close>), and the classes that own results and machines (\<open>Ownership\<close>).
  \<^item> \<^verbatim>\<open>node/\<close>: the miner with its worker threads and the node that connects it to the core
    (\<open>Miner\<close>: one step per atomic action of a thread), the queries of the RPC service (\<open>RpcService\<close>), and the start of
    a node from its configuration with its databases, its key, its virtual machine and its RPC servers (\<open>Startup\<close>).
  \<^item> \<^verbatim>\<open>rpc/\<close>: the two ways to call that service from another process, with JSON over HTTP (\<open>HttpTools\<close> for the
    format, \<open>Http\<close> for server and client) and with the messages of gRPC (\<open>Grpc\<close>).
  \<^item> \<^verbatim>\<open>client/\<close>: the command line client with its options, its dispatch to subprograms and its commands (\<open>Client\<close>), and
    what a command achieves on a node (\<open>Commands\<close>) or, for contracts, in the file system (\<open>ContractCommands\<close>).
  \<^item> \<^verbatim>\<open>gui/\<close>: the explorer, a window with two tables and a thread that polls a node (\<open>Explorer\<close>: the choices of the user, the
    events of the window and the turns of the thread interleave).
  \<^item> \<^verbatim>\<open>core/\<close> and \<^verbatim>\<open>net/\<close>, the network: endpoints and the thirteen messages (\<open>Messages\<close>, \<open>Decoding\<close>), the send queue and
    the framing of a connection (\<open>Session\<close>), ratings, the pool of new peers and the Kademlia table (\<open>PeerPool\<close>),
    the host (\<open>Host\<close>), the handlers of a peer and the synchronizer (\<open>Peer\<close>), the state they leave when they
    throw (\<open>PeerUnwinding\<close>), the invariant of a host under all events (\<open>Protocol\<close>), the synchronisation as a whole (\<open>Sync\<close>), the meeting of two hosts (\<open>Handshake\<close>), requests and
    their responses (\<open>Requests\<close>), and the attempts and the acceptance of connections (\<open>Connector\<close>).

  \<^bold>\<open>How the code is modelled.\<close> A class is a record, an enumeration a datatype, a method a function
  that takes the object and returns it changed; an exception or failed assertion is an \<open>Inl\<close> value, and
  reading an empty optional or beyond the end of a container is one too. Handlers that throw do not end the node,
  since \<^verbatim>\<open>net/connection.cpp\<close> and the RPC servers catch their exceptions: the functions with the suffix \<open>_left\<close> give the
  state at the point where the exception was thrown, and the reachable states of core and host go on from there.
  What follows a failed assertion or the use of an empty optional, which are no exceptions, is not followed. Integers have the
  width of the source, so that they wrap where the source wraps; balances are 256-bit integers
  with range checks, as in the multiprecision library. Hash tables whose order does not matter
  are maps; peers are addresses in a store, because several pools share them. Observers are the
  list of announced events. Loops that are not structural have a termination proof; no function
  of the model has fuel except the runs \<open>session_run\<close> and \<open>run_worker\<close>, which iterate a step a given number of
  times, and the theorems about them state how many steps are enough.

  \<^bold>\<open>What is a parameter.\<close> The functions of OpenSSL, secp256k1 and the multiprecision library are the
  fields of \<open>ext\<close> and \<open>digest_ext\<close>, the JSON values of the C++ REST SDK those of \<open>json\<close>, the ciphers those of \<open>evp\<close>, the command line parser of Boost
  those of \<open>parser\<close>, the trees of Boost those of \<open>ptree_lib\<close>, the Solidity compiler and the file system around it those of
  \<open>toolchain\<close>, Python with its JSON module and the package \<^verbatim>\<open>web3\<close> those of \<open>python\<close>, the dynamic linker with the machine it
  loads those of \<open>dynamic_linker\<close> (and \<open>vm_loader\<close> for the paths), what a starting node asks of its system those of \<open>startup\<close>,
  what the explorer uses of wxWidgets those of \<open>wx\<close>, the parsing and printing of network addresses those of \<open>net_ext\<close>, LevelDB is \<open>leveldb\<close>, and
  \<open>node_env\<close> holds them together with the virtual machine and the arrangement chosen by \<^verbatim>\<open>std::nth_element\<close>. Theorems name
  what they need of them: \<open>hash_ok\<close>, \<open>big_ok\<close>, \<open>base64_ok\<close>, \<open>secp_ok\<close>, \<open>json_ok\<close>, \<open>net_ok\<close>, \<open>leveldb_ok\<close>, \<open>ptree_ok\<close>, \<open>open_ok\<close>, \<open>wx_ok\<close>, \<open>evm_ok\<close>, \<open>nth_element_ok\<close>; their witnesses
  instantiate them with concrete functions (\<open>demo_ext\<close>, \<open>demo_json\<close>, \<open>demo_net\<close>, \<open>map_leveldb\<close>, \<open>failing_vm\<close>, \<open>nth_element_sort\<close>,
  \<open>demo_toolchain\<close>, \<open>demo_boost\<close>, \<open>demo_compiler\<close>, \<open>demo_python\<close>, \<open>demo_ptree\<close>, \<open>demo_startup\<close>, \<open>demo_linker\<close>, \<open>demo_wx\<close>).

  \<^bold>\<open>Interfaces.\<close> The archives are an interface of writer and reader (locale \<open>codec\<close> and the locales of
  \<open>Serialization\<close>), interpreted for every type that is written; readers alone are the locale \<open>decoder\<close>, the
  classes of hash values are \<open>fixed_hash\<close>, the messages of gRPC \<open>carrier\<close>, the keys that are kept in files \<open>key_file\<close>; the
  commands rely on the RPC clients through \<open>faithful_rpc\<close>, which both clients implement, and the synchronizer relies on the core through
  \<open>block_sink\<close>. The pools of objects are \<open>object_pool\<close>, the pool of transactions \<open>tx_pool\<close>, the tables of the explorer \<open>grid_table\<close>,
  and classes whose objects own a resource \<open>unique_owner\<close>.

  \<^bold>\<open>What is proved.\<close>

  \<^item> The chain: every reachable chain is one linked list of blocks with increasing time stamps and
    consistent lookups, the two indices implement adding to a list, offering a block never
    throws, and a restart restores the chain from the database exactly.
  \<^item> Proof of work: the comparison of bytes is that of 256-bit numbers; retargeting halves, keeps
    or doubles the target within its bounds.
  \<^item> Money: transfers move it, successful transactions and the callbacks of contracts never
    create it; the outcomes of a transfer and of a whole valid block; and the places where the code
    does otherwise, as theorems of kind error.
  \<^item> The pool and the admission of transactions and blocks, on every branch: a block is rejected without
    effect, added and announced, or stays on top unannounced when its execution throws.
  \<^item> Encodings: base58, integers, transactions, blocks, ABI strings and messages survive the round
    trip, and whatever bytes are decoded as a message give a well-formed one.
  \<^item> Keccak-256: the table-driven, buffered implementation computes the sponge function of the
    specification for every message shorter than 64 KiB (its length counter has 16 bits).
  \<^item> Remote calls: a call over gRPC or HTTP returns what the service of the node returns and changes
    the node as a local call would; over HTTP for fees below \<open>2 ^ 63\<close>, beyond which they are not kept.
  \<^item> The client: a transfer typed by a user becomes a signed transaction in the pool of the node and
    part of the work of its miner. The key of a node is the same after every restart.
  \<^item> Contracts: the compile command leaves the files that the encoder loads; an encoded call begins
    with the selector by which the decoder finds its method; the parser of arguments returns what
    was typed for exactly the values that the theorem describes, and something else for the others (a quoted number
    becomes a number); addresses are replaced, up to the separators it handles.
  \<^item> Start-up: a node comes up on a new database with the genesis block, and on the database of an
    earlier run with its chain, but without the emissions of its blocks; loading the virtual machine has exactly the documented outcomes, its
    options are set in order, and every buffer and machine is released exactly once.
  \<^item> The miner: under every interleaving only solutions of given jobs are reported and no
    assertion fails; a worker ends with a solution when there is one; the chain accepts what was mined.
  \<^item> The network: messages arrive as sent and in order; the Kademlia table and all invariants of
    the host are kept whatever the peers send and whichever handler throws; synchronisation reaches the top block of the peer. Two
    hosts that connect become peers of each other; requests behave as the peer model says, and wait
    for a number that is not the one their message is sent with; a connection attempt reports the
    result of its socket once, also after a time-out.
  \<^item> The explorer: its tables show, cell by cell, all blocks below the top and their transactions, its
    two labels are exchanged, and it never uses gRPC.

  \<^bold>\<open>What is not modelled.\<close> Locks, except where the miner's threads and the explorer's thread meet: every handler of the core and
  of the host runs as one step. The event loop, timers and sockets of Boost.Asio: their completions
  are the events of \<open>net_event\<close> and the steps of \<open>Connector\<close>. The lifetime of peer objects. The virtual machine, the Solidity
  compiler and Python themselves; of the generated encoder the support code of Cython (reference counts, module
  creation, conversions), which has no counterpart in the Python module. The connections below the RPC servers: a
  remote call reaches its node. Signals, which end the process. The layout of the explorer's window. The
  text of log messages. Of \<^verbatim>\<open>vm/evmc/\<close> the tables of instructions, which the build leaves out, and the wrappers that pass
  the calls of a machine on to the host class. Accessors that return a field are the field.
\<close>

end
